(* ===== verification/Prelude.thy ===== *)
theory Prelude
  imports Main "HOL-Library.Word"
begin

text \<open>
  What every component theory shares: the types of Go values the sources use (times and
  durations in nanoseconds, 32-bit counters), the few library functions of Go they call on
  lists and strings, and the collections of rules the component proofs are driven by.

  Times and durations are unbounded integers: the configuration bounds every duration the
  worker uses to hours (\<^verbatim>\<open>internal/config/config.go\<close>), far from the 64-bit range of Go.
  A Go string is a list of characters; a character stands for a code point below 256.
\<close>

section \<open>Collections\<close>

named_theorems trace_rules "how an operation extends the trace of a run"
named_theorems ledger_rules "how an operation changes a ledger of create requests"
named_theorems frame_rules "what an operation leaves unchanged"

section \<open>Times, durations and counters\<close>

type_synonym time = int
type_synonym duration = int
type_synonym int32 = "32 word"

definition second :: duration where
  "second = 1000000000"

definition minute :: duration where
  "minute = 60 * second"

text \<open>Go's conversion \<open>int32(n)\<close>: the low 32 bits of \<open>n\<close>, read as two's complement.\<close>

definition int32_of :: "int \<Rightarrow> int" where
  "int32_of n = sint (word_of_int n :: int32)"

lemma int32_of_alt: "int32_of n = (n + 2 ^ 31) mod 2 ^ 32 - 2 ^ 31"
  by (simp add: int32_of_def sint_sbintrunc' signed_take_bit_eq_take_bit_shift take_bit_eq_mod)

lemma int32_of_id: "- (2 ^ 31) \<le> n \<Longrightarrow> n < 2 ^ 31 \<Longrightarrow> int32_of n = n"
  by (simp add: int32_of_alt)

lemma int32_of_range: "- (2 ^ 31) \<le> int32_of n" "int32_of n < 2 ^ 31"
  by (simp_all add: int32_of_alt)

lemma sint_int32_range: "- (2 ^ 31) \<le> sint (w :: int32)" "sint (w :: int32) < 2 ^ 31"
  using sint_ge [of w] sint_lt [of w] by simp_all

lemma int32_of_Suc:
  assumes "int32_of n < 2 ^ 31 - 1"
  shows "int32_of (n + 1) = int32_of n + 1"
proof -
  define k where "k = (n + 2147483648) mod 4294967296"
  have lt: "0 \<le> k + 1" "k + 1 < 4294967296" using assms by (simp_all add: int32_of_alt k_def)
  have "(n + 1 + 2147483648) mod 4294967296 = (k + 1) mod 4294967296"
    unfolding k_def mod_add_left_eq by (simp add: ac_simps)
  also have "\<dots> = k + 1" using lt by (rule mod_pos_pos_trivial)
  finally show ?thesis by (simp add: int32_of_alt k_def)
qed

text \<open>The capped doubling every retry and poll loop of the worker paces itself with.\<close>

definition backoff :: "duration \<Rightarrow> duration \<Rightarrow> duration" where
  "backoff cap interval = (let i = interval * 2 in if i > cap then cap else i)"

lemma backoff_le: "backoff cap i \<le> cap"
  by (simp add: backoff_def Let_def)

lemma backoff_pos: "0 < cap \<Longrightarrow> 0 < i \<Longrightarrow> 0 < backoff cap i"
  by (simp add: backoff_def Let_def)

lemma backoff_min: "backoff cap i = min (2 * i) cap"
  by (auto simp: backoff_def Let_def min_def)

section \<open>Strings\<close>

fun firstNonEmpty :: "string list \<Rightarrow> string" where
  "firstNonEmpty [] = ''''"
| "firstNonEmpty (v # vs) = (if v \<noteq> '''' then v else firstNonEmpty vs)"

lemma firstNonEmpty_last: "v \<noteq> '''' \<Longrightarrow> firstNonEmpty (vs @ [v]) \<noteq> ''''"
  by (induction vs) auto

definition trim_prefix :: "string \<Rightarrow> string \<Rightarrow> string" where
  "trim_prefix p s = (if take (length p) s = p then drop (length p) s else s)"

text \<open>\<open>strings.Trim(s, cutset)\<close> for a one-character cutset.\<close>

definition trim_char :: "char \<Rightarrow> string \<Rightarrow> string" where
  "trim_char c s = rev (dropWhile (\<lambda>x. x = c) (rev (dropWhile (\<lambda>x. x = c) s)))"

lemma set_dropWhile_subset: "set (dropWhile P s) \<subseteq> set s"
  using set_dropWhileD by fastforce

lemma set_trim_char: "set (trim_char c s) \<subseteq> set s"
proof -
  have "set (trim_char c s) \<subseteq> set (dropWhile (\<lambda>x. x = c) s)"
    using set_dropWhile_subset [of "\<lambda>x. x = c" "rev (dropWhile (\<lambda>x. x = c) s)"]
    by (simp add: trim_char_def)
  then show ?thesis using set_dropWhile_subset by fastforce
qed

lemma length_trim_char: "length (trim_char c s) \<le> length s"
  using length_dropWhile_le [of "\<lambda>x. x = c" s]
    length_dropWhile_le [of "\<lambda>x. x = c" "rev (dropWhile (\<lambda>x. x = c) s)"]
  by (simp add: trim_char_def)

lemma hd_dropWhile_neq: "dropWhile (\<lambda>x. x = c) s \<noteq> [] \<Longrightarrow> hd (dropWhile (\<lambda>x. x = c) s) \<noteq> c"
  using hd_dropWhile [of "\<lambda>x. x = c" s] by blast

lemma last_trim_char: "trim_char c s \<noteq> [] \<Longrightarrow> last (trim_char c s) \<noteq> c"
  unfolding trim_char_def last_rev by (rule hd_dropWhile_neq) simp

lemma hd_trim_char:
  assumes "trim_char c s \<noteq> []"
  shows "hd (trim_char c s) \<noteq> c"
proof -
  define d where "d = dropWhile (\<lambda>x. x = c) s"
  have ne: "dropWhile (\<lambda>x. x = c) (rev d) \<noteq> []"
    using assms by (auto simp: trim_char_def d_def)
  have "rev d = takeWhile (\<lambda>x. x = c) (rev d) @ dropWhile (\<lambda>x. x = c) (rev d)"
    by simp
  then have d: "d = rev (dropWhile (\<lambda>x. x = c) (rev d)) @ rev (takeWhile (\<lambda>x. x = c) (rev d))"
    by (metis rev_append rev_rev_ident)
  have dne: "d \<noteq> []" using ne by auto
  have "trim_char c s = rev (dropWhile (\<lambda>x. x = c) (rev d))"
    by (simp add: trim_char_def d_def)
  then have "hd (trim_char c s) = hd d"
    using ne d by (metis hd_append rev_is_Nil_conv)
  then show ?thesis using dne hd_dropWhile_neq by (simp add: d_def)
qed

definition ascii :: "char \<Rightarrow> nat" where
  "ascii ch = of_char ch"

text \<open>Decimal numerals, as \<open>strconv.FormatUint\<close> and \<open>%d\<close> print them.\<close>

definition digit :: "nat \<Rightarrow> char" where
  "digit d = char_of (48 + d)"

fun show_nat :: "nat \<Rightarrow> string" where
  "show_nat n = (if n < 10 then [digit n] else show_nat (n div 10) @ [digit (n mod 10)])"

declare show_nat.simps [simp del]

lemma ascii_digit [simp]: "d < 10 \<Longrightarrow> ascii (digit d) = 48 + d"
  by (simp add: ascii_def digit_def)

definition digits_value :: "string \<Rightarrow> nat" where
  "digits_value = foldl (\<lambda>acc ch. acc * 10 + (ascii ch - 48)) 0"

lemma digits_value_show: "digits_value (show_nat n) = n"
proof (induction n rule: show_nat.induct)
  case (1 n)
  show ?case
  proof (cases "n < 10")
    case True
    then show ?thesis by (subst show_nat.simps) (simp add: digits_value_def ascii_digit)
  next
    case False
    then have "digits_value (show_nat (n div 10)) = n div 10" by (rule 1)
    moreover have "n mod 10 < 10" by simp
    ultimately show ?thesis using False by (subst show_nat.simps) (simp add: digits_value_def ascii_digit)
  qed
qed

lemma show_nat_inject [simp]: "show_nat n = show_nat m \<longleftrightarrow> n = m"
  by (metis digits_value_show)

section \<open>Lists\<close>

text \<open>\<open>slices.DeleteFunc\<close> keeps the elements the predicate does not hold for.\<close>

definition delete_func :: "('a \<Rightarrow> bool) \<Rightarrow> 'a list \<Rightarrow> 'a list" where
  "delete_func p xs = filter (\<lambda>x. \<not> p x) xs"

lemma set_delete_func [simp]: "set (delete_func p xs) = {x \<in> set xs. \<not> p x}"
  by (auto simp: delete_func_def)

lemma length_delete_func: "length (delete_func p xs) \<le> length xs"
  by (simp add: delete_func_def)

lemma distinct_delete_func: "distinct xs \<Longrightarrow> distinct (delete_func p xs)"
  by (simp add: delete_func_def)

end
