(* ===== verification/Types.thy ===== *)
theory Types
  imports Prelude
begin

text \<open>
  The data the Activities exchange with Control, the launcher and the other ports:
  the structs of \<^verbatim>\<open>internal/activities/types.go\<close>, \<^verbatim>\<open>generation.go\<close>,
  \<^verbatim>\<open>preparation.go\<close>, \<^verbatim>\<open>recovery.go\<close> and \<^verbatim>\<open>release.go\<close> the modelled code
  reads, one record per struct with the source's field names behind a prefix. A pointer
  that may be nil is an option, a byte slice a string, a nil slice the empty list.
\<close>

section \<open>Attempts, launches and jobs (types.go)\<close>

record open_attempt_input =
  oa_OperationID :: string
  oa_TenantID :: string
  oa_CommandID :: string
  oa_StepID :: string
  oa_Visit :: nat
  oa_ProfileID :: string

record attempt_ref =
  ar_AttemptID :: string
  ar_TenantID :: string
  ar_ProfileID :: string
  ar_Deadline :: time
  ar_ExecutionEpoch :: string

record prepare_launch_input =
  pl_Attempt :: attempt_ref
  pl_CommandID :: string
  pl_LaunchKey :: string
  pl_Deadline :: time

record launch_ref =
  lr_LaunchID :: string
  lr_AttemptID :: string
  lr_LaunchKey :: string
  lr_ImageDigest :: string
  lr_LaunchEpoch :: string

record component_identity =
  ci_ComponentID :: string
  ci_PuckType :: string
  ci_PackageName :: string
  ci_SourceRevision :: string

record launch_input =
  li_Name :: string
  li_Digest :: string
  li_Handle :: string

record create_job_input =
  cj_Launch :: launch_ref
  cj_ProfileID :: string
  cj_Deadline :: time
  cj_Request :: int
  cj_OperationID :: string
  cj_ExecutionEpoch :: string
  cj_LaunchEpoch :: string
  cj_Inputs :: "launch_input list"
  cj_Component :: "component_identity option"

record job_ref =
  jr_JobUID :: string
  jr_Request :: int

record observe_job_input =
  oj_Launch :: launch_ref
  oj_Deadline :: time

record pod_observation =
  po_PodUID :: string
  po_Phase :: string
  po_ExitCode :: "int option"
  po_Reason :: string
  po_TerminationMessage :: string
  po_ObservedAt :: time

record job_observation =
  jo_JobUID :: string
  jo_Pods :: "pod_observation list"
  jo_Reason :: string

record register_instance_input =
  ri_Attempt :: attempt_ref
  ri_Launch :: launch_ref
  ri_CommandID :: string
  ri_JobUID :: string
  ri_PodUID :: string

record instance_ref =
  ir_InstanceID :: string
  ir_Current :: bool

record observe_instance_input =
  oi_Attempt :: attempt_ref
  oi_Instance :: instance_ref
  oi_Observation :: pod_observation

record verify_result_input =
  vr_Launch :: launch_ref
  vr_Attempt :: attempt_ref
  vr_ProfileID :: string
  vr_Observation :: job_observation
  vr_CompletedAt :: time

record verdict =
  vd_Verdict :: string
  vd_FailureCode :: string
  vd_Manifest :: string
  vd_ResultDigest :: string

record accept_result_input =
  ac_Attempt :: attempt_ref
  ac_Instance :: instance_ref
  ac_CommandID :: string
  ac_ProfileID :: string
  ac_Verdict :: verdict

record stage_ref =
  sr_StageID :: string

record observe_launch_input =
  ol_Launch :: launch_ref
  ol_SettleWindow :: duration

record launch_observation =
  lo_JobUID :: string
  lo_Pods :: "pod_observation list"
  lo_Requests :: "int list"

text \<open>\<open>LaunchObservation.Empty\<close>: the backend showed nothing under the launch key.\<close>

definition Empty :: "launch_observation \<Rightarrow> bool" where
  "Empty obs \<longleftrightarrow> lo_JobUID obs = '''' \<and> lo_Pods obs = [] \<and> lo_Requests obs = []"

definition no_observation :: launch_observation where
  "no_observation = \<lparr>lo_JobUID = '''', lo_Pods = [], lo_Requests = []\<rparr>"

lemma Empty_no_observation [simp]: "Empty no_observation"
  by (simp add: Empty_def no_observation_def)

lemma Empty_iff: "Empty obs \<longleftrightarrow> obs = no_observation"
  by (cases obs) (auto simp: Empty_def no_observation_def)

record delete_job_input =
  dj_Launch :: launch_ref
  dj_Unaccounted :: "int list"
  dj_EvidenceFirst :: bool
  dj_Recorded :: "int list"

record close_attempt_input =
  ca_Attempt :: attempt_ref
  ca_CommandID :: string
  ca_Outcome :: string
  ca_Cleanup :: string
  ca_FailureCode :: string

record close_result =
  cr_Lifecycle :: string

section \<open>Settlement (preparation.go)\<close>

record settle_operation_input =
  so_OperationID :: string
  so_TenantID :: string
  so_CommandID :: string
  so_Outcome :: string
  so_FailureCode :: string
  so_Phase :: string

record operation_ref =
  op_Lifecycle :: string
  op_Phase :: string
  op_Revision :: string

section \<open>Leases, stages and candidates (generation.go)\<close>

record lease_record =
  ls_State :: string
  ls_LeaseID :: string
  ls_Fence :: string
  ls_ExpiresAt :: "time option"
  ls_Occurrence :: nat

definition no_lease :: lease_record where
  "no_lease = \<lparr>ls_State = '''', ls_LeaseID = '''', ls_Fence = '''', ls_ExpiresAt = None, ls_Occurrence = 0\<rparr>"

record lease_input =
  le_OperationID :: string
  le_TenantID :: string
  le_Subject :: string
  le_Owner :: string
  le_Occurrence :: nat
  le_LeaseID :: string
  le_Fence :: string
  le_TTL :: duration

record lease_result =
  lt_State :: string
  lt_LeaseID :: string
  lt_Fence :: string
  lt_ExpiresAt :: "time option"
  lt_Reason :: string

definition no_lease_result :: lease_result where
  "no_lease_result = \<lparr>lt_State = '''', lt_LeaseID = '''', lt_Fence = '''', lt_ExpiresAt = None, lt_Reason = ''''\<rparr>"

record record_lease_input =
  rl_OperationID :: string
  rl_TenantID :: string
  rl_CommandID :: string
  rl_Occurrence :: nat
  rl_State :: string
  rl_LeaseID :: string
  rl_Fence :: string
  rl_ExpiresAt :: "time option"

record stage_artifact =
  sa_Handle :: string
  sa_Class :: string
  sa_Digest :: string
  sa_SizeBytes :: string
  sa_TransferID :: string
  sa_ObjectVersion :: string

record accepted_stage =
  as_Found :: bool
  as_StageID :: string
  as_AttemptID :: string
  as_Verdict :: string
  as_FailureCode :: string
  as_ResultDigest :: string
  as_ExecutionEpoch :: string
  as_Artifacts :: "stage_artifact list"

record get_accepted_stage_input =
  gs_AttemptID :: string
  gs_TenantID :: string
  gs_OperationID :: string

record effect_permit =
  ep_EffectID :: string
  ep_Permitted :: bool
  ep_State :: string
  ep_Outcome :: string
  ep_DenialCode :: string
  ep_OutcomeRef :: string

record register_candidate_input =
  rc_OperationID :: string
  rc_TenantID :: string
  rc_AttemptID :: string
  rc_InstanceID :: string
  rc_ExecutionEpoch :: nat
  rc_CommandID :: string
  rc_Occurrence :: nat
  rc_Subject :: string
  rc_SourceRevision :: string
  rc_Source :: stage_artifact
  rc_Certification :: stage_artifact
  rc_Lease :: lease_record
  rc_Deadline :: time

record candidate_ref =
  cf_EffectID :: string
  cf_State :: string
  cf_CandidateID :: string
  cf_Revision :: string
  cf_DenialCode :: string

section \<open>Recovery findings (recovery.go)\<close>

record finding =
  fi_FindingID :: string
  fi_Class :: string
  fi_ObligationID :: string
  fi_TenantID :: string
  fi_Status :: string
  fi_Outcome :: string
  fi_Detail :: string
  fi_LaunchKey :: string

text \<open>\<open>Finding.Settled\<close>: the finding no longer keeps the scope restricted.\<close>

definition Settled :: "finding \<Rightarrow> bool" where
  "Settled f \<longleftrightarrow> fi_Status f \<in> {''present'', ''resolved'', ''disposed'', ''outside_scope''}"

record record_launch_outcome_input =
  ro_RunID :: string
  ro_FindingID :: string
  ro_JobUID :: string
  ro_Pods :: "pod_observation list"
  ro_Stopped :: bool

record class_progress =
  cp_Class :: string
  cp_Cursor :: string
  cp_Complete :: bool
  cp_Seen :: nat

record finding_page =
  fp_Findings :: "finding list"
  fp_NextCursor :: string
  fp_Complete :: bool

record recovery_status =
  rs_Phase :: string
  rs_Unsettled :: nat
  rs_Progress :: "class_progress list"

definition Reopened :: "recovery_status \<Rightarrow> bool" where
  "Reopened s \<longleftrightarrow> rs_Phase s = ''reopened''"

text \<open>The five inventory classes, in enumeration order.\<close>

definition ObligationClasses :: "string list" where
  "ObligationClasses = [''intake'', ''job-launch'', ''model-dispatch'', ''tool-dispatch'', ''business-write'']"

end
