(* ===== verification/ReleaseTypes.thy ===== *)
theory ReleaseTypes
  imports Types
begin

text \<open>
  The release facts a run carries across a continuation
  (\<^verbatim>\<open>internal/activities/releasetypes.go\<close>, \<^verbatim>\<open>internal/activities/release.go\<close>)
  and the arguments a workflow of the worker is started or continued with
  (\<^verbatim>\<open>Input\<close> and its carries in \<^verbatim>\<open>internal/workflows\<close>).
\<close>

section \<open>Release facts\<close>

record artifact_digest =
  ad_Digest :: string
  ad_SizeBytes :: string

record release_destinations =
  rd_NpmRegistry :: string
  rd_BrowserOrigin :: string

record release_subject =
  rs_SchemaVersion :: int
  rs_ComponentID :: string
  rs_PuckType :: string
  rs_SourceRevision :: string
  rs_SourceDigest :: string
  rs_PackageName :: string
  rs_Version :: string
  rs_Npm :: artifact_digest
  rs_Browser :: artifact_digest
  rs_CSS :: "artifact_digest list"
  rs_BuildProfileID :: string
  rs_BuildProfileDigest :: string
  rs_ValidatorProfileID :: string
  rs_ValidatorProfileDigest :: string
  rs_HostAbi :: string
  rs_HostAbiDigest :: string
  rs_Destinations :: release_destinations
  rs_CertificationEvidenceDigest :: string
  rs_SubjectDigest :: string

record release_binding =
  rb_ProfileID :: string
  rb_Lineage :: string
  rb_SourceRevision :: string
  rb_PackageVersion :: string
  rb_Source :: stage_artifact
  rb_ExecutionEpoch :: nat
  rb_Deadline :: time
  rb_Identity :: "component_identity option"

record release_approval =
  rp_State :: string
  rp_SubjectDigest :: string
  rp_ApproverID :: string
  rp_DecidedAt :: "time option"
  rp_ReasonCode :: string

record release_style =
  ry_Path :: string
  ry_Artifact :: stage_artifact

record release_artifacts =
  rf_Npm :: stage_artifact
  rf_Browser :: stage_artifact
  rf_CSS :: "release_style list"

record built_subject =
  bs_Subject :: release_subject
  bs_Artifacts :: release_artifacts

record release_carry =
  rk_Revision :: nat
  rk_Binding :: release_binding
  rk_Built :: built_subject
  rk_ReleaseID :: string
  rk_ReviewEffectID :: string
  rk_ApprovalDeadline :: time
  rk_Approval :: release_approval

section \<open>Arguments and carries of the workflows\<close>

record settle_carry =
  sc_CommandID :: string
  sc_Outcome :: string
  sc_FailureCode :: string
  sc_Phase :: string
  sc_Interval :: duration

record close_carry =
  cc_Attempt :: attempt_ref
  cc_Launched :: bool
  cc_CommandID :: string
  cc_Outcome :: string
  cc_Cleanup :: string
  cc_FailureCode :: string
  cc_Interval :: duration

record input =
  in_OperationID :: string
  in_TenantID :: string
  in_Release :: "release_carry option"
  in_Settle :: "settle_carry option"
  in_Close :: "close_carry option"

record ledger_carry =
  lc_Recorded :: "int list"
  lc_StopPending :: bool
  lc_StoppedJob :: string

record recovery_carry =
  rv_Round :: int
  rv_Started :: time
  rv_Interval :: duration
  rv_Ledgers :: "string \<rightharpoonup> ledger_carry"

record recovery_input =
  rn_RunID :: string
  rn_Carry :: "recovery_carry option"

text \<open>What a run may continue as new with: the workflow name and its argument.\<close>

datatype continuation =
    ContinueLifecycle string input
  | ContinueRecovery recovery_input

end
