(* ===== verification/LifecycleTypes.thy ===== *)
theory LifecycleTypes
  imports ReleaseTypes
begin

text \<open>
  The structs the generation, preparation, preview and release Activities exchange with
  Control and the other ports (\<^verbatim>\<open>internal/activities/generation.go\<close>,
  \<^verbatim>\<open>preparation.go\<close>, \<^verbatim>\<open>preview.go\<close>, \<^verbatim>\<open>release.go\<close>,
  \<^verbatim>\<open>releasetypes.go\<close>, \<^verbatim>\<open>model.go\<close>).
\<close>

section \<open>References and briefs (preparation.go)\<close>

record artifact_binding =
  ab_TransferID :: string
  ab_Digest :: string
  ab_Handle :: string

record source_reference =
  sr_SourceID :: string
  sr_Revision :: string

record content_digest =
  cd_SourceID :: string
  cd_Revision :: string
  cd_Digest :: string

record brief_ref =
  br_BriefID :: string
  br_Brief :: artifact_binding
  br_RequirementsDigest :: string
  br_Revision :: string
  br_State :: string

record money =
  mo_Currency :: string
  mo_Amount :: string

section \<open>Generation (generation.go, lifecycle.go)\<close>

record generation_view =
  gv_ProfileID :: string
  gv_SubjectDigest :: string
  gv_SourceRevision :: string
  gv_ActorID :: string
  gv_Brief :: brief_ref
  gv_SourceRevisions :: "source_reference list"
  gv_QueueDeadline :: time
  gv_ActiveDeadline :: "time option"
  gv_PermitActive :: bool
  gv_Lease :: lease_record
  gv_Funded :: bool
  gv_DefinitionActivation :: string
  gv_MaxRepairs :: nat
  gv_CodegenProfileID :: string
  gv_ValidatorProfileID :: string
  gv_CandidateEffectID :: string

record command_input =
  cx_OperationID :: string
  cx_TenantID :: string
  cx_CommandID :: string

record permit_answer =
  pa_Granted :: bool
  pa_PermitID :: string
  pa_ActiveDeadline :: "time option"
  pa_QueueDeadline :: time
  pa_QueuedAhead :: nat

record source_scope_input =
  ss_OperationID :: string
  ss_TenantID :: string
  ss_BriefID :: string
  ss_SubjectDigest :: string
  ss_SourceRevisions :: "source_reference list"

record scope_decision =
  sd_Allowed :: bool
  sd_ReasonCode :: string
  sd_Revision :: string

record brief_identity_input =
  bi_TenantID :: string
  bi_OperationID :: string
  bi_Brief :: brief_ref
  bi_SourceRevision :: string

section \<open>Preparation (preparation.go)\<close>

record question =
  qn_QuestionID :: string
  qn_Text :: string

record question_set_ref =
  qs_QuestionSetID :: string
  qs_Revision :: string
  qs_Round :: nat
  qs_Questions :: "question list"
  qs_AskedAt :: time
  qs_ExpiresAt :: time
  qs_State :: string

record preparation_view =
  pv_ActorID :: string
  pv_ProjectID :: string
  pv_Prompt :: artifact_binding
  pv_BrandReferences :: "source_reference list"
  pv_AssetReferences :: "source_reference list"
  pv_QuestionSets :: "question_set_ref list"
  pv_Brief :: "brief_ref option"
  pv_MaxRounds :: nat
  pv_MaxQuestions :: nat
  pv_Wait :: duration

record analysis_answer =
  aa_Round :: nat
  aa_Answer :: artifact_binding
  aa_Question :: question_set_ref

record analyze_requirements_input =
  an_OperationID :: string
  an_TenantID :: string
  an_AttemptID :: string
  an_ExecutionEpoch :: nat
  an_CallID :: string
  an_RouteID :: string
  an_Round :: nat
  an_Prompt :: artifact_binding
  an_Answers :: "analysis_answer list"
  an_MaxQuestions :: nat
  an_MustConclude :: bool
  an_MaxOutputTokens :: int
  an_MaxExposure :: money
  an_Deadline :: time

record analysis =
  ay_CallID :: string
  ay_State :: string
  ay_ErrorCode :: string
  ay_Requirements :: string
  ay_Questions :: "question list"

record record_question_set_input =
  rq_OperationID :: string
  rq_TenantID :: string
  rq_CommandID :: string
  rq_Round :: nat
  rq_Questions :: "question list"

record get_answer_input =
  ga_OperationID :: string
  ga_TenantID :: string
  ga_AnswerID :: string
  ga_QuestionSetID :: string

record answer_ref =
  af_Found :: bool
  af_AnswerID :: string
  af_QuestionSetID :: string
  af_QuestionSetRevision :: string
  af_Answer :: artifact_binding
  af_Relay :: string

record freeze_references_input =
  fr_TenantID :: string
  fr_ProjectID :: string
  fr_ActorID :: string
  fr_BrandReferences :: "source_reference list"
  fr_AssetReferences :: "source_reference list"

record frozen_references =
  fz_BrandDigests :: "content_digest list"
  fz_AssetDigests :: "content_digest list"

record freeze_brief_input =
  fb_OperationID :: string
  fb_TenantID :: string
  fb_CommandID :: string
  fb_Requirements :: string
  fb_Prompt :: artifact_binding
  fb_Answers :: "analysis_answer list"
  fb_SourceRevisions :: "source_reference list"
  fb_Frozen :: frozen_references

section \<open>Preview (preview.go)\<close>

record preview_source =
  pw_ProfileID :: string
  pw_Lineage :: string
  pw_BaseRevision :: string
  pw_Source :: stage_artifact
  pw_Identity :: "component_identity option"

record preview_record_input =
  rw_OperationID :: string
  rw_TenantID :: string
  rw_ExpectedRevision :: nat
  rw_State :: string
  rw_SourceRevision :: string
  rw_CurrentRevision :: string
  rw_SourceDigest :: string
  rw_Module :: "stage_artifact option"
  rw_Styles :: "stage_artifact list"
  rw_BuildProfileID :: string
  rw_HostProfileID :: string
  rw_FailureCode :: string

record save_source_input =
  si_OperationID :: string
  si_TenantID :: string
  si_AttemptID :: string
  si_ExecutionEpoch :: nat
  si_CommandID :: string
  si_Occurrence :: nat
  si_Lineage :: string
  si_BaseRevision :: string
  si_Source :: stage_artifact
  si_Deadline :: time

record save_source_result =
  sv_EffectID :: string
  sv_State :: string
  sv_Revision :: string
  sv_CurrentRevision :: string
  sv_DenialCode :: string

section \<open>Release (release.go, releasetypes.go)\<close>

record release_target =
  tr_State :: string
  tr_EffectID :: string
  tr_ReceiptID :: string
  tr_ReceiptDigest :: string
  tr_SubjectDigest :: string
  tr_Destination :: string
  tr_Version :: string
  tr_ManifestDigest :: string
  tr_FailureCode :: string

record release_record_input =
  rr_OperationID :: string
  rr_TenantID :: string
  rr_ExpectedRevision :: nat
  rr_State :: string
  rr_Subject :: "release_subject option"
  rr_ReleaseID :: string
  rr_ReviewEffectID :: string
  rr_Approval :: "release_approval option"
  rr_ApprovalDeadline :: "time option"
  rr_Npm :: release_target
  rr_Browser :: release_target
  rr_Activation :: release_target
  rr_CatalogRevision :: string
  rr_FailureCode :: string

record release_effect_input =
  re_OperationID :: string
  re_TenantID :: string
  re_CommandID :: string
  re_AttemptID :: string
  re_ExecutionEpoch :: nat
  re_Kind :: string
  re_Occurrence :: nat
  re_CanonicalSubject :: string
  re_Deadline :: time

record build_subject_input =
  bu_OperationID :: string
  bu_TenantID :: string
  bu_Binding :: release_binding
  bu_Stage :: accepted_stage
  bu_Destinations :: release_destinations

record release_effect_result =
  rx_State :: string
  rx_EffectID :: string
  rx_Target :: release_target
  rx_ReleaseID :: string
  rx_CatalogRevision :: string

record release_effect_call =
  rz_Effect :: release_effect_input
  rz_Subject :: release_subject
  rz_ReleaseID :: string
  rz_Target :: string
  rz_Artifacts :: release_artifacts
  rz_ExpectedCatalogRevision :: string

record review_decision =
  dv_State :: string
  dv_SubjectDigest :: string
  dv_ApproverID :: string
  dv_DecidedAt :: "time option"
  dv_ReasonCode :: string

definition no_target :: release_target where
  "no_target = \<lparr>tr_State = '''', tr_EffectID = '''', tr_ReceiptID = '''', tr_ReceiptDigest = '''', tr_SubjectDigest = '''',
     tr_Destination = '''', tr_Version = '''', tr_ManifestDigest = '''', tr_FailureCode = ''''\<rparr>"

definition no_effect :: release_effect_result where
  "no_effect = \<lparr>rx_State = '''', rx_EffectID = '''', rx_Target = no_target, rx_ReleaseID = '''', rx_CatalogRevision = ''''\<rparr>"

end
