(* ===== verification/Temporal.thy ===== *)
theory Temporal
  imports LifecycleTypes
begin

text \<open>
  The part of the Temporal SDK a workflow of the worker sees. A run is a deterministic
  function of what the SDK answers, so the SDK is a parameter: a \<open>runtime\<close> answers
  Activity calls, timers, the clock, the cancellation state of a context and the recorded
  version markers, over a state of its own about which nothing is assumed here. A workflow
  threads a \<open>world\<close>: the state of the runtime and the trace of the calls made so far,
  newest first. The errors are those the workflows distinguish.
\<close>

section \<open>Errors\<close>

text \<open>
  \<open>ApplicationError t nonretryable\<close> is the SDK's application error, whose type carries
  the public code of a refusal; \<open>CloseRollover\<close> and \<open>ContinueAsNewError\<close> are the
  worker's own error values.
\<close>

datatype wf_error =
    ApplicationError string bool
  | TimeoutError
  | CanceledError
  | DecodeError
  | CloseRollover duration
  | ContinueAsNewError continuation

definition Refused :: "string \<Rightarrow> wf_error" where
  "Refused code = ApplicationError code True"

definition notCreatedType :: string where
  "notCreatedType = ''NOT_CREATED''"

definition NotCreated :: wf_error where
  "NotCreated = ApplicationError notCreatedType False"

fun RefusalCode :: "wf_error option \<Rightarrow> string" where
  "RefusalCode (Some (ApplicationError t nonretryable)) = (if nonretryable then t else '''')"
| "RefusalCode _ = ''''"

fun IsNotCreated :: "wf_error \<Rightarrow> bool" where
  "IsNotCreated (ApplicationError t _) \<longleftrightarrow> t = notCreatedType"
| "IsNotCreated _ \<longleftrightarrow> False"

fun IsCanceledError :: "wf_error option \<Rightarrow> bool" where
  "IsCanceledError (Some CanceledError) \<longleftrightarrow> True"
| "IsCanceledError _ \<longleftrightarrow> False"

fun IsContinueAsNew :: "wf_error option \<Rightarrow> bool" where
  "IsContinueAsNew (Some (ContinueAsNewError _)) \<longleftrightarrow> True"
| "IsContinueAsNew _ \<longleftrightarrow> False"

lemma RefusalCode_Refused [simp]: "RefusalCode (Some (Refused c)) = c"
  by (simp add: Refused_def)

lemma not_IsContinueAsNew_Application [simp]: "\<not> IsContinueAsNew (Some (ApplicationError t n))"
  by simp

section \<open>Activity calls\<close>

text \<open>
  The context a call is made under: the run's own context, the context of a generation's
  steps (canceled by the lease fence), or a disconnected one.
\<close>

datatype wctx = RunCtx | WorkCtx | Disconnected

record queues =
  q_Business :: string
  q_Control :: string

text \<open>\<open>workflow.ActivityOptions\<close> with its retry policy; a field the source leaves out is 0.\<close>

record activity_options =
  TaskQueue :: string
  StartToCloseTimeout :: duration
  ScheduleToCloseTimeout :: duration
  HeartbeatTimeout :: duration
  WaitForCancellation :: bool
  InitialInterval :: duration
  BackoffCoefficient :: int
  MaximumInterval :: duration
  MaximumAttempts :: int

text \<open>One constructor per Activity the modelled workflows execute, with its input.\<close>

datatype lifecycle_request =
    GetGeneration string string
  | RequestExecutionPermit command_input
  | CheckSourceScope source_scope_input
  | RecordFunding command_input
  | BriefIdentity brief_identity_input
  | RegisterCandidate register_candidate_input
  | GetPreparation string string
  | GetAnswer get_answer_input
  | RecordQuestionSet record_question_set_input
  | AnalyzeRequirements analyze_requirements_input
  | FreezeReferences freeze_references_input
  | FreezeBrief freeze_brief_input
  | GetPreviewSource string string
  | RecordPreview preview_record_input
  | SaveSource save_source_input
  | CurrentSourceRevision string
  | RecordRelease release_record_input
  | GetReleaseBinding string string
  | BuildReleaseSubject build_subject_input
  | RegisterReview release_effect_call
  | PublishTarget release_effect_call
  | ActivateRelease release_effect_call
  | ReviewDecision string
  | CatalogRevision

text \<open>The Activities of attempts, launches, leases and recovery; those of one lifecycle workflow under one constructor.\<close>

datatype request =
    OpenAttempt open_attempt_input
  | PrepareLaunch prepare_launch_input
  | CreateJob create_job_input
  | ObserveJob observe_job_input
  | AwaitJobOwner observe_job_input
  | RegisterInstance register_instance_input
  | ObserveInstance observe_instance_input
  | VerifyResult verify_result_input
  | AcceptResult accept_result_input
  | ObserveLaunch observe_launch_input
  | DeleteJob delete_job_input
  | CloseAttempt close_attempt_input
  | SettleOperation settle_operation_input
  | GetAcceptedStage get_accepted_stage_input
  | AcquireLease lease_input
  | RenewLease lease_input
  | QueryLease lease_input
  | ReleaseLease lease_input
  | RecordLease record_lease_input
  | EnumerateInventory string string
  | ListFindings string string int string
  | ReconcileFinding string string
  | ReconcileFindings string "string list"
  | RecordLaunchOutcome record_launch_outcome_input
  | EvaluateRecovery string
  | Lifecycle lifecycle_request

datatype lifecycle_response =
    RGeneration generation_view
  | RPermit permit_answer
  | RScope scope_decision
  | RIdentity component_identity
  | RCandidate candidate_ref
  | RPreparation preparation_view
  | RAnswer answer_ref
  | RQuestionSet question_set_ref
  | RAnalysis analysis
  | RFrozen frozen_references
  | RBrief brief_ref
  | RPreviewSource preview_source
  | RRevision nat
  | RSaved save_source_result
  | RString string
  | RReleaseBinding release_binding
  | RBuilt built_subject
  | RReleaseEffect release_effect_result
  | RDecision review_decision

datatype response =
    RUnit
  | RAttempt attempt_ref
  | RLaunch launch_ref
  | RJob job_ref
  | RJobObservation job_observation
  | RInstance instance_ref
  | RVerdict verdict
  | RStage stage_ref
  | RLaunchObservation launch_observation
  | RClose close_result
  | ROperation operation_ref
  | RAcceptedStage accepted_stage
  | RLeaseResult lease_result
  | RLeaseRecord lease_record
  | RClassProgress class_progress
  | RFindingPage finding_page
  | RFinding finding
  | RFindings "finding list" "(string \<times> string) list"
  | RRecoveryStatus recovery_status
  | RLifecycle lifecycle_response

datatype event =
    Act wctx activity_options request "wf_error + response"
  | Slept wctx duration "wf_error option"

section \<open>The runtime and the world\<close>

record 'e runtime =
  rt_perform :: "wctx \<Rightarrow> activity_options \<Rightarrow> request \<Rightarrow> 'e \<Rightarrow> (wf_error + response) \<times> 'e"
  rt_sleep :: "wctx \<Rightarrow> duration \<Rightarrow> 'e \<Rightarrow> wf_error option \<times> 'e"
  rt_now :: "'e \<Rightarrow> time"
  rt_ctx_err :: "wctx \<Rightarrow> 'e \<Rightarrow> bool"
  rt_version :: "string \<Rightarrow> int"
  rt_can_suggested :: "'e \<Rightarrow> bool"
  rt_workflow_type :: string

record 'e world =
  est :: 'e
  trace :: "event list"

definition DefaultVersion :: int where
  "DefaultVersion = -1"

definition exec :: "'e runtime \<Rightarrow> wctx \<Rightarrow> activity_options \<Rightarrow> request \<Rightarrow> 'e world \<Rightarrow> (wf_error + response) \<times> 'e world" where
  "exec rt c opts r w =
     (case rt_perform rt c opts r (est w) of
        (res, e) \<Rightarrow> (res, w\<lparr>est := e, trace := Act c opts r res # trace w\<rparr>))"

definition sleep :: "'e runtime \<Rightarrow> wctx \<Rightarrow> duration \<Rightarrow> 'e world \<Rightarrow> wf_error option \<times> 'e world" where
  "sleep rt c d w =
     (case rt_sleep rt c d (est w) of
        (res, e) \<Rightarrow> (res, w\<lparr>est := e, trace := Slept c d res # trace w\<rparr>))"

abbreviation now :: "'e runtime \<Rightarrow> 'e world \<Rightarrow> time" where
  "now rt w \<equiv> rt_now rt (est w)"

text \<open>
  \<open>Get\<close> decodes the answer into the type the caller names; an answer of another type
  is an error of the call.
\<close>

definition decode :: "(response \<Rightarrow> 'a option) \<Rightarrow> wf_error + response \<Rightarrow> wf_error + 'a" where
  "decode d res =
     (case res of Inl e \<Rightarrow> Inl e
      | Inr r \<Rightarrow> (case d r of None \<Rightarrow> Inl DecodeError | Some x \<Rightarrow> Inr x))"

definition get :: "(response \<Rightarrow> 'a option) \<Rightarrow> (wf_error + response) \<times> 'w \<Rightarrow> (wf_error + 'a) \<times> 'w" where
  "get d p = (decode d (fst p), snd p)"

fun as_unit :: "response \<Rightarrow> unit option" where
  "as_unit _ = Some ()"
definition as_attempt :: "response \<Rightarrow> attempt_ref option" where
  "as_attempt r = (case r of RAttempt x \<Rightarrow> Some x | _ \<Rightarrow> None)"
definition as_launch :: "response \<Rightarrow> launch_ref option" where
  "as_launch r = (case r of RLaunch x \<Rightarrow> Some x | _ \<Rightarrow> None)"
definition as_job :: "response \<Rightarrow> job_ref option" where
  "as_job r = (case r of RJob x \<Rightarrow> Some x | _ \<Rightarrow> None)"
definition as_job_observation :: "response \<Rightarrow> job_observation option" where
  "as_job_observation r = (case r of RJobObservation x \<Rightarrow> Some x | _ \<Rightarrow> None)"
definition as_instance :: "response \<Rightarrow> instance_ref option" where
  "as_instance r = (case r of RInstance x \<Rightarrow> Some x | _ \<Rightarrow> None)"
definition as_verdict :: "response \<Rightarrow> verdict option" where
  "as_verdict r = (case r of RVerdict x \<Rightarrow> Some x | _ \<Rightarrow> None)"
definition as_stage :: "response \<Rightarrow> stage_ref option" where
  "as_stage r = (case r of RStage x \<Rightarrow> Some x | _ \<Rightarrow> None)"
definition as_launch_observation :: "response \<Rightarrow> launch_observation option" where
  "as_launch_observation r = (case r of RLaunchObservation x \<Rightarrow> Some x | _ \<Rightarrow> None)"
definition as_close :: "response \<Rightarrow> close_result option" where
  "as_close r = (case r of RClose x \<Rightarrow> Some x | _ \<Rightarrow> None)"
definition as_operation :: "response \<Rightarrow> operation_ref option" where
  "as_operation r = (case r of ROperation x \<Rightarrow> Some x | _ \<Rightarrow> None)"
definition as_accepted_stage :: "response \<Rightarrow> accepted_stage option" where
  "as_accepted_stage r = (case r of RAcceptedStage x \<Rightarrow> Some x | _ \<Rightarrow> None)"
definition as_lease_result :: "response \<Rightarrow> lease_result option" where
  "as_lease_result r = (case r of RLeaseResult x \<Rightarrow> Some x | _ \<Rightarrow> None)"
definition as_lease_record :: "response \<Rightarrow> lease_record option" where
  "as_lease_record r = (case r of RLeaseRecord x \<Rightarrow> Some x | _ \<Rightarrow> None)"
definition as_finding :: "response \<Rightarrow> finding option" where
  "as_finding r = (case r of RFinding x \<Rightarrow> Some x | _ \<Rightarrow> None)"
definition as_findings :: "response \<Rightarrow> (finding list \<times> (string \<times> string) list) option" where
  "as_findings r = (case r of RFindings fs es \<Rightarrow> Some (fs, es) | _ \<Rightarrow> None)"
definition as_finding_page :: "response \<Rightarrow> finding_page option" where
  "as_finding_page r = (case r of RFindingPage x \<Rightarrow> Some x | _ \<Rightarrow> None)"
definition as_class_progress :: "response \<Rightarrow> class_progress option" where
  "as_class_progress r = (case r of RClassProgress x \<Rightarrow> Some x | _ \<Rightarrow> None)"
definition as_recovery_status :: "response \<Rightarrow> recovery_status option" where
  "as_recovery_status r = (case r of RRecoveryStatus x \<Rightarrow> Some x | _ \<Rightarrow> None)"

definition as_generation :: "response \<Rightarrow> generation_view option" where
  "as_generation r = (case r of RLifecycle (RGeneration x) \<Rightarrow> Some x | _ \<Rightarrow> None)"
definition as_permit :: "response \<Rightarrow> permit_answer option" where
  "as_permit r = (case r of RLifecycle (RPermit x) \<Rightarrow> Some x | _ \<Rightarrow> None)"
definition as_scope :: "response \<Rightarrow> scope_decision option" where
  "as_scope r = (case r of RLifecycle (RScope x) \<Rightarrow> Some x | _ \<Rightarrow> None)"
definition as_identity :: "response \<Rightarrow> component_identity option" where
  "as_identity r = (case r of RLifecycle (RIdentity x) \<Rightarrow> Some x | _ \<Rightarrow> None)"
definition as_candidate :: "response \<Rightarrow> candidate_ref option" where
  "as_candidate r = (case r of RLifecycle (RCandidate x) \<Rightarrow> Some x | _ \<Rightarrow> None)"
definition as_preparation :: "response \<Rightarrow> preparation_view option" where
  "as_preparation r = (case r of RLifecycle (RPreparation x) \<Rightarrow> Some x | _ \<Rightarrow> None)"
definition as_answer :: "response \<Rightarrow> answer_ref option" where
  "as_answer r = (case r of RLifecycle (RAnswer x) \<Rightarrow> Some x | _ \<Rightarrow> None)"
definition as_question_set :: "response \<Rightarrow> question_set_ref option" where
  "as_question_set r = (case r of RLifecycle (RQuestionSet x) \<Rightarrow> Some x | _ \<Rightarrow> None)"
definition as_analysis :: "response \<Rightarrow> analysis option" where
  "as_analysis r = (case r of RLifecycle (RAnalysis x) \<Rightarrow> Some x | _ \<Rightarrow> None)"
definition as_frozen :: "response \<Rightarrow> frozen_references option" where
  "as_frozen r = (case r of RLifecycle (RFrozen x) \<Rightarrow> Some x | _ \<Rightarrow> None)"
definition as_brief :: "response \<Rightarrow> brief_ref option" where
  "as_brief r = (case r of RLifecycle (RBrief x) \<Rightarrow> Some x | _ \<Rightarrow> None)"
definition as_preview_source :: "response \<Rightarrow> preview_source option" where
  "as_preview_source r = (case r of RLifecycle (RPreviewSource x) \<Rightarrow> Some x | _ \<Rightarrow> None)"
definition as_revision :: "response \<Rightarrow> nat option" where
  "as_revision r = (case r of RLifecycle (RRevision x) \<Rightarrow> Some x | _ \<Rightarrow> None)"
definition as_saved :: "response \<Rightarrow> save_source_result option" where
  "as_saved r = (case r of RLifecycle (RSaved x) \<Rightarrow> Some x | _ \<Rightarrow> None)"
definition as_string :: "response \<Rightarrow> string option" where
  "as_string r = (case r of RLifecycle (RString x) \<Rightarrow> Some x | _ \<Rightarrow> None)"
definition as_release_binding :: "response \<Rightarrow> release_binding option" where
  "as_release_binding r = (case r of RLifecycle (RReleaseBinding x) \<Rightarrow> Some x | _ \<Rightarrow> None)"
definition as_built :: "response \<Rightarrow> built_subject option" where
  "as_built r = (case r of RLifecycle (RBuilt x) \<Rightarrow> Some x | _ \<Rightarrow> None)"
definition as_release_effect :: "response \<Rightarrow> release_effect_result option" where
  "as_release_effect r = (case r of RLifecycle (RReleaseEffect x) \<Rightarrow> Some x | _ \<Rightarrow> None)"
definition as_decision :: "response \<Rightarrow> review_decision option" where
  "as_decision r = (case r of RLifecycle (RDecision x) \<Rightarrow> Some x | _ \<Rightarrow> None)"

lemma as_generation_Some [simp]: "as_generation r = Some x \<longleftrightarrow> r = RLifecycle (RGeneration x)"
  by (auto simp: as_generation_def split: response.splits lifecycle_response.splits)

lemma as_permit_Some [simp]: "as_permit r = Some x \<longleftrightarrow> r = RLifecycle (RPermit x)"
  by (auto simp: as_permit_def split: response.splits lifecycle_response.splits)

lemma as_scope_Some [simp]: "as_scope r = Some x \<longleftrightarrow> r = RLifecycle (RScope x)"
  by (auto simp: as_scope_def split: response.splits lifecycle_response.splits)

lemma as_identity_Some [simp]: "as_identity r = Some x \<longleftrightarrow> r = RLifecycle (RIdentity x)"
  by (auto simp: as_identity_def split: response.splits lifecycle_response.splits)

lemma as_candidate_Some [simp]: "as_candidate r = Some x \<longleftrightarrow> r = RLifecycle (RCandidate x)"
  by (auto simp: as_candidate_def split: response.splits lifecycle_response.splits)

lemma as_preparation_Some [simp]: "as_preparation r = Some x \<longleftrightarrow> r = RLifecycle (RPreparation x)"
  by (auto simp: as_preparation_def split: response.splits lifecycle_response.splits)

lemma as_answer_Some [simp]: "as_answer r = Some x \<longleftrightarrow> r = RLifecycle (RAnswer x)"
  by (auto simp: as_answer_def split: response.splits lifecycle_response.splits)

lemma as_question_set_Some [simp]: "as_question_set r = Some x \<longleftrightarrow> r = RLifecycle (RQuestionSet x)"
  by (auto simp: as_question_set_def split: response.splits lifecycle_response.splits)

lemma as_analysis_Some [simp]: "as_analysis r = Some x \<longleftrightarrow> r = RLifecycle (RAnalysis x)"
  by (auto simp: as_analysis_def split: response.splits lifecycle_response.splits)

lemma as_frozen_Some [simp]: "as_frozen r = Some x \<longleftrightarrow> r = RLifecycle (RFrozen x)"
  by (auto simp: as_frozen_def split: response.splits lifecycle_response.splits)

lemma as_brief_Some [simp]: "as_brief r = Some x \<longleftrightarrow> r = RLifecycle (RBrief x)"
  by (auto simp: as_brief_def split: response.splits lifecycle_response.splits)

lemma as_preview_source_Some [simp]: "as_preview_source r = Some x \<longleftrightarrow> r = RLifecycle (RPreviewSource x)"
  by (auto simp: as_preview_source_def split: response.splits lifecycle_response.splits)

lemma as_revision_Some [simp]: "as_revision r = Some x \<longleftrightarrow> r = RLifecycle (RRevision x)"
  by (auto simp: as_revision_def split: response.splits lifecycle_response.splits)

lemma as_saved_Some [simp]: "as_saved r = Some x \<longleftrightarrow> r = RLifecycle (RSaved x)"
  by (auto simp: as_saved_def split: response.splits lifecycle_response.splits)

lemma as_string_Some [simp]: "as_string r = Some x \<longleftrightarrow> r = RLifecycle (RString x)"
  by (auto simp: as_string_def split: response.splits lifecycle_response.splits)

lemma as_release_binding_Some [simp]: "as_release_binding r = Some x \<longleftrightarrow> r = RLifecycle (RReleaseBinding x)"
  by (auto simp: as_release_binding_def split: response.splits lifecycle_response.splits)

lemma as_built_Some [simp]: "as_built r = Some x \<longleftrightarrow> r = RLifecycle (RBuilt x)"
  by (auto simp: as_built_def split: response.splits lifecycle_response.splits)

lemma as_release_effect_Some [simp]: "as_release_effect r = Some x \<longleftrightarrow> r = RLifecycle (RReleaseEffect x)"
  by (auto simp: as_release_effect_def split: response.splits lifecycle_response.splits)

lemma as_decision_Some [simp]: "as_decision r = Some x \<longleftrightarrow> r = RLifecycle (RDecision x)"
  by (auto simp: as_decision_def split: response.splits lifecycle_response.splits)

lemma as_launch_observation_Some [simp]: "as_launch_observation r = Some x \<longleftrightarrow> r = RLaunchObservation x"
  by (auto simp: as_launch_observation_def split: response.splits)

lemma as_job_Some [simp]: "as_job r = Some x \<longleftrightarrow> r = RJob x"
  by (auto simp: as_job_def split: response.splits)

lemma as_close_Some [simp]: "as_close r = Some x \<longleftrightarrow> r = RClose x"
  by (auto simp: as_close_def split: response.splits)

lemma as_operation_Some [simp]: "as_operation r = Some x \<longleftrightarrow> r = ROperation x"
  by (auto simp: as_operation_def split: response.splits)

lemma as_attempt_Some [simp]: "as_attempt r = Some x \<longleftrightarrow> r = RAttempt x"
  by (auto simp: as_attempt_def split: response.splits)

lemma as_launch_Some [simp]: "as_launch r = Some x \<longleftrightarrow> r = RLaunch x"
  by (auto simp: as_launch_def split: response.splits)

lemma as_job_observation_Some [simp]: "as_job_observation r = Some x \<longleftrightarrow> r = RJobObservation x"
  by (auto simp: as_job_observation_def split: response.splits)

lemma as_instance_Some [simp]: "as_instance r = Some x \<longleftrightarrow> r = RInstance x"
  by (auto simp: as_instance_def split: response.splits)

lemma as_verdict_Some [simp]: "as_verdict r = Some x \<longleftrightarrow> r = RVerdict x"
  by (auto simp: as_verdict_def split: response.splits)

lemma as_stage_Some [simp]: "as_stage r = Some x \<longleftrightarrow> r = RStage x"
  by (auto simp: as_stage_def split: response.splits)

lemma as_lease_result_Some [simp]: "as_lease_result r = Some x \<longleftrightarrow> r = RLeaseResult x"
  by (auto simp: as_lease_result_def split: response.splits)

lemma as_lease_record_Some [simp]: "as_lease_record r = Some x \<longleftrightarrow> r = RLeaseRecord x"
  by (auto simp: as_lease_record_def split: response.splits)

lemma as_finding_Some [simp]: "as_finding r = Some x \<longleftrightarrow> r = RFinding x"
  by (auto simp: as_finding_def split: response.splits)

lemma as_finding_page_Some [simp]: "as_finding_page r = Some x \<longleftrightarrow> r = RFindingPage x"
  by (auto simp: as_finding_page_def split: response.splits)

lemma as_class_progress_Some [simp]: "as_class_progress r = Some x \<longleftrightarrow> r = RClassProgress x"
  by (auto simp: as_class_progress_def split: response.splits)

lemma as_recovery_status_Some [simp]: "as_recovery_status r = Some x \<longleftrightarrow> r = RRecoveryStatus x"
  by (auto simp: as_recovery_status_def split: response.splits)

lemma as_findings_Some [simp]: "as_findings r = Some x \<longleftrightarrow> r = RFindings (fst x) (snd x)"
  by (cases x) (auto simp: as_findings_def split: response.splits)

text \<open>How the decoders evaluate.\<close>

lemma as_attempt_simps [simp]: "as_attempt (RAttempt x) = Some x" "as_attempt RUnit = None"
  by (simp_all add: as_attempt_def)

lemma as_launch_simps [simp]: "as_launch (RLaunch x) = Some x" "as_launch RUnit = None"
  by (simp_all add: as_launch_def)

lemma as_job_simps [simp]: "as_job (RJob x) = Some x" "as_job RUnit = None"
  by (simp_all add: as_job_def)

lemma as_job_observation_simps [simp]: "as_job_observation (RJobObservation x) = Some x" "as_job_observation RUnit = None"
  by (simp_all add: as_job_observation_def)

lemma as_instance_simps [simp]: "as_instance (RInstance x) = Some x" "as_instance RUnit = None"
  by (simp_all add: as_instance_def)

lemma as_verdict_simps [simp]: "as_verdict (RVerdict x) = Some x" "as_verdict RUnit = None"
  by (simp_all add: as_verdict_def)

lemma as_stage_simps [simp]: "as_stage (RStage x) = Some x" "as_stage RUnit = None"
  by (simp_all add: as_stage_def)

lemma as_launch_observation_simps [simp]: "as_launch_observation (RLaunchObservation x) = Some x" "as_launch_observation RUnit = None"
  by (simp_all add: as_launch_observation_def)

lemma as_close_simps [simp]: "as_close (RClose x) = Some x" "as_close RUnit = None"
  by (simp_all add: as_close_def)

lemma as_operation_simps [simp]: "as_operation (ROperation x) = Some x" "as_operation RUnit = None"
  by (simp_all add: as_operation_def)

lemma as_accepted_stage_simps [simp]: "as_accepted_stage (RAcceptedStage x) = Some x" "as_accepted_stage RUnit = None"
  by (simp_all add: as_accepted_stage_def)

lemma as_lease_result_simps [simp]: "as_lease_result (RLeaseResult x) = Some x" "as_lease_result RUnit = None"
  by (simp_all add: as_lease_result_def)

lemma as_lease_record_simps [simp]: "as_lease_record (RLeaseRecord x) = Some x" "as_lease_record RUnit = None"
  by (simp_all add: as_lease_record_def)

lemma as_finding_simps [simp]: "as_finding (RFinding x) = Some x" "as_finding RUnit = None"
  by (simp_all add: as_finding_def)

lemma as_findings_simps [simp]: "as_findings (RFindings fs es) = Some (fs, es)" "as_findings RUnit = None"
  by (simp_all add: as_findings_def)

lemma as_finding_page_simps [simp]: "as_finding_page (RFindingPage x) = Some x" "as_finding_page RUnit = None"
  by (simp_all add: as_finding_page_def)

lemma as_class_progress_simps [simp]: "as_class_progress (RClassProgress x) = Some x" "as_class_progress RUnit = None"
  by (simp_all add: as_class_progress_def)

lemma as_recovery_status_simps [simp]: "as_recovery_status (RRecoveryStatus x) = Some x" "as_recovery_status RUnit = None"
  by (simp_all add: as_recovery_status_def)

lemma as_generation_simps [simp]: "as_generation (RLifecycle (RGeneration x)) = Some x" "as_generation RUnit = None"
  by (simp_all add: as_generation_def)

lemma as_permit_simps [simp]: "as_permit (RLifecycle (RPermit x)) = Some x" "as_permit RUnit = None"
  by (simp_all add: as_permit_def)

lemma as_scope_simps [simp]: "as_scope (RLifecycle (RScope x)) = Some x" "as_scope RUnit = None"
  by (simp_all add: as_scope_def)

lemma as_identity_simps [simp]: "as_identity (RLifecycle (RIdentity x)) = Some x" "as_identity RUnit = None"
  by (simp_all add: as_identity_def)

lemma as_candidate_simps [simp]: "as_candidate (RLifecycle (RCandidate x)) = Some x" "as_candidate RUnit = None"
  by (simp_all add: as_candidate_def)

lemma as_preparation_simps [simp]: "as_preparation (RLifecycle (RPreparation x)) = Some x" "as_preparation RUnit = None"
  by (simp_all add: as_preparation_def)

lemma as_answer_simps [simp]: "as_answer (RLifecycle (RAnswer x)) = Some x" "as_answer RUnit = None"
  by (simp_all add: as_answer_def)

lemma as_question_set_simps [simp]: "as_question_set (RLifecycle (RQuestionSet x)) = Some x" "as_question_set RUnit = None"
  by (simp_all add: as_question_set_def)

lemma as_analysis_simps [simp]: "as_analysis (RLifecycle (RAnalysis x)) = Some x" "as_analysis RUnit = None"
  by (simp_all add: as_analysis_def)

lemma as_frozen_simps [simp]: "as_frozen (RLifecycle (RFrozen x)) = Some x" "as_frozen RUnit = None"
  by (simp_all add: as_frozen_def)

lemma as_brief_simps [simp]: "as_brief (RLifecycle (RBrief x)) = Some x" "as_brief RUnit = None"
  by (simp_all add: as_brief_def)

lemma as_preview_source_simps [simp]: "as_preview_source (RLifecycle (RPreviewSource x)) = Some x" "as_preview_source RUnit = None"
  by (simp_all add: as_preview_source_def)

lemma as_revision_simps [simp]: "as_revision (RLifecycle (RRevision x)) = Some x" "as_revision RUnit = None"
  by (simp_all add: as_revision_def)

lemma as_saved_simps [simp]: "as_saved (RLifecycle (RSaved x)) = Some x" "as_saved RUnit = None"
  by (simp_all add: as_saved_def)

lemma as_string_simps [simp]: "as_string (RLifecycle (RString x)) = Some x" "as_string RUnit = None"
  by (simp_all add: as_string_def)

lemma as_release_binding_simps [simp]: "as_release_binding (RLifecycle (RReleaseBinding x)) = Some x" "as_release_binding RUnit = None"
  by (simp_all add: as_release_binding_def)

lemma as_built_simps [simp]: "as_built (RLifecycle (RBuilt x)) = Some x" "as_built RUnit = None"
  by (simp_all add: as_built_def)

lemma as_release_effect_simps [simp]: "as_release_effect (RLifecycle (RReleaseEffect x)) = Some x" "as_release_effect RUnit = None"
  by (simp_all add: as_release_effect_def)

lemma as_decision_simps [simp]: "as_decision (RLifecycle (RDecision x)) = Some x" "as_decision RUnit = None"
  by (simp_all add: as_decision_def)

lemma decode_Inr: "decode d res = Inr x \<longleftrightarrow> (\<exists>r. res = Inr r \<and> d r = Some x)"
  by (auto simp: decode_def split: sum.splits option.splits)

lemma decode_Inl_Inl [simp]: "decode d (Inl e) = Inl e"
  by (simp add: decode_def)

lemma decode_Inr_eq [simp]: "d r = Some x \<Longrightarrow> decode d (Inr r) = Inr x"
  by (simp add: decode_def)

section \<open>Traces\<close>

text \<open>
  \<open>extends P w w'\<close>: the calls made between \<open>w\<close> and \<open>w'\<close> all satisfy \<open>P\<close>. Every
  operation of a run is described by such a predicate; the rules compose them.
\<close>

definition extends :: "(event \<Rightarrow> bool) \<Rightarrow> 'e world \<Rightarrow> 'e world \<Rightarrow> bool" where
  "extends P w w' \<longleftrightarrow> (\<exists>new. trace w' = new @ trace w \<and> list_all P new)"

definition since :: "'e world \<Rightarrow> 'e world \<Rightarrow> event list" where
  "since w w' = rev (take (length (trace w') - length (trace w)) (trace w'))"

lemma extends_refl [simp, intro]: "extends P w w"
  by (simp add: extends_def)

lemma extends_trans [trans]: "extends P w w' \<Longrightarrow> extends P w' w'' \<Longrightarrow> extends P w w''"
  by (fastforce simp: extends_def)

lemma extends_mono: "extends P w w' \<Longrightarrow> (\<And>x. P x \<Longrightarrow> Q x) \<Longrightarrow> extends Q w w'"
  by (fastforce simp: extends_def list_all_iff)

lemma extends_exec [trace_rules]:
  "exec rt c opts r w = (res, w') \<Longrightarrow> P (Act c opts r res) \<Longrightarrow> extends P w w'"
  by (auto simp: extends_def exec_def split: prod.splits)

lemma extends_get_exec [trace_rules]:
  "get d (exec rt c opts r w) = (res, w') \<Longrightarrow> (\<And>x. P (Act c opts r x)) \<Longrightarrow> extends P w w'"
  by (auto simp: extends_def exec_def get_def split: prod.splits)

lemma extends_sleep [trace_rules]:
  "sleep rt c d w = (res, w') \<Longrightarrow> P (Slept c d res) \<Longrightarrow> extends P w w'"
  by (auto simp: extends_def sleep_def split: prod.splits)

lemma trace_exec: "exec rt c opts r w = (res, w') \<Longrightarrow> trace w' = Act c opts r res # trace w"
  by (auto simp: exec_def split: prod.splits)

lemma trace_sleep: "sleep rt c d w = (res, w') \<Longrightarrow> trace w' = Slept c d res # trace w"
  by (auto simp: sleep_def split: prod.splits)

lemma trace_get_exec:
  "get d (exec rt c opts r w) = (res, w') \<Longrightarrow>
     \<exists>raw. trace w' = Act c opts r raw # trace w \<and> res = decode d raw \<and>
           rt_perform rt c opts r (est w) = (raw, est w')"
  by (auto simp: exec_def get_def split: prod.splits)

lemma answered_call:
  assumes "get d (exec rt c opts r w) = (Inr x, w')"
  shows "\<exists>a. trace w' = Act c opts r (Inr a) # trace w \<and> d a = Some x"
proof -
  obtain raw where "trace w' = Act c opts r raw # trace w" "decode d raw = Inr x" using trace_get_exec [OF assms] by metis
  then show ?thesis by (auto simp: decode_Inr)
qed

lemma extends_set: "extends P w w' \<Longrightarrow> x \<in> set (trace w') \<Longrightarrow> x \<in> set (trace w) \<or> P x"
  by (auto simp: extends_def list_all_iff)

lemma since_append: "trace w' = new @ trace w \<Longrightarrow> since w w' = rev new"
  by (simp add: since_def)

lemma extends_since: "extends P w w' \<longleftrightarrow> (\<exists>new. trace w' = new @ trace w) \<and> list_all P (since w w')"
proof
  assume "extends P w w'"
  then obtain new where "trace w' = new @ trace w" "list_all P new"
    by (auto simp: extends_def)
  then show "(\<exists>new. trace w' = new @ trace w) \<and> list_all P (since w w')"
    by (auto simp: since_append list_all_iff)
next
  assume "(\<exists>new. trace w' = new @ trace w) \<and> list_all P (since w w')"
  then show "extends P w w'" by (auto simp: extends_def since_append list_all_iff)
qed

end
