(* ===== verification/Ledger.thy ===== *)
theory Ledger
  imports Temporal
begin

text \<open>
  The account a run keeps of its create requests (\<open>createLedger\<close> of
  \<^verbatim>\<open>internal/workflows/localcheck.go\<close>) and the evidence account of a recovery
  (\<open>launchLedger\<close> of \<^verbatim>\<open>internal/workflows/recovery.go\<close>). The locale
  \<open>request_account\<close> is what the cleanup of a launch relies on: which requests are
  still open, and that only accounting for a request closes it.
\<close>

section \<open>The ledger of create requests\<close>

record create_ledger =
  issued :: int
  unaccounted :: "int list"
  ended :: "int \<rightharpoonup> time"

definition empty_ledger :: create_ledger where
  "empty_ledger = \<lparr>issued = 0, unaccounted = [], ended = Map.empty\<rparr>"

definition expiredBy :: "create_ledger \<Rightarrow> time \<Rightarrow> duration \<Rightarrow> int list" where
  "expiredBy l at lifetime =
     filter (\<lambda>r. case ended l r of None \<Rightarrow> False | Some e \<Rightarrow> \<not> e + lifetime > at) (unaccounted l)"

fun account :: "int list \<Rightarrow> create_ledger \<Rightarrow> create_ledger" where
  "account [] l = l"
| "account (r # rs) l = account rs (l\<lparr>unaccounted := delete_func (\<lambda>u. u = r) (unaccounted l)\<rparr>)"

definition settled :: "create_ledger \<Rightarrow> bool" where
  "settled l \<longleftrightarrow> length (unaccounted l) = 0"

text \<open>The two ledger updates of \<open>createJob\<close>: a request is issued; a request ends without an answer.\<close>

definition issue :: "create_ledger \<Rightarrow> create_ledger" where
  "issue l = l\<lparr>issued := issued l + 1\<rparr>"

definition unanswered :: "int \<Rightarrow> time \<Rightarrow> create_ledger \<Rightarrow> create_ledger" where
  "unanswered r at l = l\<lparr>unaccounted := unaccounted l @ [r], ended := (ended l)(r \<mapsto> at)\<rparr>"

definition open_requests :: "create_ledger \<Rightarrow> int set" where
  "open_requests l = set (unaccounted l)"

lemma unaccounted_account: "unaccounted (account rs l) = filter (\<lambda>u. u \<notin> set rs) (unaccounted l)"
  by (induction rs arbitrary: l) (auto simp: delete_func_def intro: filter_cong)

lemma issued_account [frame_rules]: "issued (account rs l) = issued l"
  by (induction rs arbitrary: l) auto

lemma ended_account [frame_rules]: "ended (account rs l) = ended l"
  by (induction rs arbitrary: l) auto

lemma length_account [ledger_rules]: "length (unaccounted (account rs l)) \<le> length (unaccounted l)"
  by (simp add: unaccounted_account)

lemma open_account [ledger_rules]: "open_requests (account rs l) = open_requests l - set rs"
  by (auto simp: open_requests_def unaccounted_account)

lemma open_unanswered [ledger_rules]: "open_requests (unanswered r at l) = insert r (open_requests l)"
  by (auto simp: open_requests_def unanswered_def)

lemma open_issue [ledger_rules]: "open_requests (issue l) = open_requests l"
  by (simp add: open_requests_def issue_def)

lemma settled_open [ledger_rules]: "settled l \<longleftrightarrow> open_requests l = {}"
  by (simp add: settled_def open_requests_def)

lemma set_expiredBy: "set (expiredBy l at lifetime) =
    {r \<in> open_requests l. \<exists>e. ended l r = Some e \<and> e + lifetime \<le> at}"
  by (auto simp: expiredBy_def open_requests_def split: option.splits)

lemma length_expiredBy: "length (expiredBy l at lifetime) \<le> length (unaccounted l)"
  by (simp add: expiredBy_def)

lemma length_expiredBy_all:
  "length (expiredBy l at lifetime) = length (unaccounted l) \<Longrightarrow> expiredBy l at lifetime = unaccounted l"
  by (metis expiredBy_def filter_id_conv length_filter_less nat_neq_iff)

text \<open>
  Well-formed ledgers: the open requests are distinct, were issued by this run and each has
  the time its create call ended. Every ledger operation keeps this.
\<close>

definition ledger_ok :: "create_ledger \<Rightarrow> bool" where
  "ledger_ok l \<longleftrightarrow> 0 \<le> issued l \<and> distinct (unaccounted l) \<and>
     set (unaccounted l) \<subseteq> {1..issued l} \<and> set (unaccounted l) \<subseteq> dom (ended l) \<and> dom (ended l) \<subseteq> {1..issued l}"

lemma ledger_ok_empty [intro, simp]: "ledger_ok empty_ledger"
  by (simp add: ledger_ok_def empty_ledger_def)

lemma ledger_ok_account [intro, ledger_rules]: "ledger_ok l \<Longrightarrow> ledger_ok (account rs l)"
  by (auto simp: ledger_ok_def unaccounted_account issued_account ended_account)

lemma ledger_ok_issue [intro]: "ledger_ok l \<Longrightarrow> ledger_ok (issue l)"
  by (fastforce simp: ledger_ok_def issue_def)

lemma ledger_ok_unanswered [intro]:
  assumes "ledger_ok l"
  shows "ledger_ok (unanswered (issued l + 1) at (issue l))"
proof -
  have "issued l + 1 \<notin> set (unaccounted l)" using assms by (auto simp: ledger_ok_def)
  then show ?thesis using assms by (force simp: ledger_ok_def unanswered_def issue_def)
qed

section \<open>The interface the cleanup relies on\<close>

locale request_account =
  fixes open_set :: "'l \<Rightarrow> int set"
    and close_with :: "int list \<Rightarrow> 'l \<Rightarrow> 'l"
    and expired :: "'l \<Rightarrow> time \<Rightarrow> duration \<Rightarrow> int list"
    and over_at :: "'l \<Rightarrow> int \<Rightarrow> time option"
    and is_settled :: "'l \<Rightarrow> bool"
  assumes close_law: "open_set (close_with rs l) = open_set l - set rs"
    and over_law: "over_at (close_with rs l) = over_at l"
    and expired_law: "set (expired l at life) = {r \<in> open_set l. \<exists>e. over_at l r = Some e \<and> e + life \<le> at}"
    and settled_law: "is_settled l \<longleftrightarrow> open_set l = {}"
begin

text \<open>
  \<open>covers P l\<close>: every request of \<open>P\<close> (those whose object may still appear) is open in
  the ledger. The clients keep this true: closing on evidence never uncovers a request.
\<close>

definition covers :: "int set \<Rightarrow> 'l \<Rightarrow> bool" where
  "covers P l \<longleftrightarrow> P \<subseteq> open_set l"

lemma covers_mono: "covers P l \<Longrightarrow> P' \<subseteq> P \<Longrightarrow> covers P' l"
  by (auto simp: covers_def)

lemma covers_close: "covers P l \<Longrightarrow> P \<inter> set rs = {} \<Longrightarrow> covers P (close_with rs l)"
  by (auto simp: covers_def close_law)

lemma covers_close_evidence:
  assumes "covers P l" and "P' \<subseteq> P" and "P' \<inter> set rs = {}"
  shows "covers P' (close_with rs l)"
  using covers_close [OF covers_mono [OF assms(1,2)] assms(3)] .

lemma covers_settled: "covers P l \<Longrightarrow> is_settled l \<Longrightarrow> P = {}"
  by (auto simp: covers_def settled_law)

lemma expired_open: "set (expired l at life) \<subseteq> open_set l"
  by (auto simp: expired_law)

lemma close_monotone: "open_set (close_with rs l) \<subseteq> open_set l"
  by (auto simp: close_law)

end

interpretation cl: request_account open_requests account expiredBy ended settled
  by unfold_locales (simp_all add: ledger_rules frame_rules set_expiredBy)

section \<open>The evidence ledger of a recovery\<close>

record launch_ledger =
  recorded :: "int list"
  stopPending :: bool
  stoppedJob :: string

definition empty_launch_ledger :: launch_ledger where
  "empty_launch_ledger = \<lparr>recorded = [], stopPending = False, stoppedJob = ''''\<rparr>"

fun record_requests :: "int list \<Rightarrow> launch_ledger \<Rightarrow> launch_ledger" where
  "record_requests [] l = l"
| "record_requests (r # rs) l =
     record_requests rs (if r \<notin> set (recorded l) then l\<lparr>recorded := recorded l @ [r]\<rparr> else l)"

lemma set_record_requests [ledger_rules]: "set (recorded (record_requests rs l)) = set (recorded l) \<union> set rs"
  by (induction rs arbitrary: l) auto

lemma distinct_record_requests [ledger_rules]:
  "distinct (recorded l) \<Longrightarrow> distinct (recorded (record_requests rs l))"
  by (induction rs arbitrary: l) auto

lemma stop_record_requests [frame_rules]:
  "stopPending (record_requests rs l) = stopPending l" "stoppedJob (record_requests rs l) = stoppedJob l"
  by (induction rs arbitrary: l) auto

text \<open>A ledger crosses a continuation unchanged (\<open>carryLedgers\<close>, \<open>restoreLedgers\<close>).\<close>

definition carryLedgers :: "(string \<rightharpoonup> launch_ledger) \<Rightarrow> (string \<rightharpoonup> ledger_carry)" where
  "carryLedgers ls = (\<lambda>k. map_option
     (\<lambda>l. \<lparr>lc_Recorded = recorded l, lc_StopPending = stopPending l, lc_StoppedJob = stoppedJob l\<rparr>) (ls k))"

definition restoreLedgers :: "(string \<rightharpoonup> ledger_carry) \<Rightarrow> (string \<rightharpoonup> launch_ledger)" where
  "restoreLedgers cs = (\<lambda>k. map_option
     (\<lambda>c. \<lparr>recorded = lc_Recorded c, stopPending = lc_StopPending c, stoppedJob = lc_StoppedJob c\<rparr>) (cs k))"

lemma restore_carry [simp]: "restoreLedgers (carryLedgers ls) = ls"
proof
  fix k
  show "restoreLedgers (carryLedgers ls) k = ls k"
    by (cases "ls k") (simp_all add: restoreLedgers_def carryLedgers_def)
qed

end
