(* ===== verification/Bounds.thy ===== *)
theory Bounds
  imports Ledger
begin

text \<open>
  The frozen bounds of a run and the Activity options derived from them
  (\<open>Bounds\<close> in \<^verbatim>\<open>internal/workflows/localcheck.go\<close>, \<open>LifecycleBounds\<close>,
  \<open>definition\<close> and the option builders in \<^verbatim>\<open>internal/workflows/lifecycle.go\<close>), and the
  paced polling of Control (\<open>poller\<close>) with the contract its clients rely on.
\<close>

section \<open>Bounds\<close>

record bounds =
  ControlActivityTimeout :: duration
  ControlRetryInitial :: duration
  ControlRetryMaxInterval :: duration
  ControlRetryMaxAttempts :: int32
  LaunchWindow :: duration
  ObserveHeartbeatTimeout :: duration
  ObserveMaxAttempts :: int32
  CleanupTimeout :: duration
  CleanupMaxAttempts :: int32
  UnresolvedSettleWindow :: duration
  CreateRequestLifetime :: duration
  ReconcileInitialInterval :: duration
  ReconcileMaxInterval :: duration
  ReconcileMaxDuration :: duration
  ControlOutageWindow :: duration
  ControlReadWindow :: duration
  SettleMaxInterval :: duration
  SettlePollBound :: int32

record definition_activation =
  da_ID :: string
  da_CodegenProfileID :: string
  da_ValidatorProfile :: string
  da_MaxRepairs :: int

record lifecycle_bounds =
  PermitPollInterval :: duration
  LeaseTTL :: duration
  LeaseRenewLead :: duration
  LeaseCallTimeout :: duration
  Definitions :: "definition_activation list"
  AnalysisRouteID :: string
  AnalysisMaxOutputTokens :: int
  AnalysisMaxExposure :: money
  AnalysisCallTimeout :: duration
  ContentRepairAllowance :: int
  PreviewBuildProfile :: string
  ReleaseValidatorProfile :: string
  ReleaseDestinations :: release_destinations
  ReleaseApprovalWait :: duration
  ReleaseApprovalPoll :: duration
  ReleasePollsPerRun :: int
  ReleaseReconcileRounds :: int
  ReleaseReconcilePause :: duration

text \<open>
  \<open>LifecycleBounds.definition\<close>: Control's profile values, overridden by every activation
  of the given id in turn; \<open>(codegen, validator, max repairs)\<close>.
\<close>

fun definition_loop :: "definition_activation list \<Rightarrow> string \<Rightarrow> string \<times> string \<times> nat \<Rightarrow> string \<times> string \<times> nat" where
  "definition_loop [] ident acc = acc"
| "definition_loop (d # ds) ident (codegen, validator, maxRepairs) =
     (if da_ID d \<noteq> ident then definition_loop ds ident (codegen, validator, maxRepairs)
      else definition_loop ds ident
        (if da_CodegenProfileID d \<noteq> '''' then da_CodegenProfileID d else codegen,
         if da_ValidatorProfile d \<noteq> '''' then da_ValidatorProfile d else validator,
         if da_MaxRepairs d \<ge> 0 then nat (da_MaxRepairs d) else maxRepairs))"

section \<open>Activity options\<close>

text \<open>The retry policy every ordinary Control call is built with.\<close>

definition control_retry :: "string \<Rightarrow> duration \<Rightarrow> bounds \<Rightarrow> int \<Rightarrow> activity_options" where
  "control_retry queue start_to_close b attempts =
     \<lparr>TaskQueue = queue, StartToCloseTimeout = start_to_close, ScheduleToCloseTimeout = 0,
      HeartbeatTimeout = 0, WaitForCancellation = False, InitialInterval = ControlRetryInitial b,
      BackoffCoefficient = 2, MaximumInterval = ControlRetryMaxInterval b, MaximumAttempts = attempts\<rparr>"

definition windowed :: "string \<Rightarrow> bounds \<Rightarrow> duration \<Rightarrow> activity_options" where
  "windowed queue b window =
     (let opts = control_retry queue (ControlActivityTimeout b) b (sint (ControlRetryMaxAttempts b))
      in if window > 0 then opts\<lparr>MaximumAttempts := 0, ScheduleToCloseTimeout := window\<rparr> else opts)"

definition activityOptions :: "queues \<Rightarrow> bounds \<Rightarrow> activity_options" where
  "activityOptions q b = windowed (q_Business q) b (ControlOutageWindow b)"

definition readOptions :: "queues \<Rightarrow> bounds \<Rightarrow> activity_options" where
  "readOptions q b = windowed (q_Business q) b (ControlReadWindow b)"

definition controlOptions :: "queues \<Rightarrow> bounds \<Rightarrow> activity_options" where
  "controlOptions q b = control_retry (q_Control q) (ControlActivityTimeout b) b 0"

text \<open>The business options of LocalCheck and of the evidence registrations of a cleanup.\<close>

definition businessOptions :: "queues \<Rightarrow> bounds \<Rightarrow> activity_options" where
  "businessOptions q b =
     control_retry (q_Business q) (ControlActivityTimeout b) b (sint (ControlRetryMaxAttempts b))"

text \<open>\<open>cleanupOptions\<close>: bounded, heartbeating, retried within the round's cap.\<close>

definition cleanupOptions :: "queues \<Rightarrow> bounds \<Rightarrow> activity_options" where
  "cleanupOptions q b =
     \<lparr>TaskQueue = q_Control q, StartToCloseTimeout = CleanupTimeout b, ScheduleToCloseTimeout = 0,
      HeartbeatTimeout = ObserveHeartbeatTimeout b, WaitForCancellation = False,
      InitialInterval = ControlRetryInitial b, BackoffCoefficient = 0, MaximumInterval = 0,
      MaximumAttempts = sint (CleanupMaxAttempts b)\<rparr>"

text \<open>The options of one create request: a single execution, awaited through a cancellation.\<close>

definition createOptions :: "queues \<Rightarrow> bounds \<Rightarrow> activity_options" where
  "createOptions q b =
     \<lparr>TaskQueue = q_Business q, StartToCloseTimeout = ControlActivityTimeout b, ScheduleToCloseTimeout = 0,
      HeartbeatTimeout = 0, WaitForCancellation = True, InitialInterval = ControlRetryInitial b,
      BackoffCoefficient = 0, MaximumInterval = 0, MaximumAttempts = 1\<rparr>"

definition observeOptions :: "queues \<Rightarrow> bounds \<Rightarrow> duration \<Rightarrow> activity_options" where
  "observeOptions q b observeTimeout =
     \<lparr>TaskQueue = q_Business q, StartToCloseTimeout = observeTimeout, ScheduleToCloseTimeout = 0,
      HeartbeatTimeout = ObserveHeartbeatTimeout b, WaitForCancellation = False,
      InitialInterval = ControlRetryInitial b, BackoffCoefficient = 0, MaximumInterval = 0,
      MaximumAttempts = sint (ObserveMaxAttempts b)\<rparr>"

definition leaseOptions :: "queues \<Rightarrow> bounds \<Rightarrow> lifecycle_bounds \<Rightarrow> activity_options" where
  "leaseOptions q b lb =
     control_retry (q_Control q) (LeaseCallTimeout lb) b (sint (ControlRetryMaxAttempts b))"

lemma windowed_unbounded_attempts:
  "0 < window \<Longrightarrow> MaximumAttempts (windowed queue b window) = 0"
  by (simp add: windowed_def Let_def)

section \<open>The poller\<close>

definition pollChange :: string where
  "pollChange = ''settle-poll-backoff''"

definition defaultSettleMaxInterval :: duration where
  "defaultSettleMaxInterval = 5 * minute"

definition defaultSettlePollBound :: int where
  "defaultSettlePollBound = 500"

record poller =
  p_on :: bool
  p_interval :: duration
  p_max :: duration
  p_polls :: int32
  p_bound :: int

definition newPoller :: "'e runtime \<Rightarrow> bounds \<Rightarrow> duration \<Rightarrow> poller" where
  "newPoller rt b start =
     (let on = (rt_version rt pollChange = 1);
          mx = (if SettleMaxInterval b \<le> 0 then defaultSettleMaxInterval else SettleMaxInterval b);
          bound = (if sint (SettlePollBound b) \<le> 0 then defaultSettlePollBound else sint (SettlePollBound b));
          interval = (if on \<and> start > 0 then start else ReconcileInitialInterval b)
      in \<lparr>p_on = on, p_interval = interval, p_max = mx, p_polls = 0, p_bound = bound\<rparr>)"

text \<open>\<open>poller.wait\<close>, in the context \<open>c\<close>: the pacing moves on before the timer is awaited.\<close>

definition wait_step :: "poller \<Rightarrow> poller" where
  "wait_step p = (if p_on p then p\<lparr>p_polls := p_polls p + 1, p_interval := min (2 * p_interval p) (p_max p)\<rparr> else p)"

definition wait :: "'e runtime \<Rightarrow> wctx \<Rightarrow> poller \<Rightarrow> 'e world \<Rightarrow> wf_error option \<times> poller \<times> 'e world" where
  "wait rt c p w = (case sleep rt c (p_interval p) w of (res, w') \<Rightarrow> (res, wait_step p, w'))"

definition exhausted :: "'e runtime \<Rightarrow> poller \<Rightarrow> 'e world \<Rightarrow> bool" where
  "exhausted rt p w \<longleftrightarrow> p_on p \<and> (sint (p_polls p) \<ge> p_bound p \<or> rt_can_suggested rt (est w))"

text \<open>
  What a poll loop relies on: a paced poller steps its count by one and stops at its bound.
  \<open>left\<close> is the number of further waits the poller allows.
\<close>

locale paced =
  fixes step :: "'p \<Rightarrow> 'p"
    and stopped :: "'p \<Rightarrow> bool"
    and left :: "'p \<Rightarrow> nat"
    and ok :: "'p \<Rightarrow> bool"
  assumes ok_step: "ok p \<Longrightarrow> \<not> stopped p \<Longrightarrow> ok (step p)"
    and left_step: "ok p \<Longrightarrow> \<not> stopped p \<Longrightarrow> left (step p) < left p"
begin

lemma ok_iterate: "ok p \<Longrightarrow> (\<And>i. i < n \<Longrightarrow> \<not> stopped ((step ^^ i) p)) \<Longrightarrow> ok ((step ^^ n) p)"
  by (induction n) (simp_all add: ok_step)

lemma stops:
  assumes "ok p"
  shows "\<exists>n \<le> left p. stopped ((step ^^ n) p)"
proof (rule ccontr)
  assume "\<not> ?thesis"
  then have run: "\<not> stopped ((step ^^ n) p)" if "n \<le> left p" for n using that by blast
  have "left ((step ^^ n) p) + n \<le> left p" if "n \<le> Suc (left p)" for n
    using that
  proof (induction n)
    case (Suc n)
    then have "ok ((step ^^ n) p)" by (intro ok_iterate assms run) simp
    then have "left (step ((step ^^ n) p)) < left ((step ^^ n) p)"
      using run Suc.prems by (intro left_step) simp_all
    then show ?case using Suc by simp
  qed simp
  from this [of "Suc (left p)"] show False by simp
qed

end

definition poller_ok :: "poller \<Rightarrow> bool" where
  "poller_ok p \<longleftrightarrow> p_on p \<and> 0 \<le> sint (p_polls p) \<and> p_bound p < 2 ^ 31"

definition polls_left :: "poller \<Rightarrow> nat" where
  "polls_left p = nat (p_bound p - sint (p_polls p))"

definition poll_bound_reached :: "poller \<Rightarrow> bool" where
  "poll_bound_reached p \<longleftrightarrow> sint (p_polls p) \<ge> p_bound p"

lemma sint_Suc:
  assumes "sint (w :: int32) < 2 ^ 31 - 1"
  shows "sint (w + 1) = sint w + 1"
proof -
  have "w = word_of_int (sint w)" by simp
  then have "sint (w + 1) = int32_of (sint w + 1)"
    by (metis int32_of_def of_int_1 of_int_add of_int_sint)
  also have "\<dots> = int32_of (sint w) + 1"
    by (rule int32_of_Suc) (use assms in \<open>simp add: int32_of_def\<close>)
  finally show ?thesis by (simp add: int32_of_def)
qed

lemma sint_polls_step: "poller_ok p \<Longrightarrow> \<not> poll_bound_reached p \<Longrightarrow> sint (p_polls (wait_step p)) = sint (p_polls p) + 1"
  by (simp add: poller_ok_def poll_bound_reached_def wait_step_def sint_Suc)

interpretation pp: paced wait_step poll_bound_reached polls_left poller_ok
proof unfold_locales
  fix p assume p: "poller_ok p" "\<not> poll_bound_reached p"
  note s = sint_polls_step [OF p]
  show "poller_ok (wait_step p)"
    using p s by (simp add: poller_ok_def) (simp add: wait_step_def)
  show "polls_left (wait_step p) < polls_left p"
    using p s by (simp add: polls_left_def poll_bound_reached_def) (simp add: wait_step_def)
qed

lemma poller_ok_new: "rt_version rt pollChange = 1 \<Longrightarrow> poller_ok (newPoller rt b start)"
  using sint_int32_range(2) [of "SettlePollBound b"]
  by (simp add: poller_ok_def newPoller_def Let_def defaultSettlePollBound_def)

lemma exhausted_bound: "p_on p \<Longrightarrow> poll_bound_reached p \<Longrightarrow> exhausted rt p w"
  by (simp add: exhausted_def poll_bound_reached_def)

end
