(* ===== verification/CreateJob.thy ===== *)
theory CreateJob
  imports Bounds
begin

text \<open>
  \<open>createJob\<close> of \<^verbatim>\<open>internal/workflows/localcheck.go\<close>: create requests for one launch,
  one at a time under the same launch key, each marked with its ordinal, until one is
  answered with the Job or the requests are exhausted. The lemmas state what the trace
  of the run and the ledger say afterwards.
\<close>

section \<open>The request loop\<close>

record job_spec =
  js_ProfileID :: string
  js_OperationID :: string
  js_ExecutionEpoch :: string
  js_Inputs :: "launch_input list"
  js_Component :: "component_identity option"

definition create_input :: "job_spec \<Rightarrow> launch_ref \<Rightarrow> time \<Rightarrow> int \<Rightarrow> create_job_input" where
  "create_input spec launch deadline request =
     \<lparr>cj_Launch = launch, cj_ProfileID = js_ProfileID spec, cj_Deadline = deadline, cj_Request = request,
      cj_OperationID = js_OperationID spec, cj_ExecutionEpoch = js_ExecutionEpoch spec,
      cj_LaunchEpoch = lr_LaunchEpoch launch, cj_Inputs = js_Inputs spec, cj_Component = js_Component spec\<rparr>"

text \<open>
  The ledger after a failed request: a request the launcher reports as not created is
  settled by that answer, any other failure leaves it open.
\<close>

definition after_failure :: "wf_error \<Rightarrow> int \<Rightarrow> time \<Rightarrow> create_ledger \<Rightarrow> create_ledger" where
  "after_failure err request at l = (if IsNotCreated err then l else unanswered request at l)"

lemma issued_issue [simp]: "issued (issue l) = issued l + 1"
  by (simp add: issue_def)

lemma issued_after_failure [simp]: "issued (after_failure err r at l) = issued l"
  by (simp add: after_failure_def unanswered_def)

lemma measure_step:
  assumes "int32_of (issued l2) < sint (m :: int32)" and "issued l2 = issued l + 1"
  shows "nat (2 ^ 31 - int32_of (issued l2 + 1)) < nat (2 ^ 31 - int32_of (issued l + 1))"
proof -
  have lt: "int32_of (issued l + 1) < 2 ^ 31 - 1"
    using assms sint_int32_range(2) [of m] by simp
  have "int32_of (issued l2 + 1) = int32_of (issued l + 1) + 1"
    using int32_of_Suc [OF lt] assms(2) by simp
  then show ?thesis using lt by simp
qed

text \<open>
  The loop of \<open>createJob\<close> from one request on; \<open>interval\<close> is the pause after it. The
  number of requests is compared as \<open>int32(ledger.issued)\<close>, so the loop ends for every
  ledger and every answer of the runtime.
\<close>

function create_loop :: "'e runtime \<Rightarrow> wctx \<Rightarrow> queues \<Rightarrow> bounds \<Rightarrow> job_spec \<Rightarrow> launch_ref \<Rightarrow> time \<Rightarrow> duration \<Rightarrow>
    create_ledger \<Rightarrow> 'e world \<Rightarrow> (wf_error + job_ref) \<times> create_ledger \<times> 'e world" where
  "create_loop rt c q b spec launch deadline interval l w =
     (let l1 = issue l; request = issued l1 in
      case get as_job (exec rt c (createOptions q b) (Temporal.CreateJob (create_input spec launch deadline request)) w) of
        (Inr job, w1) \<Rightarrow> (Inr job, account [jr_Request job] l1, w1)
      | (Inl err, w1) \<Rightarrow>
          if \<not> IsNotCreated err \<and> RefusalCode (Some err) \<noteq> '''' then (Inl err, l1, w1)
          else
            (let l2 = after_failure err request (now rt w1) l1 in
             if rt_ctx_err rt c (est w1) \<or> int32_of (issued l2) \<ge> sint (ControlRetryMaxAttempts b)
             then (Inl err, l2, w1)
             else case sleep rt c interval w1 of
                 (Some _, w2) \<Rightarrow> (Inl err, l2, w2)
               | (None, w2) \<Rightarrow>
                   create_loop rt c q b spec launch deadline (backoff (ControlRetryMaxInterval b) interval) l2 w2))"
  by pat_completeness auto

termination
  by (relation "measure (\<lambda>(rt, c, q, b, spec, launch, deadline, interval, l, w). nat (2 ^ 31 - int32_of (issued l + 1)))")
    (simp, simp only: in_measure prod.case, rule measure_step, auto simp: not_le)

declare create_loop.simps [simp del]

definition createJob :: "'e runtime \<Rightarrow> wctx \<Rightarrow> queues \<Rightarrow> bounds \<Rightarrow> job_spec \<Rightarrow> launch_ref \<Rightarrow> time \<Rightarrow>
    create_ledger \<Rightarrow> 'e world \<Rightarrow> (wf_error + job_ref) \<times> create_ledger \<times> 'e world" where
  "createJob rt c q b spec launch deadline l w =
     create_loop rt c q b spec launch deadline (ControlRetryInitial b) l w"

section \<open>What a call leaves behind\<close>

text \<open>A create call is unresolved when the request may still commit: it failed, was not refused
  and is not known to have stored nothing.\<close>

definition unresolved :: "wf_error + response \<Rightarrow> bool" where
  "unresolved raw = (case decode as_job raw of Inr _ \<Rightarrow> False
     | Inl err \<Rightarrow> \<not> IsNotCreated err \<and> RefusalCode (Some err) = '''')"

text \<open>The create requests of a trace, and the ordinals of those that ended unresolved.\<close>

fun create_requests :: "event list \<Rightarrow> create_job_input list" where
  "create_requests [] = []"
| "create_requests (Act _ _ (Temporal.CreateJob inp) _ # es) = inp # create_requests es"
| "create_requests (_ # es) = create_requests es"

fun unresolved_ordinals :: "event list \<Rightarrow> int list" where
  "unresolved_ordinals [] = []"
| "unresolved_ordinals (Act _ _ (Temporal.CreateJob inp) raw # es) =
     (if unresolved raw then cj_Request inp # unresolved_ordinals es else unresolved_ordinals es)"
| "unresolved_ordinals (_ # es) = unresolved_ordinals es"

lemma create_requests_append: "create_requests (xs @ ys) = create_requests xs @ create_requests ys"
  by (induction xs rule: create_requests.induct) auto

lemma unresolved_ordinals_append: "unresolved_ordinals (xs @ ys) = unresolved_ordinals xs @ unresolved_ordinals ys"
  by (induction xs rule: unresolved_ordinals.induct) auto

lemma cj_Request_create_input [simp]: "cj_Request (create_input spec launch deadline r) = r"
  by (simp add: create_input_def)

lemma cj_Launch_create_input [simp]: "cj_Launch (create_input spec launch deadline r) = launch"
  by (simp add: create_input_def)

text \<open>The calls of a \<open>createJob\<close> are create calls under its options and its own pauses.\<close>

fun create_event :: "wctx \<Rightarrow> activity_options \<Rightarrow> event \<Rightarrow> bool" where
  "create_event c opts (Act c' opts' (Temporal.CreateJob _) _) \<longleftrightarrow> c' = c \<and> opts' = opts"
| "create_event c opts (Act _ _ _ _) \<longleftrightarrow> False"
| "create_event c opts (Slept c' _ _) \<longleftrightarrow> c' = c"

text \<open>The report of a call: \<open>es\<close> are its events in order.\<close>

definition create_report :: "wctx \<Rightarrow> activity_options \<Rightarrow> job_spec \<Rightarrow> launch_ref \<Rightarrow> time \<Rightarrow> create_ledger \<Rightarrow> event list \<Rightarrow>
    wf_error + job_ref \<Rightarrow> create_ledger \<Rightarrow> bool" where
  "create_report c opts spec launch deadline l es res l' \<longleftrightarrow>
     issued l < issued l' \<and>
     create_requests es = map (create_input spec launch deadline) [issued l + 1 .. issued l'] \<and>
     open_requests l' = open_requests l \<union> set (unresolved_ordinals es)
       - (case res of Inr job \<Rightarrow> {jr_Request job} | Inl _ \<Rightarrow> {}) \<and>
     list_all (create_event c opts) es \<and>
     (ledger_ok l \<longrightarrow> ledger_ok l')"

definition first_ledger :: "wf_error + response \<Rightarrow> time \<Rightarrow> create_ledger \<Rightarrow> create_ledger" where
  "first_ledger raw at l = (if unresolved raw then unanswered (issued l + 1) at (issue l) else issue l)"

lemma issued_first_ledger [simp]: "issued (first_ledger raw at l) = issued l + 1"
  by (simp add: first_ledger_def unanswered_def)

lemma open_first_ledger: "open_requests (first_ledger raw at l) = open_requests l \<union> (if unresolved raw then {issued l + 1} else {})"
  by (simp add: first_ledger_def ledger_rules)

lemma ledger_ok_first_ledger: "ledger_ok l \<Longrightarrow> ledger_ok (first_ledger raw at l)"
  by (simp add: first_ledger_def ledger_ok_issue ledger_ok_unanswered)

lemmas first_ledger_facts = issued_first_ledger open_first_ledger ledger_ok_first_ledger

lemma create_report_answered:
  assumes "decode as_job raw = Inr job"
  shows "create_report c opts spec launch deadline l
    [Act c opts (Temporal.CreateJob (create_input spec launch deadline (issued l + 1))) raw]
    (Inr job) (account [jr_Request job] (issue l))"
proof -
  have "\<not> unresolved raw" using assms by (simp add: unresolved_def)
  then show ?thesis
    unfolding create_report_def
    by (simp add: frame_rules open_account open_issue ledger_ok_account ledger_ok_issue del: account.simps)
qed

lemma create_report_failed:
  assumes "decode as_job raw = Inl err" and "rest = [] \<or> (\<exists>d x. rest = [Slept c d x])"
  shows "create_report c opts spec launch deadline l
    (Act c opts (Temporal.CreateJob (create_input spec launch deadline (issued l + 1))) raw # rest)
    (Inl err) (first_ledger raw at l)"
  using assms by (auto simp: create_report_def first_ledger_facts)

lemma create_report_more:
  assumes "create_report c opts spec launch deadline (first_ledger raw at l) es res l'"
  shows "create_report c opts spec launch deadline l
    (Act c opts (Temporal.CreateJob (create_input spec launch deadline (issued l + 1))) raw # Slept c d x # es) res l'"
proof -
  have "[issued l + 1 .. issued l'] = (issued l + 1) # [issued l + 1 + 1 .. issued l']"
    using assms by (subst upto_rec1) (auto simp: create_report_def first_ledger_facts)
  then show ?thesis
    using assms by (auto simp: create_report_def first_ledger_facts)
qed

text \<open>One turn of the loop, by what it ended with.\<close>

lemma create_loop_turn:
  assumes "get as_job (exec rt c (createOptions q b) (Temporal.CreateJob (create_input spec launch deadline (issued l + 1))) w)
      = (decode as_job raw, w1)"
  shows "create_loop rt c q b spec launch deadline interval l w =
    (case decode as_job raw of
       Inr job \<Rightarrow> (Inr job, account [jr_Request job] (issue l), w1)
     | Inl err \<Rightarrow> let l2 = first_ledger raw (now rt w1) l in
         if \<not> IsNotCreated err \<and> RefusalCode (Some err) \<noteq> '''' \<or> rt_ctx_err rt c (est w1) \<or>
            int32_of (issued l2) \<ge> sint (ControlRetryMaxAttempts b)
         then (Inl err, l2, w1)
         else case sleep rt c interval w1 of
             (Some _, w2) \<Rightarrow> (Inl err, l2, w2)
           | (None, w2) \<Rightarrow> create_loop rt c q b spec launch deadline (backoff (ControlRetryMaxInterval b) interval) l2 w2)"
proof (cases "decode as_job raw")
  case (Inl err)
  have same: "after_failure err (issued l + 1) at (issue l) = first_ledger raw at l"
    if "IsNotCreated err \<or> RefusalCode (Some err) = ''''" for at
    using that Inl by (auto simp: first_ledger_def after_failure_def unresolved_def)
  have refused: "first_ledger raw at l = issue l" if "\<not> IsNotCreated err" "RefusalCode (Some err) \<noteq> ''''" for at
    using that Inl by (simp add: first_ledger_def unresolved_def)
  show ?thesis
    by (subst create_loop.simps, simp only: Let_def issued_issue assms Inl prod.case sum.case)
      (auto simp: same refused split: prod.splits option.splits)
next
  case (Inr job)
  show ?thesis
    by (subst create_loop.simps, simp only: Let_def issued_issue assms Inr prod.case sum.case)
qed

lemma create_loop_cases:
  assumes "create_loop rt c q b spec launch deadline interval l w = (res, l', w')"
  obtains raw w1 where "trace w1 = Act c (createOptions q b) (Temporal.CreateJob (create_input spec launch deadline (issued l + 1))) raw # trace w"
    and "(\<exists>job. decode as_job raw = Inr job \<and> (res, l', w') = (Inr job, account [jr_Request job] (issue l), w1)) \<or>
      (\<exists>err. decode as_job raw = Inl err \<and>
        ((res, l', w') = (Inl err, first_ledger raw (now rt w1) l, w1) \<or>
         (\<exists>x w2. trace w2 = Slept c interval x # trace w1 \<and>
           ((res, l', w') = (Inl err, first_ledger raw (now rt w1) l, w2) \<or>
            int32_of (issued l + 1) < sint (ControlRetryMaxAttempts b) \<and>
            create_loop rt c q b spec launch deadline (backoff (ControlRetryMaxInterval b) interval)
              (first_ledger raw (now rt w1) l) w2 = (res, l', w')))))"
proof -
  obtain r1 w1 where call: "get as_job (exec rt c (createOptions q b)
      (Temporal.CreateJob (create_input spec launch deadline (issued l + 1))) w) = (r1, w1)" by fastforce
  then obtain raw where raw: "trace w1 = Act c (createOptions q b)
      (Temporal.CreateJob (create_input spec launch deadline (issued l + 1))) raw # trace w" "r1 = decode as_job raw"
    using trace_get_exec by blast
  obtain x w2 where slept: "sleep rt c interval w1 = (x, w2)" by fastforce
  note turn = create_loop_turn [OF call [unfolded raw(2)], of interval, unfolded assms slept]
  show ?thesis
  proof (cases "decode as_job raw")
    case (Inl err)
    then show ?thesis
      using turn trace_sleep [OF slept]
      by (intro that [OF raw(1)] disjI2 exI [of _ err]) (auto simp: Let_def split: if_splits option.splits)
  next
    case (Inr job)
    then show ?thesis
      using turn by (intro that [OF raw(1)] disjI1 exI [of _ job]) simp_all
  qed
qed

lemma create_loop_report:
  "create_loop rt c q b spec launch deadline interval l w = (res, l', w') \<Longrightarrow>
   \<exists>es. trace w' = rev es @ trace w \<and> create_report c (createOptions q b) spec launch deadline l es res l'"
proof (induction "nat (2 ^ 31 - int32_of (issued l + 1))" arbitrary: interval l w rule: less_induct)
  case less
  from less.prems show ?case
  proof (cases rule: create_loop_cases)
    case (1 raw w1)
    let ?call = "Act c (createOptions q b) (Temporal.CreateJob (create_input spec launch deadline (issued l + 1))) raw"
    consider (answered) job where "decode as_job raw = Inr job" "(res, l', w') = (Inr job, account [jr_Request job] (issue l), w1)"
      | (failed) err where "decode as_job raw = Inl err" "(res, l', w') = (Inl err, first_ledger raw (now rt w1) l, w1)"
      | (paused) err x w2 where "decode as_job raw = Inl err" "trace w2 = Slept c interval x # trace w1"
          "(res, l', w') = (Inl err, first_ledger raw (now rt w1) l, w2)"
      | (again) x w2 where "trace w2 = Slept c interval x # trace w1" "int32_of (issued l + 1) < sint (ControlRetryMaxAttempts b)"
          "create_loop rt c q b spec launch deadline (backoff (ControlRetryMaxInterval b) interval)
              (first_ledger raw (now rt w1) l) w2 = (res, l', w')"
      using 1(2) by blast
    then show ?thesis
    proof cases
      case answered
      with 1(1) show ?thesis
        by (intro exI [of _ "[?call]"]) (auto intro: create_report_answered simp del: account.simps)
    next
      case failed
      with 1(1) show ?thesis by (intro exI [of _ "[?call]"]) (auto intro: create_report_failed)
    next
      case paused
      with 1(1) show ?thesis
        by (intro exI [of _ "[?call, Slept c interval x]"]) (auto intro: create_report_failed)
    next
      case again
      have "nat (2 ^ 31 - int32_of (issued (first_ledger raw (now rt w1) l) + 1)) < nat (2 ^ 31 - int32_of (issued l + 1))"
        using again(2) by (intro measure_step [of _ "ControlRetryMaxAttempts b"]) simp_all
      from less.hyps [OF this again(3)] obtain es where
        "trace w' = rev es @ trace w2"
        "create_report c (createOptions q b) spec launch deadline (first_ledger raw (now rt w1) l) es res l'" by blast
      with 1(1) again(1) show ?thesis
        by (intro exI [of _ "?call # Slept c interval x # es"]) (auto intro: create_report_more)
    qed
  qed
qed

lemma create_loop_bound:
  "create_loop rt c q b spec launch deadline interval l w = (res, l', w') \<Longrightarrow> 0 \<le> issued l \<Longrightarrow> issued l + 1 < 2 ^ 31 \<Longrightarrow>
   issued l' \<le> max (issued l + 1) (sint (ControlRetryMaxAttempts b))"
proof (induction "nat (2 ^ 31 - int32_of (issued l + 1))" arbitrary: interval l w rule: less_induct)
  case less
  from less.prems(1) show ?case
  proof (cases rule: create_loop_cases)
    case (1 raw w1)
    have range: "int32_of (issued l + 1) = issued l + 1" using less.prems by (intro int32_of_id) simp_all
    show ?thesis
    proof (cases "issued l' = issued l + 1")
      case False
      with 1(2) obtain w2 where again: "int32_of (issued l + 1) < sint (ControlRetryMaxAttempts b)"
        "create_loop rt c q b spec launch deadline (backoff (ControlRetryMaxInterval b) interval)
           (first_ledger raw (now rt w1) l) w2 = (res, l', w')"
        by (auto simp: frame_rules simp del: account.simps)
      have "nat (2 ^ 31 - int32_of (issued (first_ledger raw (now rt w1) l) + 1)) < nat (2 ^ 31 - int32_of (issued l + 1))"
        using again(1) by (intro measure_step [of _ "ControlRetryMaxAttempts b"]) simp_all
      then have "issued l' \<le> max (issued l + 1 + 1) (sint (ControlRetryMaxAttempts b))"
        using less.hyps [OF _ again(2)] again(1) range less.prems sint_int32_range(2) [of "ControlRetryMaxAttempts b"]
        by simp
      then show ?thesis using again(1) range by simp
    qed simp
  qed
qed

lemma createJob_report:
  assumes "createJob rt c q b spec launch deadline l w = (res, l', w')"
  shows "create_report c (createOptions q b) spec launch deadline l (since w w') res l'"
    and "\<exists>new. trace w' = new @ trace w"
  using create_loop_report [OF assms [unfolded createJob_def]] by (auto simp: since_append)

text \<open>
  What the trace of a call says of the cleanup's evidence: a \<open>createJob\<close> only pauses and
  issues create calls, so it neither deletes nor closes anything.
\<close>

lemma createJob_extends [trace_rules]:
  assumes "createJob rt c q b spec launch deadline l w = (res, l', w')"
    and "\<And>e. create_event c (createOptions q b) e \<Longrightarrow> P e"
  shows "extends P w w'"
proof -
  have "list_all P (since w w')"
    using createJob_report(1) [OF assms(1)] assms(2) by (auto simp: create_report_def list_all_iff)
  then show ?thesis using createJob_report(2) [OF assms(1)] by (simp add: extends_since)
qed

lemma createJob_ledger_ok [ledger_rules]:
  "createJob rt c q b spec launch deadline l w = (res, l', w') \<Longrightarrow> ledger_ok l \<Longrightarrow> ledger_ok l'"
  using createJob_report(1) by (fastforce simp: create_report_def)

section \<open>Properties\<close>

text \<open>
  C38. A call of \<open>createJob\<close> on a fresh ledger issues the ordinals 1, 2, ... once each, in
  this order, all for the same launch, deadline and envelope; it issues at least one and at
  most \<open>max 1 ControlRetryMaxAttempts\<close> requests, whatever the runtime answers.
\<close>
theorem createJob_ordinals:
  "let (res, l', w') = createJob rt c q b spec launch deadline empty_ledger w in
     create_requests (since w w') = map (create_input spec launch deadline) [1 .. issued l'] \<and>
     1 \<le> issued l' \<and> issued l' \<le> max 1 (sint (ControlRetryMaxAttempts b))"
proof -
  obtain res l' w' where run: "createJob rt c q b spec launch deadline empty_ledger w = (res, l', w')"
    using prod_cases3 by blast
  have "issued empty_ledger = 0" by (simp add: empty_ledger_def)
  then show ?thesis
    using createJob_report(1) [OF run] create_loop_bound [OF run [unfolded createJob_def]]
    by (simp add: run create_report_def)
qed

text \<open>
  The ledger accounts for every request exactly: after a call, the open requests are
  those open before plus the requests of this call whose create call ended unresolved (no
  answer, no refusal, not known uncreated), less the request that the answered Job names
  as the one that committed it.
\<close>
theorem createJob_accounts:
  "let (res, l', w') = createJob rt c q b spec launch deadline l w in
     open_requests l' = open_requests l \<union> set (unresolved_ordinals (since w w'))
       - (case res of Inr job \<Rightarrow> {jr_Request job} | Inl _ \<Rightarrow> {})"
proof -
  obtain res l' w' where run: "createJob rt c q b spec launch deadline l w = (res, l', w')"
    using prod_cases3 by blast
  show ?thesis using createJob_report(1) [OF run] by (simp add: run create_report_def)
qed

end
