(* ===== verification/Script.thy ===== *)
theory Script
  imports Bounds
begin

text \<open>
  A runtime that answers Activity calls from a script and keeps a clock: every call takes a
  second, every timer its duration, a call past the end of the script times out. It is the
  concrete runtime the examples of the component theories run on.
\<close>

record script =
  answers :: "(wf_error + response) list"
  clock :: time

definition script_perform :: "wctx \<Rightarrow> activity_options \<Rightarrow> request \<Rightarrow> script \<Rightarrow> (wf_error + response) \<times> script" where
  "script_perform c opts r s =
     (case answers s of
        [] \<Rightarrow> (Inl TimeoutError, s\<lparr>clock := clock s + second\<rparr>)
      | a # as \<Rightarrow> (a, s\<lparr>answers := as, clock := clock s + second\<rparr>))"

definition scripted :: "script runtime" where
  "scripted =
     \<lparr>rt_perform = script_perform,
      rt_sleep = (\<lambda>c d s. (None, s\<lparr>clock := clock s + max 0 d\<rparr>)),
      rt_now = clock,
      rt_ctx_err = (\<lambda>c s. False),
      rt_version = (\<lambda>change. 1),
      rt_can_suggested = (\<lambda>s. False),
      rt_workflow_type = ''GenerationWorkflow''\<rparr>"

definition start_world :: "(wf_error + response) list \<Rightarrow> script world" where
  "start_world as = \<lparr>est = \<lparr>answers = as, clock = 0\<rparr>, trace = []\<rparr>"

lemmas script_simps = scripted_def script_perform_def start_world_def exec_def get_def sleep_def decode_def second_def minute_def

text \<open>The bounds, queues and references the examples use.\<close>

definition example_bounds :: bounds where
  "example_bounds =
     \<lparr>ControlActivityTimeout = 10 * second, ControlRetryInitial = second, ControlRetryMaxInterval = 30 * second,
      ControlRetryMaxAttempts = 3, LaunchWindow = 10 * minute, ObserveHeartbeatTimeout = 30 * second,
      ObserveMaxAttempts = 3, CleanupTimeout = 2 * minute, CleanupMaxAttempts = 3,
      UnresolvedSettleWindow = 20 * second, CreateRequestLifetime = minute,
      ReconcileInitialInterval = 5 * second, ReconcileMaxInterval = minute, ReconcileMaxDuration = 60 * minute,
      ControlOutageWindow = 30 * minute, ControlReadWindow = 5 * minute,
      SettleMaxInterval = 5 * minute, SettlePollBound = 4\<rparr>"

definition example_queues :: queues where
  "example_queues = \<lparr>q_Business = ''business'', q_Control = ''control''\<rparr>"

definition example_attempt :: attempt_ref where
  "example_attempt = \<lparr>ar_AttemptID = ''att_1'', ar_TenantID = ''t1'', ar_ProfileID = ''local-check-v1'',
     ar_Deadline = 60 * minute, ar_ExecutionEpoch = ''1''\<rparr>"

definition example_launch :: launch_ref where
  "example_launch = \<lparr>lr_LaunchID = ''l1'', lr_AttemptID = ''att_1'', lr_LaunchKey = ''lc-1'',
     lr_ImageDigest = ''sha256:0'', lr_LaunchEpoch = ''1''\<rparr>"

end
