(* ===== verification/Runs.thy ===== *)
theory Runs
  imports Temporal
begin

text \<open>
  \<open>runs rt P w w'\<close>: the world \<open>w'\<close> is reached from \<open>w\<close> by Activity calls and timers of
  the runtime, every one of them an event \<open>P\<close> allows. It is the state counterpart of
  \<open>extends\<close>: what holds of single calls (the clock moves on, the backend settles) carries
  over to an operation once its calls are known.
\<close>

inductive runs :: "'e runtime \<Rightarrow> (event \<Rightarrow> bool) \<Rightarrow> 'e world \<Rightarrow> 'e world \<Rightarrow> bool" for rt P w where
  runs_refl [simp, intro]: "runs rt P w w"
| runs_exec: "runs rt P w w1 \<Longrightarrow> exec rt c opts r w1 = (res, w2) \<Longrightarrow> P (Act c opts r res) \<Longrightarrow> runs rt P w w2"
| runs_sleep: "runs rt P w w1 \<Longrightarrow> sleep rt c d w1 = (res, w2) \<Longrightarrow> P (Slept c d res) \<Longrightarrow> runs rt P w w2"

lemma runs_trans [trans]: "runs rt P w w1 \<Longrightarrow> runs rt P w1 w2 \<Longrightarrow> runs rt P w w2"
  by (rotate_tac, induction rule: runs.induct) (auto intro: runs_exec runs_sleep)

lemma runs_mono: "runs rt P w w' \<Longrightarrow> (\<And>e. P e \<Longrightarrow> Q e) \<Longrightarrow> runs rt Q w w'"
  by (induction rule: runs.induct) (auto intro: runs_exec runs_sleep)

lemma runs_extends: "runs rt P w w' \<Longrightarrow> extends P w w'"
proof (induction rule: runs.induct)
  case (runs_exec w1 c opts r res w2)
  then show ?case by (auto simp: extends_def dest!: trace_exec)
next
  case (runs_sleep w1 c d res w2)
  then show ?case by (auto simp: extends_def dest!: trace_sleep)
qed simp

lemma runs_one [trace_rules]:
  "get d (exec rt c opts r w) = (res, w') \<Longrightarrow> (\<And>x. P (Act c opts r x)) \<Longrightarrow> runs rt P w w'"
  by (cases "exec rt c opts r w") (auto simp: get_def intro: runs_exec)

lemma runs_timer [trace_rules]: "sleep rt c d w = (res, w') \<Longrightarrow> P (Slept c d res) \<Longrightarrow> runs rt P w w'"
  by (rule runs_sleep [OF runs_refl])

text \<open>A relation on runtime states that every allowed call keeps holds of a run.\<close>

lemma runs_relation:
  assumes "runs rt P w w'"
    and "\<And>e. R e e" "\<And>e e1 e2. R e e1 \<Longrightarrow> R e1 e2 \<Longrightarrow> R e e2"
    and "\<And>c opts r res e e'. P (Act c opts r res) \<Longrightarrow> rt_perform rt c opts r e = (res, e') \<Longrightarrow> R e e'"
    and "\<And>c d res e e'. P (Slept c d res) \<Longrightarrow> rt_sleep rt c d e = (res, e') \<Longrightarrow> R e e'"
  shows "R (est w) (est w')"
  using assms(1)
proof (induction rule: runs.induct)
  case (runs_exec w1 c opts r res w2)
  then have "R (est w1) (est w2)" by (auto simp: exec_def split: prod.splits intro: assms(4))
  with runs_exec show ?case by (blast intro: assms(3))
next
  case (runs_sleep w1 c d res w2)
  then have "R (est w1) (est w2)" by (auto simp: sleep_def split: prod.splits intro: assms(5))
  with runs_sleep show ?case by (blast intro: assms(3))
qed (rule assms(2))

text \<open>Counting the calls of a kind.\<close>

definition count_events :: "(event \<Rightarrow> bool) \<Rightarrow> 'e world \<Rightarrow> nat" where
  "count_events K w = length (filter K (trace w))"

lemma count_events_none: "runs rt P w w' \<Longrightarrow> (\<And>e. P e \<Longrightarrow> \<not> K e) \<Longrightarrow> count_events K w' = count_events K w"
  by (drule runs_extends) (auto simp: extends_def count_events_def filter_empty_conv list_all_iff)

section \<open>The clock\<close>

text \<open>A clock that advances: no call takes it back, a timer takes it at least as far as asked.\<close>

definition advancing :: "'e runtime \<Rightarrow> bool" where
  "advancing rt \<longleftrightarrow>
     (\<forall>c opts r e. rt_now rt e \<le> rt_now rt (snd (rt_perform rt c opts r e))) \<and>
     (\<forall>c d e. rt_now rt e \<le> rt_now rt (snd (rt_sleep rt c d e))) \<and>
     (\<forall>c d e. fst (rt_sleep rt c d e) = None \<longrightarrow> rt_now rt e + d \<le> rt_now rt (snd (rt_sleep rt c d e)))"

lemma advancing_sleep: "advancing rt \<Longrightarrow> sleep rt c d w = (None, w') \<Longrightarrow> now rt w + d \<le> now rt w'"
  by (auto simp: advancing_def sleep_def split: prod.splits) (metis fst_conv snd_conv)

lemma advancing_runs: "advancing rt \<Longrightarrow> runs rt P w w' \<Longrightarrow> now rt w \<le> now rt w'"
proof (rule runs_relation [where R = "\<lambda>e e'. rt_now rt e \<le> rt_now rt e'"])
  assume adv: "advancing rt"
  show "rt_now rt e \<le> rt_now rt e'" if "rt_perform rt c opts r e = (res, e')" for c opts r res e e'
    using adv that unfolding advancing_def by (metis snd_conv)
  show "rt_now rt e \<le> rt_now rt e'" if "rt_sleep rt c d e = (res, e')" for c d res e e'
    using adv that unfolding advancing_def by (metis snd_conv)
qed auto

text \<open>The SDK's timers fail with a cancellation only.\<close>

definition timers_cancel :: "'e runtime \<Rightarrow> bool" where
  "timers_cancel rt \<longleftrightarrow> (\<forall>c d e err. fst (rt_sleep rt c d e) = Some err \<longrightarrow> err = CanceledError)"

lemma timer_canceled: "timers_cancel rt \<Longrightarrow> sleep rt c d w = (Some err, w') \<Longrightarrow> err = CanceledError"
  unfolding timers_cancel_def by (auto simp: sleep_def split: prod.splits) (metis fst_conv)

end
