(* ===== verification/Cleanup.thy ===== *)
theory Cleanup
  imports CreateJob Script Runs
begin

text \<open>
  The evidence-first cleanup of a launch: \<open>cleanupRound\<close>, \<open>lifetimeEnded\<close>,
  \<open>observeLaunch\<close>, \<open>recordObservation\<close>, \<open>deleteJob\<close> and \<open>reconcileCleanup\<close> of
  \<^verbatim>\<open>internal/workflows/localcheck.go\<close>. The main result is that a round that confirms
  cleanup is right: nothing of the launch exists any more and nothing of it can appear
  later, whatever the requests of the run did, as long as the backend's answers are
  truthful (\<open>backend_truthful\<close>).
\<close>

section \<open>Recording evidence\<close>

definition register_input :: "attempt_ref \<Rightarrow> launch_ref \<Rightarrow> string \<Rightarrow> pod_observation \<Rightarrow> register_instance_input" where
  "register_input attempt launch jobUID pod =
     \<lparr>ri_Attempt = attempt, ri_Launch = launch,
      ri_CommandID = ar_AttemptID attempt @ '':register:'' @ po_PodUID pod,
      ri_JobUID = jobUID, ri_PodUID = po_PodUID pod\<rparr>"

fun register_pods :: "'e runtime \<Rightarrow> wctx \<Rightarrow> queues \<Rightarrow> bounds \<Rightarrow> attempt_ref \<Rightarrow> launch_ref \<Rightarrow> string \<Rightarrow>
    pod_observation list \<Rightarrow> 'e world \<Rightarrow> 'e world" where
  "register_pods rt c q b attempt launch jobUID [] w = w"
| "register_pods rt c q b attempt launch jobUID (pod # pods) w =
     (case get as_instance (exec rt c (businessOptions q b)
             (RegisterInstance (register_input attempt launch jobUID pod)) w) of
        (Inl err, w1) \<Rightarrow> register_pods rt c q b attempt launch jobUID pods w1
      | (Inr inst, w1) \<Rightarrow>
          (case get as_unit (exec rt c (businessOptions q b)
                (ObserveInstance \<lparr>oi_Attempt = attempt, oi_Instance = inst, oi_Observation = pod\<rparr>) w1) of
             (_, w2) \<Rightarrow> register_pods rt c q b attempt launch jobUID pods w2))"

definition recordObservation :: "'e runtime \<Rightarrow> wctx \<Rightarrow> queues \<Rightarrow> bounds \<Rightarrow> attempt_ref \<Rightarrow> launch_ref \<Rightarrow>
    create_ledger \<Rightarrow> launch_observation \<Rightarrow> 'e world \<Rightarrow> create_ledger \<times> 'e world" where
  "recordObservation rt c q b attempt launch l obs w =
     (account (lo_Requests obs) l, register_pods rt c q b attempt launch (lo_JobUID obs) (lo_Pods obs) w)"

definition observeLaunch :: "'e runtime \<Rightarrow> wctx \<Rightarrow> queues \<Rightarrow> bounds \<Rightarrow> attempt_ref \<Rightarrow> launch_ref \<Rightarrow>
    create_ledger \<Rightarrow> 'e world \<Rightarrow> bool \<times> create_ledger \<times> 'e world" where
  "observeLaunch rt c q b attempt launch l w =
     (case get as_launch_observation (exec rt c (cleanupOptions q b)
             (ObserveLaunch \<lparr>ol_Launch = launch, ol_SettleWindow = UnresolvedSettleWindow b\<rparr>) w) of
        (Inl err, w1) \<Rightarrow> (False, l, w1)
      | (Inr obs, w1) \<Rightarrow> (True, recordObservation rt c q b attempt launch l obs w1))"

definition deleteJob :: "'e runtime \<Rightarrow> wctx \<Rightarrow> queues \<Rightarrow> bounds \<Rightarrow> launch_ref \<Rightarrow> int list \<Rightarrow>
    'e world \<Rightarrow> (wf_error + launch_observation) \<times> 'e world" where
  "deleteJob rt c q b launch waiting w =
     get as_launch_observation (exec rt c (cleanupOptions q b)
       (DeleteJob \<lparr>dj_Launch = launch, dj_Unaccounted = waiting, dj_EvidenceFirst = False, dj_Recorded = []\<rparr>) w)"

definition lifetimeEnded :: "'e runtime \<Rightarrow> bounds \<Rightarrow> create_ledger \<Rightarrow> 'e world \<Rightarrow> int list" where
  "lifetimeEnded rt b l w =
     (if CreateRequestLifetime b \<le> 0 \<or> length (unaccounted l) = 0 then []
      else let expired = expiredBy l (now rt w) (CreateRequestLifetime b) in
        if length expired = 0 then []
        else if rt_version rt ''create-request-lifetime'' = DefaultVersion then []
        else expired)"

section \<open>One round\<close>

text \<open>The evidence a pass of the round needs before its delete: nothing, or an observation.\<close>

definition acquire_evidence :: "'e runtime \<Rightarrow> wctx \<Rightarrow> queues \<Rightarrow> bounds \<Rightarrow> attempt_ref \<Rightarrow> launch_ref \<Rightarrow>
    create_ledger \<Rightarrow> int list \<Rightarrow> 'e world \<Rightarrow> bool \<times> create_ledger \<times> 'e world" where
  "acquire_evidence rt c q b attempt launch l expired w =
     (if length (unaccounted l) > 0 \<and> length expired < length (unaccounted l)
      then observeLaunch rt c q b attempt launch l w else (True, l, w))"

text \<open>What a confirmed delete does to the ledger.\<close>

definition after_delete :: "'e runtime \<Rightarrow> wctx \<Rightarrow> queues \<Rightarrow> bounds \<Rightarrow> attempt_ref \<Rightarrow> launch_ref \<Rightarrow>
    int list \<Rightarrow> create_ledger \<Rightarrow> launch_observation \<Rightarrow> 'e world \<Rightarrow> create_ledger \<times> 'e world" where
  "after_delete rt c q b attempt launch expired l stopped w =
     (if \<not> Empty stopped then recordObservation rt c q b attempt launch l stopped w
      else if length expired > 0 then (account expired l, w) else (l, w))"

lemma length_recordObservation:
  "length (unaccounted (fst (recordObservation rt c q b attempt launch l obs w))) \<le> length (unaccounted l)"
  by (simp add: recordObservation_def length_account)

lemma length_acquire_evidence:
  "acquire_evidence rt c q b attempt launch l expired w = (ok, l', w') \<Longrightarrow> length (unaccounted l') \<le> length (unaccounted l)"
  by (auto simp: acquire_evidence_def observeLaunch_def recordObservation_def length_account
      split: if_splits prod.splits sum.splits)

lemma length_after_delete:
  "after_delete rt c q b attempt launch expired l stopped w = (l', w') \<Longrightarrow> length (unaccounted l') \<le> length (unaccounted l)"
  by (auto simp: after_delete_def recordObservation_def length_account split: if_splits)

text \<open>
  The loop of \<open>cleanupRound\<close>. Every pass after the first strikes a request or ends the
  round, so it ends for every answer of the runtime.
\<close>

function cleanup_pass :: "bool \<Rightarrow> 'e runtime \<Rightarrow> wctx \<Rightarrow> queues \<Rightarrow> bounds \<Rightarrow> attempt_ref \<Rightarrow> launch_ref \<Rightarrow>
    create_ledger \<Rightarrow> 'e world \<Rightarrow> bool \<times> create_ledger \<times> 'e world" where
  "cleanup_pass observed rt c q b attempt launch l w =
     (let before = length (unaccounted l); expired = lifetimeEnded rt b l w in
      case acquire_evidence rt c q b attempt launch l expired w of
        (False, l1, w1) \<Rightarrow> (False, l1, w1)
      | (True, l1, w1) \<Rightarrow>
          (case deleteJob rt c q b launch (unaccounted l1) w1 of
             (Inl err, w2) \<Rightarrow> (False, l1, w2)
           | (Inr stopped, w2) \<Rightarrow>
               (case after_delete rt c q b attempt launch expired l1 stopped w2 of
                  (l2, w3) \<Rightarrow>
                    if settled l2 \<and> Empty stopped then (True, l2, w3)
                    else if observed \<and> length (unaccounted l2) = before then (False, l2, w3)
                    else cleanup_pass True rt c q b attempt launch l2 w3)))"
  by pat_completeness auto

termination
proof (relation "measure (\<lambda>(observed, rt, c, q, b, attempt, launch, l, w). length (unaccounted l) + (if observed then 0 else 1))",
    goal_cases)
  case (2 observed rt c q b attempt launch l w before expired ok y l1 w1 res w2 stopped l2 w3)
  have "after_delete rt c q b attempt launch expired l1 stopped w2 = (l2, w3)" using 2(8) by simp
  then have "length (unaccounted l2) \<le> length (unaccounted l1)" by (rule length_after_delete)
  moreover have "acquire_evidence rt c q b attempt launch l expired w = (True, l1, w1)" using 2(3-5) by simp
  then have "length (unaccounted l1) \<le> length (unaccounted l)" by (rule length_acquire_evidence)
  ultimately show ?case using 2(1,10) by auto
qed simp

declare cleanup_pass.simps [simp del]

definition cleanupRound :: "'e runtime \<Rightarrow> wctx \<Rightarrow> queues \<Rightarrow> bounds \<Rightarrow> attempt_ref \<Rightarrow> launch_ref \<Rightarrow>
    create_ledger \<Rightarrow> 'e world \<Rightarrow> bool \<times> create_ledger \<times> 'e world" where
  "cleanupRound rt c q b attempt launch l w = cleanup_pass False rt c q b attempt launch l w"

text \<open>
  \<open>reconcileCleanup\<close>: rounds on durable timers until one confirms or the bound is reached.
  It returns \<open>None\<close> only if the clock never reaches the bound.
\<close>

partial_function (option) reconcile_loop :: "'e runtime \<Rightarrow> wctx \<Rightarrow> queues \<Rightarrow> bounds \<Rightarrow> attempt_ref \<Rightarrow> launch_ref \<Rightarrow>
    time \<Rightarrow> duration \<Rightarrow> create_ledger \<Rightarrow> 'e world \<Rightarrow> (bool \<times> create_ledger \<times> 'e world) option" where
  "reconcile_loop rt c q b attempt launch start interval l w =
     (if now rt w - start + interval > ReconcileMaxDuration b then Some (False, l, w)
      else case sleep rt c interval w of
          (Some _, w1) \<Rightarrow> Some (False, l, w1)
        | (None, w1) \<Rightarrow>
            (case cleanupRound rt c q b attempt launch l w1 of
               (ok, l1, w2) \<Rightarrow>
                 if ok then Some (True, l1, w2)
                 else reconcile_loop rt c q b attempt launch start (backoff (ReconcileMaxInterval b) interval) l1 w2))"

definition reconcileCleanup :: "'e runtime \<Rightarrow> wctx \<Rightarrow> queues \<Rightarrow> bounds \<Rightarrow> attempt_ref \<Rightarrow> launch_ref \<Rightarrow>
    create_ledger \<Rightarrow> 'e world \<Rightarrow> (bool \<times> create_ledger \<times> 'e world) option" where
  "reconcileCleanup rt c q b attempt launch l w =
     reconcile_loop rt c q b attempt launch (now rt w) (ReconcileInitialInterval b) l w"

section \<open>Confirmed cleanup is right\<close>

text \<open>
  What the cleanup relies on. \<open>pend e\<close> are the ordinals whose create request may still
  commit in the backend state \<open>e\<close>, \<open>obj e\<close> the markers of the objects under the launch
  key, \<open>due e r\<close> the time by which a pending request is over. Between two states without
  a create call, requests only leave \<open>pend\<close>, and an object that appears is that of a
  request that committed (\<open>settling\<close>). The launcher's answers are truthful: a reported
  marker is that of a committed request, and a delete that answers empty read the key empty,
  so what exists afterwards was committed since. A request that is due cannot commit.
\<close>

definition settling :: "('e \<Rightarrow> int set) \<Rightarrow> ('e \<Rightarrow> int set) \<Rightarrow> ('e \<Rightarrow> int \<Rightarrow> time) \<Rightarrow> 'e \<Rightarrow> 'e \<Rightarrow> bool" where
  "settling pend obj due e e' \<longleftrightarrow> pend e' \<subseteq> pend e \<and> obj e' \<subseteq> obj e \<union> (pend e - pend e') \<and>
     (\<forall>r \<in> pend e'. due e' r \<le> due e r)"

fun quiet_request :: "request \<Rightarrow> bool" where
  "quiet_request (Temporal.CreateJob _) \<longleftrightarrow> False"
| "quiet_request _ \<longleftrightarrow> True"

definition backend_truthful :: "'e runtime \<Rightarrow> launch_ref \<Rightarrow> ('e \<Rightarrow> int set) \<Rightarrow> ('e \<Rightarrow> int set) \<Rightarrow>
    ('e \<Rightarrow> int \<Rightarrow> time) \<Rightarrow> bool" where
  "backend_truthful rt launch pend obj due \<longleftrightarrow>
     (\<forall>c opts r e res e'. rt_perform rt c opts r e = (res, e') \<longrightarrow> quiet_request r \<longrightarrow> settling pend obj due e e') \<and>
     (\<forall>c d e res e'. rt_sleep rt c d e = (res, e') \<longrightarrow> settling pend obj due e e') \<and>
     (\<forall>c opts inp e obs e'. rt_perform rt c opts (ObserveLaunch inp) e = (Inr (RLaunchObservation obs), e') \<longrightarrow>
        ol_Launch inp = launch \<longrightarrow> set (lo_Requests obs) \<inter> pend e' = {}) \<and>
     (\<forall>c opts inp e obs e'. rt_perform rt c opts (DeleteJob inp) e = (Inr (RLaunchObservation obs), e') \<longrightarrow>
        dj_Launch inp = launch \<longrightarrow>
        set (lo_Requests obs) \<inter> pend e' = {} \<and> (Empty obs \<longrightarrow> obj e' \<subseteq> pend e - pend e')) \<and>
     (\<forall>e. \<forall>r \<in> pend e. rt_now rt e < due e r)"

text \<open>A request that may still commit is due within its lifetime of the end of its create call.\<close>

definition timely :: "duration \<Rightarrow> ('e \<Rightarrow> int set) \<Rightarrow> ('e \<Rightarrow> int \<Rightarrow> time) \<Rightarrow> (int \<rightharpoonup> time) \<Rightarrow> 'e \<Rightarrow> bool" where
  "timely life pend due over e \<longleftrightarrow> (\<forall>r \<in> pend e. \<forall>t. over r = Some t \<longrightarrow> due e r \<le> t + life)"

lemma timely_settling: "timely life pend due over e \<Longrightarrow> settling pend obj due e e' \<Longrightarrow> timely life pend due over e'"
  unfolding timely_def settling_def by (meson order_trans subsetD)

lemma settling_refl [simp, intro]: "settling pend obj due e e"
  by (simp add: settling_def)

lemma settling_trans: "settling pend obj due e e1 \<Longrightarrow> settling pend obj due e1 e2 \<Longrightarrow> settling pend obj due e e2"
proof (unfold settling_def, elim conjE, intro conjI ballI)
  fix r
  assume "\<forall>r \<in> pend e1. due e1 r \<le> due e r" "\<forall>r \<in> pend e2. due e2 r \<le> due e1 r" "pend e2 \<subseteq> pend e1" "r \<in> pend e2"
  then show "due e2 r \<le> due e r" by (meson order_trans subsetD)
qed auto

lemma settling_pend: "settling pend obj due e e' \<Longrightarrow> pend e' \<subseteq> pend e"
  by (simp add: settling_def)

lemma truthful_settling:
  "backend_truthful rt launch pend obj due \<Longrightarrow> rt_perform rt c opts r e = (res, e') \<Longrightarrow> quiet_request r \<Longrightarrow> settling pend obj due e e'"
  unfolding backend_truthful_def by (drule conjunct1) blast

lemma truthful_observed:
  "backend_truthful rt launch pend obj due \<Longrightarrow> rt_perform rt c opts (ObserveLaunch inp) e = (Inr (RLaunchObservation obs), e') \<Longrightarrow>
   ol_Launch inp = launch \<Longrightarrow> set (lo_Requests obs) \<inter> pend e' = {}"
  unfolding backend_truthful_def by blast

lemma truthful_deleted:
  "backend_truthful rt launch pend obj due \<Longrightarrow> rt_perform rt c opts (DeleteJob inp) e = (Inr (RLaunchObservation obs), e') \<Longrightarrow>
   dj_Launch inp = launch \<Longrightarrow>
   set (lo_Requests obs) \<inter> pend e' = {} \<and> (Empty obs \<longrightarrow> obj e' \<subseteq> pend e - pend e')"
  unfolding backend_truthful_def by blast

lemma truthful_call:
  assumes "backend_truthful rt launch pend obj due" "get d (exec rt c opts r w) = (res, w')" "quiet_request r"
  shows "settling pend obj due (est w) (est w')"
proof -
  obtain raw where "rt_perform rt c opts r (est w) = (raw, est w')" using trace_get_exec [OF assms(2)] by blast
  then show ?thesis by (rule truthful_settling [OF assms(1) _ assms(3)])
qed

lemma truthful_sleep:
  assumes "backend_truthful rt launch pend obj due" "sleep rt c d w = (res, w')"
  shows "settling pend obj due (est w) (est w')"
  using assms unfolding backend_truthful_def sleep_def by (auto split: prod.splits)

text \<open>Whatever a run without create calls does, the backend only settles.\<close>

lemma runs_settling:
  assumes "backend_truthful rt launch pend obj due" "runs rt P w w'"
    and "\<And>c opts r res. P (Act c opts r res) \<Longrightarrow> quiet_request r"
  shows "settling pend obj due (est w) (est w')"
proof (rule runs_relation [OF assms(2), where R = "settling pend obj due"])
  fix c opts r res e e'
  assume "P (Act c opts r res)" "rt_perform rt c opts r e = (res, e')"
  then show "settling pend obj due e e'" using truthful_settling [OF assms(1)] assms(3) by blast
next
  fix c d res e e'
  assume "rt_sleep rt c d e = (res, e')"
  then show "settling pend obj due e e'" using assms(1) [unfolded backend_truthful_def, THEN conjunct2, THEN conjunct1] by blast
qed (auto intro: settling_trans)

lemma performed_observation:
  assumes "get as_launch_observation (exec rt c opts r w) = (Inr obs, w')"
  shows "rt_perform rt c opts r (est w) = (Inr (RLaunchObservation obs), est w')"
proof -
  obtain raw where "rt_perform rt c opts r (est w) = (raw, est w')" "Inr obs = decode as_launch_observation raw"
    using trace_get_exec [OF assms] by blast
  then show ?thesis by (auto simp: decode_def split: sum.splits option.splits)
qed

lemma register_pods_settling:
  assumes "backend_truthful rt launch pend obj due"
  shows "settling pend obj due (est w) (est (register_pods rt c q b attempt lau jobUID pods w))"
proof (induction pods arbitrary: w)
  case (Cons pod pods)
  show ?case
    by (auto split: prod.split sum.split intro!: settling_trans [OF _ Cons] dest!: truthful_call [OF assms]
        elim!: settling_trans)
qed simp

lemma recordObservation_settling:
  assumes "backend_truthful rt launch pend obj due" "recordObservation rt c q b attempt lau l obs w = (l', w')"
  shows "settling pend obj due (est w) (est w')"
  using assms register_pods_settling [OF assms(1)] by (auto simp: recordObservation_def)

lemma recordObservation_covers:
  assumes "backend_truthful rt launch pend obj due" "recordObservation rt c q b attempt lau l obs w = (l', w')"
    and "cl.covers (pend (est w)) l" "set (lo_Requests obs) \<inter> pend (est w) = {}"
  shows "cl.covers (pend (est w')) l'" "ended l' = ended l" "open_requests l' \<subseteq> open_requests l"
proof -
  have p: "pend (est w') \<subseteq> pend (est w)"
    using recordObservation_settling [OF assms(1,2)] by (rule settling_pend)
  have l': "l' = account (lo_Requests obs) l" using assms(2) by (simp add: recordObservation_def)
  show "cl.covers (pend (est w')) l'" unfolding l'
    by (rule cl.covers_close_evidence [OF assms(3) p]) (use assms(4) p in blast)
  show "ended l' = ended l" "open_requests l' \<subseteq> open_requests l"
    unfolding l' by (simp_all add: ended_account cl.close_monotone)
qed

lemma acquire_evidence_sound:
  assumes "backend_truthful rt launch pend obj due" "acquire_evidence rt c q b attempt launch l expired w = (ok, l', w')"
    and "cl.covers (pend (est w)) l"
  shows "cl.covers (pend (est w')) l'" "ended l' = ended l" "settling pend obj due (est w) (est w')"
    "open_requests l' \<subseteq> open_requests l"
proof -
  have "cl.covers (pend (est w')) l' \<and> ended l' = ended l \<and> settling pend obj due (est w) (est w') \<and>
      open_requests l' \<subseteq> open_requests l"
  proof (cases "l' = l \<and> w' = w")
    case False
    obtain res w1 where call: "get as_launch_observation (exec rt c (cleanupOptions q b)
        (ObserveLaunch \<lparr>ol_Launch = launch, ol_SettleWindow = UnresolvedSettleWindow b\<rparr>) w) = (res, w1)" by fastforce
    have s1: "settling pend obj due (est w) (est w1)" by (rule truthful_call [OF assms(1) call]) simp
    have c1: "cl.covers (pend (est w1)) l" using assms(3) settling_pend [OF s1] by (rule cl.covers_mono)
    show ?thesis
    proof (cases res)
      case (Inl err)
      with False assms(2) call show ?thesis
        using s1 c1 by (auto simp: acquire_evidence_def observeLaunch_def split: if_splits)
    next
      case (Inr obs)
      with False assms(2) call have rec: "recordObservation rt c q b attempt launch l obs w1 = (l', w')"
        by (auto simp: acquire_evidence_def observeLaunch_def split: if_splits)
      have "set (lo_Requests obs) \<inter> pend (est w1) = {}"
        using call Inr by (intro truthful_observed [OF assms(1) performed_observation]) auto
      then show ?thesis
        using recordObservation_covers [OF assms(1) rec c1] recordObservation_settling [OF assms(1) rec] s1
        by (blast intro: settling_trans)
    qed
  qed (use assms(3) in auto)
  then show "cl.covers (pend (est w')) l'" "ended l' = ended l" "settling pend obj due (est w) (est w')"
    "open_requests l' \<subseteq> open_requests l" by blast+
qed

lemma deleteJob_sound:
  assumes "backend_truthful rt launch pend obj due" "deleteJob rt c q b launch waiting w = (Inr obs, w')"
  shows "settling pend obj due (est w) (est w')" "set (lo_Requests obs) \<inter> pend (est w') = {}"
    "Empty obs \<Longrightarrow> obj (est w') \<subseteq> pend (est w) - pend (est w')"
proof -
  let ?inp = "\<lparr>dj_Launch = launch, dj_Unaccounted = waiting, dj_EvidenceFirst = False, dj_Recorded = []\<rparr>"
  from assms(2) have call: "get as_launch_observation (exec rt c (cleanupOptions q b) (DeleteJob ?inp) w) = (Inr obs, w')"
    by (simp add: deleteJob_def)
  show "settling pend obj due (est w) (est w')" by (rule truthful_call [OF assms(1) call]) simp
  show "set (lo_Requests obs) \<inter> pend (est w') = {}" "Empty obs \<Longrightarrow> obj (est w') \<subseteq> pend (est w) - pend (est w')"
    using truthful_deleted [OF assms(1) performed_observation [OF call]] by simp_all
qed

text \<open>
  A confirmed round, unfolded once: the pass acquired its evidence, its delete was
  answered, and either this settles the round or another pass confirmed it.
\<close>

lemma cleanup_pass_True:
  assumes "cleanup_pass observed rt c q b attempt launch l w = (True, l', w')"
  obtains l1 w1 stopped w2 l2 w3 where
    "acquire_evidence rt c q b attempt launch l (lifetimeEnded rt b l w) w = (True, l1, w1)"
    "deleteJob rt c q b launch (unaccounted l1) w1 = (Inr stopped, w2)"
    "after_delete rt c q b attempt launch (lifetimeEnded rt b l w) l1 stopped w2 = (l2, w3)"
    "settled l2 \<and> Empty stopped \<and> l' = l2 \<and> w' = w3 \<or>
     \<not> (settled l2 \<and> Empty stopped) \<and> \<not> (observed \<and> length (unaccounted l2) = length (unaccounted l)) \<and>
       cleanup_pass True rt c q b attempt launch l2 w3 = (True, l', w')"
  using assms
  by (subst (asm) cleanup_pass.simps) (auto simp: Let_def split: prod.splits bool.splits sum.splits if_splits)

lemma pass_measure:
  assumes "acquire_evidence rt c q b attempt launch l expired w = (True, l1, w1)"
    and "after_delete rt c q b attempt launch expired l1 stopped w2 = (l2, w3)"
    and "\<not> (observed \<and> length (unaccounted l2) = length (unaccounted l))"
  shows "length (unaccounted l2) < length (unaccounted l) + (if observed then 0 else 1)"
  using length_acquire_evidence [OF assms(1)] length_after_delete [OF assms(2)] assms(3) by auto

text \<open>Induction over the passes of a confirmed round.\<close>

lemma cleanup_pass_induct [consumes 1, case_names last more]:
  assumes "cleanup_pass observed rt c q b attempt launch l w = (True, l', w')"
    and last: "\<And>observed l w l1 w1 stopped w2 l2 w3.
      acquire_evidence rt c q b attempt launch l (lifetimeEnded rt b l w) w = (True, l1, w1) \<Longrightarrow>
      deleteJob rt c q b launch (unaccounted l1) w1 = (Inr stopped, w2) \<Longrightarrow>
      after_delete rt c q b attempt launch (lifetimeEnded rt b l w) l1 stopped w2 = (l2, w3) \<Longrightarrow>
      settled l2 \<Longrightarrow> Empty stopped \<Longrightarrow> P observed l w l2 w3"
    and more: "\<And>observed l w l1 w1 stopped w2 l2 w3 l' w'.
      acquire_evidence rt c q b attempt launch l (lifetimeEnded rt b l w) w = (True, l1, w1) \<Longrightarrow>
      deleteJob rt c q b launch (unaccounted l1) w1 = (Inr stopped, w2) \<Longrightarrow>
      after_delete rt c q b attempt launch (lifetimeEnded rt b l w) l1 stopped w2 = (l2, w3) \<Longrightarrow>
      length (unaccounted l2) < length (unaccounted l) + (if observed then 0 else 1) \<Longrightarrow>
      P True l2 w3 l' w' \<Longrightarrow> P observed l w l' w'"
  shows "P observed l w l' w'"
  using assms(1)
proof (induction "length (unaccounted l) + (if observed then 0 else 1)" arbitrary: observed l w rule: less_induct)
  case less
  from less.prems show ?case
  proof (cases rule: cleanup_pass_True)
    case (1 l1 w1 stopped w2 l2 w3)
    from 1(4) show ?thesis
    proof (elim disjE conjE)
      assume "settled l2" "Empty stopped" "l' = l2" "w' = w3"
      then show ?thesis using last [OF 1(1-3)] by simp
    next
      assume m: "\<not> (observed \<and> length (unaccounted l2) = length (unaccounted l))"
        and rec: "cleanup_pass True rt c q b attempt launch l2 w3 = (True, l', w')"
      note lt = pass_measure [OF 1(1,3) m]
      then have "P True l2 w3 l' w'" by (intro less.hyps [OF _ rec]) simp
      then show ?thesis by (rule more [OF 1(1-3) lt])
    qed
  qed
qed

lemma set_lifetimeEnded:
  "set (lifetimeEnded rt b l w) \<subseteq> {r \<in> open_requests l. \<exists>e. ended l r = Some e \<and> e + CreateRequestLifetime b \<le> now rt w}"
  by (auto simp: lifetimeEnded_def Let_def set_expiredBy)

lemma lifetimeEnded_not_pending:
  assumes "timely (CreateRequestLifetime b) pend due (ended l) (est w)" "backend_truthful rt launch pend obj due"
  shows "set (lifetimeEnded rt b l w) \<inter> pend (est w) = {}"
proof -
  have "now rt w < due (est w) r" if "r \<in> pend (est w)" for r
    using assms(2) that unfolding backend_truthful_def by blast
  moreover have "due (est w) r \<le> now rt w" if "r \<in> set (lifetimeEnded rt b l w)" "r \<in> pend (est w)" for r
    using assms(1) set_lifetimeEnded [of rt b l w] that unfolding timely_def by fastforce
  ultimately show ?thesis by fastforce
qed

text \<open>What a delete leaves of the coverage: every request that may still land is open.\<close>

lemma after_delete_covers:
  assumes "backend_truthful rt launch pend obj due"
    and "after_delete rt c q b attempt launch expired l stopped w = (l', w')"
    and "cl.covers (pend (est w)) l" "set (lo_Requests stopped) \<inter> pend (est w) = {}"
    and "set expired \<inter> pend (est w) = {}"
  shows "cl.covers (pend (est w')) l'" "ended l' = ended l" "settling pend obj due (est w) (est w')"
    "Empty stopped \<Longrightarrow> w' = w"
proof -
  have "cl.covers (pend (est w')) l' \<and> ended l' = ended l \<and> settling pend obj due (est w) (est w')"
  proof (cases "Empty stopped")
    case False
    then have rec: "recordObservation rt c q b attempt launch l stopped w = (l', w')"
      using assms(2) by (simp add: after_delete_def)
    show ?thesis using recordObservation_covers [OF assms(1) rec assms(3,4)]
        recordObservation_settling [OF assms(1) rec] by blast
  next
    case True
    then show ?thesis using assms(2,3,5)
      by (auto simp: after_delete_def ended_account split: if_splits intro!: cl.covers_close)
  qed
  then show "cl.covers (pend (est w')) l'" "ended l' = ended l" "settling pend obj due (est w) (est w')" by blast+
  show "Empty stopped \<Longrightarrow> w' = w" using assms(2) by (auto simp: after_delete_def split: if_splits)
qed

lemma cleanup_pass_sound:
  assumes "cleanup_pass observed rt c q b attempt launch l w = (True, l', w')"
    and "backend_truthful rt launch pend obj due"
    and "timely (CreateRequestLifetime b) pend due (ended l) (est w)" "cl.covers (pend (est w)) l"
  shows "obj (est w') = {} \<and> pend (est w') = {} \<and> settled l'"
  using assms(1,3,4)
proof (induction rule: cleanup_pass_induct)
  case (last observed l w l1 w1 stopped w2 l2 w3)
  note acq = acquire_evidence_sound [OF assms(2) last(1) last(7)]
  note del = deleteJob_sound [OF assms(2) last(2)]
  have notp: "set (lifetimeEnded rt b l w) \<inter> pend (est w1) = {}"
    using lifetimeEnded_not_pending [OF last(6) assms(2)] settling_pend [OF acq(3)] by blast
  have c2: "cl.covers (pend (est w1)) l1" by (rule acq(1))
  have l2: "l2 = (if length (lifetimeEnded rt b l w) > 0 then account (lifetimeEnded rt b l w) l1 else l1)" "w3 = w2"
    using last(3,5) by (simp_all add: after_delete_def split: if_splits)
  have "open_requests l1 \<subseteq> set (lifetimeEnded rt b l w)"
    using last(4) unfolding l2 settled_open by (auto simp: open_account split: if_splits)
  then have "pend (est w1) = {}" using c2 notp by (auto simp: cl.covers_def)
  then show ?case using del(3) [OF last(5)] settling_pend [OF del(1)] last(4) by (simp add: l2)
next
  case (more observed l w l1 w1 stopped w2 l2 w3 l' w')
  note acq = acquire_evidence_sound [OF assms(2) more(1) more(7)]
  note del = deleteJob_sound [OF assms(2) more(2)]
  have notp: "set (lifetimeEnded rt b l w) \<inter> pend (est w2) = {}"
    using lifetimeEnded_not_pending [OF more(6) assms(2)] settling_pend [OF acq(3)] settling_pend [OF del(1)] by blast
  have "cl.covers (pend (est w2)) l1" using acq(1) settling_pend [OF del(1)] by (rule cl.covers_mono)
  note aft = after_delete_covers [OF assms(2) more(3) this del(2) notp]
  have "settling pend obj due (est w) (est w3)" using acq(3) del(1) aft(3) by (blast intro: settling_trans)
  then have "timely (CreateRequestLifetime b) pend due (ended l2) (est w3)"
    using timely_settling [OF more(6)] acq(2) aft(2) by simp
  then show ?case using aft(1) by (rule more(5))
qed

section \<open>What a round does, whatever it is answered\<close>

lemma cleanup_pass_any_induct [consumes 1, case_names unobserved unconfirmed ends more]:
  assumes "cleanup_pass observed rt c q b attempt launch l w = (ok, l', w')"
    and "\<And>observed l w l1 w1.
      acquire_evidence rt c q b attempt launch l (lifetimeEnded rt b l w) w = (False, l1, w1) \<Longrightarrow> P observed l w False l1 w1"
    and "\<And>observed l w l1 w1 err w2.
      acquire_evidence rt c q b attempt launch l (lifetimeEnded rt b l w) w = (True, l1, w1) \<Longrightarrow>
      deleteJob rt c q b launch (unaccounted l1) w1 = (Inl err, w2) \<Longrightarrow> P observed l w False l1 w2"
    and "\<And>observed l w l1 w1 stopped w2 l2 w3.
      acquire_evidence rt c q b attempt launch l (lifetimeEnded rt b l w) w = (True, l1, w1) \<Longrightarrow>
      deleteJob rt c q b launch (unaccounted l1) w1 = (Inr stopped, w2) \<Longrightarrow>
      after_delete rt c q b attempt launch (lifetimeEnded rt b l w) l1 stopped w2 = (l2, w3) \<Longrightarrow>
      P observed l w (settled l2 \<and> Empty stopped) l2 w3"
    and "\<And>observed l w l1 w1 stopped w2 l2 w3 ok l' w'.
      acquire_evidence rt c q b attempt launch l (lifetimeEnded rt b l w) w = (True, l1, w1) \<Longrightarrow>
      deleteJob rt c q b launch (unaccounted l1) w1 = (Inr stopped, w2) \<Longrightarrow>
      after_delete rt c q b attempt launch (lifetimeEnded rt b l w) l1 stopped w2 = (l2, w3) \<Longrightarrow>
      length (unaccounted l2) < length (unaccounted l) + (if observed then 0 else 1) \<Longrightarrow>
      P True l2 w3 ok l' w' \<Longrightarrow> P observed l w ok l' w'"
  shows "P observed l w ok l' w'"
  using assms(1)
proof (induction "length (unaccounted l) + (if observed then 0 else 1)" arbitrary: observed l w rule: less_induct)
  case less
  let ?ex = "lifetimeEnded rt b l w"
  obtain got l1 w1 where acq: "acquire_evidence rt c q b attempt launch l ?ex w = (got, l1, w1)"
    by (metis prod_cases3)
  obtain res w2 where del: "deleteJob rt c q b launch (unaccounted l1) w1 = (res, w2)" by fastforce
  note step = less.prems [unfolded cleanup_pass.simps [of observed] Let_def acq]
  show ?case
  proof (cases got)
    case False
    then show ?thesis using step acq assms(2) by auto
  next
    case got: True
    show ?thesis
    proof (cases res)
      case (Inl err)
      then show ?thesis using step acq del got assms(3) by auto
    next
      case (Inr stopped)
      obtain l2 w3 where aft: "after_delete rt c q b attempt launch ?ex l1 stopped w2 = (l2, w3)" by fastforce
      have acq': "acquire_evidence rt c q b attempt launch l ?ex w = (True, l1, w1)" using acq got by simp
      note del' = del [unfolded Inr]
      have body: "(if settled l2 \<and> Empty stopped then (True, l2, w3)
          else if observed \<and> length (unaccounted l2) = length (unaccounted l) then (False, l2, w3)
          else cleanup_pass True rt c q b attempt launch l2 w3) = (ok, l', w')"
        using step by (simp add: got del' aft)
      show ?thesis
      proof (cases "(settled l2 \<and> Empty stopped) \<or> (observed \<and> length (unaccounted l2) = length (unaccounted l))")
        case True
        then have "ok = (settled l2 \<and> Empty stopped)" "l' = l2" "w' = w3" using body by (auto split: if_splits)
        then show ?thesis using assms(4) [OF acq' del' aft] by simp
      next
        case False
        then have rec: "cleanup_pass True rt c q b attempt launch l2 w3 = (ok, l', w')"
          using body by (auto split: if_splits)
        note lt = pass_measure [OF acq' aft, of observed]
        from False have lt': "length (unaccounted l2) < length (unaccounted l) + (if observed then 0 else 1)"
          by (intro lt) blast
        then have "P True l2 w3 ok l' w'" by (intro less.hyps [OF _ rec]) simp
        then show ?thesis by (rule assms(5) [OF acq' del' aft lt'])
      qed
    qed
  qed
qed

text \<open>The calls of a round: observe and delete on the Control queue, register on the business queue.\<close>

fun cleanup_event :: "wctx \<Rightarrow> queues \<Rightarrow> bounds \<Rightarrow> attempt_ref \<Rightarrow> launch_ref \<Rightarrow> event \<Rightarrow> bool" where
  "cleanup_event c q b attempt launch (Act c' opts (ObserveLaunch inp) res) \<longleftrightarrow>
     c' = c \<and> opts = cleanupOptions q b \<and> ol_Launch inp = launch \<and> ol_SettleWindow inp = UnresolvedSettleWindow b"
| "cleanup_event c q b attempt launch (Act c' opts (DeleteJob inp) res) \<longleftrightarrow>
     c' = c \<and> opts = cleanupOptions q b \<and> dj_Launch inp = launch \<and> \<not> dj_EvidenceFirst inp \<and> dj_Recorded inp = []"
| "cleanup_event c q b attempt launch (Act c' opts (RegisterInstance inp) res) \<longleftrightarrow>
     c' = c \<and> opts = businessOptions q b \<and> ri_Attempt inp = attempt \<and> ri_Launch inp = launch \<and>
     ri_CommandID inp = ar_AttemptID attempt @ '':register:'' @ ri_PodUID inp"
| "cleanup_event c q b attempt launch (Act c' opts (ObserveInstance inp) res) \<longleftrightarrow>
     c' = c \<and> opts = businessOptions q b \<and> oi_Attempt inp = attempt"
| "cleanup_event c q b attempt launch _ \<longleftrightarrow> False"

fun is_delete :: "event \<Rightarrow> bool" where
  "is_delete (Act _ _ (DeleteJob _) _) \<longleftrightarrow> True"
| "is_delete _ \<longleftrightarrow> False"

definition deletes :: "'e world \<Rightarrow> nat" where
  "deletes w = length (filter is_delete (trace w))"

text \<open>A confirming delete: the launcher observed the launch key empty.\<close>

fun confirmed_empty :: "event \<Rightarrow> bool" where
  "confirmed_empty (Act _ _ (DeleteJob _) (Inr (RLaunchObservation obs))) \<longleftrightarrow> Empty obs"
| "confirmed_empty _ \<longleftrightarrow> False"

abbreviation recording_event :: "wctx \<Rightarrow> queues \<Rightarrow> bounds \<Rightarrow> attempt_ref \<Rightarrow> launch_ref \<Rightarrow> event \<Rightarrow> bool" where
  "recording_event c q b attempt launch e \<equiv> cleanup_event c q b attempt launch e \<and> \<not> is_delete e"

lemma deletes_runs: "runs rt (\<lambda>e. P e \<and> \<not> is_delete e) w w' \<Longrightarrow> deletes w' = deletes w"
  by (drule runs_extends) (auto simp: extends_def deletes_def filter_empty_conv list_all_iff)

lemma register_pods_events:
  "runs rt (recording_event c q b attempt launch) w (register_pods rt c q b attempt launch jobUID pods w)"
proof (induction pods arbitrary: w)
  case (Cons pod pods)
  obtain res w1 where one: "get as_instance (exec rt c (businessOptions q b)
      (RegisterInstance (register_input attempt launch jobUID pod)) w) = (res, w1)" by fastforce
  have e1: "runs rt (recording_event c q b attempt launch) w w1"
    by (rule runs_one [OF one]) (simp add: register_input_def)
  show ?case
  proof (cases res)
    case (Inl err)
    then show ?thesis using one runs_trans [OF e1 Cons] by simp
  next
    case (Inr inst)
    obtain r w2 where two: "get as_unit (exec rt c (businessOptions q b)
        (ObserveInstance \<lparr>oi_Attempt = attempt, oi_Instance = inst, oi_Observation = pod\<rparr>) w1) = (r, w2)" by fastforce
    have "runs rt (recording_event c q b attempt launch) w1 w2" by (rule runs_one [OF two]) simp
    then show ?thesis using one two Inr runs_trans [OF e1 runs_trans [OF _ Cons]] by simp
  qed
qed simp

text \<open>How a step of the round may change the ledger.\<close>

definition shrinks :: "create_ledger \<Rightarrow> create_ledger \<Rightarrow> bool" where
  "shrinks l l' \<longleftrightarrow> issued l' = issued l \<and> ended l' = ended l \<and> set (unaccounted l') \<subseteq> set (unaccounted l) \<and>
     length (unaccounted l') \<le> length (unaccounted l) \<and>
     (distinct (unaccounted l) \<longrightarrow> distinct (unaccounted l'))"

lemma shrinks_refl [simp, intro]: "shrinks l l" by (simp add: shrinks_def)

lemma shrinks_trans: "shrinks l l1 \<Longrightarrow> shrinks l1 l2 \<Longrightarrow> shrinks l l2" by (auto simp: shrinks_def)

lemma shrinks_account [simp, intro]: "shrinks l (account rs l)"
  by (auto simp: shrinks_def issued_account ended_account length_account unaccounted_account)

lemma shrinks_ledger_ok [ledger_rules]: "shrinks l l' \<Longrightarrow> ledger_ok l \<Longrightarrow> ledger_ok l'"
  by (auto simp: shrinks_def ledger_ok_def)

lemma acquire_evidence_events:
  assumes "acquire_evidence rt c q b attempt launch l expired w = (ok, l', w')"
  shows "runs rt (recording_event c q b attempt launch) w w'" "shrinks l l'"
proof -
  obtain res w1 where call: "get as_launch_observation (exec rt c (cleanupOptions q b)
      (ObserveLaunch \<lparr>ol_Launch = launch, ol_SettleWindow = UnresolvedSettleWindow b\<rparr>) w) = (res, w1)" by fastforce
  have "runs rt (recording_event c q b attempt launch) w w1" by (rule runs_one [OF call]) simp
  note e = this runs_trans [OF this register_pods_events]
  show "runs rt (recording_event c q b attempt launch) w w'"
    using assms e unfolding acquire_evidence_def observeLaunch_def call
    by (auto simp: recordObservation_def split: if_splits sum.splits)
  show "shrinks l l'" using assms unfolding acquire_evidence_def observeLaunch_def call
    by (auto simp: recordObservation_def split: if_splits sum.splits)
qed

lemma after_delete_events:
  assumes "after_delete rt c q b attempt launch expired l stopped w = (l', w')"
  shows "runs rt (recording_event c q b attempt launch) w w'" "shrinks l l'"
  using assms register_pods_events by (auto simp: after_delete_def recordObservation_def split: if_splits)

lemma deleteJob_events:
  assumes "deleteJob rt c q b launch waiting w = (res, w')"
  shows "runs rt (cleanup_event c q b attempt launch) w w'" "deletes w' = Suc (deletes w)"
    "res = Inr obs \<Longrightarrow> Empty obs \<Longrightarrow> confirmed_empty (hd (trace w'))"
proof -
  note call = trace_get_exec [OF assms [unfolded deleteJob_def]]
  show "runs rt (cleanup_event c q b attempt launch) w w'" by (rule runs_one [OF assms [unfolded deleteJob_def]]) simp
  show "deletes w' = Suc (deletes w)" using call by (auto simp: deletes_def)
  show "res = Inr obs \<Longrightarrow> Empty obs \<Longrightarrow> confirmed_empty (hd (trace w'))"
    using call by (fastforce dest: sym [of "Inr obs"] simp: decode_Inr)
qed

lemma cleanup_pass_does:
  assumes "cleanup_pass observed rt c q b attempt launch l w = (ok, l', w')"
  shows "shrinks l l' \<and> runs rt (cleanup_event c q b attempt launch) w w' \<and>
    deletes w' \<le> deletes w + length (unaccounted l) + (if observed then 1 else 2) \<and>
    (if ok then settled l' \<and> confirmed_empty (hd (trace w')) else True)"
  using assms
proof (induction rule: cleanup_pass_any_induct)
  case (unobserved observed l w l1 w1)
  note acq = acquire_evidence_events [OF unobserved]
  show ?case using acq runs_mono [OF acq(1)] deletes_runs [OF acq(1)] by auto
next
  case (unconfirmed observed l w l1 w1 err w2)
  note acq = acquire_evidence_events [OF unconfirmed(1)] and del = deleteJob_events [OF unconfirmed(2)]
  have "runs rt (cleanup_event c q b attempt launch) w w1" using acq(1) by (rule runs_mono) blast
  from runs_trans [OF this del(1)] show ?case using acq(2) deletes_runs [OF acq(1)] del(2) by auto
next
  case (ends observed l w l1 w1 stopped w2 l2 w3)
  note acq = acquire_evidence_events [OF ends(1)] and del = deleteJob_events [OF ends(2)]
    and aft = after_delete_events [OF ends(3)]
  have e: "runs rt (cleanup_event c q b attempt launch) w w1" "runs rt (cleanup_event c q b attempt launch) w2 w3"
    by (rule runs_mono [OF acq(1)], blast) (rule runs_mono [OF aft(1)], blast)
  from runs_trans [OF e(1) runs_trans [OF del(1) e(2)]]
  have "runs rt (cleanup_event c q b attempt launch) w w3" .
  moreover have "deletes w3 = Suc (deletes w)"
    using deletes_runs [OF acq(1)] deletes_runs [OF aft(1)] del(2) by simp
  moreover have "w3 = w2" if "Empty stopped" using ends(3) that by (auto simp: after_delete_def split: if_splits)
  ultimately show ?case using shrinks_trans [OF acq(2) aft(2)] del(3) [OF refl] by auto
next
  case (more observed l w l1 w1 stopped w2 l2 w3 ok l' w')
  note acq = acquire_evidence_events [OF more(1)] and del = deleteJob_events [OF more(2)]
    and aft = after_delete_events [OF more(3)]
  have e: "runs rt (cleanup_event c q b attempt launch) w w1" "runs rt (cleanup_event c q b attempt launch) w2 w3"
    by (rule runs_mono [OF acq(1)], blast) (rule runs_mono [OF aft(1)], blast)
  from runs_trans [OF e(1) runs_trans [OF del(1) e(2)]]
  have "runs rt (cleanup_event c q b attempt launch) w w3" .
  moreover have "deletes w3 = Suc (deletes w)"
    using deletes_runs [OF acq(1)] deletes_runs [OF aft(1)] del(2) by simp
  ultimately show ?case
    using more(4,5) shrinks_trans [OF acq(2) aft(2)] runs_trans [of rt _ w w3]
    by (auto intro: shrinks_trans split: if_splits)
qed

lemma cleanup_pass_covers:
  assumes "cleanup_pass observed rt c q b attempt launch l w = (ok, l', w')"
    and "backend_truthful rt launch pend obj due"
    and "timely (CreateRequestLifetime b) pend due (ended l) (est w)" "cl.covers (pend (est w)) l"
  shows "cl.covers (pend (est w')) l' \<and> ended l' = ended l \<and> settling pend obj due (est w) (est w')"
  using assms(1,3,4)
proof (induction rule: cleanup_pass_any_induct)
  case (unobserved observed l w l1 w1)
  then show ?case using acquire_evidence_sound [OF assms(2) unobserved(1)] by blast
next
  case (unconfirmed observed l w l1 w1 err w2)
  note acq = acquire_evidence_sound [OF assms(2) unconfirmed(1,4)]
  have "settling pend obj due (est w1) (est w2)"
    by (rule truthful_call [OF assms(2) unconfirmed(2) [unfolded deleteJob_def]]) simp
  then show ?case using acq by (auto dest: settling_pend intro: cl.covers_mono settling_trans)
next
  case (ends observed l w l1 w1 stopped w2 l2 w3)
  note acq = acquire_evidence_sound [OF assms(2) ends(1,5)] and del = deleteJob_sound [OF assms(2) ends(2)]
  have notp: "set (lifetimeEnded rt b l w) \<inter> pend (est w2) = {}"
    using lifetimeEnded_not_pending [OF ends(4) assms(2)] settling_pend [OF acq(3)] settling_pend [OF del(1)] by blast
  have "cl.covers (pend (est w2)) l1" using acq(1) settling_pend [OF del(1)] by (rule cl.covers_mono)
  from after_delete_covers [OF assms(2) ends(3) this del(2) notp]
  show ?case using acq(2,3) del(1) by (auto intro: settling_trans)
next
  case (more observed l w l1 w1 stopped w2 l2 w3 ok l' w')
  note acq = acquire_evidence_sound [OF assms(2) more(1,7)] and del = deleteJob_sound [OF assms(2) more(2)]
  have notp: "set (lifetimeEnded rt b l w) \<inter> pend (est w2) = {}"
    using lifetimeEnded_not_pending [OF more(6) assms(2)] settling_pend [OF acq(3)] settling_pend [OF del(1)] by blast
  have "cl.covers (pend (est w2)) l1" using acq(1) settling_pend [OF del(1)] by (rule cl.covers_mono)
  note aft = after_delete_covers [OF assms(2) more(3) this del(2) notp]
  have "settling pend obj due (est w) (est w3)" using acq(3) del(1) aft(3) by (blast intro: settling_trans)
  then have "timely (CreateRequestLifetime b) pend due (ended l2) (est w3)"
    using timely_settling [OF more(6)] acq(2) aft(2) by simp
  from more(5) [OF this aft(1)] show ?case using acq(2) aft(2) \<open>settling pend obj due (est w) (est w3)\<close>
    by (auto intro: settling_trans)
qed

section \<open>Reconciliation\<close>

lemma cleanup_pass_advancing:
  assumes "cleanup_pass observed rt c q b attempt launch l w = (ok, l', w')" and "advancing rt"
  shows "now rt w \<le> now rt w'"
  using advancing_runs [OF assms(2)] cleanup_pass_does [OF assms(1)] by blast

lemma reconcile_loop_returns:
  assumes "advancing rt" "0 < ReconcileMaxInterval b" "0 < interval"
  shows "reconcile_loop rt c q b attempt launch start interval l w \<noteq> None"
  using assms(3)
proof (induction "nat (start + ReconcileMaxDuration b - now rt w)" arbitrary: interval l w rule: less_induct)
  case less
  show ?case
  proof (cases "now rt w - start + interval > ReconcileMaxDuration b")
    case True
    then show ?thesis by (subst reconcile_loop.simps) (simp del: not_None_eq)
  next
    case False
    obtain res w1 where sl: "sleep rt c interval w = (res, w1)" by fastforce
    show ?thesis
    proof (cases res)
      case (Some e)
      then show ?thesis using False sl by (subst reconcile_loop.simps) (simp del: not_None_eq)
    next
      case None
      obtain ok l1 w2 where round: "cleanupRound rt c q b attempt launch l w1 = (ok, l1, w2)" by (metis prod_cases3)
      have "now rt w + interval \<le> now rt w2"
        using advancing_sleep [OF assms(1) sl [unfolded None]]
          cleanup_pass_advancing [OF round [unfolded cleanupRound_def] assms(1)] by simp
      then have "nat (start + ReconcileMaxDuration b - now rt w2) < nat (start + ReconcileMaxDuration b - now rt w)"
        using less.prems False by simp
      from less.hyps [OF this backoff_pos [OF assms(2) less.prems]]
      show ?thesis using False sl None round by (subst reconcile_loop.simps) (simp del: not_None_eq)
    qed
  qed
qed

lemma reconcile_loop_sound:
  assumes "reconcile_loop rt c q b attempt launch start interval l w = Some r"
    and "backend_truthful rt launch pend obj due"
    and "timely (CreateRequestLifetime b) pend due (ended l) (est w)" "cl.covers (pend (est w)) l" "r = (True, l', w')"
  shows "obj (est w') = {} \<and> pend (est w') = {} \<and> settled l'"
  using assms
proof (induction rule: reconcile_loop.raw_induct [rotated 1, consumes 1, case_names 1])
  case (1 f rt c q b attempt launch start interval l w r)
  note run = 1(2) [unfolded 1(6)] and tr = 1(3)
  obtain res w1 where sl: "sleep rt c interval w = (res, w1)" by fastforce
  have c1: "cl.covers (pend (est w1)) l"
    using 1(5) settling_pend [OF truthful_sleep [OF tr sl]] by (rule cl.covers_mono)
  obtain ok1 l1 w2 where round: "cleanup_pass False rt c q b attempt launch l w1 = (ok1, l1, w2)" by (metis prod_cases3)
  note t1 = timely_settling [OF 1(4) truthful_sleep [OF tr sl]]
  note cov = cleanup_pass_covers [OF round tr t1 c1]
  show ?case
  proof (cases ok1)
    case True
    then have "l' = l1" "w' = w2" using run sl by (simp_all add: cleanupRound_def round split: if_splits option.splits)
    then show ?thesis using cleanup_pass_sound [OF _ tr t1 c1] round True by simp
  next
    case False
    then have "f rt c q b attempt launch start (backoff (ReconcileMaxInterval b) interval) l1 w2 = Some (True, l', w')"
      using run sl by (simp add: cleanupRound_def round split: if_splits option.splits)
    moreover have "timely (CreateRequestLifetime b) pend due (ended l1) (est w2)"
      using cov timely_settling [OF t1, of obj "est w2"] by simp
    ultimately show ?thesis using 1(1) [OF _ tr] cov by simp
  qed
qed

section \<open>An example backend\<close>

text \<open>
  A backend that loses the answer of every create call, commits the pending requests at the
  next other call, unless the minute they may live is over, and answers reads and deletes
  from what it holds; Control answers every command.
\<close>

record shelf =
  s_pend :: "int list"
  s_objs :: "int list"
  s_clock :: nat

definition shelf_pend :: "shelf \<Rightarrow> int set" where
  "shelf_pend s = (if int (s_clock s) < minute then set (s_pend s) else {})"

definition shelf_objs :: "shelf \<Rightarrow> int set" where
  "shelf_objs s = set (s_objs s)"

definition shelf_due :: "shelf \<Rightarrow> int \<Rightarrow> time" where
  "shelf_due s r = minute"

definition shelf_land :: "shelf \<Rightarrow> shelf" where
  "shelf_land s = s\<lparr>s_objs := (if int (s_clock s) < minute then s_pend s else []) @ s_objs s, s_pend := [],
     s_clock := s_clock s + nat second\<rparr>"

definition shelf_seen :: "int list \<Rightarrow> wf_error + response" where
  "shelf_seen rs = Inr (RLaunchObservation \<lparr>lo_JobUID = ''uid'', lo_Pods = [], lo_Requests = rs\<rparr>)"

fun shelf_perform :: "wctx \<Rightarrow> activity_options \<Rightarrow> request \<Rightarrow> shelf \<Rightarrow> (wf_error + response) \<times> shelf" where
  "shelf_perform c opts (ObserveLaunch inp) s =
     (let s' = shelf_land s in
      if s_objs s' = [] then (Inl TimeoutError, s') else (shelf_seen (s_objs s'), s'))"
| "shelf_perform c opts (DeleteJob inp) s =
     (let s' = shelf_land s; left = filter (\<lambda>r. r \<in> set (dj_Unaccounted inp)) (s_objs s') in
      if left \<noteq> [] then (shelf_seen left, s') else (Inr (RLaunchObservation no_observation), s'\<lparr>s_objs := []\<rparr>))"
| "shelf_perform c opts (Temporal.CreateJob inp) s =
     (Inl TimeoutError, s\<lparr>s_pend := cj_Request inp # s_pend s, s_clock := s_clock s + nat second\<rparr>)"
| "shelf_perform c opts (OpenAttempt inp) s = (Inr (RAttempt example_attempt), shelf_land s)"
| "shelf_perform c opts (PrepareLaunch inp) s = (Inr (RLaunch (example_launch\<lparr>lr_LaunchKey := pl_LaunchKey inp\<rparr>)), shelf_land s)"
| "shelf_perform c opts (CloseAttempt inp) s = (Inr (RClose \<lparr>cr_Lifecycle = ''completed''\<rparr>), shelf_land s)"
| "shelf_perform c opts r s = (Inr RUnit, shelf_land s)"

definition shelf_runtime :: "shelf runtime" where
  "shelf_runtime = \<lparr>rt_perform = shelf_perform, rt_sleep = (\<lambda>c d s. (None, s\<lparr>s_clock := s_clock s + nat d\<rparr>)),
     rt_now = (\<lambda>s. int (s_clock s)), rt_ctx_err = (\<lambda>c s. False), rt_version = (\<lambda>change. 1), rt_can_suggested = (\<lambda>s. False),
     rt_workflow_type = ''LocalCheckWorkflow''\<rparr>"

definition shelf_world :: "shelf world" where
  "shelf_world = \<lparr>est = \<lparr>s_pend = [1], s_objs = [], s_clock = 0\<rparr>, trace = []\<rparr>"

definition shelf_ledger :: create_ledger where
  "shelf_ledger = \<lparr>issued = 1, unaccounted = [1], ended = [1 \<mapsto> 0]\<rparr>"

lemma shelf_land_pend [simp]: "shelf_pend (shelf_land s) = {}"
  by (simp add: shelf_pend_def shelf_land_def)

lemma shelf_land_settling: "settling shelf_pend shelf_objs shelf_due s (shelf_land s)"
  by (auto simp: settling_def shelf_objs_def shelf_pend_def shelf_due_def shelf_land_def)

lemma shelf_perform_settling:
  "shelf_perform c opts r s = (res, s') \<Longrightarrow> quiet_request r \<Longrightarrow> settling shelf_pend shelf_objs shelf_due s s'"
  using shelf_land_settling [of s]
  by (cases r) (auto simp: Let_def settling_def shelf_objs_def shelf_pend_def shelf_due_def split: if_splits)

lemma shelf_sleep_settling: "settling shelf_pend shelf_objs shelf_due s (s\<lparr>s_clock := s_clock s + nat d\<rparr>)"
  by (auto simp: settling_def shelf_objs_def shelf_pend_def shelf_due_def)

lemma shelf_truthful: "backend_truthful shelf_runtime launch shelf_pend shelf_objs shelf_due"
proof -
  have "shelf_pend s' = {}" if "shelf_perform c opts (ObserveLaunch inp) s = (res, s')" for c opts inp s res s'
    using that by (auto simp: Let_def split: if_splits)
  moreover have "shelf_pend s' = {} \<and> (Empty obs \<longrightarrow> shelf_objs s' = {})"
    if "shelf_perform c opts (DeleteJob inp) s = (Inr (RLaunchObservation obs), s')" for c opts inp s obs s'
    using that by (auto simp: Let_def shelf_seen_def Empty_def shelf_objs_def shelf_pend_def shelf_land_def split: if_splits)
  moreover have "int (s_clock s) < shelf_due s r" if "r \<in> shelf_pend s" for s r
    using that by (auto simp: shelf_pend_def shelf_due_def split: if_splits)
  ultimately show ?thesis
    unfolding backend_truthful_def shelf_runtime_def
    by (auto intro: shelf_perform_settling shelf_sleep_settling)
qed

lemma shelf_advancing: "advancing shelf_runtime"
proof -
  have "s_clock s \<le> s_clock (snd (shelf_perform c opts r s))" for c opts r s
    by (cases r) (simp_all add: Let_def shelf_land_def)
  then show ?thesis by (simp add: advancing_def shelf_runtime_def)
qed

lemma shelf_timely: "timely minute shelf_pend shelf_due (ended shelf_ledger) (est shelf_world)"
  by (simp add: timely_def shelf_world_def shelf_ledger_def shelf_pend_def shelf_due_def)

lemmas shelf_simps = shelf_runtime_def shelf_world_def shelf_ledger_def shelf_land_def shelf_seen_def
  exec_def get_def sleep_def decode_def second_def minute_def

section \<open>Properties\<close>

text \<open>
  C1. A cleanup round that confirms is right. If every create request that may still commit
  is unaccounted for in the run's ledger, requests do not outlive their lifetime and the
  launcher's answers are truthful, then a confirmed round leaves nothing under the launch
  key, nothing can appear there any more, and the ledger is settled.
\<close>

theorem cleanupRound_sound:
  assumes "backend_truthful rt launch pend obj due"
    and "timely (CreateRequestLifetime b) pend due (ended l) (est w)"
    and "pend (est w) \<subseteq> set (unaccounted l)"
    and "cleanupRound rt c q b attempt launch l w = (True, l', w')"
  shows "obj (est w') = {} \<and> pend (est w') = {} \<and> settled l'"
  using cleanup_pass_sound [OF assms(4) [unfolded cleanupRound_def] assms(1,2)] assms(3)
  by (simp add: cl.covers_def open_requests_def)

lemma shelf_round:
  "\<exists>l' w'. cleanupRound shelf_runtime Disconnected example_queues example_bounds example_attempt example_launch
      shelf_ledger shelf_world = (True, l', w') \<and> s_clock (est w') = 2 * nat second"
  by (simp add: cleanupRound_def cleanup_pass.simps lifetimeEnded_def acquire_evidence_def observeLaunch_def deleteJob_def
      after_delete_def recordObservation_def expiredBy_def shelf_simps example_bounds_def settled_def delete_func_def
      Empty_def no_observation_def)

theorem cleanupRound_sound_witness:
  "\<exists>l' w'. cleanupRound shelf_runtime Disconnected example_queues example_bounds example_attempt example_launch
      shelf_ledger shelf_world = (True, l', w') \<and> shelf_objs (est w') = {} \<and> shelf_pend (est w') = {} \<and> settled l'"
proof -
  obtain l' w' where run: "cleanupRound shelf_runtime Disconnected example_queues example_bounds example_attempt
      example_launch shelf_ledger shelf_world = (True, l', w')" using shelf_round by blast
  have "timely (CreateRequestLifetime example_bounds) shelf_pend shelf_due (ended shelf_ledger) (est shelf_world)"
    using shelf_timely by (simp add: example_bounds_def)
  moreover have "shelf_pend (est shelf_world) \<subseteq> set (unaccounted shelf_ledger)"
    by (simp add: shelf_pend_def shelf_world_def shelf_ledger_def)
  ultimately show ?thesis using cleanupRound_sound [OF shelf_truthful _ _ run] run by blast
qed

text \<open>
  What a cleanup round does, whatever it is answered. It only strikes requests from the
  ledger, it observes and deletes the launch on the Control queue and registers what it saw
  on the business queue and calls nothing else, it deletes at most once per unaccounted
  request plus twice, and it confirms only with a settled ledger and, as its last call, a
  delete answered with an empty launch key.
\<close>

theorem cleanupRound_does:
  "let (ok, l', w') = cleanupRound rt c q b attempt launch l w in
     shrinks l l' \<and> runs rt (cleanup_event c q b attempt launch) w w' \<and>
     deletes w' \<le> deletes w + length (unaccounted l) + 2 \<and>
     (if ok then settled l' \<and> confirmed_empty (hd (trace w')) else True)"
proof -
  obtain ok l' w' where run: "cleanup_pass False rt c q b attempt launch l w = (ok, l', w')" by (metis prod_cases3)
  show ?thesis using cleanup_pass_does [OF run] by (simp add: cleanupRound_def run)
qed

text \<open>
  C30. The reconciliation of an unconfirmed cleanup ends: on a clock that advances it returns
  within its bound for every behaviour of the backend, and when it reports the cleanup as
  confirmed, nothing is left and nothing can appear.
\<close>

theorem reconcileCleanup_total_sound:
  assumes "advancing rt" and "0 < ReconcileInitialInterval b" "0 < ReconcileMaxInterval b"
    and "backend_truthful rt launch pend obj due"
    and "timely (CreateRequestLifetime b) pend due (ended l) (est w)"
    and "pend (est w) \<subseteq> set (unaccounted l)"
  shows "\<exists>ok l' w'. reconcileCleanup rt c q b attempt launch l w = Some (ok, l', w') \<and>
    (if ok then obj (est w') = {} \<and> pend (est w') = {} \<and> settled l' else True)"
proof -
  obtain ok l' w' where run: "reconcileCleanup rt c q b attempt launch l w = Some (ok, l', w')"
    using reconcile_loop_returns [OF assms(1,3,2)] unfolding reconcileCleanup_def by (metis not_Some_eq prod_cases3)
  have "cl.covers (pend (est w)) l" using assms(6) by (simp add: cl.covers_def open_requests_def)
  then show ?thesis
    using run reconcile_loop_sound [OF run [unfolded reconcileCleanup_def] assms(4,5)] by (cases ok) auto
qed

theorem reconcileCleanup_total_sound_witness:
  "\<exists>ok l' w'. reconcileCleanup shelf_runtime Disconnected example_queues example_bounds example_attempt
      example_launch shelf_ledger shelf_world = Some (ok, l', w') \<and>
    (if ok then shelf_objs (est w') = {} \<and> shelf_pend (est w') = {} \<and> settled l' else True)"
  by (rule reconcileCleanup_total_sound [OF shelf_advancing _ _ shelf_truthful])
    (use shelf_timely in \<open>simp_all add: example_bounds_def shelf_pend_def shelf_world_def shelf_ledger_def second_def minute_def\<close>)

end
