(* ===== verification/Polling.thy ===== *)
theory Polling
  imports Bounds
begin

text \<open>
  The waits on Control share one shape: call; stop on a definite answer; roll over when the
  poller is exhausted; sleep and call again. \<open>polled\<close> states that shape once. Its clients
  (the close of an attempt, the settlement of an operation) get from it that the wait ends
  and how many calls it makes.
\<close>

locale polled =
  fixes rt :: "'e runtime"
    and c :: wctx
    and call :: "'e world \<Rightarrow> 'r option \<times> 'e world"
    and roll :: "duration \<Rightarrow> 'r"
    and fail :: "wf_error \<Rightarrow> 'r"
    and loop :: "poller \<Rightarrow> 'e world \<Rightarrow> ('r \<times> 'e world) option"
    and calls :: "'e world \<Rightarrow> nat"
  assumes loop_unfold: "loop p w =
      (case call w of
         (Some r, w1) \<Rightarrow> Some (r, w1)
       | (None, w1) \<Rightarrow>
           if exhausted rt p w1 then Some (roll (p_interval p), w1)
           else (case wait rt c p w1 of
               (Some err, p1, w2) \<Rightarrow> Some (fail err, w2)
             | (None, p1, w2) \<Rightarrow> loop p1 w2))"
    and one_call: "call w = (res, w1) \<Longrightarrow> calls w1 = Suc (calls w)"
    and no_call: "wait rt c p w = (e, p1, w1) \<Longrightarrow> calls w1 = calls w"
begin

definition ended_by :: "'r \<Rightarrow> 'e world \<Rightarrow> bool" where
  "ended_by r w' \<longleftrightarrow> (\<exists>w. call w = (Some r, w')) \<or> (\<exists>i w. call w = (None, w') \<and> r = roll i) \<or> (\<exists>err. r = fail err)"

lemma loop_ends:
  assumes "poller_ok p"
  shows "\<exists>r w'. loop p w = Some (r, w') \<and> calls w' \<le> calls w + polls_left p + 1 \<and> ended_by r w'"
  using assms
proof (induction "polls_left p" arbitrary: p w rule: less_induct)
  case less
  obtain res w1 where one: "call w = (res, w1)" by fastforce
  note n1 = one_call [OF one]
  show ?case
  proof (cases res)
    case (Some r)
    then show ?thesis using one n1 unfolding ended_by_def by (subst loop_unfold) auto
  next
    case none: None
    show ?thesis
    proof (cases "exhausted rt p w1")
      case True
      then show ?thesis using one none n1 unfolding ended_by_def by (subst loop_unfold) auto
    next
      case False
      obtain e p1 w2 where sl: "wait rt c p w1 = (e, p1, w2)" by (metis prod_cases3)
      note n2 = no_call [OF sl]
      show ?thesis
      proof (cases e)
        case (Some err)
        then show ?thesis using one none n1 n2 False sl unfolding ended_by_def by (subst loop_unfold) auto
      next
        case None
        have p1: "p1 = wait_step p" using sl by (simp add: wait_def split: prod.splits)
        have not: "\<not> poll_bound_reached p"
          using False less.prems exhausted_bound by (auto simp: poller_ok_def)
        have "poller_ok p1" "polls_left p1 < polls_left p"
          using pp.ok_step [OF less.prems not] pp.left_step [OF less.prems not] p1 by simp_all
        from less.hyps [OF this(2,1), of w2] this(2) n1 n2
        show ?thesis using one none False sl None by (subst loop_unfold) fastforce
      qed
    qed
  qed
qed

end

lemma polls_left_new:
  "polls_left (newPoller rt b start) =
     nat (if sint (SettlePollBound b) \<le> 0 then defaultSettlePollBound else sint (SettlePollBound b))"
  by (simp add: polls_left_def newPoller_def Let_def)

end
