(* ===== verification/Close.thy ===== *)
theory Close
  imports Cleanup Polling
begin

text \<open>
  The close of an attempt (\<open>closeAttemptFrom\<close>, \<open>closeForSettlement\<close>,
  \<open>closeLaunchForSettlement\<close>, \<open>closeLaunchAttemptFrom\<close>, \<open>closeOrContinue\<close>,
  \<open>closeOnly\<close>, \<open>settle\<close> and \<open>verdictOutcome\<close> of
  \<^verbatim>\<open>internal/workflows/localcheck.go\<close>). A close is one durable Control command: every
  call a close makes carries the same command, so Control can answer it once, and the waits
  on Control's obligations end at the poll bound.
\<close>

section \<open>Outcomes\<close>

fun verdictOutcome :: "verdict \<Rightarrow> string \<times> string" where
  "verdictOutcome v =
     (if vd_Verdict v = ''certified'' then (''completed'', '''')
      else if vd_Verdict v = ''infrastructure_failed'' then (''infrastructure_failed'', vd_FailureCode v)
      else (''failed'', vd_FailureCode v))"

declare verdictOutcome.simps [simp del]

text \<open>\<open>settle\<close>: the context's own cancellation state comes before the error's.\<close>

definition settle :: "'e runtime \<Rightarrow> wctx \<Rightarrow> wf_error \<Rightarrow> string \<Rightarrow> 'e world \<Rightarrow> string \<times> string" where
  "settle rt c err code w =
     (if rt_ctx_err rt c (est w) \<or> IsCanceledError (Some err) then (''canceled'', ''CANCELED'')
      else (''infrastructure_failed'', if RefusalCode (Some err) \<noteq> '''' then RefusalCode (Some err) else code))"

section \<open>One close\<close>

text \<open>A close that Control still reconciles is waited for only when the caller can be helped by it.\<close>

definition close_waits :: "bool \<Rightarrow> close_attempt_input \<Rightarrow> close_result \<Rightarrow> bool" where
  "close_waits waiting inp closed \<longleftrightarrow>
     \<not> (\<not> waiting \<or> cr_Lifecycle closed \<noteq> ''reconciling'' \<or> ca_Cleanup inp = ''unknown'' \<or> ca_Outcome inp = ''unknown'')"

definition close_refused :: "wf_error \<Rightarrow> wf_error" where
  "close_refused err = ApplicationError (RefusalCode (Some err)) True"

partial_function (option) close_loop :: "'e runtime \<Rightarrow> wctx \<Rightarrow> queues \<Rightarrow> bounds \<Rightarrow> close_attempt_input \<Rightarrow> bool \<Rightarrow>
    poller \<Rightarrow> 'e world \<Rightarrow> (wf_error option \<times> 'e world) option" where
  "close_loop rt c q b inp waiting p w =
     (case get as_close (exec rt c (controlOptions q b) (CloseAttempt inp) w) of
        (Inl err, w1) \<Rightarrow> Some (Some (close_refused err), w1)
      | (Inr closed, w1) \<Rightarrow>
          if \<not> close_waits waiting inp closed then Some (None, w1)
          else if exhausted rt p w1 then Some (Some (CloseRollover (p_interval p)), w1)
          else (case wait rt c p w1 of
              (Some err, p1, w2) \<Rightarrow> Some (Some err, w2)
            | (None, p1, w2) \<Rightarrow> close_loop rt c q b inp waiting p1 w2))"

definition close_input :: "attempt_ref \<Rightarrow> string \<Rightarrow> string \<Rightarrow> string \<Rightarrow> string \<Rightarrow> close_attempt_input" where
  "close_input attempt commandID outcome cleanup failureCode =
     \<lparr>ca_Attempt = attempt, ca_CommandID = commandID, ca_Outcome = outcome, ca_Cleanup = cleanup,
      ca_FailureCode = failureCode\<rparr>"

definition closeAttemptFrom :: "'e runtime \<Rightarrow> wctx \<Rightarrow> queues \<Rightarrow> bounds \<Rightarrow> attempt_ref \<Rightarrow> string \<Rightarrow> string \<Rightarrow> string \<Rightarrow>
    string \<Rightarrow> duration \<Rightarrow> bool \<Rightarrow> 'e world \<Rightarrow> (wf_error option \<times> 'e world) option" where
  "closeAttemptFrom rt c q b attempt commandID outcome cleanup failureCode start waiting w =
     close_loop rt c q b (close_input attempt commandID outcome cleanup failureCode) waiting (newPoller rt b start) w"

definition closeAttempt :: "'e runtime \<Rightarrow> wctx \<Rightarrow> queues \<Rightarrow> bounds \<Rightarrow> attempt_ref \<Rightarrow> string \<Rightarrow> string \<Rightarrow> string \<Rightarrow>
    string \<Rightarrow> 'e world \<Rightarrow> (wf_error option \<times> 'e world) option" where
  "closeAttempt rt c q b attempt commandID outcome cleanup failureCode w =
     closeAttemptFrom rt c q b attempt commandID outcome cleanup failureCode 0 True w"

section \<open>The close of a prepared launch\<close>

text \<open>
  The close that Control no longer knows the attempt of is kept for the recovery: it is
  resubmitted on durable timers until Control knows the attempt again or the bound is reached.
\<close>

partial_function (option) restore_loop :: "'e runtime \<Rightarrow> wctx \<Rightarrow> queues \<Rightarrow> bounds \<Rightarrow> close_attempt_input \<Rightarrow> duration \<Rightarrow> bool \<Rightarrow>
    time \<Rightarrow> duration \<Rightarrow> wf_error option \<Rightarrow> 'e world \<Rightarrow> (wf_error option \<times> 'e world) option" where
  "restore_loop rt c q b inp resume waiting start interval err w =
     (if RefusalCode err \<noteq> ''NOT_FOUND'' then Some (err, w)
      else if now rt w - start + interval > ReconcileMaxDuration b then Some (err, w)
      else case sleep rt c interval w of
          (Some _, w1) \<Rightarrow> Some (err, w1)
        | (None, w1) \<Rightarrow>
            (case close_loop rt c q b inp waiting (newPoller rt b resume) w1 of
               None \<Rightarrow> None
             | Some r \<Rightarrow> restore_loop rt c q b inp resume waiting start
                   (backoff (ReconcileMaxInterval b) interval) (fst r) (snd r)))"

definition closeLaunchAttemptFrom :: "'e runtime \<Rightarrow> wctx \<Rightarrow> queues \<Rightarrow> bounds \<Rightarrow> attempt_ref \<Rightarrow> bool \<Rightarrow> string \<Rightarrow>
    string \<Rightarrow> string \<Rightarrow> string \<Rightarrow> duration \<Rightarrow> bool \<Rightarrow> 'e world \<Rightarrow> (wf_error option \<times> 'e world) option" where
  "closeLaunchAttemptFrom rt c q b attempt launched commandID outcome cleanup failureCode resume waiting w =
     (case closeAttemptFrom rt c q b attempt commandID outcome cleanup failureCode resume waiting w of
        None \<Rightarrow> None
      | Some (err, w1) \<Rightarrow>
          if \<not> launched \<or> RefusalCode err \<noteq> ''NOT_FOUND'' then Some (err, w1)
          else if rt_version rt ''close-awaits-restore'' = DefaultVersion then Some (err, w1)
          else restore_loop rt c q b (close_input attempt commandID outcome cleanup failureCode) resume waiting
                 (now rt w1) (ReconcileInitialInterval b) err w1)"

section \<open>Closes that a settlement follows, and closes that continue the run\<close>

fun closeSettled :: "wf_error option \<Rightarrow> wf_error option" where
  "closeSettled (Some (CloseRollover _)) = None"
| "closeSettled err = err"

definition close_waiting :: "'e runtime \<Rightarrow> string \<Rightarrow> bool" where
  "close_waiting rt outcome \<longleftrightarrow> outcome = ''completed'' \<or> rt_version rt ''close-intent-first'' = DefaultVersion"

definition closeForSettlement :: "'e runtime \<Rightarrow> wctx \<Rightarrow> queues \<Rightarrow> bounds \<Rightarrow> attempt_ref \<Rightarrow> string \<Rightarrow> string \<Rightarrow> string \<Rightarrow>
    string \<Rightarrow> 'e world \<Rightarrow> (wf_error option \<times> 'e world) option" where
  "closeForSettlement rt c q b attempt commandID outcome cleanup failureCode w =
     map_option (apfst closeSettled)
       (closeAttemptFrom rt c q b attempt commandID outcome cleanup failureCode 0 (close_waiting rt outcome) w)"

definition closeLaunchForSettlement :: "'e runtime \<Rightarrow> wctx \<Rightarrow> queues \<Rightarrow> bounds \<Rightarrow> attempt_ref \<Rightarrow> bool \<Rightarrow> string \<Rightarrow>
    string \<Rightarrow> string \<Rightarrow> string \<Rightarrow> 'e world \<Rightarrow> (wf_error option \<times> 'e world) option" where
  "closeLaunchForSettlement rt c q b attempt launched commandID outcome cleanup failureCode w =
     map_option (apfst closeSettled)
       (closeLaunchAttemptFrom rt c q b attempt launched commandID outcome cleanup failureCode 0 (close_waiting rt outcome) w)"

definition LocalCheckWorkflowName :: string where
  "LocalCheckWorkflowName = ''LocalCheckWorkflow''"

fun close_continued :: "string \<Rightarrow> string \<Rightarrow> close_carry \<Rightarrow> wf_error option \<Rightarrow> wf_error option" where
  "close_continued operationID tenantID cc (Some (CloseRollover interval)) =
     Some (ContinueAsNewError (ContinueLifecycle LocalCheckWorkflowName
       \<lparr>in_OperationID = operationID, in_TenantID = tenantID, in_Release = None, in_Settle = None,
        in_Close = Some (cc\<lparr>cc_Interval := interval\<rparr>)\<rparr>))"
| "close_continued operationID tenantID cc err = err"

definition closeOrContinue :: "'e runtime \<Rightarrow> wctx \<Rightarrow> queues \<Rightarrow> bounds \<Rightarrow> string \<Rightarrow> string \<Rightarrow> close_carry \<Rightarrow> 'e world \<Rightarrow>
    (wf_error option \<times> 'e world) option" where
  "closeOrContinue rt c q b operationID tenantID cc w =
     map_option (apfst (close_continued operationID tenantID cc))
       (closeLaunchAttemptFrom rt c q b (cc_Attempt cc) (cc_Launched cc) (cc_CommandID cc) (cc_Outcome cc)
          (cc_Cleanup cc) (cc_FailureCode cc) (cc_Interval cc) True w)"

lemma close_continued_None [simp]: "close_continued operationID tenantID cc err = None \<longleftrightarrow> err = None"
  by (cases "(operationID, tenantID, cc, err)" rule: close_continued.cases) auto

text \<open>The run a close continued as new into; the bounds are those its history recorded.\<close>

definition closeOnly :: "'e runtime \<Rightarrow> queues \<Rightarrow> bounds \<Rightarrow> input \<Rightarrow> close_carry \<Rightarrow> 'e world \<Rightarrow>
    (wf_error option \<times> 'e world) option" where
  "closeOnly rt q b inp cc w =
     closeOrContinue rt Disconnected q b (in_OperationID inp) (in_TenantID inp) cc w"

section \<open>The calls of a close\<close>

fun close_event :: "wctx \<Rightarrow> queues \<Rightarrow> bounds \<Rightarrow> close_attempt_input \<Rightarrow> event \<Rightarrow> bool" where
  "close_event c q b inp (Act c' opts (CloseAttempt i) res) \<longleftrightarrow> c' = c \<and> opts = controlOptions q b \<and> i = inp"
| "close_event c q b inp (Slept c' d res) \<longleftrightarrow> c' = c"
| "close_event c q b inp _ \<longleftrightarrow> False"

fun is_close :: "event \<Rightarrow> bool" where
  "is_close (Act _ _ (CloseAttempt _) _) \<longleftrightarrow> True"
| "is_close _ \<longleftrightarrow> False"

definition closes :: "'e world \<Rightarrow> nat" where
  "closes w = length (filter is_close (trace w))"

text \<open>Control answered the close.\<close>

fun close_answer :: "event \<Rightarrow> close_result option" where
  "close_answer (Act _ _ (CloseAttempt _) (Inr (RClose closed))) = Some closed"
| "close_answer _ = None"

lemma close_call:
  assumes "get as_close (exec rt c (controlOptions q b) (CloseAttempt inp) w) = (res, w1)"
  shows "runs rt (close_event c q b inp) w w1" "closes w1 = Suc (closes w)"
    "res = Inr closed \<Longrightarrow> close_answer (hd (trace w1)) = Some closed"
  using trace_get_exec [OF assms] runs_one [OF assms, of "close_event c q b inp"]
  by (auto simp: closes_def decode_Inr dest: sym [of "Inr closed"])

lemma wait_events:
  assumes "wait rt c p w = (res, p', w')"
  shows "runs rt (close_event c q b inp) w w'" "closes w' = closes w" "p' = wait_step p"
  using assms runs_timer [of rt c "p_interval p" w res w' "close_event c q b inp"]
  by (auto simp: wait_def closes_def split: prod.splits dest: trace_sleep)

text \<open>One poll of the close, as the shared wait sees it.\<close>

definition close_once :: "'e runtime \<Rightarrow> wctx \<Rightarrow> queues \<Rightarrow> bounds \<Rightarrow> close_attempt_input \<Rightarrow> bool \<Rightarrow> 'e world \<Rightarrow>
    wf_error option option \<times> 'e world" where
  "close_once rt c q b inp waiting w =
     (case get as_close (exec rt c (controlOptions q b) (CloseAttempt inp) w) of
        (Inl err, w1) \<Rightarrow> (Some (Some (close_refused err)), w1)
      | (Inr closed, w1) \<Rightarrow> (if \<not> close_waits waiting inp closed then Some None else None, w1))"

interpretation close_wait: polled rt c "close_once rt c q b inp waiting" "\<lambda>i. Some (CloseRollover i)" Some
    "close_loop rt c q b inp waiting" closes for rt c q b inp waiting
proof (unfold_locales, goal_cases)
  case (1 p w)
  show ?case
    by (subst close_loop.simps) (auto simp: close_once_def split: prod.split sum.split option.split)
next
  case (2 w res w1)
  then show ?case by (auto simp: close_once_def split: prod.splits sum.splits if_splits dest: close_call(2))
next
  case (3 p w e p1 w1)
  then show ?case by (rule wait_events(2))
qed

definition close_done :: "bool \<Rightarrow> close_attempt_input \<Rightarrow> 'e world \<Rightarrow> bool" where
  "close_done waiting inp w \<longleftrightarrow>
     (case close_answer (hd (trace w)) of None \<Rightarrow> False | Some closed \<Rightarrow> \<not> close_waits waiting inp closed)"

lemma close_loop_safe:
  assumes "close_loop rt c q b inp waiting p w = Some r"
  shows "runs rt (close_event c q b inp) w (snd r) \<and> (fst r = None \<longrightarrow> close_done waiting inp (snd r))"
  using assms
proof (induction rule: close_loop.raw_induct [rotated 1, consumes 1, case_names 1])
  case (1 f rt c q b inp waiting p w r)
  obtain res w1 where one: "get as_close (exec rt c (controlOptions q b) (CloseAttempt inp) w) = (res, w1)" by fastforce
  note call = close_call [OF one]
  note run = 1(2) [unfolded one, simplified]
  show ?case
  proof (cases res)
    case (Inl err)
    then show ?thesis using run call(1) by auto
  next
    case (Inr closed)
    show ?thesis
    proof (cases "\<not> close_waits waiting inp closed \<or> exhausted rt p w1")
      case True
      then show ?thesis using run Inr call(1) call(3) [OF Inr] by (auto simp: close_done_def split: if_splits)
    next
      case False
      obtain e p1 w2 where sl: "wait rt c p w1 = (e, p1, w2)" by (metis prod_cases3)
      have e2: "runs rt (close_event c q b inp) w w2"
        using call(1) wait_events(1) [OF sl] by (rule runs_trans)
      show ?thesis
      proof (cases e)
        case (Some err)
        then show ?thesis using run Inr False sl e2 by auto
      next
        case None
        then have "f rt c q b inp waiting p1 w2 = Some r" using run Inr False sl by auto
        from 1(1) [OF this] show ?thesis using runs_trans [OF e2] by blast
      qed
    qed
  qed
qed

lemma close_loop_returns: "poller_ok p \<Longrightarrow> close_loop rt c q b inp waiting p w \<noteq> None"
  using close_wait.loop_ends [of p rt c q b inp waiting w] by auto

text \<open>The wait for the restore of an attempt ends, and gives up only at its bound.\<close>

lemma restore_loop_returns:
  assumes "advancing rt" "rt_version rt pollChange = 1" "0 < ReconcileMaxInterval b" "0 < interval"
  shows "restore_loop rt c q b inp resume waiting start interval err w \<noteq> None"
  using assms(4)
proof (induction "nat (start + ReconcileMaxDuration b - now rt w)" arbitrary: interval err w rule: less_induct)
  case less
  obtain res w1 where sl: "sleep rt c interval w = (res, w1)" by fastforce
  show ?case
  proof (cases "RefusalCode err \<noteq> ''NOT_FOUND'' \<or> now rt w - start + interval > ReconcileMaxDuration b \<or> res \<noteq> None")
    case True
    then show ?thesis using sl by (subst restore_loop.simps) (auto simp del: not_None_eq split: option.split)
  next
    case False
    have "close_loop rt c q b inp waiting (newPoller rt b resume) w1 \<noteq> None"
      by (rule close_loop_returns [OF poller_ok_new [OF assms(2)]])
    then obtain err1 w2 where cl: "close_loop rt c q b inp waiting (newPoller rt b resume) w1 = Some (err1, w2)" by auto
    have "now rt w + interval \<le> now rt w2"
      using advancing_sleep [OF assms(1), of c interval w w1] sl False advancing_runs [OF assms(1) conjunct1 [OF close_loop_safe [OF cl]]] by simp
    then have "nat (start + ReconcileMaxDuration b - now rt w2) < nat (start + ReconcileMaxDuration b - now rt w)"
      using less.prems False by simp
    from less.hyps [OF this backoff_pos [OF assms(3) less.prems]]
    show ?thesis using False sl cl by (subst restore_loop.simps) (auto simp del: not_None_eq)
  qed
qed

text \<open>
  How the wait for a restore may end with the attempt still unknown: the next interval would
  pass the bound, or the timer was canceled.
\<close>

definition gave_up :: "'e runtime \<Rightarrow> bounds \<Rightarrow> time \<Rightarrow> 'e world \<Rightarrow> bool" where
  "gave_up rt b start w \<longleftrightarrow>
     (\<exists>i \<le> max (ReconcileInitialInterval b) (ReconcileMaxInterval b). now rt w - start + i > ReconcileMaxDuration b) \<or>
     (case trace w of Slept _ _ (Some _) # _ \<Rightarrow> True | _ \<Rightarrow> False)"

lemma restore_loop_safe:
  assumes "restore_loop rt c q b inp resume waiting start interval err w = Some r"
    and "interval \<le> max (ReconcileInitialInterval b) (ReconcileMaxInterval b)"
  shows "runs rt (close_event c q b inp) w (snd r) \<and>
    (RefusalCode (fst r) = ''NOT_FOUND'' \<longrightarrow> gave_up rt b start (snd r)) \<and>
    (fst r = None \<longrightarrow> close_done waiting inp (snd r) \<or> err = None \<and> snd r = w)"
  using assms
proof (induction rule: restore_loop.raw_induct [rotated 1, consumes 1, case_names 1])
  case (1 f rt c q b inp resume waiting start interval err w r)
  obtain res w1 where sl: "sleep rt c interval w = (res, w1)" by fastforce
  have e1: "runs rt (close_event c q b inp) w w1" by (rule runs_timer [OF sl]) simp
  show ?case
  proof (cases "RefusalCode err \<noteq> ''NOT_FOUND'' \<or> now rt w - start + interval > ReconcileMaxDuration b")
    case True
    then show ?thesis using 1(2,3) by (auto simp: gave_up_def split: if_splits)
  next
    case False
    show ?thesis
    proof (cases res)
      case (Some e)
      then show ?thesis using 1(2) False sl e1 trace_sleep [OF sl] by (auto simp: gave_up_def)
    next
      case None
      then obtain r1 where cl: "close_loop rt c q b inp waiting (newPoller rt b resume) w1 = Some r1"
        and rec: "f rt c q b inp resume waiting start (backoff (ReconcileMaxInterval b) interval) (fst r1) (snd r1) = Some r"
        using 1(2) False sl by (auto split: option.splits)
      have "backoff (ReconcileMaxInterval b) interval \<le> max (ReconcileInitialInterval b) (ReconcileMaxInterval b)"
        by (rule order_trans [OF backoff_le]) simp
      from 1(1) [OF rec this] show ?thesis
        using close_loop_safe [OF cl] runs_trans [OF e1 runs_trans] False by auto
    qed
  qed
qed

lemma closeLaunch_safe:
  assumes "closeLaunchAttemptFrom rt c q b attempt launched commandID outcome cleanup failureCode resume waiting w = Some (err, w')"
  shows "runs rt (close_event c q b (close_input attempt commandID outcome cleanup failureCode)) w w'"
    and "err = None \<Longrightarrow> close_done waiting (close_input attempt commandID outcome cleanup failureCode) w'"
proof -
  let ?inp = "close_input attempt commandID outcome cleanup failureCode"
  obtain err1 w1 where one: "close_loop rt c q b ?inp waiting (newPoller rt b resume) w = Some (err1, w1)"
    using assms by (auto simp: closeLaunchAttemptFrom_def closeAttemptFrom_def split: option.splits)
  note safe1 = close_loop_safe [OF one, simplified]
  have "runs rt (close_event c q b ?inp) w w' \<and> (err = None \<longrightarrow> close_done waiting ?inp w')"
  proof (cases "err = err1 \<and> w' = w1")
    case False
    then obtain two: "restore_loop rt c q b ?inp resume waiting (now rt w1) (ReconcileInitialInterval b) err1 w1 = Some (err, w')"
      and "RefusalCode err1 = ''NOT_FOUND''"
      using assms one by (auto simp: closeLaunchAttemptFrom_def closeAttemptFrom_def split: if_splits)
    then have "err1 \<noteq> None" by (cases err1) auto
    then show ?thesis using restore_loop_safe [OF two] safe1 by (auto intro: runs_trans)
  qed (use safe1 in simp)
  then show "runs rt (close_event c q b ?inp) w w'" "err = None \<Longrightarrow> close_done waiting ?inp w'" by blast+
qed

definition carry_input :: "close_carry \<Rightarrow> close_attempt_input" where
  "carry_input cc = close_input (cc_Attempt cc) (cc_CommandID cc) (cc_Outcome cc) (cc_Cleanup cc) (cc_FailureCode cc)"

lemma closeOrContinue_safe:
  assumes "closeOrContinue rt c q b operationID tenantID cc w = Some (err, w')"
  shows "runs rt (close_event c q b (carry_input cc)) w w'" "err = None \<Longrightarrow> close_done True (carry_input cc) w'"
proof -
  obtain err1 where "closeLaunchAttemptFrom rt c q b (cc_Attempt cc) (cc_Launched cc) (cc_CommandID cc) (cc_Outcome cc)
      (cc_Cleanup cc) (cc_FailureCode cc) (cc_Interval cc) True w = Some (err1, w')" "err = None \<Longrightarrow> err1 = None"
    using assms unfolding closeOrContinue_def map_option_eq_Some by (metis apfst_conv close_continued_None prod.collapse prod.inject)
  from closeLaunch_safe [OF this(1)] this(2)
  show "runs rt (close_event c q b (carry_input cc)) w w'" "err = None \<Longrightarrow> close_done True (carry_input cc) w'"
    by (simp_all add: carry_input_def)
qed

lemma closeOrContinue_returns:
  assumes "advancing rt" "rt_version rt pollChange = 1" "0 < ReconcileInitialInterval b" "0 < ReconcileMaxInterval b"
  shows "closeOrContinue rt c q b operationID tenantID cc w \<noteq> None"
proof -
  let ?inp = "carry_input cc"
  obtain err1 w1 where one: "close_loop rt c q b ?inp True (newPoller rt b (cc_Interval cc)) w = Some (err1, w1)"
    using close_loop_returns [OF poller_ok_new [OF assms(2)]] by fastforce
  have "restore_loop rt c q b ?inp (cc_Interval cc) True (now rt w1) (ReconcileInitialInterval b) err1 w1 \<noteq> None"
    by (rule restore_loop_returns [OF assms(1,2,4,3)])
  then show ?thesis using one
    by (auto simp: closeOrContinue_def closeLaunchAttemptFrom_def closeAttemptFrom_def carry_input_def)
qed

text \<open>A close that returns was sent.\<close>

lemma close_loop_sent:
  assumes "close_loop rt c q b inp waiting p w = Some r"
  shows "closes w < closes (snd r)"
proof -
  obtain res w1 where one: "get as_close (exec rt c (controlOptions q b) (CloseAttempt inp) w) = (res, w1)" by fastforce
  have mono: "closes v \<le> closes v'" if "runs rt P v v'" for P and v v' :: "'a world"
    using runs_extends [OF that] by (auto simp: extends_def closes_def)
  have "closes w1 = Suc (closes w)" by (rule close_call(2) [OF one])
  moreover have "closes w1 \<le> closes (snd r)"
  proof (cases "w1 = snd r")
    case False
    then obtain p1 w2 where "wait rt c p w1 = (None, p1, w2) \<and> close_loop rt c q b inp waiting p1 w2 = Some r \<or>
        (\<exists>e. wait rt c p w1 = (Some e, p1, w2) \<and> snd r = w2)"
      using assms one by (subst (asm) close_loop.simps) (auto split: sum.splits if_splits prod.splits option.splits)
    then show ?thesis
      using wait_events(1) mono close_loop_safe runs_trans by (metis (no_types, lifting))
  qed simp
  ultimately show ?thesis by simp
qed

section \<open>Properties\<close>

lemma scripted_advancing: "advancing scripted"
  by (auto simp: advancing_def scripted_def script_perform_def second_def split: list.split)

lemma closes_bound: "rt_version rt pollChange = 1 \<Longrightarrow>
  \<exists>err w'. close_loop rt c q b inp waiting (newPoller rt b start) w = Some (err, w') \<and>
    closes w' \<le> closes w + nat (if sint (SettlePollBound b) \<le> 0 then defaultSettlePollBound else sint (SettlePollBound b)) + 1"
  using close_wait.loop_ends [OF poller_ok_new [of rt b start], of rt c q b inp waiting w] by (auto simp: polls_left_new)

text \<open>
  The close of an attempt always ends: it makes at most one call more than the poll
  bound, every one of them the same close command on the Control queue, and it succeeds only
  when Control answered it and the caller has nothing left to wait for.
\<close>

theorem closeAttemptFrom_ends:
  assumes "rt_version rt pollChange = 1"
  shows "\<exists>err w'. closeAttemptFrom rt c q b attempt commandID outcome cleanup failureCode start waiting w = Some (err, w') \<and>
    closes w' \<le> closes w + nat (if sint (SettlePollBound b) \<le> 0 then defaultSettlePollBound else sint (SettlePollBound b)) + 1 \<and>
    runs rt (close_event c q b (close_input attempt commandID outcome cleanup failureCode)) w w' \<and>
    (if err = None then close_done waiting (close_input attempt commandID outcome cleanup failureCode) w' else True)"
proof -
  obtain err w' where run: "closeAttemptFrom rt c q b attempt commandID outcome cleanup failureCode start waiting w = Some (err, w')"
    and "closes w' \<le> closes w + nat (if sint (SettlePollBound b) \<le> 0 then defaultSettlePollBound else sint (SettlePollBound b)) + 1"
    using closes_bound [OF assms] unfolding closeAttemptFrom_def by blast
  then show ?thesis using close_loop_safe [OF run [unfolded closeAttemptFrom_def]] by auto
qed

theorem closeAttemptFrom_ends_witness:
  "\<exists>err w'. closeAttemptFrom scripted Disconnected example_queues example_bounds example_attempt ''att_1:close''
      ''completed'' ''complete'' '''' 0 True (start_world [Inr (RClose \<lparr>cr_Lifecycle = ''reconciling''\<rparr>)]) = Some (err, w') \<and>
    closes w' \<le> 5"
  using closeAttemptFrom_ends [of scripted Disconnected example_queues example_bounds example_attempt "''att_1:close''"
      "''completed''" "''complete''" "''''" 0 True "start_world [Inr (RClose \<lparr>cr_Lifecycle = ''reconciling''\<rparr>)]"]
  by (auto simp: scripted_def closes_def start_world_def example_bounds_def)

text \<open>
  C31. The close of a prepared launch is kept until Control can take it: it returns, every
  call is the same close command, it succeeds only when Control answered, and it reports an
  attempt Control does not know only after the reconciliation bound (or a canceled timer).
\<close>

theorem closeLaunchAttemptFrom_kept:
  assumes "advancing rt" "rt_version rt pollChange = 1"
    and "rt_version rt ''close-awaits-restore'' \<noteq> DefaultVersion"
    and "0 < ReconcileInitialInterval b" "0 < ReconcileMaxInterval b"
  shows "\<exists>err w'. closeLaunchAttemptFrom rt c q b attempt True commandID outcome cleanup failureCode resume waiting w = Some (err, w') \<and>
    runs rt (close_event c q b (close_input attempt commandID outcome cleanup failureCode)) w w' \<and>
    (err = None \<longrightarrow> close_done waiting (close_input attempt commandID outcome cleanup failureCode) w') \<and>
    (RefusalCode err = ''NOT_FOUND'' \<longrightarrow> (\<exists>start \<ge> now rt w. gave_up rt b start w'))"
proof -
  let ?inp = "close_input attempt commandID outcome cleanup failureCode"
  obtain err1 w1 where one: "close_loop rt c q b ?inp waiting (newPoller rt b resume) w = Some (err1, w1)"
    using closes_bound [OF assms(2)] by blast
  note safe1 = close_loop_safe [OF one, simplified] and adv = advancing_runs [OF assms(1) conjunct1 [OF close_loop_safe [OF one]], simplified]
  show ?thesis
  proof (cases "RefusalCode err1 = ''NOT_FOUND''")
    case False
    then show ?thesis using one safe1 by (simp add: closeLaunchAttemptFrom_def closeAttemptFrom_def)
  next
    case True
    then have "err1 \<noteq> None" by (cases err1) auto
    obtain r where two: "restore_loop rt c q b ?inp resume waiting (now rt w1) (ReconcileInitialInterval b) err1 w1 = Some r"
      using restore_loop_returns [OF assms(1,2,5,4)] by blast
    note safe2 = restore_loop_safe [OF two]
    have "runs rt (close_event c q b ?inp) w (snd r)" using safe1 safe2 runs_trans by auto
    then show ?thesis
      using one two True safe2 \<open>err1 \<noteq> None\<close> adv assms(3)
      by (cases r) (auto simp: closeLaunchAttemptFrom_def closeAttemptFrom_def)
  qed
qed

theorem closeLaunchAttemptFrom_kept_witness:
  "\<exists>err w'. closeLaunchAttemptFrom scripted Disconnected example_queues example_bounds example_attempt True ''att_1:close''
      ''completed'' ''complete'' '''' 0 True (start_world [Inl (ApplicationError ''NOT_FOUND'' True), Inr (RClose \<lparr>cr_Lifecycle = ''completed''\<rparr>)])
      = Some (err, w') \<and> (RefusalCode err = ''NOT_FOUND'' \<longrightarrow> (\<exists>start \<ge> 0. gave_up scripted example_bounds start w'))"
  using closeLaunchAttemptFrom_kept [OF scripted_advancing, of example_bounds Disconnected example_queues example_attempt
      "''att_1:close''" "''completed''" "''complete''" "''''" 0 True
      "start_world [Inl (ApplicationError ''NOT_FOUND'' True), Inr (RClose \<lparr>cr_Lifecycle = ''completed''\<rparr>)]"]
  by (auto simp: scripted_def start_world_def example_bounds_def DefaultVersion_def second_def minute_def)

end
