(* ===== verification/Settle.thy ===== *)
theory Settle
  imports Close
begin

text \<open>
  The settlement of an operation (\<open>settleWith\<close>, \<open>settleOperation\<close> and \<open>settleOnly\<close> of
  \<^verbatim>\<open>internal/workflows/lifecycle.go\<close>): the business outcome is stated to Control under
  one command, polled while Control reconciles and carried into a new run at the poll bound.
\<close>

section \<open>One settling run\<close>

definition settle_input :: "string \<Rightarrow> string \<Rightarrow> settle_carry \<Rightarrow> settle_operation_input" where
  "settle_input operationID tenantID carry =
     \<lparr>so_OperationID = operationID, so_TenantID = tenantID, so_CommandID = sc_CommandID carry,
      so_Outcome = sc_Outcome carry, so_FailureCode = sc_FailureCode carry, so_Phase = sc_Phase carry\<rparr>"

definition settle_continuation :: "'e runtime \<Rightarrow> string \<Rightarrow> string \<Rightarrow> settle_carry \<Rightarrow> duration \<Rightarrow> wf_error" where
  "settle_continuation rt operationID tenantID carry interval =
     ContinueAsNewError (ContinueLifecycle (rt_workflow_type rt)
       \<lparr>in_OperationID = operationID, in_TenantID = tenantID, in_Release = None,
        in_Settle = Some (carry\<lparr>sc_Interval := interval\<rparr>), in_Close = None\<rparr>)"

partial_function (option) settle_loop :: "'e runtime \<Rightarrow> wctx \<Rightarrow> queues \<Rightarrow> bounds \<Rightarrow> string \<Rightarrow> string \<Rightarrow> settle_carry \<Rightarrow>
    poller \<Rightarrow> 'e world \<Rightarrow> (wf_error option \<times> 'e world) option" where
  "settle_loop rt c q b operationID tenantID carry p w =
     (case get as_operation (exec rt c (controlOptions q b) (SettleOperation (settle_input operationID tenantID carry)) w) of
        (Inl err, w1) \<Rightarrow> Some (Some (ApplicationError (RefusalCode (Some err)) True), w1)
      | (Inr ref, w1) \<Rightarrow>
          if op_Lifecycle ref \<noteq> ''reconciling'' then Some (None, w1)
          else if exhausted rt p w1 then Some (Some (settle_continuation rt operationID tenantID carry (p_interval p)), w1)
          else (case wait rt c p w1 of
              (Some err, p1, w2) \<Rightarrow> Some (Some err, w2)
            | (None, p1, w2) \<Rightarrow> settle_loop rt c q b operationID tenantID carry p1 w2))"

definition settleWith :: "'e runtime \<Rightarrow> wctx \<Rightarrow> queues \<Rightarrow> bounds \<Rightarrow> string \<Rightarrow> string \<Rightarrow> settle_carry \<Rightarrow> 'e world \<Rightarrow>
    (wf_error option \<times> 'e world) option" where
  "settleWith rt c q b operationID tenantID carry w =
     settle_loop rt c q b operationID tenantID carry (newPoller rt b (sc_Interval carry)) w"

definition settleOperation :: "'e runtime \<Rightarrow> wctx \<Rightarrow> queues \<Rightarrow> bounds \<Rightarrow> string \<Rightarrow> string \<Rightarrow> string \<Rightarrow> string \<Rightarrow>
    string \<Rightarrow> string \<Rightarrow> 'e world \<Rightarrow> (wf_error option \<times> 'e world) option" where
  "settleOperation rt c q b operationID tenantID commandID outcome failureCode phase w =
     settleWith rt c q b operationID tenantID
       \<lparr>sc_CommandID = commandID, sc_Outcome = outcome, sc_FailureCode = failureCode, sc_Phase = phase, sc_Interval = 0\<rparr> w"

definition settleOnly :: "'e runtime \<Rightarrow> queues \<Rightarrow> bounds \<Rightarrow> input \<Rightarrow> settle_carry \<Rightarrow> 'e world \<Rightarrow>
    (wf_error option \<times> 'e world) option" where
  "settleOnly rt q b inp carry w = settleWith rt Disconnected q b (in_OperationID inp) (in_TenantID inp) carry w"

section \<open>The calls of a settlement\<close>

fun settle_event :: "wctx \<Rightarrow> queues \<Rightarrow> bounds \<Rightarrow> settle_operation_input \<Rightarrow> event \<Rightarrow> bool" where
  "settle_event c q b inp (Act c' opts (SettleOperation i) res) \<longleftrightarrow> c' = c \<and> opts = controlOptions q b \<and> i = inp"
| "settle_event c q b inp (Slept c' d res) \<longleftrightarrow> c' = c"
| "settle_event c q b inp _ \<longleftrightarrow> False"

fun is_settle :: "event \<Rightarrow> bool" where
  "is_settle (Act _ _ (SettleOperation _) _) \<longleftrightarrow> True"
| "is_settle _ \<longleftrightarrow> False"

definition settles :: "'e world \<Rightarrow> nat" where
  "settles w = length (filter is_settle (trace w))"

text \<open>Control's answer to the last call, when that was a settlement it answered.\<close>

fun settle_answer :: "event list \<Rightarrow> operation_ref option" where
  "settle_answer (Act _ _ (SettleOperation _) (Inr (ROperation ref)) # _) = Some ref"
| "settle_answer _ = None"

definition settle_done :: "'e world \<Rightarrow> bool" where
  "settle_done w \<longleftrightarrow> (case settle_answer (trace w) of None \<Rightarrow> False | Some ref \<Rightarrow> op_Lifecycle ref \<noteq> ''reconciling'')"

lemma settle_call:
  assumes "get as_operation (exec rt c (controlOptions q b) (SettleOperation inp) w) = (res, w1)"
  shows "runs rt (settle_event c q b inp) w w1" "settles w1 = Suc (settles w)"
    "res = Inr ref \<Longrightarrow> settle_answer (trace w1) = Some ref"
  using trace_get_exec [OF assms] runs_one [OF assms, of "settle_event c q b inp"]
  by (auto simp: settles_def decode_Inr dest: sym [of "Inr ref"])

lemma settle_wait_events:
  assumes "wait rt c p w = (res, p', w')"
  shows "runs rt (settle_event c q b inp) w w'" "settles w' = settles w"
  using assms runs_timer [of rt c "p_interval p" w res w' "settle_event c q b inp"]
  by (auto simp: wait_def settles_def split: prod.splits dest: trace_sleep)

definition settle_once :: "'e runtime \<Rightarrow> wctx \<Rightarrow> queues \<Rightarrow> bounds \<Rightarrow> settle_operation_input \<Rightarrow> 'e world \<Rightarrow>
    wf_error option option \<times> 'e world" where
  "settle_once rt c q b inp w =
     (case get as_operation (exec rt c (controlOptions q b) (SettleOperation inp) w) of
        (Inl err, w1) \<Rightarrow> (Some (Some (ApplicationError (RefusalCode (Some err)) True)), w1)
      | (Inr ref, w1) \<Rightarrow> (if op_Lifecycle ref \<noteq> ''reconciling'' then Some None else None, w1))"

interpretation settle_wait: polled rt c "settle_once rt c q b (settle_input operationID tenantID carry)"
    "\<lambda>i. Some (settle_continuation rt operationID tenantID carry i)" Some
    "settle_loop rt c q b operationID tenantID carry" settles for rt c q b operationID tenantID carry
proof (unfold_locales, goal_cases)
  case (1 p w)
  show ?case
    by (subst settle_loop.simps) (auto simp: settle_once_def split: prod.split sum.split option.split)
next
  case (2 w res w1)
  then show ?case by (auto simp: settle_once_def split: prod.splits sum.splits if_splits dest: settle_call(2))
next
  case (3 p w e p1 w1)
  then show ?case by (rule settle_wait_events(2))
qed

definition settle_result :: "'e runtime \<Rightarrow> string \<Rightarrow> string \<Rightarrow> settle_carry \<Rightarrow> wf_error option \<Rightarrow> 'e world \<Rightarrow> bool" where
  "settle_result rt operationID tenantID carry err w \<longleftrightarrow>
     (case err of
        None \<Rightarrow> settle_done w
      | Some (ApplicationError t nonretryable) \<Rightarrow> nonretryable
      | Some (ContinueAsNewError k) \<Rightarrow> (\<exists>i. ContinueAsNewError k = settle_continuation rt operationID tenantID carry i)
      | Some e \<Rightarrow> e = CanceledError)"

lemma settle_loop_safe:
  assumes "settle_loop rt c q b operationID tenantID carry p w = Some r" "timers_cancel rt"
  shows "runs rt (settle_event c q b (settle_input operationID tenantID carry)) w (snd r) \<and>
    settle_result rt operationID tenantID carry (fst r) (snd r)"
  using assms
proof (induction rule: settle_loop.raw_induct [rotated 1, consumes 1, case_names 1])
  case (1 f rt c q b operationID tenantID carry p w r)
  let ?inp = "settle_input operationID tenantID carry"
  obtain res w1 where one: "get as_operation (exec rt c (controlOptions q b) (SettleOperation ?inp) w) = (res, w1)" by fastforce
  note call = settle_call [OF one]
  note run = 1(2) [unfolded one, simplified]
  show ?case
  proof (cases "\<exists>ref. res = Inr ref \<and> op_Lifecycle ref = ''reconciling'' \<and> \<not> exhausted rt p w1")
    case False
    then show ?thesis using run call(1,3)
      by (auto simp: settle_result_def settle_done_def settle_continuation_def split: sum.splits if_splits)
  next
    case True
    obtain e p1 w2 where sl: "wait rt c p w1 = (e, p1, w2)" by (metis prod_cases3)
    have e2: "runs rt (settle_event c q b ?inp) w w2"
      using call(1) settle_wait_events(1) [OF sl] by (rule runs_trans)
    show ?thesis
    proof (cases e)
      case (Some err)
      then have "err = CanceledError" using sl 1(3)
        by (auto simp: wait_def sleep_def timers_cancel_def split: prod.splits) (metis fst_conv)
      then show ?thesis using run True sl e2 Some by (auto simp: settle_result_def)
    next
      case None
      then have "f rt c q b operationID tenantID carry p1 w2 = Some r" using run True sl by auto
      from 1(1) [OF this 1(3)] show ?thesis using runs_trans [OF e2] by blast
    qed
  qed
qed

section \<open>Settling across continuations\<close>

text \<open>
  The runs a settlement goes through: each one settles what the one before it carried over.
\<close>

inductive settling_runs :: "'e itself \<Rightarrow> queues \<Rightarrow> bounds \<Rightarrow> input \<Rightarrow> input \<Rightarrow> bool" for ty q b i where
  first: "settling_runs ty q b i i"
| continued: "settling_runs ty q b i j \<Longrightarrow> in_Settle j = Some carry \<Longrightarrow> timers_cancel (rt :: 'e runtime) \<Longrightarrow>
    settleOnly rt q b j carry w = Some (Some (ContinueAsNewError (ContinueLifecycle name k)), w') \<Longrightarrow>
    settling_runs ty q b i k"

definition carried_settle :: "input \<Rightarrow> settle_operation_input option" where
  "carried_settle i = map_option (settle_input (in_OperationID i) (in_TenantID i)) (in_Settle i)"

lemma settling_runs_carry:
  assumes "settling_runs ty q b i j"
  shows "carried_settle j = carried_settle i"
  using assms
proof (induction rule: settling_runs.induct)
  case (continued j carry rt w name k w')
  from settle_loop_safe [OF continued(4) [unfolded settleOnly_def settleWith_def] continued(3)]
  obtain i where "ContinueAsNewError (ContinueLifecycle name k) =
      settle_continuation rt (in_OperationID j) (in_TenantID j) carry i"
    by (auto simp: settle_result_def)
  then have "carried_settle k = carried_settle j"
    using continued(2) by (auto simp: settle_continuation_def carried_settle_def settle_input_def)
  with continued(5) show ?case by simp
qed simp

section \<open>Properties\<close>

text \<open>
  A settling run always ends: it makes at most one call more than the poll bound, all of
  them the same settle command on the Control queue; it succeeds only when Control answered
  with a lifecycle other than reconciling, and otherwise it is refused, canceled, or
  continues as new with the command, outcome and backoff it has.
\<close>

theorem settleWith_ends:
  assumes "rt_version rt pollChange = 1" "timers_cancel rt"
  shows "\<exists>err w'. settleWith rt c q b operationID tenantID carry w = Some (err, w') \<and>
    settles w' \<le> settles w + nat (if sint (SettlePollBound b) \<le> 0 then defaultSettlePollBound else sint (SettlePollBound b)) + 1 \<and>
    runs rt (settle_event c q b (settle_input operationID tenantID carry)) w w' \<and>
    settle_result rt operationID tenantID carry err w'"
proof -
  obtain err w' where run: "settleWith rt c q b operationID tenantID carry w = Some (err, w')"
    and bound: "settles w' \<le> settles w + polls_left (newPoller rt b (sc_Interval carry)) + 1"
    using settle_wait.loop_ends [OF poller_ok_new [OF assms(1)]] unfolding settleWith_def by metis
  then show ?thesis
    using settle_loop_safe [OF run [unfolded settleWith_def] assms(2)] by (auto simp: polls_left_new)
qed

definition example_settle :: settle_carry where
  "example_settle = \<lparr>sc_CommandID = ''op_1:settle'', sc_Outcome = ''completed'', sc_FailureCode = '''',
     sc_Phase = ''ready'', sc_Interval = 0\<rparr>"

definition reconciling_answer :: "wf_error + response" where
  "reconciling_answer = Inr (ROperation \<lparr>op_Lifecycle = ''reconciling'', op_Phase = '''', op_Revision = ''''\<rparr>)"

lemma scripted_timers: "timers_cancel scripted"
  by (simp add: timers_cancel_def scripted_def)

theorem settleWith_ends_witness:
  "\<exists>err w'. settleWith scripted Disconnected example_queues example_bounds ''op_1'' ''t1'' example_settle
      (start_world [reconciling_answer]) = Some (err, w') \<and> settles w' \<le> 5"
  using settleWith_ends [OF _ scripted_timers, of Disconnected example_queues example_bounds "''op_1''" "''t1''"
      example_settle "start_world [reconciling_answer]"]
  by (auto simp: scripted_def settles_def start_world_def example_bounds_def)

text \<open>
  C32. Across any number of continuations a settlement stays one command: every call of every
  run it goes through states the same outcome under the same command identity.
\<close>

theorem settlement_one_command:
  assumes "settling_runs TYPE('e) q b i j" "carried_settle i = Some inp" "in_Settle j = Some carry"
    and "timers_cancel (rt :: 'e runtime)" "settleOnly rt q b j carry w = Some r"
  shows "runs rt (settle_event Disconnected q b inp) w (snd r)"
proof -
  have "inp = settle_input (in_OperationID j) (in_TenantID j) carry"
    using settling_runs_carry [OF assms(1)] assms(2,3) by (auto simp: carried_settle_def)
  then show ?thesis
    using settle_loop_safe [OF assms(5) [unfolded settleOnly_def settleWith_def] assms(4)] by simp
qed

definition example_settle_run :: input where
  "example_settle_run = \<lparr>in_OperationID = ''op_1'', in_TenantID = ''t1'', in_Release = None,
     in_Settle = Some example_settle, in_Close = None\<rparr>"

definition example_continued_run :: input where
  "example_continued_run = example_settle_run\<lparr>in_Settle := Some (example_settle\<lparr>sc_Interval := 80 * second\<rparr>)\<rparr>"

lemma example_rollover:
  "\<exists>w'. settleOnly scripted example_queues example_bounds example_settle_run example_settle
      (start_world (replicate 5 reconciling_answer)) =
    Some (Some (ContinueAsNewError (ContinueLifecycle ''GenerationWorkflow'' example_continued_run)), w')"
  by (simp add: settleOnly_def settleWith_def settle_loop.simps wait_def wait_step_def exhausted_def newPoller_def
      script_simps example_bounds_def reconciling_answer_def numeral_eq_Suc settle_continuation_def
      example_continued_run_def example_settle_run_def example_settle_def pollChange_def)

theorem settlement_one_command_witness:
  "\<exists>r. settleOnly scripted example_queues example_bounds example_continued_run (example_settle\<lparr>sc_Interval := 80 * second\<rparr>)
      (start_world []) = Some r \<and>
    runs scripted (settle_event Disconnected example_queues example_bounds (settle_input ''op_1'' ''t1'' example_settle))
      (start_world []) (snd r)"
proof -
  obtain w' where roll: "settleOnly scripted example_queues example_bounds example_settle_run example_settle
      (start_world (replicate 5 reconciling_answer)) =
    Some (Some (ContinueAsNewError (ContinueLifecycle ''GenerationWorkflow'' example_continued_run)), w')"
    using example_rollover by blast
  have runs: "settling_runs TYPE(script) example_queues example_bounds example_settle_run example_continued_run"
    by (rule settling_runs.continued [OF settling_runs.first _ scripted_timers roll]) (simp add: example_settle_run_def)
  obtain r where run: "settleOnly scripted example_queues example_bounds example_continued_run
      (example_settle\<lparr>sc_Interval := 80 * second\<rparr>) (start_world []) = Some r"
    by (simp add: settleOnly_def settleWith_def settle_loop.simps script_simps)
  show ?thesis
    using settlement_one_command [OF runs _ _ scripted_timers run, of "settle_input ''op_1'' ''t1'' example_settle"] run
    by (auto simp: carried_settle_def example_continued_run_def example_settle_run_def)
qed

end
