(* ===== verification/Accounted.thy ===== *)
theory Accounted
  imports Cleanup
begin

text \<open>
  The ledger of a run against the backend: \<open>accounted\<close> says that every create request that
  may still commit is open in the ledger and due within its lifetime. \<open>createJob\<close> keeps it
  when the answers to create calls are truthful, and everything else keeps it too; this is
  what makes a confirmed cleanup of the run mean that nothing is left.
\<close>

section \<open>Create calls\<close>

text \<open>
  The answers to create calls are truthful: after a call, a pending request was pending
  before, or is the request of a call that ended without a definite answer and is over
  within its lifetime; a Job that is answered names a request that committed.
\<close>

definition creates_truthful :: "'e runtime \<Rightarrow> launch_ref \<Rightarrow> duration \<Rightarrow> ('e \<Rightarrow> int set) \<Rightarrow> ('e \<Rightarrow> int \<Rightarrow> time) \<Rightarrow> bool" where
  "creates_truthful rt launch life pend due \<longleftrightarrow>
     (\<forall>c opts inp e res e'. rt_perform rt c opts (Temporal.CreateJob inp) e = (res, e') \<longrightarrow> cj_Launch inp = launch \<longrightarrow>
        (\<forall>s \<in> pend e'. s \<in> pend e \<and> due e' s \<le> due e s \<or>
           unresolved res \<and> s = cj_Request inp \<and> due e' s \<le> rt_now rt e' + life) \<and>
        (\<forall>job. res = Inr (RJob job) \<longrightarrow> jr_Request job \<notin> pend e'))"

definition accounted :: "duration \<Rightarrow> ('e \<Rightarrow> int set) \<Rightarrow> ('e \<Rightarrow> int \<Rightarrow> time) \<Rightarrow> create_ledger \<Rightarrow> 'e \<Rightarrow> bool" where
  "accounted life pend due l e \<longleftrightarrow> ledger_ok l \<and> cl.covers (pend e) l \<and> timely life pend due (ended l) e"

lemma accounted_settling:
  "accounted life pend due l e \<Longrightarrow> settling pend obj due e e' \<Longrightarrow> accounted life pend due l e'"
  unfolding accounted_def using timely_settling settling_pend cl.covers_mono by metis

lemma accounted_start: "pend e = {} \<Longrightarrow> accounted life pend due empty_ledger e"
  by (simp add: accounted_def cl.covers_def timely_def)

lemma create_loop_induct [consumes 1, case_names answered failed paused again]:
  assumes "create_loop rt c q b spec launch deadline interval l w = (res, l', w')"
    and "\<And>interval l w raw w1 job. exec rt c (createOptions q b) (Temporal.CreateJob (create_input spec launch deadline (issued l + 1))) w = (raw, w1) \<Longrightarrow>
      decode as_job raw = Inr job \<Longrightarrow> P interval l w (Inr job) (account [jr_Request job] (issue l)) w1"
    and "\<And>interval l w raw w1 err. exec rt c (createOptions q b) (Temporal.CreateJob (create_input spec launch deadline (issued l + 1))) w = (raw, w1) \<Longrightarrow>
      decode as_job raw = Inl err \<Longrightarrow> P interval l w (Inl err) (first_ledger raw (now rt w1) l) w1"
    and "\<And>interval l w raw w1 err x w2. exec rt c (createOptions q b) (Temporal.CreateJob (create_input spec launch deadline (issued l + 1))) w = (raw, w1) \<Longrightarrow>
      decode as_job raw = Inl err \<Longrightarrow> sleep rt c interval w1 = (x, w2) \<Longrightarrow>
      P interval l w (Inl err) (first_ledger raw (now rt w1) l) w2"
    and "\<And>interval l w raw w1 err w2 res l' w'. exec rt c (createOptions q b) (Temporal.CreateJob (create_input spec launch deadline (issued l + 1))) w = (raw, w1) \<Longrightarrow>
      decode as_job raw = Inl err \<Longrightarrow> sleep rt c interval w1 = (None, w2) \<Longrightarrow>
      P (backoff (ControlRetryMaxInterval b) interval) (first_ledger raw (now rt w1) l) w2 res l' w' \<Longrightarrow> P interval l w res l' w'"
  shows "P interval l w res l' w'"
  using assms(1)
proof (induction "nat (2 ^ 31 - int32_of (issued l + 1))" arbitrary: interval l w rule: less_induct)
  case less
  obtain raw w1 where ex: "exec rt c (createOptions q b)
      (Temporal.CreateJob (create_input spec launch deadline (issued l + 1))) w = (raw, w1)" by fastforce
  then have "get as_job (exec rt c (createOptions q b)
      (Temporal.CreateJob (create_input spec launch deadline (issued l + 1))) w) = (decode as_job raw, w1)"
    by (simp add: get_def)
  note turn = create_loop_turn [OF this, of interval]
  obtain x w2 where slept: "sleep rt c interval w1 = (x, w2)" by fastforce
  show ?case
  proof (cases "decode as_job raw")
    case (Inr job)
    have "(Inr job, account [jr_Request job] (issue l), w1) = (res, l', w')"
      using less.prems unfolding turn Inr by (simp only: sum.case)
    then have eqs: "res = Inr job" "l' = account [jr_Request job] (issue l)" "w' = w1"
      by (simp_all only: prod.inject)
    show ?thesis unfolding eqs by (rule assms(2) [OF ex Inr])
  next
    case (Inl err)
    let ?l2 = "first_ledger raw (now rt w1) l"
    note body = less.prems [unfolded turn Inl slept]
    let ?stop = "\<not> IsNotCreated err \<and> RefusalCode (Some err) \<noteq> '''' \<or> rt_ctx_err rt c (est w1) \<or>
        int32_of (issued ?l2) \<ge> sint (ControlRetryMaxAttempts b)"
    consider "res = Inl err" "l' = ?l2" "w' = w1" | "res = Inl err" "l' = ?l2" "w' = w2"
      | "x = None" "int32_of (issued ?l2) < sint (ControlRetryMaxAttempts b)"
        "create_loop rt c q b spec launch deadline (backoff (ControlRetryMaxInterval b) interval) ?l2 w2 = (res, l', w')"
    proof (cases ?stop)
      case True
      then have "(Inl err, ?l2, w1) = (res, l', w')" using body by (simp only: Let_def sum.case if_True)
      then show ?thesis using that(1) by blast
    next
      case False
      note body' = body [unfolded Let_def sum.case if_not_P [OF False] prod.case]
      show ?thesis
      proof (cases x)
        case None
        then show ?thesis using body' False that(3) by (simp only: option.case) (simp only: de_Morgan_disj not_le)
      next
        case (Some e)
        then have "(Inl err, ?l2, w2) = (res, l', w')" using body' by (simp only: option.case)
        then show ?thesis using that(2) by blast
      qed
    qed
    then show ?thesis
    proof cases
      case 1
      then show ?thesis using assms(3) [OF ex Inl] by simp
    next
      case 2
      then show ?thesis using assms(4) [OF ex Inl slept] by simp
    next
      case 3
      have "nat (2 ^ 31 - int32_of (issued ?l2 + 1)) < nat (2 ^ 31 - int32_of (issued l + 1))"
        using 3(2) by (intro measure_step [of _ "ControlRetryMaxAttempts b"]) simp_all
      from less.hyps [OF this 3(3)] show ?thesis
        using assms(5) [OF ex Inl slept [unfolded 3(1)]] by blast
    qed
  qed
qed

lemma createJob_runs [trace_rules]:
  assumes "createJob rt c q b spec launch deadline l w = (res, l', w')"
  shows "runs rt (create_event c (createOptions q b)) w w'"
  using assms unfolding createJob_def
proof (induction rule: create_loop_induct)
  case (answered interval l w raw w1 job)
  then show ?case by (intro runs_exec [OF runs_refl]) auto
next
  case (failed interval l w raw w1 err)
  then show ?case by (intro runs_exec [OF runs_refl]) auto
next
  case (paused interval l w raw w1 err x w2)
  then show ?case by (intro runs_sleep [OF runs_exec [OF runs_refl]]) auto
next
  case (again interval l w raw w1 err w2 res l' w')
  have "runs rt (create_event c (createOptions q b)) w w2"
    by (rule runs_sleep [OF runs_exec [OF runs_refl again(1)] again(3)]) auto
  then show ?case using again(4) by (rule runs_trans)
qed

text \<open>One create call keeps the account.\<close>

lemma first_ledger_accounted:
  assumes acc: "accounted life pend due l (est w)" and "creates_truthful rt launch life pend due"
    and ex: "exec rt c opts (Temporal.CreateJob (create_input spec launch deadline (issued l + 1))) w = (raw, w1)"
  shows "accounted life pend due (first_ledger raw (now rt w1) l) (est w1)"
proof -
  have "rt_perform rt c opts (Temporal.CreateJob (create_input spec launch deadline (issued l + 1))) (est w) = (raw, est w1)"
    using ex by (auto simp: exec_def split: prod.splits)
  then have new: "s \<in> pend (est w) \<and> due (est w1) s \<le> due (est w) s \<or>
      unresolved raw \<and> s = issued l + 1 \<and> due (est w1) s \<le> now rt w1 + life" if "s \<in> pend (est w1)" for s
    using assms(2) that unfolding creates_truthful_def by (metis cj_Request_create_input cj_Launch_create_input)
  have ok: "ledger_ok l" "cl.covers (pend (est w)) l" "timely life pend due (ended l) (est w)"
    using acc by (simp_all add: accounted_def)
  then have fresh: "issued l + 1 \<notin> pend (est w)"
    by (auto simp: cl.covers_def open_requests_def ledger_ok_def)
  have "cl.covers (pend (est w1)) (first_ledger raw (now rt w1) l)"
    using new ok(2) by (fastforce simp: cl.covers_def open_first_ledger)
  moreover have "due (est w1) s \<le> t + life"
    if "s \<in> pend (est w1)" "ended (first_ledger raw (now rt w1) l) s = Some t" for s t
  proof (cases "s \<in> pend (est w)")
    case True
    then have "ended l s = Some t" using that(2) fresh
      by (auto simp: first_ledger_def unanswered_def issue_def split: if_splits)
    then have "due (est w) s \<le> t + life" using ok(3) True by (simp add: timely_def)
    then show ?thesis using new [OF that(1)] fresh True by fastforce
  next
    case False
    then have "unresolved raw" "s = issued l + 1" "due (est w1) s \<le> now rt w1 + life" using new [OF that(1)] by auto
    then show ?thesis using that(2) by (simp add: first_ledger_def unanswered_def)
  qed
  ultimately show ?thesis using ok(1) by (auto simp: accounted_def timely_def intro: ledger_ok_first_ledger)
qed

lemma answered_accounted:
  assumes acc: "accounted life pend due l (est w)" and "creates_truthful rt launch life pend due"
    and ex: "exec rt c opts (Temporal.CreateJob (create_input spec launch deadline (issued l + 1))) w = (raw, w1)"
    and ans: "decode as_job raw = Inr job"
  shows "accounted life pend due (account [jr_Request job] (issue l)) (est w1)"
proof -
  have raw: "raw = Inr (RJob job)" using ans by (auto simp: decode_Inr)
  have perf: "rt_perform rt c opts (Temporal.CreateJob (create_input spec launch deadline (issued l + 1))) (est w) = (raw, est w1)"
    using ex by (auto simp: exec_def split: prod.splits)
  then have gone: "jr_Request job \<notin> pend (est w1)"
    using assms(2) raw cj_Launch_create_input unfolding creates_truthful_def by blast
  have "first_ledger raw (now rt w1) l = issue l" using ans by (simp add: first_ledger_def unresolved_def)
  then have "accounted life pend due (issue l) (est w1)" using first_ledger_accounted [OF assms(1-3)] by simp
  then show ?thesis using gone
    by (auto simp: accounted_def ended_account ledger_ok_account timely_def intro!: cl.covers_close simp del: account.simps)
qed

lemma createJob_accounted:
  assumes "createJob rt c q b spec launch deadline l w = (res, l', w')"
    and "backend_truthful rt launch pend obj due" "creates_truthful rt launch life pend due"
    and "accounted life pend due l (est w)"
  shows "accounted life pend due l' (est w')"
  using assms(1,4) unfolding createJob_def
proof (induction rule: create_loop_induct)
  case (answered interval l w raw w1 job)
  then show ?case using answered_accounted assms(3) by blast
next
  case (failed interval l w raw w1 err)
  then show ?case using first_ledger_accounted assms(3) by blast
next
  case (paused interval l w raw w1 err x w2)
  then show ?case using first_ledger_accounted assms(3) truthful_sleep [OF assms(2)] accounted_settling by metis
next
  case (again interval l w raw w1 err w2 res l' w')
  then show ?case using first_ledger_accounted assms(3) truthful_sleep [OF assms(2)] accounted_settling by metis
qed

section \<open>Cleanup of an accounted launch\<close>

lemma cleanupRound_accounted:
  assumes "cleanupRound rt c q b attempt launch l w = (ok, l', w')" "backend_truthful rt launch pend obj due"
    and "accounted (CreateRequestLifetime b) pend due l (est w)"
  shows "accounted (CreateRequestLifetime b) pend due l' (est w')"
    and "ok \<Longrightarrow> obj (est w') = {} \<and> pend (est w') = {}"
    and "runs rt (cleanup_event c q b attempt launch) w w'"
proof -
  have acc: "ledger_ok l" "cl.covers (pend (est w)) l" "timely (CreateRequestLifetime b) pend due (ended l) (est w)"
    using assms(3) by (simp_all add: accounted_def)
  note run = assms(1) [unfolded cleanupRound_def]
  note does = cleanup_pass_does [OF run] and cov = cleanup_pass_covers [OF run assms(2) acc(3,2)]
  show "runs rt (cleanup_event c q b attempt launch) w w'" using does by blast
  show "ok \<Longrightarrow> obj (est w') = {} \<and> pend (est w') = {}"
    using cleanup_pass_sound [OF _ assms(2) acc(3,2)] run by (cases ok) auto
  have "ledger_ok l'" using does shrinks_ledger_ok acc(1) by blast
  then show "accounted (CreateRequestLifetime b) pend due l' (est w')"
    using cov timely_settling [OF acc(3), of obj "est w'"] by (simp add: accounted_def)
qed

fun round_event :: "wctx \<Rightarrow> queues \<Rightarrow> bounds \<Rightarrow> attempt_ref \<Rightarrow> launch_ref \<Rightarrow> event \<Rightarrow> bool" where
  "round_event c q b attempt launch (Slept c' d res) \<longleftrightarrow> c' = c"
| "round_event c q b attempt launch e \<longleftrightarrow> cleanup_event c q b attempt launch e"

lemma reconcile_loop_runs:
  assumes "reconcile_loop rt c q b attempt launch start interval l w = Some r"
  shows "runs rt (round_event c q b attempt launch) w (snd (snd r))"
  using assms
proof (induction rule: reconcile_loop.raw_induct [rotated 1, consumes 1, case_names 1])
  case (1 f rt c q b attempt launch start interval l w r)
  obtain res w1 where sl: "sleep rt c interval w = (res, w1)" by fastforce
  obtain ok l1 w2 where round: "cleanup_pass False rt c q b attempt launch l w1 = (ok, l1, w2)" by (metis prod_cases3)
  have r1: "runs rt (round_event c q b attempt launch) w w1" by (rule runs_timer [OF sl]) simp
  have "runs rt (cleanup_event c q b attempt launch) w1 w2" using cleanup_pass_does [OF round] by blast
  moreover have "cleanup_event c q b attempt launch e \<Longrightarrow> round_event c q b attempt launch e" for e
    by (cases e) auto
  ultimately have r2: "runs rt (round_event c q b attempt launch) w1 w2" by (rule runs_mono)
  consider "snd (snd r) = w" | "snd (snd r) = w1" | "snd (snd r) = w2"
    | (again) "f rt c q b attempt launch start (backoff (ReconcileMaxInterval b) interval) l1 w2 = Some r"
    using 1(2) sl by (cases r) (simp add: cleanupRound_def round split: if_splits option.splits; blast)
  then show ?case
  proof cases
    case again
    from runs_trans [OF r1 runs_trans [OF r2 1(1) [OF again]]] show ?thesis .
  qed (use r1 r2 in \<open>auto intro: runs_trans\<close>)
qed

lemma reconcileCleanup_accounted:
  assumes "reconcileCleanup rt c q b attempt launch l w = Some (ok, l', w')" "backend_truthful rt launch pend obj due"
    and "accounted (CreateRequestLifetime b) pend due l (est w)"
  shows "ok \<Longrightarrow> obj (est w') = {} \<and> pend (est w') = {}"
    and "runs rt (round_event c q b attempt launch) w w'"
proof -
  show "runs rt (round_event c q b attempt launch) w w'"
    using reconcile_loop_runs [OF assms(1) [unfolded reconcileCleanup_def]] by simp
  show "ok \<Longrightarrow> obj (est w') = {} \<and> pend (est w') = {}"
    using reconcile_loop_sound [OF assms(1) [unfolded reconcileCleanup_def] assms(2)] assms(3)
    by (auto simp: accounted_def)
qed

text \<open>An empty backend stays empty without create calls.\<close>

lemma empty_settling: "settling pend obj due e e' \<Longrightarrow> pend e = {} \<Longrightarrow> obj e = {} \<Longrightarrow> pend e' = {} \<and> obj e' = {}"
  by (auto simp: settling_def)

end
