(* ===== verification/LocalCheckWf.thy ===== *)
theory LocalCheckWf
  imports Accounted Close
begin

text \<open>
  The \<open>LocalCheck\<close> workflow of \<^verbatim>\<open>internal/workflows/localcheck.go\<close>: open an attempt,
  inventory and create the fixed Job, register its Pods, verify the result, accept it once,
  clean up and close. The body is split where the source returns; the deferred function is
  \<open>local_finish\<close>. A run is a call of \<open>LocalCheck\<close>; it is \<open>None\<close> only if a wait of its
  close or its reconciliation never ends.
\<close>

section \<open>The launch key\<close>

definition lower :: "char \<Rightarrow> char" where
  "lower ch = (if 65 \<le> ascii ch \<and> ascii ch \<le> 90 then char_of (ascii ch + 32) else ch)"

definition key_char :: "char \<Rightarrow> bool" where
  "key_char ch \<longleftrightarrow> 97 \<le> ascii ch \<and> ascii ch \<le> 122 \<or> 48 \<le> ascii ch \<and> ascii ch \<le> 57"

definition launchKeyFor :: "string \<Rightarrow> string" where
  "launchKeyFor operationID =
     (let key = map (\<lambda>ch. if key_char ch then ch else CHR ''-'') (map lower (trim_prefix ''op_'' operationID));
          key = (if length key > 40 then take 40 key else key)
      in ''lc-'' @ trim_char (CHR ''-'') key)"

section \<open>The body of the run\<close>

record local_state =
  st_Outcome :: string
  st_FailureCode :: string
  st_Launched :: bool
  st_Launch :: launch_ref
  st_Creates :: create_ledger

definition no_launch :: launch_ref where
  "no_launch = \<lparr>lr_LaunchID = '''', lr_AttemptID = '''', lr_LaunchKey = '''', lr_ImageDigest = '''', lr_LaunchEpoch = ''''\<rparr>"

definition no_instance :: instance_ref where
  "no_instance = \<lparr>ir_InstanceID = '''', ir_Current = False\<rparr>"

definition profileID :: string where
  "profileID = ''local-check-v1''"

definition stepID :: string where
  "stepID = ''local-check''"

definition open_input :: "input \<Rightarrow> open_attempt_input" where
  "open_input inp =
     \<lparr>oa_OperationID = in_OperationID inp, oa_TenantID = in_TenantID inp,
      oa_CommandID = in_OperationID inp @ '':open'', oa_StepID = stepID, oa_Visit = 0, oa_ProfileID = profileID\<rparr>"

definition local_spec :: job_spec where
  "local_spec = \<lparr>js_ProfileID = profileID, js_OperationID = '''', js_ExecutionEpoch = '''', js_Inputs = [], js_Component = None\<rparr>"

text \<open>Verification and the one acceptance of the run.\<close>

definition local_accept :: "'e runtime \<Rightarrow> queues \<Rightarrow> bounds \<Rightarrow> attempt_ref \<Rightarrow> launch_ref \<Rightarrow> job_observation \<Rightarrow>
    instance_ref \<Rightarrow> 'e world \<Rightarrow> (string \<times> string) \<times> 'e world" where
  "local_accept rt q b attempt launch obs current w =
     (case get as_verdict (exec rt RunCtx (businessOptions q b) (VerifyResult
             \<lparr>vr_Launch = launch, vr_Attempt = attempt, vr_ProfileID = profileID, vr_Observation = obs,
              vr_CompletedAt = now rt w\<rparr>) w) of
        (Inl err, w1) \<Rightarrow> (settle rt RunCtx err ''OBSERVER_FAILED'' w1, w1)
      | (Inr verdict, w1) \<Rightarrow>
          (case get as_stage (exec rt RunCtx (businessOptions q b) (AcceptResult
                  \<lparr>ac_Attempt = attempt, ac_Instance = current, ac_CommandID = ar_AttemptID attempt @ '':accept'',
                   ac_ProfileID = profileID, ac_Verdict = verdict\<rparr>) w1) of
             (Inl err, w2) \<Rightarrow>
               (let r = settle rt RunCtx err ''OBSERVER_FAILED'' w2 in
                (if fst r \<noteq> ''canceled'' \<and> vd_Verdict verdict \<noteq> ''certified'' then verdictOutcome verdict else r, w2))
           | (Inr stage, w2) \<Rightarrow> (verdictOutcome verdict, w2)))"

text \<open>Every Pod is registered and observed in order; the first owns the result.\<close>

fun register_current :: "'e runtime \<Rightarrow> queues \<Rightarrow> bounds \<Rightarrow> attempt_ref \<Rightarrow> launch_ref \<Rightarrow> string \<Rightarrow> nat \<Rightarrow>
    pod_observation list \<Rightarrow> instance_ref \<Rightarrow> 'e world \<Rightarrow> (wf_error + instance_ref) \<times> 'e world" where
  "register_current rt q b attempt launch jobUID i [] current w = (Inr current, w)"
| "register_current rt q b attempt launch jobUID i (pod # pods) current w =
     (case get as_instance (exec rt RunCtx (businessOptions q b)
             (RegisterInstance (register_input attempt launch jobUID pod)) w) of
        (Inl err, w1) \<Rightarrow> (Inl err, w1)
      | (Inr inst, w1) \<Rightarrow>
          (case get as_unit (exec rt RunCtx (businessOptions q b)
                (ObserveInstance \<lparr>oi_Attempt = attempt, oi_Instance = inst, oi_Observation = pod\<rparr>) w1) of
             (Inl err, w2) \<Rightarrow> (Inl err, w2)
           | (Inr _, w2) \<Rightarrow>
               register_current rt q b attempt launch jobUID (i + 1) pods (if i = 0 then inst else current) w2))"

definition local_observed :: "'e runtime \<Rightarrow> queues \<Rightarrow> bounds \<Rightarrow> attempt_ref \<Rightarrow> launch_ref \<Rightarrow> job_observation \<Rightarrow>
    'e world \<Rightarrow> (string \<times> string) \<times> 'e world" where
  "local_observed rt q b attempt launch obs w =
     (case register_current rt q b attempt launch (jo_JobUID obs) 0 (jo_Pods obs) no_instance w of
        (Inl err, w1) \<Rightarrow> (settle rt RunCtx err ''OBSERVER_FAILED'' w1, w1)
      | (Inr current, w1) \<Rightarrow>
          if length (jo_Pods obs) = 0 \<or> \<not> ir_Current current
          then ((''infrastructure_failed'',
                 if jo_Reason obs = ''DeadlineExceeded'' then ''DEADLINE_EXCEEDED'' else ''OBSERVER_FAILED''), w1)
          else local_accept rt q b attempt launch obs current w1)"

text \<open>From the prepared launch on: the run has launched, whatever happens next.\<close>

definition observe_timeout :: "time \<Rightarrow> time \<Rightarrow> duration" where
  "observe_timeout deadline at = (let t = deadline - at + minute in if t < minute then minute else t)"

definition local_launched :: "'e runtime \<Rightarrow> queues \<Rightarrow> bounds \<Rightarrow> attempt_ref \<Rightarrow> launch_ref \<Rightarrow> time \<Rightarrow>
    'e world \<Rightarrow> local_state \<times> 'e world" where
  "local_launched rt q b attempt launch deadline w =
     (case createJob rt RunCtx q b local_spec launch deadline empty_ledger w of
        (Inl err, l1, w1) \<Rightarrow>
          (let r = settle rt RunCtx err ''OBSERVER_FAILED'' w1 in
           (\<lparr>st_Outcome = fst r, st_FailureCode = snd r, st_Launched = True, st_Launch = launch, st_Creates = l1\<rparr>, w1))
      | (Inr job, l1, w1) \<Rightarrow>
          (case (case get as_job_observation (exec rt RunCtx (observeOptions q b (observe_timeout deadline (now rt w1)))
                  (ObserveJob \<lparr>oj_Launch = launch, oj_Deadline = deadline\<rparr>) w1) of
              (Inl err, w2) \<Rightarrow> (settle rt RunCtx err ''OBSERVER_FAILED'' w2, w2)
            | (Inr obs, w2) \<Rightarrow> local_observed rt q b attempt launch obs w2) of
             (r, w3) \<Rightarrow>
               (\<lparr>st_Outcome = fst r, st_FailureCode = snd r, st_Launched = True, st_Launch = launch,
                 st_Creates = l1\<rparr>, w3)))"

definition not_launched :: "string \<times> string \<Rightarrow> local_state" where
  "not_launched r = \<lparr>st_Outcome = fst r, st_FailureCode = snd r, st_Launched = False, st_Launch = no_launch,
     st_Creates = empty_ledger\<rparr>"

definition launch_deadline :: "bounds \<Rightarrow> attempt_ref \<Rightarrow> time \<Rightarrow> time" where
  "launch_deadline b attempt at =
     (let deadline = at + LaunchWindow b in if deadline > ar_Deadline attempt then ar_Deadline attempt else deadline)"

definition local_body :: "'e runtime \<Rightarrow> queues \<Rightarrow> bounds \<Rightarrow> string \<Rightarrow> attempt_ref \<Rightarrow> 'e world \<Rightarrow> local_state \<times> 'e world" where
  "local_body rt q b operationID attempt w =
     (if \<not> ar_Deadline attempt > now rt w
      then (not_launched (''infrastructure_failed'', ''DEADLINE_EXCEEDED''), w)
      else let deadline = launch_deadline b attempt (now rt w) in
        case get as_launch (exec rt RunCtx (businessOptions q b) (PrepareLaunch
                \<lparr>pl_Attempt = attempt, pl_CommandID = ar_AttemptID attempt @ '':launch'',
                 pl_LaunchKey = launchKeyFor operationID, pl_Deadline = deadline\<rparr>) w) of
          (Inl err, w1) \<Rightarrow> (not_launched (settle rt RunCtx err ''PROFILE_UNQUALIFIED'' w1), w1)
        | (Inr launch, w1) \<Rightarrow> local_launched rt q b attempt launch deadline w1)"

section \<open>The protected end of the run\<close>

definition local_carry :: "attempt_ref \<Rightarrow> local_state \<Rightarrow> string \<Rightarrow> string \<Rightarrow> close_carry" where
  "local_carry attempt st suffix cleanup =
     \<lparr>cc_Attempt = attempt, cc_Launched = st_Launched st, cc_CommandID = ar_AttemptID attempt @ suffix,
      cc_Outcome = st_Outcome st, cc_Cleanup = cleanup, cc_FailureCode = st_FailureCode st, cc_Interval = 0\<rparr>"

text \<open>The first cleanup of the run: what it may state to Control.\<close>

definition local_cleanup :: "'e runtime \<Rightarrow> queues \<Rightarrow> bounds \<Rightarrow> attempt_ref \<Rightarrow> local_state \<Rightarrow> 'e world \<Rightarrow>
    string \<times> create_ledger \<times> 'e world" where
  "local_cleanup rt q b attempt st w =
     (if st_Launched st
      then (case cleanupRound rt Disconnected q b attempt (st_Launch st) (st_Creates st) w of
          (ok, l1, w1) \<Rightarrow> (if ok then ''complete'' else ''unknown'', l1, w1))
      else (''not_required'', st_Creates st, w))"

definition local_finish :: "'e runtime \<Rightarrow> queues \<Rightarrow> bounds \<Rightarrow> input \<Rightarrow> attempt_ref \<Rightarrow> local_state \<Rightarrow> 'e world \<Rightarrow>
    (wf_error option \<times> 'e world) option" where
  "local_finish rt q b inp attempt st w =
     (case local_cleanup rt q b attempt st w of
        (cleanup, l1, w1) \<Rightarrow>
          (case closeOrContinue rt Disconnected q b (in_OperationID inp) (in_TenantID inp)
                  (local_carry attempt st '':close'' cleanup) w1 of
             None \<Rightarrow> None
           | Some (Some cerr, w2) \<Rightarrow> Some (Some cerr, w2)
           | Some (None, w2) \<Rightarrow>
               if cleanup \<noteq> ''unknown'' then Some (None, w2)
               else (case reconcileCleanup rt Disconnected q b attempt (st_Launch st) l1 w2 of
                   None \<Rightarrow> None
                 | Some (ok, l2, w3) \<Rightarrow>
                     if \<not> ok then Some (Some (ApplicationError ''CLEANUP_UNCONFIRMED'' True), w3)
                     else closeOrContinue rt Disconnected q b (in_OperationID inp) (in_TenantID inp)
                            (local_carry attempt st '':close:settled'' ''complete'') w3)))"

definition LocalCheck :: "'e runtime \<Rightarrow> queues \<Rightarrow> bounds \<Rightarrow> input \<Rightarrow> 'e world \<Rightarrow> (wf_error option \<times> 'e world) option" where
  "LocalCheck rt q b inp w =
     (case in_Close inp of
        Some cc \<Rightarrow> closeOnly rt q b inp cc w
      | None \<Rightarrow>
          (case get as_attempt (exec rt RunCtx (businessOptions q b) (OpenAttempt (open_input inp)) w) of
             (Inl err, w1) \<Rightarrow> Some (Some err, w1)
           | (Inr attempt, w1) \<Rightarrow>
               (case local_body rt q b (in_OperationID inp) attempt w1 of
                  (st, w2) \<Rightarrow> local_finish rt q b inp attempt st w2)))"

section \<open>The events of the body\<close>

fun quiet_event :: "event \<Rightarrow> bool" where
  "quiet_event (Act c opts r res) \<longleftrightarrow> quiet_request r \<and> \<not> is_close (Act c opts r res)"
| "quiet_event (Slept c d res) \<longleftrightarrow> True"

fun is_accept :: "event \<Rightarrow> bool" where
  "is_accept (Act _ _ (AcceptResult _) _) \<longleftrightarrow> True"
| "is_accept _ \<longleftrightarrow> False"

abbreviation calm_event :: "event \<Rightarrow> bool" where
  "calm_event e \<equiv> quiet_event e \<and> \<not> is_accept e"

lemma local_accept_runs: "local_accept rt q b attempt launch obs current w = (r, w') \<Longrightarrow> runs rt quiet_event w w'"
proof -
  assume run: "local_accept rt q b attempt launch obs current w = (r, w')"
  obtain res w1 where one: "get as_verdict (exec rt RunCtx (businessOptions q b) (VerifyResult
      \<lparr>vr_Launch = launch, vr_Attempt = attempt, vr_ProfileID = profileID, vr_Observation = obs,
       vr_CompletedAt = now rt w\<rparr>) w) = (res, w1)" by fastforce
  have r1: "runs rt quiet_event w w1" by (rule runs_one [OF one]) simp
  show ?thesis
  proof (cases res)
    case (Inr verdict)
    obtain res2 w2 where two: "get as_stage (exec rt RunCtx (businessOptions q b) (AcceptResult
        \<lparr>ac_Attempt = attempt, ac_Instance = current, ac_CommandID = ar_AttemptID attempt @ '':accept'',
         ac_ProfileID = profileID, ac_Verdict = verdict\<rparr>) w1) = (res2, w2)" by fastforce
    have "runs rt quiet_event w1 w2" by (rule runs_one [OF two]) simp
    then show ?thesis using run one two Inr r1
      by (auto simp: local_accept_def Let_def split: sum.splits intro: runs_trans)
  qed (use run one r1 in \<open>simp add: local_accept_def\<close>)
qed

lemma register_current_runs:
  "register_current rt q b attempt launch jobUID i pods current w = (r, w') \<Longrightarrow> runs rt calm_event w w'"
proof (induction pods arbitrary: i current w)
  case (Cons pod pods)
  obtain res w1 where one: "get as_instance (exec rt RunCtx (businessOptions q b)
      (RegisterInstance (register_input attempt launch jobUID pod)) w) = (res, w1)" by fastforce
  have r1: "runs rt calm_event w w1" by (rule runs_one [OF one]) simp
  show ?case
  proof (cases res)
    case (Inr inst)
    obtain res2 w2 where two: "get as_unit (exec rt RunCtx (businessOptions q b)
        (ObserveInstance \<lparr>oi_Attempt = attempt, oi_Instance = inst, oi_Observation = pod\<rparr>) w1) = (res2, w2)" by fastforce
    have "runs rt calm_event w1 w2" by (rule runs_one [OF two]) simp
    then show ?thesis using Cons r1 one two Inr by (auto split: sum.splits intro: runs_trans)
  qed (use Cons.prems one r1 in simp)
qed simp

lemma local_observed_runs:
  assumes "local_observed rt q b attempt launch obs w = (r, w')"
  shows "runs rt quiet_event w w'"
proof -
  obtain res w1 where reg: "register_current rt q b attempt launch (jo_JobUID obs) 0 (jo_Pods obs) no_instance w = (res, w1)"
    by fastforce
  have r1: "runs rt quiet_event w w1" by (rule runs_mono [OF register_current_runs [OF reg]]) simp
  show ?thesis using assms reg r1 runs_trans [OF r1 local_accept_runs]
    by (auto simp: local_observed_def split: sum.splits if_splits)
qed

text \<open>What the body leaves: an accounted launch, or an untouched backend.\<close>

definition body_event :: "event \<Rightarrow> bool" where
  "body_event e \<longleftrightarrow> \<not> is_close e"

lemma quiet_body: "quiet_event e \<Longrightarrow> body_event e"
  by (cases e) (auto simp: body_event_def)

lemma create_body: "create_event c opts e \<Longrightarrow> body_event e"
  by (cases "(c, opts, e)" rule: create_event.cases) (auto simp: body_event_def)

lemma local_launched_runs:
  assumes "local_launched rt q b attempt launch deadline w = (st, w')"
  shows "runs rt body_event w w'"
proof -
  obtain res l1 w1 where cr: "createJob rt RunCtx q b local_spec launch deadline empty_ledger w = (res, l1, w1)"
    by (metis prod_cases3)
  have r1: "runs rt body_event w w1" using createJob_runs [OF cr] create_body by (rule runs_mono)
  have "runs rt quiet_event w1 w'"
  proof (cases res)
    case (Inl err)
    then show ?thesis using assms cr by (auto simp: local_launched_def Let_def)
  next
    case (Inr job)
    obtain res2 w2 where ob: "get as_job_observation (exec rt RunCtx (observeOptions q b (observe_timeout deadline (now rt w1)))
        (ObserveJob \<lparr>oj_Launch = launch, oj_Deadline = deadline\<rparr>) w1) = (res2, w2)" by fastforce
    have "runs rt quiet_event w1 w2" by (rule runs_one [OF ob]) simp
    then show ?thesis using assms cr ob Inr local_observed_runs runs_trans
      by (fastforce simp: local_launched_def split: sum.splits prod.splits)
  qed
  then show ?thesis using runs_trans [OF r1 runs_mono [OF _ quiet_body]] by blast
qed

lemma local_body_runs:
  assumes "local_body rt q b operationID attempt w = (st, w')"
  shows "runs rt body_event w w'"
proof -
  obtain res w1 where pl: "get as_launch (exec rt RunCtx (businessOptions q b) (PrepareLaunch
      \<lparr>pl_Attempt = attempt, pl_CommandID = ar_AttemptID attempt @ '':launch'',
       pl_LaunchKey = launchKeyFor operationID, pl_Deadline = launch_deadline b attempt (now rt w)\<rparr>) w) = (res, w1)" by fastforce
  have r1: "runs rt body_event w w1" by (rule runs_one [OF pl]) (simp add: body_event_def)
  show ?thesis using assms pl r1 runs_trans [OF r1 local_launched_runs]
    by (auto simp: local_body_def Let_def split: if_splits sum.splits)
qed

definition truthful :: "'e runtime \<Rightarrow> bounds \<Rightarrow> string \<Rightarrow> ('e \<Rightarrow> int set) \<Rightarrow> ('e \<Rightarrow> int set) \<Rightarrow> ('e \<Rightarrow> int \<Rightarrow> time) \<Rightarrow> bool" where
  "truthful rt b key pend obj due \<longleftrightarrow>
     (\<forall>launch. lr_LaunchKey launch = key \<longrightarrow>
        backend_truthful rt launch pend obj due \<and> creates_truthful rt launch (CreateRequestLifetime b) pend due) \<and>
     (\<forall>c opts inp e launch e'. rt_perform rt c opts (PrepareLaunch inp) e = (Inr (RLaunch launch), e') \<longrightarrow>
        lr_LaunchKey launch = pl_LaunchKey inp)"

lemma truthful_launch:
  "truthful rt b key pend obj due \<Longrightarrow> lr_LaunchKey launch = key \<Longrightarrow> backend_truthful rt launch pend obj due"
  by (simp add: truthful_def)

lemma truthful_some: "truthful rt b key pend obj due \<Longrightarrow> backend_truthful rt (no_launch\<lparr>lr_LaunchKey := key\<rparr>) pend obj due"
  by (rule truthful_launch) simp_all

lemma truthful_prepared:
  "truthful rt b key pend obj due \<Longrightarrow> get as_launch (exec rt c opts (PrepareLaunch inp) w) = (Inr launch, w') \<Longrightarrow>
   lr_LaunchKey launch = pl_LaunchKey inp"
  by (auto simp: truthful_def exec_def get_def decode_Inr split: prod.splits) blast+

definition body_ok :: "bounds \<Rightarrow> string \<Rightarrow> ('e \<Rightarrow> int set) \<Rightarrow> ('e \<Rightarrow> int set) \<Rightarrow> ('e \<Rightarrow> int \<Rightarrow> time) \<Rightarrow> local_state \<Rightarrow> 'e \<Rightarrow> bool" where
  "body_ok b key pend obj due st e \<longleftrightarrow>
     (if st_Launched st then accounted (CreateRequestLifetime b) pend due (st_Creates st) e \<and> lr_LaunchKey (st_Launch st) = key
      else pend e = {} \<and> obj e = {})"

lemma quiet_settling: "truthful rt b key pend obj due \<Longrightarrow> runs rt quiet_event w w' \<Longrightarrow> settling pend obj due (est w) (est w')"
  by (rule runs_settling [where P = quiet_event, OF truthful_some]) auto

lemma local_launched_accounted:
  assumes "truthful rt b key pend obj due"
    and "local_launched rt q b attempt launch deadline w = (st, w')" "pend (est w) = {}" "lr_LaunchKey launch = key"
  shows "accounted (CreateRequestLifetime b) pend due (st_Creates st) (est w')" "st_Launched st"
    "st_Launch st = launch" "runs rt body_event w w'"
proof -
  obtain res l1 w1 where cr: "createJob rt RunCtx q b local_spec launch deadline empty_ledger w = (res, l1, w1)"
    by (metis prod_cases3)
  have acc: "accounted (CreateRequestLifetime b) pend due l1 (est w1)"
    by (rule createJob_accounted [OF cr truthful_launch [OF assms(1,4)] _ accounted_start [of pend "est w", OF assms(3)]]) (use assms(1,4) in \<open>simp add: truthful_def\<close>)
  have r1: "runs rt body_event w w1" using createJob_runs [OF cr] create_body by (rule runs_mono)
  have "st_Creates st = l1 \<and> st_Launched st \<and> st_Launch st = launch \<and> runs rt quiet_event w1 w'"
  proof (cases res)
    case (Inl err)
    then show ?thesis using assms(2) cr by (auto simp: local_launched_def Let_def)
  next
    case (Inr job)
    obtain res2 w2 where ob: "get as_job_observation (exec rt RunCtx (observeOptions q b (observe_timeout deadline (now rt w1)))
        (ObserveJob \<lparr>oj_Launch = launch, oj_Deadline = deadline\<rparr>) w1) = (res2, w2)" by fastforce
    have "runs rt quiet_event w1 w2" by (rule runs_one [OF ob]) simp
    then show ?thesis using assms(2) cr ob Inr local_observed_runs runs_trans
      by (fastforce simp: local_launched_def split: sum.splits prod.splits)
  qed
  then show "accounted (CreateRequestLifetime b) pend due (st_Creates st) (est w')" "st_Launched st"
      "st_Launch st = launch" "runs rt body_event w w'"
    using accounted_settling [OF acc quiet_settling [OF assms(1)]] runs_trans [OF r1 runs_mono [OF _ quiet_body]] by auto
qed

lemma local_body_accounted:
  assumes "truthful rt b (launchKeyFor operationID) pend obj due"
    and "local_body rt q b operationID attempt w = (st, w')" "pend (est w) = {}" "obj (est w) = {}"
  shows "body_ok b (launchKeyFor operationID) pend obj due st (est w')"
    and "runs rt body_event w w'"
proof -
  let ?deadline = "launch_deadline b attempt (now rt w)"
  obtain res w1 where pl: "get as_launch (exec rt RunCtx (businessOptions q b) (PrepareLaunch
      \<lparr>pl_Attempt = attempt, pl_CommandID = ar_AttemptID attempt @ '':launch'',
       pl_LaunchKey = launchKeyFor operationID, pl_Deadline = ?deadline\<rparr>) w) = (res, w1)" by fastforce
  have r1: "runs rt quiet_event w w1" by (rule runs_one [OF pl]) simp
  note e1 = empty_settling [OF quiet_settling [OF assms(1) r1] assms(3,4)]
  have "body_ok b (launchKeyFor operationID) pend obj due st (est w') \<and> runs rt body_event w w'"
  proof (cases "ar_Deadline attempt > now rt w")
    case False
    then show ?thesis using assms by (auto simp: local_body_def not_launched_def body_ok_def)
  next
    case True
    show ?thesis
    proof (cases res)
      case (Inl err)
      then show ?thesis using assms(2) True pl e1 runs_mono [OF r1 quiet_body]
        by (auto simp: local_body_def not_launched_def body_ok_def Let_def)
    next
      case (Inr launch)
      then have run: "local_launched rt q b attempt launch ?deadline w1 = (st, w')"
        using assms(2) True pl by (simp add: local_body_def Let_def)
      have key: "lr_LaunchKey launch = launchKeyFor operationID" using truthful_prepared [OF assms(1) pl [unfolded Inr]] by simp
      note fin = local_launched_accounted [OF assms(1) run conjunct1 [OF e1] key]
      show ?thesis using fin key runs_trans [OF runs_mono [OF r1 quiet_body]] by (simp add: body_ok_def)
    qed
  qed
  then show "body_ok b (launchKeyFor operationID) pend obj due st (est w')" "runs rt body_event w w'" by blast+
qed

section \<open>The end of the run\<close>

text \<open>A close call that states the cleanup as anything but unknown.\<close>

fun claims_clean :: "event \<Rightarrow> bool" where
  "claims_clean (Act _ _ (CloseAttempt inp) _) \<longleftrightarrow> ca_Cleanup inp \<noteq> ''unknown''"
| "claims_clean _ \<longleftrightarrow> False"

lemma close_event_quiet: "close_event c q b inp (Act c' opts r res) \<Longrightarrow> quiet_request r"
  by (cases r) auto

lemma round_event_quiet: "round_event c q b attempt launch (Act c' opts r res) \<Longrightarrow> quiet_request r"
  by (cases r) auto

lemma close_event_clean: "close_event c q b inp e \<Longrightarrow> ca_Cleanup inp = ''unknown'' \<Longrightarrow> \<not> claims_clean e"
  by (cases "(c, q, b, inp, e)" rule: close_event.cases) auto

lemma round_event_clean: "round_event c q b attempt launch e \<Longrightarrow> \<not> claims_clean e"
  by (cases e) (auto elim: claims_clean.elims)

lemma cleanup_event_clean: "cleanup_event c q b attempt launch e \<Longrightarrow> \<not> claims_clean e"
  by (auto elim: claims_clean.elims)

lemma body_event_clean: "body_event e \<Longrightarrow> \<not> claims_clean e"
  by (auto simp: body_event_def elim: claims_clean.elims)

lemma close_settling:
  assumes "truthful rt b key pend obj due" "runs rt (close_event c q b inp) w w'"
  shows "settling pend obj due (est w) (est w')"
  using assms by (intro runs_settling [OF truthful_some assms(2) close_event_quiet]) auto

lemma local_carry_input [simp]: "ca_Cleanup (carry_input (local_carry attempt st suffix cleanup)) = cleanup"
  by (simp add: carry_input_def local_carry_def close_input_def)

lemma local_cleanup_sound:
  assumes "truthful rt b key pend obj due" "local_cleanup rt q b attempt st w = (cleanup, l', w')"
    and "body_ok b key pend obj due st (est w)"
  shows "cleanup \<noteq> ''unknown'' \<Longrightarrow> pend (est w') = {} \<and> obj (est w') = {}"
    and "cleanup = ''unknown'' \<Longrightarrow> accounted (CreateRequestLifetime b) pend due l' (est w')"
    and "count_events claims_clean w' = count_events claims_clean w"
proof -
  have "(cleanup \<noteq> ''unknown'' \<longrightarrow> pend (est w') = {} \<and> obj (est w') = {}) \<and>
      (cleanup = ''unknown'' \<longrightarrow> accounted (CreateRequestLifetime b) pend due l' (est w')) \<and>
      count_events claims_clean w' = count_events claims_clean w"
  proof (cases "st_Launched st")
    case False
    then show ?thesis using assms(2,3) by (auto simp: local_cleanup_def body_ok_def)
  next
    case True
    obtain ok l1 w1 where round: "cleanupRound rt Disconnected q b attempt (st_Launch st) (st_Creates st) w = (ok, l1, w1)"
      by (metis prod_cases3)
    have ok: "accounted (CreateRequestLifetime b) pend due (st_Creates st) (est w)" "lr_LaunchKey (st_Launch st) = key"
      using assms(3) True by (simp_all add: body_ok_def)
    note acc = cleanupRound_accounted [OF round truthful_launch [OF assms(1) ok(2)] ok(1)]
    have "count_events claims_clean w1 = count_events claims_clean w"
      using acc(3) cleanup_event_clean by (rule count_events_none)
    then show ?thesis using assms(2) True round acc(1,2)
      by (auto simp: local_cleanup_def split: if_splits)
  qed
  then show "cleanup \<noteq> ''unknown'' \<Longrightarrow> pend (est w') = {} \<and> obj (est w') = {}"
    "cleanup = ''unknown'' \<Longrightarrow> accounted (CreateRequestLifetime b) pend due l' (est w')"
    "count_events claims_clean w' = count_events claims_clean w" by blast+
qed

lemma local_finish_sound:
  assumes "truthful rt b key pend obj due" "local_finish rt q b inp attempt st w = Some (err, w')"
    and "body_ok b key pend obj due st (est w)"
  shows "count_events claims_clean w' = count_events claims_clean w \<or> pend (est w') = {} \<and> obj (est w') = {}"
proof -
  obtain cleanup l1 w1 where first: "local_cleanup rt q b attempt st w = (cleanup, l1, w1)" by (metis prod_cases3)
  note clean = local_cleanup_sound [OF assms(1) first assms(3)]
  obtain cerr w2 where cl: "closeOrContinue rt Disconnected q b (in_OperationID inp) (in_TenantID inp)
      (local_carry attempt st '':close'' cleanup) w1 = Some (cerr, w2)"
    using assms(2) first by (auto simp: local_finish_def split: option.splits)
  note run2 = closeOrContinue_safe(1) [OF cl] and set2 = close_settling [OF assms(1) closeOrContinue_safe(1) [OF cl]]
  show ?thesis
  proof (cases "cleanup = ''unknown''")
    case False
    then have "w' = w2" using assms(2) first cl by (auto simp: local_finish_def split: option.splits)
    then show ?thesis using empty_settling [OF set2] clean(1) [OF False] by simp
  next
    case True
    have n2: "count_events claims_clean w2 = count_events claims_clean w"
      using clean(3) count_events_none [OF run2 close_event_clean] True by simp
    have acc2: "accounted (CreateRequestLifetime b) pend due l1 (est w2)"
      using clean(2) [OF True] set2 by (rule accounted_settling)
    show ?thesis
    proof (cases "cerr = None")
      case False
      then show ?thesis using assms(2) first cl n2 by (auto simp: local_finish_def)
    next
      case none: True
      then obtain ok l2 w3 where rec: "reconcileCleanup rt Disconnected q b attempt (st_Launch st) l1 w2 = Some (ok, l2, w3)"
        using assms(2) first cl True by (auto simp: local_finish_def split: option.splits)
      note acc3 = reconcileCleanup_accounted [OF rec _ acc2]
      have "st_Launched st" using True first by (auto simp: local_cleanup_def split: if_splits)
      then have tr: "backend_truthful rt (st_Launch st) pend obj due"
        using assms(3) truthful_launch [OF assms(1)] by (simp add: body_ok_def)
      have n3: "count_events claims_clean w3 = count_events claims_clean w"
        using n2 count_events_none [OF acc3(2) [OF tr] round_event_clean] by simp
      show ?thesis
      proof (cases ok)
        case False
        then show ?thesis using assms(2) first cl none True rec n3 by (auto simp: local_finish_def)
      next
        case ok: True
        then have "closeOrContinue rt Disconnected q b (in_OperationID inp) (in_TenantID inp)
            (local_carry attempt st '':close:settled'' ''complete'') w3 = Some (err, w')"
          using assms(2) first cl none True rec by (auto simp: local_finish_def)
        from empty_settling [OF close_settling [OF assms(1) closeOrContinue_safe(1) [OF this]]]
        show ?thesis using acc3(1) [OF tr ok] by simp
      qed
    qed
  qed
qed

lemma LocalCheck_confirmed:
  assumes "truthful rt b (launchKeyFor (in_OperationID inp)) pend obj due" and "pend (est w) = {}" "obj (est w) = {}"
    and "in_Close inp = None" "LocalCheck rt q b inp w = Some (err, w')"
    and "count_events claims_clean w' \<noteq> count_events claims_clean w"
  shows "pend (est w') = {} \<and> obj (est w') = {}"
proof -
  obtain res w1 where op: "get as_attempt (exec rt RunCtx (businessOptions q b) (OpenAttempt (open_input inp)) w) = (res, w1)"
    by fastforce
  have r1: "runs rt quiet_event w w1" by (rule runs_one [OF op]) simp
  have n1: "count_events claims_clean w1 = count_events claims_clean w"
    using r1 body_event_clean [OF quiet_body] by (rule count_events_none)
  obtain attempt where attempt: "res = Inr attempt"
    using assms(4-6) op n1 by (cases res) (auto simp: LocalCheck_def)
  obtain st w2 where body: "local_body rt q b (in_OperationID inp) attempt w1 = (st, w2)" by fastforce
  have e1: "pend (est w1) = {}" "obj (est w1) = {}"
    using empty_settling [OF quiet_settling [OF assms(1) r1] assms(2,3)] by simp_all
  note acc = local_body_accounted [OF assms(1) body e1]
  have n2: "count_events claims_clean w2 = count_events claims_clean w"
    using n1 count_events_none [OF acc(2) body_event_clean] by simp
  have "local_finish rt q b inp attempt st w2 = Some (err, w')"
    using assms(4,5) op attempt body by (simp add: LocalCheck_def)
  from local_finish_sound [OF assms(1) this acc(1)] show ?thesis using n2 assms(6) by simp
qed

section \<open>Properties\<close>

text \<open>
  C4. A LocalCheck run never states a cleanup it has not. Starting from a launch key that is
  empty and with the backend's answers truthful, if any close the run sent stated the cleanup
  as complete or not required, then when the run ends nothing exists under the launch key and
  nothing can appear there: no create request of the run can commit any more.
\<close>

theorem LocalCheck_states_cleanup:
  assumes "truthful rt b (launchKeyFor (in_OperationID inp)) pend obj due" and "pend (est w) = {}" "obj (est w) = {}"
    and "in_Close inp = None" "LocalCheck rt q b inp w = Some (err, w')"
    and "count_events claims_clean w' \<noteq> count_events claims_clean w"
  shows "pend (est w') = {} \<and> obj (est w') = {}"
  using assms by (rule LocalCheck_confirmed)

lemma shelf_creates: "creates_truthful shelf_runtime launch minute shelf_pend shelf_due"
  unfolding creates_truthful_def shelf_runtime_def
  by (auto simp: shelf_pend_def shelf_due_def unresolved_def decode_def split: if_splits)

lemma shelf_prepares:
  "rt_perform shelf_runtime c opts (PrepareLaunch inp) e = (Inr (RLaunch launch), e') \<Longrightarrow> lr_LaunchKey launch = pl_LaunchKey inp"
  by (auto simp: shelf_runtime_def)

lemma shelf_all_truthful: "truthful shelf_runtime example_bounds key shelf_pend shelf_objs shelf_due"
  using shelf_truthful shelf_creates shelf_prepares by (simp add: truthful_def example_bounds_def)

definition example_input :: input where
  "example_input = \<lparr>in_OperationID = ''op_1'', in_TenantID = ''t1'', in_Release = None, in_Settle = None, in_Close = None\<rparr>"

definition empty_shelf :: "shelf world" where
  "empty_shelf = \<lparr>est = \<lparr>s_pend = [], s_objs = [], s_clock = 0\<rparr>, trace = []\<rparr>"

lemmas cleanup_eval = cleanupRound_def cleanup_pass.simps lifetimeEnded_def acquire_evidence_def observeLaunch_def deleteJob_def
  after_delete_def recordObservation_def expiredBy_def settled_def delete_func_def Empty_def no_observation_def

text \<open>A run whose three create requests are all lost, and land during the cleanup.\<close>

lemma example_local_check:
  "\<exists>w'. LocalCheck shelf_runtime example_queues example_bounds example_input empty_shelf = Some (None, w') \<and>
     count_events claims_clean w' = 1"
  by (simp add: LocalCheck_def example_input_def empty_shelf_def local_body_def example_attempt_def local_launched_def
      local_finish_def local_cleanup_def closeOrContinue_def closeLaunchAttemptFrom_def closeAttemptFrom_def
      close_loop.simps close_waits_def settle_def cleanup_eval count_events_def local_carry_def close_input_def
      createJob_def create_loop.simps shelf_simps example_bounds_def empty_ledger_def issue_def create_input_def
      after_failure_def unanswered_def int32_of_def backoff_def Let_def)

theorem LocalCheck_states_cleanup_witness:
  "\<exists>w'. LocalCheck shelf_runtime example_queues example_bounds example_input empty_shelf = Some (None, w') \<and>
     shelf_pend (est w') = {} \<and> shelf_objs (est w') = {}"
proof -
  obtain w' where run: "LocalCheck shelf_runtime example_queues example_bounds example_input empty_shelf = Some (None, w')"
    and claimed: "count_events claims_clean w' = 1" using example_local_check by blast
  have "shelf_pend (est empty_shelf) = {}" "shelf_objs (est empty_shelf) = {}" "in_Close example_input = None"
    "count_events claims_clean w' \<noteq> count_events claims_clean empty_shelf"
    using claimed by (simp_all add: empty_shelf_def shelf_pend_def shelf_objs_def example_input_def count_events_def)
  from LocalCheck_states_cleanup [OF shelf_all_truthful this(1-3) run this(4)] run show ?thesis by blast
qed

lemma local_cleanup_runs:
  assumes "local_cleanup rt q b attempt st w = (cleanup, l1, w1)"
  shows "runs rt (cleanup_event Disconnected q b attempt (st_Launch st)) w w1"
proof (cases "st_Launched st")
  case True
  obtain ok l2 w2 where round: "cleanup_pass False rt Disconnected q b attempt (st_Launch st) (st_Creates st) w = (ok, l2, w2)"
    by (metis prod_cases3)
  then have "w1 = w2" using assms True by (simp add: local_cleanup_def cleanupRound_def)
  then show ?thesis using cleanup_pass_does [OF round] by blast
qed (use assms in \<open>simp add: local_cleanup_def\<close>)

lemma closes_mono: "runs rt P w w' \<Longrightarrow> closes w \<le> closes w'"
  by (drule runs_extends) (auto simp: extends_def closes_def)

lemma closeOrContinue_sent:
  assumes "closeOrContinue rt c q b operationID tenantID cc w = Some (err, w')"
  shows "closes w < closes w'"
proof -
  let ?inp = "carry_input cc"
  obtain err1 w1 where one: "close_loop rt c q b ?inp True (newPoller rt b (cc_Interval cc)) w = Some (err1, w1)"
    using assms by (auto simp: closeOrContinue_def closeLaunchAttemptFrom_def closeAttemptFrom_def carry_input_def
        split: option.splits)
  have "closes w1 \<le> closes w'"
  proof (cases "w' = w1")
    case False
    then obtain r where "restore_loop rt c q b ?inp (cc_Interval cc) True (now rt w1) (ReconcileInitialInterval b) err1 w1 = Some r"
      "snd r = w'"
      using assms one by (auto simp: closeOrContinue_def closeLaunchAttemptFrom_def closeAttemptFrom_def carry_input_def
          split: if_splits)
    from restore_loop_safe [OF this(1)] this(2) have "runs rt (close_event c q b ?inp) w1 w'" by simp
    then show ?thesis by (rule closes_mono)
  qed simp
  then show ?thesis using close_loop_sent [OF one] by simp
qed

text \<open>
  A LocalCheck run always ends, and never without closing what it opened: for every
  behaviour of the backend and of Control it returns on a clock that advances, and it has
  sent a close unless opening the attempt was all it did.
\<close>

theorem LocalCheck_returns:
  assumes "advancing rt" "rt_version rt pollChange = 1"
    and "0 < ReconcileInitialInterval b" "0 < ReconcileMaxInterval b"
  shows "\<exists>err w'. LocalCheck rt q b inp w = Some (err, w') \<and>
    (closes w < closes w' \<or> (\<exists>opts res. trace w' = Act RunCtx opts (OpenAttempt (open_input inp)) res # trace w))"
proof (cases "in_Close inp")
  case (Some cc)
  obtain r where "closeOnly rt q b inp cc w = Some r"
    using closeOrContinue_returns [OF assms] unfolding closeOnly_def by blast
  then show ?thesis using Some closeOrContinue_sent
    by (cases r) (auto simp: LocalCheck_def closeOnly_def)
next
  case none: None
  obtain res w1 where op: "get as_attempt (exec rt RunCtx (businessOptions q b) (OpenAttempt (open_input inp)) w) = (res, w1)"
    by fastforce
  show ?thesis
  proof (cases res)
    case (Inl err)
    then show ?thesis using none op trace_get_exec [OF op] by (auto simp: LocalCheck_def)
  next
    case (Inr attempt)
    obtain st w2 where body: "local_body rt q b (in_OperationID inp) attempt w1 = (st, w2)" by fastforce
    have m1: "closes w \<le> closes w2"
      using closes_mono [OF runs_one [OF op, of "\<lambda>e. True"]] closes_mono [OF local_body_runs [OF body]] by simp
    obtain cleanup l1 w3 where first: "local_cleanup rt q b attempt st w2 = (cleanup, l1, w3)" by (metis prod_cases3)
    have m2: "closes w2 \<le> closes w3"
      by (rule closes_mono [OF local_cleanup_runs [OF first]])
    obtain cerr w4 where cl: "closeOrContinue rt Disconnected q b (in_OperationID inp) (in_TenantID inp)
        (local_carry attempt st '':close'' cleanup) w3 = Some (cerr, w4)"
      using closeOrContinue_returns [OF assms] by fastforce
    note m3 = closeOrContinue_sent [OF cl]
    obtain ok l2 w5 where rec: "reconcileCleanup rt Disconnected q b attempt (st_Launch st) l1 w4 = Some (ok, l2, w5)"
      using reconcile_loop_returns [OF assms(1,4,3)] unfolding reconcileCleanup_def by (metis not_Some_eq prod_cases3)
    have m4: "closes w4 \<le> closes w5"
      using closes_mono [OF reconcile_loop_runs [OF rec [unfolded reconcileCleanup_def]]] by simp
    obtain cerr2 w6 where cl2: "closeOrContinue rt Disconnected q b (in_OperationID inp) (in_TenantID inp)
        (local_carry attempt st '':close:settled'' ''complete'') w5 = Some (cerr2, w6)"
      using closeOrContinue_returns [OF assms] by fastforce
    note m5 = closeOrContinue_sent [OF cl2]
    have "\<exists>err w'. LocalCheck rt q b inp w = Some (err, w') \<and> w' \<in> {w4, w5, w6}"
      using none op Inr body first cl rec cl2
      by (cases cerr) (simp_all add: LocalCheck_def local_finish_def)
    then show ?thesis using m1 m2 m3 m4 m5 by auto
  qed
qed

theorem LocalCheck_returns_witness:
  "\<exists>err w'. LocalCheck shelf_runtime example_queues example_bounds example_input empty_shelf = Some (err, w') \<and>
    (closes empty_shelf < closes w' \<or>
      (\<exists>opts res. trace w' = Act RunCtx opts (OpenAttempt (open_input example_input)) res # trace empty_shelf))"
  by (rule LocalCheck_returns [OF shelf_advancing]) (simp_all add: shelf_runtime_def example_bounds_def second_def minute_def)

section \<open>What a run accepts\<close>

fun verified_by :: "accept_result_input \<Rightarrow> event \<Rightarrow> bool" where
  "verified_by inp (Act _ _ (VerifyResult v) (Inr (RVerdict d))) \<longleftrightarrow> d = ac_Verdict inp \<and> vr_Attempt v = ac_Attempt inp"
| "verified_by inp _ \<longleftrightarrow> False"

text \<open>
  Of a trace, newest first: a result is accepted for the current instance only, and only with
  a verdict that was answered before to a verification of the same attempt.
\<close>

fun accepts_verified :: "event list \<Rightarrow> bool" where
  "accepts_verified [] \<longleftrightarrow> True"
| "accepts_verified (Act _ _ (AcceptResult inp) _ # es) \<longleftrightarrow>
     ir_Current (ac_Instance inp) \<and> list_ex (verified_by inp) es \<and> accepts_verified es"
| "accepts_verified (_ # es) \<longleftrightarrow> accepts_verified es"

lemma accepts_verified_other: "\<not> is_accept e \<Longrightarrow> accepts_verified (e # es) = accepts_verified es"
  by (cases "e # es" rule: accepts_verified.cases) auto

lemma accepts_verified_append: "list_all (\<lambda>e. \<not> is_accept e) new \<Longrightarrow> accepts_verified (new @ es) = accepts_verified es"
  by (induction new) (auto simp: accepts_verified_other)

definition accepting :: "nat \<Rightarrow> 'e world \<Rightarrow> 'e world \<Rightarrow> bool" where
  "accepting n w w' \<longleftrightarrow> (accepts_verified (trace w) \<longrightarrow> accepts_verified (trace w')) \<and>
     count_events is_accept w' \<le> count_events is_accept w + n"

lemma accepting_trans: "accepting n w w1 \<Longrightarrow> accepting m w1 w2 \<Longrightarrow> accepting (n + m) w w2"
  by (auto simp: accepting_def)

lemma runs_accepting:
  assumes "runs rt P w w'" "\<And>e. P e \<Longrightarrow> \<not> is_accept e"
  shows "accepting 0 w w'"
proof -
  have "runs rt (\<lambda>e. \<not> is_accept e) w w'" by (rule runs_mono [OF assms])
  from runs_extends [OF this] obtain new where "trace w' = new @ trace w" "list_all (\<lambda>e. \<not> is_accept e) new"
    by (auto simp: extends_def)
  then show ?thesis using count_events_none [OF assms]
    by (simp add: accepting_def accepts_verified_append)
qed

lemma close_event_not_accept: "close_event c q b inp e \<Longrightarrow> \<not> is_accept e"
  by (auto elim: is_accept.elims)

lemma cleanup_event_not_accept: "cleanup_event c q b attempt launch e \<Longrightarrow> \<not> is_accept e"
  by (auto elim: is_accept.elims)

lemma round_event_not_accept: "round_event c q b attempt launch e \<Longrightarrow> \<not> is_accept e"
  by (cases e) (auto elim: is_accept.elims)

lemma create_event_not_accept: "create_event c opts e \<Longrightarrow> \<not> is_accept e"
  by (auto elim: is_accept.elims)

lemma local_accept_accepting:
  assumes "local_accept rt q b attempt launch obs current w = (r, w')" "ir_Current current"
  shows "accepting 1 w w'"
proof -
  obtain res w1 where one: "get as_verdict (exec rt RunCtx (businessOptions q b) (VerifyResult
      \<lparr>vr_Launch = launch, vr_Attempt = attempt, vr_ProfileID = profileID, vr_Observation = obs,
       vr_CompletedAt = now rt w\<rparr>) w) = (res, w1)" by fastforce
  have a1: "accepting 0 w w1" by (rule runs_accepting [OF runs_one [OF one, of "\<lambda>e. \<not> is_accept e"]]) auto
  show ?thesis
  proof (cases res)
    case (Inl err)
    then show ?thesis using assms(1) one a1 by (auto simp: local_accept_def accepting_def)
  next
    case (Inr verdict)
    obtain res2 w2 where two: "get as_stage (exec rt RunCtx (businessOptions q b) (AcceptResult
        \<lparr>ac_Attempt = attempt, ac_Instance = current, ac_CommandID = ar_AttemptID attempt @ '':accept'',
         ac_ProfileID = profileID, ac_Verdict = verdict\<rparr>) w1) = (res2, w2)" by fastforce
    have "w' = w2" using assms(1) one two Inr by (auto simp: local_accept_def Let_def split: sum.splits)
    moreover have "accepting 1 w w2"
      using a1 trace_get_exec [OF one] trace_get_exec [OF two] Inr assms(2)
      by (auto simp: accepting_def count_events_def decode_Inr dest: sym [of "Inr verdict"])
    ultimately show ?thesis by simp
  qed
qed

lemma local_observed_accepting:
  assumes "local_observed rt q b attempt launch obs w = (r, w')"
  shows "accepting 1 w w'"
proof -
  obtain res w1 where reg: "register_current rt q b attempt launch (jo_JobUID obs) 0 (jo_Pods obs) no_instance w = (res, w1)"
    by fastforce
  have a1: "accepting 0 w w1" by (rule runs_accepting [OF register_current_runs [OF reg]]) simp
  show ?thesis using assms reg a1 accepting_trans [OF a1 local_accept_accepting]
    by (auto simp: local_observed_def accepting_def split: sum.splits if_splits)
qed

lemma local_launched_accepting:
  assumes "local_launched rt q b attempt launch deadline w = (st, w')"
  shows "accepting 1 w w'"
proof -
  obtain res l1 w1 where cr: "createJob rt RunCtx q b local_spec launch deadline empty_ledger w = (res, l1, w1)"
    by (metis prod_cases3)
  have a1: "accepting 0 w w1" using createJob_runs [OF cr] create_event_not_accept by (rule runs_accepting)
  have "accepting 1 w1 w'"
  proof (cases res)
    case (Inl err)
    then show ?thesis using assms cr by (auto simp: local_launched_def Let_def accepting_def)
  next
    case (Inr job)
    obtain res2 w2 where ob: "get as_job_observation (exec rt RunCtx (observeOptions q b (observe_timeout deadline (now rt w1)))
        (ObserveJob \<lparr>oj_Launch = launch, oj_Deadline = deadline\<rparr>) w1) = (res2, w2)" by fastforce
    have a2: "accepting 0 w1 w2" by (rule runs_accepting [OF runs_one [OF ob, of "\<lambda>e. \<not> is_accept e"]]) auto
    show ?thesis
    proof (cases res2)
      case (Inl err)
      then show ?thesis using assms cr ob Inr a2 by (auto simp: local_launched_def accepting_def)
    next
      case obs: (Inr obs)
      obtain r w3 where "local_observed rt q b attempt launch obs w2 = (r, w3)" by fastforce
      then show ?thesis using assms cr ob Inr obs accepting_trans [OF a2 local_observed_accepting]
        by (auto simp: local_launched_def)
    qed
  qed
  then show ?thesis using accepting_trans [OF a1] by fastforce
qed

lemma local_body_accepting:
  assumes "local_body rt q b operationID attempt w = (st, w')"
  shows "accepting 1 w w'"
proof -
  obtain res w1 where pl: "get as_launch (exec rt RunCtx (businessOptions q b) (PrepareLaunch
      \<lparr>pl_Attempt = attempt, pl_CommandID = ar_AttemptID attempt @ '':launch'',
       pl_LaunchKey = launchKeyFor operationID, pl_Deadline = launch_deadline b attempt (now rt w)\<rparr>) w) = (res, w1)" by fastforce
  have a1: "accepting 0 w w1" by (rule runs_accepting [OF runs_one [OF pl, of "\<lambda>e. \<not> is_accept e"]]) auto
  show ?thesis using assms pl a1 accepting_trans [OF a1 local_launched_accepting]
    by (auto simp: local_body_def Let_def accepting_def split: if_splits sum.splits)
qed

lemma closeOrContinue_accepting:
  "closeOrContinue rt c q b operationID tenantID cc w = Some (err, w') \<Longrightarrow> accepting 0 w w'"
  using closeOrContinue_safe(1) close_event_not_accept by (rule runs_accepting)

lemma local_finish_accepting:
  assumes "local_finish rt q b inp attempt st w = Some (err, w')"
  shows "accepting 0 w w'"
proof -
  obtain cleanup l1 w1 where first: "local_cleanup rt q b attempt st w = (cleanup, l1, w1)" by (metis prod_cases3)
  have a1: "accepting 0 w w1"
    using local_cleanup_runs [OF first] cleanup_event_not_accept by (rule runs_accepting)
  obtain cerr w2 where cl: "closeOrContinue rt Disconnected q b (in_OperationID inp) (in_TenantID inp)
      (local_carry attempt st '':close'' cleanup) w1 = Some (cerr, w2)"
    using assms first by (auto simp: local_finish_def split: option.splits)
  note a2 = accepting_trans [OF a1 closeOrContinue_accepting [OF cl]]
  show ?thesis
  proof (cases "w' = w2")
    case False
    then obtain ok l2 w3 where rec: "reconcileCleanup rt Disconnected q b attempt (st_Launch st) l1 w2 = Some (ok, l2, w3)"
      and rest: "w' = w3 \<or> closeOrContinue rt Disconnected q b (in_OperationID inp) (in_TenantID inp)
            (local_carry attempt st '':close:settled'' ''complete'') w3 = Some (err, w')"
      using assms first cl by (auto simp: local_finish_def split: option.splits if_splits)
    have "accepting 0 w2 w3"
      using reconcile_loop_runs [OF rec [unfolded reconcileCleanup_def]] round_event_not_accept by (auto intro: runs_accepting)
    from accepting_trans [OF a2 this] rest show ?thesis
      using accepting_trans closeOrContinue_accepting by fastforce
  qed (use a2 in simp)
qed

lemma LocalCheck_accepting:
  assumes "LocalCheck rt q b inp w = Some (err, w')"
  shows "accepting 1 w w'"
proof (cases "in_Close inp")
  case (Some cc)
  then have "accepting 0 w w'"
    using assms closeOrContinue_accepting by (auto simp: LocalCheck_def closeOnly_def)
  then show ?thesis by (simp add: accepting_def)
next
  case None
  obtain res w1 where op: "get as_attempt (exec rt RunCtx (businessOptions q b) (OpenAttempt (open_input inp)) w) = (res, w1)"
    by fastforce
  have a1: "accepting 0 w w1" by (rule runs_accepting [OF runs_one [OF op, of "\<lambda>e. \<not> is_accept e"]]) auto
  show ?thesis
  proof (cases res)
    case (Inl err)
    then show ?thesis using assms None op a1 by (auto simp: LocalCheck_def accepting_def)
  next
    case (Inr attempt)
    obtain st w2 where body: "local_body rt q b (in_OperationID inp) attempt w1 = (st, w2)" by fastforce
    have "local_finish rt q b inp attempt st w2 = Some (err, w')"
      using assms None op Inr body by (simp add: LocalCheck_def)
    from accepting_trans [OF accepting_trans [OF a1 local_body_accepting [OF body]] local_finish_accepting [OF this]]
    show ?thesis by simp
  qed
qed

lemma LocalCheck_accepts:
  "LocalCheck rt q b inp w = Some (err, w') \<Longrightarrow> trace w = [] \<Longrightarrow> accepts_verified (trace w') \<and> count_events is_accept w' \<le> 1"
  using LocalCheck_accepting [of rt q b inp w err w'] by (simp add: accepting_def count_events_def)

text \<open>
  C33. A LocalCheck run accepts at most one result, for the current instance of its own
  attempt only, and only with the verdict a verification of that attempt answered before.
\<close>

theorem LocalCheck_accepts_once:
  assumes "LocalCheck rt q b inp w = Some (err, w')" "trace w = []"
  shows "accepts_verified (trace w') \<and> count_events is_accept w' \<le> 1"
  using LocalCheck_accepts assms by blast

theorem LocalCheck_accepts_once_witness:
  "\<exists>w'. LocalCheck shelf_runtime example_queues example_bounds example_input empty_shelf = Some (None, w') \<and>
     accepts_verified (trace w') \<and> count_events is_accept w' \<le> 1"
proof -
  obtain w' where run: "LocalCheck shelf_runtime example_queues example_bounds example_input empty_shelf = Some (None, w')"
    using example_local_check by blast
  have "trace empty_shelf = []" by (simp add: empty_shelf_def)
  from LocalCheck_accepts_once [OF run this] run show ?thesis by blast
qed

end
