(* ===== verification/Template.thy ===== *)
theory Template
  imports Types
begin

text \<open>
  The fixed Job templates of the launcher (\<^verbatim>\<open>internal/adapters/kubernetes/template.go\<close>
  and \<open>jobSpec\<close> of \<^verbatim>\<open>launcher.go\<close>): what a create request may put on the cluster.
  The contracts package (the reviewed profiles, the envelope schema) is the parameter
  \<open>contract\<close>; a rendering that the source refuses with an error is \<open>None\<close>. Resource
  quantities stay the strings the profile names.
\<close>

section \<open>Profiles, options and the contracts package\<close>

record image =
  im_Repository :: string
  im_Digest :: string

datatype profile_state = StateEnabled | StateDevelopment | StateDisabled | StateOther string

record profile =
  pf_ProfileID :: string
  pf_State :: profile_state
  pf_Revision :: string
  pf_Image :: image
  pf_SidecarImage :: "image option"
  pf_CandidateCode :: bool
  pf_BindsSource :: bool
  pf_JobKind :: string
  pf_Entrypoint :: "string list"
  pf_CPU :: string
  pf_Memory :: string
  pf_RuntimeClass :: string
  pf_DeadlineSeconds :: int

record options =
  op_Backend :: string
  op_ImageRegistry :: string
  op_EnabledProfiles :: "string list"
  op_SidecarControlAddress :: string
  op_SidecarIdentityMode :: string
  op_SidecarIdentitySecret :: string
  op_SidecarModelProxyURL :: string
  op_SidecarMCPAddress :: string
  op_SidecarKnowledgeAddress :: string
  op_CandidateSeccompProfile :: string
  op_Development :: bool
  op_ObserveInterval :: duration

text \<open>The typed launch envelope; \<open>ct_Marshal\<close> is its JSON.\<close>

record envelope =
  en_SchemaVersion :: int
  en_LaunchID :: string
  en_LaunchKey :: string
  en_OperationID :: string
  en_AttemptID :: string
  en_ProfileID :: string
  en_ProfileRevision :: string
  en_JobKind :: string
  en_ExecutionEpoch :: string
  en_LaunchEpoch :: string
  en_Deadline :: time
  en_Inputs :: "(string \<times> string) list list"
  en_Component :: "(string \<times> string) list option"

record contract =
  ct_ProfileByID :: "string \<Rightarrow> profile option"
  ct_SourceInput :: string
  ct_Marshal :: "envelope \<Rightarrow> string"
  ct_ValidateLaunchEnvelope :: "string \<Rightarrow> bool"

definition enabled :: "options \<Rightarrow> string \<Rightarrow> bool" where
  "enabled opts profileID \<longleftrightarrow> profileID \<in> set (op_EnabledProfiles opts)"

section \<open>Patterns\<close>

definition between :: "char \<Rightarrow> nat \<Rightarrow> nat \<Rightarrow> bool" where
  "between ch lo hi \<longleftrightarrow> lo \<le> (of_char ch :: nat) \<and> (of_char ch :: nat) \<le> hi"

definition is_lower :: "char \<Rightarrow> bool" where "is_lower ch \<longleftrightarrow> between ch 97 122"
definition is_upper :: "char \<Rightarrow> bool" where "is_upper ch \<longleftrightarrow> between ch 65 90"
definition is_digit :: "char \<Rightarrow> bool" where "is_digit ch \<longleftrightarrow> between ch 48 57"
definition is_alnum :: "char \<Rightarrow> bool" where "is_alnum ch \<longleftrightarrow> is_lower ch \<or> is_upper ch \<or> is_digit ch"

definition digestPattern :: "string \<Rightarrow> bool" where
  "digestPattern s \<longleftrightarrow> take 7 s = ''sha256:'' \<and> length s = 71 \<and>
     list_all (\<lambda>ch. is_digit ch \<or> between ch 97 102) (drop 7 s)"

definition inputNamePattern :: "string \<Rightarrow> bool" where
  "inputNamePattern s \<longleftrightarrow> s \<noteq> [] \<and> length s \<le> 64 \<and> is_lower (hd s) \<and>
     list_all (\<lambda>ch. is_lower ch \<or> is_digit ch \<or> ch = CHR ''-'') (tl s)"

definition sequencePattern :: "string \<Rightarrow> bool" where
  "sequencePattern s \<longleftrightarrow> s = ''0'' \<or>
     s \<noteq> [] \<and> length s \<le> 20 \<and> is_digit (hd s) \<and> hd s \<noteq> CHR ''0'' \<and> list_all is_digit (tl s)"

definition componentPattern :: "string \<Rightarrow> bool" where
  "componentPattern s \<longleftrightarrow> s \<noteq> [] \<and> length s \<le> 128 \<and> is_alnum (hd s) \<and>
     list_all (\<lambda>ch. is_alnum ch \<or> ch \<in> set ''._:-'') (tl s)"

definition puckTypePattern :: "string \<Rightarrow> bool" where
  "puckTypePattern s \<longleftrightarrow> s \<noteq> [] \<and> length s \<le> 64 \<and> is_upper (hd s) \<and> list_all is_alnum (tl s)"

section \<open>Images\<close>

definition trim_suffix :: "string \<Rightarrow> string \<Rightarrow> string" where
  "trim_suffix s suf = (if length suf \<le> length s \<and> drop (length s - length suf) s = suf
     then take (length s - length suf) s else s)"

definition names_registry :: "string \<Rightarrow> bool" where
  "names_registry repository \<longleftrightarrow>
     (let first = takeWhile (\<lambda>ch. ch \<noteq> CHR ''/'') repository in
      list_ex (\<lambda>ch. ch = CHR ''.'' \<or> ch = CHR '':'') first \<or> first = ''localhost'')"

definition imageRef :: "options \<Rightarrow> string \<Rightarrow> string \<Rightarrow> string option" where
  "imageRef opts repository digest =
     (if names_registry repository then Some (repository @ ''@'' @ digest)
      else if op_ImageRegistry opts = '''' then None
      else Some (trim_suffix (op_ImageRegistry opts) ''/'' @ ''/'' @ repository @ ''@'' @ digest))"

section \<open>The launch envelope\<close>

text \<open>The inputs in order; a name may appear once (\<open>seen\<close>).\<close>

fun envelope_inputs :: "launch_input list \<Rightarrow> string list \<Rightarrow> ((string \<times> string) list list \<times> string list) option" where
  "envelope_inputs [] seen = Some ([], seen)"
| "envelope_inputs (i # is) seen =
     (if \<not> inputNamePattern (li_Name i) \<or> \<not> digestPattern (li_Digest i) \<or> li_Name i \<in> set seen \<or> length (li_Handle i) > 256
      then None
      else map_option (apfst (Cons ([(''name'', li_Name i), (''digest'', li_Digest i)] @
               (if li_Handle i \<noteq> '''' then [(''handle'', li_Handle i)] else []))))
             (envelope_inputs is (li_Name i # seen)))"

definition envelope_component :: "component_identity option \<Rightarrow> (string \<times> string) list option option" where
  "envelope_component ident =
     (case ident of
        None \<Rightarrow> Some None
      | Some c \<Rightarrow>
          (let named = length (filter (\<lambda>v. v \<noteq> '''') [ci_ComponentID c, ci_PuckType c, ci_PackageName c]) in
           if \<not> sequencePattern (ci_SourceRevision c) \<or> named \<noteq> 0 \<and> named \<noteq> 3 \<or>
              named = 3 \<and> (\<not> componentPattern (ci_ComponentID c) \<or> \<not> puckTypePattern (ci_PuckType c) \<or> length (ci_PackageName c) > 214)
           then None
           else Some (Some ([(''sourceRevision'', ci_SourceRevision c)] @
             (if named = 3 then [(''componentId'', ci_ComponentID c), (''puckType'', ci_PuckType c), (''packageName'', ci_PackageName c)]
              else [])))))"

definition launchEnvelopeSchema :: int where
  "launchEnvelopeSchema = 1"

definition binds_source :: "contract \<Rightarrow> create_job_input \<Rightarrow> profile \<Rightarrow> string list \<Rightarrow> bool" where
  "binds_source ct inp p seen \<longleftrightarrow>
     \<not> (ct_SourceInput ct \<in> set seen \<and> \<not> pf_BindsSource p) \<and>
     (pf_BindsSource p \<longrightarrow>
        \<not> (\<not> (\<exists>i \<in> set (cj_Inputs inp). li_Name i = ct_SourceInput ct \<and> li_Handle i \<noteq> '''') \<and> pf_JobKind p = ''validator'') \<and>
        \<not> (pf_JobKind p = ''validator'' \<and>
            (case cj_Component inp of None \<Rightarrow> True | Some c \<Rightarrow> ci_SourceRevision c = '''')))"

definition launchEnvelope :: "contract \<Rightarrow> create_job_input \<Rightarrow> profile \<Rightarrow> string option" where
  "launchEnvelope ct inp p =
     (if cj_OperationID inp = '''' \<or> cj_ExecutionEpoch inp = '''' \<or> cj_LaunchEpoch inp = '''' then None
      else if \<not> (sequencePattern (cj_ExecutionEpoch inp) \<and> sequencePattern (cj_LaunchEpoch inp) \<and> sequencePattern (pf_Revision p)) then None
      else case envelope_inputs (cj_Inputs inp) [] of
          None \<Rightarrow> None
        | Some (inputs, seen) \<Rightarrow>
            if \<not> binds_source ct inp p seen then None
            else case envelope_component (cj_Component inp) of
                None \<Rightarrow> None
              | Some component \<Rightarrow>
                  (let raw = ct_Marshal ct \<lparr>en_SchemaVersion = launchEnvelopeSchema, en_LaunchID = lr_LaunchID (cj_Launch inp),
                         en_LaunchKey = lr_LaunchKey (cj_Launch inp), en_OperationID = cj_OperationID inp,
                         en_AttemptID = lr_AttemptID (cj_Launch inp), en_ProfileID = pf_ProfileID p,
                         en_ProfileRevision = pf_Revision p, en_JobKind = pf_JobKind p,
                         en_ExecutionEpoch = cj_ExecutionEpoch inp, en_LaunchEpoch = cj_LaunchEpoch inp,
                         en_Deadline = cj_Deadline inp, en_Inputs = inputs, en_Component = component\<rparr>
                   in if ct_ValidateLaunchEnvelope ct raw then Some raw else None))"

section \<open>Pod layouts\<close>

datatype env_source =
    Literal string
  | SecretKey string string
  | FieldPath string

record env_var =
  ev_Name :: string
  ev_Source :: env_source

datatype seccomp = RuntimeDefault | Localhost string

record security =
  sx_RunAsUser :: "int option"
  sx_RunAsGroup :: "int option"
  sx_RunAsNonRoot :: "bool option"
  sx_Privileged :: "bool option"
  sx_AllowPrivilegeEscalation :: "bool option"
  sx_ReadOnlyRootFilesystem :: "bool option"
  sx_Drop :: "string list"
  sx_Add :: "string list"
  sx_Seccomp :: seccomp

record volume_mount =
  vm_Name :: string
  vm_Path :: string
  vm_ReadOnly :: bool

record container =
  kc_Name :: string
  kc_Image :: string
  kc_Command :: "string list"
  kc_RestartAlways :: bool
  kc_Env :: "env_var list"
  kc_CPU :: string
  kc_Memory :: string
  kc_Mounts :: "volume_mount list"
  kc_Security :: security

datatype volume_source =
    EmptyDir "string option"
  | SecretVolume string int

record volume =
  vo_Name :: string
  vo_Source :: volume_source

record pod_spec =
  ps_RestartPolicy :: string
  ps_AutomountServiceAccountToken :: "bool option"
  ps_EnableServiceLinks :: "bool option"
  ps_HostNetwork :: bool
  ps_HostPID :: bool
  ps_HostIPC :: bool
  ps_ShareProcessNamespace :: "bool option"
  ps_NodeSelector :: "(string \<times> string) list"
  ps_SupplementalGroups :: "int list"
  ps_InitContainers :: "container list"
  ps_Containers :: "container list"
  ps_Volumes :: "volume list"
  ps_RuntimeClassName :: "string option"

definition lit :: "string \<Rightarrow> string \<Rightarrow> env_var" where
  "lit name v = \<lparr>ev_Name = name, ev_Source = Literal v\<rparr>"

definition launchSecretKey :: string where "launchSecretKey = ''launch-secret''"
definition containerSupervisor :: string where "containerSupervisor = ''supervisor''"
definition containerSidecar :: string where "containerSidecar = ''access-sidecar''"
definition containerFixture :: string where "containerFixture = ''fixture''"
definition candidateUID :: int where "candidateUID = 10001"
definition sidecarUID :: int where "sidecarUID = 10002"

definition launchSecretRef :: "string \<Rightarrow> env_source" where
  "launchSecretRef launchKey = SecretKey launchKey launchSecretKey"

definition supervisor_container :: "options \<Rightarrow> create_job_input \<Rightarrow> profile \<Rightarrow> string \<Rightarrow> string \<Rightarrow> container" where
  "supervisor_container opts inp p img envelope =
     \<lparr>kc_Name = containerSupervisor, kc_Image = img, kc_Command = pf_Entrypoint p, kc_RestartAlways = False,
      kc_Env = [lit ''ANVILKIT_LAUNCH_ID'' (lr_LaunchID (cj_Launch inp)), lit ''ANVILKIT_ATTEMPT_ID'' (lr_AttemptID (cj_Launch inp)),
        lit ''ANVILKIT_LAUNCH_ENVELOPE'' envelope,
        \<lparr>ev_Name = ''ANVILKIT_LAUNCH_SECRET'', ev_Source = launchSecretRef (lr_LaunchKey (cj_Launch inp))\<rparr>],
      kc_CPU = pf_CPU p, kc_Memory = pf_Memory p,
      kc_Mounts = [\<lparr>vm_Name = ''workspace'', vm_Path = ''/workspace'', vm_ReadOnly = False\<rparr>,
        \<lparr>vm_Name = ''verdict'', vm_Path = ''/anvilkit/verdict'', vm_ReadOnly = False\<rparr>],
      kc_Security = \<lparr>sx_RunAsUser = Some 0, sx_RunAsGroup = Some 0, sx_RunAsNonRoot = Some False, sx_Privileged = Some False,
        sx_AllowPrivilegeEscalation = Some False, sx_ReadOnlyRootFilesystem = Some True, sx_Drop = [''ALL''],
        sx_Add = [''SETUID'', ''SETGID'', ''SETPCAP''], sx_Seccomp = Localhost (op_CandidateSeccompProfile opts)\<rparr>\<rparr>"

text \<open>The relay placements and the identity mount are added under identity mode mtls only.\<close>

definition relay_env :: "options \<Rightarrow> env_var list" where
  "relay_env opts = filter (\<lambda>e. ev_Source e \<noteq> Literal '''')
     [lit ''ANVILKIT_SIDECAR_MODEL_PROXY_URL'' (op_SidecarModelProxyURL opts),
      lit ''ANVILKIT_SIDECAR_MCP_ADDRESS'' (op_SidecarMCPAddress opts),
      lit ''ANVILKIT_SIDECAR_KNOWLEDGE_ADDRESS'' (op_SidecarKnowledgeAddress opts)]"

definition sidecar_container :: "options \<Rightarrow> create_job_input \<Rightarrow> string \<Rightarrow> string \<Rightarrow> container" where
  "sidecar_container opts inp img envelope =
     \<lparr>kc_Name = containerSidecar, kc_Image = img, kc_Command = [], kc_RestartAlways = True,
      kc_Env = [lit ''ANVILKIT_SIDECAR_CONTROL_ADDRESS'' (op_SidecarControlAddress opts),
        lit ''ANVILKIT_SIDECAR_IDENTITY_MODE'' (op_SidecarIdentityMode opts), lit ''ANVILKIT_SIDECAR_BACKEND'' (op_Backend opts),
        lit ''ANVILKIT_SIDECAR_LAUNCH_KEY'' (lr_LaunchKey (cj_Launch inp)),
        \<lparr>ev_Name = ''ANVILKIT_SIDECAR_POD_UID'', ev_Source = FieldPath ''metadata.uid''\<rparr>,
        lit ''ANVILKIT_SIDECAR_LAUNCH_ENVELOPE'' envelope,
        \<lparr>ev_Name = ''ANVILKIT_SIDECAR_LAUNCH_SECRET'', ev_Source = launchSecretRef (lr_LaunchKey (cj_Launch inp))\<rparr>] @
        (if op_SidecarIdentityMode opts = ''mtls'' then relay_env opts else []),
      kc_CPU = ''100m'', kc_Memory = ''64Mi'',
      kc_Mounts = (if op_SidecarIdentityMode opts = ''mtls''
        then [\<lparr>vm_Name = ''identity'', vm_Path = ''/etc/anvilkit/identity'', vm_ReadOnly = True\<rparr>] else []),
      kc_Security = \<lparr>sx_RunAsUser = Some sidecarUID, sx_RunAsGroup = Some sidecarUID, sx_RunAsNonRoot = Some True,
        sx_Privileged = Some False, sx_AllowPrivilegeEscalation = Some False, sx_ReadOnlyRootFilesystem = Some True,
        sx_Drop = [''ALL''], sx_Add = [], sx_Seccomp = RuntimeDefault\<rparr>\<rparr>"

definition harnessPodSpec :: "options \<Rightarrow> create_job_input \<Rightarrow> profile \<Rightarrow> image \<Rightarrow> string \<Rightarrow> pod_spec option" where
  "harnessPodSpec opts inp p sidecar envelope =
     (case imageRef opts (im_Repository (pf_Image p)) (im_Digest (pf_Image p)) of
        None \<Rightarrow> None
      | Some img \<Rightarrow>
          (case imageRef opts (im_Repository sidecar) (im_Digest sidecar) of
             None \<Rightarrow> None
           | Some sidecarImage \<Rightarrow>
               if op_SidecarIdentityMode opts = '''' \<or> op_SidecarIdentityMode opts = ''disabled'' then None
               else if op_SidecarControlAddress opts = '''' \<or> op_Backend opts = '''' then None
               else if op_SidecarIdentityMode opts = ''mtls'' \<and> op_SidecarIdentitySecret opts = '''' then None
               else if op_CandidateSeccompProfile opts = '''' then None
               else Some
                 \<lparr>ps_RestartPolicy = ''Never'', ps_AutomountServiceAccountToken = Some False, ps_EnableServiceLinks = Some False,
                  ps_HostNetwork = False, ps_HostPID = False, ps_HostIPC = False, ps_ShareProcessNamespace = Some False,
                  ps_NodeSelector = [(''anvilkit.io/pool'', ''components'')], ps_SupplementalGroups = [0, candidateUID],
                  ps_InitContainers = [sidecar_container opts inp sidecarImage envelope],
                  ps_Containers = [supervisor_container opts inp p img envelope],
                  ps_Volumes = [\<lparr>vo_Name = ''workspace'', vo_Source = EmptyDir (Some ''1Gi'')\<rparr>,
                    \<lparr>vo_Name = ''verdict'', vo_Source = EmptyDir (Some ''256Mi'')\<rparr>] @
                    (if op_SidecarIdentityMode opts = ''mtls''
                     then [\<lparr>vo_Name = ''identity'', vo_Source = SecretVolume (op_SidecarIdentitySecret opts) 288\<rparr>] else []),
                  ps_RuntimeClassName = (if pf_RuntimeClass p \<noteq> '''' then Some (pf_RuntimeClass p) else None)\<rparr>))"

definition fixturePodSpec :: "options \<Rightarrow> create_job_input \<Rightarrow> profile \<Rightarrow> pod_spec option" where
  "fixturePodSpec opts inp p =
     (case imageRef opts (im_Repository (pf_Image p)) (im_Digest (pf_Image p)) of
        None \<Rightarrow> None
      | Some img \<Rightarrow> Some
          \<lparr>ps_RestartPolicy = ''Never'', ps_AutomountServiceAccountToken = Some False, ps_EnableServiceLinks = Some False,
           ps_HostNetwork = False, ps_HostPID = False, ps_HostIPC = False, ps_ShareProcessNamespace = None,
           ps_NodeSelector = [], ps_SupplementalGroups = [], ps_InitContainers = [],
           ps_Containers = [\<lparr>kc_Name = containerFixture, kc_Image = img, kc_Command = pf_Entrypoint p, kc_RestartAlways = False,
             kc_Env = [lit ''ANVILKIT_LAUNCH_ID'' (lr_LaunchID (cj_Launch inp)), lit ''ANVILKIT_ATTEMPT_ID'' (lr_AttemptID (cj_Launch inp))],
             kc_CPU = pf_CPU p, kc_Memory = pf_Memory p, kc_Mounts = [],
             kc_Security = \<lparr>sx_RunAsUser = None, sx_RunAsGroup = None, sx_RunAsNonRoot = None, sx_Privileged = None,
               sx_AllowPrivilegeEscalation = Some False, sx_ReadOnlyRootFilesystem = Some True, sx_Drop = [''ALL''],
               sx_Add = [], sx_Seccomp = RuntimeDefault\<rparr>\<rparr>],
           ps_Volumes = [],
           ps_RuntimeClassName = (if pf_RuntimeClass p \<noteq> '''' then Some (pf_RuntimeClass p) else None)\<rparr>)"

section \<open>The Job\<close>

text \<open>Whole seconds; a remaining time below a second counts as one.\<close>

definition remainingDeadline :: "create_job_input \<Rightarrow> profile \<Rightarrow> time \<Rightarrow> int" where
  "remainingDeadline inp p at =
     (let remaining = (cj_Deadline inp - at) div second;
          remaining = (if remaining < 1 then 1 else remaining)
      in if pf_DeadlineSeconds p < remaining then pf_DeadlineSeconds p else remaining)"

record job_manifest =
  jm_Name :: string
  jm_Labels :: "(string \<times> string) list"
  jm_Annotations :: "(string \<times> string) list"
  jm_Completions :: int
  jm_Parallelism :: int
  jm_BackoffLimit :: int
  jm_ActiveDeadlineSeconds :: int
  jm_Pod :: pod_spec

definition labelLaunchKey :: string where "labelLaunchKey = ''anvilkit.io/launch-key''"
definition labelAttempt :: string where "labelAttempt = ''anvilkit.io/attempt-id''"
definition labelProfile :: string where "labelProfile = ''anvilkit.io/profile-id''"
definition labelCandidateCode :: string where "labelCandidateCode = ''anvilkit.io/candidate-code''"
definition annotationRequest :: string where "annotationRequest = ''anvilkit.io/create-request''"

definition request_annotations :: "int \<Rightarrow> (string \<times> string) list" where
  "request_annotations request = (if request > 0 then [(annotationRequest, show_nat (nat request))] else [])"

definition jobSpec :: "contract \<Rightarrow> options \<Rightarrow> create_job_input \<Rightarrow> profile \<Rightarrow> time \<Rightarrow> job_manifest option" where
  "jobSpec ct opts inp p at =
     (case (case pf_SidecarImage p of
          Some sidecar \<Rightarrow>
            (case launchEnvelope ct inp p of
               None \<Rightarrow> None
             | Some envelope \<Rightarrow> harnessPodSpec opts inp p sidecar envelope)
        | None \<Rightarrow> if pf_CandidateCode p then None else fixturePodSpec opts inp p) of
        None \<Rightarrow> None
      | Some podSpec \<Rightarrow> Some
          \<lparr>jm_Name = lr_LaunchKey (cj_Launch inp),
           jm_Labels = [(labelLaunchKey, lr_LaunchKey (cj_Launch inp)), (labelAttempt, lr_AttemptID (cj_Launch inp)),
             (labelProfile, pf_ProfileID p), (labelCandidateCode, if pf_CandidateCode p then ''true'' else ''false'')],
           jm_Annotations = request_annotations (cj_Request inp),
           jm_Completions = 1, jm_Parallelism = 1, jm_BackoffLimit = 0,
           jm_ActiveDeadlineSeconds = remainingDeadline inp p at, jm_Pod = podSpec\<rparr>)"

section \<open>What a template may contain\<close>

definition restricted_security :: "security \<Rightarrow> bool" where
  "restricted_security s \<longleftrightarrow> sx_Privileged s \<noteq> Some True \<and> sx_AllowPrivilegeEscalation s = Some False \<and>
     sx_ReadOnlyRootFilesystem s = Some True \<and> sx_Drop s = [''ALL''] \<and>
     set (sx_Add s) \<subseteq> {''SETUID'', ''SETGID'', ''SETPCAP''}"

text \<open>The launch secret reaches a container only by reference to the launch's own Secret.\<close>

definition secret_by_reference :: "string \<Rightarrow> env_var \<Rightarrow> bool" where
  "secret_by_reference launchKey e \<longleftrightarrow>
     (if ev_Name e = ''ANVILKIT_LAUNCH_SECRET'' \<or> ev_Name e = ''ANVILKIT_SIDECAR_LAUNCH_SECRET''
      then ev_Source e = SecretKey launchKey launchSecretKey
      else case ev_Source e of SecretKey _ _ \<Rightarrow> False | _ \<Rightarrow> True)"

text \<open>A mounted Secret is the sidecar's identity, read-only and in the sidecar alone.\<close>

definition secret_mounts :: "options \<Rightarrow> pod_spec \<Rightarrow> bool" where
  "secret_mounts opts s \<longleftrightarrow>
     list_all (\<lambda>v. case vo_Source v of
         EmptyDir _ \<Rightarrow> True
       | SecretVolume name mode \<Rightarrow> name = op_SidecarIdentitySecret opts \<and> op_SidecarIdentityMode opts = ''mtls'' \<and>
           list_all (\<lambda>k. list_all (\<lambda>m. vm_Name m = vo_Name v \<longrightarrow> kc_Name k = containerSidecar \<and> vm_ReadOnly m) (kc_Mounts k))
             (ps_InitContainers s @ ps_Containers s))
       (ps_Volumes s)"

definition pinned_image :: "string list \<Rightarrow> string \<Rightarrow> bool" where
  "pinned_image digests img \<longleftrightarrow> list_ex (\<lambda>d. \<exists>n \<le> length img. drop n img = ''@'' @ d) digests"

definition restricted_pod :: "options \<Rightarrow> string \<Rightarrow> string list \<Rightarrow> pod_spec \<Rightarrow> bool" where
  "restricted_pod opts launchKey digests s \<longleftrightarrow>
     ps_RestartPolicy s = ''Never'' \<and> ps_AutomountServiceAccountToken s = Some False \<and>
     ps_EnableServiceLinks s = Some False \<and> \<not> ps_HostNetwork s \<and> \<not> ps_HostPID s \<and> \<not> ps_HostIPC s \<and>
     list_all (\<lambda>k. restricted_security (kc_Security k) \<and> list_all (secret_by_reference launchKey) (kc_Env k) \<and>
         pinned_image digests (kc_Image k))
       (ps_InitContainers s @ ps_Containers s) \<and>
     secret_mounts opts s"

lemma imageRef_pinned: "imageRef opts repository d = Some img \<Longrightarrow> d \<in> set digests \<Longrightarrow> pinned_image digests img"
proof -
  assume img: "imageRef opts repository d = Some img" and d: "d \<in> set digests"
  have "img = repository @ ''@'' @ d \<or> img = (trim_suffix (op_ImageRegistry opts) ''/'' @ ''/'' @ repository) @ ''@'' @ d"
    using img by (simp add: imageRef_def split: if_splits)
  then obtain pre where "img = pre @ ''@'' @ d" by blast
  then have "drop (length pre) img = ''@'' @ d" "length pre \<le> length img" by simp_all
  then show ?thesis using d unfolding pinned_image_def list_ex_iff by blast
qed

definition profile_digests :: "profile \<Rightarrow> string list" where
  "profile_digests p = im_Digest (pf_Image p) # (case pf_SidecarImage p of None \<Rightarrow> [] | Some s \<Rightarrow> [im_Digest s])"

lemma relay_env_literal: "list_all (secret_by_reference key) (relay_env opts)"
  by (simp add: relay_env_def lit_def secret_by_reference_def)

lemma harness_restricted:
  assumes "harnessPodSpec opts inp p sidecar envelope = Some s" "pf_SidecarImage p = Some sidecar"
  shows "restricted_pod opts (lr_LaunchKey (cj_Launch inp)) (profile_digests p) s"
proof -
  obtain img simg where imgs: "imageRef opts (im_Repository (pf_Image p)) (im_Digest (pf_Image p)) = Some img"
    "imageRef opts (im_Repository sidecar) (im_Digest sidecar) = Some simg"
    using assms(1) by (auto simp: harnessPodSpec_def split: option.splits)
  have pins: "pinned_image (profile_digests p) img" "pinned_image (profile_digests p) simg"
    using imageRef_pinned [OF imgs(1)] imageRef_pinned [OF imgs(2)] assms(2) by (simp_all add: profile_digests_def)
  have s: "ps_InitContainers s = [sidecar_container opts inp simg envelope]" "ps_Containers s = [supervisor_container opts inp p img envelope]"
    "ps_Volumes s = [\<lparr>vo_Name = ''workspace'', vo_Source = EmptyDir (Some ''1Gi'')\<rparr>, \<lparr>vo_Name = ''verdict'', vo_Source = EmptyDir (Some ''256Mi'')\<rparr>] @
       (if op_SidecarIdentityMode opts = ''mtls''
        then [\<lparr>vo_Name = ''identity'', vo_Source = SecretVolume (op_SidecarIdentitySecret opts) 288\<rparr>] else [])"
    "ps_RestartPolicy s = ''Never''" "ps_AutomountServiceAccountToken s = Some False" "ps_EnableServiceLinks s = Some False"
    "\<not> ps_HostNetwork s" "\<not> ps_HostPID s" "\<not> ps_HostIPC s"
    using assms(1) imgs by (auto simp: harnessPodSpec_def split: if_splits)
  have "secret_mounts opts s"
    unfolding secret_mounts_def s by (simp add: supervisor_container_def sidecar_container_def)
  moreover have "restricted_security (kc_Security (sidecar_container opts inp simg envelope))"
    "restricted_security (kc_Security (supervisor_container opts inp p img envelope))"
    by (simp_all add: sidecar_container_def supervisor_container_def restricted_security_def)
  moreover have "list_all (secret_by_reference (lr_LaunchKey (cj_Launch inp))) (kc_Env (sidecar_container opts inp simg envelope))"
    using relay_env_literal by (simp add: sidecar_container_def secret_by_reference_def lit_def launchSecretRef_def)
  moreover have "list_all (secret_by_reference (lr_LaunchKey (cj_Launch inp))) (kc_Env (supervisor_container opts inp p img envelope))"
    by (simp add: supervisor_container_def secret_by_reference_def lit_def launchSecretRef_def)
  moreover have "kc_Image (sidecar_container opts inp simg envelope) = simg" "kc_Image (supervisor_container opts inp p img envelope) = img"
    by (simp_all add: sidecar_container_def supervisor_container_def)
  ultimately show ?thesis using pins s by (simp add: restricted_pod_def)
qed

lemma harness_sidecar:
  "harnessPodSpec opts inp p sidecar envelope = Some s \<Longrightarrow>
   \<exists>simg. ps_InitContainers s = [sidecar_container opts inp simg envelope]"
  by (auto simp: harnessPodSpec_def split: option.splits if_splits)

lemma fixture_restricted:
  assumes "fixturePodSpec opts inp p = Some s"
  shows "restricted_pod opts (lr_LaunchKey (cj_Launch inp)) (profile_digests p) s"
proof -
  obtain img where img: "imageRef opts (im_Repository (pf_Image p)) (im_Digest (pf_Image p)) = Some img"
    using assms by (auto simp: fixturePodSpec_def split: option.splits)
  have pin: "pinned_image (profile_digests p) img" using imageRef_pinned [OF img] by (simp add: profile_digests_def)
  have s: "Some s = fixturePodSpec opts inp p" using assms by simp
  have env: "secret_by_reference key (lit ''ANVILKIT_LAUNCH_ID'' v)" "secret_by_reference key (lit ''ANVILKIT_ATTEMPT_ID'' v)" for key v
    by (simp_all add: secret_by_reference_def lit_def)
  show ?thesis using s pin env
    by (simp add: fixturePodSpec_def img restricted_pod_def restricted_security_def secret_mounts_def)
qed

section \<open>Properties\<close>

lemma remainingDeadline_bounds:
  "remainingDeadline inp p at \<le> pf_DeadlineSeconds p"
  "remainingDeadline inp p at * second \<le> max second (cj_Deadline inp - at)"
proof -
  show "remainingDeadline inp p at \<le> pf_DeadlineSeconds p" by (simp add: remainingDeadline_def Let_def)
  have "remainingDeadline inp p at \<le> max 1 ((cj_Deadline inp - at) div second)"
    by (simp add: remainingDeadline_def Let_def)
  then have "remainingDeadline inp p at * second \<le> max 1 ((cj_Deadline inp - at) div second) * second"
    by (rule mult_right_mono) (simp add: second_def)
  also have "\<dots> \<le> max second (cj_Deadline inp - at)"
  proof (cases "1 \<le> (cj_Deadline inp - at) div second")
    case True
    have "(cj_Deadline inp - at) div second * second \<le> cj_Deadline inp - at"
      by (simp add: second_def flip: minus_mod_eq_div_mult)
    then show ?thesis using True by (simp add: max_def)
  qed (simp add: max_def)
  finally show "remainingDeadline inp p at * second \<le> max second (cj_Deadline inp - at)" .
qed

text \<open>
  C18. Whatever a create request asks for, the Job it submits is restricted: it is named after
  the launch key, runs once and is never retried, ends by the launch deadline and the
  profile's own bound, has no ServiceAccount token, no host namespace and no privileged or
  escalating container, runs only images pinned to the profile's digests, receives the launch
  secret by reference alone, mounts no Secret but the sidecar's identity in the sidecar, and
  runs candidate code only beside the access sidecar.
\<close>

theorem jobSpec_restricted:
  assumes "jobSpec ct opts inp p at = Some m"
  shows "restricted_pod opts (lr_LaunchKey (cj_Launch inp)) (profile_digests p) (jm_Pod m) \<and>
    jm_Name m = lr_LaunchKey (cj_Launch inp) \<and> jm_Completions m = 1 \<and> jm_Parallelism m = 1 \<and> jm_BackoffLimit m = 0 \<and>
    jm_ActiveDeadlineSeconds m \<le> pf_DeadlineSeconds p \<and>
    jm_ActiveDeadlineSeconds m * second \<le> max second (cj_Deadline inp - at) \<and>
    (pf_CandidateCode p \<longrightarrow> list_ex (\<lambda>k. kc_Name k = containerSidecar) (ps_InitContainers (jm_Pod m)))"
proof (cases "pf_SidecarImage p")
  case None
  then have pod: "fixturePodSpec opts inp p = Some (jm_Pod m)" "\<not> pf_CandidateCode p"
    using assms by (auto simp: jobSpec_def split: if_splits option.splits)
  show ?thesis using fixture_restricted [OF pod(1)] pod(2) assms remainingDeadline_bounds [of inp p at] None
    by (auto simp: jobSpec_def split: option.splits)
next
  case (Some sidecar)
  then obtain envelope where pod: "harnessPodSpec opts inp p sidecar envelope = Some (jm_Pod m)"
    using assms by (auto simp: jobSpec_def split: option.splits)
  from harness_sidecar [OF this] have "list_ex (\<lambda>k. kc_Name k = containerSidecar) (ps_InitContainers (jm_Pod m))"
    by (auto simp: sidecar_container_def)
  then show ?thesis using harness_restricted [OF pod Some] assms remainingDeadline_bounds [of inp p at] Some
    by (auto simp: jobSpec_def split: option.splits)
qed

definition example_digest :: string where
  "example_digest = ''sha256:'' @ replicate 64 (CHR ''0'')"

definition example_profile :: profile where
  "example_profile = \<lparr>pf_ProfileID = ''validate-v1'', pf_State = StateEnabled, pf_Revision = ''3'',
     pf_Image = \<lparr>im_Repository = ''anvilkit/validator'', im_Digest = example_digest\<rparr>,
     pf_SidecarImage = Some \<lparr>im_Repository = ''ghcr.io/anvilkit/sidecar'', im_Digest = example_digest\<rparr>,
     pf_CandidateCode = True, pf_BindsSource = True, pf_JobKind = ''validator'', pf_Entrypoint = [''/supervisor''],
     pf_CPU = ''1'', pf_Memory = ''1Gi'', pf_RuntimeClass = ''gvisor'', pf_DeadlineSeconds = 600\<rparr>"

definition example_options :: options where
  "example_options = \<lparr>op_Backend = ''kubernetes'', op_ImageRegistry = ''registry.local/'', op_EnabledProfiles = [''validate-v1''],
     op_SidecarControlAddress = ''control:443'', op_SidecarIdentityMode = ''mtls'', op_SidecarIdentitySecret = ''sidecar-identity'',
     op_SidecarModelProxyURL = ''https://models'', op_SidecarMCPAddress = '''', op_SidecarKnowledgeAddress = '''',
     op_CandidateSeccompProfile = ''candidate.json'', op_Development = False, op_ObserveInterval = second\<rparr>"

definition example_contract :: contract where
  "example_contract = \<lparr>ct_ProfileByID = [''validate-v1'' \<mapsto> example_profile], ct_SourceInput = ''source'',
     ct_Marshal = (\<lambda>e. ''{}''), ct_ValidateLaunchEnvelope = (\<lambda>raw. True)\<rparr>"

definition example_create :: create_job_input where
  "example_create = \<lparr>cj_Launch = \<lparr>lr_LaunchID = ''l1'', lr_AttemptID = ''att_1'', lr_LaunchKey = ''lc-1'',
       lr_ImageDigest = example_digest, lr_LaunchEpoch = ''1''\<rparr>,
     cj_ProfileID = ''validate-v1'', cj_Deadline = 5 * minute, cj_Request = 2, cj_OperationID = ''op_1'',
     cj_ExecutionEpoch = ''7'', cj_LaunchEpoch = ''1'',
     cj_Inputs = [\<lparr>li_Name = ''source'', li_Digest = example_digest, li_Handle = ''h1''\<rparr>],
     cj_Component = Some \<lparr>ci_ComponentID = '''', ci_PuckType = '''', ci_PackageName = '''', ci_SourceRevision = ''4''\<rparr>\<rparr>"

lemmas pattern_defs = digestPattern_def inputNamePattern_def sequencePattern_def is_digit_def is_lower_def between_def

lemma example_envelope: "launchEnvelope example_contract example_create example_profile = Some ''{}''"
  by (simp add: launchEnvelope_def example_contract_def example_create_def example_profile_def example_digest_def
      pattern_defs binds_source_def envelope_component_def Let_def list_all_iff)

lemma example_sidecar:
  "pf_SidecarImage example_profile = Some \<lparr>im_Repository = ''ghcr.io/anvilkit/sidecar'', im_Digest = example_digest\<rparr>"
  by (simp add: example_profile_def)

lemma example_job: "\<exists>m. jobSpec example_contract example_options example_create example_profile 0 = Some m"
  by (simp add: jobSpec_def example_sidecar example_envelope harnessPodSpec_def imageRef_def names_registry_def Let_def
      example_options_def)

theorem jobSpec_restricted_witness:
  "\<exists>m. jobSpec example_contract example_options example_create example_profile 0 = Some m \<and>
     restricted_pod example_options ''lc-1'' (profile_digests example_profile) (jm_Pod m) \<and>
     jm_ActiveDeadlineSeconds m \<le> 600"
proof -
  obtain m where job: "jobSpec example_contract example_options example_create example_profile 0 = Some m"
    using example_job by blast
  from jobSpec_restricted [OF job] job show ?thesis by (simp add: example_create_def) (simp add: example_profile_def)
qed

lemma envelope_inputs_seen: "envelope_inputs is seen = Some (out, seen') \<Longrightarrow> set seen' = set (map li_Name is) \<union> set seen"
  by (induction "is" arbitrary: seen out seen') (auto split: if_splits)

text \<open>
  What a launch may ask, stated of the request and not of its rendering: typed inputs, each once; the source where the
  profile binds one; and a component with its revision and, whole or not at all, its allocated identity.
\<close>

definition input_typed :: "launch_input \<Rightarrow> bool" where
  "input_typed i \<longleftrightarrow> inputNamePattern (li_Name i) \<and> digestPattern (li_Digest i) \<and> length (li_Handle i) \<le> 256"

definition input_entry :: "launch_input \<Rightarrow> (string \<times> string) list" where
  "input_entry i = [(''name'', li_Name i), (''digest'', li_Digest i)] @ (if li_Handle i = '''' then [] else [(''handle'', li_Handle i)])"

definition component_typed :: "component_identity \<Rightarrow> bool" where
  "component_typed c \<longleftrightarrow> sequencePattern (ci_SourceRevision c) \<and>
     (ci_ComponentID c = '''' \<and> ci_PuckType c = '''' \<and> ci_PackageName c = '''' \<or>
      componentPattern (ci_ComponentID c) \<and> puckTypePattern (ci_PuckType c) \<and> ci_PackageName c \<noteq> '''' \<and> length (ci_PackageName c) \<le> 214)"

definition component_entry :: "component_identity \<Rightarrow> (string \<times> string) list" where
  "component_entry c = (''sourceRevision'', ci_SourceRevision c) #
     (if ci_ComponentID c = '''' then []
      else [(''componentId'', ci_ComponentID c), (''puckType'', ci_PuckType c), (''packageName'', ci_PackageName c)])"

definition launch_typed :: "string \<Rightarrow> create_job_input \<Rightarrow> profile \<Rightarrow> bool" where
  "launch_typed source inp p \<longleftrightarrow>
     cj_OperationID inp \<noteq> '''' \<and> (\<forall>s \<in> {cj_ExecutionEpoch inp, cj_LaunchEpoch inp, pf_Revision p}. sequencePattern s) \<and>
     distinct (map li_Name (cj_Inputs inp)) \<and> (\<forall>i \<in> set (cj_Inputs inp). input_typed i) \<and>
     (source \<in> li_Name ` set (cj_Inputs inp) \<longrightarrow> pf_BindsSource p) \<and>
     (pf_BindsSource p \<and> pf_JobKind p = ''validator'' \<longrightarrow>
        (\<exists>i \<in> set (cj_Inputs inp). li_Name i = source \<and> li_Handle i \<noteq> '''') \<and> cj_Component inp \<noteq> None) \<and>
     (\<forall>c. cj_Component inp = Some c \<longrightarrow> component_typed c)"

definition rendered :: "create_job_input \<Rightarrow> profile \<Rightarrow> envelope" where
  "rendered inp p = \<lparr>en_SchemaVersion = 1, en_LaunchID = lr_LaunchID (cj_Launch inp), en_LaunchKey = lr_LaunchKey (cj_Launch inp),
     en_OperationID = cj_OperationID inp, en_AttemptID = lr_AttemptID (cj_Launch inp), en_ProfileID = pf_ProfileID p,
     en_ProfileRevision = pf_Revision p, en_JobKind = pf_JobKind p, en_ExecutionEpoch = cj_ExecutionEpoch inp,
     en_LaunchEpoch = cj_LaunchEpoch inp, en_Deadline = cj_Deadline inp, en_Inputs = map input_entry (cj_Inputs inp),
     en_Component = map_option component_entry (cj_Component inp)\<rparr>"

lemma sequence_nonempty [simp]: "\<not> sequencePattern ''''"
  by (simp add: sequencePattern_def)

lemma envelope_inputs_exact: "envelope_inputs is seen = Some (out, seen') \<Longrightarrow> out = map input_entry is"
  by (induction "is" arbitrary: seen out seen') (auto simp: input_entry_def split: if_splits)

lemma envelope_inputs_typed:
  "envelope_inputs is seen \<noteq> None \<longleftrightarrow> distinct (map li_Name is) \<and> li_Name ` set is \<inter> set seen = {} \<and> (\<forall>i \<in> set is. input_typed i)"
proof (induction "is" arbitrary: seen)
  case (Cons i "is")
  have "envelope_inputs (i # is) seen \<noteq> None \<longleftrightarrow> input_typed i \<and> li_Name i \<notin> set seen \<and> envelope_inputs is (li_Name i # seen) \<noteq> None"
    by (cases "length (li_Handle i) \<le> 256") (auto simp: input_typed_def not_less simp del: not_None_eq)
  then show ?case unfolding Cons.IH by auto
qed simp

lemma envelope_component_typed:
  "envelope_component ident = (if \<forall>c. ident = Some c \<longrightarrow> component_typed c then Some (map_option component_entry ident) else None)"
proof (cases ident)
  case (Some c)
  have "\<not> componentPattern ''''" "\<not> puckTypePattern ''''" by (simp_all add: componentPattern_def puckTypePattern_def)
  then show ?thesis
    using Some by (cases "ci_ComponentID c = ''''"; cases "ci_PuckType c = ''''"; cases "ci_PackageName c = ''''")
      (auto simp: envelope_component_def component_typed_def component_entry_def Let_def)
qed (simp add: envelope_component_def)

lemma binds_source_typed:
  assumes "set seen = li_Name ` set (cj_Inputs inp)" "\<forall>c. cj_Component inp = Some c \<longrightarrow> component_typed c"
  shows "binds_source ct inp p seen \<longleftrightarrow>
     (ct_SourceInput ct \<in> li_Name ` set (cj_Inputs inp) \<longrightarrow> pf_BindsSource p) \<and>
     (pf_BindsSource p \<and> pf_JobKind p = ''validator'' \<longrightarrow>
        (\<exists>i \<in> set (cj_Inputs inp). li_Name i = ct_SourceInput ct \<and> li_Handle i \<noteq> '''') \<and> cj_Component inp \<noteq> None)"
  using assms by (cases "cj_Component inp") (auto simp: binds_source_def component_typed_def)

text \<open>
  C39. A launch envelope is what was asked, and only what is typed is asked. An envelope is rendered exactly when the launch names its
  operation, canonical epochs and a canonical profile revision; its inputs are typed, each under its own valid name and a sha256
  digest; the source input is among them only for a profile that binds source, and for a validator that binds source it
  is, with the handle the store holds it under, together with a component; a component names a canonical revision and its
  allocated identity whole and valid or not at all; and the encoding validates against the contract. The envelope then is the encoding of
  exactly the launch, the profile, the inputs in order and the component that were asked.
\<close>

theorem launchEnvelope_typed:
  "launchEnvelope ct inp p = Some raw \<longleftrightarrow>
     launch_typed (ct_SourceInput ct) inp p \<and> raw = ct_Marshal ct (rendered inp p) \<and> ct_ValidateLaunchEnvelope ct raw"
proof (cases "envelope_inputs (cj_Inputs inp) []")
  case None
  then show ?thesis using envelope_inputs_typed [of "cj_Inputs inp" "[]"] by (simp add: launchEnvelope_def launch_typed_def)
next
  case (Some r)
  obtain entries seen where r: "r = (entries, seen)" by fastforce
  have entries: "entries = map input_entry (cj_Inputs inp)" using envelope_inputs_exact [of "cj_Inputs inp" "[]" entries seen] Some r by simp
  have seen: "set seen = li_Name ` set (cj_Inputs inp)" using envelope_inputs_seen [of "cj_Inputs inp" "[]" entries seen] Some r by simp
  have typed: "distinct (map li_Name (cj_Inputs inp)) \<and> (\<forall>i \<in> set (cj_Inputs inp). input_typed i)"
    using envelope_inputs_typed [of "cj_Inputs inp" "[]"] Some by simp
  show ?thesis
  proof (cases "\<forall>c. cj_Component inp = Some c \<longrightarrow> component_typed c")
    case True
    note b = binds_source_typed [OF seen True, of ct p]
    show ?thesis
      using Some r entries typed b True
      by (auto simp: launchEnvelope_def launch_typed_def envelope_component_typed rendered_def launchEnvelopeSchema_def Let_def)
  next
    case False
    then show ?thesis using Some r by (auto simp: launchEnvelope_def launch_typed_def envelope_component_typed)
  qed
qed

text \<open>The example envelope, whose encoding lists its inputs and its component.\<close>

theorem launchEnvelope_typed_witness:
  "launch_typed ''source'' example_create example_profile \<and>
   launchEnvelope (example_contract\<lparr>ct_Marshal := (\<lambda>e. concat (map snd (concat (en_Inputs e))) @ concat (map snd (the (en_Component e))))\<rparr>)
     example_create example_profile = Some (''source'' @ example_digest @ ''h1'' @ ''4'')"
proof -
  have "launch_typed ''source'' example_create example_profile"
    using launchEnvelope_typed [of example_contract example_create example_profile "''{}''"] example_envelope by (simp add: example_contract_def)
  then show ?thesis
    by (simp add: launchEnvelope_typed) (simp add: rendered_def input_entry_def component_entry_def example_create_def example_contract_def)
qed

end
