(* ===== verification/Kube.thy ===== *)
theory Kube
  imports Template Temporal
begin

text \<open>
  What the launcher sees of the cluster: the objects under a launch key with the pure
  functions that read them (\<open>requestOf\<close>, \<open>ownedBy\<close>, \<open>controllerJobUID\<close>,
  \<open>podsInOwnerOrder\<close>, \<open>launchObservation\<close>, \<open>observePod\<close>, \<open>phaseOf\<close>,
  \<open>rejected\<close>, \<open>transientRead\<close> of \<^verbatim>\<open>internal/adapters/kubernetes/launcher.go\<close>), and
  the API server as the parameter \<open>cluster\<close>: it answers the calls over a state of its own
  about which nothing is assumed here. The calls made are logged, newest first.
\<close>

section \<open>Errors\<close>

text \<open>An answered error carries the reason and the status code the API machinery gives it.\<close>

datatype api_reason =
    NotFound | AlreadyExists | Conflict | Forbidden | Unauthorized | BadRequest | Invalid | Gone | OtherReason

datatype api_error =
    Answered api_reason int
  | NoAnswer

fun has_reason :: "api_reason \<Rightarrow> api_error \<Rightarrow> bool" where
  "has_reason r (Answered r' code) \<longleftrightarrow> r' = r"
| "has_reason r NoAnswer \<longleftrightarrow> False"

definition rejectionCodes :: "int list" where
  "rejectionCodes = [400, 401, 403, 404, 405, 406, 409, 410, 411, 413, 414, 415, 417, 422, 429, 431]"

fun rejected :: "api_error \<Rightarrow> bool" where
  "rejected (Answered r code) \<longleftrightarrow> code \<in> set rejectionCodes"
| "rejected NoAnswer \<longleftrightarrow> False"

definition transientRead :: "bool \<Rightarrow> api_error \<Rightarrow> bool" where
  "transientRead ctx_ended err \<longleftrightarrow> \<not> ctx_ended \<and>
     \<not> (has_reason NotFound err \<or> has_reason Forbidden err \<or> has_reason Unauthorized err \<or>
        has_reason BadRequest err \<or> has_reason Invalid err \<or> has_reason Gone err)"

text \<open>A failure of the API server as the Activity reports it: retryable, without a public code.\<close>

definition api_failure :: wf_error where
  "api_failure = ApplicationError ''error'' False"

lemma api_failure_plain [simp]: "RefusalCode (Some api_failure) = ''''" "\<not> IsNotCreated api_failure"
  by (simp_all add: api_failure_def notCreatedType_def)

section \<open>Objects\<close>

record owner_ref =
  ow_Kind :: string
  ow_Controller :: "bool option"
  ow_Name :: string
  ow_UID :: string

record container_status =
  cs_Name :: string
  cs_Terminated :: "(int \<times> string \<times> string) option"
  cs_Waiting :: "string option"

record job_object =
  jb_UID :: string
  jb_Labels :: "(string \<times> string) list"
  jb_Annotations :: "(string \<times> string) list"
  jb_Conditions :: "(string \<times> bool \<times> string) list"

record pod_object =
  pd_UID :: string
  pd_Owners :: "owner_ref list"
  pd_Created :: int
  pd_Annotations :: "(string \<times> string) list"
  pd_Phase :: string
  pd_Reason :: string
  pd_Statuses :: "container_status list"

text \<open>A missing key of a string map reads as the empty string.\<close>

definition index_map :: "(string \<times> string) list \<Rightarrow> string \<Rightarrow> string" where
  "index_map m k = (case map_of m k of None \<Rightarrow> '''' | Some v \<Rightarrow> v)"

text \<open>\<open>strconv.Atoi\<close>: an optional sign, digits, within 64 bits.\<close>

fun digits_value :: "string \<Rightarrow> nat \<Rightarrow> nat option" where
  "digits_value [] acc = Some acc"
| "digits_value (ch # cs) acc =
     (if is_digit ch then digits_value cs (acc * 10 + (of_char ch - 48)) else None)"

definition atoi :: "string \<Rightarrow> int option" where
  "atoi s =
     (let negative = (s \<noteq> [] \<and> hd s = CHR ''-'');
          ds = (if s \<noteq> [] \<and> (hd s = CHR ''-'' \<or> hd s = CHR ''+'') then tl s else s)
      in case (if ds = [] then None else digits_value ds 0) of
           None \<Rightarrow> None
         | Some n \<Rightarrow>
             (let v = (if negative then - int n else int n)
              in if - (2 ^ 63) \<le> v \<and> v < 2 ^ 63 then Some v else None))"

definition requestOf :: "(string \<times> string) list \<Rightarrow> int" where
  "requestOf annotations =
     (case atoi (index_map annotations annotationRequest) of
        None \<Rightarrow> 0
      | Some n \<Rightarrow> if n < 1 then 0 else n)"

fun controllerJobUID_of :: "owner_ref list \<Rightarrow> string \<Rightarrow> string" where
  "controllerJobUID_of [] name = ''''"
| "controllerJobUID_of (ow # ows) name =
     (if ow_Kind ow = ''Job'' \<and> ow_Controller ow = Some True \<and> (name = '''' \<or> ow_Name ow = name)
      then ow_UID ow else controllerJobUID_of ows name)"

definition controllerJobUID :: "pod_object \<Rightarrow> string \<Rightarrow> string" where
  "controllerJobUID pod name = controllerJobUID_of (pd_Owners pod) name"

definition ownedBy :: "pod_object \<Rightarrow> string \<Rightarrow> bool" where
  "ownedBy pod jobUID \<longleftrightarrow> jobUID \<noteq> '''' \<and> controllerJobUID pod '''' = jobUID"

text \<open>The stable sort: the Job's own Pods first, each group in creation order.\<close>

definition podsInOwnerOrder :: "pod_object list \<Rightarrow> string \<Rightarrow> pod_object list" where
  "podsInOwnerOrder pods jobUID =
     sort_key pd_Created (filter (\<lambda>p. ownedBy p jobUID) pods) @
     sort_key pd_Created (filter (\<lambda>p. \<not> ownedBy p jobUID) pods)"

definition phaseOf :: "pod_object \<Rightarrow> string" where
  "phaseOf pod =
     (if pd_Phase pod = ''Pending'' then ''pending''
      else if pd_Phase pod = ''Running'' then ''running''
      else if pd_Phase pod = ''Succeeded'' then ''succeeded''
      else if pd_Phase pod = ''Failed'' then ''failed''
      else ''unknown'')"

fun observe_statuses :: "container_status list \<Rightarrow> pod_observation \<Rightarrow> pod_observation" where
  "observe_statuses [] po = po"
| "observe_statuses (cs # css) po =
     (if cs_Name cs \<noteq> containerFixture \<and> cs_Name cs \<noteq> containerSupervisor then observe_statuses css po
      else case cs_Terminated cs of
          Some (code, msg, reason) \<Rightarrow>
            observe_statuses css (po\<lparr>po_ExitCode := Some code, po_TerminationMessage := msg,
              po_Reason := (if po_Reason po = '''' then reason else po_Reason po)\<rparr>)
        | None \<Rightarrow>
            (case cs_Waiting cs of
               Some reason \<Rightarrow> observe_statuses css (if po_Reason po = '''' then po\<lparr>po_Reason := reason\<rparr> else po)
             | None \<Rightarrow> observe_statuses css po))"

definition observePod :: "pod_object \<Rightarrow> time \<Rightarrow> pod_observation" where
  "observePod pod at = observe_statuses (pd_Statuses pod)
     \<lparr>po_PodUID = pd_UID pod, po_Phase = phaseOf pod, po_ExitCode = None, po_Reason = pd_Reason pod,
      po_TerminationMessage = '''', po_ObservedAt = at\<rparr>"

fun first_controller :: "pod_object list \<Rightarrow> string \<Rightarrow> string" where
  "first_controller [] launchKey = ''''"
| "first_controller (pod # pods) launchKey =
     (if controllerJobUID pod launchKey \<noteq> '''' then controllerJobUID pod launchKey else first_controller pods launchKey)"

text \<open>\<open>launchObservation\<close>: \<open>None\<close> is a Job that is gone. The sort of the Pods is in place.\<close>

definition launchObservation :: "job_object option \<Rightarrow> pod_object list \<Rightarrow> string \<Rightarrow> time \<Rightarrow> launch_observation" where
  "launchObservation job pods launchKey at =
     (case (case job of
          Some j \<Rightarrow> (jb_UID j, [requestOf (jb_Annotations j)], pods)
        | None \<Rightarrow> (let ps = podsInOwnerOrder pods '''' in (first_controller ps launchKey, [], ps))) of
        (jobUID, requests, ps) \<Rightarrow>
          (let ordered = podsInOwnerOrder ps jobUID in
           \<lparr>lo_JobUID = jobUID, lo_Pods = map (\<lambda>p. observePod p at) ordered,
            lo_Requests = sort (remdups (filter (\<lambda>r. r > 0) (requests @ map (\<lambda>p. requestOf (pd_Annotations p)) ordered)))\<rparr>))"

section \<open>The API server\<close>

record secret_manifest =
  se_Name :: string
  se_Labels :: "(string \<times> string) list"
  se_Annotations :: "(string \<times> string) list"
  se_Immutable :: bool
  se_StringData :: "(string \<times> string) list"

text \<open>A failed create also says whether the request was written to the wire in full.\<close>

datatype api_call =
    GotJob string "api_error + job_object"
  | ListedPods string "api_error + pod_object list"
  | CreatedJob job_manifest "api_error \<times> bool + job_object"
  | CreatedSecret secret_manifest "api_error \<times> bool + unit"
  | DeletedJob string string "api_error option"
  | DeletedSecret string "api_error option"
  | Waited duration bool

record 'k cluster =
  k_get_job :: "string \<Rightarrow> 'k \<Rightarrow> (api_error + job_object) \<times> 'k"
  k_list_pods :: "string \<Rightarrow> 'k \<Rightarrow> (api_error + pod_object list) \<times> 'k"
  k_create_job :: "job_manifest \<Rightarrow> 'k \<Rightarrow> (api_error \<times> bool + job_object) \<times> 'k"
  k_create_secret :: "secret_manifest \<Rightarrow> 'k \<Rightarrow> (api_error \<times> bool + unit) \<times> 'k"
  k_delete_job :: "string \<Rightarrow> string \<Rightarrow> 'k \<Rightarrow> api_error option \<times> 'k"
  k_delete_secret :: "string \<Rightarrow> 'k \<Rightarrow> api_error option \<times> 'k"
  k_wait :: "duration \<Rightarrow> 'k \<Rightarrow> bool \<times> 'k"
  k_random :: "'k \<Rightarrow> string option \<times> 'k"
  k_now :: "'k \<Rightarrow> time"
  k_ended :: "'k \<Rightarrow> bool"

record 'k api =
  kst :: 'k
  calls :: "api_call list"

definition log_call :: "api_call \<Rightarrow> 'k \<Rightarrow> 'k api \<Rightarrow> 'k api" where
  "log_call call k w = w\<lparr>kst := k, calls := call # calls w\<rparr>"

definition get_job :: "'k cluster \<Rightarrow> string \<Rightarrow> 'k api \<Rightarrow> (api_error + job_object) \<times> 'k api" where
  "get_job K key w = (case k_get_job K key (kst w) of (r, k) \<Rightarrow> (r, log_call (GotJob key r) k w))"

definition list_pods :: "'k cluster \<Rightarrow> string \<Rightarrow> 'k api \<Rightarrow> (api_error + pod_object list) \<times> 'k api" where
  "list_pods K key w = (case k_list_pods K key (kst w) of (r, k) \<Rightarrow> (r, log_call (ListedPods key r) k w))"

definition create_job :: "'k cluster \<Rightarrow> job_manifest \<Rightarrow> 'k api \<Rightarrow> (api_error \<times> bool + job_object) \<times> 'k api" where
  "create_job K m w = (case k_create_job K m (kst w) of (r, k) \<Rightarrow> (r, log_call (CreatedJob m r) k w))"

definition create_secret :: "'k cluster \<Rightarrow> secret_manifest \<Rightarrow> 'k api \<Rightarrow> (api_error \<times> bool + unit) \<times> 'k api" where
  "create_secret K m w = (case k_create_secret K m (kst w) of (r, k) \<Rightarrow> (r, log_call (CreatedSecret m r) k w))"

definition delete_job :: "'k cluster \<Rightarrow> string \<Rightarrow> string \<Rightarrow> 'k api \<Rightarrow> api_error option \<times> 'k api" where
  "delete_job K key uid w = (case k_delete_job K key uid (kst w) of (r, k) \<Rightarrow> (r, log_call (DeletedJob key uid r) k w))"

definition delete_secret :: "'k cluster \<Rightarrow> string \<Rightarrow> 'k api \<Rightarrow> api_error option \<times> 'k api" where
  "delete_secret K key w = (case k_delete_secret K key (kst w) of (r, k) \<Rightarrow> (r, log_call (DeletedSecret key r) k w))"

text \<open>A wait in the call's context; \<open>True\<close> when the context ended first.\<close>

definition pause :: "'k cluster \<Rightarrow> duration \<Rightarrow> 'k api \<Rightarrow> bool \<times> 'k api" where
  "pause K d w = (case k_wait K d (kst w) of (r, k) \<Rightarrow> (r, log_call (Waited d r) k w))"

abbreviation at :: "'k cluster \<Rightarrow> 'k api \<Rightarrow> time" where
  "at K w \<equiv> k_now K (kst w)"

lemmas api_defs = get_job_def list_pods_def create_job_def create_secret_def delete_job_def delete_secret_def pause_def log_call_def

section \<open>Markers\<close>

lemma digits_value_show_nat: "digits_value (show_nat n @ cs) acc = digits_value cs (acc * 10 ^ length (show_nat n) + n)"
proof (induction n arbitrary: acc cs rule: show_nat.induct)
  case (1 n)
  have dig: "is_digit (digit d)" "of_char (digit d) - 48 = d" if "d < 10" for d
    using that by (simp_all add: is_digit_def between_def digit_def)
  show ?case
  proof (cases "n < 10")
    case True
    then show ?thesis using dig [of n] by (simp add: show_nat.simps [of n])
  next
    case False
    have "show_nat n = show_nat (n div 10) @ [digit (n mod 10)]" using False by (simp add: show_nat.simps [of n])
    then show ?thesis using 1 [OF False] dig [of "n mod 10"] by (simp add: algebra_simps)
  qed
qed

lemma show_nat_nonempty: "show_nat n \<noteq> []"
  by (subst show_nat.simps) simp

lemma hd_show_nat: "is_digit (hd (show_nat n))"
proof (induction n rule: show_nat.induct)
  case (1 n)
  have "is_digit (digit d)" if "d < 10" for d using that by (simp add: is_digit_def between_def digit_def)
  then show ?case using 1 show_nat_nonempty by (subst show_nat.simps) simp
qed

lemma atoi_show_nat:
  assumes "n < 2 ^ 63"
  shows "atoi (show_nat n) = Some (int n)"
proof -
  have "hd (show_nat n) \<noteq> CHR ''-''" "hd (show_nat n) \<noteq> CHR ''+''"
    using hd_show_nat [of n] by (auto simp: is_digit_def between_def)
  moreover have "digits_value (show_nat n) 0 = Some n" using digits_value_show_nat [of n "[]" 0] by simp
  ultimately show ?thesis using assms show_nat_nonempty [of n] by (simp add: atoi_def Let_def)
qed

lemma requestOf_nonneg: "0 \<le> requestOf a"
  by (simp add: requestOf_def split: option.split)

text \<open>The marker a create request is submitted with is the one an observer reads back.\<close>

lemma requestOf_annotations:
  assumes "0 < r" "r < 2 ^ 63"
  shows "requestOf (request_annotations r) = r"
proof -
  have "nat r < 2 ^ 63" using assms by (simp add: nat_less_iff)
  from atoi_show_nat [OF this] show ?thesis using assms
    by (simp add: requestOf_def request_annotations_def index_map_def)
qed

lemma set_podsInOwnerOrder [simp]: "set (podsInOwnerOrder pods uid) = set pods"
  by (auto simp: podsInOwnerOrder_def)

lemma podsInOwnerOrder_Nil [simp]: "podsInOwnerOrder pods uid = [] \<longleftrightarrow> pods = []"
  by (metis set_empty set_podsInOwnerOrder)

lemma set_lo_Requests:
  "set (lo_Requests (launchObservation job pods key t)) =
    {r. 0 < r \<and> ((\<exists>j. job = Some j \<and> r = requestOf (jb_Annotations j)) \<or> (\<exists>p \<in> set pods. r = requestOf (pd_Annotations p)))}"
  by (cases job) (auto simp: launchObservation_def Let_def)

lemma Empty_launchObservation:
  "Empty (launchObservation job pods key t) \<Longrightarrow> pods = [] \<and> (\<forall>j. job = Some j \<longrightarrow> jb_UID j = '''')"
  by (cases job) (simp_all add: launchObservation_def Let_def Empty_def)

end
