(* ===== verification/Launcher.thy ===== *)
theory Launcher
  imports Kube
begin

text \<open>
  The Job launcher (\<^verbatim>\<open>internal/adapters/kubernetes/launcher.go\<close>): \<open>CreateJob\<close> with the
  classification of a failed create, the observation loops \<open>ObserveJob\<close>, \<open>AwaitOwner\<close>
  and \<open>ObserveLaunch\<close>, and the evidence-first \<open>DeleteJob\<close>. A loop that never ends for
  some behaviour of the API server is \<open>None\<close>.
\<close>

section \<open>Profiles\<close>

definition profile_unqualified :: wf_error where
  "profile_unqualified = Refused ''PROFILE_UNQUALIFIED''"

definition reviewed :: "contract \<Rightarrow> options \<Rightarrow> string \<Rightarrow> wf_error + profile" where
  "reviewed ct opts ident =
     (case ct_ProfileByID ct ident of
        None \<Rightarrow> Inl profile_unqualified
      | Some p \<Rightarrow> if \<not> enabled opts ident then Inl profile_unqualified else Inr p)"

definition profile_for :: "contract \<Rightarrow> options \<Rightarrow> string \<Rightarrow> wf_error + profile" where
  "profile_for ct opts ident =
     (case ct_ProfileByID ct ident of
        None \<Rightarrow> Inl profile_unqualified
      | Some p \<Rightarrow>
          (case pf_State p of
             StateDisabled \<Rightarrow> Inl (Refused ''PROFILE_DISABLED'')
           | StateDevelopment \<Rightarrow> if \<not> op_Development opts then Inl profile_unqualified else reviewed ct opts ident
           | StateEnabled \<Rightarrow> reviewed ct opts ident
           | StateOther s \<Rightarrow> Inl profile_unqualified))"

text \<open>\<open>withDefaults\<close>: a nil profile list enables the fixture alone, a cadence is positive.\<close>

definition pollInterval :: duration where
  "pollInterval = second"

definition withDefaults :: "bool \<Rightarrow> options \<Rightarrow> options" where
  "withDefaults profiles_nil opts =
     (let opts1 = (if profiles_nil then opts\<lparr>op_EnabledProfiles := [''local-check-v1'']\<rparr> else opts)
      in if op_ObserveInterval opts1 \<le> 0 then opts1\<lparr>op_ObserveInterval := pollInterval\<rparr> else opts1)"

text \<open>\<open>createRedirects\<close>: \<open>None\<close> follows the redirect.\<close>

datatype redirect_stop = ErrUseLastResponse | TooManyRedirects

definition createRedirects :: "string \<Rightarrow> nat \<Rightarrow> redirect_stop option" where
  "createRedirects first_method n_via =
     (if first_method = ''POST'' then Some ErrUseLastResponse
      else if n_via \<ge> 10 then Some TooManyRedirects else None)"

text \<open>\<open>Render\<close>: the template of any reviewed profile, whatever its state.\<close>

definition Render :: "contract \<Rightarrow> options \<Rightarrow> create_job_input \<Rightarrow> time \<Rightarrow> wf_error + job_manifest" where
  "Render ct opts inp t =
     (case reviewed ct opts (cj_ProfileID inp) of
        Inl err \<Rightarrow> Inl err
      | Inr p \<Rightarrow> (case jobSpec ct opts inp p t of None \<Rightarrow> Inl api_failure | Some m \<Rightarrow> Inr m))"

section \<open>Creating\<close>

definition hex_char :: "nat \<Rightarrow> char" where
  "hex_char n = char_of (if n < 10 then 48 + n else 87 + n)"

definition hex_encode :: "string \<Rightarrow> string" where
  "hex_encode bytes = concat (map (\<lambda>ch. [hex_char (of_char ch div 16), hex_char (of_char ch mod 16)]) bytes)"

definition secret_for :: "create_job_input \<Rightarrow> job_manifest \<Rightarrow> string \<Rightarrow> secret_manifest" where
  "secret_for inp job raw =
     \<lparr>se_Name = lr_LaunchKey (cj_Launch inp),
      se_Labels = [(labelLaunchKey, lr_LaunchKey (cj_Launch inp)), (labelAttempt, lr_AttemptID (cj_Launch inp))],
      se_Annotations = jm_Annotations job, se_Immutable = True,
      se_StringData = [(launchSecretKey, hex_encode raw)]\<rparr>"

text \<open>A failed create: not created on a rejection or when it never reached the wire, else unresolved.\<close>

definition classify :: "api_error \<times> bool \<Rightarrow> wf_error" where
  "classify f = (if rejected (fst f) \<or> \<not> snd f then NotCreated else api_failure)"

definition createLaunchSecret :: "'k cluster \<Rightarrow> create_job_input \<Rightarrow> job_manifest \<Rightarrow> 'k api \<Rightarrow> wf_error option \<times> 'k api" where
  "createLaunchSecret K inp job w =
     (case k_random K (kst w) of
        (None, k) \<Rightarrow> (Some NotCreated, w\<lparr>kst := k\<rparr>)
      | (Some raw, k) \<Rightarrow>
          (case create_secret K (secret_for inp job raw) (w\<lparr>kst := k\<rparr>) of
             (Inr _, w1) \<Rightarrow> (None, w1)
           | (Inl f, w1) \<Rightarrow> if has_reason AlreadyExists (fst f) then (None, w1) else (Some (classify f), w1)))"

definition existing_ref :: "'k cluster \<Rightarrow> launch_ref \<Rightarrow> 'k api \<Rightarrow> (wf_error + job_ref) \<times> 'k api" where
  "existing_ref K launch w =
     (case get_job K (lr_LaunchKey launch) w of
        (Inl err, w1) \<Rightarrow> (Inl api_failure, w1)
      | (Inr job, w1) \<Rightarrow>
          if index_map (jb_Labels job) labelAttempt \<noteq> lr_AttemptID launch then (Inl (Refused ''STALE_EXECUTION''), w1)
          else (Inr \<lparr>jr_JobUID = jb_UID job, jr_Request = requestOf (jb_Annotations job)\<rparr>, w1))"

definition submit_job :: "'k cluster \<Rightarrow> create_job_input \<Rightarrow> job_manifest \<Rightarrow> 'k api \<Rightarrow> (wf_error + job_ref) \<times> 'k api" where
  "submit_job K inp m w =
     (case create_job K m w of
        (Inr job, w1) \<Rightarrow> (Inr \<lparr>jr_JobUID = jb_UID job, jr_Request = requestOf (jb_Annotations job)\<rparr>, w1)
      | (Inl f, w1) \<Rightarrow>
          if has_reason AlreadyExists (fst f) then
            (case existing_ref K (cj_Launch inp) w1 of
               (Inl err, w2) \<Rightarrow> (Inl (if RefusalCode (Some err) = '''' then NotCreated else err), w2)
             | (Inr ref, w2) \<Rightarrow> (Inr ref, w2))
          else (Inl (classify f), w1))"

definition CreateJob :: "contract \<Rightarrow> options \<Rightarrow> 'k cluster \<Rightarrow> create_job_input \<Rightarrow> 'k api \<Rightarrow> (wf_error + job_ref) \<times> 'k api" where
  "CreateJob ct opts K inp w =
     (case profile_for ct opts (cj_ProfileID inp) of
        Inl err \<Rightarrow> (Inl err, w)
      | Inr p \<Rightarrow>
          if im_Digest (pf_Image p) \<noteq> lr_ImageDigest (cj_Launch inp) then (Inl (Refused ''STALE_EXECUTION''), w)
          else if \<not> cj_Deadline inp > at K w then
            (case existing_ref K (cj_Launch inp) w of
               (Inr ref, w1) \<Rightarrow> (Inr ref, w1)
             | (Inl err, w1) \<Rightarrow> (Inl (Refused ''DEADLINE_EXCEEDED''), w1))
          else
            (case jobSpec ct opts inp p (at K w) of
               None \<Rightarrow> (Inl (Refused ''PROFILE_UNQUALIFIED''), w)
             | Some m \<Rightarrow>
                 (case (if pf_SidecarImage p \<noteq> None then createLaunchSecret K inp m w else (None, w)) of
                    (Some err, w1) \<Rightarrow> (Inl err, w1)
                  | (None, w1) \<Rightarrow> submit_job K inp m w1)))"

section \<open>Observing\<close>

text \<open>\<open>cadence.wait\<close>: the next tick is fixed before the wait; a late loop resumes from now.\<close>

definition cadence_next :: "duration \<Rightarrow> time \<Rightarrow> time \<Rightarrow> time" where
  "cadence_next every next t = (let n = next + every in if n < t then t + every else n)"

definition cadence_wait :: "'k cluster \<Rightarrow> time \<Rightarrow> 'k api \<Rightarrow> bool \<times> 'k api" where
  "cadence_wait K next w = (if next - at K w \<le> 0 then (k_ended K (kst w), w) else pause K (next - at K w) w)"

definition job_reason :: "job_object \<Rightarrow> string" where
  "job_reason job = fold (\<lambda>(kind, status, reason) acc.
      if (kind = ''Failed'' \<or> kind = ''Complete'') \<and> status then reason else acc) (jb_Conditions job) ''''"

text \<open>The two reads of a poll.\<close>

definition read_launch :: "'k cluster \<Rightarrow> string \<Rightarrow> 'k api \<Rightarrow> (api_error + job_object \<times> pod_object list) \<times> 'k api" where
  "read_launch K key w =
     (case get_job K key w of
        (Inl err, w1) \<Rightarrow> (Inl err, w1)
      | (Inr job, w1) \<Rightarrow>
          (case list_pods K key w1 of
             (Inl err, w2) \<Rightarrow> (Inl err, w2)
           | (Inr pods, w2) \<Rightarrow> (Inr (job, pods), w2)))"

definition owner_terminal :: "pod_object list \<Rightarrow> string \<Rightarrow> time \<Rightarrow> bool" where
  "owner_terminal ordered jobUID t =
     (case ordered of
        [] \<Rightarrow> False
      | pod # _ \<Rightarrow> ownedBy pod jobUID \<and>
          (po_Reason (observePod pod t) = ''ErrImagePull'' \<or> po_Reason (observePod pod t) = ''ImagePullBackOff'' \<or>
           pd_Phase pod = ''Succeeded'' \<or> pd_Phase pod = ''Failed''))"

definition owner_exists :: "pod_object list \<Rightarrow> string \<Rightarrow> bool" where
  "owner_exists ordered jobUID = (case ordered of [] \<Rightarrow> False | pod # _ \<Rightarrow> ownedBy pod jobUID)"

text \<open>
  The loop both observations share: \<open>stop\<close> says whether the Pods end it, \<open>grace\<close> how far
  past the deadline it goes on.
\<close>

partial_function (option) observe_loop :: "'k cluster \<Rightarrow> duration \<Rightarrow> (pod_object list \<Rightarrow> string \<Rightarrow> time \<Rightarrow> bool) \<Rightarrow> duration \<Rightarrow>
    observe_job_input \<Rightarrow> time \<Rightarrow> 'k api \<Rightarrow> ((wf_error + job_observation) \<times> 'k api) option" where
  "observe_loop K every stop grace inp next w =
     (case read_launch K (lr_LaunchKey (oj_Launch inp)) w of
        (Inl err, w1) \<Rightarrow>
          if \<not> transientRead (k_ended K (kst w1)) err \<or> at K w1 > oj_Deadline inp + grace then Some (Inl api_failure, w1)
          else (case cadence_wait K next w1 of
              (ctx_over, w2) \<Rightarrow>
                if ctx_over then Some (Inl CanceledError, w2)
                else observe_loop K every stop grace inp (cadence_next every next (at K w1)) w2)
      | (Inr r, w1) \<Rightarrow>
          (let ordered = podsInOwnerOrder (snd r) (jb_UID (fst r));
               reason = job_reason (fst r);
               terminal = (reason \<noteq> '''' \<or> stop ordered (jb_UID (fst r)) (at K w1))
           in if terminal \<or> at K w1 > oj_Deadline inp + grace then
                Some (Inr \<lparr>jo_JobUID = jb_UID (fst r), jo_Pods = map (\<lambda>p. observePod p (at K w1)) ordered,
                  jo_Reason = (if \<not> terminal then ''DeadlineExceeded'' else reason)\<rparr>, w1)
              else (case cadence_wait K next w1 of
                  (ctx_over, w2) \<Rightarrow>
                    if ctx_over then Some (Inl CanceledError, w2)
                    else observe_loop K every stop grace inp (cadence_next every next (at K w1)) w2)))"

definition ObserveJob :: "options \<Rightarrow> 'k cluster \<Rightarrow> observe_job_input \<Rightarrow> 'k api \<Rightarrow> ((wf_error + job_observation) \<times> 'k api) option" where
  "ObserveJob opts K inp w =
     observe_loop K (op_ObserveInterval opts) owner_terminal (30 * second) inp (at K w + op_ObserveInterval opts) w"

definition AwaitOwner :: "options \<Rightarrow> 'k cluster \<Rightarrow> observe_job_input \<Rightarrow> 'k api \<Rightarrow> ((wf_error + job_observation) \<times> 'k api) option" where
  "AwaitOwner opts K inp w =
     observe_loop K (op_ObserveInterval opts) (\<lambda>ordered uid t. owner_exists ordered uid) 0 inp (at K w + op_ObserveInterval opts) w"

text \<open>What the API server holds under the key: the Job (\<open>None\<close> when gone) and its Pods.\<close>

definition read_key :: "'k cluster \<Rightarrow> string \<Rightarrow> 'k api \<Rightarrow> (wf_error + job_object option \<times> pod_object list) \<times> 'k api" where
  "read_key K key w =
     (case get_job K key w of
        (r, w1) \<Rightarrow>
          if (case r of Inl err \<Rightarrow> \<not> has_reason NotFound err | Inr _ \<Rightarrow> False) then (Inl api_failure, w1)
          else
            (case list_pods K key w1 of
               (Inl err, w2) \<Rightarrow> (Inl api_failure, w2)
             | (Inr pods, w2) \<Rightarrow> (Inr (case r of Inl _ \<Rightarrow> None | Inr job \<Rightarrow> Some job, pods), w2)))"

partial_function (option) observe_launch_loop :: "'k cluster \<Rightarrow> duration \<Rightarrow> observe_launch_input \<Rightarrow> time \<Rightarrow> 'k api \<Rightarrow>
    ((wf_error + launch_observation) \<times> 'k api) option" where
  "observe_launch_loop K every inp started w =
     (case read_key K (lr_LaunchKey (ol_Launch inp)) w of
        (Inl err, w1) \<Rightarrow> Some (Inl err, w1)
      | (Inr (job, pods), w1) \<Rightarrow>
          if job \<noteq> None \<or> pods \<noteq> [] then Some (Inr (launchObservation job pods (lr_LaunchKey (ol_Launch inp)) (at K w1)), w1)
          else if at K w1 - started \<ge> ol_SettleWindow inp then Some (Inl api_failure, w1)
          else (case pause K every w1 of
              (ctx_over, w2) \<Rightarrow>
                if ctx_over then Some (Inl api_failure, w2) else observe_launch_loop K every inp started w2))"

definition ObserveLaunch :: "options \<Rightarrow> 'k cluster \<Rightarrow> observe_launch_input \<Rightarrow> 'k api \<Rightarrow>
    ((wf_error + launch_observation) \<times> 'k api) option" where
  "ObserveLaunch opts K inp w = observe_launch_loop K (op_ObserveInterval opts) inp (at K w) w"

section \<open>Deleting\<close>

text \<open>Evidence the caller has not recorded is reported, not deleted.\<close>

definition unrecorded :: "delete_job_input \<Rightarrow> launch_observation \<Rightarrow> bool" where
  "unrecorded inp obs \<longleftrightarrow>
     list_ex (\<lambda>r. r \<in> set (dj_Unaccounted inp) \<or> dj_EvidenceFirst inp \<and> r \<notin> set (dj_Recorded inp)) (lo_Requests obs)"

partial_function (option) delete_loop :: "'k cluster \<Rightarrow> duration \<Rightarrow> delete_job_input \<Rightarrow> 'k api \<Rightarrow>
    ((wf_error + launch_observation) \<times> 'k api) option" where
  "delete_loop K every inp w =
     (case read_key K (lr_LaunchKey (dj_Launch inp)) w of
        (Inl err, w1) \<Rightarrow> Some (Inl err, w1)
      | (Inr (job, pods), w1) \<Rightarrow>
          (let obs = launchObservation job pods (lr_LaunchKey (dj_Launch inp)) (at K w1) in
           if unrecorded inp obs then Some (Inr obs, w1)
           else if job = None \<and> pods = [] then
             (case delete_secret K (lr_LaunchKey (dj_Launch inp)) w1 of
                (r, w2) \<Rightarrow>
                  if (case r of None \<Rightarrow> True | Some err \<Rightarrow> has_reason NotFound err)
                  then Some (Inr no_observation, w2) else Some (Inl api_failure, w2))
           else if job = None then
             (case pause K every w1 of
                (ctx_over, w2) \<Rightarrow> if ctx_over then Some (Inl api_failure, w2) else delete_loop K every inp w2)
           else
             (case delete_job K (lr_LaunchKey (dj_Launch inp)) (jb_UID (the job)) w1 of
                (r, w2) \<Rightarrow>
                  if (case r of None \<Rightarrow> True | Some err \<Rightarrow> has_reason NotFound err)
                  then (case pause K every w2 of
                      (ctx_over, w3) \<Rightarrow> if ctx_over then Some (Inl api_failure, w3) else delete_loop K every inp w3)
                  else if (case r of None \<Rightarrow> False | Some err \<Rightarrow> has_reason Conflict err) then delete_loop K every inp w2
                  else Some (Inl api_failure, w2))))"

definition DeleteJob :: "options \<Rightarrow> 'k cluster \<Rightarrow> delete_job_input \<Rightarrow> 'k api \<Rightarrow>
    ((wf_error + launch_observation) \<times> 'k api) option" where
  "DeleteJob opts K inp w = delete_loop K (op_ObserveInterval opts) inp w"

end
