(* ===== verification/LauncherCalls.thy ===== *)
theory LauncherCalls
  imports Launcher "HOL-Library.Multiset"
begin

text \<open>
  What the launcher's calls show: a create submits at most one Job and never reports a
  request that may have been stored as settled; a delete is bound to the Job just observed
  and never touches an object whose request is unaccounted for; the observations end and
  put the Job's own Pods first.
\<close>

section \<open>Creating\<close>

fun is_job_create :: "api_call \<Rightarrow> bool" where
  "is_job_create (CreatedJob _ _) \<longleftrightarrow> True"
| "is_job_create _ \<longleftrightarrow> False"

fun is_secret_create :: "api_call \<Rightarrow> bool" where
  "is_secret_create (CreatedSecret _ _) \<longleftrightarrow> True"
| "is_secret_create _ \<longleftrightarrow> False"

text \<open>The API server may hold the object of a failed create.\<close>

definition may_be_stored :: "api_error \<times> bool \<Rightarrow> bool" where
  "may_be_stored f \<longleftrightarrow> snd f \<and> \<not> rejected (fst f) \<and> \<not> has_reason AlreadyExists (fst f)"

text \<open>What an answer of \<open>CreateJob\<close> may say after a call: a failed create that may be stored is reported unresolved.\<close>

fun honest :: "wf_error + job_ref \<Rightarrow> api_call \<Rightarrow> bool" where
  "honest res (CreatedJob m (Inl f)) \<longleftrightarrow> (may_be_stored f \<longrightarrow> res = Inl api_failure)"
| "honest res (CreatedJob m (Inr job)) \<longleftrightarrow>
     res = Inr \<lparr>jr_JobUID = jb_UID job, jr_Request = requestOf (jb_Annotations job)\<rparr>"
| "honest res (CreatedSecret m (Inl f)) \<longleftrightarrow> (may_be_stored f \<longrightarrow> res = Inl api_failure)"
| "honest res _ \<longleftrightarrow> True"

lemma honest_other: "\<not> is_job_create c \<Longrightarrow> \<not> is_secret_create c \<Longrightarrow> honest res c"
  by (cases "(res, c)" rule: honest.cases) auto

lemma existing_ref_calls:
  assumes "existing_ref K launch w = (res, w')"
  shows "\<exists>r. calls w' = GotJob (lr_LaunchKey launch) r # calls w"
  using assms by (auto simp: existing_ref_def api_defs split: prod.splits sum.splits if_splits)

lemma classify_cases: "classify f = NotCreated \<or> classify f = api_failure"
  by (simp add: classify_def)

lemma submit_job_calls:
  assumes "submit_job K inp m w = (res, w')"
  shows "\<exists>r rest. calls w' = rest @ CreatedJob m r # calls w \<and> length rest \<le> 1 \<and>
    list_all (\<lambda>c. \<not> is_job_create c \<and> \<not> is_secret_create c) rest \<and> honest res (CreatedJob m r)"
proof -
  obtain r w1 where one: "create_job K m w = (r, w1)" by fastforce
  then have c1: "calls w1 = CreatedJob m r # calls w" by (auto simp: api_defs split: prod.splits)
  show ?thesis
  proof (cases r)
    case (Inr job)
    then show ?thesis using assms one c1 by (intro exI [of _ r] exI [of _ "[]"]) (auto simp: submit_job_def)
  next
    case (Inl f)
    show ?thesis
    proof (cases "has_reason AlreadyExists (fst f)")
      case True
      obtain ref w2 where two: "existing_ref K (cj_Launch inp) w1 = (ref, w2)" by fastforce
      obtain g where "calls w2 = GotJob (lr_LaunchKey (cj_Launch inp)) g # calls w1" using existing_ref_calls [OF two] by blast
      moreover have "w' = w2" using assms one Inl True two by (auto simp: submit_job_def split: sum.splits)
      ultimately show ?thesis using c1 Inl True
        by (intro exI [of _ r] exI [of _ "[GotJob (lr_LaunchKey (cj_Launch inp)) g]"]) (simp add: may_be_stored_def)
    next
      case False
      then show ?thesis using assms one c1 Inl
        by (intro exI [of _ r] exI [of _ "[]"]) (auto simp: submit_job_def may_be_stored_def classify_def)
    qed
  qed
qed

lemma createLaunchSecret_calls:
  assumes "createLaunchSecret K inp m w = (err, w')"
  shows "calls w' = calls w \<and> err = Some NotCreated \<or>
    (\<exists>s r. calls w' = CreatedSecret s r # calls w \<and> s = secret_for inp m (the (fst (k_random K (kst w)))) \<and>
      (case err of None \<Rightarrow> (case r of Inl f \<Rightarrow> \<not> may_be_stored f | Inr _ \<Rightarrow> True)
         | Some e \<Rightarrow> honest (Inl e) (CreatedSecret s r)))"
proof -
  obtain raw k where rnd: "k_random K (kst w) = (raw, k)" by fastforce
  show ?thesis
  proof (cases raw)
    case None
    then show ?thesis using assms rnd by (simp add: createLaunchSecret_def) auto
  next
    case (Some bytes)
    let ?s = "secret_for inp m bytes"
    obtain r w1 where cr: "create_secret K ?s (w\<lparr>kst := k\<rparr>) = (r, w1)" by fastforce
    then have log: "calls w1 = CreatedSecret ?s r # calls w" by (auto simp: api_defs split: prod.splits)
    have "w' = w1" using assms rnd Some cr by (auto simp: createLaunchSecret_def split: sum.splits if_splits)
    moreover have "case err of None \<Rightarrow> (case r of Inl f \<Rightarrow> \<not> may_be_stored f | Inr _ \<Rightarrow> True)
         | Some e \<Rightarrow> honest (Inl e) (CreatedSecret ?s r)"
    proof (cases r)
      case (Inl f)
      then show ?thesis using assms rnd Some cr
        by (auto simp: createLaunchSecret_def may_be_stored_def classify_def split: if_splits)
    next
      case (Inr u)
      then show ?thesis using assms rnd Some cr by (auto simp: createLaunchSecret_def)
    qed
    ultimately show ?thesis using log rnd Some by (intro disjI2 exI [of _ ?s] exI [of _ r]) simp
  qed
qed

lemma CreateJob_calls:
  assumes "CreateJob ct opts K inp w = (res, w')"
  shows "\<exists>new. calls w' = new @ calls w \<and> list_all (honest res) new \<and>
    length (filter is_job_create new) \<le> 1 \<and> length (filter is_secret_create new) \<le> 1 \<and>
    list_all (\<lambda>c. case c of CreatedJob m r \<Rightarrow>
        (case profile_for ct opts (cj_ProfileID inp) of Inl _ \<Rightarrow> False
         | Inr p \<Rightarrow> jobSpec ct opts inp p (at K w) = Some m) | _ \<Rightarrow> True) new"
proof (cases "profile_for ct opts (cj_ProfileID inp)")
  case (Inl err)
  then show ?thesis using assms by (auto simp: CreateJob_def)
next
  case (Inr p)
  show ?thesis
  proof (cases "im_Digest (pf_Image p) \<noteq> lr_ImageDigest (cj_Launch inp) \<or> \<not> cj_Deadline inp > at K w \<or>
      jobSpec ct opts inp p (at K w) = None")
    case True
    obtain r w1 where ex: "existing_ref K (cj_Launch inp) w = (r, w1)" by fastforce
    obtain g where "calls w1 = GotJob (lr_LaunchKey (cj_Launch inp)) g # calls w" using existing_ref_calls [OF ex] by blast
    moreover have "w' = w \<or> w' = w1" using assms Inr True ex by (auto simp: CreateJob_def split: if_splits sum.splits)
    ultimately show ?thesis
      by (elim disjE) (auto intro: exI [of _ "[]"] exI [of _ "[GotJob (lr_LaunchKey (cj_Launch inp)) g]"])
  next
    case False
    then obtain m where m: "jobSpec ct opts inp p (at K w) = Some m" by auto
    obtain err w1 where sec: "(if pf_SidecarImage p \<noteq> None then createLaunchSecret K inp m w else (None, w)) = (err, w1)"
      by fastforce
    have run: "(res, w') = (case err of Some e \<Rightarrow> (Inl e, w1) | None \<Rightarrow> submit_job K inp m w1)"
      using assms Inr False m sec by (simp add: CreateJob_def split: option.splits)
    have first: "calls w1 = calls w \<or> (\<exists>s r. calls w1 = CreatedSecret s r # calls w \<and>
        (case err of None \<Rightarrow> (case r of Inl f \<Rightarrow> \<not> may_be_stored f | Inr _ \<Rightarrow> True)
         | Some e \<Rightarrow> honest (Inl e) (CreatedSecret s r)))"
      using sec createLaunchSecret_calls [of K inp m w err w1] by (auto split: if_splits)
    show ?thesis
    proof (cases err)
      case (Some e)
      then have "res = Inl e" "w' = w1" using run by simp_all
      with first Some show ?thesis by (elim disjE exE) (auto intro: exI [of _ "[]"] exI [of _ "[CreatedSecret _ _]"])
    next
      case None
      then have sub: "submit_job K inp m w1 = (res, w')" using run by simp
      from submit_job_calls [OF this] obtain r rest where last: "calls w' = rest @ CreatedJob m r # calls w1"
        "length rest \<le> 1" "list_all (\<lambda>c. \<not> is_job_create c \<and> \<not> is_secret_create c) rest" "honest res (CreatedJob m r)" by blast
      have rest: "list_all (honest res) rest" "filter is_job_create rest = []" "filter is_secret_create rest = []"
        "list_all (\<lambda>c. case c of CreatedJob _ _ \<Rightarrow> False | _ \<Rightarrow> True) rest"
        using last(3) honest_other by (auto simp: list_all_iff filter_empty_conv split: api_call.split)
      have spec: "list_all (\<lambda>c. case c of CreatedJob m' r \<Rightarrow> (case profile_for ct opts (cj_ProfileID inp) of Inl _ \<Rightarrow> False
         | Inr p \<Rightarrow> jobSpec ct opts inp p (at K w) = Some m') | _ \<Rightarrow> True) rest"
        using rest(4) by (auto simp: list_all_iff split: api_call.splits)
      from first show ?thesis
      proof (elim disjE conjE exE)
        assume "calls w1 = calls w"
        then show ?thesis using last rest spec Inr m by (intro exI [of _ "rest @ [CreatedJob m r]"]) simp
      next
        fix s q
        assume "calls w1 = CreatedSecret s q # calls w"
          "case err of None \<Rightarrow> (case q of Inl f \<Rightarrow> \<not> may_be_stored f | Inr _ \<Rightarrow> True) | Some e \<Rightarrow> honest (Inl e) (CreatedSecret s q)"
        then show ?thesis using last rest spec Inr m None
          by (intro exI [of _ "rest @ [CreatedJob m r, CreatedSecret s q]"]) (cases q; simp)
      qed
    qed
  qed
qed

section \<open>Deleting\<close>

text \<open>What the last two calls of a log read under a key, the Job (\<open>None\<close> when not found) and its Pods.\<close>

fun last_read :: "string \<Rightarrow> api_call list \<Rightarrow> (job_object option \<times> pod_object list) option" where
  "last_read key (ListedPods key1 (Inr pods) # GotJob key2 r # log) =
     (if key1 \<noteq> key \<or> key2 \<noteq> key then None
      else case r of Inr job \<Rightarrow> Some (Some job, pods)
         | Inl err \<Rightarrow> if has_reason NotFound err then Some (None, pods) else None)"
| "last_read key _ = None"

text \<open>
  Every delete of the log follows a read of the key: a Job is deleted under the UID just
  read, with no marker on it or on a Pod that is still to be recorded; the Secret only after
  the key was read empty. Nothing is created.
\<close>

fun evidence_first :: "delete_job_input \<Rightarrow> api_call list \<Rightarrow> bool" where
  "evidence_first inp [] \<longleftrightarrow> True"
| "evidence_first inp (call # log) \<longleftrightarrow> evidence_first inp log \<and>
     (case call of
        DeletedJob key uid r \<Rightarrow> key = lr_LaunchKey (dj_Launch inp) \<and>
          (case last_read key log of
             Some (Some job, pods) \<Rightarrow> uid = jb_UID job \<and> \<not> unrecorded inp (launchObservation (Some job) pods key 0)
           | _ \<Rightarrow> False)
      | DeletedSecret key r \<Rightarrow> key = lr_LaunchKey (dj_Launch inp) \<and> last_read key log = Some (None, [])
      | CreatedJob m r \<Rightarrow> False
      | CreatedSecret m r \<Rightarrow> False
      | _ \<Rightarrow> True)"

lemma unrecorded_at: "unrecorded inp (launchObservation job pods key t) = unrecorded inp (launchObservation job pods key 0)"
  by (simp add: unrecorded_def list_ex_iff set_lo_Requests)

lemma read_key_reads:
  assumes "read_key K key w = (Inr (job, pods), w1)"
  shows "last_read key (calls w1) = Some (job, pods)" "evidence_first inp (calls w1) = evidence_first inp (calls w)"
  using assms by (auto simp: read_key_def api_defs split: prod.splits sum.splits if_splits)

lemma read_key_fails:
  assumes "read_key K key w = (Inl err, w1)"
  shows "evidence_first inp (calls w1) = evidence_first inp (calls w)" "err = api_failure"
  using assms by (auto simp: read_key_def api_defs split: prod.splits sum.splits if_splits)

lemma pause_logs: "pause K d w = (b, w') \<Longrightarrow> evidence_first inp (calls w') = evidence_first inp (calls w)"
  by (auto simp: api_defs split: prod.splits)

lemma delete_job_logs:
  assumes "delete_job K key uid w = (r, w')"
  shows "calls w' = DeletedJob key uid r # calls w"
  using assms by (auto simp: api_defs split: prod.splits)

lemma delete_secret_logs:
  assumes "delete_secret K key w = (r, w')"
  shows "calls w' = DeletedSecret key r # calls w"
  using assms by (auto simp: api_defs split: prod.splits)

definition delete_answer :: "delete_job_input \<Rightarrow> wf_error + launch_observation \<Rightarrow> 'k api \<Rightarrow> bool" where
  "delete_answer inp res w \<longleftrightarrow>
     (case res of
        Inl err \<Rightarrow> err = api_failure
      | Inr obs \<Rightarrow> unrecorded inp obs \<or>
          obs = no_observation \<and> (\<exists>r log. calls w = DeletedSecret (lr_LaunchKey (dj_Launch inp)) r # log \<and>
            last_read (lr_LaunchKey (dj_Launch inp)) log = Some (None, [])))"

lemma delete_loop_calls:
  assumes "delete_loop K every inp w = Some v" and "evidence_first inp (calls w)"
  shows "evidence_first inp (calls (snd v)) \<and> delete_answer inp (fst v) (snd v)"
  using assms
proof (induction rule: delete_loop.raw_induct [rotated 1, consumes 1, case_names 1])
  case (1 loop K every inp w v)
  let ?key = "lr_LaunchKey (dj_Launch inp)"
  obtain r w1 where rd: "read_key K ?key w = (r, w1)" by fastforce
  show ?case
  proof (cases r)
    case (Inl err)
    then show ?thesis using 1(2,3) rd read_key_fails [OF rd [unfolded Inl]] by (auto simp: delete_answer_def)
  next
    case (Inr jp)
    obtain job pods where jp: "jp = (job, pods)" by fastforce
    let ?obs = "launchObservation job pods ?key (at K w1)"
    have reads: "last_read ?key (calls w1) = Some (job, pods)" "evidence_first inp (calls w1)"
      using read_key_reads [OF rd [unfolded Inr jp]] 1(3) by simp_all
    show ?thesis
    proof (cases "unrecorded inp ?obs")
      case True
      then show ?thesis using 1(2) rd Inr jp reads by (auto simp: delete_answer_def)
    next
      case False
      have rec: "\<not> unrecorded inp (launchObservation job pods ?key 0)" using False unrecorded_at by blast
      have cont: ?thesis if "(case pause K every u of (b, w2) \<Rightarrow> if b then Some (Inl api_failure, w2) else loop K every inp w2) = Some v"
        "evidence_first inp (calls u)" for u
      proof -
        obtain b w2 where p: "pause K every u = (b, w2)" by fastforce
        then have "evidence_first inp (calls w2)" using that(2) pause_logs by blast
        then show ?thesis using that(1) p 1(1) by (cases b) (auto simp: delete_answer_def)
      qed
      show ?thesis
      proof (cases job)
        case None
        show ?thesis
        proof (cases "pods = []")
          case True
          obtain q w2 where d: "delete_secret K ?key w1 = (q, w2)" by fastforce
          then have "calls w2 = DeletedSecret ?key q # calls w1" by (rule delete_secret_logs)
          then show ?thesis using 1(2) rd Inr jp False None True d reads
            by (auto simp: delete_answer_def split: if_splits)
        next
          case pods: False
          then show ?thesis using 1(2) rd Inr jp False None cont reads by simp
        qed
      next
        case (Some j)
        obtain q w2 where d: "delete_job K ?key (jb_UID j) w1 = (q, w2)" by fastforce
        have log: "evidence_first inp (calls w2)"
          using delete_job_logs [OF d] reads rec Some by simp
        show ?thesis
        proof (cases "case q of None \<Rightarrow> True | Some err \<Rightarrow> has_reason NotFound err")
          case True
          then show ?thesis using 1(2) rd Inr jp False Some d cont [OF _ log] by simp
        next
          case nf: False
          show ?thesis
          proof (cases "case q of None \<Rightarrow> False | Some err \<Rightarrow> has_reason Conflict err")
            case True
            then show ?thesis using 1(2) rd Inr jp False Some d nf 1(1) log by simp
          next
            case c: False
            then show ?thesis using 1(2) rd Inr jp False Some d nf log by (auto simp: delete_answer_def)
          qed
        qed
      qed
    qed
  qed
qed

section \<open>The order of the Pods\<close>

text \<open>The comparison \<open>podsInOwnerOrder\<close> sorts by, and a stable insertion sort by it.\<close>

definition pod_before :: "string \<Rightarrow> pod_object \<Rightarrow> pod_object \<Rightarrow> bool" where
  "pod_before jobUID p q =
     (if ownedBy p jobUID \<noteq> ownedBy q jobUID then ownedBy p jobUID else pd_Created p < pd_Created q)"

fun insert_stable :: "('a \<Rightarrow> 'a \<Rightarrow> bool) \<Rightarrow> 'a \<Rightarrow> 'a list \<Rightarrow> 'a list" where
  "insert_stable before x [] = [x]"
| "insert_stable before x (y # ys) = (if before y x then y # insert_stable before x ys else x # y # ys)"

fun sort_stable :: "('a \<Rightarrow> 'a \<Rightarrow> bool) \<Rightarrow> 'a list \<Rightarrow> 'a list" where
  "sort_stable before [] = []"
| "sort_stable before (x # xs) = insert_stable before x (sort_stable before xs)"

lemma insert_own:
  assumes "ownedBy x uid" "\<forall>p \<in> set xs. ownedBy p uid" "\<forall>p \<in> set ys. \<not> ownedBy p uid"
  shows "insert_stable (pod_before uid) x (xs @ ys) = insort_key pd_Created x xs @ ys"
  using assms
proof (induction xs)
  case Nil
  then show ?case by (cases ys) (auto simp: pod_before_def)
qed (auto simp: pod_before_def)

lemma insert_other:
  assumes "\<not> ownedBy x uid" "\<forall>p \<in> set xs. ownedBy p uid" "\<forall>p \<in> set ys. \<not> ownedBy p uid"
  shows "insert_stable (pod_before uid) x (xs @ ys) = xs @ insort_key pd_Created x ys"
  using assms(2)
proof (induction xs)
  case Nil
  show ?case using assms(1,3) by (induction ys) (auto simp: pod_before_def)
next
  case (Cons p xs)
  then show ?case using assms(1) by (simp add: pod_before_def)
qed

lemma podsInOwnerOrder_stable: "podsInOwnerOrder pods uid = sort_stable (pod_before uid) pods"
proof (induction pods)
  case Nil
  show ?case by (simp add: podsInOwnerOrder_def)
next
  case (Cons x pods)
  let ?own = "sort_key pd_Created (filter (\<lambda>p. ownedBy p uid) pods)"
  let ?other = "sort_key pd_Created (filter (\<lambda>p. \<not> ownedBy p uid) pods)"
  have "sort_stable (pod_before uid) (x # pods) = insert_stable (pod_before uid) x (?own @ ?other)"
    using Cons by (simp add: podsInOwnerOrder_def)
  also have "\<dots> = podsInOwnerOrder (x # pods) uid"
    by (cases "ownedBy x uid") (simp_all add: insert_own insert_other podsInOwnerOrder_def)
  finally show ?case by simp
qed

lemma mset_podsInOwnerOrder: "mset (podsInOwnerOrder pods uid) = mset pods"
proof -
  have "mset (filter P xs) + mset (filter (\<lambda>x. \<not> P x) xs) = mset xs" for P and xs :: "pod_object list"
    by (induction xs) auto
  then show ?thesis by (simp add: podsInOwnerOrder_def)
qed

lemma podsInOwnerOrder_hd:
  assumes "\<exists>p \<in> set pods. ownedBy p uid"
  shows "ownedBy (hd (podsInOwnerOrder pods uid)) uid"
proof -
  let ?own = "sort_key pd_Created (filter (\<lambda>p. ownedBy p uid) pods)"
  have ne: "?own \<noteq> []" using assms by (metis (mono_tags, lifting) filter_empty_conv set_empty set_sort)
  then have "hd ?own \<in> set ?own" by (rule hd_in_set)
  then show ?thesis using ne by (simp add: podsInOwnerOrder_def)
qed

section \<open>Observing\<close>

text \<open>The clock of a cluster: no call turns it back, and a wait that is not cut short lasts as long as asked.\<close>

definition keeps_time :: "'k cluster \<Rightarrow> bool" where
  "keeps_time K \<longleftrightarrow>
     (\<forall>key k r k'. k_get_job K key k = (r, k') \<longrightarrow> k_now K k \<le> k_now K k') \<and>
     (\<forall>key k r k'. k_list_pods K key k = (r, k') \<longrightarrow> k_now K k \<le> k_now K k') \<and>
     (\<forall>d k k'. k_wait K d k = (False, k') \<longrightarrow> k_now K k + d \<le> k_now K k')"

lemma get_job_time: "keeps_time K \<Longrightarrow> get_job K key w = (r, w') \<Longrightarrow> at K w \<le> at K w'"
  by (auto simp: keeps_time_def api_defs split: prod.splits)

lemma list_pods_time: "keeps_time K \<Longrightarrow> list_pods K key w = (r, w') \<Longrightarrow> at K w \<le> at K w'"
  by (auto simp: keeps_time_def api_defs split: prod.splits)

lemma pause_time: "keeps_time K \<Longrightarrow> pause K d w = (False, w') \<Longrightarrow> at K w + d \<le> at K w'"
  by (auto simp: keeps_time_def api_defs split: prod.splits)

lemma read_launch_time: "keeps_time K \<Longrightarrow> read_launch K key w = (r, w') \<Longrightarrow> at K w \<le> at K w'"
  using get_job_time list_pods_time
  by (fastforce simp: read_launch_def split: prod.splits sum.splits)

lemma read_key_time: "keeps_time K \<Longrightarrow> read_key K key w = (r, w') \<Longrightarrow> at K w \<le> at K w'"
  using get_job_time list_pods_time
  by (fastforce simp: read_key_def split: prod.splits sum.splits if_splits)

lemma cadence_wait_time: "keeps_time K \<Longrightarrow> cadence_wait K next w = (False, w') \<Longrightarrow> next \<le> at K w' \<and> at K w \<le> at K w'"
  by (auto simp: cadence_wait_def split: if_splits dest: pause_time)

lemma cadence_next_advances: "0 < every \<Longrightarrow> next + every \<le> cadence_next every next t"
  by (simp add: cadence_next_def Let_def)

definition late :: "observe_job_input \<Rightarrow> duration \<Rightarrow> time \<Rightarrow> bool" where
  "late inp grace t \<longleftrightarrow> t > oj_Deadline inp + grace"

text \<open>An observation's answer: an error, or what a last read showed, and why it ended.\<close>

definition observed :: "(pod_object list \<Rightarrow> string \<Rightarrow> time \<Rightarrow> bool) \<Rightarrow> duration \<Rightarrow> observe_job_input \<Rightarrow> 'k cluster \<Rightarrow>
    wf_error + job_observation \<Rightarrow> 'k api \<Rightarrow> bool" where
  "observed stop grace inp K res w \<longleftrightarrow>
     (case res of
        Inl err \<Rightarrow> err = api_failure \<or> err = CanceledError
      | Inr obs \<Rightarrow> \<exists>job pods log. let ordered = podsInOwnerOrder pods (jb_UID job) in
          calls w = ListedPods (lr_LaunchKey (oj_Launch inp)) (Inr pods) # GotJob (lr_LaunchKey (oj_Launch inp)) (Inr job) # log \<and>
          jo_JobUID obs = jb_UID job \<and> jo_Pods obs = map (\<lambda>p. observePod p (at K w)) ordered \<and>
          (if job_reason job \<noteq> '''' \<or> stop ordered (jb_UID job) (at K w) then jo_Reason obs = job_reason job
           else jo_Reason obs = ''DeadlineExceeded'' \<and> late inp grace (at K w)))"

lemma read_launch_calls:
  assumes "read_launch K key w = (Inr (job, pods), w1)"
  shows "calls w1 = ListedPods key (Inr pods) # GotJob key (Inr job) # calls w"
  using assms by (auto simp: read_launch_def api_defs split: prod.splits sum.splits)

lemma observe_loop_returns:
  assumes "keeps_time K" "0 < every"
  shows "\<exists>res w'. observe_loop K every stop grace inp next w = Some (res, w') \<and> observed stop grace inp K res w'"
proof (induction "nat (oj_Deadline inp + grace + every + every - next)" arbitrary: "next" w rule: less_induct)
  case less
  let ?limit = "oj_Deadline inp + grace"
  obtain r w1 where rd: "read_launch K (lr_LaunchKey (oj_Launch inp)) w = (r, w1)" by fastforce
  obtain over w2 where cw: "cadence_wait K next w1 = (over, w2)" by fastforce
  have again: "\<exists>res w'. (if over then Some (Inl CanceledError, w2)
      else observe_loop K every stop grace inp (cadence_next every next (at K w1)) w2) = Some (res, w') \<and>
      observed stop grace inp K res w'" if "at K w1 \<le> ?limit"
  proof (cases over)
    case False
    note c = cadence_wait_time [OF assms(1), of "next" w1 w2]
    have c: "next \<le> at K w2" using c cw False by simp
    show ?thesis
    proof (cases "next < ?limit + every + every")
      case True
      have "nat (?limit + every + every - cadence_next every next (at K w1)) < nat (?limit + every + every - next)"
        using True cadence_next_advances [OF assms(2), of "next" "at K w1"] assms(2) by linarith
      from less [OF this] False show ?thesis by simp
    next
      case late: False
      obtain r3 w3 where rd3: "read_launch K (lr_LaunchKey (oj_Launch inp)) w2 = (r3, w3)" by fastforce
      have "at K w3 > ?limit" using read_launch_time [OF assms(1) rd3] c late assms(2) by linarith
      then show ?thesis using False rd3 read_launch_calls [of K "lr_LaunchKey (oj_Launch inp)" w2]
        by (subst observe_loop.simps) (auto simp: observed_def late_def Let_def split: sum.splits)
    qed
  qed (simp add: observed_def)
  show ?case
  proof (cases r)
    case (Inl err)
    then show ?thesis using rd again cw by (subst observe_loop.simps) (auto simp: observed_def)
  next
    case (Inr jp)
    then show ?thesis using rd again cw read_launch_calls [of K "lr_LaunchKey (oj_Launch inp)" w "fst jp" "snd jp" w1]
      by (subst observe_loop.simps) (auto simp: observed_def late_def Let_def)
  qed
qed

text \<open>\<open>ObserveLaunch\<close> answers what its last read of the key showed, or that nothing was seen in time.\<close>

definition launch_answer :: "observe_launch_input \<Rightarrow> 'k cluster \<Rightarrow> wf_error + launch_observation \<Rightarrow> 'k api \<Rightarrow> bool" where
  "launch_answer inp K res w \<longleftrightarrow>
     (case res of
        Inl err \<Rightarrow> err = api_failure
      | Inr obs \<Rightarrow> \<exists>job pods. last_read (lr_LaunchKey (ol_Launch inp)) (calls w) = Some (job, pods) \<and>
          (job \<noteq> None \<or> pods \<noteq> []) \<and> obs = launchObservation job pods (lr_LaunchKey (ol_Launch inp)) (at K w))"

lemma observe_launch_loop_returns:
  assumes "keeps_time K" "0 < every"
  shows "\<exists>res w'. observe_launch_loop K every inp started w = Some (res, w') \<and> launch_answer inp K res w'"
proof (induction "nat (started + ol_SettleWindow inp - at K w)" arbitrary: w rule: less_induct)
  case less
  let ?key = "lr_LaunchKey (ol_Launch inp)"
  obtain r w1 where rd: "read_key K ?key w = (r, w1)" by fastforce
  show ?case
  proof (cases r)
    case (Inl err)
    then show ?thesis using rd read_key_fails(2) [OF rd [unfolded Inl]]
      by (subst observe_launch_loop.simps) (simp add: launch_answer_def)
  next
    case (Inr jp)
    obtain job pods where jp: "jp = (job, pods)" by fastforce
    note reads = read_key_reads(1) [OF rd [unfolded Inr jp]]
    show ?thesis
    proof (cases "(job \<noteq> None \<or> pods \<noteq> []) \<or> at K w1 - started \<ge> ol_SettleWindow inp")
      case True
      then show ?thesis using rd Inr jp reads by (subst observe_launch_loop.simps) (auto simp: launch_answer_def)
    next
      case False
      obtain over w2 where p: "pause K every w1 = (over, w2)" by fastforce
      show ?thesis
      proof (cases over)
        case True
        then show ?thesis using rd Inr jp False p by (subst observe_launch_loop.simps) (simp add: launch_answer_def)
      next
        case over: False
        have "at K w \<le> at K w1" "at K w1 + every \<le> at K w2"
          using read_key_time [OF assms(1) rd] pause_time [OF assms(1), of every w1 w2] p over by simp_all
        then have "nat (started + ol_SettleWindow inp - at K w2) < nat (started + ol_SettleWindow inp - at K w)"
          using False assms(2) by linarith
        from less [OF this] show ?thesis using rd Inr jp False p over
          by (subst observe_launch_loop.simps) simp
      qed
    qed
  qed
qed

section \<open>A delete ends\<close>

text \<open>
  The context of the call ends no later than \<open>over\<close>, and \<open>replaced\<close> bounds how often the
  Job under the key can still be replaced by another one, which is what a conflict reports.
\<close>

definition call_ends :: "'k cluster \<Rightarrow> time \<Rightarrow> ('k \<Rightarrow> nat) \<Rightarrow> bool" where
  "call_ends K over replaced \<longleftrightarrow>
     (\<forall>d k k'. k_wait K d k = (False, k') \<longrightarrow> k_now K k' \<le> over \<and> replaced k' \<le> replaced k) \<and>
     (\<forall>key k r k'. k_get_job K key k = (r, k') \<longrightarrow> replaced k' \<le> replaced k) \<and>
     (\<forall>key k r k'. k_list_pods K key k = (r, k') \<longrightarrow> replaced k' \<le> replaced k) \<and>
     (\<forall>key uid k r k'. k_delete_job K key uid k = (r, k') \<longrightarrow> replaced k' \<le> replaced k \<and> k_now K k \<le> k_now K k' \<and>
        (\<forall>code. r = Some (Answered Conflict code) \<longrightarrow> replaced k' < replaced k))"

lemma read_key_replaced:
  "call_ends K over replaced \<Longrightarrow> read_key K key w = (r, w') \<Longrightarrow> replaced (kst w') \<le> replaced (kst w)"
  unfolding call_ends_def read_key_def api_defs
  by (fastforce split: prod.splits sum.splits if_splits dest: le_trans)

lemma pause_ends:
  "call_ends K over replaced \<Longrightarrow> pause K d w = (False, w') \<Longrightarrow> at K w' \<le> over \<and> replaced (kst w') \<le> replaced (kst w)"
  by (auto simp: call_ends_def api_defs split: prod.splits)

lemma delete_job_replaced:
  "call_ends K over replaced \<Longrightarrow> delete_job K key uid w = (r, w') \<Longrightarrow>
   replaced (kst w') \<le> replaced (kst w) \<and> at K w \<le> at K w' \<and>
   ((case r of None \<Rightarrow> False | Some err \<Rightarrow> has_reason Conflict err) \<longrightarrow> replaced (kst w') < replaced (kst w))"
  unfolding call_ends_def api_defs
  by (fastforce split: prod.splits option.splits elim: has_reason.elims)

lemma delete_loop_returns:
  assumes "keeps_time K" "0 < every" "call_ends K over replaced"
  shows "\<exists>v. delete_loop K every inp w = Some v"
proof (induction w rule: wf_induct_rule
    [OF wf_measures [of "[\<lambda>w. nat (over - at K w + 1), \<lambda>w. replaced (kst w)]"]])
  case (1 w)
  let ?key = "lr_LaunchKey (dj_Launch inp)"
  have later: "\<exists>v. delete_loop K every inp u = Some v"
    if "nat (over - at K u + 1) < nat (over - at K w + 1) \<or>
      nat (over - at K u + 1) = nat (over - at K w + 1) \<and> replaced (kst u) < replaced (kst w)" for u
    by (rule 1) (use that in auto)
  obtain r w1 where rd: "read_key K ?key w = (r, w1)" by fastforce
  note t1 = read_key_time [OF assms(1) rd] and v1 = read_key_replaced [OF assms(3) rd]
  have wait: "\<exists>v. (case pause K every u of (b, w2) \<Rightarrow> if b then Some (Inl api_failure, w2) else delete_loop K every inp w2) = Some v"
    if "at K w \<le> at K u" for u
  proof -
    obtain b w2 where p: "pause K every u = (b, w2)" by fastforce
    show ?thesis
    proof (cases b)
      case False
      have "at K w < at K w2" "at K w2 \<le> over"
        using pause_time [OF assms(1), of every u w2] pause_ends [OF assms(3), of every u w2] p False that assms(2) by auto
      then have "\<exists>v. delete_loop K every inp w2 = Some v" by (intro later) linarith
      then show ?thesis using p False by simp
    qed (simp add: p)
  qed
  show ?case
  proof (cases r)
    case (Inl err)
    then show ?thesis using rd by (subst delete_loop.simps) simp
  next
    case (Inr jp)
    obtain job pods where jp: "jp = (job, pods)" by fastforce
    show ?thesis
    proof (cases job)
      case None
      then show ?thesis using rd Inr jp wait [OF t1]
        by (subst delete_loop.simps) (auto simp: Let_def split: prod.splits)
    next
      case (Some j)
      obtain q w2 where d: "delete_job K ?key (jb_UID j) w1 = (q, w2)" by fastforce
      note dt = delete_job_replaced [OF assms(3) d]
      have t2: "at K w \<le> at K w2" using t1 dt by simp
      have conflict: "\<exists>v. delete_loop K every inp w2 = Some v"
        if "case q of None \<Rightarrow> False | Some err \<Rightarrow> has_reason Conflict err"
        using that dt v1 t2 by (intro later) linarith
      show ?thesis
      proof (cases "unrecorded inp (launchObservation job pods ?key (at K w1))")
        case True
        then show ?thesis using rd Inr jp by (subst delete_loop.simps) simp
      next
        case False
        then show ?thesis using rd Inr jp Some d wait [OF t2] conflict
          by (subst delete_loop.simps) (simp add: Let_def)
      qed
    qed
  qed
qed

section \<open>A small API server\<close>

text \<open>
  One Job at most. A create is answered by a gateway timeout after the request was
  written, and its Job appears with the next wait; a delete removes the Job at once.
\<close>

datatype job_slot = Free | Pending job_object | Present job_object

record shelf_cluster =
  sc_slot :: job_slot
  sc_clock :: time

definition job_of :: "job_manifest \<Rightarrow> job_object" where
  "job_of m = \<lparr>jb_UID = ''uid-1'', jb_Labels = jm_Labels m, jb_Annotations = jm_Annotations m, jb_Conditions = []\<rparr>"

definition not_found :: api_error where
  "not_found = Answered NotFound 404"

fun slot_landed :: "job_slot \<Rightarrow> job_slot" where
  "slot_landed (Pending j) = Present j"
| "slot_landed s = s"

definition demo_cluster :: "shelf_cluster cluster" where
  "demo_cluster = \<lparr>
     k_get_job = (\<lambda>key k. (case sc_slot k of Present j \<Rightarrow> Inr j | _ \<Rightarrow> Inl not_found, k)),
     k_list_pods = (\<lambda>key k. (Inr [], k)),
     k_create_job = (\<lambda>m k. case sc_slot k of Present j \<Rightarrow> (Inl (Answered AlreadyExists 409, True), k)
        | _ \<Rightarrow> (Inl (Answered OtherReason 504, True), k\<lparr>sc_slot := Pending (job_of m)\<rparr>)),
     k_create_secret = (\<lambda>m k. (Inr (), k)),
     k_delete_job = (\<lambda>key uid k. case sc_slot k of Present j \<Rightarrow> (None, k\<lparr>sc_slot := Free\<rparr>) | _ \<Rightarrow> (Some not_found, k)),
     k_delete_secret = (\<lambda>key k. (None, k)),
     k_wait = (\<lambda>d k. (sc_clock k + max 0 d > 600 * second,
        k\<lparr>sc_slot := slot_landed (sc_slot k), sc_clock := sc_clock k + max 0 d\<rparr>)),
     k_random = (\<lambda>k. (Some ''xyz'', k)),
     k_now = sc_clock,
     k_ended = (\<lambda>k. sc_clock k > 600 * second)\<rparr>"

lemma demo_keeps_time: "keeps_time demo_cluster"
  by (auto simp: keeps_time_def demo_cluster_def)

lemma demo_call_ends: "call_ends demo_cluster (600 * second) (\<lambda>k. 0)"
  by (auto simp: call_ends_def demo_cluster_def second_def not_found_def split: job_slot.splits)

definition demo_job :: job_object where
  "demo_job = \<lparr>jb_UID = ''uid-1'', jb_Labels = [], jb_Annotations = request_annotations 2,
     jb_Conditions = [(''Complete'', True, ''done'')]\<rparr>"

definition demo_api :: "shelf_cluster api" where
  "demo_api = \<lparr>kst = \<lparr>sc_slot = Present demo_job, sc_clock = 0\<rparr>, calls = []\<rparr>"

lemma demo_interval [simp]: "op_ObserveInterval example_options = second" "0 < second"
  by (simp_all add: example_options_def second_def)

section \<open>Properties of the calls\<close>

text \<open>
  C17. One create request, honestly reported. Whatever the API server answers, a call of
  CreateJob creates at most one Job, and only the rendered template of the profile, and at
  most one Secret; and a create that may have been stored (it was written in full, was not
  refused and the name was free) is answered as unresolved, never as not created.
\<close>

theorem CreateJob_submits_once:
  "case CreateJob ct opts K inp w of (res, w') \<Rightarrow> \<exists>new. calls w' = new @ calls w \<and> list_all (honest res) new \<and>
    length (filter is_job_create new) \<le> 1 \<and> length (filter is_secret_create new) \<le> 1 \<and>
    list_all (\<lambda>c. case c of CreatedJob m r \<Rightarrow>
        (case profile_for ct opts (cj_ProfileID inp) of Inl _ \<Rightarrow> False
         | Inr p \<Rightarrow> jobSpec ct opts inp p (at K w) = Some m) | _ \<Rightarrow> True) new"
  using CreateJob_calls [of ct opts K inp w] by (cases "CreateJob ct opts K inp w") simp

text \<open>
  C16. Evidence first. When the clock of the API server advances, the call's context ends and
  the Job under the key is not replaced for ever, DeleteJob returns. Every delete it sent
  followed a read of the key: the Job under the UID just read, with every marker on it and
  on its Pods recorded, and the Secret only after the key was read empty. It answers the
  observation that is still to be recorded, or nothing after the key was read empty.
\<close>

theorem DeleteJob_evidence_first:
  assumes "keeps_time K" "0 < op_ObserveInterval opts" "call_ends K over replaced" "calls w = []"
  shows "\<exists>res w'. DeleteJob opts K inp w = Some (res, w') \<and> evidence_first inp (calls w') \<and> delete_answer inp res w'"
proof -
  obtain v where v: "delete_loop K (op_ObserveInterval opts) inp w = Some v"
    using delete_loop_returns [OF assms(1-3)] by blast
  from delete_loop_calls [OF v] assms(4) show ?thesis
    using v by (intro exI [of _ "fst v"] exI [of _ "snd v"]) (simp add: DeleteJob_def)
qed

theorem DeleteJob_evidence_first_witness:
  "\<exists>res w'. DeleteJob example_options demo_cluster
      \<lparr>dj_Launch = cj_Launch example_create, dj_Unaccounted = [], dj_EvidenceFirst = False, dj_Recorded = []\<rparr> demo_api = Some (res, w') \<and>
    evidence_first \<lparr>dj_Launch = cj_Launch example_create, dj_Unaccounted = [], dj_EvidenceFirst = False, dj_Recorded = []\<rparr> (calls w')"
  using DeleteJob_evidence_first [OF demo_keeps_time _ demo_call_ends, of example_options demo_api
      "\<lparr>dj_Launch = cj_Launch example_create, dj_Unaccounted = [], dj_EvidenceFirst = False, dj_Recorded = []\<rparr>"]
  by (fastforce simp: demo_api_def)

text \<open>
  The observations end. On an advancing clock ObserveJob, AwaitOwner and ObserveLaunch
  return for every behaviour of the API server, and what they answer is what their last
  read showed, the Job's own Pods first: ObserveJob and AwaitOwner end with the Job's
  finish, with the Pod they wait for, or past the deadline (which they say); ObserveLaunch
  answers an observation only of an object it saw.
\<close>

theorem observations_end:
  assumes "keeps_time K" "0 < op_ObserveInterval opts"
  shows "(\<exists>res w'. ObserveJob opts K inp w = Some (res, w') \<and> observed owner_terminal (30 * second) inp K res w') \<and>
    (\<exists>res w'. AwaitOwner opts K inp w = Some (res, w') \<and> observed (\<lambda>ordered uid t. owner_exists ordered uid) 0 inp K res w') \<and>
    (\<exists>res w'. ObserveLaunch opts K linp w = Some (res, w') \<and> launch_answer linp K res w')"
  unfolding ObserveJob_def AwaitOwner_def ObserveLaunch_def
  using observe_loop_returns [OF assms] observe_launch_loop_returns [OF assms] by blast

theorem observations_end_witness:
  "\<exists>res w'. ObserveJob example_options demo_cluster \<lparr>oj_Launch = cj_Launch example_create, oj_Deadline = minute\<rparr> demo_api = Some (res, w') \<and>
    observed owner_terminal (30 * second) \<lparr>oj_Launch = cj_Launch example_create, oj_Deadline = minute\<rparr> demo_cluster res w'"
  using observations_end [OF demo_keeps_time, of example_options "\<lparr>oj_Launch = cj_Launch example_create, oj_Deadline = minute\<rparr>" demo_api]
  by simp

text \<open>
  C40. The owner order. podsInOwnerOrder is the stable sort by the comparison of the source:
  it is a permutation of the listed Pods, and its first Pod is the Job's own whenever the
  Job has one.
\<close>

theorem podsInOwnerOrder_sorts:
  "podsInOwnerOrder pods uid = sort_stable (pod_before uid) pods \<and>
   mset (podsInOwnerOrder pods uid) = mset pods \<and>
   owner_exists (podsInOwnerOrder pods uid) uid = list_ex (\<lambda>p. ownedBy p uid) pods"
proof (intro conjI)
  show "owner_exists (podsInOwnerOrder pods uid) uid = list_ex (\<lambda>p. ownedBy p uid) pods"
  proof (cases "list_ex (\<lambda>p. ownedBy p uid) pods")
    case True
    then have "ownedBy (hd (podsInOwnerOrder pods uid)) uid" by (intro podsInOwnerOrder_hd) (simp add: list_ex_iff)
    moreover have "podsInOwnerOrder pods uid \<noteq> []" using True by (auto simp: list_ex_iff)
    ultimately show ?thesis using True by (cases "podsInOwnerOrder pods uid") (simp_all add: owner_exists_def)
  next
    case False
    then have "\<forall>p \<in> set (podsInOwnerOrder pods uid). \<not> ownedBy p uid" by (simp add: list_ex_iff)
    then have "\<not> owner_exists (podsInOwnerOrder pods uid) uid"
      unfolding owner_exists_def by (cases "podsInOwnerOrder pods uid") (simp_all del: set_podsInOwnerOrder podsInOwnerOrder_Nil)
    then show ?thesis using False by blast
  qed
qed (rule podsInOwnerOrder_stable mset_podsInOwnerOrder)+

text \<open>
  Markers round trip. The marker an observer reads from a Job created from the rendered
  template (and from the annotations its Pods and its Secret carry) is the ordinal of the
  create request that committed it, and the Job is stored under the launch key it is
  observed and deleted by.
\<close>

theorem marker_roundtrip:
  assumes "jobSpec ct opts inp p t = Some m" "0 < cj_Request inp" "cj_Request inp < 2 ^ 63"
  shows "requestOf (jm_Annotations m) = cj_Request inp \<and> jm_Name m = lr_LaunchKey (cj_Launch inp) \<and>
    index_map (jm_Labels m) labelLaunchKey = lr_LaunchKey (cj_Launch inp) \<and>
    index_map (jm_Labels m) labelAttempt = lr_AttemptID (cj_Launch inp) \<and>
    requestOf (se_Annotations (secret_for inp m raw)) = cj_Request inp"
proof -
  have "jm_Annotations m = request_annotations (cj_Request inp)" "jm_Name m = lr_LaunchKey (cj_Launch inp)"
    "\<exists>rest. jm_Labels m = (labelLaunchKey, lr_LaunchKey (cj_Launch inp)) # (labelAttempt, lr_AttemptID (cj_Launch inp)) # rest"
    using assms(1) by (auto simp: jobSpec_def split: option.splits if_splits)
  then show ?thesis using requestOf_annotations [OF assms(2,3)]
    by (auto simp: index_map_def labelLaunchKey_def labelAttempt_def secret_for_def)
qed

theorem marker_roundtrip_witness:
  "\<exists>m. jobSpec example_contract example_options example_create example_profile 0 = Some m \<and> requestOf (jm_Annotations m) = 2"
proof -
  obtain m where m: "jobSpec example_contract example_options example_create example_profile 0 = Some m" using example_job by blast
  have r: "cj_Request example_create = 2" by (simp add: example_create_def)
  from marker_roundtrip [OF m] m show ?thesis by (simp add: r)
qed

end
