(* ===== verification/LauncherTruth.thy ===== *)
theory LauncherTruth
  imports LauncherCalls LocalCheckWf
begin

text \<open>
  The launcher as the backend of the workflows. \<open>cluster_truthful\<close> states what the API
  server promises about one launch key: which create requests may still commit, which Jobs
  and Pods exist. \<open>launcher_behind\<close> says that the Activities of a runtime are the
  launcher's calls against that server. Together they refine the abstract backend the
  cleanup is verified against: the launcher is truthful, so a run of LocalCheck that states
  its cleanup leaves nothing behind in the cluster.
\<close>

section \<open>What the API server promises\<close>

text \<open>
  Of a cluster state: the markers of the create requests under the key that may still
  commit, those of its Jobs and of its Pods, and when a pending request is over.
\<close>

record 'k holdings =
  h_pend :: "'k \<Rightarrow> int set"
  h_jobs :: "'k \<Rightarrow> int set"
  h_pods :: "'k \<Rightarrow> int set"
  h_due :: "'k \<Rightarrow> int \<Rightarrow> time"

text \<open>
  Without a create, pending requests only commit or lapse, a Job comes from one that
  committed, a Pod from a Job, and the clock does not go back.
\<close>

definition moves :: "'k cluster \<Rightarrow> 'k holdings \<Rightarrow> 'k \<Rightarrow> 'k \<Rightarrow> bool" where
  "moves K G k k' \<longleftrightarrow> h_pend G k' \<subseteq> h_pend G k \<and>
     h_jobs G k' \<subseteq> h_jobs G k \<union> (h_pend G k - h_pend G k') \<and>
     h_pods G k' \<subseteq> h_pods G k \<union> h_jobs G k \<union> (h_pend G k - h_pend G k') \<and>
     (\<forall>r \<in> h_pend G k'. h_due G k' r \<le> h_due G k r) \<and> k_now K k \<le> k_now K k'"

definition objects :: "'k holdings \<Rightarrow> 'k \<Rightarrow> int set" where
  "objects G k = h_jobs G k \<union> h_pods G k"

definition cluster_truthful :: "'k cluster \<Rightarrow> string \<Rightarrow> duration \<Rightarrow> 'k holdings \<Rightarrow> bool" where
  "cluster_truthful K key life G \<longleftrightarrow>
     (\<forall>name k r k'. k_get_job K name k = (r, k') \<longrightarrow> moves K G k k' \<and>
        (name = key \<longrightarrow> (case r of Inr job \<Rightarrow> requestOf (jb_Annotations job) \<notin> h_pend G k'
          | Inl err \<Rightarrow> has_reason NotFound err \<longrightarrow> h_jobs G k' = {}))) \<and>
     (\<forall>name k r k'. k_list_pods K name k = (r, k') \<longrightarrow> moves K G k k' \<and>
        (name = key \<longrightarrow> (case r of Inr pods \<Rightarrow> (\<forall>p \<in> set pods. requestOf (pd_Annotations p) \<notin> h_pend G k') \<and>
          (pods = [] \<longrightarrow> h_pods G k' = {}) | Inl err \<Rightarrow> True))) \<and>
     (\<forall>m k r k'. k_create_job K m k = (r, k') \<longrightarrow> jm_Name m = key \<longrightarrow> k_now K k \<le> k_now K k' \<and>
        (\<forall>s \<in> h_pend G k'. s \<in> h_pend G k \<and> h_due G k' s \<le> h_due G k s \<or>
          (\<exists>f. r = Inl f \<and> may_be_stored f) \<and> s = requestOf (jm_Annotations m) \<and> h_due G k' s \<le> k_now K k' + life) \<and>
        (\<forall>job. r = Inr job \<longrightarrow> requestOf (jb_Annotations job) \<notin> h_pend G k')) \<and>
     (\<forall>m k r k'. k_create_secret K m k = (r, k') \<longrightarrow> moves K G k k') \<and>
     (\<forall>name uid k r k'. k_delete_job K name uid k = (r, k') \<longrightarrow> moves K G k k') \<and>
     (\<forall>name k r k'. k_delete_secret K name k = (r, k') \<longrightarrow> moves K G k k') \<and>
     (\<forall>d k b k'. k_wait K d k = (b, k') \<longrightarrow> moves K G k k') \<and>
     (\<forall>k r k'. k_random K k = (r, k') \<longrightarrow> moves K G k k') \<and>
     (\<forall>k. 0 \<notin> h_pend G k \<and> (\<forall>r \<in> h_pend G k. k_now K k < h_due G k r))"

lemma moves_refl [simp, intro]: "moves K G k k"
  by (simp add: moves_def)

lemma moves_trans [trans]:
  assumes "moves K G k k1" "moves K G k1 k2"
  shows "moves K G k k2"
proof -
  have p: "h_pend G k1 \<subseteq> h_pend G k" "h_pend G k2 \<subseteq> h_pend G k1" using assms by (simp_all add: moves_def)
  have j: "h_jobs G k1 \<subseteq> h_jobs G k \<union> (h_pend G k - h_pend G k1)" "h_jobs G k2 \<subseteq> h_jobs G k1 \<union> (h_pend G k1 - h_pend G k2)"
    using assms by (simp_all add: moves_def)
  have q: "h_pods G k1 \<subseteq> h_pods G k \<union> h_jobs G k \<union> (h_pend G k - h_pend G k1)"
    "h_pods G k2 \<subseteq> h_pods G k1 \<union> h_jobs G k1 \<union> (h_pend G k1 - h_pend G k2)"
    using assms by (simp_all add: moves_def)
  have d: "\<forall>r \<in> h_pend G k1. h_due G k1 r \<le> h_due G k r" "\<forall>r \<in> h_pend G k2. h_due G k2 r \<le> h_due G k1 r"
    "k_now K k \<le> k_now K k1" "k_now K k1 \<le> k_now K k2"
    using assms by (simp_all add: moves_def)
  have "h_jobs G k2 \<subseteq> h_jobs G k \<union> (h_pend G k - h_pend G k2)" using p j by blast
  moreover have "h_pods G k2 \<subseteq> h_pods G k \<union> h_jobs G k \<union> (h_pend G k - h_pend G k2)" using p j(1) q by blast
  moreover have "\<forall>r \<in> h_pend G k2. h_due G k2 r \<le> h_due G k r" using p(2) d(1,2) by (meson order_trans subsetD)
  ultimately show ?thesis using p d(3,4) unfolding moves_def by auto
qed

lemma moves_settling:
  assumes "moves K G k k'"
  shows "settling (h_pend G) (objects G) (h_due G) k k'"
proof -
  have "h_jobs G k' \<subseteq> h_jobs G k \<union> (h_pend G k - h_pend G k')"
    "h_pods G k' \<subseteq> h_pods G k \<union> h_jobs G k \<union> (h_pend G k - h_pend G k')" using assms by (simp_all add: moves_def)
  then have "objects G k' \<subseteq> objects G k \<union> (h_pend G k - h_pend G k')" unfolding objects_def by blast
  then show ?thesis using assms by (simp add: moves_def settling_def)
qed

lemma moves_pend: "moves K G k k' \<Longrightarrow> h_pend G k' \<subseteq> h_pend G k"
  by (simp add: moves_def)

section \<open>The launcher's calls\<close>

lemma get_job_moves:
  assumes "cluster_truthful K key life G" "get_job K name w = (r, w')"
  shows "moves K G (kst w) (kst w')"
    and "name = key \<Longrightarrow> r = Inr job \<Longrightarrow> requestOf (jb_Annotations job) \<notin> h_pend G (kst w')"
    and "name = key \<Longrightarrow> r = Inl err \<Longrightarrow> has_reason NotFound err \<Longrightarrow> h_jobs G (kst w') = {}"
proof -
  have call: "k_get_job K name (kst w) = (r, kst w')" using assms(2) by (auto simp: api_defs split: prod.splits)
  have "moves K G (kst w) (kst w') \<and> (name = key \<longrightarrow> (case r of Inr job \<Rightarrow> requestOf (jb_Annotations job) \<notin> h_pend G (kst w')
      | Inl err \<Rightarrow> has_reason NotFound err \<longrightarrow> h_jobs G (kst w') = {}))"
    using assms(1) [unfolded cluster_truthful_def, THEN conjunct1] call by blast
  then show "moves K G (kst w) (kst w')"
    "name = key \<Longrightarrow> r = Inr job \<Longrightarrow> requestOf (jb_Annotations job) \<notin> h_pend G (kst w')"
    "name = key \<Longrightarrow> r = Inl err \<Longrightarrow> has_reason NotFound err \<Longrightarrow> h_jobs G (kst w') = {}" by auto
qed

lemma list_pods_moves:
  assumes "cluster_truthful K key life G" "list_pods K name w = (r, w')"
  shows "moves K G (kst w) (kst w')"
    and "name = key \<Longrightarrow> r = Inr pods \<Longrightarrow> p \<in> set pods \<Longrightarrow> requestOf (pd_Annotations p) \<notin> h_pend G (kst w')"
    and "name = key \<Longrightarrow> r = Inr [] \<Longrightarrow> h_pods G (kst w') = {}"
proof -
  have call: "k_list_pods K name (kst w) = (r, kst w')" using assms(2) by (auto simp: api_defs split: prod.splits)
  have "moves K G (kst w) (kst w') \<and> (name = key \<longrightarrow> (case r of
      Inr pods \<Rightarrow> (\<forall>p \<in> set pods. requestOf (pd_Annotations p) \<notin> h_pend G (kst w')) \<and> (pods = [] \<longrightarrow> h_pods G (kst w') = {})
      | Inl err \<Rightarrow> True))"
    using assms(1) [unfolded cluster_truthful_def, THEN conjunct2, THEN conjunct1] call by blast
  then show "moves K G (kst w) (kst w')"
    "name = key \<Longrightarrow> r = Inr pods \<Longrightarrow> p \<in> set pods \<Longrightarrow> requestOf (pd_Annotations p) \<notin> h_pend G (kst w')"
    "name = key \<Longrightarrow> r = Inr [] \<Longrightarrow> h_pods G (kst w') = {}" by auto
qed

lemma other_moves:
  assumes "cluster_truthful K key life G"
  shows "create_secret K s w = (r1, w') \<Longrightarrow> moves K G (kst w) (kst w')"
    and "delete_job K name uid w = (r2, w') \<Longrightarrow> moves K G (kst w) (kst w')"
    and "delete_secret K name w = (r2, w') \<Longrightarrow> moves K G (kst w) (kst w')"
    and "pause K d w = (b, w') \<Longrightarrow> moves K G (kst w) (kst w')"
    and "k_random K k = (r3, k') \<Longrightarrow> moves K G k k'"
proof -
  have laws: "\<And>m k r k'. k_create_secret K m k = (r, k') \<Longrightarrow> moves K G k k'"
    "\<And>name uid k r k'. k_delete_job K name uid k = (r, k') \<Longrightarrow> moves K G k k'"
    "\<And>name k r k'. k_delete_secret K name k = (r, k') \<Longrightarrow> moves K G k k'"
    "\<And>d k b k'. k_wait K d k = (b, k') \<Longrightarrow> moves K G k k'"
    "\<And>k r k'. k_random K k = (r, k') \<Longrightarrow> moves K G k k'"
    using assms [unfolded cluster_truthful_def, THEN conjunct2, THEN conjunct2, THEN conjunct2]
    by - (elim conjE; simp)+
  show "create_secret K s w = (r1, w') \<Longrightarrow> moves K G (kst w) (kst w')"
    "delete_job K name uid w = (r2, w') \<Longrightarrow> moves K G (kst w) (kst w')"
    "delete_secret K name w = (r2, w') \<Longrightarrow> moves K G (kst w) (kst w')"
    "pause K d w = (b, w') \<Longrightarrow> moves K G (kst w) (kst w')"
    "k_random K k = (r3, k') \<Longrightarrow> moves K G k k'"
    by (auto simp: api_defs intro: laws split: prod.splits)
qed

lemma create_job_moves:
  assumes "cluster_truthful K key life G" "create_job K m w = (r, w')" "jm_Name m = key"
  shows "k_now K (kst w) \<le> k_now K (kst w')"
    and "s \<in> h_pend G (kst w') \<Longrightarrow> s \<in> h_pend G (kst w) \<and> h_due G (kst w') s \<le> h_due G (kst w) s \<or>
          (\<exists>f. r = Inl f \<and> may_be_stored f) \<and> s = requestOf (jm_Annotations m) \<and> h_due G (kst w') s \<le> k_now K (kst w') + life"
    and "r = Inr job \<Longrightarrow> requestOf (jb_Annotations job) \<notin> h_pend G (kst w')"
proof -
  have call: "k_create_job K m (kst w) = (r, kst w')" using assms(2) by (auto simp: api_defs split: prod.splits)
  note law = assms(1) [unfolded cluster_truthful_def, THEN conjunct2, THEN conjunct2, THEN conjunct1, rule_format, OF call assms(3)]
  show "k_now K (kst w) \<le> k_now K (kst w')" using law by blast
  show "s \<in> h_pend G (kst w') \<Longrightarrow> s \<in> h_pend G (kst w) \<and> h_due G (kst w') s \<le> h_due G (kst w) s \<or>
          (\<exists>f. r = Inl f \<and> may_be_stored f) \<and> s = requestOf (jm_Annotations m) \<and> h_due G (kst w') s \<le> k_now K (kst w') + life"
    using law by blast
  show "r = Inr job \<Longrightarrow> requestOf (jb_Annotations job) \<notin> h_pend G (kst w')" using law by blast
qed

lemma pending_laws: "cluster_truthful K key life G \<Longrightarrow> 0 \<notin> h_pend G k \<and> (\<forall>r \<in> h_pend G k. k_now K k < h_due G k r)"
  unfolding cluster_truthful_def by blast


text \<open>A read of the key: what it shows has committed, and what it does not show does not exist.\<close>

lemma read_key_truth:
  assumes "cluster_truthful K key life G" "read_key K name w = (r, w')"
  shows "moves K G (kst w) (kst w')"
    and "name = key \<Longrightarrow> r = Inr (job, pods) \<Longrightarrow> set (lo_Requests (launchObservation job pods name t)) \<inter> h_pend G (kst w') = {}"
    and "name = key \<Longrightarrow> r = Inr (None, []) \<Longrightarrow> objects G (kst w') \<subseteq> h_pend G (kst w) - h_pend G (kst w')"
proof -
  obtain q w1 where g: "get_job K name w = (q, w1)" by fastforce
  note gt = get_job_moves [OF assms(1) g]
  obtain l w2 where ls: "list_pods K name w1 = (l, w2)" by fastforce
  note lt = list_pods_moves [OF assms(1) ls]
  show "moves K G (kst w) (kst w')"
    using assms(2) g ls gt(1) moves_trans [OF gt(1) lt(1)]
    by (auto simp: read_key_def split: sum.splits if_splits)
  have ok: "w' = w2 \<and> l = Inr pods \<and> (case job of None \<Rightarrow> \<exists>err. q = Inl err \<and> has_reason NotFound err | Some j \<Rightarrow> q = Inr j)"
    if "r = Inr (job, pods)" for job pods
    using assms(2) g ls that by (auto simp: read_key_def split: sum.splits if_splits)
  show "set (lo_Requests (launchObservation job pods name t)) \<inter> h_pend G (kst w') = {}" if n: "name = key" and r: "r = Inr (job, pods)"
  proof -
    note ok = ok [OF r]
    have "requestOf (jb_Annotations j) \<notin> h_pend G (kst w')" if "job = Some j" for j
      using ok that gt(2) [OF n, of j] moves_pend [OF lt(1)] by auto
    moreover have "requestOf (pd_Annotations p) \<notin> h_pend G (kst w')" if "p \<in> set pods" for p
      using ok that lt(2) [OF n, of pods p] by auto
    ultimately show ?thesis by (auto simp: set_lo_Requests)
  qed
  show "objects G (kst w') \<subseteq> h_pend G (kst w) - h_pend G (kst w')" if n: "name = key" and r: "r = Inr (None, [])"
  proof -
    note ok = ok [OF r]
    then obtain err where "q = Inl err" "has_reason NotFound err" by auto
    then have "h_jobs G (kst w1) = {}" using gt(3) [OF n] by blast
    moreover have "h_pods G (kst w2) = {}" using lt(3) [OF n] ok by blast
    moreover have "h_jobs G (kst w2) \<subseteq> h_jobs G (kst w1) \<union> (h_pend G (kst w1) - h_pend G (kst w2))"
      using lt(1) by (simp add: moves_def)
    ultimately show ?thesis using ok moves_pend [OF gt(1)] unfolding objects_def by auto
  qed
qed

definition delete_truth :: "'k cluster \<Rightarrow> 'k holdings \<Rightarrow> bool \<Rightarrow> 'k \<Rightarrow> wf_error + launch_observation \<Rightarrow> 'k \<Rightarrow> bool" where
  "delete_truth K G same k res k' \<longleftrightarrow> moves K G k k' \<and>
     (case res of Inl err \<Rightarrow> True
      | Inr obs \<Rightarrow> same \<longrightarrow> set (lo_Requests obs) \<inter> h_pend G k' = {} \<and> (Empty obs \<longrightarrow> objects G k' \<subseteq> h_pend G k - h_pend G k'))"

lemma delete_truth_before:
  assumes "moves K G k k1" "delete_truth K G same k1 res k'"
  shows "delete_truth K G same k res k'"
proof -
  have "h_pend G k1 \<subseteq> h_pend G k" using assms(1) by (rule moves_pend)
  then show ?thesis using assms moves_trans [of K G k k1 k'] unfolding delete_truth_def
    by (cases res) auto
qed

lemma unrecorded_not_Empty: "unrecorded inp obs \<Longrightarrow> \<not> Empty obs"
  by (auto simp: unrecorded_def Empty_def)

lemma delete_loop_truth:
  assumes "delete_loop K every inp w = Some v"
    and "cluster_truthful K key life G" "lr_LaunchKey (dj_Launch inp) = name"
  shows "delete_truth K G (name = key) (kst w) (fst v) (kst (snd v))"
  using assms
proof (induction rule: delete_loop.raw_induct [rotated 1, consumes 1, case_names 1])
  case (1 loop K every inp w v)
  obtain r w1 where rd: "read_key K name w = (r, w1)" by fastforce
  note truth = read_key_truth [OF 1(3) rd]
  show ?case
  proof (cases r)
    case (Inl err)
    then show ?thesis using 1(2,4) rd truth(1) by (auto simp: delete_truth_def)
  next
    case (Inr jp)
    obtain job pods where jp: "jp = (job, pods)" by fastforce
    let ?obs = "launchObservation job pods name (at K w1)"
    show ?thesis
    proof (cases "unrecorded inp ?obs")
      case True
      then have "v = (Inr ?obs, w1)" using 1(2,4) rd Inr jp by simp
      then show ?thesis using truth(1) truth(2) [of job pods] Inr jp unrecorded_not_Empty [OF True]
        by (cases "name = key") (simp_all add: delete_truth_def)
    next
      case False
      have cont: ?thesis if run: "(case pause K every u of (b, w2) \<Rightarrow> if b then Some (Inl api_failure, w2) else loop K every inp w2) = Some v"
        and u: "moves K G (kst w) (kst u)" for u
      proof -
        obtain b w2 where p: "pause K every u = (b, w2)" by fastforce
        have m: "moves K G (kst w) (kst w2)" using moves_trans [OF u other_moves(4) [OF 1(3) p]] .
        show ?thesis
        proof (cases b)
          case True
          then show ?thesis using run p m by (auto simp: delete_truth_def)
        next
          case False
          then have "loop K every inp w2 = Some v" using run p by simp
          from 1(1) [OF this 1(3,4)] show ?thesis by (rule delete_truth_before [OF m])
        qed
      qed
      show ?thesis
      proof (cases job)
        case None
        show ?thesis
        proof (cases "pods = []")
          case True
          obtain q w2 where d: "delete_secret K name w1 = (q, w2)" by fastforce
          note m = other_moves(3) [OF 1(3) d]
          have v: "w2 = snd v \<and> (fst v = Inr no_observation \<or> (\<exists>err. fst v = Inl err))"
            using 1(2,4) rd Inr jp False None True d by (auto split: if_splits)
          have "objects G (kst w1) \<subseteq> h_pend G (kst w) - h_pend G (kst w1)" if "name = key"
            using truth(3) Inr jp None True that by simp
          moreover have "objects G (kst w2) \<subseteq> objects G (kst w1) \<union> (h_pend G (kst w1) - h_pend G (kst w2))"
            using moves_settling [OF m] by (simp add: settling_def)
          ultimately have "objects G (kst w2) \<subseteq> h_pend G (kst w) - h_pend G (kst w2)" if "name = key"
            using moves_pend [OF m] moves_pend [OF truth(1)] that by blast
          then show ?thesis using v moves_trans [OF truth(1) m]
            by (auto simp: delete_truth_def no_observation_def)
        next
          case pods: False
          then show ?thesis using 1(2,4) rd Inr jp False None cont [OF _ truth(1)] by simp
        qed
      next
        case (Some j)
        obtain q w2 where d: "delete_job K name (jb_UID j) w1 = (q, w2)" by fastforce
        have m: "moves K G (kst w) (kst w2)" using moves_trans [OF truth(1) other_moves(2) [OF 1(3) d]] .
        show ?thesis
        proof (cases "case q of None \<Rightarrow> True | Some err \<Rightarrow> has_reason NotFound err")
          case True
          then show ?thesis using 1(2,4) rd Inr jp False Some d cont [OF _ m] by simp
        next
          case nf: False
          show ?thesis
          proof (cases "case q of None \<Rightarrow> False | Some err \<Rightarrow> has_reason Conflict err")
            case True
            then have "loop K every inp w2 = Some v" using 1(2,4) rd Inr jp False Some d nf by simp
            from 1(1) [OF this 1(3,4)] show ?thesis by (rule delete_truth_before [OF m])
          next
            case c: False
            then show ?thesis using 1(2,4) rd Inr jp False Some d nf m by (auto simp: delete_truth_def)
          qed
        qed
      qed
    qed
  qed
qed

lemma observe_launch_truth:
  assumes "observe_launch_loop K every inp started w = Some v"
    and "cluster_truthful K key life G" "lr_LaunchKey (ol_Launch inp) = name"
  shows "moves K G (kst w) (kst (snd v)) \<and>
    (\<forall>obs. name = key \<longrightarrow> fst v = Inr obs \<longrightarrow> set (lo_Requests obs) \<inter> h_pend G (kst (snd v)) = {})"
  using assms
proof (induction rule: observe_launch_loop.raw_induct [rotated 1, consumes 1, case_names 1])
  case (1 loop K every inp started w v)
  obtain r w1 where rd: "read_key K name w = (r, w1)" by fastforce
  note truth = read_key_truth [OF 1(3) rd]
  show ?case
  proof (cases r)
    case (Inl err)
    then show ?thesis using 1(2,4) rd truth(1) by auto
  next
    case (Inr jp)
    obtain job pods where jp: "jp = (job, pods)" by fastforce
    show ?thesis
    proof (cases "(job \<noteq> None \<or> pods \<noteq> []) \<or> at K w1 - started \<ge> ol_SettleWindow inp")
      case True
      then have "v = (Inr (launchObservation job pods name (at K w1)), w1) \<or> v = (Inl api_failure, w1)"
        using 1(2,4) rd Inr jp by (auto split: if_splits)
      then show ?thesis using truth(1) truth(2) [of job pods] Inr jp by (elim disjE) simp_all
    next
      case False
      obtain b w2 where p: "pause K every w1 = (b, w2)" by fastforce
      have m: "moves K G (kst w) (kst w2)" using moves_trans [OF truth(1) other_moves(4) [OF 1(3) p]] .
      show ?thesis
      proof (cases b)
        case True
        then show ?thesis using 1(2,4) rd Inr jp False p m by auto
      next
        case over: False
        then have "loop K every inp started w2 = Some v" using 1(2,4) rd Inr jp False p by simp
        from 1(1) [OF this 1(3,4)] show ?thesis using moves_trans [OF m] by blast
      qed
    qed
  qed
qed

section \<open>Creating\<close>

definition create_truth :: "'k cluster \<Rightarrow> duration \<Rightarrow> 'k holdings \<Rightarrow> create_job_input \<Rightarrow> 'k \<Rightarrow> wf_error + job_ref \<Rightarrow> 'k \<Rightarrow> bool" where
  "create_truth K life G inp k res k' \<longleftrightarrow> k_now K k \<le> k_now K k' \<and>
     (\<forall>s \<in> h_pend G k'. s \<in> h_pend G k \<and> h_due G k' s \<le> h_due G k s \<or>
        res = Inl api_failure \<and> s = cj_Request inp \<and> h_due G k' s \<le> k_now K k' + life) \<and>
     (\<forall>job. res = Inr job \<longrightarrow> jr_Request job \<notin> h_pend G k')"

lemma moves_create_truth:
  "moves K G k k' \<Longrightarrow> (\<forall>job. res = Inr job \<longrightarrow> jr_Request job \<notin> h_pend G k') \<Longrightarrow> create_truth K life G inp k res k'"
  unfolding create_truth_def moves_def by blast

lemma create_truth_before:
  assumes "moves K G k k1" "create_truth K life G inp k1 res k'"
  shows "create_truth K life G inp k res k'"
proof -
  have "h_pend G k1 \<subseteq> h_pend G k" "\<forall>r \<in> h_pend G k1. h_due G k1 r \<le> h_due G k r" "k_now K k \<le> k_now K k1"
    using assms(1) by (simp_all add: moves_def)
  then show ?thesis using assms(2) unfolding create_truth_def by (meson order_trans subsetD)
qed

lemma create_truth_after:
  assumes "create_truth K life G inp k res k1" "moves K G k1 k'"
  shows "create_truth K life G inp k res k'"
proof -
  have m: "h_pend G k' \<subseteq> h_pend G k1" "\<forall>r \<in> h_pend G k'. h_due G k' r \<le> h_due G k1 r" "k_now K k1 \<le> k_now K k'"
    using assms(2) by (simp_all add: moves_def)
  have "s \<in> h_pend G k \<and> h_due G k' s \<le> h_due G k s \<or>
      res = Inl api_failure \<and> s = cj_Request inp \<and> h_due G k' s \<le> k_now K k' + life" if "s \<in> h_pend G k'" for s
  proof -
    have "s \<in> h_pend G k1" "h_due G k' s \<le> h_due G k1 s" using m that by auto
    then show ?thesis using assms(1) m(3) unfolding create_truth_def by fastforce
  qed
  then show ?thesis using assms(1) m unfolding create_truth_def by (auto intro: order_trans)
qed

lemma existing_ref_truth:
  assumes "cluster_truthful K key life G" "lr_LaunchKey launch = key" "existing_ref K launch w = (res, w')"
  shows "moves K G (kst w) (kst w')" "res = Inr ref \<Longrightarrow> jr_Request ref \<notin> h_pend G (kst w')"
proof -
  obtain r w1 where g: "get_job K (lr_LaunchKey launch) w = (r, w1)" by fastforce
  note gt = get_job_moves [OF assms(1) g]
  show "moves K G (kst w) (kst w')" using gt(1) assms(3) g by (auto simp: existing_ref_def split: sum.splits if_splits)
  show "res = Inr ref \<Longrightarrow> jr_Request ref \<notin> h_pend G (kst w')"
    using gt(2) [OF assms(2)] assms(3) g by (auto simp: existing_ref_def split: sum.splits if_splits)
qed

lemma request_marker: "0 < requestOf (request_annotations r) \<Longrightarrow> requestOf (request_annotations r) = r"
proof -
  assume pos: "0 < requestOf (request_annotations r)"
  then have r: "0 < r" by (cases "0 < r") (simp_all add: request_annotations_def requestOf_def index_map_def atoi_def)
  have "atoi (show_nat (nat r)) = None" if "2 ^ 63 \<le> r"
  proof -
    have "hd (show_nat (nat r)) \<noteq> CHR ''-''" "hd (show_nat (nat r)) \<noteq> CHR ''+''"
      using hd_show_nat [of "nat r"] by (auto simp: is_digit_def between_def)
    moreover have "digits_value (show_nat (nat r)) 0 = Some (nat r)" using digits_value_show_nat [of "nat r" "[]" 0] by simp
    ultimately show ?thesis using that show_nat_nonempty [of "nat r"] by (simp add: atoi_def Let_def)
  qed
  then have "r < 2 ^ 63" using pos r
    by (cases "r < 2 ^ 63") (simp_all add: requestOf_def request_annotations_def index_map_def)
  then show ?thesis using r by (intro requestOf_annotations)
qed

lemma jobSpec_marker:
  "jobSpec ct opts inp p t = Some m \<Longrightarrow> jm_Name m = lr_LaunchKey (cj_Launch inp) \<and> jm_Annotations m = request_annotations (cj_Request inp)"
  by (auto simp: jobSpec_def split: option.splits if_splits)

lemma submit_job_truth:
  assumes "cluster_truthful K key life G" "lr_LaunchKey (cj_Launch inp) = key" "jm_Name m = key"
    and "jm_Annotations m = request_annotations (cj_Request inp)" "submit_job K inp m w = (res, w')"
  shows "create_truth K life G inp (kst w) res (kst w')"
proof -
  obtain r w1 where c: "create_job K m w = (r, w1)" by fastforce
  note ct = create_job_moves [OF assms(1) c assms(3)]
  have marker: "s = cj_Request inp" if "s \<in> h_pend G (kst w1)" "s = requestOf (jm_Annotations m)" for s
  proof -
    have "s \<noteq> 0" using that(1) pending_laws [OF assms(1)] by auto
    then show ?thesis using that(2) assms(4) request_marker [of "cj_Request inp"] requestOf_nonneg [of "jm_Annotations m"] by force
  qed
  show ?thesis
  proof (cases r)
    case (Inr job)
    then have "res = Inr \<lparr>jr_JobUID = jb_UID job, jr_Request = requestOf (jb_Annotations job)\<rparr>" "w' = w1"
      using assms(5) c by (simp_all add: submit_job_def)
    then show ?thesis using ct Inr unfolding create_truth_def by auto
  next
    case (Inl f)
    show ?thesis
    proof (cases "has_reason AlreadyExists (fst f)")
      case True
      obtain q w2 where e: "existing_ref K (cj_Launch inp) w1 = (q, w2)" by fastforce
      note et = existing_ref_truth [OF assms(1,2) e]
      have "\<not> may_be_stored f" using True by (simp add: may_be_stored_def)
      then have same: "\<forall>s \<in> h_pend G (kst w1). s \<in> h_pend G (kst w) \<and> h_due G (kst w1) s \<le> h_due G (kst w) s"
        using ct(2) Inl by auto
      have "w' = w2" "\<forall>job. res = Inr job \<longrightarrow> q = Inr job"
        using assms(5) c Inl True e by (auto simp: submit_job_def split: sum.splits)
      then have "\<forall>job. res = Inr job \<longrightarrow> jr_Request job \<notin> h_pend G (kst w')" using et(2) by auto
      moreover have "\<forall>s \<in> h_pend G (kst w2). s \<in> h_pend G (kst w) \<and> h_due G (kst w2) s \<le> h_due G (kst w) s"
        using same et(1) unfolding moves_def by (meson order_trans subsetD)
      moreover have "k_now K (kst w) \<le> k_now K (kst w2)" using ct(1) et(1) unfolding moves_def by simp
      ultimately show ?thesis using \<open>w' = w2\<close> unfolding create_truth_def by auto
    next
      case False
      then have res: "res = Inl (classify f)" "w' = w1" using assms(5) c Inl by (simp_all add: submit_job_def)
      have "classify f = api_failure" if "may_be_stored f" using that by (simp add: classify_def may_be_stored_def)
      then show ?thesis using ct(1,2) marker res Inl unfolding create_truth_def by fastforce
    qed
  qed
qed

lemma createLaunchSecret_moves:
  assumes "cluster_truthful K key life G" "createLaunchSecret K inp m w = (err, w')"
  shows "moves K G (kst w) (kst w')"
proof -
  obtain raw k where rnd: "k_random K (kst w) = (raw, k)" by fastforce
  have m1: "moves K G (kst w) k" using other_moves(5) [OF assms(1) rnd] .
  show ?thesis
  proof (cases raw)
    case None
    then show ?thesis using assms(2) rnd m1 by (auto simp: createLaunchSecret_def)
  next
    case (Some bytes)
    obtain r w1 where c: "create_secret K (secret_for inp m bytes) (w\<lparr>kst := k\<rparr>) = (r, w1)" by fastforce
    have "moves K G k (kst w1)" using other_moves(1) [OF assms(1) c] by simp
    moreover have "w' = w1" using assms(2) rnd Some c by (auto simp: createLaunchSecret_def split: sum.splits if_splits)
    ultimately show ?thesis using moves_trans [OF m1] by simp
  qed
qed

lemma CreateJob_truth:
  assumes "cluster_truthful K key life G" "lr_LaunchKey (cj_Launch inp) = key" "CreateJob ct opts K inp w = (res, w')"
  shows "create_truth K life G inp (kst w) res (kst w')"
proof (cases "profile_for ct opts (cj_ProfileID inp)")
  case (Inl err)
  then show ?thesis using assms(3) by (auto simp: CreateJob_def intro: moves_create_truth)
next
  case (Inr p)
  obtain r1 w1 where ex: "existing_ref K (cj_Launch inp) w = (r1, w1)" by fastforce
  note et = existing_ref_truth [OF assms(1,2) ex]
  show ?thesis
  proof (cases "im_Digest (pf_Image p) \<noteq> lr_ImageDigest (cj_Launch inp)")
    case True
    then show ?thesis using assms(3) Inr by (auto simp: CreateJob_def intro: moves_create_truth)
  next
    case dig: False
    show ?thesis
    proof (cases "cj_Deadline inp > at K w")
      case False
      then have "w' = w1" "\<forall>job. res = Inr job \<longrightarrow> r1 = Inr job"
        using assms(3) Inr dig ex by (auto simp: CreateJob_def split: sum.splits)
      then show ?thesis using et by (auto intro: moves_create_truth)
    next
      case live: True
      show ?thesis
      proof (cases "jobSpec ct opts inp p (at K w)")
        case None
        then show ?thesis using assms(3) Inr dig live by (auto simp: CreateJob_def intro: moves_create_truth)
      next
        case (Some m)
        obtain err w2 where sec: "(if pf_SidecarImage p \<noteq> None then createLaunchSecret K inp m w else (None, w)) = (err, w2)"
          by fastforce
        have mv: "moves K G (kst w) (kst w2)"
          using sec createLaunchSecret_moves [OF assms(1)] by (auto split: if_splits)
        show ?thesis
        proof (cases err)
          case (Some e)
          then have "res = Inl e" "w' = w2" using assms(3) Inr dig live \<open>jobSpec ct opts inp p (at K w) = Some m\<close> sec
            by (simp_all add: CreateJob_def)
          then show ?thesis using mv by (auto intro: moves_create_truth)
        next
          case None
          then have "submit_job K inp m w2 = (res, w')" using assms(3) Inr dig live Some sec by (simp add: CreateJob_def)
          from submit_job_truth [OF assms(1,2) _ _ this] jobSpec_marker [OF Some] assms(2)
          show ?thesis by (intro create_truth_before [OF mv]) simp
        qed
      qed
    qed
  qed
qed

section \<open>The launcher behind the Activities\<close>

text \<open>
  An answered Activity ran the call once to its end; the cluster goes on before and after
  it. An Activity whose answer was lost (a timeout, a canceled context) made some of its
  requests: for a create, at most the one of its ordinal.
\<close>

definition ran :: "'k cluster \<Rightarrow> 'k holdings \<Rightarrow> 'k \<Rightarrow> ('k api \<Rightarrow> ((wf_error + 'a) \<times> 'k api) option) \<Rightarrow> wf_error + 'a \<Rightarrow> 'k \<Rightarrow> bool" where
  "ran K G k call res k' \<longleftrightarrow> (\<exists>w w'. moves K G k (kst w) \<and> call w = Some (res, w') \<and> moves K G (kst w') k')"

definition answers :: "contract \<Rightarrow> options \<Rightarrow> 'k cluster \<Rightarrow> duration \<Rightarrow> 'k holdings \<Rightarrow> request \<Rightarrow> 'k \<Rightarrow> wf_error + response \<Rightarrow> 'k \<Rightarrow> bool" where
  "answers ct opts K life G r k res k' =
     (case r of
        Temporal.CreateJob inp \<Rightarrow>
          (\<exists>a. res = map_sum id RJob a \<and> ran K G k (\<lambda>w. Some (Launcher.CreateJob ct opts K inp w)) a k') \<or>
          (\<exists>err. res = Inl err \<and> unresolved res \<and> create_truth K life G inp k (Inl api_failure) k')
      | Temporal.DeleteJob inp \<Rightarrow>
          (\<exists>a. res = map_sum id RLaunchObservation a \<and> ran K G k (Launcher.DeleteJob opts K inp) a k') \<or>
          (\<exists>err. res = Inl err \<and> moves K G k k')
      | Temporal.ObserveLaunch inp \<Rightarrow>
          (\<exists>a. res = map_sum id RLaunchObservation a \<and> ran K G k (Launcher.ObserveLaunch opts K inp) a k') \<or>
          (\<exists>err. res = Inl err \<and> moves K G k k')
      | _ \<Rightarrow> moves K G k k')"

definition launcher_behind :: "'e runtime \<Rightarrow> ('e \<Rightarrow> 'k) \<Rightarrow> contract \<Rightarrow> options \<Rightarrow> 'k cluster \<Rightarrow> duration \<Rightarrow> 'k holdings \<Rightarrow> bool" where
  "launcher_behind rt view ct opts K life G \<longleftrightarrow>
     (\<forall>c ao r e res e'. rt_perform rt c ao r e = (res, e') \<longrightarrow> answers ct opts K life G r (view e) res (view e')) \<and>
     (\<forall>c d e err e'. rt_sleep rt c d e = (err, e') \<longrightarrow> moves K G (view e) (view e')) \<and>
     (\<forall>e. rt_now rt e = k_now K (view e))"

lemma ran_delete_truth:
  assumes "cluster_truthful K key life G" "ran K G k (Launcher.DeleteJob opts K inp) res k'"
  shows "delete_truth K G (lr_LaunchKey (dj_Launch inp) = key) k res k'"
proof -
  let ?same = "lr_LaunchKey (dj_Launch inp) = key"
  from assms(2) obtain w w' where run: "moves K G k (kst w)" "Launcher.DeleteJob opts K inp w = Some (res, w')" "moves K G (kst w') k'"
    unfolding ran_def by blast
  have d: "delete_truth K G ?same (kst w) res (kst w')"
    using delete_loop_truth [OF run(2) [unfolded DeleteJob_def] assms(1) refl] by simp
  then have m: "moves K G (kst w) (kst w')" by (simp add: delete_truth_def)
  have p: "h_pend G (kst w') \<subseteq> h_pend G (kst w)" "h_pend G k' \<subseteq> h_pend G (kst w')"
    "objects G k' \<subseteq> objects G (kst w') \<union> (h_pend G (kst w') - h_pend G k')"
    using moves_pend [OF m] moves_pend [OF run(3)] moves_settling [OF run(3)] by (simp_all add: settling_def)
  have "delete_truth K G ?same (kst w) res k'"
  proof (cases res)
    case (Inl err)
    then show ?thesis using moves_trans [OF m run(3)] by (simp add: delete_truth_def)
  next
    case (Inr obs)
    have "set (lo_Requests obs) \<inter> h_pend G k' = {} \<and> (Empty obs \<longrightarrow> objects G k' \<subseteq> h_pend G (kst w) - h_pend G k')" if s: ?same
    proof
      have o1: "set (lo_Requests obs) \<inter> h_pend G (kst w') = {}"
        "Empty obs \<Longrightarrow> objects G (kst w') \<subseteq> h_pend G (kst w) - h_pend G (kst w')"
        using d Inr s by (simp_all add: delete_truth_def)
      show "set (lo_Requests obs) \<inter> h_pend G k' = {}" using o1(1) p(2) by blast
      show "Empty obs \<longrightarrow> objects G k' \<subseteq> h_pend G (kst w) - h_pend G k'"
      proof
        assume "Empty obs"
        then show "objects G k' \<subseteq> h_pend G (kst w) - h_pend G k'" using o1(2) p by blast
      qed
    qed
    then show ?thesis using Inr moves_trans [OF m run(3)] by (simp add: delete_truth_def)
  qed
  then show ?thesis by (rule delete_truth_before [OF run(1)])
qed

lemma ran_create_truth:
  assumes "cluster_truthful K key life G" "lr_LaunchKey (cj_Launch inp) = key"
    and "ran K G k (\<lambda>w. Some (Launcher.CreateJob ct opts K inp w)) res k'"
  shows "create_truth K life G inp k res k'"
proof -
  from assms(3) obtain w w' where run: "moves K G k (kst w)" "Launcher.CreateJob ct opts K inp w = (res, w')" "moves K G (kst w') k'"
    unfolding ran_def by blast
  show ?thesis by (rule create_truth_before [OF run(1) create_truth_after [OF CreateJob_truth [OF assms(1,2) run(2)] run(3)]])
qed

lemma ran_observe_truth:
  assumes "cluster_truthful K key life G" "ran K G k (Launcher.ObserveLaunch opts K inp) res k'"
  shows "moves K G k k'" "lr_LaunchKey (ol_Launch inp) = key \<Longrightarrow> res = Inr obs \<Longrightarrow> set (lo_Requests obs) \<inter> h_pend G k' = {}"
proof -
  from assms(2) obtain w w' where run: "moves K G k (kst w)" "Launcher.ObserveLaunch opts K inp w = Some (res, w')" "moves K G (kst w') k'"
    unfolding ran_def by blast
  note seen = observe_launch_truth [OF run(2) [unfolded ObserveLaunch_def] assms(1) refl]
  show "moves K G k k'" using moves_trans [OF moves_trans [OF run(1)] run(3)] seen by simp
  show "lr_LaunchKey (ol_Launch inp) = key \<Longrightarrow> res = Inr obs \<Longrightarrow> set (lo_Requests obs) \<inter> h_pend G k' = {}"
    using seen moves_pend [OF run(3)] by auto
qed

lemma answers_moves:
  assumes "cluster_truthful K key life G" "answers ct opts K life G r k res k'" "quiet_request r"
  shows "moves K G k k'"
proof (cases r)
  case (DeleteJob inp)
  then show ?thesis using assms(2) ran_delete_truth [OF assms(1)] by (auto simp: answers_def delete_truth_def)
next
  case (ObserveLaunch inp)
  then show ?thesis using assms(2) ran_observe_truth(1) [OF assms(1)] by (auto simp: answers_def)
qed (use assms in \<open>simp_all add: answers_def\<close>)

lemma answers_create:
  assumes "cluster_truthful K key life G" "answers ct opts K life G (Temporal.CreateJob inp) k res k'" "lr_LaunchKey (cj_Launch inp) = key"
  shows "\<forall>s \<in> h_pend G k'. s \<in> h_pend G k \<and> h_due G k' s \<le> h_due G k s \<or>
      unresolved res \<and> s = cj_Request inp \<and> h_due G k' s \<le> k_now K k' + life"
    and "res = Inr (RJob job) \<Longrightarrow> jr_Request job \<notin> h_pend G k'"
proof -
  from assms(2) ran_create_truth [OF assms(1,3)]
  obtain a where a: "create_truth K life G inp k a k'" "res = map_sum id RJob a \<or> (\<exists>err. res = Inl err \<and> unresolved res \<and> a = Inl api_failure)"
    unfolding answers_def by (fastforce split: request.splits)
  have "unresolved (Inl api_failure)" by (simp add: unresolved_def)
  then have u: "a = Inl api_failure \<Longrightarrow> unresolved res" using a(2) by auto
  show "\<forall>s \<in> h_pend G k'. s \<in> h_pend G k \<and> h_due G k' s \<le> h_due G k s \<or>
      unresolved res \<and> s = cj_Request inp \<and> h_due G k' s \<le> k_now K k' + life"
    using a(1) u unfolding create_truth_def by blast
  assume "res = Inr (RJob job)"
  then have "a = Inr job" using a(2) by (cases a) auto
  then show "jr_Request job \<notin> h_pend G k'" using a(1) unfolding create_truth_def by blast
qed

section \<open>The refinement\<close>

lemma launcher_backend:
  assumes "launcher_behind rt view ct opts K life G" "cluster_truthful K key life G" "lr_LaunchKey launch = key"
  shows "backend_truthful rt launch (\<lambda>e. h_pend G (view e)) (\<lambda>e. objects G (view e)) (\<lambda>e. h_due G (view e))"
    and "creates_truthful rt launch life (\<lambda>e. h_pend G (view e)) (\<lambda>e. h_due G (view e))"
proof -
  have perf: "answers ct opts K life G r (view e) res (view e')" if "rt_perform rt c ao r e = (res, e')" for c ao r e res e'
    using assms(1) that unfolding launcher_behind_def by blast
  have slp: "moves K G (view e) (view e')" if "rt_sleep rt c d e = (err, e')" for c d e err e'
    using assms(1) that unfolding launcher_behind_def by blast
  have clock: "rt_now rt e = k_now K (view e)" for e using assms(1) unfolding launcher_behind_def by blast
  have settle: "settling (\<lambda>e. h_pend G (view e)) (\<lambda>e. objects G (view e)) (\<lambda>e. h_due G (view e)) e e'"
    if "moves K G (view e) (view e')" for e e'
    using moves_settling [OF that] by (simp add: settling_def)
  show "backend_truthful rt launch (\<lambda>e. h_pend G (view e)) (\<lambda>e. objects G (view e)) (\<lambda>e. h_due G (view e))"
    unfolding backend_truthful_def
  proof (intro conjI allI impI)
    fix c ao r e res e'
    assume "rt_perform rt c ao r e = (res, e')" "quiet_request r"
    then show "settling (\<lambda>e. h_pend G (view e)) (\<lambda>e. objects G (view e)) (\<lambda>e. h_due G (view e)) e e'"
      by (intro settle answers_moves [OF assms(2) perf])
  next
    fix c d e res e'
    assume "rt_sleep rt c d e = (res, e')"
    then show "settling (\<lambda>e. h_pend G (view e)) (\<lambda>e. objects G (view e)) (\<lambda>e. h_due G (view e)) e e'"
      by (intro settle slp)
  next
    fix c ao inp e obs e'
    assume p: "rt_perform rt c ao (Temporal.ObserveLaunch inp) e = (Inr (RLaunchObservation obs), e')" and l: "ol_Launch inp = launch"
    from perf [OF p] obtain a where a: "Inr (RLaunchObservation obs) = map_sum id RLaunchObservation a"
      "ran K G (view e) (Launcher.ObserveLaunch opts K inp) a (view e')" by (auto simp: answers_def)
    then have "a = Inr obs" by (cases a) auto
    then show "set (lo_Requests obs) \<inter> h_pend G (view e') = {}"
      using ran_observe_truth(2) [OF assms(2) a(2)] l assms(3) by simp
  next
    fix c ao inp e obs e'
    assume p: "rt_perform rt c ao (Temporal.DeleteJob inp) e = (Inr (RLaunchObservation obs), e')" and l: "dj_Launch inp = launch"
    from perf [OF p] obtain a where a: "Inr (RLaunchObservation obs) = map_sum id RLaunchObservation a"
      "ran K G (view e) (Launcher.DeleteJob opts K inp) a (view e')" by (auto simp: answers_def)
    then have "a = Inr obs" by (cases a) auto
    then have "set (lo_Requests obs) \<inter> h_pend G (view e') = {} \<and>
        (Empty obs \<longrightarrow> objects G (view e') \<subseteq> h_pend G (view e) - h_pend G (view e'))"
      using ran_delete_truth [OF assms(2) a(2)] l assms(3) by (simp add: delete_truth_def)
    then show "set (lo_Requests obs) \<inter> h_pend G (view e') = {}"
      "Empty obs \<Longrightarrow> objects G (view e') \<subseteq> h_pend G (view e) - h_pend G (view e')" by blast+
  next
    fix e
    show "\<forall>r \<in> h_pend G (view e). rt_now rt e < h_due G (view e) r"
      using pending_laws [OF assms(2)] clock by simp
  qed
  show "creates_truthful rt launch life (\<lambda>e. h_pend G (view e)) (\<lambda>e. h_due G (view e))"
    unfolding creates_truthful_def
  proof (intro allI impI)
    fix c ao inp e res e'
    assume p: "rt_perform rt c ao (Temporal.CreateJob inp) e = (res, e')" and l: "cj_Launch inp = launch"
    have key: "lr_LaunchKey (cj_Launch inp) = key" using l assms(3) by simp
    show "(\<forall>s \<in> h_pend G (view e'). s \<in> h_pend G (view e) \<and> h_due G (view e') s \<le> h_due G (view e) s \<or>
        unresolved res \<and> s = cj_Request inp \<and> h_due G (view e') s \<le> rt_now rt e' + life) \<and>
        (\<forall>job. res = Inr (RJob job) \<longrightarrow> jr_Request job \<notin> h_pend G (view e'))"
      using answers_create(1) [OF assms(2) perf [OF p] key] answers_create(2) [OF assms(2) perf [OF p] key]
      unfolding clock by blast
  qed
qed

text \<open>An API server that keeps its promises, and a run over it.\<close>

definition slot_holdings :: "shelf_cluster holdings" where
  "slot_holdings = \<lparr>
     h_pend = (\<lambda>k. case sc_slot k of Pending j \<Rightarrow> {requestOf (jb_Annotations j)} - {0} | _ \<Rightarrow> {}),
     h_jobs = (\<lambda>k. case sc_slot k of Present j \<Rightarrow> {requestOf (jb_Annotations j)} - {0} | _ \<Rightarrow> {}),
     h_pods = (\<lambda>k. {}),
     h_due = (\<lambda>k r. sc_clock k + minute)\<rparr>"

lemma demo_truthful: "cluster_truthful demo_cluster key minute slot_holdings"
  unfolding cluster_truthful_def
  by (auto simp: demo_cluster_def slot_holdings_def moves_def not_found_def job_of_def may_be_stored_def rejectionCodes_def minute_def second_def
      split: job_slot.splits if_splits)

definition run_call :: "('k api \<Rightarrow> ((wf_error + 'a) \<times> 'k api) option) \<Rightarrow> ('a \<Rightarrow> response) \<Rightarrow> 'k \<Rightarrow> (wf_error + response) \<times> 'k" where
  "run_call call wrap k =
     (case call \<lparr>kst = k, calls = []\<rparr> of None \<Rightarrow> (Inl TimeoutError, k) | Some (a, w') \<Rightarrow> (map_sum id wrap a, kst w'))"

fun demo_perform :: "wctx \<Rightarrow> activity_options \<Rightarrow> request \<Rightarrow> shelf_cluster \<Rightarrow> (wf_error + response) \<times> shelf_cluster" where
  "demo_perform c ao (Temporal.CreateJob inp) k =
     run_call (\<lambda>w. Some (Launcher.CreateJob example_contract example_options demo_cluster inp w)) RJob k"
| "demo_perform c ao (Temporal.DeleteJob inp) k =
     run_call (Launcher.DeleteJob example_options demo_cluster inp) RLaunchObservation k"
| "demo_perform c ao (Temporal.ObserveLaunch inp) k =
     run_call (Launcher.ObserveLaunch example_options demo_cluster inp) RLaunchObservation k"
| "demo_perform c ao (OpenAttempt inp) k = (Inr (RAttempt example_attempt), k)"
| "demo_perform c ao (PrepareLaunch inp) k = (Inr (RLaunch (example_launch\<lparr>lr_LaunchKey := pl_LaunchKey inp\<rparr>)), k)"
| "demo_perform c ao (CloseAttempt inp) k = (Inr (RClose \<lparr>cr_Lifecycle = ''completed''\<rparr>), k)"
| "demo_perform c ao r k = (Inr RUnit, k)"

definition demo_runtime :: "shelf_cluster runtime" where
  "demo_runtime = \<lparr>rt_perform = demo_perform, rt_sleep = (\<lambda>c d k. (None, snd (k_wait demo_cluster d k))),
     rt_now = sc_clock, rt_ctx_err = (\<lambda>c k. False), rt_version = (\<lambda>change. 1), rt_can_suggested = (\<lambda>k. False),
     rt_workflow_type = ''LocalCheckWorkflow''\<rparr>"

lemma run_call_ran:
  assumes "run_call call wrap k = (res, k')"
  shows "(\<exists>a. res = map_sum id wrap a \<and> ran K G k call a k') \<or> res = Inl TimeoutError \<and> k' = k"
proof (cases "call \<lparr>kst = k, calls = []\<rparr>")
  case (Some v)
  then have "res = map_sum id wrap (fst v)" "k' = kst (snd v)" using assms by (auto simp: run_call_def split: prod.splits)
  then have "ran K G k call (fst v) k'" using Some unfolding ran_def
    by (intro exI [of _ "\<lparr>kst = k, calls = []\<rparr>"] exI [of _ "snd v"]) simp
  then show ?thesis using \<open>res = map_sum id wrap (fst v)\<close> by blast
qed (use assms in \<open>simp add: run_call_def\<close>)

lemma demo_wait_moves: "moves demo_cluster slot_holdings k (snd (k_wait demo_cluster d k))"
  by (auto simp: moves_def slot_holdings_def demo_cluster_def split: job_slot.splits)

lemma demo_behind: "launcher_behind demo_runtime id example_contract example_options demo_cluster minute slot_holdings"
proof -
  have "answers example_contract example_options demo_cluster minute slot_holdings r k res k'"
    if "demo_perform c ao r k = (res, k')" for c ao r k res k'
    using that
  proof (cases "(c, ao, r, k)" rule: demo_perform.cases)
    case (1 c ao inp k)
    then show ?thesis using that run_call_ran [of "\<lambda>w. Some (Launcher.CreateJob example_contract example_options demo_cluster inp w)"]
      by (fastforce simp: answers_def unresolved_def intro: moves_create_truth)
  next
    case (2 c ao inp k)
    then show ?thesis using that run_call_ran [of "Launcher.DeleteJob example_options demo_cluster inp"]
      by (fastforce simp: answers_def)
  next
    case (3 c ao inp k)
    then show ?thesis using that run_call_ran [of "Launcher.ObserveLaunch example_options demo_cluster inp"]
      by (fastforce simp: answers_def)
  qed (use that in \<open>auto simp: answers_def\<close>)
  then show ?thesis using demo_wait_moves
    by (auto simp: launcher_behind_def demo_runtime_def demo_cluster_def)
qed

section \<open>Properties\<close>

text \<open>
  C2. The launcher implements the backend the cleanup is verified against. When the API
  server keeps its promises about a launch key and the Activities of a runtime are the
  launcher's calls, whatever answers are lost and whatever happens between the calls, the
  runtime is truthful for that launch: reported markers are of committed requests, an
  empty delete leaves only what was committed since, and a create leaves a request
  pending only when it is answered as unresolved.
\<close>

theorem launcher_refines_backend:
  assumes "launcher_behind rt view ct opts K life G" "cluster_truthful K key life G" "lr_LaunchKey launch = key"
  shows "backend_truthful rt launch (\<lambda>e. h_pend G (view e)) (\<lambda>e. objects G (view e)) (\<lambda>e. h_due G (view e)) \<and>
    creates_truthful rt launch life (\<lambda>e. h_pend G (view e)) (\<lambda>e. h_due G (view e))"
  using launcher_backend [OF assms] by blast

theorem launcher_refines_backend_witness:
  "backend_truthful demo_runtime example_launch (h_pend slot_holdings) (objects slot_holdings) (h_due slot_holdings) \<and>
   creates_truthful demo_runtime example_launch minute (h_pend slot_holdings) (h_due slot_holdings)"
  using launcher_refines_backend [OF demo_behind demo_truthful refl] by simp

text \<open>
  C3. Nothing is left in the cluster. A LocalCheck run over the launcher, started with
  nothing under its launch key, that stated its cleanup as complete or not required in any
  close it sent, ends with no Job and no Pod of the launch and with no create request of
  it that could still commit.
\<close>

theorem LocalCheck_leaves_nothing:
  assumes "launcher_behind rt view ct opts K (CreateRequestLifetime b) G"
    and "cluster_truthful K (launchKeyFor (in_OperationID inp)) (CreateRequestLifetime b) G"
    and "\<And>c ao pl e launch e'. rt_perform rt c ao (PrepareLaunch pl) e = (Inr (RLaunch launch), e') \<Longrightarrow>
      lr_LaunchKey launch = pl_LaunchKey pl"
    and "h_pend G (view (est w)) = {}" "objects G (view (est w)) = {}" "in_Close inp = None"
    and "LocalCheck rt q b inp w = Some (err, w')" "count_events claims_clean w' \<noteq> count_events claims_clean w"
  shows "h_pend G (view (est w')) = {} \<and> h_jobs G (view (est w')) = {} \<and> h_pods G (view (est w')) = {}"
proof -
  have "truthful rt b (launchKeyFor (in_OperationID inp)) (\<lambda>e. h_pend G (view e)) (\<lambda>e. objects G (view e)) (\<lambda>e. h_due G (view e))"
    using launcher_backend [OF assms(1,2)] assms(3) unfolding truthful_def by blast
  from LocalCheck_confirmed [OF this _ _ assms(6-8)] assms(4,5) show ?thesis by (simp add: objects_def)
qed

definition free_world :: "shelf_cluster world" where
  "free_world = \<lparr>est = \<lparr>sc_slot = Free, sc_clock = 0\<rparr>, trace = []\<rparr>"

lemma demo_delete:
  "Launcher.DeleteJob example_options demo_cluster inp \<lparr>kst = \<lparr>sc_slot = Free, sc_clock = t\<rparr>, calls = []\<rparr> =
    Some (Inr no_observation, \<lparr>kst = \<lparr>sc_slot = Free, sc_clock = t\<rparr>,
      calls = [DeletedSecret (lr_LaunchKey (dj_Launch inp)) None, ListedPods (lr_LaunchKey (dj_Launch inp)) (Inr []),
        GotJob (lr_LaunchKey (dj_Launch inp)) (Inl not_found)]\<rparr>)"
  by (simp add: DeleteJob_def delete_loop.simps read_key_def api_defs demo_cluster_def not_found_def launchObservation_def
      unrecorded_def podsInOwnerOrder_def Let_def)

lemma demo_create:
  "cj_ProfileID inp = profileID \<Longrightarrow>
   Launcher.CreateJob example_contract example_options demo_cluster inp w = (Inl profile_unqualified, w)"
  by (simp add: CreateJob_def profile_for_def example_contract_def profileID_def)

lemma demo_check:
  "\<exists>w'. LocalCheck demo_runtime example_queues example_bounds example_input free_world = Some (None, w') \<and>
     count_events claims_clean w' = 1"
  by (simp add: LocalCheck_def example_input_def free_world_def local_body_def example_attempt_def local_launched_def
      local_finish_def local_cleanup_def closeOrContinue_def closeLaunchAttemptFrom_def closeAttemptFrom_def
      close_loop.simps close_waits_def settle_def cleanup_eval count_events_def local_carry_def close_input_def
      createJob_def create_loop.simps demo_runtime_def run_call_def demo_delete demo_create local_spec_def
      exec_def get_def decode_def second_def minute_def profile_unqualified_def Refused_def notCreatedType_def
      example_bounds_def empty_ledger_def issue_def create_input_def
      after_failure_def unanswered_def int32_of_def backoff_def Let_def)

theorem LocalCheck_leaves_nothing_witness:
  "\<exists>w'. LocalCheck demo_runtime example_queues example_bounds example_input free_world = Some (None, w') \<and>
    h_pend slot_holdings (est w') = {} \<and> h_jobs slot_holdings (est w') = {}"
proof -
  obtain w' where run: "LocalCheck demo_runtime example_queues example_bounds example_input free_world = Some (None, w')"
    and claimed: "count_events claims_clean w' = 1" using demo_check by blast
  have life: "CreateRequestLifetime example_bounds = minute" by (simp add: example_bounds_def)
  have start: "h_pend slot_holdings (id (est free_world)) = {}" "objects slot_holdings (id (est free_world)) = {}"
    "in_Close example_input = None" "count_events claims_clean w' \<noteq> count_events claims_clean free_world"
    using claimed by (simp_all add: free_world_def slot_holdings_def objects_def example_input_def count_events_def)
  have prepared: "lr_LaunchKey launch = pl_LaunchKey pl"
    if "rt_perform demo_runtime c ao (PrepareLaunch pl) e = (Inr (RLaunch launch), e')" for c ao pl e launch e'
    using that by (auto simp: demo_runtime_def)
  from LocalCheck_leaves_nothing [OF demo_behind [folded life] demo_truthful [folded life] prepared start(1-3) run start(4)]
  show ?thesis using run by auto
qed

end
