(* ===== verification/JobStep.thy ===== *)
theory JobStep
  imports LocalCheckWf Settle
begin

text \<open>
  One Job step of a lifecycle run (\<open>runJobStep\<close> in
  \<^verbatim>\<open>internal/workflows/generation.go\<close>) and the control record the run shares with
  its lease supervisor and its Update handlers (\<open>generationState\<close>). The record is part of
  the environment a run executes in, so that every call may find it changed by the
  other coroutines of the run.
\<close>

section \<open>The control record\<close>

record gstate =
  gn_held :: bool
  gn_inflight :: int
  gn_fenced :: bool
  gn_fenceCode :: string
  gn_definition :: string
  gn_lease :: lease_record
  gn_occurrence :: nat
  gn_done :: bool
  gn_ordinals :: "string \<rightharpoonup> nat"

definition new_gstate :: gstate where
  "new_gstate = \<lparr>gn_held = False, gn_inflight = 0, gn_fenced = False, gn_fenceCode = '''', gn_definition = '''',
     gn_lease = no_lease, gn_occurrence = 0, gn_done = False, gn_ordinals = Map.empty\<rparr>"

definition gst :: "('e \<times> gstate) world \<Rightarrow> gstate" where
  "gst w = snd (est w)"

definition upd :: "(gstate \<Rightarrow> gstate) \<Rightarrow> ('e \<times> gstate) world \<Rightarrow> ('e \<times> gstate) world" where
  "upd f w = w\<lparr>est := (fst (est w), f (snd (est w)))\<rparr>"

lemma gst_upd [simp]: "gst (upd f w) = f (gst w)"
  by (simp add: gst_def upd_def)

lemma trace_upd [simp]: "trace (upd f w) = trace w"
  by (simp add: upd_def)

lemma fst_est_upd [simp]: "fst (est (upd f w)) = fst (est w)"
  by (simp add: upd_def)

definition visit_key :: "string \<Rightarrow> nat \<Rightarrow> string" where
  "visit_key step visit = step @ '':'' @ show_nat visit"

definition nextOrdinal :: "string \<Rightarrow> nat \<Rightarrow> gstate \<Rightarrow> nat \<times> gstate" where
  "nextOrdinal step visit g =
     (let key = visit_key step visit;
          n = (case gn_ordinals g key of None \<Rightarrow> 0 | Some n \<Rightarrow> n) + 1
      in (n, g\<lparr>gn_ordinals := (gn_ordinals g)(key \<mapsto> n)\<rparr>))"

definition inflight :: "int \<Rightarrow> gstate \<Rightarrow> gstate" where
  "inflight d g = g\<lparr>gn_inflight := gn_inflight g + d\<rparr>"

section \<open>Stages and launch keys\<close>

definition stageArtifact :: "accepted_stage \<Rightarrow> string \<Rightarrow> stage_artifact option" where
  "stageArtifact stage cls = find (\<lambda>a. sa_Class a = cls) (as_Artifacts stage)"

fun stageInputs :: "accepted_stage \<Rightarrow> string list \<Rightarrow> launch_input list" where
  "stageInputs stage [] = []"
| "stageInputs stage (cls # classes) =
     (case stageArtifact stage cls of
        None \<Rightarrow> stageInputs stage classes
      | Some a \<Rightarrow> \<lparr>li_Name = cls, li_Digest = sa_Digest a, li_Handle = sa_Handle a\<rparr> # stageInputs stage classes)"

definition launchKeyForAttempt :: "string \<Rightarrow> string \<Rightarrow> string" where
  "launchKeyForAttempt prefix attemptID =
     (let key = map (\<lambda>ch. if key_char ch then ch else CHR ''-'') (map lower (trim_prefix ''att_'' attemptID));
          key = (if length key > 40 then take 40 key else key)
      in prefix @ ''-'' @ trim_char (CHR ''-'') key)"

definition no_stage :: accepted_stage where
  "no_stage = \<lparr>as_Found = False, as_StageID = '''', as_AttemptID = '''', as_Verdict = '''', as_FailureCode = '''',
     as_ResultDigest = '''', as_ExecutionEpoch = '''', as_Artifacts = []\<rparr>"

definition no_attempt :: attempt_ref where
  "no_attempt = \<lparr>ar_AttemptID = '''', ar_TenantID = '''', ar_ProfileID = '''', ar_Deadline = 0, ar_ExecutionEpoch = ''''\<rparr>"

section \<open>The step\<close>

record step_spec =
  sp_OperationID :: string
  sp_TenantID :: string
  sp_StepID :: string
  sp_Visit :: nat
  sp_ProfileID :: string
  sp_LaunchPrefix :: string
  sp_Inputs :: "launch_input list"
  sp_Component :: "component_identity option"

text \<open>The variables of the step its deferred end reads.\<close>

record step_state =
  jt_Outcome :: string
  jt_FailureCode :: string
  jt_Launched :: bool
  jt_Launch :: launch_ref
  jt_Creates :: create_ledger
  jt_Stage :: accepted_stage
  jt_Current :: instance_ref
  jt_Code :: string

definition step_start :: step_state where
  "step_start = \<lparr>jt_Outcome = ''failed'', jt_FailureCode = '''', jt_Launched = False, jt_Launch = no_launch,
     jt_Creates = empty_ledger, jt_Stage = no_stage, jt_Current = no_instance, jt_Code = ''''\<rparr>"

text \<open>A return of the step: what is closed with, and the code.\<close>

definition returned :: "string \<times> string \<Rightarrow> string \<Rightarrow> step_state \<Rightarrow> step_state" where
  "returned r code st = st\<lparr>jt_Outcome := fst r, jt_FailureCode := snd r, jt_Code := code\<rparr>"

definition step_error :: "('e \<times> gstate) runtime \<Rightarrow> wctx \<Rightarrow> wf_error \<Rightarrow> string \<Rightarrow> step_state \<Rightarrow> ('e \<times> gstate) world \<Rightarrow>
    step_state \<times> ('e \<times> gstate) world" where
  "step_error rt c err code st w = (let r = settle rt c err code w in (returned r (snd r) st, w))"

definition stage_outcome :: "accepted_stage \<Rightarrow> string \<times> string" where
  "stage_outcome stage =
     (if as_Verdict stage = ''certified'' then (''completed'', '''')
      else if as_Verdict stage = ''repairable'' \<or> as_Verdict stage = ''invalid'' then (''failed'', '''')
      else if as_Verdict stage = ''canceled'' then (''canceled'', ''CANCELED'')
      else (''infrastructure_failed'', firstNonEmpty [as_FailureCode stage, ''OBSERVER_FAILED'']))"

text \<open>The accepted stage of the attempt is the only evidence of its result.\<close>

definition step_accepted :: "('e \<times> gstate) runtime \<Rightarrow> wctx \<Rightarrow> queues \<Rightarrow> bounds \<Rightarrow> step_spec \<Rightarrow> attempt_ref \<Rightarrow>
    job_observation \<Rightarrow> step_state \<Rightarrow> ('e \<times> gstate) world \<Rightarrow> step_state \<times> ('e \<times> gstate) world" where
  "step_accepted rt c q b spec attempt obs st w =
     (case get as_accepted_stage (exec rt c (readOptions q b) (GetAcceptedStage
             \<lparr>gs_AttemptID = ar_AttemptID attempt, gs_TenantID = sp_TenantID spec, gs_OperationID = sp_OperationID spec\<rparr>) w) of
        (Inl err, w1) \<Rightarrow> step_error rt c err ''OBSERVER_FAILED'' st w1
      | (Inr stage, w1) \<Rightarrow>
          if \<not> as_Found stage then
            (let code = (if jo_Reason obs = ''DeadlineExceeded'' then ''DEADLINE_EXCEEDED'' else ''RESULT_MISSING'') in
             (returned (''infrastructure_failed'', code) code (st\<lparr>jt_Stage := stage\<rparr>), w1))
          else (returned (stage_outcome stage) '''' (st\<lparr>jt_Stage := stage\<rparr>), w1))"

fun register_instances :: "('e \<times> gstate) runtime \<Rightarrow> wctx \<Rightarrow> queues \<Rightarrow> bounds \<Rightarrow> attempt_ref \<Rightarrow> launch_ref \<Rightarrow> string \<Rightarrow>
    nat \<Rightarrow> pod_observation list \<Rightarrow> instance_ref \<Rightarrow> ('e \<times> gstate) world \<Rightarrow>
    wf_error option \<times> instance_ref \<times> ('e \<times> gstate) world" where
  "register_instances rt c q b attempt launch jobUID i [] current w = (None, current, w)"
| "register_instances rt c q b attempt launch jobUID i (pod # pods) current w =
     (case get as_instance (exec rt c (activityOptions q b)
             (RegisterInstance (register_input attempt launch jobUID pod)) w) of
        (Inl err, w1) \<Rightarrow> (Some err, current, w1)
      | (Inr inst, w1) \<Rightarrow>
          (case get as_unit (exec rt c (activityOptions q b)
                (ObserveInstance \<lparr>oi_Attempt = attempt, oi_Instance = inst, oi_Observation = pod\<rparr>) w1) of
             (Inl err, w2) \<Rightarrow> (Some err, current, w2)
           | (Inr _, w2) \<Rightarrow>
               register_instances rt c q b attempt launch jobUID (i + 1) pods (if i = 0 then inst else current) w2))"

definition step_observed :: "('e \<times> gstate) runtime \<Rightarrow> wctx \<Rightarrow> queues \<Rightarrow> bounds \<Rightarrow> step_spec \<Rightarrow> attempt_ref \<Rightarrow>
    job_observation \<Rightarrow> step_state \<Rightarrow> ('e \<times> gstate) world \<Rightarrow> step_state \<times> ('e \<times> gstate) world" where
  "step_observed rt c q b spec attempt obs st w =
     (case register_instances rt c q b attempt (jt_Launch st) (jo_JobUID obs) 0 (jo_Pods obs) no_instance w of
        (Some err, current, w1) \<Rightarrow> step_error rt c err ''OBSERVER_FAILED'' (st\<lparr>jt_Current := current\<rparr>) w1
      | (None, current, w1) \<Rightarrow>
          if length (jo_Pods obs) = 0 \<or> \<not> ir_Current current then
            (let code = (if jo_Reason obs = ''DeadlineExceeded'' then ''DEADLINE_EXCEEDED'' else ''OBSERVER_FAILED'') in
             (returned (''infrastructure_failed'', code) code (st\<lparr>jt_Current := current\<rparr>), w1))
          else step_accepted rt c q b spec attempt obs (st\<lparr>jt_Current := current\<rparr>) w1)"

text \<open>The owner the launcher reported is registered while it runs.\<close>

definition register_owner :: "('e \<times> gstate) runtime \<Rightarrow> wctx \<Rightarrow> queues \<Rightarrow> bounds \<Rightarrow> attempt_ref \<Rightarrow> launch_ref \<Rightarrow>
    activity_options \<Rightarrow> time \<Rightarrow> ('e \<times> gstate) world \<Rightarrow> wf_error option \<times> ('e \<times> gstate) world" where
  "register_owner rt c q b attempt launch opts deadline w =
     (if rt_version rt ''job-owner-registration'' = 1 then
        (case get as_job_observation (exec rt c opts (AwaitJobOwner \<lparr>oj_Launch = launch, oj_Deadline = deadline\<rparr>) w) of
           (Inl err, w1) \<Rightarrow> (Some err, w1)
         | (Inr owner, w1) \<Rightarrow>
             if jo_Reason owner = '''' \<and> jo_Pods owner \<noteq> [] \<and> po_PodUID (hd (jo_Pods owner)) \<noteq> '''' then
               (case get as_unit (exec rt c (activityOptions q b) (RegisterInstance
                       (register_input attempt launch (jo_JobUID owner) (hd (jo_Pods owner)))) w1) of
                  (Inl err, w2) \<Rightarrow> (Some err, w2)
                | (Inr _, w2) \<Rightarrow> (None, w2))
             else (None, w1))
      else (None, w))"

definition step_launched :: "('e \<times> gstate) runtime \<Rightarrow> wctx \<Rightarrow> queues \<Rightarrow> bounds \<Rightarrow> step_spec \<Rightarrow> attempt_ref \<Rightarrow>
    launch_ref \<Rightarrow> time \<Rightarrow> ('e \<times> gstate) world \<Rightarrow> step_state \<times> ('e \<times> gstate) world" where
  "step_launched rt c q b spec attempt launch deadline w =
     (case createJob rt c q b \<lparr>js_ProfileID = sp_ProfileID spec, js_OperationID = sp_OperationID spec,
             js_ExecutionEpoch = ar_ExecutionEpoch attempt, js_Inputs = sp_Inputs spec, js_Component = sp_Component spec\<rparr>
             launch (ar_Deadline attempt) empty_ledger w of
        (Inl err, l1, w1) \<Rightarrow>
          step_error rt c err ''OBSERVER_FAILED'' (step_start\<lparr>jt_Launched := True, jt_Launch := launch, jt_Creates := l1\<rparr>) w1
      | (Inr job, l1, w1) \<Rightarrow>
          (let st = step_start\<lparr>jt_Launched := True, jt_Launch := launch, jt_Creates := l1\<rparr>;
               opts = observeOptions q b (observe_timeout (ar_Deadline attempt) (now rt w1))
           in case register_owner rt c q b attempt launch opts deadline w1 of
                (Some err, w2) \<Rightarrow> step_error rt c err ''OBSERVER_FAILED'' st w2
              | (None, w2) \<Rightarrow>
                  (case get as_job_observation (exec rt c opts
                          (ObserveJob \<lparr>oj_Launch = launch, oj_Deadline = ar_Deadline attempt\<rparr>) w2) of
                     (Inl err, w3) \<Rightarrow> step_error rt c err ''OBSERVER_FAILED'' st w3
                   | (Inr obs, w3) \<Rightarrow> step_observed rt c q b spec attempt obs st w3)))"

definition step_body :: "('e \<times> gstate) runtime \<Rightarrow> wctx \<Rightarrow> queues \<Rightarrow> bounds \<Rightarrow> step_spec \<Rightarrow> attempt_ref \<Rightarrow>
    ('e \<times> gstate) world \<Rightarrow> step_state \<times> ('e \<times> gstate) world" where
  "step_body rt c q b spec attempt w =
     (if \<not> ar_Deadline attempt > now rt w
      then (returned (''infrastructure_failed'', ''DEADLINE_EXCEEDED'') ''DEADLINE_EXCEEDED'' step_start, w)
      else let deadline = launch_deadline b attempt (now rt w) in
        case get as_launch (exec rt c (activityOptions q b) (PrepareLaunch
                \<lparr>pl_Attempt = attempt, pl_CommandID = ar_AttemptID attempt @ '':launch'',
                 pl_LaunchKey = launchKeyForAttempt (sp_LaunchPrefix spec) (ar_AttemptID attempt),
                 pl_Deadline = ar_Deadline attempt\<rparr>) w) of
          (Inl err, w1) \<Rightarrow> step_error rt c err ''PROFILE_UNQUALIFIED'' step_start w1
        | (Inr launch, w1) \<Rightarrow> step_launched rt c q b spec attempt launch deadline w1)"

section \<open>The deferred end of the step\<close>

definition step_cleanup :: "('e \<times> gstate) runtime \<Rightarrow> queues \<Rightarrow> bounds \<Rightarrow> attempt_ref \<Rightarrow> step_state \<Rightarrow>
    ('e \<times> gstate) world \<Rightarrow> string \<times> create_ledger \<times> ('e \<times> gstate) world" where
  "step_cleanup rt q b attempt st w =
     (if jt_Launched st
      then (case cleanupRound rt Disconnected q b attempt (jt_Launch st) (jt_Creates st) w of
          (ok, l1, w1) \<Rightarrow> (if ok then ''complete'' else ''unknown'', l1, w1))
      else (''not_required'', jt_Creates st, w))"

text \<open>The code the step returns after its cleanup and close.\<close>

definition step_close :: "('e \<times> gstate) runtime \<Rightarrow> queues \<Rightarrow> bounds \<Rightarrow> attempt_ref \<Rightarrow> step_state \<Rightarrow>
    ('e \<times> gstate) world \<Rightarrow> (string \<times> ('e \<times> gstate) world) option" where
  "step_close rt q b attempt st w =
     (case step_cleanup rt q b attempt st w of
        (cleanup, l1, w1) \<Rightarrow>
          (case closeLaunchForSettlement rt Disconnected q b attempt (jt_Launched st) (ar_AttemptID attempt @ '':close'')
                  (jt_Outcome st) cleanup (jt_FailureCode st) w1 of
             None \<Rightarrow> None
           | Some (Some cerr, w2) \<Rightarrow> Some (if jt_Code st = '''' then RefusalCode (Some cerr) else jt_Code st, w2)
           | Some (None, w2) \<Rightarrow>
               if cleanup \<noteq> ''unknown'' then Some (jt_Code st, w2)
               else (case reconcileCleanup rt Disconnected q b attempt (jt_Launch st) l1 w2 of
                   None \<Rightarrow> None
                 | Some (ok, l2, w3) \<Rightarrow>
                     if \<not> ok then Some (''CLEANUP_UNCONFIRMED'', w3)
                     else (case closeLaunchForSettlement rt Disconnected q b attempt (jt_Launched st)
                             (ar_AttemptID attempt @ '':close:settled'') (jt_Outcome st) ''complete'' (jt_FailureCode st) w3 of
                         None \<Rightarrow> None
                       | Some (_, w4) \<Rightarrow> Some (jt_Code st, w4)))))"

definition holdAfterCleanup :: string where
  "holdAfterCleanup = ''hold-after-cleanup''"

definition step_finish :: "('e \<times> gstate) runtime \<Rightarrow> queues \<Rightarrow> bounds \<Rightarrow> attempt_ref \<Rightarrow> step_state \<Rightarrow>
    ('e \<times> gstate) world \<Rightarrow> (string \<times> ('e \<times> gstate) world) option" where
  "step_finish rt q b attempt st w =
     (if rt_version rt holdAfterCleanup = 1
      then map_option (apsnd (upd (inflight (-1)))) (step_close rt q b attempt st w)
      else step_close rt q b attempt st (upd (inflight (-1)) w))"

record step_result =
  jx_Stage :: accepted_stage
  jx_Attempt :: attempt_ref
  jx_Current :: instance_ref
  jx_Code :: string

definition open_step :: "step_spec \<Rightarrow> nat \<Rightarrow> open_attempt_input" where
  "open_step spec ordinal =
     \<lparr>oa_OperationID = sp_OperationID spec, oa_TenantID = sp_TenantID spec,
      oa_CommandID = sp_OperationID spec @ '':'' @ sp_StepID spec @ '':'' @ show_nat (sp_Visit spec) @ '':'' @
        show_nat ordinal @ '':open'',
      oa_StepID = sp_StepID spec, oa_Visit = sp_Visit spec, oa_ProfileID = sp_ProfileID spec\<rparr>"

definition runJobStep :: "('e \<times> gstate) runtime \<Rightarrow> wctx \<Rightarrow> queues \<Rightarrow> bounds \<Rightarrow> step_spec \<Rightarrow> ('e \<times> gstate) world \<Rightarrow>
    (step_result \<times> ('e \<times> gstate) world) option" where
  "runJobStep rt c q b spec w =
     (case nextOrdinal (sp_StepID spec) (sp_Visit spec) (gst w) of
        (ordinal, g) \<Rightarrow>
          (case get as_attempt (exec rt c (activityOptions q b) (OpenAttempt (open_step spec ordinal)) (upd (\<lambda>_. g) w)) of
             (Inl err, w1) \<Rightarrow> Some (\<lparr>jx_Stage = no_stage, jx_Attempt = no_attempt, jx_Current = no_instance,
                 jx_Code = firstNonEmpty [RefusalCode (Some err), ''OBSERVER_FAILED'']\<rparr>, w1)
           | (Inr attempt, w1) \<Rightarrow>
               (case step_body rt c q b spec attempt (upd (inflight 1) w1) of
                  (st, w2) \<Rightarrow>
                    (case step_finish rt q b attempt st w2 of
                       None \<Rightarrow> None
                     | Some (code, w3) \<Rightarrow> Some (\<lparr>jx_Stage = jt_Stage st, jx_Attempt = attempt, jx_Current = jt_Current st,
                         jx_Code = code\<rparr>, w3)))))"

section \<open>The calls of a step\<close>

text \<open>The Activities of a Job: those of its launch, its instances and the end of its attempt.\<close>

fun job_request :: "request \<Rightarrow> bool" where
  "job_request (PrepareLaunch _) \<longleftrightarrow> True"
| "job_request (Temporal.CreateJob _) \<longleftrightarrow> True"
| "job_request (ObserveJob _) \<longleftrightarrow> True"
| "job_request (AwaitJobOwner _) \<longleftrightarrow> True"
| "job_request (RegisterInstance _) \<longleftrightarrow> True"
| "job_request (ObserveInstance _) \<longleftrightarrow> True"
| "job_request (ObserveLaunch _) \<longleftrightarrow> True"
| "job_request (DeleteJob _) \<longleftrightarrow> True"
| "job_request (CloseAttempt _) \<longleftrightarrow> True"
| "job_request (GetAcceptedStage _) \<longleftrightarrow> True"
| "job_request _ \<longleftrightarrow> False"

fun inner_event :: "event \<Rightarrow> bool" where
  "inner_event (Act _ _ r _) \<longleftrightarrow> job_request r"
| "inner_event (Slept _ _ _) \<longleftrightarrow> True"

abbreviation step_call :: "event \<Rightarrow> bool" where
  "step_call e \<equiv> calm_event e \<and> inner_event e"

lemma create_inner_event: "create_event c opts e \<Longrightarrow> inner_event e"
  by (cases "(c, opts, e)" rule: create_event.cases) auto

lemma cleanup_inner_event: "cleanup_event c q b attempt launch e \<Longrightarrow> inner_event e"
  by (cases "(c, q, b, attempt, launch, e)" rule: cleanup_event.cases) auto

lemma round_inner_event: "round_event c q b attempt launch e \<Longrightarrow> inner_event e"
  by (cases e) (auto dest: cleanup_inner_event)

lemma close_inner_event: "close_event c q b inp e \<Longrightarrow> inner_event e"
  by (cases "(c, q, b, inp, e)" rule: close_event.cases) auto

text \<open>A step of the body keeps the launch it works on.\<close>

definition same_launch :: "step_state \<Rightarrow> step_state \<Rightarrow> bool" where
  "same_launch st st' \<longleftrightarrow> jt_Launched st' = jt_Launched st \<and> jt_Launch st' = jt_Launch st \<and> jt_Creates st' = jt_Creates st"

lemma same_launch_refl [simp]: "same_launch st st"
  by (simp add: same_launch_def)

lemma same_launch_returned [simp]:
  "same_launch st (returned r code st') = same_launch st st'"
  "same_launch st (st'\<lparr>jt_Stage := s\<rparr>) = same_launch st st'"
  "same_launch st (st'\<lparr>jt_Current := i\<rparr>) = same_launch st st'"
  "same_launch (st\<lparr>jt_Current := i\<rparr>) st' = same_launch st st'"
  by (simp_all add: same_launch_def returned_def)

lemma step_error_does: "step_error rt c err code st w = (st', w') \<Longrightarrow> w' = w \<and> same_launch st st'"
  by (auto simp: step_error_def Let_def)

lemma step_accepted_does:
  assumes "step_accepted rt c q b spec attempt obs st w = (st', w')"
  shows "runs rt step_call w w' \<and> same_launch st st'"
proof -
  obtain res w1 where one: "get as_accepted_stage (exec rt c (readOptions q b) (GetAcceptedStage
      \<lparr>gs_AttemptID = ar_AttemptID attempt, gs_TenantID = sp_TenantID spec, gs_OperationID = sp_OperationID spec\<rparr>) w) = (res, w1)"
    by fastforce
  have "runs rt step_call w w1" by (rule runs_one [OF one]) simp
  then show ?thesis using assms one
    by (auto simp: step_accepted_def Let_def split: sum.splits if_splits dest: step_error_does)
qed

lemma register_instances_runs:
  "register_instances rt c q b attempt launch jobUID i pods current w = (err, cur, w') \<Longrightarrow> runs rt step_call w w'"
proof (induction pods arbitrary: i current w)
  case (Cons pod pods)
  obtain res w1 where one: "get as_instance (exec rt c (activityOptions q b)
      (RegisterInstance (register_input attempt launch jobUID pod)) w) = (res, w1)" by fastforce
  have r1: "runs rt step_call w w1" by (rule runs_one [OF one]) simp
  show ?case
  proof (cases res)
    case (Inr inst)
    obtain res2 w2 where two: "get as_unit (exec rt c (activityOptions q b)
        (ObserveInstance \<lparr>oi_Attempt = attempt, oi_Instance = inst, oi_Observation = pod\<rparr>) w1) = (res2, w2)" by fastforce
    have "runs rt step_call w1 w2" by (rule runs_one [OF two]) simp
    then show ?thesis using Cons r1 one two Inr by (auto split: sum.splits intro: runs_trans)
  qed (use Cons.prems one r1 in simp)
qed simp

lemma step_observed_does:
  assumes "step_observed rt c q b spec attempt obs st w = (st', w')"
  shows "runs rt step_call w w' \<and> same_launch st st'"
proof -
  obtain err cur w1 where reg: "register_instances rt c q b attempt (jt_Launch st) (jo_JobUID obs) 0 (jo_Pods obs)
      no_instance w = (err, cur, w1)" by (metis prod_cases3)
  note r1 = register_instances_runs [OF reg]
  show ?thesis using assms reg r1
    by (auto simp: step_observed_def Let_def split: option.splits if_splits
        dest!: step_error_does step_accepted_does intro: runs_trans)
qed

lemma register_owner_does:
  assumes "register_owner rt c q b attempt launch opts deadline w = (err, w')"
  shows "runs rt step_call w w'"
proof (cases "rt_version rt ''job-owner-registration'' = 1")
  case True
  obtain res w1 where one: "get as_job_observation (exec rt c opts
      (AwaitJobOwner \<lparr>oj_Launch = launch, oj_Deadline = deadline\<rparr>) w) = (res, w1)" by fastforce
  have r1: "runs rt step_call w w1" by (rule runs_one [OF one]) simp
  show ?thesis
  proof (cases res)
    case (Inr owner)
    obtain res2 w2 where two: "get as_unit (exec rt c (activityOptions q b) (RegisterInstance
        (register_input attempt launch (jo_JobUID owner) (hd (jo_Pods owner)))) w1) = (res2, w2)" by fastforce
    have "runs rt step_call w1 w2" by (rule runs_one [OF two]) simp
    then have "w' = w1 \<or> w' = w2" "runs rt step_call w w2" using assms one two Inr True runs_trans [OF r1]
      by (auto simp: register_owner_def split: if_splits sum.splits)
    then show ?thesis using r1 by blast
  qed (use assms one r1 True in \<open>simp add: register_owner_def\<close>)
qed (use assms in \<open>simp add: register_owner_def\<close>)

abbreviation step_job :: "step_spec \<Rightarrow> attempt_ref \<Rightarrow> job_spec" where
  "step_job spec attempt \<equiv> \<lparr>js_ProfileID = sp_ProfileID spec, js_OperationID = sp_OperationID spec,
     js_ExecutionEpoch = ar_ExecutionEpoch attempt, js_Inputs = sp_Inputs spec, js_Component = sp_Component spec\<rparr>"

text \<open>After its create the step works on one launch with one ledger.\<close>

lemma step_launched_does:
  assumes "step_launched rt c q b spec attempt launch deadline w = (st', w')"
  obtains res l1 w1 where "createJob rt c q b (step_job spec attempt) launch (ar_Deadline attempt) empty_ledger w = (res, l1, w1)"
    and "runs rt step_call w1 w'" "jt_Launched st'" "jt_Launch st' = launch" "jt_Creates st' = l1"
proof -
  obtain res l1 w1 where cr: "createJob rt c q b (step_job spec attempt) launch (ar_Deadline attempt) empty_ledger w = (res, l1, w1)"
    by (metis prod_cases3)
  let ?st = "step_start\<lparr>jt_Launched := True, jt_Launch := launch, jt_Creates := l1\<rparr>"
  let ?opts = "observeOptions q b (observe_timeout (ar_Deadline attempt) (now rt w1))"
  have "runs rt step_call w1 w' \<and> same_launch ?st st'"
  proof (cases res)
    case (Inl err)
    then show ?thesis using assms cr by (auto simp: step_launched_def dest!: step_error_does)
  next
    case (Inr job)
    obtain err w2 where own: "register_owner rt c q b attempt launch ?opts deadline w1 = (err, w2)" by fastforce
    note r2 = register_owner_does [OF own]
    obtain res3 w3 where ob: "get as_job_observation (exec rt c ?opts
        (ObserveJob \<lparr>oj_Launch = launch, oj_Deadline = ar_Deadline attempt\<rparr>) w2) = (res3, w3)" by fastforce
    have r3: "runs rt step_call w2 w3" by (rule runs_one [OF ob]) simp
    show ?thesis
    proof (cases err)
      case (Some e)
      then show ?thesis using assms cr Inr own r2 by (auto simp: step_launched_def Let_def dest!: step_error_does)
    next
      case None
      then have "(\<exists>e. res3 = Inl e \<and> step_error rt c e ''OBSERVER_FAILED'' ?st w3 = (st', w')) \<or>
          (\<exists>obs. step_observed rt c q b spec attempt obs ?st w3 = (st', w'))"
        using assms cr Inr own ob by (cases res3) (auto simp: step_launched_def Let_def)
      then have "runs rt step_call w3 w' \<and> same_launch ?st st'"
        by (auto dest!: step_error_does step_observed_does)
      then show ?thesis using runs_trans [OF r2 runs_trans [OF r3]] by blast
    qed
  qed
  then show thesis using that [OF cr] by (simp add: same_launch_def)
qed

abbreviation step_prepare :: "step_spec \<Rightarrow> attempt_ref \<Rightarrow> request" where
  "step_prepare spec attempt \<equiv> PrepareLaunch
     \<lparr>pl_Attempt = attempt, pl_CommandID = ar_AttemptID attempt @ '':launch'',
      pl_LaunchKey = launchKeyForAttempt (sp_LaunchPrefix spec) (ar_AttemptID attempt), pl_Deadline = ar_Deadline attempt\<rparr>"

lemma step_body_cases:
  assumes "step_body rt c q b spec attempt w = (st', w')"
  obtains (unlaunched) "\<not> jt_Launched st'" "runs rt step_call w w'"
  | (launched) launch deadline w1 where "get as_launch (exec rt c (activityOptions q b) (step_prepare spec attempt) w) = (Inr launch, w1)"
      "step_launched rt c q b spec attempt launch deadline w1 = (st', w')"
proof -
  obtain res w1 where pl: "get as_launch (exec rt c (activityOptions q b) (step_prepare spec attempt) w) = (res, w1)" by fastforce
  have r1: "runs rt step_call w w1" by (rule runs_one [OF pl]) simp
  show thesis
  proof (cases "ar_Deadline attempt > now rt w")
    case False
    then show thesis using assms unlaunched by (auto simp: step_body_def step_start_def returned_def)
  next
    case True
    show thesis
    proof (cases res)
      case (Inl err)
      then have "step_error rt c err ''PROFILE_UNQUALIFIED'' step_start w1 = (st', w')"
        using assms pl True by (simp add: step_body_def Let_def)
      then show thesis using unlaunched r1 by (auto simp: same_launch_def step_start_def dest: step_error_does)
    next
      case (Inr launch)
      then have "step_launched rt c q b spec attempt launch (launch_deadline b attempt (now rt w)) w1 = (st', w')"
        using assms pl True by (simp add: step_body_def Let_def)
      then show thesis using launched pl Inr by blast
    qed
  qed
qed

lemma calm_body: "step_call e \<Longrightarrow> body_event e"
  by (simp add: quiet_body)

abbreviation step_event :: "event \<Rightarrow> bool" where
  "step_event e \<equiv> body_event e \<and> inner_event e"

lemma step_body_calls:
  assumes "step_body rt c q b spec attempt w = (st', w')"
  shows "runs rt step_event w w'"
  using assms
proof (cases rule: step_body_cases)
  case unlaunched
  show ?thesis by (rule runs_mono [OF unlaunched(2)]) (simp add: calm_body)
next
  case (launched launch deadline w1)
  have r1: "runs rt step_event w w1" by (rule runs_one [OF launched(1)]) (simp add: body_event_def)
  show ?thesis using launched(2)
  proof (cases rule: step_launched_does)
    case (1 res l1 w2)
    have "runs rt step_event w1 w2"
      by (rule runs_mono [OF createJob_runs [OF 1(1)]]) (simp add: create_body create_inner_event)
    moreover have "runs rt step_event w2 w'" by (rule runs_mono [OF 1(2)]) (simp add: calm_body)
    ultimately show ?thesis by (rule runs_trans [OF r1 runs_trans])
  qed
qed

lemma step_body_runs: "step_body rt c q b spec attempt w = (st', w') \<Longrightarrow> runs rt body_event w w'"
  by (drule step_body_calls) (erule runs_mono, simp)

section \<open>What a step leaves\<close>

text \<open>A step leaves its launch key as the body of a LocalCheck run does.\<close>

definition local_of :: "step_state \<Rightarrow> local_state" where
  "local_of st = \<lparr>st_Outcome = jt_Outcome st, st_FailureCode = jt_FailureCode st, st_Launched = jt_Launched st,
     st_Launch = jt_Launch st, st_Creates = jt_Creates st\<rparr>"

lemma step_cleanup_local: "step_cleanup rt q b attempt st w = local_cleanup rt q b attempt (local_of st) w"
  by (simp add: step_cleanup_def local_cleanup_def local_of_def)

lemma calm_settling: "truthful rt b key pend obj due \<Longrightarrow> runs rt step_call w w' \<Longrightarrow> settling pend obj due (est w) (est w')"
  by (erule quiet_settling, erule runs_mono) simp

lemma step_body_ok:
  assumes "truthful rt b key pend obj due" "key = launchKeyForAttempt (sp_LaunchPrefix spec) (ar_AttemptID attempt)"
    and "step_body rt c q b spec attempt w = (st', w')" "pend (est w) = {}" "obj (est w) = {}"
  shows "body_ok b key pend obj due (local_of st') (est w')"
  using assms(3)
proof (cases rule: step_body_cases)
  case unlaunched
  then show ?thesis using empty_settling [OF calm_settling [OF assms(1)] assms(4,5)] by (simp add: body_ok_def local_of_def)
next
  case (launched launch deadline w1)
  have r1: "runs rt step_call w w1" by (rule runs_one [OF launched(1)]) simp
  have key: "lr_LaunchKey launch = key" using truthful_prepared [OF assms(1) launched(1)] assms(2) by simp
  note e1 = empty_settling [OF calm_settling [OF assms(1) r1] assms(4,5)]
  show ?thesis using launched(2)
  proof (cases rule: step_launched_does)
    case (1 res l1 w2)
    have "accounted (CreateRequestLifetime b) pend due l1 (est w2)"
      by (rule createJob_accounted [OF 1(1) truthful_launch [OF assms(1) key] _ accounted_start])
        (use assms(1) key e1 in \<open>simp_all add: truthful_def\<close>)
    from accounted_settling [OF this calm_settling [OF assms(1) 1(2)]] show ?thesis
      using 1(3-5) key by (simp add: body_ok_def local_of_def)
  qed
qed

lemma closeLaunchForSettlement_safe:
  assumes "closeLaunchForSettlement rt c q b attempt launched commandID outcome cleanup failureCode w = Some (err, w')"
  shows "runs rt (close_event c q b (close_input attempt commandID outcome cleanup failureCode)) w w'"
  using assms closeLaunch_safe(1) unfolding closeLaunchForSettlement_def map_option_eq_Some
  by (metis apfst_conv prod.collapse prod.inject)

lemma closeLaunchForSettlement_returns:
  assumes "advancing rt" "rt_version rt pollChange = 1" "0 < ReconcileInitialInterval b" "0 < ReconcileMaxInterval b"
  shows "closeLaunchForSettlement rt c q b attempt launched commandID outcome cleanup failureCode w \<noteq> None"
proof -
  let ?inp = "close_input attempt commandID outcome cleanup failureCode"
  let ?w = "close_waiting rt outcome"
  obtain err1 w1 where one: "close_loop rt c q b ?inp ?w (newPoller rt b 0) w = Some (err1, w1)"
    using close_loop_returns [OF poller_ok_new [OF assms(2)]] by fastforce
  have "restore_loop rt c q b ?inp 0 ?w (now rt w1) (ReconcileInitialInterval b) err1 w1 \<noteq> None"
    by (rule restore_loop_returns [OF assms(1,2,4,3)])
  then show ?thesis using one
    by (auto simp: closeLaunchForSettlement_def closeLaunchAttemptFrom_def closeAttemptFrom_def)
qed

lemma closeLaunchForSettlement_sent:
  assumes "closeLaunchForSettlement rt c q b attempt launched commandID outcome cleanup failureCode w = Some (err, w')"
  shows "closes w < closes w'"
proof -
  let ?inp = "close_input attempt commandID outcome cleanup failureCode"
  let ?w = "close_waiting rt outcome"
  obtain err1 w1 where one: "close_loop rt c q b ?inp ?w (newPoller rt b 0) w = Some (err1, w1)"
    using assms by (auto simp: closeLaunchForSettlement_def closeLaunchAttemptFrom_def closeAttemptFrom_def split: option.splits)
  have "closes w1 \<le> closes w'"
  proof (cases "w' = w1")
    case False
    then obtain r where "restore_loop rt c q b ?inp 0 ?w (now rt w1) (ReconcileInitialInterval b) err1 w1 = Some r" "snd r = w'"
      using assms one by (auto simp: closeLaunchForSettlement_def closeLaunchAttemptFrom_def closeAttemptFrom_def
          split: if_splits option.splits)
    from restore_loop_safe [OF this(1)] this(2) have "runs rt (close_event c q b ?inp) w1 w'" by simp
    then show ?thesis by (rule closes_mono)
  qed simp
  then show ?thesis using close_loop_sent [OF one] by simp
qed

text \<open>What the closes of a step state.\<close>

fun closes_with :: "attempt_ref \<Rightarrow> step_state \<Rightarrow> event \<Rightarrow> bool" where
  "closes_with attempt st (Act _ _ (CloseAttempt inp) _) \<longleftrightarrow>
     ca_Attempt inp = attempt \<and> ca_Outcome inp = jt_Outcome st \<and> ca_FailureCode inp = jt_FailureCode st"
| "closes_with attempt st _ \<longleftrightarrow> True"

lemma close_event_closes_with:
  "close_event c q b (close_input attempt cid (jt_Outcome st) cleanup (jt_FailureCode st)) e \<Longrightarrow> closes_with attempt st e"
  by (cases "(attempt, st, e)" rule: closes_with.cases) (auto simp: close_input_def)

lemma not_close_closes_with: "\<not> is_close e \<Longrightarrow> closes_with attempt st e"
  by (cases "(attempt, st, e)" rule: closes_with.cases) auto

lemma cleanup_event_closes_with: "cleanup_event c q b attempt launch e \<Longrightarrow> closes_with attempt' st e"
  by (rule not_close_closes_with) (auto elim: is_close.elims)

lemma round_event_closes_with: "round_event c q b attempt launch e \<Longrightarrow> closes_with attempt' st e"
  by (rule not_close_closes_with, cases e) (auto elim: is_close.elims)

abbreviation step_send :: "('e \<times> gstate) runtime \<Rightarrow> queues \<Rightarrow> bounds \<Rightarrow> attempt_ref \<Rightarrow> step_state \<Rightarrow> string \<Rightarrow> string \<Rightarrow>
    ('e \<times> gstate) world \<Rightarrow> (wf_error option \<times> ('e \<times> gstate) world) option" where
  "step_send rt q b attempt st suffix cleanup w \<equiv>
     closeLaunchForSettlement rt Disconnected q b attempt (jt_Launched st) (ar_AttemptID attempt @ suffix)
       (jt_Outcome st) cleanup (jt_FailureCode st) w"

abbreviation step_input :: "attempt_ref \<Rightarrow> step_state \<Rightarrow> string \<Rightarrow> string \<Rightarrow> close_attempt_input" where
  "step_input attempt st suffix cleanup \<equiv>
     close_input attempt (ar_AttemptID attempt @ suffix) (jt_Outcome st) cleanup (jt_FailureCode st)"

lemma step_close_cases:
  assumes "step_close rt q b attempt st w = Some (code, w')"
  obtains (over) cleanup l1 w1 cerr where "step_cleanup rt q b attempt st w = (cleanup, l1, w1)"
      "step_send rt q b attempt st '':close'' cleanup w1 = Some (cerr, w')" "cerr \<noteq> None \<or> cleanup \<noteq> ''unknown''"
      "code = (if jt_Code st = '''' then RefusalCode cerr else jt_Code st)"
  | (reconciled) l1 w1 w2 ok l2 w3 where "step_cleanup rt q b attempt st w = (''unknown'', l1, w1)"
      "step_send rt q b attempt st '':close'' ''unknown'' w1 = Some (None, w2)"
      "reconcileCleanup rt Disconnected q b attempt (jt_Launch st) l1 w2 = Some (ok, l2, w3)"
      "\<not> ok \<and> w' = w3 \<and> code = ''CLEANUP_UNCONFIRMED'' \<or>
       ok \<and> code = jt_Code st \<and> (\<exists>x. step_send rt q b attempt st '':close:settled'' ''complete'' w3 = Some (x, w'))"
proof -
  obtain cleanup l1 w1 where first: "step_cleanup rt q b attempt st w = (cleanup, l1, w1)" by (metis prod_cases3)
  obtain cerr w2 where cl: "step_send rt q b attempt st '':close'' cleanup w1 = Some (cerr, w2)"
    using assms first by (auto simp: step_close_def split: option.splits)
  show thesis
  proof (cases "cerr = None \<and> cleanup = ''unknown''")
    case False
    then have "w2 = w'" "code = (if jt_Code st = '''' then RefusalCode cerr else jt_Code st)"
      using assms first cl by (cases cerr; auto simp: step_close_def)+
    then show thesis using over first cl False by blast
  next
    case True
    then obtain ok l2 w3 where rec: "reconcileCleanup rt Disconnected q b attempt (jt_Launch st) l1 w2 = Some (ok, l2, w3)"
      using assms first cl by (auto simp: step_close_def split: option.splits)
    have "\<not> ok \<and> w' = w3 \<and> code = ''CLEANUP_UNCONFIRMED'' \<or>
       ok \<and> code = jt_Code st \<and> (\<exists>x. step_send rt q b attempt st '':close:settled'' ''complete'' w3 = Some (x, w'))"
      using assms first cl True rec by (cases ok) (auto simp: step_close_def split: option.splits)
    then show thesis using reconciled first cl True rec by simp
  qed
qed

abbreviation closing_event :: "attempt_ref \<Rightarrow> step_state \<Rightarrow> event \<Rightarrow> bool" where
  "closing_event attempt st e \<equiv> closes_with attempt st e \<and> inner_event e"

lemma step_close_does:
  assumes "step_close rt q b attempt st w = Some (code, w')"
  shows "runs rt (closing_event attempt st) w w'" "closes w < closes w'"
proof -
  have sent: "runs rt (closing_event attempt st) v v' \<and> closes v < closes v'"
    if "step_send rt q b attempt st suffix cleanup v = Some (cerr, v')" for suffix cleanup v cerr v'
    using runs_mono [OF closeLaunchForSettlement_safe [OF that], of "closing_event attempt st"] close_event_closes_with close_inner_event
      closeLaunchForSettlement_sent [OF that] by blast
  have first: "runs rt (closing_event attempt st) w w1" if "step_cleanup rt q b attempt st w = (cleanup, l1, w1)" for cleanup l1 w1
    by (rule runs_mono [OF local_cleanup_runs [OF that [unfolded step_cleanup_local]]])
      (simp add: cleanup_event_closes_with cleanup_inner_event)
  have "runs rt (closing_event attempt st) w w' \<and> closes w < closes w'" using assms
  proof (cases rule: step_close_cases)
    case (over cleanup l1 w1 cerr)
    note r1 = first [OF over(1)] and r2 = sent [OF over(2)]
    show ?thesis using runs_trans [OF r1] closes_mono [OF r1] r2 by auto
  next
    case (reconciled l1 w1 w2 ok l2 w3)
    note r1 = first [OF reconciled(1)] and r2 = sent [OF reconciled(2)]
    note r12 = runs_trans [OF r1 conjunct1 [OF r2]]
    have r3: "runs rt (closing_event attempt st) w2 w3"
      using reconcile_loop_runs [OF reconciled(3) [unfolded reconcileCleanup_def]]
      by (auto elim!: runs_mono intro: round_event_closes_with round_inner_event)
    have r4: "runs rt (closing_event attempt st) w3 w'"
      using reconciled(4) sent by (elim disjE conjE exE) auto
    have "closes w < closes w2" using closes_mono [OF r1] r2 by simp
    then show ?thesis using runs_trans [OF r12 runs_trans [OF r3 r4]] closes_mono [OF runs_trans [OF r3 r4]] by simp
  qed
  then show "runs rt (closing_event attempt st) w w'" "closes w < closes w'" by blast+
qed

lemma step_close_sound:
  assumes "truthful rt b key pend obj due" "step_close rt q b attempt st w = Some (code, w')"
    and "body_ok b key pend obj due (local_of st) (est w)"
  shows "count_events claims_clean w' = count_events claims_clean w \<or> pend (est w') = {} \<and> obj (est w') = {}"
  using assms(2)
proof (cases rule: step_close_cases)
  case (over cleanup l1 w1 cerr)
  note clean = local_cleanup_sound [OF assms(1) over(1) [unfolded step_cleanup_local] assms(3)]
  note run = closeLaunchForSettlement_safe [OF over(2)]
  show ?thesis
  proof (cases "cleanup = ''unknown''")
    case True
    then have "ca_Cleanup (step_input attempt st '':close'' cleanup) = ''unknown''" by (simp add: close_input_def)
    then show ?thesis using clean(3) count_events_none [OF run close_event_clean] by simp
  next
    case False
    then show ?thesis using empty_settling [OF close_settling [OF assms(1) run]] clean(1) by blast
  qed
next
  case (reconciled l1 w1 w2 ok l2 w3)
  note clean = local_cleanup_sound [OF assms(1) reconciled(1) [unfolded step_cleanup_local] assms(3)]
  note run2 = closeLaunchForSettlement_safe [OF reconciled(2)]
  have n2: "count_events claims_clean w2 = count_events claims_clean w"
    using clean(3) count_events_none [OF run2 close_event_clean] by (simp add: close_input_def)
  have acc2: "accounted (CreateRequestLifetime b) pend due l1 (est w2)"
    using clean(2) close_settling [OF assms(1) run2] by (blast intro: accounted_settling)
  have "jt_Launched st" using reconciled(1) by (auto simp: step_cleanup_def split: if_splits)
  then have tr: "backend_truthful rt (jt_Launch st) pend obj due"
    using assms(3) truthful_launch [OF assms(1)] by (simp add: body_ok_def local_of_def)
  note acc3 = reconcileCleanup_accounted [OF reconciled(3) tr acc2]
  have n3: "count_events claims_clean w3 = count_events claims_clean w"
    using n2 count_events_none [OF acc3(2) round_event_clean] by simp
  show ?thesis
  proof (cases ok)
    case False
    then show ?thesis using reconciled(4) n3 by simp
  next
    case True
    then obtain x where "step_send rt q b attempt st '':close:settled'' ''complete'' w3 = Some (x, w')" using reconciled(4) by blast
    from empty_settling [OF close_settling [OF assms(1) closeLaunchForSettlement_safe [OF this]]]
    show ?thesis using acc3(1) [OF True] by simp
  qed
qed

lemma step_close_returns:
  assumes "advancing rt" "rt_version rt pollChange = 1" "0 < ReconcileInitialInterval b" "0 < ReconcileMaxInterval b"
  shows "step_close rt q b attempt st w \<noteq> None"
proof -
  obtain cleanup l1 w1 where first: "step_cleanup rt q b attempt st w = (cleanup, l1, w1)" by (metis prod_cases3)
  obtain cerr w2 where cl: "step_send rt q b attempt st '':close'' cleanup w1 = Some (cerr, w2)"
    using closeLaunchForSettlement_returns [OF assms] by fastforce
  obtain ok l2 w3 where rec: "reconcileCleanup rt Disconnected q b attempt (jt_Launch st) l1 w2 = Some (ok, l2, w3)"
    using reconcile_loop_returns [OF assms(1,4,3)] unfolding reconcileCleanup_def by (metis not_Some_eq prod_cases3)
  obtain x w4 where cl2: "step_send rt q b attempt st '':close:settled'' ''complete'' w3 = Some (x, w4)"
    using closeLaunchForSettlement_returns [OF assms] by fastforce
  show ?thesis using first cl rec cl2 by (cases cerr) (simp_all add: step_close_def)
qed

section \<open>The evidence of a result\<close>

lemma step_error_code: "code \<noteq> '''' \<Longrightarrow> step_error rt c err code st w = (st', w') \<Longrightarrow> jt_Code st' \<noteq> ''''"
  by (auto simp: step_error_def settle_def returned_def Let_def split: if_splits)

text \<open>Control's answer about the attempt, the only thing a stage is taken from.\<close>

definition stage_answered :: "wctx \<Rightarrow> step_spec \<Rightarrow> attempt_ref \<Rightarrow> accepted_stage \<Rightarrow> event \<Rightarrow> bool" where
  "stage_answered c spec attempt stage e \<longleftrightarrow> as_Found stage \<and>
     (\<exists>opts. e = Act c opts (GetAcceptedStage
        \<lparr>gs_AttemptID = ar_AttemptID attempt, gs_TenantID = sp_TenantID spec, gs_OperationID = sp_OperationID spec\<rparr>)
        (Inr (RAcceptedStage stage)))"

definition evidenced :: "wctx \<Rightarrow> step_spec \<Rightarrow> attempt_ref \<Rightarrow> step_state \<Rightarrow> 'w world \<Rightarrow> bool" where
  "evidenced c spec attempt st w \<longleftrightarrow>
     (\<exists>e \<in> set (trace w). stage_answered c spec attempt (jt_Stage st) e) \<and>
     (jt_Outcome st, jt_FailureCode st) = stage_outcome (jt_Stage st)"

lemma as_accepted_stage_Some: "as_accepted_stage r = Some x \<longleftrightarrow> r = RAcceptedStage x"
  by (auto simp: as_accepted_stage_def split: response.splits)

lemma step_accepted_evidence:
  assumes "step_accepted rt c q b spec attempt obs st w = (st', w')" "jt_Code st' = ''''"
  shows "evidenced c spec attempt st' w'"
proof -
  obtain res w1 where one: "get as_accepted_stage (exec rt c (readOptions q b) (GetAcceptedStage
      \<lparr>gs_AttemptID = ar_AttemptID attempt, gs_TenantID = sp_TenantID spec, gs_OperationID = sp_OperationID spec\<rparr>) w) = (res, w1)"
    by fastforce
  obtain raw where tr: "trace w1 = Act c (readOptions q b) (GetAcceptedStage
      \<lparr>gs_AttemptID = ar_AttemptID attempt, gs_TenantID = sp_TenantID spec, gs_OperationID = sp_OperationID spec\<rparr>) raw # trace w"
    "res = decode as_accepted_stage raw" using trace_get_exec [OF one] by blast
  show ?thesis
  proof (cases res)
    case (Inl err)
    then have "step_error rt c err ''OBSERVER_FAILED'' st w1 = (st', w')" using assms(1) one by (simp add: step_accepted_def)
    from step_error_code [OF _ this] assms(2) show ?thesis by simp
  next
    case (Inr stage)
    then have raw: "raw = Inr (RAcceptedStage stage)" using tr(2) by (auto simp: decode_Inr as_accepted_stage_Some dest: sym)
    have "as_Found stage"
      using assms one Inr by (auto simp: step_accepted_def returned_def Let_def split: if_splits)
    then have "w' = w1 \<and> jt_Stage st' = stage \<and> (jt_Outcome st', jt_FailureCode st') = stage_outcome stage"
      using assms one Inr by (auto simp: step_accepted_def returned_def)
    then show ?thesis using tr(1) raw \<open>as_Found stage\<close> by (simp add: evidenced_def stage_answered_def)
  qed
qed

lemma step_observed_evidence:
  assumes "step_observed rt c q b spec attempt obs st w = (st', w')" "jt_Code st' = ''''"
  shows "evidenced c spec attempt st' w'"
proof -
  obtain err cur w1 where reg: "register_instances rt c q b attempt (jt_Launch st) (jo_JobUID obs) 0 (jo_Pods obs)
      no_instance w = (err, cur, w1)" by (metis prod_cases3)
  show ?thesis
  proof (cases err)
    case None
    then show ?thesis using assms reg step_accepted_evidence
      by (auto simp: step_observed_def returned_def Let_def split: if_splits)
  next
    case (Some e)
    then have "step_error rt c e ''OBSERVER_FAILED'' (st\<lparr>jt_Current := cur\<rparr>) w1 = (st', w')"
      using assms(1) reg by (simp add: step_observed_def)
    from step_error_code [OF _ this] assms(2) show ?thesis by simp
  qed
qed

lemma step_body_evidence:
  assumes "step_body rt c q b spec attempt w = (st', w')" "jt_Code st' = ''''"
  shows "evidenced c spec attempt st' w'"
proof -
  have no_error: False if "step_error rt c err code st v = (st', w')" "code \<noteq> ''''" for err code st v
    using step_error_code [OF that(2,1)] assms(2) by simp
  obtain res w1 where pl: "get as_launch (exec rt c (activityOptions q b) (step_prepare spec attempt) w) = (res, w1)" by fastforce
  have "ar_Deadline attempt > now rt w"
    using assms by (auto simp: step_body_def returned_def split: if_splits)
  then obtain launch where launch: "res = Inr launch"
    using assms(1) pl no_error by (cases res) (auto simp: step_body_def Let_def)
  let ?deadline = "launch_deadline b attempt (now rt w)"
  have run: "step_launched rt c q b spec attempt launch ?deadline w1 = (st', w')"
    using assms(1) pl launch \<open>ar_Deadline attempt > now rt w\<close> by (simp add: step_body_def Let_def)
  obtain cres l1 w2 where cr: "createJob rt c q b (step_job spec attempt) launch (ar_Deadline attempt) empty_ledger w1 = (cres, l1, w2)"
    by (metis prod_cases3)
  then obtain job where job: "cres = Inr job" using run no_error by (cases cres) (auto simp: step_launched_def)
  let ?st = "step_start\<lparr>jt_Launched := True, jt_Launch := launch, jt_Creates := l1\<rparr>"
  let ?opts = "observeOptions q b (observe_timeout (ar_Deadline attempt) (now rt w2))"
  obtain err w3 where own: "register_owner rt c q b attempt launch ?opts ?deadline w2 = (err, w3)" by fastforce
  then have none: "err = None" using run cr job no_error by (cases err) (auto simp: step_launched_def Let_def)
  obtain res4 w4 where ob: "get as_job_observation (exec rt c ?opts
      (ObserveJob \<lparr>oj_Launch = launch, oj_Deadline = ar_Deadline attempt\<rparr>) w3) = (res4, w4)" by fastforce
  have rest: "(case res4 of Inl e \<Rightarrow> step_error rt c e ''OBSERVER_FAILED'' ?st w4
      | Inr obs \<Rightarrow> step_observed rt c q b spec attempt obs ?st w4) = (st', w')"
    using run cr job own none ob by (simp add: step_launched_def Let_def)
  then obtain obs where "res4 = Inr obs" using no_error by (cases res4) auto
  with rest have "step_observed rt c q b spec attempt obs ?st w4 = (st', w')" by simp
  then show ?thesis using assms(2) by (rule step_observed_evidence)
qed

section \<open>The whole step\<close>

lemma upd_world [simp]: "closes (upd f w) = closes w" "count_events K (upd f w) = count_events K w"
  by (simp_all add: closes_def count_events_def)

lemma step_finish_cases:
  assumes "step_finish rt q b attempt st w = Some (code, w')"
  obtains v v' where "step_close rt q b attempt st v = Some (code, v')" "trace v = trace w" "trace v' = trace w'"
    "fst (est v) = fst (est w)" "fst (est v') = fst (est w')"
proof (cases "rt_version rt holdAfterCleanup = 1")
  case True
  then obtain v' where "step_close rt q b attempt st w = Some (code, v')" "w' = upd (inflight (-1)) v'"
    using assms by (auto simp: step_finish_def)
  then show thesis using that [of w v'] by simp
next
  case False
  then have "step_close rt q b attempt st (upd (inflight (-1)) w) = Some (code, w')" using assms by (simp add: step_finish_def)
  then show thesis using that by simp
qed

lemma runJobStep_cases:
  assumes "runJobStep rt c q b spec w = Some (r, w')"
  obtains (refused) opts raw where "trace w' = Act c opts (OpenAttempt (open_step spec (fst (nextOrdinal (sp_StepID spec) (sp_Visit spec) (gst w))))) raw # trace w"
      "jx_Code r \<noteq> ''''"
  | (opened) w1 st w2 where "get as_attempt (exec rt c (activityOptions q b) (OpenAttempt (open_step spec
          (fst (nextOrdinal (sp_StepID spec) (sp_Visit spec) (gst w)))))
          (upd (\<lambda>_. snd (nextOrdinal (sp_StepID spec) (sp_Visit spec) (gst w))) w)) = (Inr (jx_Attempt r), w1)"
      "step_body rt c q b spec (jx_Attempt r) (upd (inflight 1) w1) = (st, w2)"
      "step_finish rt q b (jx_Attempt r) st w2 = Some (jx_Code r, w')" "jx_Stage r = jt_Stage st" "jx_Current r = jt_Current st"
proof -
  obtain ordinal g where nx: "nextOrdinal (sp_StepID spec) (sp_Visit spec) (gst w) = (ordinal, g)" by fastforce
  obtain res w1 where op: "get as_attempt (exec rt c (activityOptions q b) (OpenAttempt (open_step spec ordinal)) (upd (\<lambda>_. g) w)) = (res, w1)"
    by fastforce
  show thesis
  proof (cases res)
    case (Inl err)
    have "firstNonEmpty [RefusalCode (Some err), ''OBSERVER_FAILED''] \<noteq> ''''" by simp
    then show thesis using assms nx op Inl refused trace_get_exec [OF op] by (auto simp: runJobStep_def)
  next
    case (Inr attempt)
    obtain st w2 where body: "step_body rt c q b spec attempt (upd (inflight 1) w1) = (st, w2)" by fastforce
    show thesis using assms nx op Inr body opened [of w1 st w2]
      by (auto simp: runJobStep_def split: option.splits)
  qed
qed

lemma runJobStep_total:
  assumes "advancing rt" "rt_version rt pollChange = 1" "0 < ReconcileInitialInterval b" "0 < ReconcileMaxInterval b"
  shows "runJobStep rt c q b spec w \<noteq> None"
proof -
  have fin: "step_finish rt q b attempt st v \<noteq> None" for attempt st v
    using step_close_returns [OF assms] by (simp add: step_finish_def)
  then show ?thesis by (auto simp: runJobStep_def fin split: prod.split sum.split option.split)
qed

lemma runJobStep_closed:
  assumes "runJobStep rt c q b spec w = Some (r, w')"
  shows "closes w < closes w' \<or> (\<exists>opts n raw. trace w' = Act c opts (OpenAttempt (open_step spec n)) raw # trace w)"
  using assms
proof (cases rule: runJobStep_cases)
  case (opened w1 st w2)
  have r1: "closes w \<le> closes w1" using closes_mono [OF runs_one [OF opened(1), of "\<lambda>e. True"]] by simp
  have r2: "closes w1 \<le> closes w2" using closes_mono [OF step_body_runs [OF opened(2)]] by simp
  show ?thesis using opened(3)
  proof (cases rule: step_finish_cases)
    case (1 v v')
    then have "closes w2 < closes w'" using step_close_does(2) [OF 1(1)] by (simp add: closes_def)
    then show ?thesis using r1 r2 by simp
  qed
qed blast

lemma runJobStep_confirmed:
  assumes "runJobStep rt c q b spec w = Some (r, w')"
    and "truthful rt b (launchKeyForAttempt (sp_LaunchPrefix spec) (ar_AttemptID (jx_Attempt r))) (pend \<circ> fst) (obj \<circ> fst) (due \<circ> fst)"
    and "pend (fst (est w)) = {}" "obj (fst (est w)) = {}"
    and "count_events claims_clean w' \<noteq> count_events claims_clean w"
  shows "pend (fst (est w')) = {} \<and> obj (fst (est w')) = {}"
  using assms(1)
proof (cases rule: runJobStep_cases)
  case (refused opts raw)
  then show ?thesis using assms(5) by (simp add: count_events_def)
next
  case (opened w1 st w2)
  let ?key = "launchKeyForAttempt (sp_LaunchPrefix spec) (ar_AttemptID (jx_Attempt r))"
  have r1: "runs rt quiet_event (upd (\<lambda>_. snd (nextOrdinal (sp_StepID spec) (sp_Visit spec) (gst w))) w) w1"
    by (rule runs_one [OF opened(1)]) simp
  have e1: "(pend \<circ> fst) (est w1) = {}" "(obj \<circ> fst) (est w1) = {}"
    using empty_settling [OF quiet_settling [OF assms(2) r1]] assms(3,4) by simp_all
  have n1: "count_events claims_clean w1 = count_events claims_clean w"
    using count_events_none [OF r1 body_event_clean [OF quiet_body]] by simp
  have ok: "body_ok b ?key (pend \<circ> fst) (obj \<circ> fst) (due \<circ> fst) (local_of st) (est w2)"
    by (rule step_body_ok [OF assms(2) refl opened(2)]) (use e1 in simp_all)
  have n2: "count_events claims_clean w2 = count_events claims_clean w"
    using count_events_none [OF step_body_runs [OF opened(2)] body_event_clean] n1 by simp
  show ?thesis using opened(3)
  proof (cases rule: step_finish_cases)
    case (1 v v')
    have "body_ok b ?key (pend \<circ> fst) (obj \<circ> fst) (due \<circ> fst) (local_of st) (est v)"
      using ok 1(4) by (cases "st_Launched (local_of st)") (simp_all add: body_ok_def accounted_def timely_def)
    from step_close_sound [OF assms(2) 1(1) this] show ?thesis
      using 1 n2 assms(5) by (auto simp: count_events_def)
  qed
qed

lemma runs_set: "runs rt P w w' \<Longrightarrow> set (trace w) \<subseteq> set (trace w')"
  by (drule runs_extends) (auto simp: extends_def)

lemma runJobStep_evidenced:
  assumes "runJobStep rt c q b spec w = Some (r, w')" "jx_Code r = ''''"
  shows "\<exists>st. jt_Stage st = jx_Stage r \<and> evidenced c spec (jx_Attempt r) st w' \<and>
    (\<exists>new. trace w' = new @ trace w \<and> list_all (closes_with (jx_Attempt r) st) new)"
  using assms(1)
proof (cases rule: runJobStep_cases)
  case (refused opts raw)
  then show ?thesis using assms(2) by simp
next
  case (opened w1 st w2)
  let ?P = "closes_with (jx_Attempt r) st"
  have x1: "extends ?P w w1"
    using runs_extends [OF runs_one [OF opened(1), of ?P]] by (simp add: extends_def)
  have x2: "extends ?P w1 w2"
    using runs_extends [OF runs_mono [OF step_body_runs [OF opened(2)], of ?P]] not_close_closes_with
    by (simp add: extends_def body_event_def)
  show ?thesis using opened(3)
  proof (cases rule: step_finish_cases)
    case (1 v v')
    note does = step_close_does(1) [OF 1(1)]
    have "extends ?P v v'" by (rule extends_mono [OF runs_extends [OF does]]) simp
    then have x3: "extends ?P w2 w'" using 1(2,3) by (simp add: extends_def)
    have "jt_Code st = ''''" using 1(1)
      by (cases rule: step_close_cases) (use assms(2) in \<open>auto split: if_splits\<close>)
    then have "evidenced c spec (jx_Attempt r) st w2" using step_body_evidence [OF opened(2)] by simp
    moreover have "set (trace w2) \<subseteq> set (trace w')" using runs_set [OF does] 1(2,3) by simp
    ultimately have "evidenced c spec (jx_Attempt r) st w'" by (auto simp: evidenced_def)
    moreover have "extends ?P w w'" using x1 x2 x3 by (blast intro: extends_trans)
    ultimately show ?thesis using opened(4) by (auto simp: extends_def)
  qed
qed

text \<open>A step makes the calls of its Job only, and opens attempts of its own step and visit only.\<close>

fun opens_step :: "wctx \<Rightarrow> step_spec \<Rightarrow> event \<Rightarrow> bool" where
  "opens_step c spec (Act c' opts (OpenAttempt i) raw) \<longleftrightarrow> c' = c \<and> (\<exists>n. i = open_step spec n)"
| "opens_step c spec _ \<longleftrightarrow> False"

lemma runJobStep_sends:
  assumes "runJobStep rt c q b spec w = Some (r, w')"
  shows "extends (\<lambda>e. opens_step c spec e \<or> inner_event e) w w'"
  using assms
proof (cases rule: runJobStep_cases)
  case (refused opts raw)
  then show ?thesis by (auto simp: extends_def)
next
  case (opened w1 st w2)
  let ?P = "\<lambda>e. opens_step c spec e \<or> inner_event e"
  have x1: "extends ?P w w1"
    using runs_extends [OF runs_one [OF opened(1), of ?P]] by (auto simp: extends_def)
  have "extends ?P (upd (inflight 1) w1) w2"
    by (rule extends_mono [OF runs_extends [OF step_body_calls [OF opened(2)]]]) simp
  then have x2: "extends ?P w1 w2" by (simp add: extends_def)
  show ?thesis using opened(3)
  proof (cases rule: step_finish_cases)
    case (1 v v')
    have "extends ?P v v'" by (rule extends_mono [OF runs_extends [OF step_close_does(1) [OF 1(1)]]]) simp
    then have "extends ?P w2 w'" using 1(2,3) by (simp add: extends_def)
    with x1 x2 show ?thesis by (blast intro: extends_trans)
  qed
qed

fun job_event :: "event \<Rightarrow> bool" where
  "job_event (Act _ _ (OpenAttempt _) _) \<longleftrightarrow> True"
| "job_event e \<longleftrightarrow> inner_event e"

lemma inner_job_event: "inner_event e \<Longrightarrow> job_event e"
  by (cases e rule: job_event.cases) auto

lemma opens_job_event: "opens_step c spec e \<Longrightarrow> job_event e"
  by (cases "(c, spec, e)" rule: opens_step.cases) auto

lemma close_job_event: "close_event c q b inp e \<Longrightarrow> job_event e"
  by (rule inner_job_event, rule close_inner_event)

lemma runJobStep_calls:
  assumes "runJobStep rt c q b spec w = Some (r, w')"
  shows "extends job_event w w'"
  by (rule extends_mono [OF runJobStep_sends [OF assms]]) (auto intro: inner_job_event opens_job_event)

section \<open>A run without other coroutines\<close>

text \<open>\<open>beside rt\<close>: a runtime during whose calls nothing else of the run acts on the record it shares with other coroutines.\<close>

definition beside :: "'e runtime \<Rightarrow> ('e \<times> 's) runtime" where
  "beside rt =
     \<lparr>rt_perform = (\<lambda>c opts r (e, g). case rt_perform rt c opts r e of (res, e') \<Rightarrow> (res, (e', g))),
      rt_sleep = (\<lambda>c d (e, g). case rt_sleep rt c d e of (res, e') \<Rightarrow> (res, (e', g))),
      rt_now = (\<lambda>(e, g). rt_now rt e), rt_ctx_err = (\<lambda>c (e, g). rt_ctx_err rt c e), rt_version = rt_version rt,
      rt_can_suggested = (\<lambda>(e, g). rt_can_suggested rt e), rt_workflow_type = rt_workflow_type rt\<rparr>"

lemma beside_simps [simp]:
  "rt_perform (beside rt) c opts r (e, g) = (case rt_perform rt c opts r e of (res, e') \<Rightarrow> (res, (e', g)))"
  "rt_sleep (beside rt) c d (e, g) = (case rt_sleep rt c d e of (res, e') \<Rightarrow> (res, (e', g)))"
  "rt_now (beside rt) (e, g) = rt_now rt e" "rt_ctx_err (beside rt) c (e, g) = rt_ctx_err rt c e"
  "rt_version (beside rt) = rt_version rt"
  by (simp_all add: beside_def)

lemma beside_advancing: "advancing rt \<Longrightarrow> advancing (beside rt)"
  unfolding advancing_def by (auto split: prod.splits) (metis fst_conv snd_conv)+

lemma beside_settling: "settling pend obj due e e' \<Longrightarrow> settling (pend \<circ> fst) (obj \<circ> fst) (due \<circ> fst) (e, g) (e', g')"
  by (simp add: settling_def)

lemma beside_launch:
  assumes "backend_truthful rt launch pend obj due" "creates_truthful rt launch life pend due"
  shows "backend_truthful (beside rt) launch (pend \<circ> fst) (obj \<circ> fst) (due \<circ> fst)"
    "creates_truthful (beside rt) launch life (pend \<circ> fst) (due \<circ> fst)"
proof -
  have per: "\<exists>e1 g e1'. e = (e1, g) \<and> e' = (e1', g) \<and> rt_perform rt c opts r e1 = (res, e1')"
    if "rt_perform (beside rt) c opts r e = (res, e')" for c opts r e res e'
    using that by (cases e) (auto split: prod.splits)
  have slp: "\<exists>e1 g e1'. e = (e1, g) \<and> e' = (e1', g) \<and> rt_sleep rt c d e1 = (res, e1')"
    if "rt_sleep (beside rt) c d e = (res, e')" for c d e res e'
    using that by (cases e) (auto split: prod.splits)
  note a = assms(1) [unfolded backend_truthful_def]
  show "backend_truthful (beside rt) launch (pend \<circ> fst) (obj \<circ> fst) (due \<circ> fst)"
    unfolding backend_truthful_def
  proof (intro conjI allI impI, goal_cases)
    case (1 c opts r e res e')
    obtain e1 g e1' where e: "e = (e1, g)" "e' = (e1', g)" "rt_perform rt c opts r e1 = (res, e1')" using per [OF 1(1)] by blast
    have "settling pend obj due e1 e1'" by (rule a [THEN conjunct1, rule_format, OF e(3) 1(2)])
    then show ?case unfolding e by (rule beside_settling)
  next
    case (2 c d e res e')
    obtain e1 g e1' where e: "e = (e1, g)" "e' = (e1', g)" "rt_sleep rt c d e1 = (res, e1')" using slp [OF 2(1)] by blast
    have "settling pend obj due e1 e1'" by (rule a [THEN conjunct2, THEN conjunct1, rule_format, OF e(3)])
    then show ?case unfolding e by (rule beside_settling)
  next
    case (3 c opts inp e obs e')
    obtain e1 g e1' where e: "e = (e1, g)" "e' = (e1', g)" "rt_perform rt c opts (ObserveLaunch inp) e1 = (Inr (RLaunchObservation obs), e1')"
      using per [OF 3(1)] by blast
    have "set (lo_Requests obs) \<inter> pend e1' = {}" using a e(3) 3(2) by blast
    then show ?case using e by simp
  next
    case (4 c opts inp e obs e')
    obtain e1 g e1' where e: "e = (e1, g)" "e' = (e1', g)" "rt_perform rt c opts (DeleteJob inp) e1 = (Inr (RLaunchObservation obs), e1')"
      using per [OF 4(1)] by blast
    have "set (lo_Requests obs) \<inter> pend e1' = {}" using a e(3) 4(2) by blast
    then show ?case using e by simp
  next
    case (5 c opts inp e obs e')
    obtain e1 g e1' where e: "e = (e1, g)" "e' = (e1', g)" "rt_perform rt c opts (DeleteJob inp) e1 = (Inr (RLaunchObservation obs), e1')"
      using per [OF 5(1)] by blast
    have "obj e1' \<subseteq> pend e1 - pend e1'" using a e(3) 5(2,3) by blast
    then show ?case using e by simp
  next
    case (6 e)
    show ?case using a by (cases e) simp
  qed
  show "creates_truthful (beside rt) launch life (pend \<circ> fst) (due \<circ> fst)"
    unfolding creates_truthful_def
  proof (intro allI impI, goal_cases)
    case (1 c opts inp e res e')
    obtain e1 g e1' where e: "e = (e1, g)" "e' = (e1', g)" "rt_perform rt c opts (Temporal.CreateJob inp) e1 = (res, e1')"
      using per [OF 1(1)] by blast
    note conjunct1 [OF assms(2) [unfolded creates_truthful_def, rule_format, OF e(3) 1(2)]]
      conjunct2 [OF assms(2) [unfolded creates_truthful_def, rule_format, OF e(3) 1(2)]]
    then show ?case using e by simp
  qed
qed

lemma beside_truthful:
  fixes rt :: "'e runtime"
  assumes "truthful rt b key pend obj due"
  shows "truthful (beside rt :: ('e \<times> 's) runtime) b key (pend \<circ> fst) (obj \<circ> fst) (due \<circ> fst)"
proof -
  let ?rt = "beside rt :: ('e \<times> 's) runtime"
  have "lr_LaunchKey launch = pl_LaunchKey inp"
    if p: "rt_perform ?rt c opts (PrepareLaunch inp) e = (Inr (RLaunch launch), e')" for c opts inp e launch e'
  proof -
    obtain e1 g e1' where "rt_perform rt c opts (PrepareLaunch inp) e1 = (Inr (RLaunch launch), e1')"
      using p by (cases e) (auto split: prod.splits)
    then show ?thesis using assms unfolding truthful_def by blast
  qed
  moreover have "backend_truthful ?rt launch (pend \<circ> fst) (obj \<circ> fst) (due \<circ> fst) \<and>
      creates_truthful ?rt launch (CreateRequestLifetime b) (pend \<circ> fst) (due \<circ> fst)"
    if "lr_LaunchKey launch = key" for launch
  proof -
    have "backend_truthful rt launch pend obj due" "creates_truthful rt launch (CreateRequestLifetime b) pend due"
      using assms that by (simp_all add: truthful_def)
    from beside_launch [OF this] show ?thesis by blast
  qed
  ultimately show ?thesis unfolding truthful_def by simp
qed

section \<open>Properties\<close>

text \<open>
  A step always ends and never without closing the attempt it opened: whatever the
  backend, Control and the other coroutines of the run do, on a clock that advances the step
  returns, and it has sent a close of its attempt unless opening it was all it did.
\<close>

theorem runJobStep_returns:
  assumes "advancing rt" "rt_version rt pollChange = 1" "0 < ReconcileInitialInterval b" "0 < ReconcileMaxInterval b"
  shows "\<exists>r w'. runJobStep rt c q b spec w = Some (r, w') \<and>
    (closes w < closes w' \<or> (\<exists>opts n raw. trace w' = Act c opts (OpenAttempt (open_step spec n)) raw # trace w))"
  using runJobStep_total [OF assms] runJobStep_closed by fast

definition example_step :: step_spec where
  "example_step = \<lparr>sp_OperationID = ''op_1'', sp_TenantID = ''t1'', sp_StepID = ''generate'', sp_Visit = 0,
     sp_ProfileID = ''source-v1'', sp_LaunchPrefix = ''gen'', sp_Inputs = [], sp_Component = None\<rparr>"

definition with_gstate :: "'e world \<Rightarrow> ('e \<times> gstate) world" where
  "with_gstate w = \<lparr>est = (est w, new_gstate), trace = trace w\<rparr>"

theorem runJobStep_returns_witness:
  "\<exists>r w'. runJobStep (beside shelf_runtime) WorkCtx example_queues example_bounds example_step (with_gstate empty_shelf) = Some (r, w') \<and>
    (closes (with_gstate empty_shelf) < closes w' \<or>
     (\<exists>opts n raw. trace w' = Act WorkCtx opts (OpenAttempt (open_step example_step n)) raw # trace (with_gstate empty_shelf)))"
  by (rule runJobStep_returns [OF beside_advancing [OF shelf_advancing]])
    (simp_all add: shelf_runtime_def example_bounds_def second_def minute_def)

text \<open>
  C15. A step never states a cleanup it has not. With the launch key of the attempt empty at
  the start and the backend's answers truthful, if any close the step sent stated its cleanup
  as complete or not required, then nothing exists under that key when the step ends and no
  create request of the step can commit any more.
\<close>

theorem runJobStep_states_cleanup:
  assumes "runJobStep rt c q b spec w = Some (r, w')"
    and "truthful rt b (launchKeyForAttempt (sp_LaunchPrefix spec) (ar_AttemptID (jx_Attempt r))) (pend \<circ> fst) (obj \<circ> fst) (due \<circ> fst)"
    and "pend (fst (est w)) = {}" "obj (fst (est w)) = {}"
    and "count_events claims_clean w' \<noteq> count_events claims_clean w"
  shows "pend (fst (est w')) = {} \<and> obj (fst (est w')) = {}"
  using assms by (rule runJobStep_confirmed)

text \<open>A step whose three create requests are all lost, and land during its cleanup.\<close>

lemma example_step_run:
  "\<exists>r w'. runJobStep (beside shelf_runtime) WorkCtx example_queues example_bounds example_step (with_gstate empty_shelf) = Some (r, w') \<and>
     count_events claims_clean w' = 1"
  by (simp add: runJobStep_def nextOrdinal_def example_step_def open_step_def with_gstate_def upd_def gst_def new_gstate_def
      inflight_def empty_shelf_def step_body_def step_error_def returned_def step_start_def example_attempt_def
      step_launched_def step_finish_def step_close_def step_cleanup_def closeLaunchForSettlement_def
      closeLaunchAttemptFrom_def closeAttemptFrom_def close_loop.simps close_waits_def settle_def cleanup_eval
      count_events_def close_input_def createJob_def create_loop.simps shelf_simps example_bounds_def empty_ledger_def
      issue_def create_input_def after_failure_def unanswered_def int32_of_def backoff_def holdAfterCleanup_def Let_def)

theorem runJobStep_states_cleanup_witness:
  "\<exists>r w'. runJobStep (beside shelf_runtime) WorkCtx example_queues example_bounds example_step (with_gstate empty_shelf) = Some (r, w') \<and>
     shelf_pend (fst (est w')) = {} \<and> shelf_objs (fst (est w')) = {}"
proof -
  obtain r w' where run: "runJobStep (beside shelf_runtime) WorkCtx example_queues example_bounds example_step (with_gstate empty_shelf) = Some (r, w')"
    and claimed: "count_events claims_clean w' = 1" using example_step_run by blast
  have "shelf_pend (fst (est (with_gstate empty_shelf))) = {}" "shelf_objs (fst (est (with_gstate empty_shelf))) = {}"
    "count_events claims_clean w' \<noteq> count_events claims_clean (with_gstate empty_shelf)"
    using claimed by (simp_all add: empty_shelf_def with_gstate_def shelf_pend_def shelf_objs_def count_events_def)
  from runJobStep_states_cleanup [OF run beside_truthful [OF shelf_all_truthful] this] run show ?thesis by blast
qed

text \<open>
  A step returns a result only on Control's evidence. When it returns no code, the stage
  it returns is the one Control answered, as found, to the step's question about its own
  attempt, and every close the step sent is a close of this attempt with the outcome of that
  stage: completed if it was certified, failed if it was repairable or invalid.
\<close>

theorem runJobStep_evidence:
  assumes "runJobStep rt c q b spec w = Some (r, w')" "jx_Code r = ''''"
  shows "(\<exists>e \<in> set (trace w'). stage_answered c spec (jx_Attempt r) (jx_Stage r) e) \<and>
    (\<exists>new. trace w' = new @ trace w \<and>
       list_all (\<lambda>e. case e of Act _ _ (CloseAttempt inp) _ \<Rightarrow>
           ca_Attempt inp = jx_Attempt r \<and> (ca_Outcome inp, ca_FailureCode inp) = stage_outcome (jx_Stage r) | _ \<Rightarrow> True) new)"
proof -
  obtain st new where st: "jt_Stage st = jx_Stage r" "evidenced c spec (jx_Attempt r) st w'" "trace w' = new @ trace w"
    "list_all (closes_with (jx_Attempt r) st) new" using runJobStep_evidenced [OF assms] by blast
  have "list_all (\<lambda>e. case e of Act _ _ (CloseAttempt inp) _ \<Rightarrow>
      ca_Attempt inp = jx_Attempt r \<and> (ca_Outcome inp, ca_FailureCode inp) = stage_outcome (jx_Stage r) | _ \<Rightarrow> True) new"
    using st(4) by (rule list.pred_mono_strong) (use st(1,2) in \<open>auto simp: evidenced_def split: event.split request.split\<close>)
  then show ?thesis using st(1-3) unfolding evidenced_def by auto
qed

definition certified_stage :: accepted_stage where
  "certified_stage = no_stage\<lparr>as_Found := True, as_StageID := ''stg_1'', as_AttemptID := ''att_1'', as_Verdict := ''certified''\<rparr>"

definition example_pod :: pod_observation where
  "example_pod = \<lparr>po_PodUID = ''pod'', po_Phase = ''Succeeded'', po_ExitCode = Some 0, po_Reason = '''',
     po_TerminationMessage = '''', po_ObservedAt = 0\<rparr>"

text \<open>The answers to a step whose Job ran to a certified stage.\<close>

definition step_answers :: "(wf_error + response) list" where
  "step_answers = map Inr [RAttempt example_attempt, RLaunch example_launch, RJob \<lparr>jr_JobUID = ''uid'', jr_Request = 1\<rparr>,
     RJobObservation \<lparr>jo_JobUID = ''uid'', jo_Pods = [example_pod], jo_Reason = ''Complete''\<rparr>,
     RJobObservation \<lparr>jo_JobUID = ''uid'', jo_Pods = [example_pod], jo_Reason = ''Complete''\<rparr>,
     RInstance \<lparr>ir_InstanceID = ''i1'', ir_Current = True\<rparr>, RUnit, RAcceptedStage certified_stage,
     RLaunchObservation no_observation, RClose \<lparr>cr_Lifecycle = ''completed''\<rparr>]"

lemmas step_eval = runJobStep_def nextOrdinal_def open_step_def upd_def gst_def inflight_def step_body_def step_error_def
  returned_def step_start_def step_launched_def register_owner_def step_observed_def register_instances.simps
  step_accepted_def stage_outcome_def step_finish_def step_close_def step_cleanup_def closeLaunchForSettlement_def
  closeLaunchAttemptFrom_def closeAttemptFrom_def close_loop.simps close_waits_def settle_def cleanup_eval close_input_def
  createJob_def create_loop.simps empty_ledger_def issue_def create_input_def after_failure_def unanswered_def
  holdAfterCleanup_def

lemma example_certified_run:
  "\<exists>r w'. runJobStep (beside scripted) WorkCtx example_queues example_bounds example_step (with_gstate (start_world step_answers)) = Some (r, w') \<and>
     jx_Code r = '''' \<and> as_Verdict (jx_Stage r) = ''certified'' \<and> gn_inflight (gst w') = 0"
  by (simp add: step_eval example_step_def with_gstate_def new_gstate_def step_answers_def example_attempt_def certified_stage_def
      example_pod_def script_simps example_bounds_def no_stage_def Let_def)

theorem runJobStep_evidence_witness:
  "\<exists>r w'. runJobStep (beside scripted) WorkCtx example_queues example_bounds example_step (with_gstate (start_world step_answers)) = Some (r, w') \<and>
     (\<exists>e \<in> set (trace w'). stage_answered WorkCtx example_step (jx_Attempt r) (jx_Stage r) e)"
proof -
  obtain r w' where run: "runJobStep (beside scripted) WorkCtx example_queues example_bounds example_step
      (with_gstate (start_world step_answers)) = Some (r, w')" and "jx_Code r = ''''" using example_certified_run by blast
  from runJobStep_evidence [OF this] run show ?thesis by blast
qed

end
