(* ===== verification/Outcomes.thy ===== *)
theory Outcomes
  imports JobStep
begin

text \<open>
  What the lifecycle workflows share (\<^verbatim>\<open>internal/workflows/preparation.go\<close>): how a failed
  call becomes the outcome of the operation, and the numbers and names they read from
  Control's answers.
\<close>

section \<open>Outcomes\<close>

definition settleOutcome :: "'e runtime \<Rightarrow> wctx \<Rightarrow> wf_error \<Rightarrow> string \<Rightarrow> 'e world \<Rightarrow> string \<times> string" where
  "settleOutcome rt c err code w =
     (if rt_ctx_err rt c (est w) \<or> IsCanceledError (Some err) then (''canceled'', ''CANCELED'')
      else (''failed'', if RefusalCode (Some err) \<noteq> '''' then RefusalCode (Some err) else code))"

definition fundingOutcome :: "'e runtime \<Rightarrow> wctx \<Rightarrow> wf_error \<Rightarrow> 'e world \<Rightarrow> string \<times> string" where
  "fundingOutcome rt c err w = settleOutcome rt c err ''CONTROL_UNAVAILABLE'' w"

text \<open>\<open>settleOutcome\<close> of the context's own error.\<close>

definition context_outcome :: "'e runtime \<Rightarrow> wctx \<Rightarrow> string \<Rightarrow> 'e world \<Rightarrow> string \<times> string" where
  "context_outcome rt c code w = (if rt_ctx_err rt c (est w) then (''canceled'', ''CANCELED'') else (''failed'', code))"

lemma settleOutcome_code [simp]: "code \<noteq> '''' \<Longrightarrow> snd (settleOutcome rt c err code w) \<noteq> ''''"
  by (simp add: settleOutcome_def)

lemma settleOutcome_never_succeeds [simp]: "fst (settleOutcome rt c err code w) \<noteq> ''succeeded''"
  by (simp add: settleOutcome_def)

section \<open>Numbers and names\<close>

text \<open>
  \<open>strconv.ParseUint(s, 10, 64)\<close> with its error dropped: 0 for a string that is no number,
  the largest value as soon as the digits read exceed it.
\<close>

fun parse_digits :: "nat \<Rightarrow> string \<Rightarrow> nat" where
  "parse_digits acc [] = acc"
| "parse_digits acc (ch # s) =
     (if \<not> (48 \<le> ascii ch \<and> ascii ch \<le> 57) then 0
      else let n = acc * 10 + (ascii ch - 48) in if n \<ge> 2 ^ 64 then 2 ^ 64 - 1 else parse_digits n s)"

definition parse_uint :: "string \<Rightarrow> nat" where
  "parse_uint s = parse_digits 0 s"

lemma parse_digits_bound: "acc < 2 ^ 64 \<Longrightarrow> parse_digits acc s < 2 ^ 64"
proof (induction s arbitrary: acc)
  case (Cons ch s)
  then show ?case by (auto simp: Let_def)
qed simp

lemma parse_digits_append: "set ds \<subseteq> {ch. 48 \<le> ascii ch \<and> ascii ch \<le> 57} \<Longrightarrow> parse_digits acc ds < 2 ^ 64 - 1 \<Longrightarrow>
  parse_digits acc (ds @ s) = parse_digits (parse_digits acc ds) s"
  by (induction ds arbitrary: acc) (auto simp: Let_def split: if_splits)

lemma digits_show_nat: "set (show_nat n) \<subseteq> {ch. 48 \<le> ascii ch \<and> ascii ch \<le> 57}"
proof (induction n rule: show_nat.induct)
  case (1 n)
  then show ?case by (subst show_nat.simps) auto
qed

lemma parse_show_nat:
  assumes "n < 2 ^ 64 - 1"
  shows "parse_uint (show_nat n) = n"
  using assms unfolding parse_uint_def
proof (induction n rule: show_nat.induct)
  case (1 n)
  show ?case
  proof (cases "n < 10")
    case True
    then show ?thesis by (subst show_nat.simps) (simp add: Let_def)
  next
    case False
    have "n div 10 < 2 ^ 64 - 1" using 1(2) by simp
    note ih = 1(1) [OF False this]
    have "parse_digits 0 (show_nat (n div 10) @ [digit (n mod 10)]) = parse_digits (n div 10) [digit (n mod 10)]"
      using parse_digits_append [OF digits_show_nat, of 0 "n div 10"] ih 1(2) by simp
    also have "\<dots> = n"
    proof -
      have "n mod 10 \<le> 9" using mod_less_divisor [of 10 n] by linarith
      then show ?thesis using 1(2) by (simp add: Let_def)
    qed
    finally show ?thesis using False by (subst show_nat.simps) simp
  qed
qed

definition upper :: "char \<Rightarrow> char" where
  "upper ch = (if 97 \<le> ascii ch \<and> ascii ch \<le> 122 then char_of (ascii ch - 32) else ch)"

section \<open>The deferred settlement\<close>

definition settle_end :: "'e runtime \<Rightarrow> queues \<Rightarrow> bounds \<Rightarrow> input \<Rightarrow> string \<Rightarrow> string \<Rightarrow> string \<Rightarrow> 'e world \<Rightarrow>
    (wf_error option \<times> 'e world) option" where
  "settle_end rt q b inp outcome failureCode phase w =
     settleOperation rt Disconnected q b (in_OperationID inp) (in_TenantID inp) (in_OperationID inp @ '':settle'')
       outcome failureCode phase w"


lemma closeForSettlement_calls:
  assumes "closeForSettlement rt c q b attempt commandID outcome cleanup failureCode w = Some (err, w')"
  shows "runs rt (close_event c q b (close_input attempt commandID outcome cleanup failureCode)) w w'"
proof -
  obtain err1 where "close_loop rt c q b (close_input attempt commandID outcome cleanup failureCode)
      (close_waiting rt outcome) (newPoller rt b 0) w = Some (err1, w')"
    using assms by (auto simp: closeForSettlement_def closeAttemptFrom_def)
  from close_loop_safe [OF this] show ?thesis by simp
qed

lemma settle_end_calls:
  assumes "settle_end rt q b inp outcome failureCode phase w = Some (err, w')" "timers_cancel rt"
  shows "extends (settle_event Disconnected q b (settle_input (in_OperationID inp) (in_TenantID inp)
    \<lparr>sc_CommandID = in_OperationID inp @ '':settle'', sc_Outcome = outcome, sc_FailureCode = failureCode,
     sc_Phase = phase, sc_Interval = 0\<rparr>)) w w'"
  using settle_loop_safe [OF _ assms(2)] assms(1) runs_extends
  unfolding settle_end_def settleOperation_def settleWith_def by fastforce

lemma closeForSettlement_returns:
  assumes "rt_version rt pollChange = 1"
  shows "closeForSettlement rt c q b attempt commandID outcome cleanup failureCode w \<noteq> None"
  using close_loop_returns [OF poller_ok_new [OF assms]] by (auto simp: closeForSettlement_def closeAttemptFrom_def)

lemma settle_end_returns:
  assumes "rt_version rt pollChange = 1"
  shows "settle_end rt q b inp outcome failureCode phase w \<noteq> None"
  using settle_wait.loop_ends [OF poller_ok_new [OF assms]]
  unfolding settle_end_def settleOperation_def settleWith_def by fastforce

section \<open>Guarded traces\<close>

text \<open>Of a trace, newest first: every event was allowed by what came before it.\<close>

primrec guarded :: "(event list \<Rightarrow> event \<Rightarrow> bool) \<Rightarrow> event list \<Rightarrow> bool" where
  "guarded G [] \<longleftrightarrow> True"
| "guarded G (e # es) \<longleftrightarrow> G es e \<and> guarded G es"

text \<open>The events between two worlds were each allowed by all that came before.\<close>

primrec guarded_since :: "(event list \<Rightarrow> event \<Rightarrow> bool) \<Rightarrow> event list \<Rightarrow> event list \<Rightarrow> bool" where
  "guarded_since G old [] \<longleftrightarrow> True"
| "guarded_since G old (e # es) \<longleftrightarrow> G (es @ old) e \<and> guarded_since G old es"

definition keeps :: "(event list \<Rightarrow> event \<Rightarrow> bool) \<Rightarrow> 'e world \<Rightarrow> 'e world \<Rightarrow> bool" where
  "keeps G w w' \<longleftrightarrow> (\<exists>new. trace w' = new @ trace w \<and> guarded_since G (trace w) new)"

lemma guarded_member: "guarded G (later @ e # before) \<Longrightarrow> G before e"
  by (induction later) auto

lemma guarded_append: "(\<And>es e. e \<in> set new \<Longrightarrow> G es e) \<Longrightarrow> guarded G (new @ es) = guarded G es"
  by (induction new) auto

lemma guarded_since_guarded: "guarded G (new @ old) \<longleftrightarrow> guarded_since G old new \<and> guarded G old"
  by (induction new) auto

lemma guarded_since_append: "guarded_since G old (new2 @ new1) \<longleftrightarrow> guarded_since G (new1 @ old) new2 \<and> guarded_since G old new1"
  by (induction new2) auto

lemma guarded_since_mono: "guarded_since G old new \<Longrightarrow> (\<And>es e. G (es @ old) e \<Longrightarrow> H (es @ old) e) \<Longrightarrow> guarded_since H old new"
  by (induction new) auto

lemma guarded_since_all: "(\<And>es e. e \<in> set new \<Longrightarrow> G es e) \<Longrightarrow> guarded_since G old new"
  by (induction new) auto

lemma keeps_guarded: "keeps G w w' \<Longrightarrow> guarded G (trace w) \<Longrightarrow> guarded G (trace w')"
  by (auto simp: keeps_def guarded_since_guarded)

lemma keeps_refl [simp, intro]: "keeps G w w"
  by (simp add: keeps_def)

lemma keeps_trans [trans]: "keeps G w w1 \<Longrightarrow> keeps G w1 w2 \<Longrightarrow> keeps G w w2"
  unfolding keeps_def using guarded_since_append by fastforce

lemma extends_keeps:
  assumes "extends P w w'" "\<And>es e. P e \<Longrightarrow> G es e"
  shows "keeps G w w'"
proof -
  obtain new where new: "trace w' = new @ trace w" "list_all P new" using assms(1) by (auto simp: extends_def)
  then show ?thesis unfolding keeps_def using guarded_since_all [of new G] assms(2) by (auto simp: list_all_iff)
qed

lemma keeps_event: "G (trace w) e \<Longrightarrow> trace w' = e # trace w \<Longrightarrow> keeps G w w'"
  by (auto simp: keeps_def intro!: exI [of _ "[e]"])

lemma keeps_call: "get d (exec rt c opts r w) = (res, w') \<Longrightarrow> (\<And>raw. G (trace w) (Act c opts r raw)) \<Longrightarrow> keeps G w w'"
  using trace_get_exec by (metis keeps_event)

lemma keeps_extends: "keeps G w w' \<Longrightarrow> extends (\<lambda>_. True) w w'"
  by (auto simp: keeps_def extends_def list_all_iff)

lemma keeps_subset: "keeps G w w' \<Longrightarrow> set (trace w) \<subseteq> set (trace w')"
  by (auto simp: keeps_def)

section \<open>What the generation and the preparation share\<close>

record update_result =
  ur_Outcome :: string
  ur_ReasonCode :: string

definition operation_command :: "input \<Rightarrow> string \<Rightarrow> command_input" where
  "operation_command inp suffix =
     \<lparr>cx_OperationID = in_OperationID inp, cx_TenantID = in_TenantID inp, cx_CommandID = in_OperationID inp @ suffix\<rparr>"

text \<open>What the run returns with: the outcome, the failure code and the phase it settles under.\<close>

type_synonym verdict3 = "string \<times> string \<times> string"

definition unphased :: "string \<times> string \<Rightarrow> verdict3" where
  "unphased p = (fst p, snd p, '''')"

lemma extends_settles: "extends P w w' \<Longrightarrow> settles w \<le> settles w'"
  by (auto simp: extends_def settles_def)

lemma settle_end_sends:
  assumes "settle_end rt q b inp outcome failureCode phase w = Some (err, w')" "timers_cancel rt"
  shows "settles w < settles w'"
proof -
  let ?carry = "\<lparr>sc_CommandID = in_OperationID inp @ '':settle'', sc_Outcome = outcome, sc_FailureCode = failureCode,
     sc_Phase = phase, sc_Interval = 0\<rparr>"
  let ?loop = "settle_loop rt Disconnected q b (in_OperationID inp) (in_TenantID inp) ?carry"
  obtain p where loop: "?loop p w = Some (err, w')"
    using assms(1) unfolding settle_end_def settleOperation_def settleWith_def by blast
  obtain res w1 where one: "get as_operation (exec rt Disconnected (controlOptions q b)
      (SettleOperation (settle_input (in_OperationID inp) (in_TenantID inp) ?carry)) w) = (res, w1)" by fastforce
  have n1: "settles w1 = Suc (settles w)" using settle_call(2) [OF one] .
  obtain x p1 w2 where sl: "wait rt Disconnected p w1 = (x, p1, w2)" by (metis prod_cases3)
  have n2: "settles w2 = settles w1" using settle_wait_events(2) [OF sl] .
  have "w' = w1 \<or> w' = w2 \<or> ?loop p1 w2 = Some (err, w')"
    using loop one sl by (subst (asm) settle_loop.simps) (cases x; auto split: sum.splits if_splits)
  then show ?thesis
    using n1 n2 settle_loop_safe [OF _ assms(2)] extends_settles [OF runs_extends] by fastforce
qed

section \<open>Examples\<close>

text \<open>The lifecycle bounds, the Job step and the runtime the examples of the workflows use.\<close>

definition example_lifecycle :: lifecycle_bounds where
  "example_lifecycle =
     \<lparr>PermitPollInterval = 5 * second, LeaseTTL = 10 * minute, LeaseRenewLead = 2 * minute, LeaseCallTimeout = 10 * second,
      Definitions = [], AnalysisRouteID = ''route'', AnalysisMaxOutputTokens = 4096,
      AnalysisMaxExposure = \<lparr>mo_Currency = ''USD'', mo_Amount = ''1''\<rparr>, AnalysisCallTimeout = minute,
      ContentRepairAllowance = 1, PreviewBuildProfile = ''validator-dev-v1'', ReleaseValidatorProfile = ''validator-v1'',
      ReleaseDestinations = \<lparr>rd_NpmRegistry = ''npm'', rd_BrowserOrigin = ''cdn''\<rparr>,
      ReleaseApprovalWait = 60 * minute, ReleaseApprovalPoll = minute, ReleasePollsPerRun = 100,
      ReleaseReconcileRounds = 3, ReleaseReconcilePause = minute\<rparr>"

lemma beside_timers: "timers_cancel rt \<Longrightarrow> timers_cancel (beside rt)"
  unfolding timers_cancel_def by (auto split: prod.splits) (metis fst_conv)

end
