(* ===== verification/Preview.thy ===== *)
theory Preview
  imports Outcomes
begin

text \<open>
  \<open>PreviewBuild\<close> (\<^verbatim>\<open>internal/workflows/preview.go\<close>): the edited source is saved
  conditionally under one effect identity, exactly the saved revision is built by a Job step,
  and the preview is recorded ready unless a newer revision of the lineage was saved. The
  body is split where the source opens its numbered parts; \<open>preview_state\<close> holds the
  variables its closures and its deferred settlement share.
\<close>

section \<open>The projection of the run\<close>

definition previewStepID :: string where
  "previewStepID = ''preview-build''"

definition previewBuildProfileID :: string where
  "previewBuildProfileID = ''build-support-dev-v1''"

definition previewHostProfileID :: string where
  "previewHostProfileID = ''host-abi-dev-v1''"

definition previewSaveEffect :: nat where
  "previewSaveEffect = 1"

record preview_state =
  pb_Outcome :: string
  pb_FailureCode :: string
  pb_Phase :: string
  pb_Revision :: nat
  pb_SavedRevision :: string

definition preview_start :: preview_state where
  "preview_start = \<lparr>pb_Outcome = ''failed'', pb_FailureCode = '''', pb_Phase = '''', pb_Revision = 0, pb_SavedRevision = ''''\<rparr>"

text \<open>\<open>activities.PreviewRecordInput{State: state}\<close>.\<close>

definition preview_input :: "string \<Rightarrow> preview_record_input" where
  "preview_input state =
     \<lparr>rw_OperationID = '''', rw_TenantID = '''', rw_ExpectedRevision = 0, rw_State = state, rw_SourceRevision = '''',
      rw_CurrentRevision = '''', rw_SourceDigest = '''', rw_Module = None, rw_Styles = [], rw_BuildProfileID = '''',
      rw_HostProfileID = '''', rw_FailureCode = ''''\<rparr>"

definition preview_completed :: "input \<Rightarrow> preview_source \<Rightarrow> nat \<Rightarrow> preview_record_input \<Rightarrow> preview_record_input" where
  "preview_completed inp src revision r =
     r\<lparr>rw_OperationID := in_OperationID inp, rw_TenantID := in_TenantID inp, rw_ExpectedRevision := revision,
       rw_SourceDigest := sa_Digest (pw_Source src), rw_BuildProfileID := previewBuildProfileID,
       rw_HostProfileID := previewHostProfileID\<rparr>"

text \<open>The closure \<open>record\<close>: one transition of the projection.\<close>

definition preview_record :: "'e runtime \<Rightarrow> queues \<Rightarrow> bounds \<Rightarrow> input \<Rightarrow> preview_source \<Rightarrow> preview_record_input \<Rightarrow>
    preview_state \<Rightarrow> 'e world \<Rightarrow> bool \<times> preview_state \<times> 'e world" where
  "preview_record rt q b inp src r st w =
     (case get as_revision (exec rt Disconnected (controlOptions q b)
             (Lifecycle (RecordPreview (preview_completed inp src (pb_Revision st) r))) w) of
        (Inl err, w1) \<Rightarrow>
          (let p = settleOutcome rt RunCtx err ''PREVIEW_UNRECORDED'' w1 in
           (False, st\<lparr>pb_Outcome := fst p, pb_FailureCode := snd p\<rparr>, w1))
      | (Inr next, w1) \<Rightarrow> (True, st\<lparr>pb_Revision := next\<rparr>, w1))"

text \<open>The closure \<open>fail\<close>: its record names the saved revision once there is one.\<close>

definition preview_fail :: "'e runtime \<Rightarrow> queues \<Rightarrow> bounds \<Rightarrow> input \<Rightarrow> preview_source \<Rightarrow> string \<Rightarrow>
    preview_state \<Rightarrow> 'e world \<Rightarrow> preview_state \<times> 'e world" where
  "preview_fail rt q b inp src code st w =
     snd (preview_record rt q b inp src
       ((preview_input ''failed'')\<lparr>rw_FailureCode := code, rw_SourceRevision := pb_SavedRevision st\<rparr>)
       (st\<lparr>pb_Outcome := ''failed'', pb_FailureCode := code, pb_Phase := ''preview_failed''\<rparr>) w)"

section \<open>The build and the end of the run\<close>

definition preview_final :: "string \<Rightarrow> string \<Rightarrow> stage_artifact \<Rightarrow> stage_artifact list \<Rightarrow> preview_record_input" where
  "preview_final saved current module styles =
     (let final = (preview_input ''ready'')\<lparr>rw_SourceRevision := saved, rw_Module := Some module, rw_Styles := styles\<rparr> in
      if current \<noteq> saved then final\<lparr>rw_State := ''stale'', rw_CurrentRevision := current\<rparr> else final)"

definition preview_publish :: "'e runtime \<Rightarrow> queues \<Rightarrow> bounds \<Rightarrow> input \<Rightarrow> preview_source \<Rightarrow> string \<Rightarrow>
    stage_artifact \<Rightarrow> stage_artifact list \<Rightarrow> preview_state \<Rightarrow> 'e world \<Rightarrow> preview_state \<times> 'e world" where
  "preview_publish rt q b inp src saved module styles st w =
     (case get as_string (exec rt RunCtx (activityOptions q b) (Lifecycle (CurrentSourceRevision (pw_Lineage src))) w) of
        (Inl err, w1) \<Rightarrow> preview_fail rt q b inp src (snd (settleOutcome rt RunCtx err ''SOURCE_UNAVAILABLE'' w1)) st w1
      | (Inr current, w1) \<Rightarrow>
          (case preview_record rt q b inp src (preview_final saved current module styles)
                 (st\<lparr>pb_Phase := (if current \<noteq> saved then ''preview_stale'' else ''preview_ready'')\<rparr>) w1 of
             (False, st1, w2) \<Rightarrow> (st1, w2)
           | (True, st1, w2) \<Rightarrow> (st1\<lparr>pb_Outcome := ''succeeded''\<rparr>, w2)))"

definition preview_step :: "input \<Rightarrow> lifecycle_bounds \<Rightarrow> preview_source \<Rightarrow> string \<Rightarrow> step_spec" where
  "preview_step inp lb src saved =
     \<lparr>sp_OperationID = in_OperationID inp, sp_TenantID = in_TenantID inp, sp_StepID = previewStepID, sp_Visit = 0,
      sp_ProfileID = PreviewBuildProfile lb, sp_LaunchPrefix = ''prv'',
      sp_Inputs = [\<lparr>li_Name = ''source'', li_Digest = sa_Digest (pw_Source src), li_Handle = sa_Handle (pw_Source src)\<rparr>],
      sp_Component = Some (case pw_Identity src of
          None \<Rightarrow> \<lparr>ci_ComponentID = '''', ci_PuckType = '''', ci_PackageName = '''', ci_SourceRevision = saved\<rparr>
        | Some ident \<Rightarrow> \<lparr>ci_ComponentID = ci_ComponentID ident, ci_PuckType = ci_PuckType ident,
            ci_PackageName = ci_PackageName ident, ci_SourceRevision = saved\<rparr>)\<rparr>"

definition preview_build :: "('e \<times> gstate) runtime \<Rightarrow> queues \<Rightarrow> bounds \<Rightarrow> lifecycle_bounds \<Rightarrow> input \<Rightarrow> preview_source \<Rightarrow>
    string \<Rightarrow> preview_state \<Rightarrow> ('e \<times> gstate) world \<Rightarrow> (preview_state \<times> ('e \<times> gstate) world) option" where
  "preview_build rt q b lb inp src saved st w =
     (case runJobStep rt RunCtx q b (preview_step inp lb src saved) w of
        None \<Rightarrow> None
      | Some (r, w1) \<Rightarrow>
          Some (if jx_Code r \<noteq> '''' then preview_fail rt q b inp src (jx_Code r) st w1
                else if as_Verdict (jx_Stage r) \<noteq> ''certified''
                then preview_fail rt q b inp src
                  (firstNonEmpty [as_FailureCode (jx_Stage r), map upper (as_Verdict (jx_Stage r))]) st w1
                else (case stageArtifact (jx_Stage r) ''browser'' of
                    None \<Rightarrow> preview_fail rt q b inp src ''MODULE_MISSING'' st w1
                  | Some module \<Rightarrow> preview_publish rt q b inp src saved module
                      (filter (\<lambda>a. sa_Class a = ''css'') (as_Artifacts (jx_Stage r))) st w1)))"

section \<open>The conditional save\<close>

definition preview_save_open :: "input \<Rightarrow> preview_source \<Rightarrow> open_attempt_input" where
  "preview_save_open inp src =
     \<lparr>oa_OperationID = in_OperationID inp, oa_TenantID = in_TenantID inp,
      oa_CommandID = in_OperationID inp @ '':save:1:open'', oa_StepID = ''save_source'', oa_Visit = 0,
      oa_ProfileID = pw_ProfileID src\<rparr>"

definition preview_save_input :: "input \<Rightarrow> preview_source \<Rightarrow> attempt_ref \<Rightarrow> save_source_input" where
  "preview_save_input inp src attempt =
     \<lparr>si_OperationID = in_OperationID inp, si_TenantID = in_TenantID inp, si_AttemptID = ar_AttemptID attempt,
      si_ExecutionEpoch = parse_uint (ar_ExecutionEpoch attempt),
      si_CommandID = in_OperationID inp @ '':save:'' @ show_nat previewSaveEffect, si_Occurrence = previewSaveEffect,
      si_Lineage = pw_Lineage src, si_BaseRevision = pw_BaseRevision src, si_Source = pw_Source src,
      si_Deadline = ar_Deadline attempt\<rparr>"

text \<open>After the save and the close of its attempt: the answer decides.\<close>

definition preview_saved :: "('e \<times> gstate) runtime \<Rightarrow> queues \<Rightarrow> bounds \<Rightarrow> lifecycle_bounds \<Rightarrow> input \<Rightarrow> preview_source \<Rightarrow>
    wf_error + save_source_result \<Rightarrow> preview_state \<Rightarrow> ('e \<times> gstate) world \<Rightarrow> (preview_state \<times> ('e \<times> gstate) world) option" where
  "preview_saved rt q b lb inp src res st w =
     (case res of
        Inl err \<Rightarrow> Some (preview_fail rt q b inp src (snd (settleOutcome rt RunCtx err ''EFFECT_UNCERTAIN'' w)) st w)
      | Inr saved \<Rightarrow>
          if sv_State saved = ''conflict''
          then Some (snd (preview_record rt q b inp src
              ((preview_input ''conflict'')\<lparr>rw_CurrentRevision := sv_CurrentRevision saved\<rparr>)
              (st\<lparr>pb_Outcome := ''failed'', pb_FailureCode := ''REVISION_CONFLICT'', pb_Phase := ''source_conflict''\<rparr>) w))
          else if sv_State saved = ''denied''
          then Some (preview_fail rt q b inp src (firstNonEmpty [sv_DenialCode saved, ''EFFECT_DENIED'']) st w)
          else if sv_State saved \<noteq> ''saved'' then Some (preview_fail rt q b inp src ''EFFECT_UNCERTAIN'' st w)
          else (case preview_record rt q b inp src ((preview_input ''building'')\<lparr>rw_SourceRevision := sv_Revision saved\<rparr>)
                       (st\<lparr>pb_SavedRevision := sv_Revision saved\<rparr>) w of
              (False, st1, w1) \<Rightarrow> Some (st1, w1)
            | (True, st1, w1) \<Rightarrow> preview_build rt q b lb inp src (sv_Revision saved) st1 w1))"

definition preview_save :: "('e \<times> gstate) runtime \<Rightarrow> queues \<Rightarrow> bounds \<Rightarrow> lifecycle_bounds \<Rightarrow> input \<Rightarrow> preview_source \<Rightarrow>
    preview_state \<Rightarrow> ('e \<times> gstate) world \<Rightarrow> (preview_state \<times> ('e \<times> gstate) world) option" where
  "preview_save rt q b lb inp src st w =
     (case get as_attempt (exec rt RunCtx (activityOptions q b) (OpenAttempt (preview_save_open inp src)) w) of
        (Inl err, w1) \<Rightarrow> Some (preview_fail rt q b inp src (snd (settleOutcome rt RunCtx err ''STALE_EXECUTION'' w1)) st w1)
      | (Inr attempt, w1) \<Rightarrow>
          (case get as_saved (exec rt RunCtx (controlOptions q b)
                  (Lifecycle (SaveSource (preview_save_input inp src attempt))) w1) of
             (res, w2) \<Rightarrow>
               (case closeForSettlement rt Disconnected q b attempt (ar_AttemptID attempt @ '':close'')
                       (case res of Inl _ \<Rightarrow> ''failed'' | Inr saved \<Rightarrow> if sv_State saved \<noteq> ''saved'' then ''failed'' else ''completed'')
                       ''not_required'' '''' w2 of
                  None \<Rightarrow> None
                | Some (_, w3) \<Rightarrow> preview_saved rt q b lb inp src res st w3)))"

section \<open>The run\<close>

definition preview_body :: "('e \<times> gstate) runtime \<Rightarrow> queues \<Rightarrow> bounds \<Rightarrow> lifecycle_bounds \<Rightarrow> input \<Rightarrow>
    ('e \<times> gstate) world \<Rightarrow> (preview_state \<times> ('e \<times> gstate) world) option" where
  "preview_body rt q b lb inp w =
     (case get as_preview_source (exec rt RunCtx (readOptions q b)
             (Lifecycle (GetPreviewSource (in_TenantID inp) (in_OperationID inp))) w) of
        (Inl err, w1) \<Rightarrow>
          (let p = settleOutcome rt RunCtx err ''SOURCE_UNAVAILABLE'' w1 in
           Some (preview_start\<lparr>pb_Outcome := fst p, pb_FailureCode := snd p\<rparr>, w1))
      | (Inr src, w1) \<Rightarrow>
          (case preview_record rt q b inp src (preview_input ''saving'') preview_start w1 of
             (False, st1, w2) \<Rightarrow> Some (st1, w2)
           | (True, st1, w2) \<Rightarrow> preview_save rt q b lb inp src st1 w2))"

definition PreviewBuild :: "('e \<times> gstate) runtime \<Rightarrow> queues \<Rightarrow> bounds \<Rightarrow> lifecycle_bounds \<Rightarrow> input \<Rightarrow>
    ('e \<times> gstate) world \<Rightarrow> (wf_error option \<times> ('e \<times> gstate) world) option" where
  "PreviewBuild rt q b lb inp w =
     (case in_Settle inp of
        Some carry \<Rightarrow> settleOnly rt q b inp carry w
      | None \<Rightarrow>
          (case preview_body rt q b lb inp (upd (\<lambda>_. new_gstate) w) of
             None \<Rightarrow> None
           | Some (st, w1) \<Rightarrow> settle_end rt q b inp (pb_Outcome st) (pb_FailureCode st) (pb_Phase st) w1))"

section \<open>The evidence of a ready preview\<close>

fun is_save :: "event \<Rightarrow> bool" where
  "is_save (Act _ _ (Lifecycle (SaveSource _)) _) \<longleftrightarrow> True"
| "is_save _ \<longleftrightarrow> False"

definition ready_of :: "event \<Rightarrow> preview_record_input option" where
  "ready_of e = (case e of Act _ _ (Lifecycle (RecordPreview r)) _ \<Rightarrow> if rw_State r = ''ready'' then Some r else None | _ \<Rightarrow> None)"

lemma ready_of_Some: "ready_of e = Some r \<longleftrightarrow> rw_State r = ''ready'' \<and> (\<exists>c opts raw. e = Act c opts (Lifecycle (RecordPreview r)) raw)"
proof (cases e)
  case (Act c opts req raw)
  show ?thesis
  proof (cases "\<exists>l. req = Lifecycle l")
    case True
    then obtain l where "req = Lifecycle l" by blast
    then show ?thesis using Act by (cases l) (auto simp: ready_of_def)
  qed (use Act in \<open>auto simp: ready_of_def split: request.split\<close>)
qed (auto simp: ready_of_def)

definition plain_event :: "event \<Rightarrow> bool" where
  "plain_event e \<longleftrightarrow> \<not> is_save e \<and> ready_of e = None"

text \<open>The save of exactly these bytes in this lineage was answered with this revision.\<close>

definition saved_as :: "string \<Rightarrow> string \<Rightarrow> string \<Rightarrow> event list \<Rightarrow> bool" where
  "saved_as lineage digest revision es \<longleftrightarrow>
     (\<exists>c opts i saved. Act c opts (Lifecycle (SaveSource i)) (Inr (RLifecycle (RSaved saved))) \<in> set es \<and>
        sv_State saved = ''saved'' \<and> sv_Revision saved = revision \<and> si_Lineage i = lineage \<and> sa_Digest (si_Source i) = digest)"

definition built_as :: "input \<Rightarrow> stage_artifact \<Rightarrow> event list \<Rightarrow> bool" where
  "built_as inp module es \<longleftrightarrow>
     (\<exists>c opts g stage. Act c opts (GetAcceptedStage g) (Inr (RAcceptedStage stage)) \<in> set es \<and> as_Found stage \<and>
        gs_OperationID g = in_OperationID inp \<and> as_Verdict stage = ''certified'' \<and> stageArtifact stage ''browser'' = Some module)"

definition still_current :: "string \<Rightarrow> string \<Rightarrow> event list \<Rightarrow> bool" where
  "still_current lineage revision es \<longleftrightarrow>
     (\<exists>c opts es'. es = Act c opts (Lifecycle (CurrentSourceRevision lineage)) (Inr (RLifecycle (RString revision))) # es')"

definition ready_backed :: "input \<Rightarrow> event list \<Rightarrow> preview_record_input \<Rightarrow> bool" where
  "ready_backed inp es r \<longleftrightarrow>
     (\<exists>lineage module. rw_Module r = Some module \<and> saved_as lineage (rw_SourceDigest r) (rw_SourceRevision r) es \<and>
        built_as inp module es \<and> still_current lineage (rw_SourceRevision r) es)"

abbreviation ready_ok :: "input \<Rightarrow> event list \<Rightarrow> bool" where
  "ready_ok inp \<equiv> guarded (\<lambda>es e. case ready_of e of None \<Rightarrow> True | Some r \<Rightarrow> ready_backed inp es r)"

lemma ready_ok_append: "list_all plain_event new \<Longrightarrow> ready_ok inp (new @ es) = ready_ok inp es"
  by (rule guarded_append) (simp add: list_all_iff plain_event_def)

lemma ready_ok_member: "ready_ok inp (later @ e # before) \<Longrightarrow> ready_of e = Some r \<Longrightarrow> ready_backed inp before r"
  by (drule guarded_member) simp

lemma job_event_plain: "job_event e \<Longrightarrow> plain_event e"
  by (cases e rule: job_event.cases) (auto simp: plain_event_def ready_of_def)

lemma settle_event_plain: "settle_event c q b inp e \<Longrightarrow> plain_event e"
  by (cases "(c, q, b, inp, e)" rule: settle_event.cases) (auto simp: plain_event_def ready_of_def)

text \<open>A part of the run that saves at most \<open>n\<close> times, all of them saves \<open>S\<close> allows, and backs what it records ready.\<close>

fun save_allowed :: "(save_source_input \<Rightarrow> bool) \<Rightarrow> event \<Rightarrow> bool" where
  "save_allowed S (Act _ _ (Lifecycle (SaveSource i)) _) \<longleftrightarrow> S i"
| "save_allowed S _ \<longleftrightarrow> True"

definition previewing :: "input \<Rightarrow> (save_source_input \<Rightarrow> bool) \<Rightarrow> nat \<Rightarrow> 'e world \<Rightarrow> 'e world \<Rightarrow> bool" where
  "previewing inp S n w w' \<longleftrightarrow>
     (\<exists>new. trace w' = new @ trace w \<and> length (filter is_save new) \<le> n \<and> list_all (save_allowed S) new) \<and>
     (ready_ok inp (trace w) \<longrightarrow> ready_ok inp (trace w'))"

lemma plain_no_save: "list_all plain_event new \<Longrightarrow> filter is_save new = [] \<and> list_all (save_allowed S) new"
proof (induction new)
  case (Cons e new)
  then show ?case by (cases e rule: is_save.cases) (auto simp: plain_event_def)
qed simp

lemma plain_previewing: "extends plain_event w w' \<Longrightarrow> previewing inp S 0 w w'"
  unfolding extends_def previewing_def using ready_ok_append plain_no_save by fastforce

lemma previewing_trans: "previewing inp S n w w1 \<Longrightarrow> previewing inp S m w1 w2 \<Longrightarrow> previewing inp S (n + m) w w2"
  unfolding previewing_def by (elim conjE exE) (rule conjI, rule exI, auto)

lemma previewing_then: "extends plain_event w w1 \<Longrightarrow> previewing inp S n w1 w2 \<Longrightarrow> previewing inp S n w w2"
  using previewing_trans [OF plain_previewing] by fastforce

section \<open>The parts of the run\<close>

lemma preview_record_call:
  assumes "preview_record rt q b inp src r st w = (ok, st', w')"
  obtains raw where "trace w' = Act Disconnected (controlOptions q b)
      (Lifecycle (RecordPreview (preview_completed inp src (pb_Revision st) r))) raw # trace w"
    and "pb_Outcome st' = pb_Outcome st \<or> pb_Outcome st' \<noteq> ''succeeded''"
    and "ok \<longleftrightarrow> (\<exists>next. raw = Inr (RLifecycle (RRevision next)))"
proof -
  obtain res w1 where one: "get as_revision (exec rt Disconnected (controlOptions q b)
      (Lifecycle (RecordPreview (preview_completed inp src (pb_Revision st) r))) w) = (res, w1)" by fastforce
  from trace_get_exec [OF one] obtain raw where tr: "trace w1 = Act Disconnected (controlOptions q b)
      (Lifecycle (RecordPreview (preview_completed inp src (pb_Revision st) r))) raw # trace w" "res = decode as_revision raw" by blast
  have "w' = w1" "pb_Outcome st' = pb_Outcome st \<or> pb_Outcome st' \<noteq> ''succeeded''" "ok \<longleftrightarrow> (\<exists>next. res = Inr next)"
    using assms one by (auto simp: preview_record_def Let_def split: sum.splits)
  then show thesis using that tr by (auto simp: decode_Inr as_revision_Some)
qed

lemma preview_record_plain:
  assumes "preview_record rt q b inp src r st w = (ok, st', w')" "rw_State r \<noteq> ''ready''"
  shows "extends plain_event w w'"
  by (rule preview_record_call [OF assms(1)]) (simp add: extends_def plain_event_def ready_of_def preview_completed_def assms(2))

lemma preview_fail_plain:
  assumes "preview_fail rt q b inp src code st w = (st', w')"
  shows "extends plain_event w w' \<and> pb_Outcome st' \<noteq> ''succeeded''"
proof -
  let ?r = "(preview_input ''failed'')\<lparr>rw_FailureCode := code, rw_SourceRevision := pb_SavedRevision st\<rparr>"
  let ?st = "st\<lparr>pb_Outcome := ''failed'', pb_FailureCode := code, pb_Phase := ''preview_failed''\<rparr>"
  obtain ok where rec: "preview_record rt q b inp src ?r ?st w = (ok, st', w')"
    using assms by (cases "preview_record rt q b inp src ?r ?st w") (simp add: preview_fail_def)
  have "rw_State ?r \<noteq> ''ready''" by (simp add: preview_input_def)
  from preview_record_plain [OF rec this] have "extends plain_event w w'" .
  moreover have "pb_Outcome st' \<noteq> ''succeeded''" by (rule preview_record_call [OF rec]) auto
  ultimately show ?thesis by blast
qed

text \<open>What a stage or an answer in the trace shows stays shown.\<close>

lemma saved_as_mono: "saved_as lineage digest revision (trace w) \<Longrightarrow> extends P w w' \<Longrightarrow> saved_as lineage digest revision (trace w')"
  unfolding saved_as_def extends_def by fastforce

lemma built_as_mono: "built_as inp module (trace w) \<Longrightarrow> extends P w w' \<Longrightarrow> built_as inp module (trace w')"
  unfolding built_as_def extends_def by fastforce

text \<open>The outcome of the run is succeeded only if its last record was answered.\<close>

definition recorded_last :: "event list \<Rightarrow> bool" where
  "recorded_last es \<longleftrightarrow> (\<exists>c opts r next es'. es = Act c opts (Lifecycle (RecordPreview r)) (Inr (RLifecycle (RRevision next))) # es' \<and>
     rw_State r \<in> {''ready'', ''stale''})"

definition sound_end :: "preview_state \<Rightarrow> 'e world \<Rightarrow> bool" where
  "sound_end st w \<longleftrightarrow> (pb_Outcome st = ''succeeded'' \<longrightarrow> recorded_last (trace w))"

lemma preview_publish_does:
  assumes "preview_publish rt q b inp src saved module styles st w = (st', w')"
    and "saved_as (pw_Lineage src) (sa_Digest (pw_Source src)) saved (trace w)" "built_as inp module (trace w)"
    and "pb_Outcome st \<noteq> ''succeeded''"
  shows "previewing inp S 0 w w' \<and> sound_end st' w'"
proof -
  obtain res w1 where one: "get as_string (exec rt RunCtx (activityOptions q b)
      (Lifecycle (CurrentSourceRevision (pw_Lineage src))) w) = (res, w1)" by fastforce
  obtain raw where tr: "trace w1 = Act RunCtx (activityOptions q b) (Lifecycle (CurrentSourceRevision (pw_Lineage src))) raw # trace w"
    "res = decode as_string raw" using trace_get_exec [OF one] by blast
  have x1: "extends plain_event w w1" using tr(1) by (simp add: extends_def plain_event_def ready_of_def)
  show ?thesis
  proof (cases res)
    case (Inl err)
    then have "preview_fail rt q b inp src (snd (settleOutcome rt RunCtx err ''SOURCE_UNAVAILABLE'' w1)) st w1 = (st', w')"
      using assms(1) one by (simp add: preview_publish_def)
    from preview_fail_plain [OF this] show ?thesis using previewing_then [OF x1 plain_previewing] by (auto simp: sound_end_def)
  next
    case (Inr current)
    let ?r = "preview_final saved current module styles"
    let ?st = "st\<lparr>pb_Phase := (if current \<noteq> saved then ''preview_stale'' else ''preview_ready'')\<rparr>"
    obtain ok st2 w2 where rec: "preview_record rt q b inp src ?r ?st w1 = (ok, st2, w2)" by (metis prod_cases3)
    then have w': "w' = w2" and st': "st' = (if ok then st2\<lparr>pb_Outcome := ''succeeded''\<rparr> else st2)"
      using assms(1) one Inr by (auto simp: preview_publish_def split: bool.splits)
    obtain rraw where rtr: "trace w2 = Act Disconnected (controlOptions q b)
        (Lifecycle (RecordPreview (preview_completed inp src (pb_Revision ?st) ?r))) rraw # trace w1"
      and no: "pb_Outcome st2 = pb_Outcome ?st \<or> pb_Outcome st2 \<noteq> ''succeeded''"
      and ok: "ok \<longleftrightarrow> (\<exists>next. rraw = Inr (RLifecycle (RRevision next)))"
      by (rule preview_record_call [OF rec])
    have state: "rw_State ?r = (if current \<noteq> saved then ''stale'' else ''ready'')"
      by (simp add: preview_final_def preview_input_def Let_def)
    have "sound_end st' w'"
      using no ok rtr w' st' assms(4) state
      by (auto simp: sound_end_def recorded_last_def preview_completed_def)
    moreover have "previewing inp S 0 w w'"
    proof (cases "current = saved")
      case False
      then have "rw_State ?r \<noteq> ''ready''" using state by simp
      then show ?thesis unfolding w' by (rule previewing_then [OF x1 plain_previewing [OF preview_record_plain [OF rec]]])
    next
      case True
      have raw: "raw = Inr (RLifecycle (RString current))" using tr(2) Inr by (auto simp: decode_Inr dest: sym [of "Inr current"])
      have "ready_backed inp (trace w1) (preview_completed inp src (pb_Revision ?st) ?r)"
        using assms(2,3) saved_as_mono [OF assms(2) x1] built_as_mono [OF assms(3) x1] tr(1) raw True
        unfolding ready_backed_def still_current_def
        by (simp add: preview_completed_def preview_final_def preview_input_def Let_def)
      then show ?thesis unfolding w' using rtr ready_ok_append [of "[Act RunCtx (activityOptions q b) (Lifecycle (CurrentSourceRevision (pw_Lineage src))) raw]" inp "trace w"] tr(1)
        by (auto simp: previewing_def ready_of_def plain_event_def)
    qed
    ultimately show ?thesis by blast
  qed
qed

lemma preview_build_does:
  assumes "preview_build rt q b lb inp src saved st w = Some (st', w')"
    and "saved_as (pw_Lineage src) (sa_Digest (pw_Source src)) saved (trace w)" "pb_Outcome st \<noteq> ''succeeded''"
  shows "previewing inp S 0 w w' \<and> sound_end st' w'"
proof -
  obtain r w1 where step: "runJobStep rt RunCtx q b (preview_step inp lb src saved) w = Some (r, w1)"
    using assms(1) by (auto simp: preview_build_def split: option.splits)
  have x1: "extends plain_event w w1" by (rule extends_mono [OF runJobStep_calls [OF step] job_event_plain])
  have fails: ?thesis if "preview_fail rt q b inp src code st w1 = (st', w')" for code
    using preview_fail_plain [OF that] previewing_then [OF x1 plain_previewing] by (auto simp: sound_end_def)
  show ?thesis
  proof (cases "jx_Code r = '''' \<and> as_Verdict (jx_Stage r) = ''certified'' \<and> stageArtifact (jx_Stage r) ''browser'' \<noteq> None")
    case False
    then show ?thesis using assms(1) step fails by (auto simp: preview_build_def split: if_splits)
  next
    case True
    then obtain module where module: "stageArtifact (jx_Stage r) ''browser'' = Some module" by blast
    have run: "preview_publish rt q b inp src saved module (filter (\<lambda>a. sa_Class a = ''css'') (as_Artifacts (jx_Stage r))) st w1 = (st', w')"
      using assms(1) step True module by (simp add: preview_build_def)
    obtain jst where "jt_Stage jst = jx_Stage r" "evidenced RunCtx (preview_step inp lb src saved) (jx_Attempt r) jst w1"
      using runJobStep_evidenced [OF step] True by blast
    then have "built_as inp module (trace w1)" using True module
      unfolding built_as_def evidenced_def stage_answered_def preview_step_def by fastforce
    from preview_publish_does [OF run saved_as_mono [OF assms(2) x1] this assms(3)] show ?thesis
      using previewing_then [OF x1] by blast
  qed
qed

lemma preview_saved_does:
  assumes "preview_saved rt q b lb inp src res st w = Some (st', w')" "pb_Outcome st \<noteq> ''succeeded''"
    and "\<And>saved. res = Inr saved \<Longrightarrow> sv_State saved = ''saved'' \<Longrightarrow>
      saved_as (pw_Lineage src) (sa_Digest (pw_Source src)) (sv_Revision saved) (trace w)"
  shows "previewing inp S 0 w w' \<and> sound_end st' w'"
proof -
  have fails: ?thesis if "preview_fail rt q b inp src code st w = (st', w')" for code
    using preview_fail_plain [OF that] plain_previewing by (auto simp: sound_end_def)
  show ?thesis
  proof (cases res)
    case (Inl err)
    then show ?thesis using assms(1) fails by (simp add: preview_saved_def)
  next
    case (Inr saved)
    consider "sv_State saved = ''conflict''" | "sv_State saved = ''saved''"
      | "sv_State saved \<noteq> ''conflict''" "sv_State saved \<noteq> ''saved''" by blast
    then show ?thesis
    proof cases
      case 1
      let ?r = "(preview_input ''conflict'')\<lparr>rw_CurrentRevision := sv_CurrentRevision saved\<rparr>"
      let ?st = "st\<lparr>pb_Outcome := ''failed'', pb_FailureCode := ''REVISION_CONFLICT'', pb_Phase := ''source_conflict''\<rparr>"
      obtain ok where rec: "preview_record rt q b inp src ?r ?st w = (ok, st', w')"
        using assms(1) Inr 1 by (cases "preview_record rt q b inp src ?r ?st w") (simp add: preview_saved_def)
      have "rw_State ?r \<noteq> ''ready''" by (simp add: preview_input_def)
      moreover have "pb_Outcome st' \<noteq> ''succeeded''" by (rule preview_record_call [OF rec]) auto
      ultimately show ?thesis using plain_previewing [OF preview_record_plain [OF rec]] by (simp add: sound_end_def)
    next
      case 2
      let ?r = "(preview_input ''building'')\<lparr>rw_SourceRevision := sv_Revision saved\<rparr>"
      let ?st = "st\<lparr>pb_SavedRevision := sv_Revision saved\<rparr>"
      obtain ok st1 w1 where rec: "preview_record rt q b inp src ?r ?st w = (ok, st1, w1)" by (metis prod_cases3)
      have "rw_State ?r \<noteq> ''ready''" by (simp add: preview_input_def)
      note x1 = preview_record_plain [OF rec this]
      have no: "pb_Outcome st1 \<noteq> ''succeeded''"
        by (rule preview_record_call [OF rec]) (use assms(2) in auto)
      show ?thesis
      proof (cases ok)
        case False
        then show ?thesis using assms(1) Inr 2 rec no plain_previewing [OF x1] by (simp add: preview_saved_def sound_end_def)
      next
        case True
        then have run: "preview_build rt q b lb inp src (sv_Revision saved) st1 w1 = Some (st', w')"
          using assms(1) Inr 2 rec by (simp add: preview_saved_def)
        from preview_build_does [OF run saved_as_mono [OF assms(3) [OF Inr 2] x1] no] show ?thesis
          using previewing_then [OF x1] by blast
      qed
    next
      case 3
      then show ?thesis using assms(1) Inr fails by (auto simp: preview_saved_def split: if_splits)
    qed
  qed
qed

text \<open>The saves the run may make: of the source Control named, for an attempt it opened.\<close>

definition run_save :: "input \<Rightarrow> (preview_source \<Rightarrow> bool) \<Rightarrow> save_source_input \<Rightarrow> bool" where
  "run_save inp named i \<longleftrightarrow> (\<exists>src attempt. named src \<and> i = preview_save_input inp src attempt)"

definition source_named :: "input \<Rightarrow> event list \<Rightarrow> preview_source \<Rightarrow> bool" where
  "source_named inp es src \<longleftrightarrow> (\<exists>c opts. Act c opts (Lifecycle (GetPreviewSource (in_TenantID inp) (in_OperationID inp)))
     (Inr (RLifecycle (RPreviewSource src))) \<in> set es)"

lemma show_1: "show_nat (Suc 0) = ''1''"
  by (simp add: show_nat.simps digit_def char_of_def bit_0)

lemma run_save_command: "run_save inp named i \<Longrightarrow> si_CommandID i = in_OperationID inp @ '':save:1'' \<and> si_Occurrence i = 1"
  by (auto simp: run_save_def preview_save_input_def previewSaveEffect_def show_1)

lemma preview_save_does:
  assumes "preview_save rt q b lb inp src st w = Some (st', w')" "pb_Outcome st \<noteq> ''succeeded''" "named src"
  shows "previewing inp (run_save inp named) 1 w w' \<and> sound_end st' w'"
proof -
  obtain res w1 where op: "get as_attempt (exec rt RunCtx (activityOptions q b) (OpenAttempt (preview_save_open inp src)) w) = (res, w1)"
    by fastforce
  have x1: "extends plain_event w w1" by (rule extends_get_exec [OF op]) (simp add: job_event_plain)
  show ?thesis
  proof (cases res)
    case (Inl err)
    then have "preview_fail rt q b inp src (snd (settleOutcome rt RunCtx err ''STALE_EXECUTION'' w1)) st w1 = (st', w')"
      using assms(1) op by (simp add: preview_save_def)
    from preview_fail_plain [OF this] show ?thesis
      using previewing_trans [OF plain_previewing [OF x1, of inp "run_save inp named"] plain_previewing, of w']
      by (auto simp: sound_end_def previewing_def)
  next
    case (Inr attempt)
    let ?i = "preview_save_input inp src attempt"
    obtain sres w2 where sv: "get as_saved (exec rt RunCtx (controlOptions q b) (Lifecycle (SaveSource ?i)) w1) = (sres, w2)"
      by fastforce
    obtain raw where tr: "trace w2 = Act RunCtx (controlOptions q b) (Lifecycle (SaveSource ?i)) raw # trace w1"
      "sres = decode as_saved raw" using trace_get_exec [OF sv] by blast
    let ?out = "case sres of Inl _ \<Rightarrow> ''failed'' | Inr saved \<Rightarrow> if sv_State saved \<noteq> ''saved'' then ''failed'' else ''completed''"
    obtain cerr w3 where cl: "closeForSettlement rt Disconnected q b attempt (ar_AttemptID attempt @ '':close'') ?out ''not_required'' '''' w2 = Some (cerr, w3)"
      and rest: "preview_saved rt q b lb inp src sres st w3 = Some (st', w')"
      using assms(1) op Inr sv by (auto simp: preview_save_def split: option.splits)
    have x3: "extends plain_event w2 w3"
      by (rule extends_mono [OF runs_extends [OF closeForSettlement_calls [OF cl]]]) (rule job_event_plain, rule close_job_event)
    have saved: "saved_as (pw_Lineage src) (sa_Digest (pw_Source src)) (sv_Revision saved) (trace w3)"
      if "sres = Inr saved" "sv_State saved = ''saved''" for saved
    proof -
      have "raw = Inr (RLifecycle (RSaved saved))" using tr(2) that(1) by (auto simp: decode_Inr dest: sym [of "Inr saved"])
      then have "saved_as (pw_Lineage src) (sa_Digest (pw_Source src)) (sv_Revision saved) (trace w2)"
        using tr(1) that(2) unfolding saved_as_def by (fastforce simp: preview_save_input_def)
      then show ?thesis by (rule saved_as_mono [OF _ x3])
    qed
    have s1: "previewing inp (run_save inp named) 1 w1 w2"
      using tr(1) assms(3) by (auto simp: previewing_def ready_of_def run_save_def)
    have s2: "previewing inp (run_save inp named) 0 w2 w' \<and> sound_end st' w'"
      using preview_saved_does [OF rest assms(2) saved] previewing_then [OF x3] by blast
    have "previewing inp (run_save inp named) (0 + (1 + 0)) w w'"
      by (rule previewing_trans [OF plain_previewing [OF x1] previewing_trans [OF s1 conjunct1 [OF s2]]])
    then show ?thesis using s2 by simp
  qed
qed

lemma preview_body_does:
  assumes "preview_body rt q b lb inp w = Some (st', w')"
  shows "previewing inp (run_save inp (source_named inp (trace w'))) 1 w w' \<and> sound_end st' w'"
proof -
  let ?S = "run_save inp (source_named inp (trace w'))"
  obtain res w1 where one: "get as_preview_source (exec rt RunCtx (readOptions q b)
      (Lifecycle (GetPreviewSource (in_TenantID inp) (in_OperationID inp))) w) = (res, w1)" by fastforce
  have x1: "extends plain_event w w1" by (rule extends_get_exec [OF one]) (simp add: plain_event_def ready_of_def)
  show ?thesis
  proof (cases res)
    case (Inl err)
    then have "w' = w1" "pb_Outcome st' \<noteq> ''succeeded''"
      using assms one by (auto simp: preview_body_def Let_def)
    then show ?thesis using plain_previewing [OF x1, of inp ?S] by (auto simp: sound_end_def previewing_def)
  next
    case (Inr src)
    have named: "source_named inp (trace w1) src"
      using trace_get_exec [OF one] Inr by (fastforce simp: source_named_def decode_Inr dest: sym [of "Inr src"])
    obtain ok st1 w2 where rec: "preview_record rt q b inp src (preview_input ''saving'') preview_start w1 = (ok, st1, w2)"
      by (metis prod_cases3)
    have "rw_State (preview_input ''saving'') \<noteq> ''ready''" by (simp add: preview_input_def)
    note x2 = extends_trans [OF x1 preview_record_plain [OF rec this]]
    have no: "pb_Outcome st1 \<noteq> ''succeeded''" by (rule preview_record_call [OF rec]) (auto simp: preview_start_def)
    show ?thesis
    proof (cases ok)
      case False
      then have "w' = w2" "st' = st1" using assms one Inr rec by (auto simp: preview_body_def)
      then show ?thesis using no plain_previewing [OF x2, of inp ?S] by (auto simp: sound_end_def previewing_def)
    next
      case True
      then have run: "preview_save rt q b lb inp src st1 w2 = Some (st', w')" using assms one Inr rec by (simp add: preview_body_def)
      have mono: "previewing inp (run_save inp (\<lambda>_. True)) 1 w2 w'"
        using preview_save_does [OF run no, where named = "\<lambda>_. True"] by simp
      have "set (trace w1) \<subseteq> set (trace w2)" using preview_record_plain [OF rec] by (auto simp: extends_def preview_input_def)
      moreover have "set (trace w2) \<subseteq> set (trace w')"
        using mono by (auto simp: previewing_def)
      ultimately have "source_named inp (trace w') src" using named unfolding source_named_def by blast
      then show ?thesis
        using preview_save_does [OF run no, where named = "source_named inp (trace w')"] previewing_then [OF x2] by blast
    qed
  qed
qed

lemma PreviewBuild_does:
  assumes "PreviewBuild rt q b lb inp w = Some (err, w')" "in_Settle inp = None" "timers_cancel rt"
  obtains st w1 where "previewing inp (run_save inp (source_named inp (trace w1))) 1 w w1" "sound_end st w1"
    "extends (settle_event Disconnected q b (settle_input (in_OperationID inp) (in_TenantID inp)
      \<lparr>sc_CommandID = in_OperationID inp @ '':settle'', sc_Outcome = pb_Outcome st, sc_FailureCode = pb_FailureCode st,
       sc_Phase = pb_Phase st, sc_Interval = 0\<rparr>)) w1 w'"
proof -
  obtain st w1 where body: "preview_body rt q b lb inp (upd (\<lambda>_. new_gstate) w) = Some (st, w1)"
    and fin: "settle_end rt q b inp (pb_Outcome st) (pb_FailureCode st) (pb_Phase st) w1 = Some (err, w')"
    using assms(1,2) by (auto simp: PreviewBuild_def split: option.splits)
  have "previewing inp (run_save inp (source_named inp (trace w1))) 1 w w1"
    using preview_body_does [OF body] by (simp add: previewing_def)
  then show thesis using that preview_body_does [OF body] settle_end_calls [OF fin assms(3)] by blast
qed

section \<open>Properties\<close>

text \<open>
  C19. A preview is recorded ready only for what was saved and built. Whenever a run records
  the state ready, the save of exactly those bytes had been answered with exactly that
  revision, a stage Control found for the operation had been certified and holds the recorded
  module, and the answer just before named that revision as the current one of the lineage.
\<close>

theorem PreviewBuild_ready:
  assumes "PreviewBuild rt q b lb inp w = Some (err, w')" "in_Settle inp = None" "timers_cancel rt" "trace w = []"
    and "trace w' = later @ Act c opts (Lifecycle (RecordPreview r)) raw # before" "rw_State r = ''ready''"
  shows "\<exists>lineage module. rw_Module r = Some module \<and>
    saved_as lineage (rw_SourceDigest r) (rw_SourceRevision r) before \<and> built_as inp module before \<and>
    still_current lineage (rw_SourceRevision r) before"
  using assms(1-3)
proof (cases rule: PreviewBuild_does)
  case (1 st w1)
  have "extends plain_event w1 w'" by (rule extends_mono [OF 1(3) settle_event_plain])
  then have "ready_ok inp (trace w')"
    using previewing_trans [OF 1(1) plain_previewing] assms(4) unfolding previewing_def by fastforce
  then have "ready_backed inp before r"
    unfolding assms(5) by (rule ready_ok_member) (simp add: ready_of_def assms(6))
  then show ?thesis by (simp add: ready_backed_def)
qed

text \<open>
  C34. The source is saved at most once. However its calls fail, a run sends at most one save,
  under the operation's one save identity, of the source and the base revision Control named:
  a lost answer is never answered with another save.
\<close>

theorem PreviewBuild_saves_once:
  assumes "PreviewBuild rt q b lb inp w = Some (err, w')" "in_Settle inp = None" "timers_cancel rt"
  shows "\<exists>new. trace w' = new @ trace w \<and> length (filter is_save new) \<le> 1 \<and>
    (\<forall>c opts i raw. Act c opts (Lifecycle (SaveSource i)) raw \<in> set new \<longrightarrow>
       si_CommandID i = in_OperationID inp @ '':save:1'' \<and> si_Occurrence i = 1 \<and>
       (\<exists>src attempt. source_named inp (trace w') src \<and> i = preview_save_input inp src attempt))"
  using assms
proof (cases rule: PreviewBuild_does)
  case (1 st w1)
  let ?S = "run_save inp (source_named inp (trace w1))"
  have x: "extends plain_event w1 w'" by (rule extends_mono [OF 1(3) settle_event_plain])
  from previewing_trans [OF 1(1) plain_previewing [OF this]]
  obtain new where new: "trace w' = new @ trace w" "length (filter is_save new) \<le> 1" "list_all (save_allowed ?S) new"
    by (auto simp: previewing_def)
  have "?S i" if "Act c opts (Lifecycle (SaveSource i)) raw \<in> set new" for c opts i raw
    using new(3) that by (fastforce simp: list_all_iff)
  moreover have "source_named inp (trace w') src" if "source_named inp (trace w1) src" for src
  proof -
    have "set (trace w1) \<subseteq> set (trace w')" using x by (auto simp: extends_def)
    then show ?thesis using that unfolding source_named_def by blast
  qed
  ultimately show ?thesis using new(1,2) run_save_command
    unfolding run_save_def by (intro exI [of _ new]) (metis (no_types, lifting))
qed

lemma PreviewBuild_total:
  assumes "advancing rt" "rt_version rt pollChange = 1" "0 < ReconcileInitialInterval b" "0 < ReconcileMaxInterval b"
    and "in_Settle inp = None"
  shows "PreviewBuild rt q b lb inp w \<noteq> None"
proof -
  have build: "preview_build rt q b lb inp src saved st v \<noteq> None" for src saved st v
    using runJobStep_total [OF assms(1-4)] by (auto simp: preview_build_def split: option.splits)
  have saved: "preview_saved rt q b lb inp src res st v \<noteq> None" for src res st v
    using build by (auto simp: preview_saved_def simp del: not_None_eq split: sum.splits prod.splits bool.splits)
  have save: "preview_save rt q b lb inp src st v \<noteq> None" for src st v
    using saved closeForSettlement_returns [OF assms(2)]
    by (auto simp: preview_save_def simp del: not_None_eq split: sum.splits prod.splits option.splits)
  have "preview_body rt q b lb inp v \<noteq> None" for v
    using save by (auto simp: preview_body_def Let_def simp del: not_None_eq split: sum.splits prod.splits bool.splits)
  then show ?thesis using assms(5) settle_end_returns [OF assms(2)]
    by (auto simp: PreviewBuild_def simp del: not_None_eq split: option.splits prod.splits)
qed

text \<open>
  A preview run always ends, and succeeds only on the record. On a clock that advances it
  returns for every behaviour of Control, the source authority and the backend; its last calls
  settle the operation under its one settlement command, and they state that it succeeded only
  if the call before them recorded the preview ready or stale and was answered.
\<close>

theorem PreviewBuild_settles:
  assumes "advancing rt" "rt_version rt pollChange = 1" "0 < ReconcileInitialInterval b" "0 < ReconcileMaxInterval b"
    and "in_Settle inp = None" "timers_cancel rt"
  shows "\<exists>err w' w1 carry. PreviewBuild rt q b lb inp w = Some (err, w') \<and>
    sc_CommandID carry = in_OperationID inp @ '':settle'' \<and>
    extends (settle_event Disconnected q b (settle_input (in_OperationID inp) (in_TenantID inp) carry)) w1 w' \<and>
    (sc_Outcome carry = ''succeeded'' \<longrightarrow> recorded_last (trace w1))"
proof -
  obtain err w' where run: "PreviewBuild rt q b lb inp w = Some (err, w')"
    using PreviewBuild_total [OF assms(1-5)] by fast
  show ?thesis using run assms(5,6)
  proof (cases rule: PreviewBuild_does)
    case (1 st w1)
    show ?thesis
      by (intro exI conjI) (rule run, rule_tac [2] 1(3), use 1(2) in \<open>auto simp: sound_end_def\<close>)
  qed
qed

section \<open>Examples\<close>

definition example_source :: preview_source where
  "example_source = \<lparr>pw_ProfileID = ''preview-v1'', pw_Lineage = ''lin_1'', pw_BaseRevision = ''r0'',
     pw_Source = \<lparr>sa_Handle = ''h0'', sa_Class = ''source'', sa_Digest = ''sha256:s'', sa_SizeBytes = ''10'',
       sa_TransferID = '''', sa_ObjectVersion = ''''\<rparr>, pw_Identity = None\<rparr>"

definition browser_artifact :: stage_artifact where
  "browser_artifact = \<lparr>sa_Handle = ''h1'', sa_Class = ''browser'', sa_Digest = ''sha256:m'', sa_SizeBytes = ''20'',
     sa_TransferID = '''', sa_ObjectVersion = ''''\<rparr>"

text \<open>The answers to a preview that is saved, built and, but for its last record, accepted.\<close>

definition preview_answers :: "(wf_error + response) \<Rightarrow> (wf_error + response) list" where
  "preview_answers final =
     map Inr [RLifecycle (RPreviewSource example_source), RLifecycle (RRevision 1), RAttempt example_attempt,
       RLifecycle (RSaved \<lparr>sv_EffectID = ''e1'', sv_State = ''saved'', sv_Revision = ''r1'', sv_CurrentRevision = '''', sv_DenialCode = ''''\<rparr>),
       RClose \<lparr>cr_Lifecycle = ''completed''\<rparr>, RLifecycle (RRevision 2), RAttempt example_attempt, RLaunch example_launch,
       RJob \<lparr>jr_JobUID = ''uid'', jr_Request = 1\<rparr>,
       RJobObservation \<lparr>jo_JobUID = ''uid'', jo_Pods = [example_pod], jo_Reason = ''Complete''\<rparr>,
       RJobObservation \<lparr>jo_JobUID = ''uid'', jo_Pods = [example_pod], jo_Reason = ''Complete''\<rparr>,
       RInstance \<lparr>ir_InstanceID = ''i1'', ir_Current = True\<rparr>, RUnit,
       RAcceptedStage (certified_stage\<lparr>as_Artifacts := [browser_artifact]\<rparr>),
       RLaunchObservation no_observation, RClose \<lparr>cr_Lifecycle = ''completed''\<rparr>,
       RLifecycle (RString ''r1'')] @ [final, Inr (ROperation \<lparr>op_Lifecycle = ''completed'', op_Phase = '''', op_Revision = ''''\<rparr>)]"

lemmas preview_eval = PreviewBuild_def preview_body_def preview_record_def preview_completed_def preview_input_def preview_start_def
  preview_save_def preview_save_open_def preview_save_input_def closeForSettlement_def preview_saved_def preview_build_def
  preview_step_def preview_publish_def preview_final_def stageArtifact_def preview_fail_def settleOutcome_def
  settle_end_def settleOperation_def settleWith_def settle_loop.simps settle_input_def

lemmas preview_setup = with_gstate_def new_gstate_def preview_answers_def example_source_def browser_artifact_def
  example_attempt_def certified_stage_def example_pod_def script_simps example_bounds_def no_stage_def example_input_def

lemma example_preview:
  "\<exists>w'. PreviewBuild (beside scripted) example_queues example_bounds example_lifecycle example_input
      (with_gstate (start_world (preview_answers (Inr (RLifecycle (RRevision 3)))))) = Some (None, w') \<and>
    list_ex (\<lambda>e. ready_of e \<noteq> None) (trace w')"
  by (simp add: preview_eval preview_setup step_eval ready_of_def Let_def)

lemma example_timers: "timers_cancel (beside scripted)"
  by (rule beside_timers [OF scripted_timers])

theorem PreviewBuild_ready_witness:
  "\<exists>w' later c opts r raw before. PreviewBuild (beside scripted) example_queues example_bounds example_lifecycle example_input
      (with_gstate (start_world (preview_answers (Inr (RLifecycle (RRevision 3)))))) = Some (None, w') \<and>
    trace w' = later @ Act c opts (Lifecycle (RecordPreview r)) raw # before \<and> rw_State r = ''ready'' \<and>
    (\<exists>lineage. saved_as lineage (rw_SourceDigest r) (rw_SourceRevision r) before)"
proof -
  obtain w' where run: "PreviewBuild (beside scripted) example_queues example_bounds example_lifecycle example_input
      (with_gstate (start_world (preview_answers (Inr (RLifecycle (RRevision 3)))))) = Some (None, w')"
    and "list_ex (\<lambda>e. ready_of e \<noteq> None) (trace w')" using example_preview by blast
  then obtain e r where "e \<in> set (trace w')" "ready_of e = Some r" by (auto simp: list_ex_iff)
  then obtain c opts raw later before where tr: "trace w' = later @ Act c opts (Lifecycle (RecordPreview r)) raw # before"
      "rw_State r = ''ready''" by (auto simp: ready_of_Some dest: split_list)
  have "in_Settle example_input = None" "trace (with_gstate (start_world (preview_answers (Inr (RLifecycle (RRevision 3)))))) = []"
    by (simp_all add: example_input_def with_gstate_def start_world_def)
  from PreviewBuild_ready [OF run this(1) example_timers this(2) tr] run tr show ?thesis by blast
qed

theorem PreviewBuild_saves_once_witness:
  "\<exists>w' new. PreviewBuild (beside scripted) example_queues example_bounds example_lifecycle example_input
      (with_gstate (start_world (preview_answers (Inr (RLifecycle (RRevision 3)))))) = Some (None, w') \<and>
    trace w' = new \<and> length (filter is_save new) \<le> 1"
proof -
  obtain w' where run: "PreviewBuild (beside scripted) example_queues example_bounds example_lifecycle example_input
      (with_gstate (start_world (preview_answers (Inr (RLifecycle (RRevision 3)))))) = Some (None, w')"
    using example_preview by blast
  have "in_Settle example_input = None" "trace (with_gstate (start_world (preview_answers (Inr (RLifecycle (RRevision 3)))))) = []"
    by (simp_all add: example_input_def with_gstate_def start_world_def)
  from PreviewBuild_saves_once [OF run this(1) example_timers] run this(2) show ?thesis by auto
qed

theorem PreviewBuild_settles_witness:
  "\<exists>err w' w1 carry. PreviewBuild (beside scripted) example_queues example_bounds example_lifecycle example_input
      (with_gstate (start_world (preview_answers (Inr (RLifecycle (RRevision 3)))))) = Some (err, w') \<and>
    sc_CommandID carry = in_OperationID example_input @ '':settle'' \<and>
    extends (settle_event Disconnected example_queues example_bounds
      (settle_input (in_OperationID example_input) (in_TenantID example_input) carry)) w1 w' \<and>
    (sc_Outcome carry = ''succeeded'' \<longrightarrow> recorded_last (trace w1))"
proof -
  have "rt_version (beside scripted) pollChange = 1" "0 < ReconcileInitialInterval example_bounds"
    "0 < ReconcileMaxInterval example_bounds" "in_Settle example_input = None"
    by (simp_all add: scripted_def example_bounds_def example_input_def second_def minute_def)
  note ends = PreviewBuild_settles [OF beside_advancing [OF scripted_advancing] this example_timers,
      of example_queues example_lifecycle "with_gstate (start_world (preview_answers (Inr (RLifecycle (RRevision 3)))))"]
  show ?thesis by (rule ends)
qed

text \<open>A refused last record leaves the phase of the preview it would have recorded.\<close>

lemma refused_final_phase:
  "\<exists>w' opts raw inp. PreviewBuild (beside scripted) example_queues example_bounds example_lifecycle example_input
      (with_gstate (start_world (preview_answers (Inl (Refused ''STALE_REVISION''))))) = Some (None, w') \<and>
    hd (trace w') = Act Disconnected opts (SettleOperation inp) raw \<and> so_Outcome inp = ''failed'' \<and>
    so_FailureCode inp = ''STALE_REVISION'' \<and> so_Phase inp = ''preview_ready''"
  by (simp add: preview_eval preview_setup step_eval Refused_def Let_def)

end
