(* ===== verification/ReleaseWf.thy ===== *)
theory ReleaseWf
  imports Outcomes
begin

text \<open>
  The \<open>Release\<close> workflow (\<^verbatim>\<open>internal/workflows/release.go\<close>): certify the exact source,
  build the subject, register it for review, wait for the maintainer's decision, publish the
  npm and the browser target under their own effect identities and activate the release.
  \<open>release_run\<close> holds \<open>releaseRun\<close> and the variables of the deferred settlement; the body
  is split where the source opens its numbered parts. The zero time is 0.
\<close>

section \<open>The run's view of the projection\<close>

definition pending_target :: release_target where
  "pending_target = no_target\<lparr>tr_State := ''pending''\<rparr>"

definition no_digest :: artifact_digest where
  "no_digest = \<lparr>ad_Digest = '''', ad_SizeBytes = ''''\<rparr>"

definition no_destinations :: release_destinations where
  "no_destinations = \<lparr>rd_NpmRegistry = '''', rd_BrowserOrigin = ''''\<rparr>"

definition no_subject :: release_subject where
  "no_subject = \<lparr>rs_SchemaVersion = 0, rs_ComponentID = '''', rs_PuckType = '''', rs_SourceRevision = '''', rs_SourceDigest = '''', rs_PackageName = '''',
     rs_Version = '''', rs_Npm = no_digest, rs_Browser = no_digest, rs_CSS = [], rs_BuildProfileID = '''',
     rs_BuildProfileDigest = '''', rs_ValidatorProfileID = '''', rs_ValidatorProfileDigest = '''', rs_HostAbi = '''',
     rs_HostAbiDigest = '''', rs_Destinations = no_destinations, rs_CertificationEvidenceDigest = '''', rs_SubjectDigest = ''''\<rparr>"

definition zero_artifact :: stage_artifact where
  "zero_artifact = \<lparr>sa_Handle = '''', sa_Class = '''', sa_Digest = '''', sa_SizeBytes = '''', sa_TransferID = '''',
     sa_ObjectVersion = ''''\<rparr>"

definition no_carry :: release_carry where
  "no_carry =
     \<lparr>rk_Revision = 0,
      rk_Binding = \<lparr>rb_ProfileID = '''', rb_Lineage = '''', rb_SourceRevision = '''', rb_PackageVersion = '''',
        rb_Source = zero_artifact, rb_ExecutionEpoch = 0, rb_Deadline = 0, rb_Identity = None\<rparr>,
      rk_Built = \<lparr>bs_Subject = no_subject, bs_Artifacts = \<lparr>rf_Npm = zero_artifact, rf_Browser = zero_artifact, rf_CSS = []\<rparr>\<rparr>,
      rk_ReleaseID = '''', rk_ReviewEffectID = '''', rk_ApprovalDeadline = 0,
      rk_Approval = \<lparr>rp_State = '''', rp_SubjectDigest = '''', rp_ApproverID = '''', rp_DecidedAt = None, rp_ReasonCode = ''''\<rparr>\<rparr>"

record release_run =
  rl_Carry :: release_carry
  rl_Npm :: release_target
  rl_Browser :: release_target
  rl_Activation :: release_target
  rl_CatalogRevision :: string
  rl_Recorded :: string
  rl_Outcome :: string
  rl_FailureCode :: string
  rl_Phase :: string

definition release_start :: "release_carry option \<Rightarrow> release_run" where
  "release_start carried =
     \<lparr>rl_Carry = (case carried of None \<Rightarrow> no_carry | Some carry \<Rightarrow> carry), rl_Npm = pending_target, rl_Browser = pending_target,
      rl_Activation = pending_target, rl_CatalogRevision = '''', rl_Recorded = '''', rl_Outcome = ''failed'',
      rl_FailureCode = '''', rl_Phase = ''''\<rparr>"

abbreviation the_subject :: "release_run \<Rightarrow> release_subject" where
  "the_subject rel \<equiv> bs_Subject (rk_Built (rl_Carry rel))"

abbreviation set_carry :: "(release_carry \<Rightarrow> release_carry) \<Rightarrow> release_run \<Rightarrow> release_run" where
  "set_carry f rel \<equiv> rel\<lparr>rl_Carry := f (rl_Carry rel)\<rparr>"

text \<open>\<open>releaseRun.record\<close>.\<close>

definition release_input :: "release_run \<Rightarrow> string \<Rightarrow> string \<Rightarrow> release_record_input" where
  "release_input rel state failureCode =
     \<lparr>rr_OperationID = '''', rr_TenantID = '''', rr_ExpectedRevision = rk_Revision (rl_Carry rel), rr_State = state,
      rr_Subject = (if rs_SubjectDigest (the_subject rel) \<noteq> '''' then Some (the_subject rel) else None),
      rr_ReleaseID = rk_ReleaseID (rl_Carry rel), rr_ReviewEffectID = rk_ReviewEffectID (rl_Carry rel),
      rr_Approval = (if rp_State (rk_Approval (rl_Carry rel)) \<noteq> '''' then Some (rk_Approval (rl_Carry rel)) else None),
      rr_ApprovalDeadline = (if rk_ApprovalDeadline (rl_Carry rel) \<noteq> 0 then Some (rk_ApprovalDeadline (rl_Carry rel)) else None),
      rr_Npm = rl_Npm rel, rr_Browser = rl_Browser rel, rr_Activation = rl_Activation rel,
      rr_CatalogRevision = rl_CatalogRevision rel, rr_FailureCode = failureCode\<rparr>"

definition reviewCode :: "string \<Rightarrow> string" where
  "reviewCode state = (if state = ''unknown'' then ''EFFECT_UNCERTAIN'' else ''REVIEW_UNREGISTERED'')"

definition targetOf :: "release_effect_result \<Rightarrow> release_target" where
  "targetOf res = (let t = rx_Target res in if tr_State t = '''' then t\<lparr>tr_State := ''failed''\<rparr> else t)"

definition publicationState :: "release_run \<Rightarrow> string" where
  "publicationState rel =
     (let n = tr_State (rl_Npm rel); b = tr_State (rl_Browser rel) in
      if n = ''unknown'' \<or> b = ''unknown'' then ''reconciling''
      else if n = ''succeeded'' \<and> b = ''succeeded'' then ''published''
      else if n = ''succeeded'' \<and> b = ''failed'' \<or> n = ''failed'' \<and> b = ''succeeded'' then ''partially_published''
      else if n = ''failed'' \<and> b = ''failed'' then ''failed''
      else ''publishing'')"

text \<open>The closures \<open>record\<close> and \<open>fail\<close>.\<close>

definition release_record :: "'e runtime \<Rightarrow> queues \<Rightarrow> bounds \<Rightarrow> input \<Rightarrow> string \<Rightarrow> string \<Rightarrow> release_run \<Rightarrow> 'e world \<Rightarrow>
    bool \<times> release_run \<times> 'e world" where
  "release_record rt q b inp state code rel w =
     (case get as_revision (exec rt Disconnected (controlOptions q b) (Lifecycle (RecordRelease
             ((release_input rel state code)\<lparr>rr_OperationID := in_OperationID inp, rr_TenantID := in_TenantID inp\<rparr>))) w) of
        (Inl err, w1) \<Rightarrow>
          (let p = settleOutcome rt RunCtx err ''RELEASE_UNRECORDED'' w1 in
           (False, rel\<lparr>rl_Outcome := fst p, rl_FailureCode := snd p\<rparr>, w1))
      | (Inr next, w1) \<Rightarrow> (True, (set_carry (\<lambda>k. k\<lparr>rk_Revision := next\<rparr>) rel)\<lparr>rl_Recorded := state\<rparr>, w1))"

definition release_fail :: "'e runtime \<Rightarrow> queues \<Rightarrow> bounds \<Rightarrow> input \<Rightarrow> string \<Rightarrow> string \<Rightarrow> release_run \<Rightarrow> 'e world \<Rightarrow>
    release_run \<times> 'e world" where
  "release_fail rt q b inp code ph rel w =
     snd (release_record rt q b inp ''failed'' code
       (rel\<lparr>rl_Outcome := ''failed'', rl_FailureCode := code, rl_Phase := ph\<rparr>) w)"

definition with_outcome :: "string \<times> string \<Rightarrow> string \<Rightarrow> release_run \<Rightarrow> release_run" where
  "with_outcome p ph rel = rel\<lparr>rl_Outcome := fst p, rl_FailureCode := snd p, rl_Phase := ph\<rparr>"

section \<open>One guarded mutation\<close>

definition effectOptions :: "queues \<Rightarrow> bounds \<Rightarrow> activity_options" where
  "effectOptions q b = control_retry (q_Control q) (ControlActivityTimeout b) b (sint (ControlRetryMaxAttempts b))"

definition effect_command :: "input \<Rightarrow> string \<Rightarrow> string \<Rightarrow> nat \<Rightarrow> string" where
  "effect_command inp kind target occurrence =
     in_OperationID inp @ '':'' @ kind @ '':'' @ target @ '':'' @ show_nat occurrence"

definition effect_open :: "input \<Rightarrow> release_run \<Rightarrow> string \<Rightarrow> nat \<Rightarrow> string \<Rightarrow> open_attempt_input" where
  "effect_open inp rel kind occurrence target =
     \<lparr>oa_OperationID = in_OperationID inp, oa_TenantID = in_TenantID inp,
      oa_CommandID = effect_command inp kind target occurrence @ '':open'', oa_StepID = kind @ ''_'' @ target,
      oa_Visit = 0, oa_ProfileID = rb_ProfileID (rk_Binding (rl_Carry rel))\<rparr>"

definition effect_call :: "input \<Rightarrow> release_run \<Rightarrow> string \<Rightarrow> nat \<Rightarrow> string \<Rightarrow> string \<Rightarrow> string \<Rightarrow> attempt_ref \<Rightarrow> release_effect_call" where
  "effect_call inp rel kind occurrence target publishTarget catalog attempt =
     \<lparr>rz_Effect = \<lparr>re_OperationID = in_OperationID inp, re_TenantID = in_TenantID inp,
        re_CommandID = effect_command inp kind target occurrence, re_AttemptID = ar_AttemptID attempt,
        re_ExecutionEpoch = parse_uint (ar_ExecutionEpoch attempt), re_Kind = kind, re_Occurrence = occurrence,
        re_CanonicalSubject = ''release:'' @ rs_SubjectDigest (the_subject rel) @ '':'' @ target,
        re_Deadline = ar_Deadline attempt\<rparr>,
      rz_Subject = the_subject rel, rz_ReleaseID = rk_ReleaseID (rl_Carry rel), rz_Target = publishTarget,
      rz_Artifacts = bs_Artifacts (rk_Built (rl_Carry rel)), rz_ExpectedCatalogRevision = catalog\<rparr>"

text \<open>The close of the mutation's attempt: issued once while the effect is unknown.\<close>

definition effect_close :: "'e runtime \<Rightarrow> queues \<Rightarrow> bounds \<Rightarrow> attempt_ref \<Rightarrow> wf_error + release_effect_result \<Rightarrow> 'e world \<Rightarrow>
    'e world option" where
  "effect_close rt q b attempt res w =
     (case res of
        Inr r \<Rightarrow>
          if rx_State r = ''unknown''
          then Some (snd (exec rt Disconnected (controlOptions q b)
            (CloseAttempt (close_input attempt (ar_AttemptID attempt @ '':close'') ''completed'' ''not_required'' '''')) w))
          else map_option snd (closeForSettlement rt Disconnected q b attempt (ar_AttemptID attempt @ '':close'')
            ''completed'' ''not_required'' '''' w)
      | Inl _ \<Rightarrow> Some (snd (exec rt Disconnected (controlOptions q b)
            (CloseAttempt (close_input attempt (ar_AttemptID attempt @ '':close'') ''failed'' ''not_required'' '''')) w)))"

definition releaseEffect :: "'e runtime \<Rightarrow> queues \<Rightarrow> bounds \<Rightarrow> input \<Rightarrow> release_run \<Rightarrow> string \<Rightarrow> nat \<Rightarrow>
    (release_effect_call \<Rightarrow> lifecycle_request) \<Rightarrow> string \<Rightarrow> string \<Rightarrow> string \<Rightarrow> 'e world \<Rightarrow>
    ((release_effect_result \<times> string) \<times> 'e world) option" where
  "releaseEffect rt q b inp rel kind occurrence activity target publishTarget catalog w =
     (case get as_attempt (exec rt RunCtx (activityOptions q b) (OpenAttempt (effect_open inp rel kind occurrence target)) w) of
        (Inl err, w1) \<Rightarrow> Some ((no_effect, snd (settleOutcome rt RunCtx err ''STALE_EXECUTION'' w1)), w1)
      | (Inr attempt, w1) \<Rightarrow>
          (case get as_release_effect (exec rt Disconnected (effectOptions q b)
                  (Lifecycle (activity (effect_call inp rel kind occurrence target publishTarget catalog attempt))) w1) of
             (res, w2) \<Rightarrow>
               (case effect_close rt q b attempt res w2 of
                  None \<Rightarrow> None
                | Some w3 \<Rightarrow>
                    Some (case res of
                        Inl err \<Rightarrow> (no_effect, snd (settleOutcome rt RunCtx err ''EFFECT_UNCERTAIN'' w3))
                      | Inr r \<Rightarrow> (r, ''''), w3))))"

section \<open>The maintainer's decision\<close>

definition no_decision :: review_decision where
  "no_decision = \<lparr>dv_State = '''', dv_SubjectDigest = '''', dv_ApproverID = '''', dv_DecidedAt = None, dv_ReasonCode = ''''\<rparr>"

text \<open>
  \<open>awaitApproval\<close>, from its poll \<open>polls\<close> on; the poll bound of the run ends it. The code
  ''CONTINUE'' asks the run to continue as new.
\<close>

function await_polls :: "'e runtime \<Rightarrow> queues \<Rightarrow> bounds \<Rightarrow> lifecycle_bounds \<Rightarrow> release_run \<Rightarrow> int \<Rightarrow> 'e world \<Rightarrow>
    (review_decision \<times> string) \<times> 'e world" where
  "await_polls rt q b lb rel polls w =
     (if rt_ctx_err rt RunCtx (est w) then ((no_decision, ''CANCELED''), w)
      else case get as_decision (exec rt RunCtx (activityOptions q b) (Lifecycle (ReviewDecision (rk_ReleaseID (rl_Carry rel)))) w) of
          (Inl err, w1) \<Rightarrow>
            (if rt_ctx_err rt RunCtx (est w1) then ((no_decision, ''CANCELED''), w1)
             else ((no_decision, snd (settleOutcome rt RunCtx err ''DEPENDENCY_UNAVAILABLE'' w1)), w1))
        | (Inr d, w1) \<Rightarrow>
            if dv_State d = ''approved'' \<or> dv_State d = ''rejected'' \<or> dv_State d = ''invalidated'' then ((d, ''''), w1)
            else if \<not> now rt w1 < rk_ApprovalDeadline (rl_Carry rel) then ((no_decision\<lparr>dv_State := ''expired''\<rparr>, ''''), w1)
            else if polls + 1 \<ge> ReleasePollsPerRun lb then ((d, ''CONTINUE''), w1)
            else (case sleep rt RunCtx (min (ReleaseApprovalPoll lb) (rk_ApprovalDeadline (rl_Carry rel) - now rt w1)) w1 of
                (Some err, w2) \<Rightarrow> ((d, ''CANCELED''), w2)
              | (None, w2) \<Rightarrow> await_polls rt q b lb rel (polls + 1) w2))"
  by pat_completeness auto

termination
  by (relation "measure (\<lambda>(rt, q, b, lb, rel, polls, w). nat (ReleasePollsPerRun lb - polls))") auto

declare await_polls.simps [simp del]

definition awaitApproval :: "'e runtime \<Rightarrow> queues \<Rightarrow> bounds \<Rightarrow> lifecycle_bounds \<Rightarrow> release_run \<Rightarrow> 'e world \<Rightarrow>
    (review_decision \<times> string) \<times> 'e world" where
  "awaitApproval rt q b lb rel w = await_polls rt q b lb rel 0 w"

text \<open>\<open>stillApproved\<close>: only an approval of exactly the recorded subject.\<close>

definition stillApproved :: "'e runtime \<Rightarrow> queues \<Rightarrow> bounds \<Rightarrow> release_run \<Rightarrow> 'e world \<Rightarrow> string \<times> 'e world" where
  "stillApproved rt q b rel w =
     (case get as_decision (exec rt RunCtx (activityOptions q b) (Lifecycle (ReviewDecision (rk_ReleaseID (rl_Carry rel)))) w) of
        (Inl err, w1) \<Rightarrow> (snd (settleOutcome rt RunCtx err ''DEPENDENCY_UNAVAILABLE'' w1), w1)
      | (Inr d, w1) \<Rightarrow>
          (if dv_State d \<noteq> ''approved'' \<or> dv_SubjectDigest d \<noteq> rs_SubjectDigest (the_subject rel)
           then ''APPROVAL_INVALIDATED'' else '''', w1))"

section \<open>Certification, subject and review\<close>

text \<open>A part of the body goes on, or returns: with the settlement, or continuing as new.\<close>

datatype release_flow = Proceed release_run | Break release_run | Return release_run | Continue release_carry

definition release_component :: "'e runtime \<Rightarrow> release_binding \<Rightarrow> component_identity option" where
  "release_component rt binding =
     (if rt_version rt ''release-lineage-identity'' = 1
      then map_option (\<lambda>ident. \<lparr>ci_ComponentID = ci_ComponentID ident, ci_PuckType = ci_PuckType ident,
             ci_PackageName = ci_PackageName ident, ci_SourceRevision = rb_SourceRevision binding\<rparr>) (rb_Identity binding)
      else Some \<lparr>ci_ComponentID = '''', ci_PuckType = '''', ci_PackageName = '''', ci_SourceRevision = rb_SourceRevision binding\<rparr>)"

definition release_step :: "input \<Rightarrow> lifecycle_bounds \<Rightarrow> release_binding \<Rightarrow> component_identity \<Rightarrow> step_spec" where
  "release_step inp lb binding component =
     \<lparr>sp_OperationID = in_OperationID inp, sp_TenantID = in_TenantID inp, sp_StepID = ''certify'', sp_Visit = 0,
      sp_ProfileID = ReleaseValidatorProfile lb, sp_LaunchPrefix = ''rel'',
      sp_Inputs = [\<lparr>li_Name = ''source'', li_Digest = sa_Digest (rb_Source binding), li_Handle = sa_Handle (rb_Source binding)\<rparr>],
      sp_Component = Some component\<rparr>"

abbreviation returns :: "release_run \<times> 'w \<Rightarrow> (release_flow \<times> 'w) option" where
  "returns p \<equiv> Some (Return (fst p), snd p)"

text \<open>Part 4: the registration of exactly the built subject, and the wait's absolute deadline.\<close>

definition release_review :: "'e runtime \<Rightarrow> queues \<Rightarrow> bounds \<Rightarrow> lifecycle_bounds \<Rightarrow> input \<Rightarrow> release_run \<Rightarrow> 'e world \<Rightarrow>
    (release_flow \<times> 'e world) option" where
  "release_review rt q b lb inp rel w =
     (case releaseEffect rt q b inp rel ''review'' 1 RegisterReview ''review'' '''' '''' w of
        None \<Rightarrow> None
      | Some ((res, code), w1) \<Rightarrow>
          if code \<noteq> '''' then returns (release_fail rt q b inp code ''review_unregistered'' rel w1)
          else if rx_State res \<noteq> ''succeeded''
          then returns (release_fail rt q b inp (firstNonEmpty [tr_FailureCode (rx_Target res), reviewCode (rx_State res)])
                 ''review_unregistered'' rel w1)
          else (let at = now rt w1 + ReleaseApprovalWait lb;
                    deadline = (if rb_Deadline (rk_Binding (rl_Carry rel)) < at then rb_Deadline (rk_Binding (rl_Carry rel)) else at);
                    rel1 = set_carry (\<lambda>k. k\<lparr>rk_ReleaseID := rx_ReleaseID res, rk_ReviewEffectID := rx_EffectID res,
                      rk_ApprovalDeadline := deadline,
                      rk_Approval := \<lparr>rp_State = ''pending'', rp_SubjectDigest = rs_SubjectDigest (the_subject rel),
                        rp_ApproverID = '''', rp_DecidedAt = None, rp_ReasonCode = ''''\<rparr>\<rparr>) rel
                in case release_record rt q b inp ''awaiting_approval'' '''' rel1 w1 of
                     (False, rel2, w2) \<Rightarrow> Some (Return rel2, w2)
                   | (True, rel2, w2) \<Rightarrow> Some (Proceed rel2, w2)))"

text \<open>Parts 2 and 3: the certification of the bound source and the subject built from it.\<close>

definition release_certify :: "('e \<times> gstate) runtime \<Rightarrow> queues \<Rightarrow> bounds \<Rightarrow> lifecycle_bounds \<Rightarrow> input \<Rightarrow> release_run \<Rightarrow>
    component_identity \<Rightarrow> ('e \<times> gstate) world \<Rightarrow> (release_flow \<times> ('e \<times> gstate) world) option" where
  "release_certify rt q b lb inp rel component w =
     (case runJobStep rt RunCtx q b (release_step inp lb (rk_Binding (rl_Carry rel)) component) w of
        None \<Rightarrow> None
      | Some (r, w1) \<Rightarrow>
          if jx_Code r \<noteq> '''' then returns (release_fail rt q b inp (jx_Code r) ''certification_failed'' rel w1)
          else if as_Verdict (jx_Stage r) \<noteq> ''certified''
          then returns (release_fail rt q b inp
                 (firstNonEmpty [as_FailureCode (jx_Stage r), map upper (as_Verdict (jx_Stage r))]) ''certification_failed'' rel w1)
          else (case get as_built (exec rt RunCtx (activityOptions q b) (Lifecycle (BuildReleaseSubject
                  \<lparr>bu_OperationID = in_OperationID inp, bu_TenantID = in_TenantID inp, bu_Binding = rk_Binding (rl_Carry rel),
                   bu_Stage = jx_Stage r, bu_Destinations = ReleaseDestinations lb\<rparr>)) w1) of
              (Inl err, w2) \<Rightarrow> returns (release_fail rt q b inp (snd (settleOutcome rt RunCtx err ''CERTIFICATION_MISMATCH'' w2))
                  ''subject_rejected'' rel w2)
            | (Inr built, w2) \<Rightarrow> release_review rt q b lb inp (set_carry (\<lambda>k. k\<lparr>rk_Built := built\<rparr>) rel) w2))"

text \<open>Part 1, with the numbered parts up to the wait: only a run that carries nothing runs them.\<close>

definition release_prepare :: "('e \<times> gstate) runtime \<Rightarrow> queues \<Rightarrow> bounds \<Rightarrow> lifecycle_bounds \<Rightarrow> input \<Rightarrow> release_run \<Rightarrow>
    ('e \<times> gstate) world \<Rightarrow> (release_flow \<times> ('e \<times> gstate) world) option" where
  "release_prepare rt q b lb inp rel w =
     (case release_record rt q b inp ''certifying'' '''' rel w of
        (False, rel1, w1) \<Rightarrow> Some (Return rel1, w1)
      | (True, rel1, w1) \<Rightarrow>
          (case get as_release_binding (exec rt RunCtx (readOptions q b)
                  (Lifecycle (GetReleaseBinding (in_TenantID inp) (in_OperationID inp))) w1) of
             (Inl err, w2) \<Rightarrow> returns (release_fail rt q b inp (snd (settleOutcome rt RunCtx err ''SOURCE_UNAVAILABLE'' w2))
                 ''source_rejected'' rel1 w2)
           | (Inr binding, w2) \<Rightarrow>
               (let rel2 = set_carry (\<lambda>k. k\<lparr>rk_Binding := binding\<rparr>) rel1 in
                case release_component rt binding of
                  None \<Rightarrow> returns (release_fail rt q b inp ''IDENTITY_UNALLOCATED'' ''source_rejected'' rel2 w2)
                | Some component \<Rightarrow> release_certify rt q b lb inp rel2 component w2)))"

section \<open>The decision\<close>

definition approval_of :: "review_decision \<Rightarrow> release_approval" where
  "approval_of d = \<lparr>rp_State = dv_State d, rp_SubjectDigest = dv_SubjectDigest d, rp_ApproverID = dv_ApproverID d,
     rp_DecidedAt = dv_DecidedAt d, rp_ReasonCode = dv_ReasonCode d\<rparr>"

definition release_reject :: "'e runtime \<Rightarrow> queues \<Rightarrow> bounds \<Rightarrow> input \<Rightarrow> string \<Rightarrow> release_run \<Rightarrow> 'e world \<Rightarrow>
    (release_flow \<times> 'e world) option" where
  "release_reject rt q b inp code rel w =
     returns (snd (release_record rt q b inp ''rejected'' code (with_outcome (''failed'', code) ''approval_rejected'' rel) w))"

definition release_decided :: "'e runtime \<Rightarrow> queues \<Rightarrow> bounds \<Rightarrow> input \<Rightarrow> review_decision \<Rightarrow> release_run \<Rightarrow> 'e world \<Rightarrow>
    (release_flow \<times> 'e world) option" where
  "release_decided rt q b inp d rel w =
     (let digest = rs_SubjectDigest (the_subject rel);
          rel1 = set_carry (\<lambda>k. k\<lparr>rk_Approval := approval_of d\<rparr>) rel in
      if dv_State d = ''expired''
      then returns (release_fail rt q b inp ''APPROVAL_EXPIRED'' ''approval_expired''
             (set_carry (\<lambda>k. k\<lparr>rk_Approval := approval_of (no_decision\<lparr>dv_State := ''pending'', dv_SubjectDigest := digest\<rparr>)\<rparr>) rel) w)
      else if dv_State d = ''approved'' \<and> dv_SubjectDigest d \<noteq> digest
      then release_reject rt q b inp ''APPROVAL_SUBJECT_MISMATCH'' rel1 w
      else if dv_State d = ''rejected'' \<or> dv_State d = ''invalidated''
      then release_reject rt q b inp (''APPROVAL_'' @ map upper (dv_State d)) rel1 w
      else (case release_record rt q b inp ''publishing'' '''' rel1 w of
          (False, rel2, w1) \<Rightarrow> Some (Return rel2, w1)
        | (True, rel2, w1) \<Rightarrow> Some (Proceed rel2, w1)))"

definition release_await :: "'e runtime \<Rightarrow> queues \<Rightarrow> bounds \<Rightarrow> lifecycle_bounds \<Rightarrow> input \<Rightarrow> release_run \<Rightarrow> 'e world \<Rightarrow>
    (release_flow \<times> 'e world) option" where
  "release_await rt q b lb inp rel w =
     (case awaitApproval rt q b lb rel w of
        ((d, code), w1) \<Rightarrow>
          if code = '''' then release_decided rt q b inp d rel w1
          else if code = ''CONTINUE'' then Some (Continue (rl_Carry rel), w1)
          else if code = ''CANCELED''
          then (let p = context_outcome rt RunCtx ''CANCELED'' w1 in
            returns (snd (release_record rt q b inp ''failed'' ''CANCELED'' (with_outcome p '''' rel) w1)))
          else returns (release_fail rt q b inp code ''approval_unavailable'' rel w1))"

section \<open>Publication\<close>

definition target :: "string \<Rightarrow> release_run \<Rightarrow> release_target" where
  "target name rel = (if name = ''npm'' then rl_Npm rel else rl_Browser rel)"

definition set_target :: "string \<Rightarrow> release_target \<Rightarrow> release_run \<Rightarrow> release_run" where
  "set_target name t rel = (if name = ''npm'' then rel\<lparr>rl_Npm := t\<rparr> else rel\<lparr>rl_Browser := t\<rparr>)"

text \<open>The bounded queries of an unknown target under its original identity.\<close>

fun target_rounds :: "'e runtime \<Rightarrow> queues \<Rightarrow> bounds \<Rightarrow> lifecycle_bounds \<Rightarrow> input \<Rightarrow> string \<Rightarrow> nat \<Rightarrow> nat \<Rightarrow> release_run \<Rightarrow>
    'e world \<Rightarrow> (release_run \<times> 'e world) option" where
  "target_rounds rt q b lb inp name occurrence 0 rel w = Some (rel, w)"
| "target_rounds rt q b lb inp name occurrence (Suc n) rel w =
     (if tr_State (target name rel) \<noteq> ''unknown'' then Some (rel, w)
      else case sleep rt RunCtx (ReleaseReconcilePause lb) w of
          (Some err, w1) \<Rightarrow> Some (rel, w1)
        | (None, w1) \<Rightarrow>
            (case releaseEffect rt q b inp rel ''publication'' occurrence PublishTarget name name '''' w1 of
               None \<Rightarrow> None
             | Some ((res, code), w2) \<Rightarrow>
                 if code = '''' \<and> rx_State res \<noteq> ''unknown''
                 then (let rel1 = set_target name (targetOf res) rel in
                       case release_record rt q b inp (publicationState rel1) '''' rel1 w2 of
                         (_, rel2, w3) \<Rightarrow> target_rounds rt q b lb inp name occurrence n rel2 w3)
                 else target_rounds rt q b lb inp name occurrence n rel w2))"

text \<open>After the queries: an unknown target ends the loop, a failed npm target the run.\<close>

definition target_settled :: "'e runtime \<Rightarrow> queues \<Rightarrow> bounds \<Rightarrow> input \<Rightarrow> string \<Rightarrow> release_run \<Rightarrow> 'e world \<Rightarrow>
    (release_flow \<times> 'e world) option" where
  "target_settled rt q b inp name rel w =
     (if tr_State (target name rel) = ''unknown'' then Some (Break rel, w)
      else if name = ''npm'' \<and> tr_State (rl_Npm rel) = ''failed''
      then returns (release_fail rt q b inp (firstNonEmpty [tr_FailureCode (rl_Npm rel), ''PUBLICATION_FAILED''])
             ''publication_failed'' rel w)
      else Some (Proceed rel, w))"

text \<open>One turn of the loop over the targets.\<close>

definition release_target_turn :: "'e runtime \<Rightarrow> queues \<Rightarrow> bounds \<Rightarrow> lifecycle_bounds \<Rightarrow> input \<Rightarrow> string \<Rightarrow> nat \<Rightarrow> release_run \<Rightarrow>
    'e world \<Rightarrow> (release_flow \<times> 'e world) option" where
  "release_target_turn rt q b lb inp name occurrence rel w =
     (if rt_ctx_err rt RunCtx (est w)
      then returns (snd (release_record rt q b inp (publicationState rel) ''CANCELED''
             (with_outcome (context_outcome rt RunCtx ''CANCELED'' w) '''' rel) w))
      else case stillApproved rt q b rel w of
        (code, w1) \<Rightarrow>
          if code \<noteq> '''' then returns (release_fail rt q b inp code ''approval_invalidated'' rel w1)
          else (case releaseEffect rt q b inp rel ''publication'' occurrence PublishTarget name name '''' w1 of
              None \<Rightarrow> None
            | Some ((res, code), w2) \<Rightarrow>
                if code \<noteq> '''' then returns (release_fail rt q b inp code ''publication_failed'' rel w2)
                else (let rel1 = set_target name (targetOf res) rel in
                  case release_record rt q b inp (publicationState rel1) '''' rel1 w2 of
                    (False, rel2, w3) \<Rightarrow> Some (Return rel2, w3)
                  | (True, rel2, w3) \<Rightarrow>
                      (case target_rounds rt q b lb inp name occurrence (nat (ReleaseReconcileRounds lb)) rel2 w3 of
                         None \<Rightarrow> None
                       | Some (rel3, w4) \<Rightarrow> target_settled rt q b inp name rel3 w4))))"

definition release_targets :: "'e runtime \<Rightarrow> queues \<Rightarrow> bounds \<Rightarrow> lifecycle_bounds \<Rightarrow> input \<Rightarrow> release_run \<Rightarrow> 'e world \<Rightarrow>
    (release_flow \<times> 'e world) option" where
  "release_targets rt q b lb inp rel w =
     (case release_target_turn rt q b lb inp ''npm'' 1 rel w of
        Some (Proceed rel1, w1) \<Rightarrow> release_target_turn rt q b lb inp ''browser'' 2 rel1 w1
      | r \<Rightarrow> r)"

text \<open>What the two targets support, and the record of a full publication.\<close>

definition release_published :: "'e runtime \<Rightarrow> queues \<Rightarrow> bounds \<Rightarrow> input \<Rightarrow> release_run \<Rightarrow> 'e world \<Rightarrow> release_flow \<times> 'e world" where
  "release_published rt q b inp rel w =
     (if publicationState rel = ''reconciling''
      then (Return (with_outcome (''failed'', ''EFFECT_UNCERTAIN'') ''publication_unknown'' rel), w)
      else if publicationState rel = ''partially_published''
      then (Return (with_outcome (''failed'', ''PARTIALLY_PUBLISHED'') ''partially_published'' rel), w)
      else if publicationState rel \<noteq> ''published''
      then (case release_fail rt q b inp
              (firstNonEmpty [tr_FailureCode (rl_Npm rel), tr_FailureCode (rl_Browser rel), ''PUBLICATION_FAILED''])
              ''publication_failed'' rel w of (rel1, w1) \<Rightarrow> (Return rel1, w1))
      else if rl_Recorded rel = ''published'' then (Proceed rel, w)
      else (case release_record rt q b inp ''published'' '''' rel w of
          (False, rel1, w1) \<Rightarrow> (Return rel1, w1)
        | (True, rel1, w1) \<Rightarrow> (Proceed rel1, w1)))"

section \<open>Activation\<close>

fun activation_rounds :: "'e runtime \<Rightarrow> queues \<Rightarrow> bounds \<Rightarrow> lifecycle_bounds \<Rightarrow> input \<Rightarrow> string \<Rightarrow> bool \<Rightarrow> nat \<Rightarrow>
    release_effect_result \<times> string \<Rightarrow> release_run \<Rightarrow> 'e world \<Rightarrow>
    ((release_effect_result \<times> string) \<times> release_run \<times> 'e world) option" where
  "activation_rounds rt q b lb inp catalog first 0 r rel w = Some (r, rel, w)"
| "activation_rounds rt q b lb inp catalog first (Suc n) r rel w =
     (if \<not> (snd r = '''' \<and> rx_State (fst r) = ''unknown'') then Some (r, rel, w)
      else case (if first
                 then snd (release_record rt q b inp ''reconciling'' '''' (rel\<lparr>rl_Activation := targetOf (fst r)\<rparr>) w)
                 else (rel, w)) of
        (rel1, w1) \<Rightarrow>
          (case sleep rt RunCtx (ReleaseReconcilePause lb) w1 of
             (Some err, w2) \<Rightarrow> Some (r, rel1, w2)
           | (None, w2) \<Rightarrow>
               (case releaseEffect rt q b inp rel1 ''activation'' 1 ActivateRelease ''activation'' '''' catalog w2 of
                  None \<Rightarrow> None
                | Some (r1, w3) \<Rightarrow> activation_rounds rt q b lb inp catalog False n r1 rel1 w3)))"

definition release_activated :: "'e runtime \<Rightarrow> queues \<Rightarrow> bounds \<Rightarrow> input \<Rightarrow> release_effect_result \<Rightarrow> release_run \<Rightarrow> 'e world \<Rightarrow>
    release_run \<times> 'e world" where
  "release_activated rt q b inp res rel w =
     (let rel1 = rel\<lparr>rl_Activation := targetOf res\<rparr> in
      if rx_State res = ''succeeded''
      then (case release_record rt q b inp ''activated'' '''' (rel1\<lparr>rl_CatalogRevision := rx_CatalogRevision res\<rparr>) w of
          (False, rel2, w1) \<Rightarrow> (rel2, w1)
        | (True, rel2, w1) \<Rightarrow> (rel2\<lparr>rl_Outcome := ''succeeded'', rl_Phase := ''activated''\<rparr>, w1))
      else if rx_State res = ''unknown''
      then (with_outcome (''failed'', ''EFFECT_UNCERTAIN'') ''activation_unknown'' rel1, w)
      else release_fail rt q b inp (firstNonEmpty [tr_FailureCode (rl_Activation rel1), ''ACTIVATION_FAILED''])
             ''activation_failed'' rel1 w)"

definition release_activate :: "'e runtime \<Rightarrow> queues \<Rightarrow> bounds \<Rightarrow> lifecycle_bounds \<Rightarrow> input \<Rightarrow> release_run \<Rightarrow> 'e world \<Rightarrow>
    (release_run \<times> 'e world) option" where
  "release_activate rt q b lb inp rel w =
     (if rt_ctx_err rt RunCtx (est w)
      then Some (with_outcome (context_outcome rt RunCtx ''CANCELED'' w) (rl_Phase rel) rel, w)
      else case stillApproved rt q b rel w of
        (code, w1) \<Rightarrow>
          if code \<noteq> '''' then Some (with_outcome (''failed'', code) ''approval_invalidated'' rel, w1)
          else (case get as_string (exec rt RunCtx (activityOptions q b) (Lifecycle CatalogRevision) w1) of
              (Inl err, w2) \<Rightarrow>
                Some (with_outcome (settleOutcome rt RunCtx err ''DEPENDENCY_UNAVAILABLE'' w2) (rl_Phase rel) rel, w2)
            | (Inr catalog, w2) \<Rightarrow>
                (case releaseEffect rt q b inp rel ''activation'' 1 ActivateRelease ''activation'' '''' catalog w2 of
                   None \<Rightarrow> None
                 | Some (r, w3) \<Rightarrow>
                     (case activation_rounds rt q b lb inp catalog True (nat (ReleaseReconcileRounds lb)) r rel w3 of
                        None \<Rightarrow> None
                      | Some ((res, code), rel1, w4) \<Rightarrow>
                          Some (if code \<noteq> '''' then (with_outcome (''failed'', code) ''activation_failed'' rel1, w4)
                                else release_activated rt q b inp res rel1 w4)))))"

section \<open>The run\<close>

definition release_tail :: "'e runtime \<Rightarrow> queues \<Rightarrow> bounds \<Rightarrow> lifecycle_bounds \<Rightarrow> input \<Rightarrow> release_run \<Rightarrow> 'e world \<Rightarrow>
    (release_flow \<times> 'e world) option" where
  "release_tail rt q b lb inp rel w =
     (case release_targets rt q b lb inp rel w of
        None \<Rightarrow> None
      | Some (Return rel1, w1) \<Rightarrow> Some (Return rel1, w1)
      | Some (Continue carry, w1) \<Rightarrow> Some (Continue carry, w1)
      | Some (Proceed rel1, w1) \<Rightarrow> (case release_published rt q b inp rel1 w1 of
            (Proceed rel2, w2) \<Rightarrow> map_option (apfst Return) (release_activate rt q b lb inp rel2 w2)
          | r \<Rightarrow> Some r)
      | Some (Break rel1, w1) \<Rightarrow> (case release_published rt q b inp rel1 w1 of
            (Proceed rel2, w2) \<Rightarrow> map_option (apfst Return) (release_activate rt q b lb inp rel2 w2)
          | r \<Rightarrow> Some r))"

definition release_body :: "('e \<times> gstate) runtime \<Rightarrow> queues \<Rightarrow> bounds \<Rightarrow> lifecycle_bounds \<Rightarrow> input \<Rightarrow> ('e \<times> gstate) world \<Rightarrow>
    (release_flow \<times> ('e \<times> gstate) world) option" where
  "release_body rt q b lb inp w =
     (case (case in_Release inp of
              None \<Rightarrow> release_prepare rt q b lb inp (release_start None) w
            | Some carry \<Rightarrow> Some (Proceed (release_start (Some carry)), w)) of
        Some (Proceed rel, w1) \<Rightarrow>
          (case release_await rt q b lb inp rel w1 of
             Some (Proceed rel1, w2) \<Rightarrow> release_tail rt q b lb inp rel1 w2
           | r \<Rightarrow> r)
      | r \<Rightarrow> r)"

definition ReleaseWorkflowName :: string where
  "ReleaseWorkflowName = ''ReleaseWorkflow''"

definition Release :: "('e \<times> gstate) runtime \<Rightarrow> queues \<Rightarrow> bounds \<Rightarrow> lifecycle_bounds \<Rightarrow> input \<Rightarrow> ('e \<times> gstate) world \<Rightarrow>
    (wf_error option \<times> ('e \<times> gstate) world) option" where
  "Release rt q b lb inp w =
     (case in_Settle inp of
        Some carry \<Rightarrow> settleOnly rt q b inp carry w
      | None \<Rightarrow>
          (case release_body rt q b lb inp (upd (\<lambda>_. new_gstate) w) of
             None \<Rightarrow> None
           | Some (Continue carry, w1) \<Rightarrow>
               Some (Some (ContinueAsNewError (ContinueLifecycle ReleaseWorkflowName
                 \<lparr>in_OperationID = in_OperationID inp, in_TenantID = in_TenantID inp, in_Release = Some carry,
                  in_Settle = None, in_Close = None\<rparr>)), w1)
           | Some (Return rel, w1) \<Rightarrow> settle_end rt q b inp (rl_Outcome rel) (rl_FailureCode rel) (rl_Phase rel) w1
           | Some (Proceed rel, w1) \<Rightarrow> settle_end rt q b inp (rl_Outcome rel) (rl_FailureCode rel) (rl_Phase rel) w1
           | Some (Break rel, w1) \<Rightarrow> settle_end rt q b inp (rl_Outcome rel) (rl_FailureCode rel) (rl_Phase rel) w1))"

end
