(* ===== verification/ReleaseSafe.thy ===== *)
theory ReleaseSafe
  imports ReleaseWf
begin

text \<open>
  What guards the effects of a release: an invariant on the trace of a run, kept by every part
  of \<open>Release\<close>. A publication is preceded by an approval of exactly its subject, the browser
  target by a definite npm target, and an activation by both receipts, a re-read approval and
  the catalog revision it is conditional on.
\<close>

section \<open>What guards the effects of a release\<close>

definition approved_in :: "release_effect_call \<Rightarrow> event \<Rightarrow> bool" where
  "approved_in z e \<longleftrightarrow> (\<exists>c opts d. e = Act c opts (Lifecycle (ReviewDecision (rz_ReleaseID z))) (Inr (RLifecycle (RDecision d))) \<and>
     dv_State d = ''approved'' \<and> dv_SubjectDigest d = rs_SubjectDigest (rz_Subject z))"

text \<open>The publication of the subject to a target was answered with this record.\<close>

definition answered_target :: "string \<Rightarrow> release_subject \<Rightarrow> release_target \<Rightarrow> event list \<Rightarrow> bool" where
  "answered_target name subject t es \<longleftrightarrow>
     (\<exists>c opts z res. Act c opts (Lifecycle (PublishTarget z)) (Inr (RLifecycle (RReleaseEffect res))) \<in> set es \<and>
        rz_Target z = name \<and> rz_Subject z = subject \<and> targetOf res = t)"

definition publish_ok :: "release_effect_call \<Rightarrow> event list \<Rightarrow> bool" where
  "publish_ok z es \<longleftrightarrow> (\<exists>e \<in> set es. approved_in z e) \<and>
     (rz_Target z = ''npm'' \<or> rz_Target z = ''browser'' \<and>
        (\<exists>t. answered_target ''npm'' (rz_Subject z) t es \<and> tr_State t \<noteq> ''unknown'' \<and> tr_State t \<noteq> ''failed''))"

text \<open>Both targets had succeeded, then the approval was read again, then the catalog revision.\<close>

definition activate_ok :: "release_effect_call \<Rightarrow> event list \<Rightarrow> bool" where
  "activate_ok z es \<longleftrightarrow>
     (\<exists>newer e older. es = newer @ e # older \<and> approved_in z e \<and>
        (\<forall>name \<in> {''npm'', ''browser''}. \<exists>t. answered_target name (rz_Subject z) t older \<and> tr_State t = ''succeeded'') \<and>
        (\<exists>c opts. Act c opts (Lifecycle CatalogRevision) (Inr (RLifecycle (RString (rz_ExpectedCatalogRevision z)))) \<in> set newer))"

fun effect_guard :: "event list \<Rightarrow> lifecycle_request \<Rightarrow> bool" where
  "effect_guard es (PublishTarget z) \<longleftrightarrow> publish_ok z es"
| "effect_guard es (ActivateRelease z) \<longleftrightarrow> activate_ok z es"
| "effect_guard es _ \<longleftrightarrow> True"

definition release_guard :: "event list \<Rightarrow> event \<Rightarrow> bool" where
  "release_guard es e \<longleftrightarrow> (case e of Act _ _ (Lifecycle l) _ \<Rightarrow> effect_guard es l | _ \<Rightarrow> True)"

definition harmless :: "event \<Rightarrow> bool" where
  "harmless e \<longleftrightarrow> (\<forall>es. release_guard es e)"

lemma harmless_guard: "harmless e \<Longrightarrow> release_guard es e"
  by (simp add: harmless_def)

lemma harmless_job: "job_event e \<Longrightarrow> harmless e"
  by (cases e rule: job_event.cases) (auto simp: harmless_def release_guard_def)

lemma harmless_slept [simp]: "harmless (Slept c d x)"
  by (simp add: harmless_def release_guard_def)

lemma harmless_settle: "settle_event c q b inp e \<Longrightarrow> harmless e"
  by (cases "(c, q, b, inp, e)" rule: settle_event.cases) (auto simp: harmless_def release_guard_def)

abbreviation safe :: "'e world \<Rightarrow> 'e world \<Rightarrow> bool" where
  "safe \<equiv> keeps release_guard"

lemma extends_safe: "extends harmless w w' \<Longrightarrow> safe w w'"
  by (rule extends_keeps [where P = harmless]) (auto intro: harmless_guard)

lemma get_safe:
  assumes "get d (exec rt c opts r w) = (res, w')" "\<And>raw. harmless (Act c opts r raw)"
  shows "safe w w'"
  by (rule extends_safe [OF extends_get_exec [OF assms(1)]]) (rule assms(2))

lemma sleep_safe: "sleep rt c d w = (x, w') \<Longrightarrow> safe w w'"
  by (rule extends_safe, rule extends_sleep) auto

text \<open>What is shown by a trace stays shown.\<close>

lemma answered_target_mono:
  "answered_target name subject t (trace w) \<Longrightarrow> extends P w w' \<Longrightarrow> answered_target name subject t (trace w')"
  unfolding answered_target_def extends_def by fastforce

section \<open>Records\<close>

text \<open>Everything but the projection revision.\<close>

definition same_carry :: "release_run \<Rightarrow> release_run \<Rightarrow> bool" where
  "same_carry rel rel' \<longleftrightarrow>
     rk_Built (rl_Carry rel') = rk_Built (rl_Carry rel) \<and> rk_ReleaseID (rl_Carry rel') = rk_ReleaseID (rl_Carry rel) \<and>
     rk_Binding (rl_Carry rel') = rk_Binding (rl_Carry rel) \<and> rk_ApprovalDeadline (rl_Carry rel') = rk_ApprovalDeadline (rl_Carry rel) \<and>
     rk_ReviewEffectID (rl_Carry rel') = rk_ReviewEffectID (rl_Carry rel) \<and> rk_Approval (rl_Carry rel') = rk_Approval (rl_Carry rel)"

definition same_release :: "release_run \<Rightarrow> release_run \<Rightarrow> bool" where
  "same_release rel rel' \<longleftrightarrow> rl_Npm rel' = rl_Npm rel \<and> rl_Browser rel' = rl_Browser rel \<and> same_carry rel rel'"

lemma same_carry_refl [simp]: "same_carry rel rel"
  by (simp add: same_carry_def)

lemma same_carry_trans: "same_carry a b \<Longrightarrow> same_carry b c \<Longrightarrow> same_carry a c"
  by (simp add: same_carry_def)

lemma same_release_refl [simp]: "same_release rel rel"
  by (simp add: same_release_def)

lemma same_release_subject: "same_release rel rel' \<Longrightarrow> the_subject rel' = the_subject rel \<and> rk_ReleaseID (rl_Carry rel') = rk_ReleaseID (rl_Carry rel)"
  by (simp add: same_release_def same_carry_def)


lemma same_release_target: "same_release rel rel' \<Longrightarrow> target name rel' = target name rel"
  by (simp add: same_release_def target_def)

lemma release_record_does:
  assumes "release_record rt q b inp state code rel w = (ok, rel', w')"
  shows "safe w w' \<and> same_release rel rel' \<and> (rl_Outcome rel' = rl_Outcome rel \<or> rl_Outcome rel' \<noteq> ''succeeded'')"
proof -
  obtain res w1 where one: "get as_revision (exec rt Disconnected (controlOptions q b) (Lifecycle (RecordRelease
      ((release_input rel state code)\<lparr>rr_OperationID := in_OperationID inp, rr_TenantID := in_TenantID inp\<rparr>))) w) = (res, w1)"
    by fastforce
  have "safe w w1" by (rule get_safe [OF one]) (simp add: harmless_def release_guard_def)
  then show ?thesis using assms one
    by (cases res) (auto simp: release_record_def Let_def same_release_def same_carry_def)
qed

lemma release_fail_does:
  assumes "release_fail rt q b inp code ph rel w = (rel', w')"
  shows "safe w w' \<and> rl_Outcome rel' \<noteq> ''succeeded''"
proof -
  let ?rel = "rel\<lparr>rl_Outcome := ''failed'', rl_FailureCode := code, rl_Phase := ph\<rparr>"
  obtain ok where "release_record rt q b inp ''failed'' code ?rel w = (ok, rel', w')"
    using assms by (cases "release_record rt q b inp ''failed'' code ?rel w") (simp add: release_fail_def)
  from release_record_does [OF this] show ?thesis by auto
qed

section \<open>Effects\<close>

lemma effect_close_safe:
  assumes "effect_close rt q b attempt res w = Some w'"
  shows "safe w w'"
proof -
  have one: "safe w (snd (exec rt Disconnected (controlOptions q b) (CloseAttempt i) w))" for i
    by (rule extends_safe) (auto simp: extends_def exec_def harmless_job split: prod.splits)
  have two: "safe w v" if "closeForSettlement rt Disconnected q b attempt cmd outcome cleanup code w = Some (x, v)"
    for cmd outcome cleanup code x v
    by (rule extends_safe, rule extends_mono [OF runs_extends [OF closeForSettlement_calls [OF that]]])
      (rule harmless_job, rule close_job_event)
  show ?thesis using assms one two by (auto simp: effect_close_def split: sum.splits if_splits)
qed

text \<open>
  An effect that is allowed whenever it is sent keeps the trace guarded; an answer without a
  code is Control's answer to this call.
\<close>

lemma releaseEffect_does:
  assumes "releaseEffect rt q b inp rel kind occurrence activity tgt publishTarget catalog w = Some ((res, code), w')"
    and "\<And>attempt v. extends (\<lambda>_. True) w v \<Longrightarrow>
      effect_guard (trace v) (activity (effect_call inp rel kind occurrence tgt publishTarget catalog attempt))"
  shows "safe w w' \<and> (code = '''' \<longrightarrow> (\<exists>attempt opts. Act Disconnected opts
      (Lifecycle (activity (effect_call inp rel kind occurrence tgt publishTarget catalog attempt)))
      (Inr (RLifecycle (RReleaseEffect res))) \<in> set (trace w')))"
proof -
  obtain ares w1 where op: "get as_attempt (exec rt RunCtx (activityOptions q b)
      (OpenAttempt (effect_open inp rel kind occurrence tgt)) w) = (ares, w1)" by fastforce
  have s1: "safe w w1" by (rule get_safe [OF op]) (simp add: harmless_job)
  show ?thesis
  proof (cases ares)
    case (Inl err)
    then have "w' = w1" "code \<noteq> ''''" using assms(1) op settleOutcome_code by (auto simp: releaseEffect_def)
    then show ?thesis using s1 by simp
  next
    case (Inr attempt)
    let ?r = "activity (effect_call inp rel kind occurrence tgt publishTarget catalog attempt)"
    obtain eres w2 where sent: "get as_release_effect (exec rt Disconnected (effectOptions q b) (Lifecycle ?r) w1) = (eres, w2)"
      by fastforce
    obtain raw where tr: "trace w2 = Act Disconnected (effectOptions q b) (Lifecycle ?r) raw # trace w1"
      "eres = decode as_release_effect raw" using trace_get_exec [OF sent] by blast
    have "effect_guard (trace w1) ?r" using assms(2) s1 keeps_extends by blast
    then have s2: "safe w1 w2" using tr(1) by (intro keeps_event) (auto simp: release_guard_def)
    obtain w3 where cl: "effect_close rt q b attempt eres w2 = Some w3" and w': "w' = w3"
      and rest: "(res, code) = (case eres of Inl err \<Rightarrow> (no_effect, snd (settleOutcome rt RunCtx err ''EFFECT_UNCERTAIN'' w3)) | Inr r \<Rightarrow> (r, ''''))"
      using assms(1) op Inr sent by (auto simp: releaseEffect_def split: option.splits)
    note s3 = effect_close_safe [OF cl]
    have "code = '''' \<Longrightarrow> eres = Inr res" using rest by (cases eres) (auto dest: sym)
    then have "code = '''' \<Longrightarrow> raw = Inr (RLifecycle (RReleaseEffect res))" using tr(2) by (auto simp: decode_Inr dest: sym)
    moreover have "set (trace w2) \<subseteq> set (trace w')" using keeps_subset [OF s3] w' by simp
    ultimately show ?thesis using tr(1) keeps_trans [OF s1 keeps_trans [OF s2 s3]] w' by fastforce
  qed
qed

section \<open>The decision\<close>

lemma decision_event [simp]: "harmless (Act c opts (Lifecycle (ReviewDecision r)) raw)"
  by (simp add: harmless_def release_guard_def)

lemma await_polls_safe: "await_polls rt q b lb rel polls w = (r, w') \<Longrightarrow> safe w w'"
proof (induction rt q b lb rel polls w rule: await_polls.induct)
  case (1 rt q b lb rel polls w)
  obtain res w1 where one: "get as_decision (exec rt RunCtx (activityOptions q b)
      (Lifecycle (ReviewDecision (rk_ReleaseID (rl_Carry rel)))) w) = (res, w1)" by fastforce
  have s1: "safe w w1" by (rule get_safe [OF one]) simp
  show ?case
  proof (cases "rt_ctx_err rt RunCtx (est w)")
    case True
    then show ?thesis using 1(2) by (simp add: await_polls.simps)
  next
    case running: False
    show ?thesis
    proof (cases res)
      case (Inl err)
      then have "w' = w1" using 1(2) running one by (auto simp: await_polls.simps split: if_splits)
      then show ?thesis using s1 by simp
    next
      case (Inr d)
      obtain x w2 where sl: "sleep rt RunCtx (min (ReleaseApprovalPoll lb) (rk_ApprovalDeadline (rl_Carry rel) - now rt w1)) w1 = (x, w2)"
        by fastforce
      note s2 = keeps_trans [OF s1 sleep_safe [OF sl]]
      let ?ends = "dv_State d = ''approved'' \<or> dv_State d = ''rejected'' \<or> dv_State d = ''invalidated'' \<or>
        \<not> now rt w1 < rk_ApprovalDeadline (rl_Carry rel) \<or> polls + 1 \<ge> ReleasePollsPerRun lb"
      consider "w' = w1" | "w' = w2" | "\<not> ?ends" "x = None" "await_polls rt q b lb rel (polls + 1) w2 = (r, w')"
        using 1(2) running one Inr sl by (cases x) (auto simp: await_polls.simps split: if_splits)
      then show ?thesis
      proof cases
        case 3
        have "safe w2 w'" by (rule 1(1) [OF running one [symmetric] Inr _ _ _ sl [symmetric] 3(2,3)]) (use 3(1) in auto)
        with s2 show ?thesis by (rule keeps_trans)
      qed (use s1 s2 in auto)
    qed
  qed
qed

text \<open>A decision read for this release that approves exactly its subject.\<close>

definition approval :: "release_run \<Rightarrow> event \<Rightarrow> bool" where
  "approval rel e \<longleftrightarrow>
     (\<exists>c opts d. e = Act c opts (Lifecycle (ReviewDecision (rk_ReleaseID (rl_Carry rel)))) (Inr (RLifecycle (RDecision d))) \<and>
        dv_State d = ''approved'' \<and> dv_SubjectDigest d = rs_SubjectDigest (the_subject rel))"

lemma approval_in: "approval rel e \<Longrightarrow> rz_ReleaseID z = rk_ReleaseID (rl_Carry rel) \<Longrightarrow> rz_Subject z = the_subject rel \<Longrightarrow> approved_in z e"
  by (auto simp: approval_def approved_in_def)

lemma approval_same: "same_release rel rel' \<Longrightarrow> approval rel' = approval rel"
  by (simp add: approval_def same_release_subject fun_eq_iff)

lemma stillApproved_does:
  assumes "stillApproved rt q b rel w = (code, w')"
  shows "safe w w' \<and> (code = '''' \<longrightarrow> (\<exists>e. trace w' = e # trace w \<and> approval rel e))"
proof -
  obtain res w1 where one: "get as_decision (exec rt RunCtx (activityOptions q b)
      (Lifecycle (ReviewDecision (rk_ReleaseID (rl_Carry rel)))) w) = (res, w1)" by fastforce
  obtain raw where tr: "trace w1 = Act RunCtx (activityOptions q b) (Lifecycle (ReviewDecision (rk_ReleaseID (rl_Carry rel)))) raw # trace w"
    "res = decode as_decision raw" using trace_get_exec [OF one] by blast
  have s1: "safe w w1" by (rule get_safe [OF one]) simp
  show ?thesis
  proof (cases res)
    case (Inl err)
    then show ?thesis using assms one s1 by (auto simp: stillApproved_def dest: sym)
  next
    case (Inr d)
    then have "raw = Inr (RLifecycle (RDecision d))" using tr(2) by (auto simp: decode_Inr dest: sym)
    then show ?thesis using assms one Inr s1 tr(1)
      by (auto simp: stillApproved_def approval_def split: if_splits)
  qed
qed

section \<open>Publication\<close>

text \<open>A target that is no longer pending has been answered.\<close>

definition targets_answered :: "release_run \<Rightarrow> event list \<Rightarrow> bool" where
  "targets_answered rel es \<longleftrightarrow> (\<forall>name \<in> {''npm'', ''browser''}.
     tr_State (target name rel) \<noteq> ''pending'' \<longrightarrow> answered_target name (the_subject rel) (target name rel) es)"

lemma targets_answered_mono:
  "targets_answered rel (trace w) \<Longrightarrow> safe w w' \<Longrightarrow> same_release rel rel' \<Longrightarrow> targets_answered rel' (trace w')"
proof -
  assume a: "targets_answered rel (trace w)" "safe w w'" "same_release rel rel'"
  have "answered_target name s t (trace w')" if "answered_target name s t (trace w)" for name s t
    using answered_target_mono [OF that keeps_extends [OF a(2)]] .
  then show ?thesis using a(1) same_release_target [OF a(3)] same_release_subject [OF a(3)] by (simp add: targets_answered_def)
qed

lemma target_set [simp]: "target name (set_target name t rel) = t"
  "name \<noteq> ''npm'' \<Longrightarrow> target ''npm'' (set_target name t rel) = target ''npm'' rel"
  "target ''browser'' (set_target ''npm'' t rel) = target ''browser'' rel"
  "rl_Carry (set_target name t rel) = rl_Carry rel" "rl_Outcome (set_target name t rel) = rl_Outcome rel"
  "approval (set_target name t rel) = approval rel"
  by (simp_all add: target_def set_target_def approval_def fun_eq_iff)

lemma effect_call_simps [simp]:
  "rz_Subject (effect_call inp rel kind occurrence tgt p catalog attempt) = the_subject rel"
  "rz_ReleaseID (effect_call inp rel kind occurrence tgt p catalog attempt) = rk_ReleaseID (rl_Carry rel)"
  "rz_Target (effect_call inp rel kind occurrence tgt p catalog attempt) = p"
  "rz_ExpectedCatalogRevision (effect_call inp rel kind occurrence tgt p catalog attempt) = catalog"
  by (simp_all add: effect_call_def)

text \<open>A run that may publish to \<open>name\<close>: approved, and for the browser after a definite npm target.\<close>

definition may_publish :: "string \<Rightarrow> release_run \<Rightarrow> event list \<Rightarrow> bool" where
  "may_publish name rel es \<longleftrightarrow>
     (\<exists>e \<in> set es. approval rel e) \<and>
     (name = ''npm'' \<or> name = ''browser'' \<and>
        (\<exists>t. answered_target ''npm'' (the_subject rel) t es \<and> tr_State t \<noteq> ''unknown'' \<and> tr_State t \<noteq> ''failed''))"

lemma may_publish_mono:
  assumes "may_publish name rel (trace w)" "extends P w w'" "same_release rel rel'"
  shows "may_publish name rel' (trace w')"
proof -
  have "set (trace w) \<subseteq> set (trace w')" using assms(2) by (auto simp: extends_def)
  moreover have "answered_target ''npm'' s t (trace w')" if "answered_target ''npm'' s t (trace w)" for s t
    by (rule answered_target_mono [OF that assms(2)])
  ultimately show ?thesis using assms(1)
    unfolding may_publish_def approval_same [OF assms(3)] conjunct1 [OF same_release_subject [OF assms(3)]] by blast
qed

lemma publish_effect:
  assumes "releaseEffect rt q b inp rel kind occurrence PublishTarget name name catalog w = Some ((res, code), w')"
    and "may_publish name rel (trace w)" "targets_answered rel (trace w)"
  shows "safe w w'" "code = '''' \<Longrightarrow> targets_answered (set_target name (targetOf res) rel) (trace w')"
    "code = '''' \<Longrightarrow> answered_target name (the_subject rel) (targetOf res) (trace w')"
proof -
  have "effect_guard (trace v) (PublishTarget (effect_call inp rel kind occurrence name name catalog attempt))"
    if "extends (\<lambda>_. True) w v" for attempt v
  proof -
    let ?z = "effect_call inp rel kind occurrence name name catalog attempt"
    note mp = may_publish_mono [OF assms(2) that same_release_refl, unfolded may_publish_def]
    then obtain e where e: "e \<in> set (trace v)" "approval rel e" by blast
    have "approved_in ?z e" by (rule approval_in [OF e(2)]) simp_all
    then have "\<exists>e \<in> set (trace v). approved_in ?z e" using e(1) by blast
    then show ?thesis using conjunct2 [OF mp] by (simp add: publish_ok_def)
  qed
  note does = releaseEffect_does [OF assms(1) this]
  show s: "safe w w'" using does by simp
  assume "code = ''''"
  then show a: "answered_target name (the_subject rel) (targetOf res) (trace w')"
    using does unfolding answered_target_def by fastforce
  have "targets_answered rel (trace w')" by (rule targets_answered_mono [OF assms(3) s same_release_refl])
  with a show "targets_answered (set_target name (targetOf res) rel) (trace w')"
    using assms(2) by (auto simp: targets_answered_def may_publish_def)
qed

lemma target_rounds_does:
  assumes "target_rounds rt q b lb inp name occurrence n rel w = Some (rel', w')"
    and "may_publish name rel (trace w)" "targets_answered rel (trace w)" "rl_Outcome rel \<noteq> ''succeeded''"
    and "answered_target name (the_subject rel) (target name rel) (trace w)"
  shows "safe w w' \<and> targets_answered rel' (trace w') \<and> rl_Outcome rel' \<noteq> ''succeeded'' \<and>
    same_carry rel rel' \<and> answered_target name (the_subject rel') (target name rel') (trace w')"
  using assms
proof (induction n arbitrary: rel w)
  case 0
  then show ?case by simp
next
  case (Suc n)
  show ?case
  proof (cases "tr_State (target name rel) = ''unknown''")
    case False
    then show ?thesis using Suc.prems by simp
  next
    case True
    obtain x w1 where sl: "sleep rt RunCtx (ReleaseReconcilePause lb) w = (x, w1)" by fastforce
    note s1 = sleep_safe [OF sl]
    have ok1: "may_publish name rel (trace w1)" "targets_answered rel (trace w1)"
      using may_publish_mono [OF Suc.prems(2) keeps_extends [OF s1]] targets_answered_mono [OF Suc.prems(3) s1] by simp_all
    note an1 = answered_target_mono [OF Suc.prems(5) keeps_extends [OF s1]]
    show ?thesis
    proof (cases x)
      case (Some err)
      then show ?thesis using Suc.prems True sl s1 ok1 an1 by simp
    next
      case None
      obtain res code w2 where ef: "releaseEffect rt q b inp rel ''publication'' occurrence PublishTarget name name '''' w1 = Some ((res, code), w2)"
        using Suc.prems(1) True sl None by (auto split: option.splits)
      note s2 = publish_effect(1) [OF ef ok1]
      show ?thesis
      proof (cases "code = '''' \<and> rx_State res \<noteq> ''unknown''")
        case False
        then have "target_rounds rt q b lb inp name occurrence n rel w2 = Some (rel', w')"
          using Suc.prems(1) True sl None ef by auto
        from Suc.IH [OF this may_publish_mono [OF ok1(1) keeps_extends [OF s2] same_release_refl]
            targets_answered_mono [OF ok1(2) s2 same_release_refl] Suc.prems(4)
            answered_target_mono [OF an1 keeps_extends [OF s2]]]
        show ?thesis using keeps_trans [OF s1 keeps_trans [OF s2]] by blast
      next
        case definite: True
        let ?rel1 = "set_target name (targetOf res) rel"
        obtain ok rel2 w3 where rec: "release_record rt q b inp (publicationState ?rel1) '''' ?rel1 w2 = (ok, rel2, w3)"
          by (metis prod_cases3)
        have next_run: "target_rounds rt q b lb inp name occurrence n rel2 w3 = Some (rel', w')"
          using Suc.prems(1) True sl None ef definite rec by (auto simp: Let_def)
        note r = release_record_does [OF rec]
        have carry: "same_carry rel rel2" using r by (simp add: same_release_def same_carry_def)
        have ta: "targets_answered rel2 (trace w3)"
          using targets_answered_mono [OF publish_effect(2) [OF ef ok1]] definite r by blast
        have "may_publish name ?rel1 (trace w2)"
          using may_publish_mono [OF ok1(1) keeps_extends [OF s2] same_release_refl] by (simp add: may_publish_def)
        then have mp: "may_publish name rel2 (trace w3)" using may_publish_mono r keeps_extends by blast
        have out: "rl_Outcome rel2 \<noteq> ''succeeded''" using r Suc.prems(4) by auto
        have "answered_target name (the_subject rel) (targetOf res) (trace w3)"
          using answered_target_mono [OF publish_effect(3) [OF ef ok1] keeps_extends] definite r by blast
        then have an3: "answered_target name (the_subject rel2) (target name rel2) (trace w3)"
          using same_release_target [of ?rel1 rel2 name] same_release_subject [of ?rel1 rel2] r by simp
        from Suc.IH [OF next_run mp ta out an3] show ?thesis
          using keeps_trans [OF s1 keeps_trans [OF s2 keeps_trans [OF conjunct1 [OF r]]]] same_carry_trans [OF carry] by blast
      qed
    qed
  qed
qed

text \<open>What a part of the publication leaves.\<close>

fun publication_flow :: "release_run \<Rightarrow> release_flow \<Rightarrow> event list \<Rightarrow> bool" where
  "publication_flow rel (Proceed rel') es \<longleftrightarrow> targets_answered rel' es \<and> rl_Outcome rel' \<noteq> ''succeeded'' \<and> same_carry rel rel'"
| "publication_flow rel (Break rel') es \<longleftrightarrow> targets_answered rel' es \<and> rl_Outcome rel' \<noteq> ''succeeded'' \<and> same_carry rel rel'"
| "publication_flow rel (Return rel') es \<longleftrightarrow> rl_Outcome rel' \<noteq> ''succeeded''"
| "publication_flow rel (Continue carry) es \<longleftrightarrow> False"

definition npm_definite :: "release_run \<Rightarrow> event list \<Rightarrow> bool" where
  "npm_definite rel es \<longleftrightarrow> (\<exists>t. answered_target ''npm'' (the_subject rel) t es \<and> tr_State t \<noteq> ''unknown'' \<and> tr_State t \<noteq> ''failed'')"

lemma release_target_turn_does:
  assumes "release_target_turn rt q b lb inp name occurrence rel w = Some (flow, w')"
    and "targets_answered rel (trace w)" "rl_Outcome rel \<noteq> ''succeeded''"
    and "name = ''npm'' \<or> name = ''browser'' \<and> npm_definite rel (trace w)"
  shows "safe w w' \<and> publication_flow rel flow (trace w') \<and>
    (\<forall>rel'. name = ''npm'' \<and> flow = Proceed rel' \<longrightarrow> npm_definite rel' (trace w'))"
proof (cases "rt_ctx_err rt RunCtx (est w)")
  case True
  let ?rel = "with_outcome (context_outcome rt RunCtx ''CANCELED'' w) '''' rel"
  obtain ok rel1 where rec: "release_record rt q b inp (publicationState rel) ''CANCELED'' ?rel w = (ok, rel1, w')"
    using assms(1) True by (cases "release_record rt q b inp (publicationState rel) ''CANCELED'' ?rel w")
      (simp add: release_target_turn_def)
  have flow: "flow = Return rel1" using assms(1) True rec by (simp add: release_target_turn_def)
  have "rl_Outcome ?rel \<noteq> ''succeeded''" by (simp add: with_outcome_def context_outcome_def)
  then show ?thesis using release_record_does [OF rec] flow by auto
next
  case running: False
  obtain code w1 where still: "stillApproved rt q b rel w = (code, w1)" by fastforce
  note d1 = stillApproved_does [OF still]
  have fails: ?thesis if "flow = Return rel1" "release_fail rt q b inp c ph r v = (rel1, w')" "safe w v" for rel1 c ph r v
    using release_fail_does [OF that(2)] that(1) keeps_trans [OF that(3)] by auto
  show ?thesis
  proof (cases "code = ''''")
    case False
    then show ?thesis using assms(1) running still d1
      by (intro fails [of "fst (release_fail rt q b inp code ''approval_invalidated'' rel w1)" code "''approval_invalidated''" rel w1])
        (auto simp: release_target_turn_def)
  next
    case True
    then obtain e where e: "trace w1 = e # trace w" "approval rel e" using d1 by auto
    have ta1: "targets_answered rel (trace w1)" using targets_answered_mono [OF assms(2) conjunct1 [OF d1]] by simp
    have mp1: "may_publish name rel (trace w1)"
      using e assms(4) answered_target_mono [of "''npm''" _ _ w _ w1] keeps_extends [OF conjunct1 [OF d1]]
      unfolding may_publish_def npm_definite_def by auto
    obtain res ecode w2 where ef: "releaseEffect rt q b inp rel ''publication'' occurrence PublishTarget name name '''' w1 = Some ((res, ecode), w2)"
      using assms(1) running still True by (auto simp: release_target_turn_def split: option.splits)
    note s2 = keeps_trans [OF conjunct1 [OF d1] publish_effect(1) [OF ef mp1 ta1]]
    show ?thesis
    proof (cases "ecode = ''''")
      case False
      then show ?thesis using assms(1) running still True ef s2
        by (intro fails [of "fst (release_fail rt q b inp ecode ''publication_failed'' rel w2)" ecode "''publication_failed''" rel w2])
          (auto simp: release_target_turn_def)
    next
      case sent: True
      let ?rel1 = "set_target name (targetOf res) rel"
      obtain ok rel2 w3 where rec: "release_record rt q b inp (publicationState ?rel1) '''' ?rel1 w2 = (ok, rel2, w3)"
        by (metis prod_cases3)
      note r = release_record_does [OF rec]
      note s3 = keeps_trans [OF s2 conjunct1 [OF r]]
      have out2: "rl_Outcome rel2 \<noteq> ''succeeded''" using r assms(3) by auto
      show ?thesis
      proof (cases ok)
        case False
        then show ?thesis using assms(1) running still True ef sent rec s3 out2 by (auto simp: release_target_turn_def Let_def)
      next
        case recorded: True
        have ta2: "targets_answered rel2 (trace w3)"
          using targets_answered_mono [OF publish_effect(2) [OF ef mp1 ta1 sent]] r by blast
        have "may_publish name ?rel1 (trace w2)"
          using may_publish_mono [OF mp1 keeps_extends [OF publish_effect(1) [OF ef mp1 ta1]] same_release_refl] by (simp add: may_publish_def)
        then have mp2: "may_publish name rel2 (trace w3)" using may_publish_mono r keeps_extends by blast
        have "answered_target name (the_subject rel) (targetOf res) (trace w3)"
          using answered_target_mono [OF publish_effect(3) [OF ef mp1 ta1 sent] keeps_extends] r by blast
        then have an2: "answered_target name (the_subject rel2) (target name rel2) (trace w3)"
          using same_release_target [of ?rel1 rel2 name] same_release_subject [of ?rel1 rel2] r by simp
        obtain rel3 w4 where rounds: "target_rounds rt q b lb inp name occurrence (nat (ReleaseReconcileRounds lb)) rel2 w3 = Some (rel3, w4)"
          and last: "target_settled rt q b inp name rel3 w4 = Some (flow, w')"
          using assms(1) running still True ef sent rec recorded by (auto simp: release_target_turn_def Let_def split: option.splits)
        note t = target_rounds_does [OF rounds mp2 ta2 out2 an2]
        note s4 = keeps_trans [OF s3 conjunct1 [OF t]]
        have carry: "same_carry rel rel3"
          using t r same_carry_trans [of rel rel2 rel3] by (simp add: same_release_def same_carry_def)
        consider "flow = Break rel3" "w' = w4"
          | "flow = Proceed rel3" "w' = w4" "name = ''npm'' \<longrightarrow> tr_State (target name rel3) \<noteq> ''unknown'' \<and> tr_State (target name rel3) \<noteq> ''failed''"
          | rel4 c where "flow = Return rel4" "release_fail rt q b inp c ''publication_failed'' rel3 w4 = (rel4, w')"
          using last unfolding target_settled_def by (auto simp: target_def split: if_splits intro: surjective_pairing)
        then show ?thesis
        proof cases
          case 1
          then show ?thesis using s4 t carry by simp
        next
          case 2
          then show ?thesis using s4 t carry by (auto simp: npm_definite_def)
        next
          case 3
          then show ?thesis by (rule fails [OF _ _ s4])
        qed
      qed
    qed
  qed
qed

lemma release_targets_does:
  assumes "release_targets rt q b lb inp rel w = Some (flow, w')"
    and "targets_answered rel (trace w)" "rl_Outcome rel \<noteq> ''succeeded''"
  shows "safe w w' \<and> publication_flow rel flow (trace w')"
proof -
  obtain flow1 w1 where npm: "release_target_turn rt q b lb inp ''npm'' 1 rel w = Some (flow1, w1)"
    using assms(1) by (auto simp: release_targets_def split: option.splits)
  note d1 = release_target_turn_does [OF npm assms(2,3)]
  show ?thesis
  proof (cases "\<exists>rel1. flow1 = Proceed rel1")
    case False
    then have "flow = flow1" "w' = w1" using assms(1) npm by (cases flow1; simp add: release_targets_def)+
    then show ?thesis using d1 by simp
  next
    case True
    then obtain rel1 where flow1: "flow1 = Proceed rel1" by blast
    have run: "release_target_turn rt q b lb inp ''browser'' 2 rel1 w1 = Some (flow, w')"
      using assms(1) npm flow1 by (simp add: release_targets_def)
    have ok1: "targets_answered rel1 (trace w1)" "rl_Outcome rel1 \<noteq> ''succeeded''" "npm_definite rel1 (trace w1)" "same_carry rel rel1"
      using d1 flow1 by auto
    have d2: "safe w1 w' \<and> publication_flow rel1 flow (trace w')"
      using release_target_turn_does [OF run ok1(1,2)] ok1(3) by blast
    then have "publication_flow rel flow (trace w')"
      using same_carry_trans [OF ok1(4)] by (cases flow) auto
    then show ?thesis using d1 d2 keeps_trans by blast
  qed
qed

lemma release_published_does:
  assumes "release_published rt q b inp rel w = (flow, w')" "rl_Outcome rel \<noteq> ''succeeded''"
  shows "safe w w' \<and> ((\<exists>rel'. flow = Return rel' \<and> rl_Outcome rel' \<noteq> ''succeeded'') \<or>
    (\<exists>rel'. flow = Proceed rel' \<and> same_release rel rel' \<and> rl_Outcome rel' \<noteq> ''succeeded'' \<and> publicationState rel = ''published''))"
proof -
  consider rel1 where "flow = Return rel1" "rl_Outcome rel1 \<noteq> ''succeeded''" "w' = w"
    | rel1 c where "flow = Return rel1" "release_fail rt q b inp c ''publication_failed'' rel w = (rel1, w')"
    | "flow = Proceed rel" "w' = w" "publicationState rel = ''published''"
    | ok rel1 where "release_record rt q b inp ''published'' '''' rel w = (ok, rel1, w')" "publicationState rel = ''published''"
      "flow = (if ok then Proceed rel1 else Return rel1)"
    using assms(1) unfolding release_published_def
    by (auto simp: with_outcome_def split: if_splits prod.splits bool.splits)
  then show ?thesis
  proof cases
    case 2
    then show ?thesis using release_fail_does by blast
  next
    case 4
    then show ?thesis using release_record_does [OF 4(1)] assms(2) by (cases ok) auto
  qed (use assms(2) in auto)
qed

lemma published_targets:
  "publicationState rel = ''published'' \<Longrightarrow> tr_State (target name rel) = ''succeeded''"
  by (auto simp: publicationState_def target_def Let_def split: if_splits)

section \<open>Activation\<close>

definition may_activate :: "string \<Rightarrow> release_run \<Rightarrow> event list \<Rightarrow> bool" where
  "may_activate catalog rel es \<longleftrightarrow>
     (\<exists>newer e older. es = newer @ e # older \<and> approval rel e \<and>
        (\<forall>name \<in> {''npm'', ''browser''}. \<exists>t. answered_target name (the_subject rel) t older \<and> tr_State t = ''succeeded'') \<and>
        (\<exists>c opts. Act c opts (Lifecycle CatalogRevision) (Inr (RLifecycle (RString catalog))) \<in> set newer))"

lemma may_activate_mono:
  assumes "may_activate catalog rel (trace w)" "extends P w w'" "same_release rel rel'"
  shows "may_activate catalog rel' (trace w')"
proof -
  obtain new where new: "trace w' = new @ trace w" using assms(2) by (auto simp: extends_def)
  obtain newer e older where a: "trace w = newer @ e # older" "approval rel e"
      "\<forall>name \<in> {''npm'', ''browser''}. \<exists>t. answered_target name (the_subject rel) t older \<and> tr_State t = ''succeeded''"
      "\<exists>c opts. Act c opts (Lifecycle CatalogRevision) (Inr (RLifecycle (RString catalog))) \<in> set newer"
    using assms(1) unfolding may_activate_def by blast
  show ?thesis unfolding may_activate_def approval_same [OF assms(3)] conjunct1 [OF same_release_subject [OF assms(3)]]
    by (intro exI [of _ "new @ newer"] exI [of _ e] exI [of _ older] conjI) (use new a in auto)
qed

definition activation_answered :: "release_effect_result \<Rightarrow> event list \<Rightarrow> bool" where
  "activation_answered res es \<longleftrightarrow>
     (\<exists>c opts z. Act c opts (Lifecycle (ActivateRelease z)) (Inr (RLifecycle (RReleaseEffect res))) \<in> set es)"

lemma activation_answered_mono: "activation_answered res (trace w) \<Longrightarrow> extends P w w' \<Longrightarrow> activation_answered res (trace w')"
  unfolding activation_answered_def extends_def by fastforce

lemma activation_effect:
  assumes "releaseEffect rt q b inp rel kind occurrence ActivateRelease tgt p catalog w = Some ((res, code), w')"
    and "may_activate catalog rel (trace w)"
  shows "safe w w'" "code = '''' \<Longrightarrow> activation_answered res (trace w')"
proof -
  have "effect_guard (trace v) (ActivateRelease (effect_call inp rel kind occurrence tgt p catalog attempt))"
    if ex: "extends (\<lambda>_. True) w v" for attempt v
  proof -
    let ?z = "effect_call inp rel kind occurrence tgt p catalog attempt"
    obtain newer e older where a: "trace v = newer @ e # older" "approval rel e"
        "\<forall>name \<in> {''npm'', ''browser''}. \<exists>t. answered_target name (the_subject rel) t older \<and> tr_State t = ''succeeded''"
        "\<exists>c opts. Act c opts (Lifecycle CatalogRevision) (Inr (RLifecycle (RString catalog))) \<in> set newer"
      using may_activate_mono [OF assms(2) ex same_release_refl] unfolding may_activate_def by blast
    have "approved_in ?z e" by (rule approval_in [OF a(2)]) simp_all
    then show ?thesis using a unfolding effect_guard.simps activate_ok_def effect_call_simps by blast
  qed
  note does = releaseEffect_does [OF assms(1) this]
  show "safe w w'" using does by simp
  show "code = '''' \<Longrightarrow> activation_answered res (trace w')" using does unfolding activation_answered_def by blast
qed

lemma activation_rounds_does:
  assumes "activation_rounds rt q b lb inp catalog first n r rel w = Some ((res, code), rel', w')"
    and "may_activate catalog rel (trace w)" "snd r = '''' \<Longrightarrow> activation_answered (fst r) (trace w)" "rl_Outcome rel \<noteq> ''succeeded''"
  shows "safe w w' \<and> (code = '''' \<longrightarrow> activation_answered res (trace w')) \<and> rl_Outcome rel' \<noteq> ''succeeded''"
  using assms
proof (induction n arbitrary: first r rel w)
  case 0
  then show ?case by auto
next
  case (Suc n)
  show ?case
  proof (cases "snd r = '''' \<and> rx_State (fst r) = ''unknown''")
    case False
    then show ?thesis using Suc.prems by auto
  next
    case True
    define act where "act = (if first
       then snd (release_record rt q b inp ''reconciling'' '''' (rel\<lparr>rl_Activation := targetOf (fst r)\<rparr>) w) else (rel, w))"
    obtain rel1 w1 where act_eq: "act = (rel1, w1)" by fastforce
    have s1: "safe w w1 \<and> same_release rel rel1 \<and> rl_Outcome rel1 \<noteq> ''succeeded''"
    proof (cases first)
      case True
      let ?rel = "rel\<lparr>rl_Activation := targetOf (fst r)\<rparr>"
      obtain ok where rec: "release_record rt q b inp ''reconciling'' '''' ?rel w = (ok, rel1, w1)"
        using act_eq True by (cases "release_record rt q b inp ''reconciling'' '''' ?rel w") (simp add: act_def)
      have "same_release rel ?rel" by (simp add: same_release_def same_carry_def)
      then show ?thesis using release_record_does [OF rec] Suc.prems(4) by (auto simp: same_release_def same_carry_def)
    next
      case False
      then show ?thesis using act_eq Suc.prems(4) by (simp add: act_def)
    qed
    obtain x w2 where sl: "sleep rt RunCtx (ReleaseReconcilePause lb) w1 = (x, w2)" by fastforce
    note s2 = keeps_trans [OF conjunct1 [OF s1] sleep_safe [OF sl]]
    have run: "(case sleep rt RunCtx (ReleaseReconcilePause lb) w1 of
         (Some err, w2) \<Rightarrow> Some (r, rel1, w2)
       | (None, w2) \<Rightarrow> (case releaseEffect rt q b inp rel1 ''activation'' 1 ActivateRelease ''activation'' '''' catalog w2 of
            None \<Rightarrow> None
          | Some (r1, w3) \<Rightarrow> activation_rounds rt q b lb inp catalog False n r1 rel1 w3)) = Some ((res, code), rel', w')"
      using Suc.prems(1) True act_eq by (simp add: act_def)
    show ?thesis
    proof (cases x)
      case (Some err)
      then show ?thesis using run sl s1 s2 Suc.prems(3) activation_answered_mono [OF _ keeps_extends [OF s2]] by auto
    next
      case None
      obtain r1 w3 where ef: "releaseEffect rt q b inp rel1 ''activation'' 1 ActivateRelease ''activation'' '''' catalog w2 = Some (r1, w3)"
        and again: "activation_rounds rt q b lb inp catalog False n r1 rel1 w3 = Some ((res, code), rel', w')"
        using run sl None by (auto split: option.splits)
      have ma: "may_activate catalog rel1 (trace w2)"
        using may_activate_mono [OF Suc.prems(2) keeps_extends [OF s2]] s1 by blast
      have "releaseEffect rt q b inp rel1 ''activation'' 1 ActivateRelease ''activation'' '''' catalog w2 = Some ((fst r1, snd r1), w3)"
        using ef by simp
      note e = activation_effect [OF this ma]
      show ?thesis
        using Suc.IH [OF again may_activate_mono [OF ma keeps_extends [OF e(1)] same_release_refl] e(2)] s1
          keeps_trans [OF s2 keeps_trans [OF e(1)]] by blast
    qed
  qed
qed

text \<open>The release is recorded activated, after the activation was answered as succeeded.\<close>

definition activated_last :: "event list \<Rightarrow> bool" where
  "activated_last es \<longleftrightarrow> (\<exists>c opts r next es' res. es = Act c opts (Lifecycle (RecordRelease r)) (Inr (RLifecycle (RRevision next))) # es' \<and>
     rr_State r = ''activated'' \<and> rx_State res = ''succeeded'' \<and> activation_answered res es')"

lemma release_record_ok:
  assumes "release_record rt q b inp state code rel w = (ok, rel', w')" "ok"
  shows "\<exists>c opts r next. trace w' = Act c opts (Lifecycle (RecordRelease r)) (Inr (RLifecycle (RRevision next))) # trace w \<and> rr_State r = state"
proof -
  let ?r = "(release_input rel state code)\<lparr>rr_OperationID := in_OperationID inp, rr_TenantID := in_TenantID inp\<rparr>"
  obtain res w1 where one: "get as_revision (exec rt Disconnected (controlOptions q b) (Lifecycle (RecordRelease ?r)) w) = (res, w1)"
    by fastforce
  obtain raw where tr: "trace w1 = Act Disconnected (controlOptions q b) (Lifecycle (RecordRelease ?r)) raw # trace w"
    "res = decode as_revision raw" using trace_get_exec [OF one] by blast
  obtain next_rev where "res = Inr next_rev" "w' = w1"
    using assms one by (auto simp: release_record_def Let_def split: sum.splits)
  then have "raw = Inr (RLifecycle (RRevision next_rev))" using tr(2) by (auto simp: decode_Inr dest: sym)
  then show ?thesis using tr(1) \<open>w' = w1\<close> by (auto simp: release_input_def)
qed

lemma release_activated_does:
  assumes "release_activated rt q b inp res rel w = (rel', w')" "activation_answered res (trace w)" "rl_Outcome rel \<noteq> ''succeeded''"
  shows "safe w w' \<and> (rl_Outcome rel' = ''succeeded'' \<longrightarrow> activated_last (trace w'))"
proof -
  let ?rel1 = "rel\<lparr>rl_Activation := targetOf res\<rparr>"
  consider "rx_State res = ''succeeded''" | "rx_State res = ''unknown''" | "rx_State res \<noteq> ''succeeded''" "rx_State res \<noteq> ''unknown''" by blast
  then show ?thesis
  proof cases
    case 1
    let ?rel2 = "?rel1\<lparr>rl_CatalogRevision := rx_CatalogRevision res\<rparr>"
    obtain ok rel3 where rec: "release_record rt q b inp ''activated'' '''' ?rel2 w = (ok, rel3, w')"
      using assms(1) 1 by (cases "release_record rt q b inp ''activated'' '''' ?rel2 w") (auto simp: release_activated_def Let_def split: bool.splits)
    show ?thesis
    proof (cases ok)
      case True
      then have "activated_last (trace w')"
        using release_record_ok [OF rec True] 1 assms(2) unfolding activated_last_def by blast
      then show ?thesis using release_record_does [OF rec] by simp
    next
      case False
      then show ?thesis using release_record_does [OF rec] assms 1 rec by (auto simp: release_activated_def Let_def)
    qed
  next
    case 2
    then show ?thesis using assms(1) by (auto simp: release_activated_def Let_def with_outcome_def)
  next
    case 3
    then obtain c where "release_fail rt q b inp c ''activation_failed'' ?rel1 w = (rel', w')"
      using assms(1) by (simp add: release_activated_def Let_def del: firstNonEmpty.simps)
    then show ?thesis using release_fail_does by blast
  qed
qed

lemma release_activate_does:
  assumes "release_activate rt q b lb inp rel w = Some (rel', w')" "rl_Outcome rel \<noteq> ''succeeded''"
    and "\<forall>name \<in> {''npm'', ''browser''}. \<exists>t. answered_target name (the_subject rel) t (trace w) \<and> tr_State t = ''succeeded''"
  shows "safe w w' \<and> (rl_Outcome rel' = ''succeeded'' \<longrightarrow> activated_last (trace w'))"
proof (cases "rt_ctx_err rt RunCtx (est w)")
  case True
  then show ?thesis using assms(1) by (auto simp: release_activate_def with_outcome_def context_outcome_def)
next
  case running: False
  obtain code w1 where still: "stillApproved rt q b rel w = (code, w1)" by fastforce
  note d1 = stillApproved_does [OF still]
  show ?thesis
  proof (cases "code = ''''")
    case False
    then show ?thesis using assms(1) running still d1 by (auto simp: release_activate_def with_outcome_def)
  next
    case True
    then obtain e where e: "trace w1 = e # trace w" "approval rel e" using d1 by auto
    obtain res w2 where cat: "get as_string (exec rt RunCtx (activityOptions q b) (Lifecycle CatalogRevision) w1) = (res, w2)" by fastforce
    obtain raw where tr: "trace w2 = Act RunCtx (activityOptions q b) (Lifecycle CatalogRevision) raw # trace w1"
      "res = decode as_string raw" using trace_get_exec [OF cat] by blast
    have s2: "safe w w2"
      by (rule keeps_trans [OF conjunct1 [OF d1] get_safe [OF cat]]) (simp add: harmless_def release_guard_def)
    show ?thesis
    proof (cases res)
      case (Inl err)
      then show ?thesis using assms(1) running still True cat s2 by (auto simp: release_activate_def with_outcome_def)
    next
      case (Inr catalog)
      then have raw: "raw = Inr (RLifecycle (RString catalog))" using tr(2) by (auto simp: decode_Inr dest: sym)
      have ma: "may_activate catalog rel (trace w2)"
        unfolding may_activate_def
        by (intro exI [of _ "[Act RunCtx (activityOptions q b) (Lifecycle CatalogRevision) raw]"] exI [of _ e] exI [of _ "trace w"])
          (use e tr(1) raw assms(3) in auto)
      obtain r w3 where ef: "releaseEffect rt q b inp rel ''activation'' 1 ActivateRelease ''activation'' '''' catalog w2 = Some (r, w3)"
        using assms(1) running still True cat Inr by (auto simp: release_activate_def split: option.splits)
      then have ef': "releaseEffect rt q b inp rel ''activation'' 1 ActivateRelease ''activation'' '''' catalog w2 = Some ((fst r, snd r), w3)"
        by simp
      note a = activation_effect [OF ef' ma]
      obtain eres ecode rel1 w4 where rounds: "activation_rounds rt q b lb inp catalog True (nat (ReleaseReconcileRounds lb)) r rel w3 = Some ((eres, ecode), rel1, w4)"
        and last: "(rel', w') = (if ecode \<noteq> '''' then (with_outcome (''failed'', ecode) ''activation_failed'' rel1, w4)
            else release_activated rt q b inp eres rel1 w4)"
        using assms(1) running still True cat Inr ef by (auto simp: release_activate_def split: option.splits)
      note d = activation_rounds_does [OF rounds may_activate_mono [OF ma keeps_extends [OF a(1)] same_release_refl] a(2) assms(2)]
      note s4 = keeps_trans [OF s2 keeps_trans [OF a(1) conjunct1 [OF d]]]
      show ?thesis
      proof (cases "ecode = ''''")
        case False
        then show ?thesis using last s4 by (simp add: with_outcome_def)
      next
        case ok: True
        have "release_activated rt q b inp eres rel1 w4 = (rel', w')" using last ok by simp
        from release_activated_does [OF this] show ?thesis using d ok keeps_trans [OF s4] by blast
      qed
    qed
  qed
qed

section \<open>The whole run\<close>

definition sound_flow :: "release_flow \<Rightarrow> 'e world \<Rightarrow> bool" where
  "sound_flow flow w \<longleftrightarrow> (\<forall>rel. flow \<noteq> Continue (rl_Carry rel) \<and> flow \<in> {Proceed rel, Break rel, Return rel} \<longrightarrow>
     rl_Outcome rel = ''succeeded'' \<longrightarrow> activated_last (trace w))"

lemma sound_flow_simps [simp]:
  "sound_flow (Return rel) w \<longleftrightarrow> (rl_Outcome rel = ''succeeded'' \<longrightarrow> activated_last (trace w))"
  "sound_flow (Proceed rel) w \<longleftrightarrow> (rl_Outcome rel = ''succeeded'' \<longrightarrow> activated_last (trace w))"
  "sound_flow (Break rel) w \<longleftrightarrow> (rl_Outcome rel = ''succeeded'' \<longrightarrow> activated_last (trace w))"
  "sound_flow (Continue carry) w"
  by (auto simp: sound_flow_def)

definition fresh_run :: "release_run \<Rightarrow> bool" where
  "fresh_run rel \<longleftrightarrow> rl_Npm rel = pending_target \<and> rl_Browser rel = pending_target \<and> rl_Outcome rel \<noteq> ''succeeded''"

lemma fresh_targets: "fresh_run rel \<Longrightarrow> targets_answered rel es"
  by (simp add: fresh_run_def targets_answered_def target_def pending_target_def)

lemma release_tail_does:
  assumes "release_tail rt q b lb inp rel w = Some (flow, w')" "fresh_run rel"
  shows "safe w w' \<and> sound_flow flow w' \<and> (\<forall>carry. flow \<noteq> Continue carry)"
proof -
  obtain flow1 w1 where targets: "release_targets rt q b lb inp rel w = Some (flow1, w1)"
    using assms(1) by (auto simp: release_tail_def split: option.splits)
  have out: "rl_Outcome rel \<noteq> ''succeeded''" using assms(2) by (simp add: fresh_run_def)
  note d1 = release_targets_does [OF targets fresh_targets [OF assms(2)] out]
  have publish: ?thesis if "(case release_published rt q b inp rel1 w1 of
        (Proceed rel2, w2) \<Rightarrow> map_option (apfst Return) (release_activate rt q b lb inp rel2 w2) | r \<Rightarrow> Some r) = Some (flow, w')"
      and ok: "targets_answered rel1 (trace w1)" "rl_Outcome rel1 \<noteq> ''succeeded''" for rel1
  proof -
    obtain flow2 w2 where pub: "release_published rt q b inp rel1 w1 = (flow2, w2)" by fastforce
    note d2 = release_published_does [OF pub ok(2)]
    note s2 = keeps_trans [OF conjunct1 [OF d1] conjunct1 [OF d2]]
    show ?thesis
    proof (cases "\<exists>rel2. flow2 = Proceed rel2")
      case False
      then show ?thesis using that(1) pub d2 s2 by (cases flow2) auto
    next
      case True
      then obtain rel2 where rel2: "flow2 = Proceed rel2" "same_release rel1 rel2" "rl_Outcome rel2 \<noteq> ''succeeded''" "publicationState rel1 = ''published''"
        using d2 by auto
      have "map_option (apfst Return) (release_activate rt q b lb inp rel2 w2) = Some (flow, w')"
        using that(1) pub rel2(1) by simp
      then obtain rel3 where act: "release_activate rt q b lb inp rel2 w2 = Some (rel3, w')" and flow: "flow = Return rel3"
        by (cases "release_activate rt q b lb inp rel2 w2") auto
      have "targets_answered rel2 (trace w2)" using targets_answered_mono [OF ok(1)] d2 rel2(2) by blast
      moreover have "tr_State (target name rel2) = ''succeeded''" for name
        using published_targets [OF rel2(4)] same_release_target [OF rel2(2)] by metis
      ultimately have "\<forall>name \<in> {''npm'', ''browser''}. \<exists>t. answered_target name (the_subject rel2) t (trace w2) \<and> tr_State t = ''succeeded''"
        unfolding targets_answered_def by fastforce
      from release_activate_does [OF act rel2(3) this] show ?thesis using flow keeps_trans [OF s2] by simp
    qed
  qed
  show ?thesis
  proof (cases flow1)
    case (Return rel1)
    then show ?thesis using assms(1) targets d1 by (auto simp: release_tail_def)
  next
    case (Continue carry)
    then show ?thesis using d1 by simp
  next
    case (Proceed rel1)
    then show ?thesis using assms(1) targets d1 by (intro publish [of rel1]) (auto simp: release_tail_def)
  next
    case (Break rel1)
    then show ?thesis using assms(1) targets d1 by (intro publish [of rel1]) (auto simp: release_tail_def)
  qed
qed

text \<open>The part of the body before the decision leaves a run that has published nothing.\<close>

fun prepared_flow :: "release_flow \<Rightarrow> bool" where
  "prepared_flow (Proceed rel) \<longleftrightarrow> fresh_run rel"
| "prepared_flow (Return rel) \<longleftrightarrow> rl_Outcome rel \<noteq> ''succeeded''"
| "prepared_flow _ \<longleftrightarrow> False"

lemma returns_fail:
  assumes "returns (release_fail rt q b inp code ph rel w) = Some (flow, w')" "safe v w"
  shows "safe v w' \<and> prepared_flow flow"
proof -
  have "release_fail rt q b inp code ph rel w = (fst (release_fail rt q b inp code ph rel w), w')" "flow = Return (fst (release_fail rt q b inp code ph rel w))"
    using assms(1) by (auto intro: prod_eqI)
  then show ?thesis using release_fail_does keeps_trans [OF assms(2)] by (metis prepared_flow.simps(2))
qed

lemma fresh_carry [simp]: "fresh_run (rel\<lparr>rl_Carry := c\<rparr>) = fresh_run rel"
  by (simp add: fresh_run_def)

lemma fresh_record:
  "release_record rt q b inp state code rel w = (ok, rel', w') \<Longrightarrow> fresh_run rel \<Longrightarrow> fresh_run rel' \<and> safe w w'"
  using release_record_does by (fastforce simp: fresh_run_def same_release_def)

lemma recorded_flow:
  "(case p of (False, r, v) \<Rightarrow> Some (Return r, v) | (True, r, v) \<Rightarrow> Some (Proceed r, v)) = Some (flow, w') \<Longrightarrow>
   \<exists>ok r. p = (ok, r, w') \<and> flow = (if ok then Proceed r else Return r)"
  by (cases p) (auto split: bool.splits)

lemma release_review_does:
  assumes "release_review rt q b lb inp rel w = Some (flow, w')" "fresh_run rel"
  shows "safe w w' \<and> prepared_flow flow"
proof -
  obtain res code w1 where ef: "releaseEffect rt q b inp rel ''review'' 1 RegisterReview ''review'' '''' '''' w = Some ((res, code), w1)"
    using assms(1) by (auto simp: release_review_def split: option.splits)
  have s1: "safe w w1" using releaseEffect_does [OF ef] by simp
  consider c where "returns (release_fail rt q b inp c ''review_unregistered'' rel w1) = Some (flow, w')"
    | rel1 ok rel2 where "fresh_run rel1" "release_record rt q b inp ''awaiting_approval'' '''' rel1 w1 = (ok, rel2, w')"
      "flow = (if ok then Proceed rel2 else Return rel2)"
  proof (cases "code \<noteq> '''' \<or> rx_State res \<noteq> ''succeeded''")
    case True
    define c where "c = (if code \<noteq> '''' then code else firstNonEmpty [tr_FailureCode (rx_Target res), reviewCode (rx_State res)])"
    have "returns (release_fail rt q b inp c ''review_unregistered'' rel w1) = Some (flow, w')"
    proof (cases "code = ''''")
      case False
      then have "c = code" by (simp add: c_def)
      then show ?thesis using assms(1) False unfolding release_review_def ef by (simp only: option.case prod.case if_True) simp
    next
      case None: True
      then have "c = firstNonEmpty [tr_FailureCode (rx_Target res), reviewCode (rx_State res)]" by (simp only: c_def) simp
      moreover have "rx_State res \<noteq> ''succeeded''" using None True by blast
      ultimately show ?thesis using assms(1) None unfolding release_review_def ef
        by (simp only: option.case prod.case) (simp only: not_True_eq_False if_False if_True simp_thms)
    qed
    then show thesis by (rule that(1))
  next
    case False
    define rel1 where "rel1 = set_carry (\<lambda>k. k\<lparr>rk_ReleaseID := rx_ReleaseID res, rk_ReviewEffectID := rx_EffectID res,
        rk_ApprovalDeadline := (if rb_Deadline (rk_Binding (rl_Carry rel)) < now rt w1 + ReleaseApprovalWait lb
          then rb_Deadline (rk_Binding (rl_Carry rel)) else now rt w1 + ReleaseApprovalWait lb),
        rk_Approval := \<lparr>rp_State = ''pending'', rp_SubjectDigest = rs_SubjectDigest (the_subject rel),
          rp_ApproverID = '''', rp_DecidedAt = None, rp_ReasonCode = ''''\<rparr>\<rparr>) rel"
    have fresh: "fresh_run rel1" using assms(2) by (simp add: rel1_def)
    have "(case release_record rt q b inp ''awaiting_approval'' '''' rel1 w1 of
        (False, r, v) \<Rightarrow> Some (Return r, v) | (True, r, v) \<Rightarrow> Some (Proceed r, v)) = Some (flow, w')"
      using assms(1) ef False by (simp add: release_review_def Let_def rel1_def)
    from recorded_flow [OF this] obtain ok r where "release_record rt q b inp ''awaiting_approval'' '''' rel1 w1 = (ok, r, w')"
      "flow = (if ok then Proceed r else Return r)" by blast
    with fresh show thesis by (rule that(2))
  qed
  then show ?thesis
  proof cases
    case 1
    then show ?thesis using s1 by (rule returns_fail)
  next
    case 2
    from fresh_record [OF 2(2,1)] show ?thesis using 2(3) keeps_trans [OF s1] by (auto simp: fresh_run_def)
  qed
qed

lemma release_certify_does:
  assumes "release_certify rt q b lb inp rel component w = Some (flow, w')" "fresh_run rel"
  shows "safe w w' \<and> prepared_flow flow"
proof -
  obtain r w1 where step: "runJobStep rt RunCtx q b (release_step inp lb (rk_Binding (rl_Carry rel)) component) w = Some (r, w1)"
    using assms(1) by (auto simp: release_certify_def split: option.splits)
  have s1: "safe w w1" by (rule extends_safe [OF extends_mono [OF runJobStep_calls [OF step] harmless_job]])
  let ?b = "BuildReleaseSubject \<lparr>bu_OperationID = in_OperationID inp, bu_TenantID = in_TenantID inp, bu_Binding = rk_Binding (rl_Carry rel),
     bu_Stage = jx_Stage r, bu_Destinations = ReleaseDestinations lb\<rparr>"
  obtain res w2 where build: "get as_built (exec rt RunCtx (activityOptions q b) (Lifecycle ?b) w1) = (res, w2)" by fastforce
  have s2: "safe w w2"
    by (rule keeps_trans [OF s1 get_safe [OF build]]) (simp add: harmless_def release_guard_def)
  consider c ph v where "returns (release_fail rt q b inp c ph rel v) = Some (flow, w')" "safe w v"
    | built where "release_review rt q b lb inp (set_carry (\<lambda>k. k\<lparr>rk_Built := built\<rparr>) rel) w2 = Some (flow, w')"
  proof (cases "jx_Code r \<noteq> '''' \<or> as_Verdict (jx_Stage r) \<noteq> ''certified''")
    case True
    then show thesis using assms(1) step that(1) [OF _ s1] by (auto simp: release_certify_def split: if_splits simp del: firstNonEmpty.simps)
  next
    case False
    then show thesis using assms(1) step build that(1) [OF _ s2] that(2) by (cases res) (auto simp: release_certify_def)
  qed
  then show ?thesis
  proof cases
    case 1
    then show ?thesis by (rule returns_fail)
  next
    case 2
    from release_review_does [OF 2] show ?thesis using assms(2) keeps_trans [OF s2] by simp
  qed
qed

lemma release_prepare_does:
  assumes "release_prepare rt q b lb inp rel w = Some (flow, w')" "fresh_run rel"
  shows "safe w w' \<and> prepared_flow flow"
proof -
  obtain ok rel1 w1 where rec: "release_record rt q b inp ''certifying'' '''' rel w = (ok, rel1, w1)" by (metis prod_cases3)
  note f1 = fresh_record [OF rec assms(2)]
  obtain res w2 where bind: "get as_release_binding (exec rt RunCtx (readOptions q b)
      (Lifecycle (GetReleaseBinding (in_TenantID inp) (in_OperationID inp))) w1) = (res, w2)" by fastforce
  have s2: "safe w w2"
    by (rule keeps_trans [OF conjunct2 [OF f1] get_safe [OF bind]]) (simp add: harmless_def release_guard_def)
  consider "\<not> ok" "flow = Return rel1" "w' = w1"
    | c rel2 where "returns (release_fail rt q b inp c ''source_rejected'' rel2 w2) = Some (flow, w')"
    | binding component where "release_certify rt q b lb inp (set_carry (\<lambda>k. k\<lparr>rk_Binding := binding\<rparr>) rel1) component w2 = Some (flow, w')"
    using assms(1) rec bind that
    by (cases ok; cases res) (auto simp: release_prepare_def Let_def split: option.splits)
  then show ?thesis
  proof cases
    case 1
    then show ?thesis using f1 by (simp add: fresh_run_def)
  next
    case 2
    then show ?thesis using s2 by (rule returns_fail)
  next
    case 3
    from release_certify_does [OF 3] show ?thesis using f1 keeps_trans [OF s2] by simp
  qed
qed

lemma release_decided_does:
  assumes "release_decided rt q b inp d rel w = Some (flow, w')" "fresh_run rel"
  shows "safe w w' \<and> prepared_flow flow"
proof -
  let ?rel1 = "set_carry (\<lambda>k. k\<lparr>rk_Approval := approval_of d\<rparr>) rel"
  consider rel2 where "returns (release_fail rt q b inp ''APPROVAL_EXPIRED'' ''approval_expired'' rel2 w) = Some (flow, w')"
    | c where "release_reject rt q b inp c ?rel1 w = Some (flow, w')"
    | ok rel2 where "release_record rt q b inp ''publishing'' '''' ?rel1 w = (ok, rel2, w')" "flow = (if ok then Proceed rel2 else Return rel2)"
    using assms(1) that by (auto simp: release_decided_def Let_def split: if_splits prod.splits bool.splits)
  then show ?thesis
  proof cases
    case 1
    then show ?thesis by (rule returns_fail) simp
  next
    case 2
    let ?rel2 = "with_outcome (''failed'', c) ''approval_rejected'' ?rel1"
    obtain ok rel3 where rec: "release_record rt q b inp ''rejected'' c ?rel2 w = (ok, rel3, w')" and "flow = Return rel3"
      using 2 by (cases "release_record rt q b inp ''rejected'' c ?rel2 w") (auto simp: release_reject_def)
    then show ?thesis using release_record_does [OF rec] by (auto simp: with_outcome_def)
  next
    case 3
    from fresh_record [OF 3(1)] show ?thesis using assms(2) 3(2) by (auto simp: fresh_run_def)
  qed
qed

lemma release_await_does:
  assumes "release_await rt q b lb inp rel w = Some (flow, w')" "fresh_run rel"
  shows "safe w w' \<and> (prepared_flow flow \<or> flow = Continue (rl_Carry rel))"
proof -
  obtain d code w1 where aw: "awaitApproval rt q b lb rel w = ((d, code), w1)" by (metis prod.exhaust)
  have s1: "safe w w1" by (rule await_polls_safe [OF aw [unfolded awaitApproval_def]])
  let ?rel1 = "with_outcome (context_outcome rt RunCtx ''CANCELED'' w1) '''' rel"
  consider "release_decided rt q b inp d rel w1 = Some (flow, w')"
    | "flow = Continue (rl_Carry rel)" "w' = w1"
    | ok rel2 where "release_record rt q b inp ''failed'' ''CANCELED'' ?rel1 w1 = (ok, rel2, w')" "flow = Return rel2"
    | c where "returns (release_fail rt q b inp c ''approval_unavailable'' rel w1) = Some (flow, w')"
  proof -
    consider "code = ''''" | "code = ''CONTINUE''" | "code = ''CANCELED''"
      | "code \<noteq> ''''" "code \<noteq> ''CONTINUE''" "code \<noteq> ''CANCELED''" by blast
    then show thesis
    proof cases
      case 1
      then show thesis using assms(1) aw that(1) by (simp add: release_await_def)
    next
      case 2
      then show thesis using assms(1) aw that(2) by (simp add: release_await_def)
    next
      case 3
      obtain ok rel2 v where rec: "release_record rt q b inp ''failed'' ''CANCELED'' ?rel1 w1 = (ok, rel2, v)" by (metis prod_cases3)
      then show thesis using assms(1) aw 3 that(3) [of ok rel2] by (simp add: release_await_def Let_def)
    next
      case 4
      then show thesis using assms(1) aw that(4) [of code] by (simp add: release_await_def)
    qed
  qed
  then show ?thesis
  proof cases
    case 1
    from release_decided_does [OF this assms(2)] show ?thesis using keeps_trans [OF s1] by blast
  next
    case 2
    then show ?thesis using s1 by simp
  next
    case 3
    have "rl_Outcome ?rel1 \<noteq> ''succeeded''" by (simp add: with_outcome_def context_outcome_def)
    then show ?thesis using release_record_does [OF 3(1)] 3(2) keeps_trans [OF s1] by auto
  next
    case 4
    then show ?thesis using returns_fail [OF _ s1] by blast
  qed
qed

lemma release_body_does:
  assumes "release_body rt q b lb inp w = Some (flow, w')"
  shows "safe w w' \<and> sound_flow flow w'"
proof -
  have start: "fresh_run (release_start c)" for c by (simp add: fresh_run_def release_start_def)
  have after: "safe w w' \<and> sound_flow flow w'"
    if run: "(case release_await rt q b lb inp rel w1 of Some (Proceed rel1, w2) \<Rightarrow> release_tail rt q b lb inp rel1 w2 | r \<Rightarrow> r) = Some (flow, w')"
      and s1: "safe w w1" and fresh: "fresh_run rel" for rel w1
  proof -
    obtain flow1 w2 where aw: "release_await rt q b lb inp rel w1 = Some (flow1, w2)"
      using run by (cases "release_await rt q b lb inp rel w1") auto
    note d = release_await_does [OF aw fresh]
    note s2 = keeps_trans [OF s1 conjunct1 [OF d]]
    show ?thesis
    proof (cases "\<exists>rel1. flow1 = Proceed rel1")
      case True
      then obtain rel1 where rel1: "flow1 = Proceed rel1" "fresh_run rel1" using d by auto
      then have "release_tail rt q b lb inp rel1 w2 = Some (flow, w')" using run aw by simp
      from release_tail_does [OF this rel1(2)] show ?thesis using keeps_trans [OF s2] by blast
    next
      case False
      then have "flow = flow1" "w' = w2" using run aw by (cases flow1; simp)+
      then show ?thesis using d s2 False by (cases flow1) auto
    qed
  qed
  show ?thesis
  proof (cases "in_Release inp")
    case (Some carry)
    then show ?thesis using assms by (intro after [of "release_start (Some carry)" w]) (simp_all add: release_body_def start)
  next
    case None
    obtain flow1 w1 where prep: "release_prepare rt q b lb inp (release_start None) w = Some (flow1, w1)"
      using assms None by (auto simp: release_body_def split: option.splits)
    note d = release_prepare_does [OF prep start]
    show ?thesis
    proof (cases "\<exists>rel1. flow1 = Proceed rel1")
      case True
      then obtain rel1 where rel1: "flow1 = Proceed rel1" "fresh_run rel1" using d by auto
      then show ?thesis using assms None prep d by (intro after [of rel1 w1]) (simp_all add: release_body_def)
    next
      case False
      then have "flow = flow1" "w' = w1" using assms None prep by (cases flow1; simp add: release_body_def)+
      then show ?thesis using d False by (cases flow1) auto
    qed
  qed
qed

end
