(* ===== verification/ReleaseRuns.thy ===== *)
theory ReleaseRuns
  imports ReleaseSafe
begin

text \<open>
  Whole runs of the \<open>Release\<close> workflow: what a run has sent by its end, how it continues as new
  while it waits for the decision, that it returns, and example runs over a script of answers.
\<close>

section \<open>How a run ends\<close>

lemma Release_cases:
  assumes "Release rt q b lb inp w = Some (err, w')" "in_Settle inp = None"
  obtains (continues) carry where "release_body rt q b lb inp (upd (\<lambda>_. new_gstate) w) = Some (Continue carry, w')"
      "err = Some (ContinueAsNewError (ContinueLifecycle ReleaseWorkflowName
         \<lparr>in_OperationID = in_OperationID inp, in_TenantID = in_TenantID inp, in_Release = Some carry, in_Settle = None, in_Close = None\<rparr>))"
  | (settles) rel :: release_run and flow w1 where "release_body rt q b lb inp (upd (\<lambda>_. new_gstate) w) = Some (flow, w1)"
      "rl_Outcome rel = ''succeeded'' \<Longrightarrow> activated_last (trace w1)"
      "settle_end rt q b inp (rl_Outcome rel) (rl_FailureCode rel) (rl_Phase rel) w1 = Some (err, w')"
proof -
  obtain flow w1 where body: "release_body rt q b lb inp (upd (\<lambda>_. new_gstate) w) = Some (flow, w1)"
    using assms by (auto simp: Release_def split: option.splits)
  note d = release_body_does [OF body]
  show thesis
  proof (cases flow)
    case (Continue carry)
    then show thesis using assms body continues by (simp add: Release_def)
  next
    case (Return rel)
    then show thesis using assms body d settles [of flow w1 rel] by (simp add: Release_def)
  next
    case (Proceed rel)
    then show thesis using assms body d settles [of flow w1 rel] by (simp add: Release_def)
  next
    case (Break rel)
    then show thesis using assms body d settles [of flow w1 rel] by (simp add: Release_def)
  qed
qed

lemma Release_guarded:
  assumes "Release rt q b lb inp w = Some (err, w')" "in_Settle inp = None" "timers_cancel rt" "trace w = []"
  shows "guarded release_guard (trace w')"
  using assms(1,2)
proof (cases rule: Release_cases)
  case (continues carry)
  have "safe (upd (\<lambda>_. new_gstate) w) w'" using release_body_does [OF continues(1)] by simp
  from keeps_guarded [OF this] show ?thesis using assms(4) by simp
next
  case (settles rel flow w1)
  have "safe (upd (\<lambda>_. new_gstate) w) w1" using release_body_does [OF settles(1)] by simp
  moreover have "safe w1 w'"
    by (rule extends_safe [OF extends_mono [OF settle_end_calls [OF settles(3) assms(3)] harmless_settle]])
  ultimately have "safe (upd (\<lambda>_. new_gstate) w) w'" by (rule keeps_trans)
  from keeps_guarded [OF this] show ?thesis using assms(4) by simp
qed

section \<open>Properties\<close>

text \<open>
  C10. Nothing is published without the maintainer. Whenever a run sends the publication of a
  subject, it had read before, for this release, an approval of exactly that subject's digest;
  and it sends the browser target only after the npm publication of the same subject was
  answered with a definite state other than failed.
\<close>

theorem Release_publishes_approved:
  assumes "Release rt q b lb inp w = Some (err, w')" "in_Settle inp = None" "timers_cancel rt" "trace w = []"
    and "trace w' = later @ Act c opts (Lifecycle (PublishTarget z)) raw # before"
  shows "(\<exists>e \<in> set before. approved_in z e) \<and>
    (rz_Target z = ''npm'' \<or> rz_Target z = ''browser'' \<and>
       (\<exists>t. answered_target ''npm'' (rz_Subject z) t before \<and> tr_State t \<noteq> ''unknown'' \<and> tr_State t \<noteq> ''failed''))"
  using guarded_member [OF Release_guarded [OF assms(1-4), unfolded assms(5)]]
  by (simp add: release_guard_def publish_ok_def)

text \<open>
  C11. A release is activated only when it is fully published and still approved. When a run
  sends the activation of a subject, both targets had been answered as succeeded for that
  subject, after that the approval of exactly this subject had been read again, and after that
  the catalog revision the activation is conditional on was the one answered.
\<close>

theorem Release_activates_published:
  assumes "Release rt q b lb inp w = Some (err, w')" "in_Settle inp = None" "timers_cancel rt" "trace w = []"
    and "trace w' = later @ Act c opts (Lifecycle (ActivateRelease z)) raw # before"
  shows "\<exists>newer e older. before = newer @ e # older \<and> approved_in z e \<and>
    (\<forall>name \<in> {''npm'', ''browser''}. \<exists>t. answered_target name (rz_Subject z) t older \<and> tr_State t = ''succeeded'') \<and>
    (\<exists>c opts. Act c opts (Lifecycle CatalogRevision) (Inr (RLifecycle (RString (rz_ExpectedCatalogRevision z)))) \<in> set newer)"
  using guarded_member [OF Release_guarded [OF assms(1-4), unfolded assms(5)]]
  by (simp add: release_guard_def activate_ok_def)

section \<open>The wait for the decision\<close>

text \<open>The calls of the wait: reads of this release's decision, and timers.\<close>

fun waiting_event :: "queues \<Rightarrow> bounds \<Rightarrow> string \<Rightarrow> event \<Rightarrow> bool" where
  "waiting_event q b release (Act c opts (Lifecycle (ReviewDecision r)) raw) \<longleftrightarrow> c = RunCtx \<and> opts = activityOptions q b \<and> r = release"
| "waiting_event q b release (Slept c d x) \<longleftrightarrow> c = RunCtx"
| "waiting_event q b release _ \<longleftrightarrow> False"

fun is_decision_read :: "event \<Rightarrow> bool" where
  "is_decision_read (Act _ _ (Lifecycle (ReviewDecision _)) _) \<longleftrightarrow> True"
| "is_decision_read _ \<longleftrightarrow> False"

lemma await_polls_waits:
  assumes "await_polls rt q b lb rel polls w = (r, w')"
  shows "extends (waiting_event q b (rk_ReleaseID (rl_Carry rel))) w w' \<and>
    int (count_events is_decision_read w') \<le> int (count_events is_decision_read w) + max 1 (ReleasePollsPerRun lb - polls)"
  using assms
proof (induction rt q b lb rel polls w rule: await_polls.induct)
  case (1 rt q b lb rel polls w)
  let ?P = "waiting_event q b (rk_ReleaseID (rl_Carry rel))"
  obtain res w1 where one: "get as_decision (exec rt RunCtx (activityOptions q b)
      (Lifecycle (ReviewDecision (rk_ReleaseID (rl_Carry rel)))) w) = (res, w1)" by fastforce
  have x1: "extends ?P w w1" by (rule extends_get_exec [OF one]) simp
  have n1: "count_events is_decision_read w1 = Suc (count_events is_decision_read w)"
    using trace_get_exec [OF one] by (auto simp: count_events_def)
  show ?case
  proof (cases "rt_ctx_err rt RunCtx (est w)")
    case True
    then show ?thesis using 1(2) by (simp add: await_polls.simps)
  next
    case running: False
    show ?thesis
    proof (cases res)
      case (Inl err)
      then have "w' = w1" using 1(2) running one by (auto simp: await_polls.simps split: if_splits)
      then show ?thesis using x1 n1 by simp
    next
      case (Inr d)
      obtain x w2 where sl: "sleep rt RunCtx (min (ReleaseApprovalPoll lb) (rk_ApprovalDeadline (rl_Carry rel) - now rt w1)) w1 = (x, w2)"
        by fastforce
      have x2: "extends ?P w w2" by (rule extends_trans [OF x1], rule extends_sleep [OF sl]) simp
      have n2: "count_events is_decision_read w2 = Suc (count_events is_decision_read w)"
        using n1 trace_sleep [OF sl] by (simp add: count_events_def)
      let ?ends = "dv_State d = ''approved'' \<or> dv_State d = ''rejected'' \<or> dv_State d = ''invalidated'' \<or>
        \<not> now rt w1 < rk_ApprovalDeadline (rl_Carry rel) \<or> polls + 1 \<ge> ReleasePollsPerRun lb"
      consider "w' = w1" | "w' = w2" | "\<not> ?ends" "x = None" "await_polls rt q b lb rel (polls + 1) w2 = (r, w')"
        using 1(2) running one Inr sl by (cases x) (auto simp: await_polls.simps split: if_splits)
      then show ?thesis
      proof cases
        case 3
        have "extends ?P w2 w' \<and> int (count_events is_decision_read w') \<le>
            int (count_events is_decision_read w2) + max 1 (ReleasePollsPerRun lb - (polls + 1))"
          by (rule 1(1) [OF running one [symmetric] Inr _ _ _ sl [symmetric] 3(2,3)]) (use 3(1) in auto)
        then show ?thesis using x2 n2 3(1) extends_trans [OF x2] by auto
      qed (use x1 x2 n1 n2 in auto)
    qed
  qed
qed

section \<open>Continuing as new\<close>

lemma release_review_ends: "release_review rt q b lb inp rel w = Some (flow, w') \<Longrightarrow> flow \<noteq> Continue carry"
  by (auto simp: release_review_def Let_def split: option.splits prod.splits bool.splits if_splits)

lemma release_prepare_ends: "release_prepare rt q b lb inp rel w = Some (flow, w') \<Longrightarrow> flow \<noteq> Continue carry"
  by (auto simp: release_prepare_def release_certify_def Let_def dest: release_review_ends
      split: option.splits prod.splits sum.splits bool.splits if_splits)

lemma release_decided_ends: "release_decided rt q b inp d rel w = Some (flow, w') \<Longrightarrow> flow \<noteq> Continue carry"
  by (auto simp: release_decided_def release_reject_def Let_def split: prod.splits bool.splits if_splits)

lemma release_await_continues:
  assumes "release_await rt q b lb inp rel w = Some (Continue carry, w')"
  shows "carry = rl_Carry rel \<and> extends (waiting_event q b (rk_ReleaseID carry)) w w' \<and>
    int (count_events is_decision_read w') \<le> int (count_events is_decision_read w) + max 1 (ReleasePollsPerRun lb)"
proof -
  obtain d code w1 where a: "await_polls rt q b lb rel 0 w = ((d, code), w1)" by (metis surj_pair)
  have "carry = rl_Carry rel \<and> w' = w1"
    using assms a by (auto simp: release_await_def awaitApproval_def Let_def dest: release_decided_ends split: if_splits)
  then show ?thesis using await_polls_waits [OF a] by simp
qed

lemma release_body_continues:
  assumes "release_body rt q b lb inp w = Some (Continue carry, w')"
  obtains rel v where "release_await rt q b lb inp rel v = Some (Continue carry, w')"
    "\<And>c. in_Release inp = Some c \<Longrightarrow> rel = release_start (Some c) \<and> v = w"
proof -
  let ?first = "case in_Release inp of None \<Rightarrow> release_prepare rt q b lb inp (release_start None) w
    | Some c \<Rightarrow> Some (Proceed (release_start (Some c)), w)"
  obtain flow v where first: "?first = Some (flow, v)" using assms by (cases ?first) (auto simp: release_body_def)
  then obtain rel where rel: "flow = Proceed rel"
    using assms by (cases flow) (auto simp: release_body_def dest: release_prepare_ends split: option.splits)
  obtain flow1 v1 where await: "release_await rt q b lb inp rel v = Some (flow1, v1)"
    using assms first rel by (cases "release_await rt q b lb inp rel v") (auto simp: release_body_def)
  have fresh: "fresh_run rel"
    using first rel release_prepare_does [of rt q b lb inp "release_start None" w]
    by (auto simp: fresh_run_def release_start_def split: option.splits)
  have "flow1 = Continue carry \<and> v1 = w'"
  proof (cases "\<exists>rel1. flow1 = Proceed rel1")
    case True
    then obtain rel1 where rel1: "flow1 = Proceed rel1" "fresh_run rel1"
      using release_await_does [OF await fresh] by auto
    then have "release_tail rt q b lb inp rel1 v1 = Some (Continue carry, w')"
      using assms first rel await by (simp add: release_body_def)
    with release_tail_does [OF this rel1(2)] show ?thesis by blast
  next
    case False
    then show ?thesis using assms first rel await by (cases flow1) (auto simp: release_body_def)
  qed
  then show thesis using that await first rel by (auto split: option.splits)
qed

lemma settle_end_continues:
  assumes "settle_end rt q b inp outcome failureCode phase w = Some (Some (ContinueAsNewError (ContinueLifecycle name i)), w')"
    and "timers_cancel rt"
  shows "in_Settle i \<noteq> None"
  using settle_loop_safe [OF assms(1) [unfolded settle_end_def settleOperation_def settleWith_def] assms(2)]
  by (auto simp: settle_result_def settle_continuation_def)

text \<open>
  The long wait loses nothing. When a run continues as new to go on waiting for the
  decision, the next run is the same release of the same operation and starts from the carry
  the run had: if the run itself started from a carry, it is passed on unchanged, the run did
  nothing but read this release's decision and wait, and it read it at most as often as its
  poll bound says.
\<close>

theorem Release_continues:
  assumes "Release rt q b lb inp w = Some (Some (ContinueAsNewError (ContinueLifecycle name inp')), w')"
    and "in_Settle inp = None" "in_Settle inp' = None" "timers_cancel rt"
  shows "\<exists>carry. name = ReleaseWorkflowName \<and> inp' = \<lparr>in_OperationID = in_OperationID inp, in_TenantID = in_TenantID inp,
      in_Release = Some carry, in_Settle = None, in_Close = None\<rparr> \<and>
    (in_Release inp = None \<or> in_Release inp = Some carry \<and> extends (waiting_event q b (rk_ReleaseID carry)) w w' \<and>
       int (count_events is_decision_read w') \<le> int (count_events is_decision_read w) + max 1 (ReleasePollsPerRun lb))"
  using assms(1,2)
proof (cases rule: Release_cases)
  case (continues carry)
  obtain rel v where await: "release_await rt q b lb inp rel v = Some (Continue carry, w')"
      "\<And>c. in_Release inp = Some c \<Longrightarrow> rel = release_start (Some c) \<and> v = upd (\<lambda>_. new_gstate) w"
    using release_body_continues [OF continues(1)] by blast
  note waits = release_await_continues [OF await(1)]
  show ?thesis
  proof (cases "in_Release inp")
    case None
    then show ?thesis using continues(2) by simp
  next
    case (Some c)
    then have start: "rel = release_start (Some c)" "v = upd (\<lambda>_. new_gstate) w" using await(2) by auto
    then have "carry = c" using waits by (simp add: release_start_def)
    moreover have "trace v = trace w" using start(2) by (simp add: upd_def)
    ultimately show ?thesis using Some continues(2) waits by (auto simp: extends_def count_events_def)
  qed
next
  case (settles rel flow w1)
  then show ?thesis using settle_end_continues [OF _ assms(4)] assms(3) by metis
qed


section \<open>The run returns\<close>

lemma effect_close_returns:
  assumes "rt_version rt pollChange = 1"
  shows "effect_close rt q b attempt res w \<noteq> None"
  using closeForSettlement_returns [OF assms] by (auto simp: effect_close_def Let_def simp del: not_None_eq split: sum.splits)

lemma releaseEffect_returns:
  assumes "rt_version rt pollChange = 1"
  shows "releaseEffect rt q b inp rel kind occurrence activity tgt publishTarget catalog w \<noteq> None"
  using effect_close_returns [OF assms] by (auto simp: releaseEffect_def simp del: not_None_eq split: sum.splits prod.splits option.splits)

lemma target_rounds_returns:
  assumes "rt_version rt pollChange = 1"
  shows "target_rounds rt q b lb inp name occurrence n rel w \<noteq> None"
proof (induction n arbitrary: rel w)
  case (Suc n)
  then show ?case using releaseEffect_returns [OF assms]
    by (auto simp: Let_def simp del: not_None_eq split: option.splits prod.splits)
qed simp

lemma activation_rounds_returns:
  assumes "rt_version rt pollChange = 1"
  shows "activation_rounds rt q b lb inp catalog first n r rel w \<noteq> None"
proof (induction n arbitrary: first r rel w)
  case (Suc n)
  then show ?case using releaseEffect_returns [OF assms]
    by (auto simp: Let_def simp del: not_None_eq split: option.splits prod.splits)
qed simp

lemma release_tail_returns:
  assumes "rt_version rt pollChange = 1"
  shows "release_tail rt q b lb inp rel w \<noteq> None"
proof -
  note effect = releaseEffect_returns [OF assms]
  have turn: "release_target_turn rt q b lb inp name occurrence r v \<noteq> None" for name occurrence r v
    using effect target_rounds_returns [OF assms]
    by (auto simp: release_target_turn_def target_settled_def Let_def simp del: not_None_eq split: option.splits prod.splits bool.splits)
  have targets: "release_targets rt q b lb inp r v \<noteq> None" for r v
    using turn by (auto simp: release_targets_def simp del: not_None_eq split: option.splits prod.splits release_flow.splits)
  have activate: "release_activate rt q b lb inp r v \<noteq> None" for r v
    using effect activation_rounds_returns [OF assms]
    by (auto simp: release_activate_def Let_def simp del: not_None_eq split: option.splits prod.splits sum.splits)
  show ?thesis using targets activate
    by (auto simp: release_tail_def simp del: not_None_eq split: option.splits prod.splits release_flow.splits)
qed

lemma Release_total:
  assumes "advancing rt" "rt_version rt pollChange = 1" "0 < ReconcileInitialInterval b" "0 < ReconcileMaxInterval b"
    and "in_Settle inp = None"
  shows "Release rt q b lb inp w \<noteq> None"
proof -
  have review: "release_review rt q b lb inp rel v \<noteq> None" for rel v
    using releaseEffect_returns [OF assms(2)]
    by (auto simp: release_review_def Let_def simp del: not_None_eq split: option.splits prod.splits bool.splits)
  have certify: "release_certify rt q b lb inp rel component v \<noteq> None" for rel component v
    using review runJobStep_total [OF assms(1-4)]
    by (auto simp: release_certify_def simp del: not_None_eq split: option.splits prod.splits sum.splits)
  have prepare: "release_prepare rt q b lb inp rel v \<noteq> None" for rel v
    using certify by (auto simp: release_prepare_def Let_def simp del: not_None_eq split: option.splits prod.splits sum.splits bool.splits)
  have decided: "release_decided rt q b inp d rel v \<noteq> None" for d rel v
    by (auto simp: release_decided_def release_reject_def Let_def split: prod.splits bool.splits)
  have await: "release_await rt q b lb inp rel v \<noteq> None" for rel v
    using decided by (auto simp: release_await_def Let_def simp del: not_None_eq split: prod.splits)
  have "release_body rt q b lb inp v \<noteq> None" for v
    using prepare await release_tail_returns [OF assms(2)]
    by (auto simp: release_body_def simp del: not_None_eq split: option.splits prod.splits release_flow.splits)
  then show ?thesis using assms(5) settle_end_returns [OF assms(2)]
    by (auto simp: Release_def simp del: not_None_eq split: option.splits prod.splits release_flow.splits)
qed



section \<open>Examples\<close>

definition example_carry :: release_carry where
  "example_carry = no_carry\<lparr>rk_Revision := 2, rk_ReleaseID := ''rel_1'', rk_ApprovalDeadline := 60 * minute,
     rk_Built := \<lparr>bs_Subject = no_subject\<lparr>rs_SubjectDigest := ''sha256:z''\<rparr>,
       bs_Artifacts = \<lparr>rf_Npm = zero_artifact, rf_Browser = zero_artifact, rf_CSS = []\<rparr>\<rparr>\<rparr>"

definition waiting_release :: input where
  "waiting_release = example_input\<lparr>in_Release := Some example_carry\<rparr>"

definition decision :: "string \<Rightarrow> wf_error + response" where
  "decision state = Inr (RLifecycle (RDecision (no_decision\<lparr>dv_State := state, dv_SubjectDigest := ''sha256:z''\<rparr>)))"

definition effect_answer :: "string \<Rightarrow> wf_error + response" where
  "effect_answer state = Inr (RLifecycle (RReleaseEffect (no_effect\<lparr>rx_State := state, rx_Target := no_target\<lparr>tr_State := state\<rparr>\<rparr>)))"

definition closed_answer :: "wf_error + response" where
  "closed_answer = Inr (RClose \<lparr>cr_Lifecycle = ''completed''\<rparr>)"

definition revision_answer :: "nat \<Rightarrow> wf_error + response" where
  "revision_answer n = Inr (RLifecycle (RRevision n))"

definition settled_answer :: "wf_error + response" where
  "settled_answer = Inr (ROperation \<lparr>op_Lifecycle = ''completed'', op_Phase = '''', op_Revision = ''''\<rparr>)"

text \<open>The answers to an approved release whose npm publication is answered as unknown first.\<close>

definition release_answers :: "(wf_error + response) \<Rightarrow> (wf_error + response) list" where
  "release_answers found =
     [decision ''approved'', revision_answer 3,
      decision ''approved'', Inr (RAttempt example_attempt), effect_answer ''unknown'', closed_answer, revision_answer 4,
      Inr (RAttempt example_attempt), effect_answer ''succeeded'', closed_answer, found,
      decision ''approved'', Inr (RAttempt example_attempt), effect_answer ''succeeded'', closed_answer, revision_answer 6,
      decision ''approved'', Inr (RLifecycle (RString ''cat1'')), Inr (RAttempt example_attempt), effect_answer ''succeeded'',
      closed_answer, revision_answer 7, settled_answer]"

text \<open>A run of one poll and one query round.\<close>

definition one_poll :: lifecycle_bounds where
  "one_poll = example_lifecycle\<lparr>ReleasePollsPerRun := 1, ReleaseReconcileRounds := 1\<rparr>"

lemmas release_eval = Release_def release_body_def release_start_def release_await_def awaitApproval_def await_polls.simps
  release_decided_def release_record_def release_input_def release_tail_def release_targets_def release_target_turn_def
  target_def set_target_def target_rounds.simps target_settled_def targetOf_def publicationState_def stillApproved_def
  releaseEffect_def effect_open_def effect_call_def effect_close_def effectOptions_def closeForSettlement_def
  closeAttemptFrom_def close_loop.simps close_waits_def close_input_def release_published_def release_activate_def
  activation_rounds.simps release_activated_def with_outcome_def context_outcome_def settleOutcome_def
  settle_end_def settleOperation_def settleWith_def settle_loop.simps settle_input_def

lemmas release_setup = one_poll_def approval_of_def release_answers_def decision_def effect_answer_def closed_answer_def revision_answer_def settled_answer_def
  waiting_release_def example_input_def example_carry_def no_carry_def no_subject_def no_decision_def no_effect_def no_target_def
  pending_target_def example_attempt_def example_lifecycle_def example_bounds_def with_gstate_def new_gstate_def upd_def script_simps

definition release_start_world :: "(wf_error + response) \<Rightarrow> (script \<times> gstate) world" where
  "release_start_world found = with_gstate (start_world (release_answers found))"

text \<open>The sends of a mutation in a trace.\<close>

fun sends_publication :: "event \<Rightarrow> bool" where
  "sends_publication (Act c opts (Lifecycle (PublishTarget z)) raw) \<longleftrightarrow> True"
| "sends_publication _ \<longleftrightarrow> False"

fun sends_activation :: "event \<Rightarrow> bool" where
  "sends_activation (Act c opts (Lifecycle (ActivateRelease z)) raw) \<longleftrightarrow> True"
| "sends_activation _ \<longleftrightarrow> False"

lemma sends_publication_iff: "sends_publication e \<longleftrightarrow> (\<exists>c opts z raw. e = Act c opts (Lifecycle (PublishTarget z)) raw)"
  by (cases e rule: sends_publication.cases) auto

lemma sends_activation_iff: "sends_activation e \<longleftrightarrow> (\<exists>c opts z raw. e = Act c opts (Lifecycle (ActivateRelease z)) raw)"
  by (cases e rule: sends_activation.cases) auto

lemma example_release:
  "\<exists>w'. Release (beside scripted) example_queues example_bounds one_poll waiting_release
      (release_start_world (revision_answer 5)) = Some (None, w') \<and>
    list_ex sends_publication (trace w') \<and> list_ex sends_activation (trace w')"
  by (simp add: release_start_world_def release_eval release_setup Let_def)

lemma release_start_facts [simp]:
  "in_Settle waiting_release = None" "trace (release_start_world found) = []"
  by (simp_all add: waiting_release_def example_input_def release_start_world_def with_gstate_def start_world_def)

lemma release_timers: "timers_cancel (beside scripted)"
  by (rule beside_timers [OF scripted_timers])

theorem Release_publishes_approved_witness:
  "\<exists>w' later c opts z raw before. Release (beside scripted) example_queues example_bounds one_poll waiting_release
      (release_start_world (revision_answer 5)) = Some (None, w') \<and>
    trace w' = later @ Act c opts (Lifecycle (PublishTarget z)) raw # before \<and> (\<exists>e \<in> set before. approved_in z e)"
proof -
  obtain w' where run: "Release (beside scripted) example_queues example_bounds one_poll waiting_release
      (release_start_world (revision_answer 5)) = Some (None, w')" and "list_ex sends_publication (trace w')"
    using example_release by blast
  then obtain e where "e \<in> set (trace w')" "sends_publication e" by (auto simp: list_ex_iff)
  then obtain c opts z raw later before where tr: "trace w' = later @ Act c opts (Lifecycle (PublishTarget z)) raw # before"
    by (auto simp: sends_publication_iff dest: split_list)
  from Release_publishes_approved [OF run release_start_facts(1) release_timers release_start_facts(2) tr] run tr
  show ?thesis by blast
qed

theorem Release_activates_published_witness:
  "\<exists>w' later c opts z raw newer e older. Release (beside scripted) example_queues example_bounds one_poll waiting_release
      (release_start_world (revision_answer 5)) = Some (None, w') \<and>
    trace w' = later @ Act c opts (Lifecycle (ActivateRelease z)) raw # newer @ e # older \<and> approved_in z e"
proof -
  obtain w' where run: "Release (beside scripted) example_queues example_bounds one_poll waiting_release
      (release_start_world (revision_answer 5)) = Some (None, w')" and "list_ex sends_activation (trace w')"
    using example_release by blast
  then obtain e where "e \<in> set (trace w')" "sends_activation e" by (auto simp: list_ex_iff)
  then obtain c opts z raw later before where tr: "trace w' = later @ Act c opts (Lifecycle (ActivateRelease z)) raw # before"
    by (auto simp: sends_activation_iff dest: split_list)
  from Release_activates_published [OF run release_start_facts(1) release_timers release_start_facts(2) tr] run tr
  show ?thesis by blast
qed

lemma example_waiting:
  "\<exists>w'. Release (beside scripted) example_queues example_bounds one_poll waiting_release
      (with_gstate (start_world [decision ''pending''])) =
    Some (Some (ContinueAsNewError (ContinueLifecycle ReleaseWorkflowName waiting_release)), w')"
  by (simp add: release_eval release_setup Let_def)

theorem Release_continues_witness:
  "\<exists>w'. Release (beside scripted) example_queues example_bounds one_poll waiting_release
      (with_gstate (start_world [decision ''pending''])) =
    Some (Some (ContinueAsNewError (ContinueLifecycle ReleaseWorkflowName waiting_release)), w') \<and>
    (\<exists>carry. in_Release waiting_release = Some carry \<and>
      int (count_events is_decision_read w') \<le> int (count_events is_decision_read (with_gstate (start_world [decision ''pending'']))) + 1)"
proof -
  obtain w' where run: "Release (beside scripted) example_queues example_bounds one_poll waiting_release
      (with_gstate (start_world [decision ''pending''])) =
    Some (Some (ContinueAsNewError (ContinueLifecycle ReleaseWorkflowName waiting_release)), w')" using example_waiting by blast
  have "in_Release waiting_release = Some example_carry" "ReleasePollsPerRun one_poll = 1"
    by (simp_all add: waiting_release_def one_poll_def)
  then show ?thesis
    using run Release_continues [OF run release_start_facts(1) release_start_facts(1) release_timers] by auto
qed


text \<open>
  A refused record of a query round is ignored by the run, but leaves its failure code: the
  settlement then states success together with the code.
\<close>

lemma ignored_record_code:
  "\<exists>w' opts raw inp. Release (beside scripted) example_queues example_bounds one_poll waiting_release
      (release_start_world (Inl (Refused ''CONTROL_BUSY''))) = Some (None, w') \<and>
    hd (trace w') = Act Disconnected opts (SettleOperation inp) raw \<and> so_Outcome inp = ''succeeded'' \<and>
    so_FailureCode inp = ''CONTROL_BUSY''"
  by (simp add: release_start_world_def release_eval release_setup Refused_def Let_def)

end
