(* ===== verification/Lease.thy ===== *)
theory Lease
  imports Outcomes
begin

text \<open>
  The lease of a generation (\<open>leaseInput\<close>, \<open>recordLease\<close>, \<open>acquireLease\<close>,
  \<open>superviseLease\<close> and \<open>releaseLease\<close> in \<^verbatim>\<open>internal/workflows/generation.go\<close>).
  The supervisor is a coroutine of its own beside the run: it works on the shared control
  record, and every call it blocks in may find the record changed by the run.
\<close>

section \<open>Calls\<close>

definition leaseInput :: "input \<Rightarrow> generation_view \<Rightarrow> gstate \<Rightarrow> lifecycle_bounds \<Rightarrow> lease_input" where
  "leaseInput inp view g lb =
     \<lparr>le_OperationID = in_OperationID inp, le_TenantID = in_TenantID inp,
      le_Subject = ''source:'' @ in_TenantID inp @ ''/'' @ gv_SubjectDigest view, le_Owner = in_OperationID inp,
      le_Occurrence = gn_occurrence g, le_LeaseID = ls_LeaseID (gn_lease g), le_Fence = ls_Fence (gn_lease g),
      le_TTL = LeaseTTL lb\<rparr>"

definition record_input :: "input \<Rightarrow> nat \<Rightarrow> lease_result \<Rightarrow> string \<Rightarrow> record_lease_input" where
  "record_input inp occurrence res stateName =
     \<lparr>rl_OperationID = in_OperationID inp, rl_TenantID = in_TenantID inp,
      rl_CommandID = in_OperationID inp @ '':lease:'' @ show_nat occurrence, rl_Occurrence = occurrence,
      rl_State = stateName, rl_LeaseID = lt_LeaseID res, rl_Fence = lt_Fence res, rl_ExpiresAt = lt_ExpiresAt res\<rparr>"

definition recordLease :: "'e runtime \<Rightarrow> wctx \<Rightarrow> queues \<Rightarrow> bounds \<Rightarrow> input \<Rightarrow> nat \<Rightarrow> lease_result \<Rightarrow> string \<Rightarrow>
    'e world \<Rightarrow> (wf_error + lease_record) \<times> 'e world" where
  "recordLease rt c q b inp occurrence res stateName w =
     get as_lease_record (exec rt c (controlOptions q b) (RecordLease (record_input inp occurrence res stateName)) w)"

definition lease_call :: "'e runtime \<Rightarrow> wctx \<Rightarrow> queues \<Rightarrow> bounds \<Rightarrow> lifecycle_bounds \<Rightarrow> (lease_input \<Rightarrow> request) \<Rightarrow> lease_input \<Rightarrow>
    'e world \<Rightarrow> (wf_error + lease_result) \<times> 'e world" where
  "lease_call rt c q b lb kind li w = get as_lease_result (exec rt c (leaseOptions q b lb) (kind li) w)"

text \<open>The lease the record of this run knows, as a result.\<close>

definition known_result :: "gstate \<Rightarrow> lease_result" where
  "known_result g = no_lease_result\<lparr>lt_LeaseID := ls_LeaseID (gn_lease g), lt_Fence := ls_Fence (gn_lease g)\<rparr>"

section \<open>Acquisition\<close>

definition acquire_query :: "('e \<times> gstate) runtime \<Rightarrow> queues \<Rightarrow> bounds \<Rightarrow> lifecycle_bounds \<Rightarrow> input \<Rightarrow> generation_view \<Rightarrow>
    lease_result \<Rightarrow> ('e \<times> gstate) world \<Rightarrow> lease_result \<times> ('e \<times> gstate) world" where
  "acquire_query rt q b lb inp view res w =
     (if lt_State res = ''unknown''
      then (case lease_call rt RunCtx q b lb QueryLease (leaseInput inp view (gst w) lb) w of
          (Inl err, w1) \<Rightarrow> (res, w1)
        | (Inr queried, w1) \<Rightarrow> (queried, w1))
      else (res, w))"

definition acquireLease :: "('e \<times> gstate) runtime \<Rightarrow> queues \<Rightarrow> bounds \<Rightarrow> lifecycle_bounds \<Rightarrow> input \<Rightarrow> generation_view \<Rightarrow>
    ('e \<times> gstate) world \<Rightarrow> string \<times> ('e \<times> gstate) world" where
  "acquireLease rt q b lb inp view w =
     (let w0 = upd (\<lambda>g. g\<lparr>gn_occurrence := 1\<rparr>) w in
      if ls_State (gv_Lease view) = ''held'' \<and> (\<exists>at. ls_ExpiresAt (gv_Lease view) = Some at \<and> at > now rt w0)
      then ('''', upd (\<lambda>g. g\<lparr>gn_lease := gv_Lease view, gn_occurrence := ls_Occurrence (gv_Lease view)\<rparr>) w0)
      else case lease_call rt RunCtx q b lb AcquireLease (leaseInput inp view (gst w0) lb) w0 of
          (Inl err, w1) \<Rightarrow> (''LEASE_UNAVAILABLE'', w1)
        | (Inr answered, w1) \<Rightarrow>
            (case acquire_query rt q b lb inp view answered w1 of
               (res, w2) \<Rightarrow>
                 if lt_State res \<noteq> ''held'' then (''LEASE_UNAVAILABLE'', w2)
                 else (case recordLease rt RunCtx q b inp (gn_occurrence (gst w2)) res ''held'' w2 of
                     (Inl err, w3) \<Rightarrow> (firstNonEmpty [RefusalCode (Some err), ''LEASE_UNAVAILABLE''], w3)
                   | (Inr rec, w3) \<Rightarrow> ('''', upd (\<lambda>g. g\<lparr>gn_lease := rec\<rparr>) w3))))"

section \<open>Supervision\<close>

text \<open>
  The supervisor's fence: new sends are over, the work context is canceled (\<open>cancel\<close>, the
  function the SDK gave), and the loss is recorded under the current occurrence.
\<close>

definition cancel_work :: "('e \<Rightarrow> 'e) \<Rightarrow> ('e \<times> gstate) world \<Rightarrow> ('e \<times> gstate) world" where
  "cancel_work cancel w = w\<lparr>est := apfst cancel (est w)\<rparr>"

definition lease_fence :: "('e \<times> gstate) runtime \<Rightarrow> ('e \<Rightarrow> 'e) \<Rightarrow> queues \<Rightarrow> bounds \<Rightarrow> input \<Rightarrow> string \<Rightarrow> lease_result \<Rightarrow>
    ('e \<times> gstate) world \<Rightarrow> ('e \<times> gstate) world" where
  "lease_fence rt cancel q b inp code res w =
     (let w1 = cancel_work cancel (upd (\<lambda>g. g\<lparr>gn_fenced := True, gn_fenceCode := code\<rparr>) w)
      in snd (recordLease rt Disconnected q b inp (gn_occurrence (gst w1)) res ''lost'' w1))"

text \<open>\<open>lb.LeaseRenewLead/2\<close>: integer division rounds towards zero.\<close>

definition half :: "duration \<Rightarrow> duration" where
  "half d = (if d \<ge> 0 then d div 2 else - ((- d) div 2))"

text \<open>A turn of the loop after a renewal: the lease is over for the supervisor, or it goes on.\<close>

datatype turn = Ended | Again

definition supervise_query :: "('e \<times> gstate) runtime \<Rightarrow> wctx \<Rightarrow> queues \<Rightarrow> bounds \<Rightarrow> lifecycle_bounds \<Rightarrow> lease_input \<Rightarrow>
    lease_result \<Rightarrow> ('e \<times> gstate) world \<Rightarrow> lease_result \<times> ('e \<times> gstate) world" where
  "supervise_query rt c q b lb li res w =
     (if lt_State res = ''unknown''
      then (case lease_call rt c q b lb QueryLease li w of
          (Inl err, w1) \<Rightarrow> (res, w1)
        | (Inr queried, w1) \<Rightarrow> (if lt_State queried \<noteq> ''unknown'' then queried else res, w1))
      else (res, w))"

definition supervise_renewed :: "('e \<times> gstate) runtime \<Rightarrow> ('e \<Rightarrow> 'e) \<Rightarrow> wctx \<Rightarrow> queues \<Rightarrow> bounds \<Rightarrow> lifecycle_bounds \<Rightarrow> input \<Rightarrow>
    time \<Rightarrow> lease_result \<Rightarrow> ('e \<times> gstate) world \<Rightarrow> turn \<times> ('e \<times> gstate) world" where
  "supervise_renewed rt cancel c q b lb inp known res w =
     (if lt_State res = ''held''
      then (case recordLease rt c q b inp (gn_occurrence (gst w)) res ''held'' w of
          (Inl err, w1) \<Rightarrow>
            (Ended, if IsCanceledError (Some err) \<or> rt_ctx_err rt c (est w1) then w1
                    else lease_fence rt cancel q b inp (firstNonEmpty [RefusalCode (Some err), ''LEASE_LOST'']) res w1)
        | (Inr rec, w1) \<Rightarrow> (Again, upd (\<lambda>g. g\<lparr>gn_lease := rec\<rparr>) w1))
      else if lt_State res = ''lost'' then (Ended, lease_fence rt cancel q b inp ''LEASE_LOST'' res w)
      else if \<not> now rt w < known then (Ended, lease_fence rt cancel q b inp ''LEASE_EXPIRED'' (known_result (gst w)) w)
      else (case sleep rt c (min (half (LeaseRenewLead lb)) (known - now rt w)) w of
          (Some err, w1) \<Rightarrow> (Ended, w1)
        | (None, w1) \<Rightarrow> (Again, w1)))"

definition supervise_turn :: "('e \<times> gstate) runtime \<Rightarrow> ('e \<Rightarrow> 'e) \<Rightarrow> wctx \<Rightarrow> queues \<Rightarrow> bounds \<Rightarrow> lifecycle_bounds \<Rightarrow> input \<Rightarrow>
    generation_view \<Rightarrow> ('e \<times> gstate) world \<Rightarrow> turn \<times> ('e \<times> gstate) world" where
  "supervise_turn rt cancel c q b lb inp view w =
     (case ls_ExpiresAt (gn_lease (gst w)) of
        None \<Rightarrow> (Ended, lease_fence rt cancel q b inp ''LEASE_LOST'' (known_result (gst w)) w)
      | Some known \<Rightarrow>
          (let pause = known - now rt w - LeaseRenewLead lb in
           case (if pause > 0 then sleep rt c pause w else (None, w)) of
             (Some err, w1) \<Rightarrow> (Ended, w1)
           | (None, w1) \<Rightarrow>
               if gn_done (gst w1) then (Ended, w1)
               else (let w2 = upd (\<lambda>g. g\<lparr>gn_occurrence := gn_occurrence g + 1\<rparr>) w1;
                         li = leaseInput inp view (gst w2) lb
                 in case lease_call rt c q b lb RenewLease li w2 of
                      (Inl err, w3) \<Rightarrow>
                        if IsCanceledError (Some err) \<or> rt_ctx_err rt c (est w3) then (Ended, w3)
                        else (case supervise_query rt c q b lb li
                                 (no_lease_result\<lparr>lt_State := ''unknown'', lt_Reason := ''RENEW_FAILED''\<rparr>) w3 of
                            (res, w4) \<Rightarrow> supervise_renewed rt cancel c q b lb inp known res w4)
                    | (Inr answered, w3) \<Rightarrow>
                        (case supervise_query rt c q b lb li answered w3 of
                           (res, w4) \<Rightarrow> supervise_renewed rt cancel c q b lb inp known res w4))))"

partial_function (option) superviseLease :: "('e \<times> gstate) runtime \<Rightarrow> ('e \<Rightarrow> 'e) \<Rightarrow> wctx \<Rightarrow> queues \<Rightarrow> bounds \<Rightarrow> lifecycle_bounds \<Rightarrow> input \<Rightarrow>
    generation_view \<Rightarrow> ('e \<times> gstate) world \<Rightarrow> ('e \<times> gstate) world option" where
  "superviseLease rt cancel c q b lb inp view w =
     (if gn_done (gst w) \<or> gn_fenced (gst w) then Some w
      else case supervise_turn rt cancel c q b lb inp view w of
          (Ended, w1) \<Rightarrow> Some w1
        | (Again, w1) \<Rightarrow> superviseLease rt cancel c q b lb inp view w1)"

section \<open>Release\<close>

definition lease_over :: "lease_result \<Rightarrow> bool" where
  "lease_over res \<longleftrightarrow> lt_State res = ''lost'' \<or> lt_State res = ''released''"

definition lease_answer :: "(wf_error + lease_result) \<Rightarrow> lease_result" where
  "lease_answer r = (case r of Inl err \<Rightarrow> no_lease_result\<lparr>lt_State := ''unknown''\<rparr> | Inr res \<Rightarrow> res)"

text \<open>The queries of the original occurrence, paced and bounded.\<close>

definition lease_query :: "'e runtime \<Rightarrow> wctx \<Rightarrow> queues \<Rightarrow> bounds \<Rightarrow> lifecycle_bounds \<Rightarrow> lease_input \<Rightarrow> 'e world \<Rightarrow>
    lease_result option option \<times> 'e world" where
  "lease_query rt c q b lb li w =
     (case lease_call rt c q b lb QueryLease li w of
        (r, w1) \<Rightarrow> (if lease_over (lease_answer r) then Some (Some (lease_answer r)) else None, w1))"

partial_function (option) lease_queries :: "'e runtime \<Rightarrow> wctx \<Rightarrow> queues \<Rightarrow> bounds \<Rightarrow> lifecycle_bounds \<Rightarrow> lease_input \<Rightarrow>
    poller \<Rightarrow> 'e world \<Rightarrow> (lease_result option \<times> 'e world) option" where
  "lease_queries rt c q b lb li p w =
     (case lease_query rt c q b lb li w of
        (Some r, w1) \<Rightarrow> Some (r, w1)
      | (None, w1) \<Rightarrow>
          if exhausted rt p w1 then Some (None, w1)
          else (case wait rt c p w1 of
              (Some err, p1, w2) \<Rightarrow> Some (None, w2)
            | (None, p1, w2) \<Rightarrow> lease_queries rt c q b lb li p1 w2))"

definition release_confirmed :: "lease_result \<Rightarrow> string" where
  "release_confirmed res = (if lt_State res = ''released'' \<or> lt_Reason res = ''RELEASED'' then ''released'' else ''lost'')"

text \<open>
  The loop over \<open>res\<close> with its first turn, that of the answer to the release itself, taken out.
\<close>

definition release_end :: "('e \<times> gstate) runtime \<Rightarrow> wctx \<Rightarrow> queues \<Rightarrow> bounds \<Rightarrow> lifecycle_bounds \<Rightarrow> lease_input \<Rightarrow> lease_result \<Rightarrow>
    ('e \<times> gstate) world \<Rightarrow> (lease_result option \<times> ('e \<times> gstate) world) option" where
  "release_end rt c q b lb li res w =
     (let p = newPoller rt b 0 in
      if lease_over res then Some (Some res, w)
      else if exhausted rt p w then Some (None, w)
      else case wait rt c p w of
          (Some err, p1, w1) \<Rightarrow> Some (None, w1)
        | (None, p1, w1) \<Rightarrow> lease_queries rt c q b lb li p1 w1)"

definition releaseLease :: "('e \<times> gstate) runtime \<Rightarrow> wctx \<Rightarrow> queues \<Rightarrow> bounds \<Rightarrow> lifecycle_bounds \<Rightarrow> input \<Rightarrow> generation_view \<Rightarrow>
    ('e \<times> gstate) world \<Rightarrow> ('e \<times> gstate) world option" where
  "releaseLease rt c q b lb inp view w =
     (if ls_LeaseID (gn_lease (gst w)) = '''' \<or> gn_fenced (gst w) then Some w
      else (let w1 = upd (\<lambda>g. g\<lparr>gn_occurrence := gn_occurrence g + 1\<rparr>) w;
                li = leaseInput inp view (gst w1) lb in
        case lease_call rt c q b lb ReleaseLease li w1 of
          (r, w2) \<Rightarrow>
            (case release_end rt c q b lb li (lease_answer r) w2 of
               None \<Rightarrow> None
             | Some (None, w3) \<Rightarrow> Some w3
             | Some (Some res, w3) \<Rightarrow>
                 Some (snd (recordLease rt c q b inp (gn_occurrence (gst w3)) (known_result (gst w3)) (release_confirmed res) w3)))))"

section \<open>What the supervisor relies on\<close>

definition lease_fields :: "gstate \<Rightarrow> lease_record \<times> nat \<times> bool \<times> string" where
  "lease_fields g = (gn_lease g, gn_occurrence g, gn_fenced g, gn_fenceCode g)"

text \<open>
  While the supervisor waits, the run leaves the lease of the record to it: the run touches
  the lease again only after it canceled the supervisor's context. Under a canceled context a
  call is answered as canceled and a timer ends; a context stays canceled, also when the work
  context is canceled, and neither it nor the clock depends on the control record.
\<close>

definition supervised :: "('e \<times> gstate) runtime \<Rightarrow> ('e \<Rightarrow> 'e) \<Rightarrow> wctx \<Rightarrow> bool" where
  "supervised rt cancel c \<longleftrightarrow>
     (\<forall>c' opts r s res s'. rt_perform rt c' opts r s = (res, s') \<longrightarrow>
        (lease_fields (snd s') = lease_fields (snd s) \<or> rt_ctx_err rt c s') \<and>
        (rt_ctx_err rt c s \<longrightarrow> rt_ctx_err rt c s' \<and> (c' = c \<longrightarrow> res = Inl CanceledError))) \<and>
     (\<forall>d s x s'. rt_sleep rt c d s = (x, s') \<longrightarrow>
        (lease_fields (snd s') = lease_fields (snd s) \<or> rt_ctx_err rt c s') \<and>
        (rt_ctx_err rt c s \<longrightarrow> rt_ctx_err rt c s' \<and> x = Some CanceledError)) \<and>
     (\<forall>e g g'. rt_ctx_err rt c (e, g') = rt_ctx_err rt c (e, g) \<and> rt_ctx_err rt c (cancel e, g) = rt_ctx_err rt c (e, g) \<and>
        rt_now rt (e, g') = rt_now rt (e, g))"

abbreviation canceled :: "('e \<times> gstate) runtime \<Rightarrow> wctx \<Rightarrow> ('e \<times> gstate) world \<Rightarrow> bool" where
  "canceled rt c w \<equiv> rt_ctx_err rt c (est w)"

abbreviation leases :: "('e \<times> gstate) world \<Rightarrow> lease_record \<times> nat \<times> bool \<times> string" where
  "leases w \<equiv> lease_fields (gst w)"

lemma supervised_get:
  assumes "supervised rt cancel c" "get d (exec rt c' opts r w) = (res, w')"
  shows "leases w' = leases w \<or> canceled rt c w'" "canceled rt c w \<Longrightarrow> canceled rt c w'"
    "canceled rt c w \<Longrightarrow> c' = c \<Longrightarrow> res = Inl CanceledError"
    "\<exists>raw. trace w' = Act c' opts r raw # trace w \<and> res = decode d raw \<and> (canceled rt c w \<and> c' = c \<longrightarrow> raw = Inl CanceledError)"
proof -
  obtain raw where raw: "trace w' = Act c' opts r raw # trace w" "res = decode d raw"
      "rt_perform rt c' opts r (est w) = (raw, est w')" using trace_get_exec [OF assms(2)] by blast
  have law: "(lease_fields (snd (est w')) = lease_fields (snd (est w)) \<or> rt_ctx_err rt c (est w')) \<and>
      (rt_ctx_err rt c (est w) \<longrightarrow> rt_ctx_err rt c (est w') \<and> (c' = c \<longrightarrow> raw = Inl CanceledError))"
    by (rule assms(1) [unfolded supervised_def, THEN conjunct1, rule_format, OF raw(3)])
  show "leases w' = leases w \<or> canceled rt c w'" "canceled rt c w \<Longrightarrow> canceled rt c w'"
    using law by (auto simp: gst_def)
  show "canceled rt c w \<Longrightarrow> c' = c \<Longrightarrow> res = Inl CanceledError" using law raw(2) by simp
  show "\<exists>raw. trace w' = Act c' opts r raw # trace w \<and> res = decode d raw \<and> (canceled rt c w \<and> c' = c \<longrightarrow> raw = Inl CanceledError)"
    using raw law by blast
qed

lemma supervised_sleep:
  assumes "supervised rt cancel c" "sleep rt c d w = (x, w')"
  shows "leases w' = leases w \<or> canceled rt c w'" "canceled rt c w \<Longrightarrow> canceled rt c w' \<and> x = Some CanceledError"
proof -
  have s: "rt_sleep rt c d (est w) = (x, est w')" using assms(2) by (auto simp: sleep_def split: prod.splits)
  have law: "(lease_fields (snd (est w')) = lease_fields (snd (est w)) \<or> rt_ctx_err rt c (est w')) \<and>
      (rt_ctx_err rt c (est w) \<longrightarrow> rt_ctx_err rt c (est w') \<and> x = Some CanceledError)"
    by (rule assms(1) [unfolded supervised_def, THEN conjunct2, THEN conjunct1, rule_format, OF s])
  show "leases w' = leases w \<or> canceled rt c w'" "canceled rt c w \<Longrightarrow> canceled rt c w' \<and> x = Some CanceledError"
    using law by (auto simp: gst_def)
qed

lemma supervised_upd [simp]:
  assumes "supervised rt cancel c"
  shows "canceled rt c (upd f w) = canceled rt c w" "canceled rt c (cancel_work cancel w) = canceled rt c w"
    "now rt (upd f w) = now rt w"
proof -
  note law = assms [unfolded supervised_def, THEN conjunct2, THEN conjunct2, rule_format]
  show "canceled rt c (upd f w) = canceled rt c w" "now rt (upd f w) = now rt w"
    using law [of "fst (est w)" "f (snd (est w))" "snd (est w)"] by (simp_all add: upd_def)
  show "canceled rt c (cancel_work cancel w) = canceled rt c w"
    using law [of "fst (est w)" "snd (est w)" "snd (est w)"] by (simp add: cancel_work_def apfst_def map_prod_def split_beta)
qed

lemma cancel_work_simps [simp]: "gst (cancel_work cancel w) = gst w" "trace (cancel_work cancel w) = trace w"
  by (simp_all add: cancel_work_def gst_def)

section \<open>What the supervisor does\<close>

text \<open>The occurrences renewed in a trace, newest first, and a renewal or its query answered as held.\<close>

fun renewal :: "event \<Rightarrow> nat option" where
  "renewal (Act _ _ (RenewLease li) _) = Some (le_Occurrence li)"
| "renewal _ = None"

definition renewals :: "event list \<Rightarrow> nat list" where
  "renewals es = List.map_filter renewal es"

definition answered_held :: "nat \<Rightarrow> lease_result \<Rightarrow> event list \<Rightarrow> bool" where
  "answered_held n res es \<longleftrightarrow> lt_State res = ''held'' \<and>
     (\<exists>c opts li. le_Occurrence li = n \<and>
        (Act c opts (RenewLease li) (Inr (RLeaseResult res)) \<in> set es \<or> Act c opts (QueryLease li) (Inr (RLeaseResult res)) \<in> set es))"

fun lease_guard :: "input \<Rightarrow> event list \<Rightarrow> event \<Rightarrow> bool" where
  "lease_guard inp es (Act _ _ (RecordLease r) raw) \<longleftrightarrow> raw = Inl CanceledError \<or> rl_State r = ''lost'' \<or>
     (\<exists>n res. answered_held n res es \<and> r = record_input inp n res ''held'')"
| "lease_guard inp es (Act _ _ (RenewLease li) raw) \<longleftrightarrow> raw = Inl CanceledError \<or> (\<forall>n \<in> set (renewals es). n < le_Occurrence li)"
| "lease_guard inp es _ \<longleftrightarrow> True"

text \<open>The lease of the record is the one it started with, or one Control confirmed as held.\<close>

definition confirmed_lease :: "lease_record \<Rightarrow> event list \<Rightarrow> bool" where
  "confirmed_lease lease es \<longleftrightarrow>
     (\<exists>c opts r. Act c opts (RecordLease r) (Inr (RLeaseRecord lease)) \<in> set es \<and> rl_State r = ''held'')"

text \<open>The invariant between two turns: the renewals so far, and where the lease comes from.\<close>

definition renewed_below :: "nat \<Rightarrow> event list \<Rightarrow> bool" where
  "renewed_below n es \<longleftrightarrow> (\<forall>m \<in> set (renewals es). m \<le> n)"

lemma record_input_State [simp]: "rl_State (record_input inp n res stateName) = stateName"
  by (simp add: record_input_def)

definition supervising :: "('e \<times> gstate) runtime \<Rightarrow> wctx \<Rightarrow> input \<Rightarrow> lease_record \<Rightarrow> ('e \<times> gstate) world \<Rightarrow> bool" where
  "supervising rt c inp lease w \<longleftrightarrow> guarded (lease_guard inp) (trace w) \<and>
     (canceled rt c w \<or> renewed_below (gn_occurrence (gst w)) (trace w) \<and>
        (gn_lease (gst w) = lease \<or> confirmed_lease (gn_lease (gst w)) (trace w)))"

lemma renewals_Cons: "renewals (e # es) = (case renewal e of None \<Rightarrow> renewals es | Some n \<Rightarrow> n # renewals es)"
  by (auto simp: renewals_def List.map_filter_def split: option.split)

lemma confirmed_lease_Cons: "confirmed_lease l es \<Longrightarrow> confirmed_lease l (e # es)"
  unfolding confirmed_lease_def by fastforce

lemma answered_held_Cons: "answered_held n res es \<Longrightarrow> answered_held n res (e # es)"
  unfolding answered_held_def by fastforce

text \<open>A call or a timer that is no renewal and is let through keeps the invariant.\<close>

lemma supervising_step:
  assumes "supervising rt c inp lease w" "trace w' = e # trace w" "lease_guard inp (trace w) e" "renewal e = None"
    and "leases w' = leases w \<or> canceled rt c w'" "canceled rt c w \<Longrightarrow> canceled rt c w'"
  shows "supervising rt c inp lease w'"
  using assms confirmed_lease_Cons
  by (auto simp: supervising_def renewed_below_def renewals_Cons lease_fields_def)


text \<open>A change of the record that leaves its lease and its occurrence alone.\<close>

lemma supervising_fenced:
  assumes "supervising rt c inp lease w" "supervised rt cancel c"
  shows "supervising rt c inp lease (cancel_work cancel (upd (\<lambda>g. g\<lparr>gn_fenced := True, gn_fenceCode := code\<rparr>) w))"
  using assms by (simp add: supervising_def)

lemma lease_fence_does:
  assumes "supervising rt c inp lease w" "supervised rt cancel c"
  shows "supervising rt c inp lease (lease_fence rt cancel q b inp code res w)"
proof -
  let ?w1 = "cancel_work cancel (upd (\<lambda>g. g\<lparr>gn_fenced := True, gn_fenceCode := code\<rparr>) w)"
  obtain r w2 where one: "get as_lease_record (exec rt Disconnected (controlOptions q b)
      (RecordLease (record_input inp (gn_occurrence (gst ?w1)) res ''lost'')) ?w1) = (r, w2)" by fastforce
  note g = supervised_get [OF assms(2) one]
  obtain raw where tr: "trace w2 = Act Disconnected (controlOptions q b)
      (RecordLease (record_input inp (gn_occurrence (gst ?w1)) res ''lost'')) raw # trace ?w1" using g(4) by blast
  have "supervising rt c inp lease w2"
    by (rule supervising_step [OF supervising_fenced [OF assms] tr]) (use g(1,2) in \<open>simp_all add: record_input_def\<close>)
  then show ?thesis using one by (simp add: lease_fence_def recordLease_def Let_def)
qed

lemma lease_call_does:
  assumes "lease_call rt c q b lb kind li w = (res, w')" "supervised rt cancel c" "supervising rt c inp lease w"
    and "kind = QueryLease"
  shows "supervising rt c inp lease w'" "canceled rt c w \<Longrightarrow> res = Inl CanceledError \<and> canceled rt c w'"
    "res = Inr a \<Longrightarrow> Act c (leaseOptions q b lb) (kind li) (Inr (RLeaseResult a)) \<in> set (trace w')"
    "\<exists>e. trace w' = e # trace w" "leases w' = leases w \<or> canceled rt c w'"
proof -
  note g = supervised_get [OF assms(2) assms(1) [unfolded lease_call_def]]
  obtain raw where tr: "trace w' = Act c (leaseOptions q b lb) (kind li) raw # trace w" "res = decode as_lease_result raw"
    using g(4) by blast
  show "supervising rt c inp lease w'"
    by (rule supervising_step [OF assms(3) tr(1)]) (use g(1,2) assms(4) in simp_all)
  show "canceled rt c w \<Longrightarrow> res = Inl CanceledError \<and> canceled rt c w'" "leases w' = leases w \<or> canceled rt c w'"
    using g by auto
  show "res = Inr a \<Longrightarrow> Act c (leaseOptions q b lb) (kind li) (Inr (RLeaseResult a)) \<in> set (trace w')"
    using tr by (auto simp: decode_Inr dest: sym)
  show "\<exists>e. trace w' = e # trace w" using tr by blast
qed


lemma supervise_query_does:
  assumes "supervise_query rt c q b lb li a w = (res, w')" "supervised rt cancel c" "supervising rt c inp lease w"
    and "lt_State a = ''held'' \<Longrightarrow> answered_held (le_Occurrence li) a (trace w)"
  shows "supervising rt c inp lease w' \<and> (leases w' = leases w \<or> canceled rt c w') \<and>
    (lt_State res = ''held'' \<longrightarrow> answered_held (le_Occurrence li) res (trace w')) \<and> (canceled rt c w \<longrightarrow> canceled rt c w')"
proof (cases "lt_State a = ''unknown''")
  case True
  obtain r w1 where one: "lease_call rt c q b lb QueryLease li w = (r, w1)" by fastforce
  note d = lease_call_does [OF one assms(2,3) refl]
  have w': "w' = w1" using assms(1) True one by (auto simp: supervise_query_def split: sum.splits if_splits)
  moreover have "answered_held (le_Occurrence li) res (trace w')" if held: "lt_State res = ''held''"
  proof -
    have "r = Inr res" using assms(1) True one held by (auto simp: supervise_query_def split: sum.splits if_splits)
    from d(3) [OF this] show ?thesis using held w' unfolding answered_held_def by blast
  qed
  ultimately show ?thesis using d(1,2,5) by blast
next
  case False
  then show ?thesis using assms by (auto simp: supervise_query_def)
qed

lemma supervise_renewed_does:
  assumes "supervise_renewed rt cancel c q b lb inp known res w = (t, w')" "supervised rt cancel c" "supervising rt c inp lease w"
    and "lt_State res = ''held'' \<Longrightarrow> answered_held n res (trace w)" "canceled rt c w \<or> gn_occurrence (gst w) = n"
  shows "supervising rt c inp lease w'"
proof (cases "lt_State res = ''held''")
  case True
  obtain r w1 where one: "recordLease rt c q b inp (gn_occurrence (gst w)) res ''held'' w = (r, w1)" by fastforce
  note g = supervised_get [OF assms(2) one [unfolded recordLease_def]]
  obtain raw where tr: "trace w1 = Act c (controlOptions q b)
      (RecordLease (record_input inp (gn_occurrence (gst w)) res ''held'')) raw # trace w" "r = decode as_lease_record raw"
      "canceled rt c w \<Longrightarrow> raw = Inl CanceledError" using g(4) by blast
  have s1: "supervising rt c inp lease w1"
    by (rule supervising_step [OF assms(3) tr(1)]) (use g(1,2) tr(3) assms(4) [OF True] assms(5) in auto)
  show ?thesis
  proof (cases r)
    case (Inl err)
    then show ?thesis using assms(1,2) True one s1 lease_fence_does [OF s1 assms(2)] by (auto simp: supervise_renewed_def)
  next
    case (Inr rec)
    then have "raw = Inr (RLeaseRecord rec)" using tr(2) by (auto simp: decode_Inr dest: sym)
    then have "confirmed_lease rec (trace w1)" using tr(1) unfolding confirmed_lease_def by (auto intro!: exI)
    moreover have "w' = upd (\<lambda>g. g\<lparr>gn_lease := rec\<rparr>) w1" using assms(1) True one Inr by (simp add: supervise_renewed_def)
    ultimately show ?thesis using s1 assms(2) by (auto simp: supervising_def)
  qed
next
  case False
  obtain x w1 where sl: "sleep rt c (min (half (LeaseRenewLead lb)) (known - now rt w)) w = (x, w1)" by fastforce
  have "supervising rt c inp lease w1"
    by (rule supervising_step [OF assms(3) trace_sleep [OF sl]]) (use supervised_sleep [OF assms(2) sl] in auto)
  then show ?thesis using assms(1) False sl lease_fence_does [OF assms(3,2)]
    by (auto simp: supervise_renewed_def split: if_splits option.splits)
qed

lemma supervise_turn_does:
  assumes "supervise_turn rt cancel c q b lb inp view w = (t, w')" "supervised rt cancel c" "supervising rt c inp lease w"
  shows "supervising rt c inp lease w'"
proof (cases "ls_ExpiresAt (gn_lease (gst w))")
  case None
  then show ?thesis using assms lease_fence_does [OF assms(3,2)] by (auto simp: supervise_turn_def)
next
  case (Some known)
  let ?pause = "known - now rt w - LeaseRenewLead lb"
  obtain x w1 where sl: "(if ?pause > 0 then sleep rt c ?pause w else (None, w)) = (x, w1)" by fastforce
  have s1: "supervising rt c inp lease w1"
  proof (cases "?pause > 0")
    case True
    then have sl: "sleep rt c ?pause w = (x, w1)" using sl by simp
    show ?thesis
      by (rule supervising_step [OF assms(3) trace_sleep [OF sl]]) (use supervised_sleep [OF assms(2) sl] in auto)
  next
    case False
    then show ?thesis using sl assms(3) by auto
  qed
  show ?thesis
  proof (cases "x \<noteq> None \<or> gn_done (gst w1)")
    case True
    then show ?thesis using assms(1) Some sl s1 by (cases x) (auto simp: supervise_turn_def Let_def)
  next
    case False
    let ?w2 = "upd (\<lambda>g. g\<lparr>gn_occurrence := gn_occurrence g + 1\<rparr>) w1"
    let ?li = "leaseInput inp view (gst ?w2) lb"
    obtain r w3 where one: "lease_call rt c q b lb RenewLease ?li ?w2 = (r, w3)" by fastforce
    note g = supervised_get [OF assms(2) one [unfolded lease_call_def]]
    obtain raw where tr: "trace w3 = Act c (leaseOptions q b lb) (RenewLease ?li) raw # trace w1"
        "r = decode as_lease_result raw" "canceled rt c ?w2 \<Longrightarrow> raw = Inl CanceledError" using g(4) by auto
    have w2: "canceled rt c ?w2 = canceled rt c w1" using assms(2) by simp
    have guard: "lease_guard inp (trace w1) (Act c (leaseOptions q b lb) (RenewLease ?li) raw)"
      using s1 tr(3) w2 by (auto simp: supervising_def renewed_below_def leaseInput_def)
    have s3: "supervising rt c inp lease w3"
      unfolding supervising_def
    proof
      show "guarded (lease_guard inp) (trace w3)" using guard s1 tr(1) by (simp add: supervising_def)
      show "canceled rt c w3 \<or> renewed_below (gn_occurrence (gst w3)) (trace w3) \<and>
          (gn_lease (gst w3) = lease \<or> confirmed_lease (gn_lease (gst w3)) (trace w3))"
      proof (cases "canceled rt c w3")
        case run: False
        then have "lease_fields (gst w3) = lease_fields (gst ?w2)" "\<not> canceled rt c w1" using g(1,2) w2 by blast+
        then show ?thesis using s1 tr(1) confirmed_lease_Cons
          by (auto simp: supervising_def renewed_below_def renewals_Cons lease_fields_def leaseInput_def intro: le_SucI)
      qed simp
    qed
    have occ: "canceled rt c w3 \<or> gn_occurrence (gst w3) = le_Occurrence ?li"
      using g(1) by (auto simp: lease_fields_def leaseInput_def)
    have go: "supervising rt c inp lease w'" 
      if run: "(case supervise_query rt c q b lb ?li a w3 of (res, w4) \<Rightarrow> supervise_renewed rt cancel c q b lb inp known res w4) = (t, w')"
        and held: "lt_State a = ''held'' \<Longrightarrow> answered_held (le_Occurrence ?li) a (trace w3)" for a
    proof -
      obtain res w4 where q4: "supervise_query rt c q b lb ?li a w3 = (res, w4)" by fastforce
      note d = supervise_query_does [OF q4 assms(2) s3 held]
      show ?thesis
        by (rule supervise_renewed_does [where n = "le_Occurrence ?li" and w = w4])
          (use run q4 d occ assms(2) in \<open>auto simp: lease_fields_def\<close>)
    qed
    show ?thesis
    proof (cases r)
      case (Inl err)
      have "t = Ended \<and> w' = w3 \<or> (case supervise_query rt c q b lb ?li (no_lease_result\<lparr>lt_State := ''unknown'', lt_Reason := ''RENEW_FAILED''\<rparr>) w3 of
          (res, w4) \<Rightarrow> supervise_renewed rt cancel c q b lb inp known res w4) = (t, w')"
        using assms(1) Some sl False one Inl by (auto simp: supervise_turn_def Let_def split: if_splits)
      then show ?thesis
      proof (elim disjE)
        assume "t = Ended \<and> w' = w3"
        then show ?thesis using s3 by simp
      next
        assume "(case supervise_query rt c q b lb ?li (no_lease_result\<lparr>lt_State := ''unknown'', lt_Reason := ''RENEW_FAILED''\<rparr>) w3 of
          (res, w4) \<Rightarrow> supervise_renewed rt cancel c q b lb inp known res w4) = (t, w')"
        then show ?thesis by (rule go) simp
      qed
    next
      case (Inr a)
      have "(case supervise_query rt c q b lb ?li a w3 of (res, w4) \<Rightarrow> supervise_renewed rt cancel c q b lb inp known res w4) = (t, w')"
        using assms(1) Some sl False one Inr by (auto simp: supervise_turn_def Let_def)
      moreover have "lt_State a = ''held'' \<Longrightarrow> answered_held (le_Occurrence ?li) a (trace w3)"
      proof -
        assume held: "lt_State a = ''held''"
        have "raw = Inr (RLeaseResult a)" using tr(2) Inr by (auto simp: decode_Inr dest: sym)
        then have "Act c (leaseOptions q b lb) (RenewLease ?li) (Inr (RLeaseResult a)) \<in> set (trace w3)" using tr(1) by simp
        then show "answered_held (le_Occurrence ?li) a (trace w3)" using held unfolding answered_held_def by blast
      qed
      ultimately show ?thesis by (rule go)
    qed
  qed
qed


lemma superviseLease_does:
  assumes "superviseLease rt cancel c q b lb inp view w = Some w'" "supervised rt cancel c" "supervising rt c inp lease w"
  shows "supervising rt c inp lease w'"
  using assms
proof (induction rule: superviseLease.raw_induct [rotated 1, consumes 1, case_names 1])
  case (1 f rt cancel c q b lb inp view w w')
  show ?case
  proof (cases "gn_done (gst w) \<or> gn_fenced (gst w)")
    case True
    then show ?thesis using 1(2,4) by simp
  next
    case False
    obtain t w1 where turn: "supervise_turn rt cancel c q b lb inp view w = (t, w1)" by fastforce
    note s1 = supervise_turn_does [OF turn 1(3,4)]
    show ?thesis
    proof (cases t)
      case Ended
      then show ?thesis using 1(2) False turn s1 by simp
    next
      case Again
      then have "f rt cancel c q b lb inp view w1 = Some w'" using 1(2) False turn by simp
      from 1(1) [OF this 1(3) s1] show ?thesis .
    qed
  qed
qed

section \<open>When the fence falls\<close>

text \<open>No renewal and no query of one is answered as held.\<close>

definition unconfirmed :: "('e \<times> gstate) runtime \<Rightarrow> wctx \<Rightarrow> bool" where
  "unconfirmed rt c \<longleftrightarrow> (\<forall>opts li s res s'.
     rt_perform rt c opts (RenewLease li) s = (Inr (RLeaseResult res), s') \<or>
     rt_perform rt c opts (QueryLease li) s = (Inr (RLeaseResult res), s') \<longrightarrow> lt_State res \<noteq> ''held'')"

lemma lease_call_unconfirmed:
  assumes "unconfirmed rt c" "lease_call rt c q b lb kind li w = (Inr res, w')" "kind = RenewLease \<or> kind = QueryLease"
  shows "lt_State res \<noteq> ''held''"
proof -
  obtain raw where "decode as_lease_result raw = Inr res" "rt_perform rt c (leaseOptions q b lb) (kind li) (est w) = (raw, est w')"
    using trace_get_exec [OF assms(2) [unfolded lease_call_def]] by metis
  then show ?thesis using assms(1,3) unfolding unconfirmed_def by (auto simp: decode_Inr simp del: split_paired_All)
qed

lemma supervise_query_unconfirmed:
  assumes "supervise_query rt c q b lb li a w = (res, w')" "unconfirmed rt c" "lt_State a \<noteq> ''held''"
  shows "lt_State res \<noteq> ''held''"
  using assms lease_call_unconfirmed [OF assms(2), of q b lb QueryLease]
  by (auto simp: supervise_query_def split: if_splits sum.splits prod.splits)

text \<open>After a turn that goes on, the known expiry is where it was and nearer by at least a nanosecond.\<close>

lemma lease_call_clock:
  assumes "lease_call rt c q b lb kind li w = (res, w')" "advancing rt"
  shows "now rt w \<le> now rt w'"
proof -
  obtain raw where "rt_perform rt c (leaseOptions q b lb) (kind li) (est w) = (raw, est w')"
    using trace_get_exec [OF assms(1) [unfolded lease_call_def]] by metis
  then show ?thesis using assms(2) unfolding advancing_def by (metis snd_conv)
qed

lemma supervise_query_leases:
  assumes "supervise_query rt c q b lb li a w = (res, w')" "supervised rt cancel c"
  shows "leases w' = leases w \<or> canceled rt c w'" "canceled rt c w \<Longrightarrow> canceled rt c w'"
proof -
  obtain r w1 where one: "get as_lease_result (exec rt c (leaseOptions q b lb) (QueryLease li) w) = (r, w1)" by fastforce
  have "w' = w \<or> w' = w1"
    using assms(1) one by (auto simp: supervise_query_def lease_call_def split: if_splits sum.splits)
  then show "leases w' = leases w \<or> canceled rt c w'" "canceled rt c w \<Longrightarrow> canceled rt c w'"
    using supervised_get(1,2) [OF assms(2) one] by blast+
qed

lemma supervise_query_clock:
  "supervise_query rt c q b lb li a w = (res, w') \<Longrightarrow> advancing rt \<Longrightarrow> now rt w \<le> now rt w'"
  by (auto simp: supervise_query_def split: if_splits sum.splits prod.splits dest: lease_call_clock)

lemma fence_fenced: "gn_fenced (gst (lease_fence rt cancel q b inp code res w)) \<or> canceled rt c (lease_fence rt cancel q b inp code res w)"
  if "supervised rt cancel c"
proof -
  let ?w1 = "cancel_work cancel (upd (\<lambda>g. g\<lparr>gn_fenced := True, gn_fenceCode := code\<rparr>) w)"
  obtain r w2 where one: "get as_lease_record (exec rt Disconnected (controlOptions q b)
      (RecordLease (record_input inp (gn_occurrence (gst ?w1)) res ''lost'')) ?w1) = (r, w2)" by fastforce
  then have "lease_fence rt cancel q b inp code res w = w2" by (simp add: lease_fence_def recordLease_def Let_def)
  then show ?thesis using supervised_get(1) [OF that one] by (auto simp: lease_fields_def)
qed


text \<open>The fence fell, the run is done or canceled the supervisor, or its last wait was ended.\<close>

definition supervision_over :: "('e \<times> gstate) runtime \<Rightarrow> wctx \<Rightarrow> ('e \<times> gstate) world \<Rightarrow> bool" where
  "supervision_over rt c w \<longleftrightarrow> gn_fenced (gst w) \<or> gn_done (gst w) \<or> canceled rt c w \<or>
     (\<exists>es. (\<exists>d err. trace w = Slept c d (Some err) # es) \<or> (\<exists>opts r. trace w = Act c opts r (Inl CanceledError) # es))"

lemma supervision_over_fence: "supervised rt cancel c \<Longrightarrow> supervision_over rt c (lease_fence rt cancel q b inp code res w)"
  unfolding supervision_over_def using fence_fenced by blast

lemma half_pos: "2 \<le> d \<Longrightarrow> 1 \<le> half d"
  by (simp add: half_def)

lemma supervise_renewed_unconfirmed:
  assumes "supervise_renewed rt cancel c q b lb inp known res w = (t, w')" "supervised rt cancel c" "advancing rt"
    and "2 \<le> LeaseRenewLead lb" "lt_State res \<noteq> ''held''"
  shows "t = Ended \<and> supervision_over rt c w' \<or>
    t = Again \<and> \<not> canceled rt c w \<and> (leases w' = leases w \<or> canceled rt c w') \<and> now rt w < known \<and> now rt w < now rt w'"
proof (cases "lt_State res = ''lost'' \<or> \<not> now rt w < known")
  case True
  then show ?thesis using assms(1,5) supervision_over_fence [OF assms(2)]
    by (auto simp: supervise_renewed_def split: if_splits)
next
  case False
  obtain x w1 where sl: "sleep rt c (min (half (LeaseRenewLead lb)) (known - now rt w)) w = (x, w1)" by fastforce
  show ?thesis
  proof (cases x)
    case None
    then have "now rt w + min (half (LeaseRenewLead lb)) (known - now rt w) \<le> now rt w1"
      using advancing_sleep [OF assms(3)] sl by simp
    then show ?thesis using assms(1,5) False sl None supervised_sleep [OF assms(2) sl] half_pos [OF assms(4)]
      by (auto simp: supervise_renewed_def)
  next
    case (Some err)
    then show ?thesis using assms(1,5) False sl trace_sleep [OF sl]
      by (auto simp: supervise_renewed_def supervision_over_def)
  qed
qed

lemma supervise_turn_unconfirmed:
  assumes "supervise_turn rt cancel c q b lb inp view w = (t, w')" "supervised rt cancel c" "unconfirmed rt c" "advancing rt"
    and "2 \<le> LeaseRenewLead lb"
  shows "t = Ended \<and> supervision_over rt c w' \<or>
    t = Again \<and> (canceled rt c w' \<or> (\<exists>known. ls_ExpiresAt (gn_lease (gst w)) = Some known \<and>
       ls_ExpiresAt (gn_lease (gst w')) = Some known \<and> now rt w < known \<and> now rt w < now rt w'))"
proof (cases "ls_ExpiresAt (gn_lease (gst w))")
  case None
  then show ?thesis using assms(1) supervision_over_fence [OF assms(2)] by (auto simp: supervise_turn_def)
next
  case (Some known)
  let ?pause = "known - now rt w - LeaseRenewLead lb"
  obtain x w1 where sl: "(if ?pause > 0 then sleep rt c ?pause w else (None, w)) = (x, w1)" by fastforce
  have s1: "leases w1 = leases w \<or> canceled rt c w1" "now rt w \<le> now rt w1 \<or> x \<noteq> None"
    using sl supervised_sleep(1) [OF assms(2)] advancing_sleep [OF assms(4), of c ?pause w w1] by (auto split: if_splits)
  show ?thesis
  proof (cases "x \<noteq> None \<or> gn_done (gst w1)")
    case True
    then have "t = Ended \<and> w' = w1" using assms(1) Some sl by (cases x) (auto simp: supervise_turn_def Let_def)
    moreover have "supervision_over rt c w1"
      using True sl trace_sleep [of rt c ?pause w x w1] by (cases x) (auto simp: supervision_over_def split: if_splits)
    ultimately show ?thesis by simp
  next
    case False
    let ?w2 = "upd (\<lambda>g. g\<lparr>gn_occurrence := gn_occurrence g + 1\<rparr>) w1"
    let ?li = "leaseInput inp view (gst ?w2) lb"
    have w2: "canceled rt c ?w2 = canceled rt c w1" using assms(2) by simp
    have now2: "now rt ?w2 = now rt w1" using assms(2) by simp
    obtain r w3 where one: "lease_call rt c q b lb RenewLease ?li ?w2 = (r, w3)" by fastforce
    note g = supervised_get [OF assms(2) one [unfolded lease_call_def]]
    obtain raw where tr: "trace w3 = Act c (leaseOptions q b lb) (RenewLease ?li) raw # trace w1"
        "r = decode as_lease_result raw" using g(4) by auto
    have now3: "now rt w \<le> now rt w3" using lease_call_clock [OF one assms(4)] now2 s1(2) False by simp
    have go: ?thesis
      if run: "(case supervise_query rt c q b lb ?li a w3 of (res, w4) \<Rightarrow> supervise_renewed rt cancel c q b lb inp known res w4) = (t, w')"
        and held: "lt_State a \<noteq> ''held''" for a
    proof -
      obtain res w4 where q4: "supervise_query rt c q b lb ?li a w3 = (res, w4)" by fastforce
      have d: "supervise_renewed rt cancel c q b lb inp known res w4 = (t, w')" using run q4 by simp
      have "lt_State res \<noteq> ''held''" by (rule supervise_query_unconfirmed [OF q4 assms(3) held])
      note r = supervise_renewed_unconfirmed [OF d assms(2,4,5) this]
      note l4 = supervise_query_leases [OF q4 assms(2)]
      have n4: "now rt w \<le> now rt w4" using supervise_query_clock [OF q4 assms(4)] now3 by simp
      show ?thesis
      proof (cases t)
        case Again
        then have up: "\<not> canceled rt c w4" "now rt w4 < known" "now rt w4 < now rt w'"
            "leases w' = leases w4 \<or> canceled rt c w'" using r by auto
        have "leases w4 = leases w3" "\<not> canceled rt c w3" using l4 up(1) by blast+
        moreover have "leases w3 = leases ?w2" "\<not> canceled rt c w1" using g(1,2) w2 \<open>\<not> canceled rt c w3\<close> by blast+
        moreover have "leases w1 = leases w" using s1(1) \<open>\<not> canceled rt c w1\<close> by blast
        ultimately have "gn_lease (gst w4) = gn_lease (gst w)" by (simp add: lease_fields_def)
        then show ?thesis using Again up n4 Some by (auto simp: lease_fields_def)
      qed (use r in auto)
    qed
    show ?thesis
    proof (cases r)
      case (Inl err)
      have "t = Ended \<and> w' = w3 \<and> (err = CanceledError \<or> canceled rt c w3) \<or> (case supervise_query rt c q b lb ?li (no_lease_result\<lparr>lt_State := ''unknown'', lt_Reason := ''RENEW_FAILED''\<rparr>) w3 of
          (res, w4) \<Rightarrow> supervise_renewed rt cancel c q b lb inp known res w4) = (t, w')"
        using assms(1) Some sl False one Inl by (cases err) (auto simp: supervise_turn_def Let_def split: if_splits)
      then show ?thesis
      proof (elim disjE)
        assume "t = Ended \<and> w' = w3 \<and> (err = CanceledError \<or> canceled rt c w3)"
        then show ?thesis using tr Inl by (auto simp: supervision_over_def decode_def split: sum.splits option.splits)
      next
        assume "(case supervise_query rt c q b lb ?li (no_lease_result\<lparr>lt_State := ''unknown'', lt_Reason := ''RENEW_FAILED''\<rparr>) w3 of
          (res, w4) \<Rightarrow> supervise_renewed rt cancel c q b lb inp known res w4) = (t, w')"
        then show ?thesis by (rule go) simp
      qed
    next
      case (Inr a)
      have "(case supervise_query rt c q b lb ?li a w3 of (res, w4) \<Rightarrow> supervise_renewed rt cancel c q b lb inp known res w4) = (t, w')"
        using assms(1) Some sl False one Inr by (auto simp: supervise_turn_def Let_def)
      then show ?thesis by (rule go) (use lease_call_unconfirmed [OF assms(3) one [unfolded Inr]] in simp)
    qed
  qed
qed


lemma fence_canceled:
  assumes "supervised rt cancel c" "canceled rt c w"
  shows "canceled rt c (lease_fence rt cancel q b inp code res w)"
proof -
  let ?w1 = "cancel_work cancel (upd (\<lambda>g. g\<lparr>gn_fenced := True, gn_fenceCode := code\<rparr>) w)"
  obtain r w2 where one: "get as_lease_record (exec rt Disconnected (controlOptions q b)
      (RecordLease (record_input inp (gn_occurrence (gst ?w1)) res ''lost'')) ?w1) = (r, w2)" by fastforce
  have "canceled rt c ?w1" using assms by simp
  then have "canceled rt c w2" by (rule supervised_get(2) [OF assms(1) one])
  then show ?thesis using one by (simp add: lease_fence_def recordLease_def Let_def)
qed

lemma canceled_turn_ends:
  assumes "supervised rt cancel c" "canceled rt c w"
  shows "\<exists>w'. supervise_turn rt cancel c q b lb inp view w = (Ended, w') \<and> canceled rt c w'"
proof (cases "ls_ExpiresAt (gn_lease (gst w))")
  case None
  have "canceled rt c (lease_fence rt cancel q b inp ''LEASE_LOST'' (known_result (gst w)) w)"
    by (rule fence_canceled [OF assms])
  then show ?thesis using None by (simp add: supervise_turn_def)
next
  case (Some known)
  let ?pause = "known - now rt w - LeaseRenewLead lb"
  show ?thesis
  proof (cases "?pause > 0")
    case True
    obtain x w1 where sl: "sleep rt c ?pause w = (x, w1)" by fastforce
    then show ?thesis using Some True supervised_sleep(2) [OF assms(1) sl assms(2)] by (simp add: supervise_turn_def Let_def)
  next
    case False
    let ?w2 = "upd (\<lambda>g. g\<lparr>gn_occurrence := gn_occurrence g + 1\<rparr>) w"
    obtain r w3 where one: "lease_call rt c q b lb RenewLease (leaseInput inp view (gst ?w2) lb) ?w2 = (r, w3)" by fastforce
    have "canceled rt c ?w2" using assms by simp
    note g = supervised_get(2,3) [OF assms(1) one [unfolded lease_call_def] this]
    then show ?thesis using Some False one assms(2) by (simp add: supervise_turn_def Let_def)
  qed
qed

lemma superviseLease_over:
  assumes "supervised rt cancel c" "unconfirmed rt c" "advancing rt" "2 \<le> LeaseRenewLead lb"
  shows "\<exists>w'. superviseLease rt cancel c q b lb inp view w = Some w' \<and> supervision_over rt c w'"
proof (induction "case ls_ExpiresAt (gn_lease (gst w)) of None \<Rightarrow> 0 | Some known \<Rightarrow> nat (known - now rt w)" arbitrary: w rule: less_induct)
  case less
  show ?case
  proof (cases "gn_done (gst w) \<or> gn_fenced (gst w)")
    case True
    then show ?thesis by (subst superviseLease.simps) (auto simp: supervision_over_def)
  next
    case False
    obtain t w1 where turn: "supervise_turn rt cancel c q b lb inp view w = (t, w1)" by fastforce
    have step: "superviseLease rt cancel c q b lb inp view w =
        (case t of Ended \<Rightarrow> Some w1 | Again \<Rightarrow> superviseLease rt cancel c q b lb inp view w1)"
      using False turn by (subst superviseLease.simps) simp
    consider "t = Ended" "supervision_over rt c w1" | "t = Again" "canceled rt c w1"
      | known where "t = Again" "ls_ExpiresAt (gn_lease (gst w)) = Some known" "ls_ExpiresAt (gn_lease (gst w1)) = Some known"
          "now rt w < known" "now rt w < now rt w1"
      using supervise_turn_unconfirmed [OF turn assms] by blast
    then show ?thesis
    proof cases
      case 1
      then show ?thesis using step by simp
    next
      case 2
      obtain w2 where turn2: "supervise_turn rt cancel c q b lb inp view w1 = (Ended, w2)" "canceled rt c w2"
        using canceled_turn_ends [OF assms(1) 2(2)] by blast
      then have "superviseLease rt cancel c q b lb inp view w1 = Some w1 \<or> superviseLease rt cancel c q b lb inp view w1 = Some w2"
        by (subst (1 2) superviseLease.simps) simp
      then show ?thesis using step 2 turn2(2) by (auto simp: supervision_over_def)
    next
      case 3
      have "nat (known - now rt w1) < nat (known - now rt w)" using 3(4,5) by simp
      then have "\<exists>w'. superviseLease rt cancel c q b lb inp view w1 = Some w' \<and> supervision_over rt c w'"
        by (intro less.hyps) (simp add: 3(2,3))
      then show ?thesis using step 3(1) by simp
    qed
  qed
qed

section \<open>What the release does\<close>

fun lease_poll_event :: "wctx \<Rightarrow> lease_input \<Rightarrow> event \<Rightarrow> bool" where
  "lease_poll_event c li (Act c' opts (QueryLease li') raw) \<longleftrightarrow> c' = c \<and> li' = li"
| "lease_poll_event c li (Slept c' d x) \<longleftrightarrow> c' = c"
| "lease_poll_event c li _ \<longleftrightarrow> False"

fun is_lease_query :: "event \<Rightarrow> bool" where
  "is_lease_query (Act _ _ (QueryLease _) _) \<longleftrightarrow> True"
| "is_lease_query _ \<longleftrightarrow> False"

definition lease_polls :: "'e world \<Rightarrow> nat" where
  "lease_polls w = count_events is_lease_query w"

lemma lease_query_event:
  assumes "lease_query rt c q b lb li w = (r, w')"
  shows "extends (lease_poll_event c li) w w'" "lease_polls w' = Suc (lease_polls w)"
    "r = Some x \<Longrightarrow> \<exists>res opts. x = Some res \<and> lease_over res \<and> trace w' = Act c opts (QueryLease li) (Inr (RLeaseResult res)) # trace w"
proof -
  obtain a where one: "lease_call rt c q b lb QueryLease li w = (a, w')" "r = (if lease_over (lease_answer a) then Some (Some (lease_answer a)) else None)"
    using assms by (auto simp: lease_query_def split: prod.splits)
  obtain raw where tr: "trace w' = Act c (leaseOptions q b lb) (QueryLease li) raw # trace w" "a = decode as_lease_result raw"
    using trace_get_exec [OF one(1) [unfolded lease_call_def]] by blast
  show "extends (lease_poll_event c li) w w'" "lease_polls w' = Suc (lease_polls w)"
    using tr by (simp_all add: extends_def lease_polls_def count_events_def)
  show "r = Some x \<Longrightarrow> \<exists>res opts. x = Some res \<and> lease_over res \<and> trace w' = Act c opts (QueryLease li) (Inr (RLeaseResult res)) # trace w"
  proof -
    assume x: "r = Some x"
    then obtain res where res: "a = Inr res" "x = Some res" "lease_over res"
      using one(2) by (cases a) (auto simp: lease_answer_def lease_over_def no_lease_result_def split: if_splits)
    then have "raw = Inr (RLeaseResult res)" using tr(2) by (auto simp: decode_Inr dest: sym)
    then show ?thesis using res tr(1) by auto
  qed
qed

lemma lease_wait_event:
  assumes "wait rt c p w = (x, p', w')"
  shows "extends (lease_poll_event c li) w w'" "lease_polls w' = lease_polls w"
  using assms by (auto simp: wait_def extends_def lease_polls_def count_events_def split: prod.splits dest: trace_sleep)

interpretation lease_wait: polled rt c "lease_query rt c q b lb li" "\<lambda>_. None" "\<lambda>_. None" "lease_queries rt c q b lb li" lease_polls
  for rt c q b lb li
proof (unfold_locales, goal_cases)
  case (1 p w)
  show ?case by (subst lease_queries.simps) (simp split: prod.split option.split)
next
  case (2 w res w1)
  then show ?case by (rule lease_query_event(2))
next
  case (3 p w e p1 w1)
  then show ?case by (rule lease_wait_event(2))
qed

lemma lease_queries_do:
  assumes "lease_queries rt c q b lb li p w = Some r"
  shows "extends (lease_poll_event c li) w (snd r) \<and>
    (\<forall>res. fst r = Some res \<longrightarrow> lease_over res \<and>
      (\<exists>opts new. trace (snd r) = Act c opts (QueryLease li) (Inr (RLeaseResult res)) # new @ trace w))"
  using assms
proof (induction rule: lease_queries.raw_induct [rotated 1, consumes 1, case_names 1])
  case (1 f rt c q b lb li p w r)
  obtain x w1 where one: "lease_query rt c q b lb li w = (x, w1)" by fastforce
  note d = lease_query_event [OF one]
  show ?case
  proof (cases x)
    case (Some y)
    then have "r = (y, w1)" using 1(2) one by simp
    then show ?thesis using d(1) d(3) [OF Some] by fastforce
  next
    case none: None
    show ?thesis
    proof (cases "exhausted rt p w1")
      case True
      then show ?thesis using 1(2) one none d(1) by auto
    next
      case False
      obtain e p1 w2 where sl: "wait rt c p w1 = (e, p1, w2)" by (metis prod_cases3)
      have x2: "extends (lease_poll_event c li) w w2" using d(1) lease_wait_event(1) [OF sl] by (rule extends_trans)
      show ?thesis
      proof (cases e)
        case (Some err)
        then show ?thesis using 1(2) one none False sl x2 by auto
      next
        case None
        then have "f rt c q b lb li p1 w2 = Some r" using 1(2) one none False sl by simp
        note rest = 1(1) [OF this]
        show ?thesis
        proof (intro conjI allI impI)
          show "extends (lease_poll_event c li) w (snd r)" using rest extends_trans [OF x2] by blast
          fix res assume "fst r = Some res"
          then obtain opts new where "lease_over res" "trace (snd r) = Act c opts (QueryLease li) (Inr (RLeaseResult res)) # new @ trace w2"
            using rest by blast
          then show "lease_over res" "\<exists>opts new. trace (snd r) = Act c opts (QueryLease li) (Inr (RLeaseResult res)) # new @ trace w"
            using x2 by (auto simp: extends_def)
        qed
      qed
    qed
  qed
qed

definition poll_bound :: "bounds \<Rightarrow> nat" where
  "poll_bound b = nat (if sint (SettlePollBound b) \<le> 0 then defaultSettlePollBound else sint (SettlePollBound b))"

text \<open>The waits after the release: they end, query its occurrence only, and stop early only on an answer.\<close>

lemma release_end_does:
  assumes "rt_version rt pollChange = 1"
  shows "\<exists>r w'. release_end rt c q b lb li res0 w = Some (r, w') \<and> extends (lease_poll_event c li) w w' \<and>
    lease_polls w' \<le> lease_polls w + poll_bound b \<and>
    (\<forall>res. r = Some res \<longrightarrow> lease_over res \<and>
       (res = res0 \<or> (\<exists>opts new. trace w' = Act c opts (QueryLease li) (Inr (RLeaseResult res)) # new @ trace w)))"
proof -
  let ?p = "newPoller rt b 0"
  consider "lease_over res0" | "\<not> lease_over res0" "exhausted rt ?p w" | "\<not> lease_over res0" "\<not> exhausted rt ?p w" by blast
  then show ?thesis
  proof cases
    case 3
    obtain e p1 w1 where sl: "wait rt c ?p w = (e, p1, w1)" by (metis prod_cases3)
    have p1: "p1 = wait_step ?p" using sl by (simp add: wait_def split: prod.splits)
    note ok = poller_ok_new [OF assms, of b 0]
    have not: "\<not> poll_bound_reached ?p" using 3(2) exhausted_bound [of ?p rt w] ok by (auto simp: poller_ok_def)
    have p: "poller_ok p1" "polls_left p1 < polls_left ?p"
      using pp.ok_step [OF ok not] pp.left_step [OF ok not] p1 by simp_all
    show ?thesis
    proof (cases e)
      case (Some err)
      then show ?thesis using 3 sl lease_wait_event [OF sl] by (auto simp: release_end_def Let_def)
    next
      case None
      obtain r w' where run: "lease_queries rt c q b lb li p1 w1 = Some (r, w')" "lease_polls w' \<le> lease_polls w1 + polls_left p1 + 1"
        using lease_wait.loop_ends [OF p(1)] by blast
      note d = lease_queries_do [OF run(1)]
      have "lease_polls w' \<le> lease_polls w + poll_bound b"
        using run(2) p(2) lease_wait_event(2) [OF sl] by (simp add: polls_left_new poll_bound_def)
      moreover have "release_end rt c q b lb li res0 w = Some (r, w')" using 3 sl None run(1) by (simp add: release_end_def Let_def)
      moreover have "extends (lease_poll_event c li) w w'" using d extends_trans [OF lease_wait_event(1) [OF sl]] by simp
      moreover have "\<exists>more. trace w1 = more @ trace w" using lease_wait_event(1) [OF sl] by (auto simp: extends_def)
      ultimately show ?thesis using d by (intro exI conjI) auto
    qed
  qed (auto simp: release_end_def Let_def)
qed

section \<open>Properties\<close>

text \<open>
  C14. Only a confirmed renewal moves the lease. Of everything the supervisor sent by the time
  it ends, each fact it reported to Control as held is the answer, as held, to a renewal or
  its query, under the occurrence of that renewal; no renewal repeats an occurrence or goes back;
  and the lease the control record ends with is the one it began with or one Control
  confirmed, unless the run already took the lease over to release it.
\<close>

theorem superviseLease_confirms:
  assumes "superviseLease rt cancel c q b lb inp view w = Some w'" "supervised rt cancel c" "trace w = []"
  shows "(\<forall>later c1 opts r raw before. trace w' = later @ Act c1 opts (RecordLease r) raw # before \<longrightarrow>
      raw = Inl CanceledError \<or> rl_State r = ''lost'' \<or> (\<exists>n res. answered_held n res before \<and> r = record_input inp n res ''held'')) \<and>
    (\<forall>later c1 opts li raw before. trace w' = later @ Act c1 opts (RenewLease li) raw # before \<longrightarrow>
      raw = Inl CanceledError \<or> (\<forall>n \<in> set (renewals before). n < le_Occurrence li)) \<and>
    (rt_ctx_err rt c (est w') \<or> gn_lease (gst w') = gn_lease (gst w) \<or> confirmed_lease (gn_lease (gst w')) (trace w'))"
proof -
  have "supervising rt c inp (gn_lease (gst w)) w"
    using assms(3) by (simp add: supervising_def renewed_below_def renewals_def List.map_filter_def)
  from superviseLease_does [OF assms(1,2) this] have "supervising rt c inp (gn_lease (gst w)) w'" .
  then have "guarded (lease_guard inp) (trace w')"
      "rt_ctx_err rt c (est w') \<or> gn_lease (gst w') = gn_lease (gst w) \<or> confirmed_lease (gn_lease (gst w')) (trace w')"
    by (auto simp: supervising_def)
  then show ?thesis using guarded_member [of "lease_guard inp"] by fastforce
qed

text \<open>
  C29. An unknown renewal extends nothing. When no renewal and no query is answered as held,
  the supervisor returns on a clock that advances, and then the fence has fallen, unless the
  run is done, has canceled the supervisor or ended its last wait.
\<close>

theorem superviseLease_fences:
  assumes "supervised rt cancel c" "unconfirmed rt c" "advancing rt" "2 \<le> LeaseRenewLead lb"
  shows "\<exists>w'. superviseLease rt cancel c q b lb inp view w = Some w' \<and> supervision_over rt c w'"
  by (rule superviseLease_over [OF assms])

text \<open>The calls of a release, newest first: one release, queries of it, and at most one record it supports.\<close>

definition supported_end :: "record_lease_input \<Rightarrow> lease_result \<Rightarrow> bool" where
  "supported_end r res \<longleftrightarrow>
     rl_State r = ''released'' \<and> (lt_State res = ''released'' \<or> lt_State res = ''lost'' \<and> lt_Reason res = ''RELEASED'') \<or>
     rl_State r = ''lost'' \<and> lt_State res = ''lost''"

lemma release_confirmed_supported: "rl_State r = release_confirmed res \<Longrightarrow> lease_over res \<Longrightarrow> supported_end r res"
  by (auto simp: release_confirmed_def lease_over_def supported_end_def split: if_splits)

definition release_shape :: "wctx \<Rightarrow> lease_input \<Rightarrow> bounds \<Rightarrow> event list \<Rightarrow> bool" where
  "release_shape c li b new \<longleftrightarrow>
     (\<exists>final polls opts raw. new = final @ polls @ [Act c opts (ReleaseLease li) raw] \<and>
        list_all (lease_poll_event c li) polls \<and> length (filter is_lease_query polls) \<le> poll_bound b \<and>
        (final = [] \<or> (\<exists>opts1 r raw1 res req opts2. final = [Act c opts1 (RecordLease r) raw1] \<and>
           supported_end r res \<and> (req = ReleaseLease li \<or> req = QueryLease li) \<and>
           Act c opts2 req (Inr (RLeaseResult res)) \<in> set new)))"

lemma release_shape_unrecorded:
  "list_all (lease_poll_event c li) polls \<Longrightarrow> length (filter is_lease_query polls) \<le> poll_bound b \<Longrightarrow>
    release_shape c li b (polls @ [Act c opts (ReleaseLease li) raw])"
  unfolding release_shape_def by (rule exI [of _ "[]"], intro exI conjI disjI1) auto

lemma release_shape_recorded:
  assumes "new = Act c opts1 (RecordLease r) raw1 # polls @ [Act c opts (ReleaseLease li) raw]"
    and "list_all (lease_poll_event c li) polls" "length (filter is_lease_query polls) \<le> poll_bound b"
    and "rl_State r = release_confirmed res" "lease_over res" "req = ReleaseLease li \<or> req = QueryLease li"
    and "Act c opts2 req (Inr (RLeaseResult res)) \<in> set new"
  shows "release_shape c li b new"
  unfolding release_shape_def
proof (rule exI [of _ "[Act c opts1 (RecordLease r) raw1]"], rule exI [of _ polls], rule exI [of _ opts], rule exI [of _ raw],
    intro conjI disjI2)
  show "new = [Act c opts1 (RecordLease r) raw1] @ polls @ [Act c opts (ReleaseLease li) raw]" using assms(1) by simp
  show "\<exists>opts1' r' raw1' res req opts2. [Act c opts1 (RecordLease r) raw1] = [Act c opts1' (RecordLease r') raw1'] \<and>
      supported_end r' res \<and> (req = ReleaseLease li \<or> req = QueryLease li) \<and>
      Act c opts2 req (Inr (RLeaseResult res)) \<in> set new"
    using release_confirmed_supported [OF assms(4,5)] assms(6,7) by blast
qed (rule assms(2), rule assms(3))

text \<open>
  The lease is released once and only on evidence. Ending a run returns; it sends at most
  one release, under the next occurrence, then at most the poll bound of queries of that very
  occurrence, and at most one record: as released only if an answer said released, as lost
  only if an answer said lost.
\<close>

theorem releaseLease_ends:
  assumes "rt_version rt pollChange = 1"
  shows "\<exists>w' new. releaseLease rt c q b lb inp view w = Some w' \<and> trace w' = new @ trace w \<and>
    (new = [] \<or> release_shape c (leaseInput inp view ((gst w)\<lparr>gn_occurrence := gn_occurrence (gst w) + 1\<rparr>) lb) b new)"
proof (cases "ls_LeaseID (gn_lease (gst w)) = '''' \<or> gn_fenced (gst w)")
  case True
  then show ?thesis by (simp add: releaseLease_def)
next
  case False
  let ?w1 = "upd (\<lambda>g. g\<lparr>gn_occurrence := gn_occurrence g + 1\<rparr>) w"
  let ?li = "leaseInput inp view (gst ?w1) lb"
  obtain r w2 where one: "lease_call rt c q b lb ReleaseLease ?li ?w1 = (r, w2)" by fastforce
  obtain raw where tr: "trace w2 = Act c (leaseOptions q b lb) (ReleaseLease ?li) raw # trace w" "r = decode as_lease_result raw"
    using trace_get_exec [OF one [unfolded lease_call_def]] by auto
  obtain x w3 where e: "release_end rt c q b lb ?li (lease_answer r) w2 = Some (x, w3)" "extends (lease_poll_event c ?li) w2 w3"
      "lease_polls w3 \<le> lease_polls w2 + poll_bound b"
      "\<And>res. x = Some res \<Longrightarrow> lease_over res \<and> (res = lease_answer r \<or> (\<exists>opts new. trace w3 = Act c opts (QueryLease ?li) (Inr (RLeaseResult res)) # new @ trace w2))"
    using release_end_does [OF assms] by blast
  obtain polls where polls: "trace w3 = polls @ trace w2" "list_all (lease_poll_event c ?li) polls" using e(2) by (auto simp: extends_def)
  have n: "length (filter is_lease_query polls) \<le> poll_bound b" using e(3) polls(1) by (simp add: lease_polls_def count_events_def)
  show ?thesis
  proof (cases x)
    case None
    show ?thesis
    proof (intro exI conjI disjI2)
      show "releaseLease rt c q b lb inp view w = Some w3" using None False one e(1) by (simp add: releaseLease_def Let_def)
      show "trace w3 = (polls @ [Act c (leaseOptions q b lb) (ReleaseLease ?li) raw]) @ trace w" using polls(1) tr(1) by simp
    qed (use release_shape_unrecorded [OF polls(2) n] in simp)
  next
    case (Some res)
    obtain a w4 where rec: "recordLease rt c q b inp (gn_occurrence (gst w3)) (known_result (gst w3)) (release_confirmed res) w3 = (a, w4)" by fastforce
    obtain raw' where tr4: "trace w4 = Act c (controlOptions q b) (RecordLease (record_input inp (gn_occurrence (gst w3)) (known_result (gst w3)) (release_confirmed res))) raw' # trace w3"
      using trace_get_exec [OF rec [unfolded recordLease_def]] by blast
    have run: "releaseLease rt c q b lb inp view w = Some w4" using False one e(1) Some rec by (simp add: releaseLease_def Let_def)
    let ?new = "[Act c (controlOptions q b) (RecordLease (record_input inp (gn_occurrence (gst w3)) (known_result (gst w3)) (release_confirmed res))) raw'] @
        polls @ [Act c (leaseOptions q b lb) (ReleaseLease ?li) raw]"
    have "\<exists>req opts. (req = ReleaseLease ?li \<or> req = QueryLease ?li) \<and> Act c opts req (Inr (RLeaseResult res)) \<in> set ?new"
    proof -
      consider "res = lease_answer r" | opts new where "trace w3 = Act c opts (QueryLease ?li) (Inr (RLeaseResult res)) # new @ trace w2"
        using e(4) Some by blast
      then show ?thesis
      proof cases
        case 1
        then have "r = Inr res" using e(4) Some by (cases r) (auto simp: lease_answer_def lease_over_def no_lease_result_def)
        then have "raw = Inr (RLeaseResult res)" using tr(2) by (auto simp: decode_Inr dest: sym)
        then show ?thesis by (intro exI [of _ "ReleaseLease ?li"] exI [of _ "leaseOptions q b lb"]) simp
      next
        case 2
        then have "polls = Act c opts (QueryLease ?li) (Inr (RLeaseResult res)) # new" using polls(1) by simp
        then show ?thesis by (intro exI [of _ "QueryLease ?li"] exI [of _ opts]) simp
      qed
    qed
    then obtain req opts2 where kind: "req = ReleaseLease ?li \<or> req = QueryLease ?li" "Act c opts2 req (Inr (RLeaseResult res)) \<in> set ?new" by blast
    have over: "lease_over res" using e(4) Some by blast
    have "release_shape c ?li b ?new"
      by (rule release_shape_recorded [OF _ polls(2) n _ over kind]) (simp, simp)
    then show ?thesis using run tr4 polls(1) tr(1) by (intro exI [of _ w4] exI [of _ ?new] conjI disjI2) simp_all
  qed
qed

section \<open>Examples\<close>

lemma beside_supervised: "(\<And>s. \<not> rt_ctx_err rt c s) \<Longrightarrow> supervised (beside rt) cancel c"
  unfolding supervised_def by (auto split: prod.splits)

definition example_view :: generation_view where
  "example_view = \<lparr>gv_ProfileID = ''profile-v1'', gv_SubjectDigest = ''sha256:d'', gv_SourceRevision = ''r0'', gv_ActorID = ''user'',
     gv_Brief = \<lparr>br_BriefID = ''brief'', br_Brief = \<lparr>ab_TransferID = '''', ab_Digest = ''sha256:b'', ab_Handle = ''h''\<rparr>,
       br_RequirementsDigest = ''sha256:q'', br_Revision = ''1'', br_State = ''frozen''\<rparr>,
     gv_SourceRevisions = [], gv_QueueDeadline = 60 * minute, gv_ActiveDeadline = None, gv_PermitActive = False,
     gv_Lease = no_lease, gv_Funded = False, gv_DefinitionActivation = '''', gv_MaxRepairs = 1,
     gv_CodegenProfileID = ''codegen-v1'', gv_ValidatorProfileID = ''validator-v1'', gv_CandidateEffectID = ''''\<rparr>"

definition held_lease :: lease_record where
  "held_lease = \<lparr>ls_State = ''held'', ls_LeaseID = ''ls1'', ls_Fence = ''f1'', ls_ExpiresAt = Some (10 * minute), ls_Occurrence = 1\<rparr>"

definition held_answer :: "time \<Rightarrow> lease_result" where
  "held_answer at = no_lease_result\<lparr>lt_State := ''held'', lt_LeaseID := ''ls1'', lt_Fence := ''f1'', lt_ExpiresAt := Some at\<rparr>"

definition lease_world :: "(wf_error + response) list \<Rightarrow> (script \<times> gstate) world" where
  "lease_world as = upd (\<lambda>g. g\<lparr>gn_lease := held_lease, gn_occurrence := 1\<rparr>) (with_gstate (start_world as))"

text \<open>A renewal that is confirmed, then one whose answer is lost and whose query says lost.\<close>

definition lease_answers :: "(wf_error + response) list" where
  "lease_answers =
     [Inr (RLeaseResult (held_answer (20 * minute))), Inr (RLeaseRecord (held_lease\<lparr>ls_ExpiresAt := Some (20 * minute), ls_Occurrence := 2\<rparr>)),
      Inl TimeoutError, Inr (RLeaseResult (no_lease_result\<lparr>lt_State := ''lost''\<rparr>)), Inr RUnit]"

lemmas lease_eval = superviseLease.simps supervise_turn_def supervise_renewed_def supervise_query_def lease_call_def
  recordLease_def lease_fence_def cancel_work_def half_def leaseInput_def record_input_def

lemmas lease_setup = lease_world_def lease_answers_def held_lease_def held_answer_def no_lease_result_def example_lifecycle_def
  with_gstate_def new_gstate_def upd_def gst_def script_simps

lemma example_supervision:
  "\<exists>w'. superviseLease (beside scripted) id RunCtx example_queues example_bounds example_lifecycle example_input example_view
      (lease_world lease_answers) = Some w' \<and> gn_fenced (gst w') \<and> gn_occurrence (gst w') = 3 \<and>
      ls_ExpiresAt (gn_lease (gst w')) = Some (20 * minute)"
  by (simp add: lease_eval lease_setup Let_def)

lemma scripted_supervised: "supervised (beside scripted) cancel RunCtx"
  by (rule beside_supervised) (simp add: scripted_def)

theorem superviseLease_confirms_witness:
  "\<exists>w'. superviseLease (beside scripted) id RunCtx example_queues example_bounds example_lifecycle example_input example_view
      (lease_world lease_answers) = Some w' \<and> gn_fenced (gst w') \<and>
    (gn_lease (gst w') = held_lease \<or> confirmed_lease (gn_lease (gst w')) (trace w'))"
proof -
  obtain w' where run: "superviseLease (beside scripted) id RunCtx example_queues example_bounds example_lifecycle example_input example_view
      (lease_world lease_answers) = Some w'" "gn_fenced (gst w')" using example_supervision by blast
  have "trace (lease_world lease_answers) = []" "gn_lease (gst (lease_world lease_answers)) = held_lease"
    "\<not> rt_ctx_err (beside scripted) RunCtx (est w')"
    by (simp_all add: lease_world_def with_gstate_def start_world_def scripted_def beside_def split: prod.split)
  with superviseLease_confirms [OF run(1) scripted_supervised this(1)] run show ?thesis by auto
qed

text \<open>A lease port that never answers: every call times out after a second.\<close>

definition silent :: "int runtime" where
  "silent = \<lparr>rt_perform = (\<lambda>c opts r e. (Inl TimeoutError, e + second)), rt_sleep = (\<lambda>c d e. (None, e + max 0 d)),
     rt_now = id, rt_ctx_err = (\<lambda>c e. False), rt_version = (\<lambda>change. 1), rt_can_suggested = (\<lambda>e. False),
     rt_workflow_type = ''GenerationWorkflow''\<rparr>"

lemma silent_laws: "supervised (beside silent) cancel RunCtx" "unconfirmed (beside silent) RunCtx" "advancing (beside silent)"
  by (rule beside_supervised, simp add: silent_def)
    (auto simp: unconfirmed_def silent_def intro!: beside_advancing, simp add: advancing_def silent_def second_def)

definition silent_world :: "(int \<times> gstate) world" where
  "silent_world = \<lparr>est = (0, new_gstate\<lparr>gn_lease := held_lease, gn_occurrence := 1\<rparr>), trace = []\<rparr>"

theorem superviseLease_fences_witness:
  "\<exists>w'. superviseLease (beside silent) id RunCtx example_queues example_bounds example_lifecycle example_input example_view silent_world = Some w' \<and>
    supervision_over (beside silent) RunCtx w'"
  by (rule superviseLease_fences [OF silent_laws]) (simp add: example_lifecycle_def minute_def second_def)

text \<open>A release whose answer is lost, observed as released by its second query.\<close>

theorem releaseLease_ends_witness:
  "\<exists>w' new. releaseLease (beside scripted) Disconnected example_queues example_bounds example_lifecycle example_input example_view
      (lease_world [Inl TimeoutError, Inl TimeoutError, Inr (RLeaseResult (no_lease_result\<lparr>lt_State := ''released''\<rparr>)), Inr RUnit]) = Some w' \<and>
    trace w' = new"
  using releaseLease_ends [where rt = "beside scripted" and c = Disconnected and q = example_queues and b = example_bounds
      and lb = example_lifecycle and inp = example_input and view = example_view and
      w = "lease_world [Inl TimeoutError, Inl TimeoutError, Inr (RLeaseResult (no_lease_result\<lparr>lt_State := ''released''\<rparr>)), Inr RUnit]"]
  by (auto simp: scripted_def)

text \<open>
  A renewal answered as lost while the run ends: in the same turn of the worker the run cancels
  the supervisor, and takes the next occurrence for the release.
\<close>

definition racing :: "(bool \<times> gstate) runtime" where
  "racing =
     \<lparr>rt_perform = (\<lambda>c opts r (over, g).
        if over \<and> c = RunCtx then (Inl CanceledError, (over, g))
        else case r of
            RenewLease li \<Rightarrow> (Inr (RLeaseResult (no_lease_result\<lparr>lt_State := ''lost''\<rparr>)),
              (True, g\<lparr>gn_done := True, gn_occurrence := gn_occurrence g + 1\<rparr>))
          | _ \<Rightarrow> (Inr RUnit, (over, g))),
      rt_sleep = (\<lambda>c d (over, g). (if over then Some CanceledError else None, (over, g))),
      rt_now = (\<lambda>_. 0), rt_ctx_err = (\<lambda>c (over, g). over \<and> c = RunCtx), rt_version = (\<lambda>change. 1),
      rt_can_suggested = (\<lambda>_. False), rt_workflow_type = ''GenerationWorkflow''\<rparr>"

lemma racing_supervised: "supervised racing id RunCtx"
  unfolding supervised_def racing_def by (auto split: request.splits if_splits)

text \<open>The loss is recorded under the occurrence, and so the command, of the release.\<close>

lemma late_loss:
  "\<exists>w' opts r raw. superviseLease racing id RunCtx example_queues example_bounds example_lifecycle example_input example_view
      \<lparr>est = (False, new_gstate\<lparr>gn_lease := held_lease, gn_occurrence := 1\<rparr>), trace = []\<rparr> = Some w' \<and>
    gn_done (gst w') \<and> hd (trace w') = Act Disconnected opts (RecordLease r) raw \<and> rl_State r = ''lost'' \<and>
    gn_occurrence (gst w') = 3 \<and> rl_CommandID r = rl_CommandID (record_input example_input 3 (known_result (gst w')) ''released'')"
  by (simp add: lease_eval held_lease_def example_lifecycle_def racing_def exec_def get_def sleep_def decode_def gst_def upd_def
      no_lease_result_def minute_def second_def new_gstate_def numeral_3_eq_3 Let_def)

end
