(* ===== verification/Generation.thy ===== *)
theory Generation
  imports Lease
begin

text \<open>
  The \<open>Generation\<close> workflow (\<^verbatim>\<open>internal/workflows/generation.go\<close>): admission, bootstrap,
  the rounds of code generation and independent validation, and the registration of the
  candidate, under the control record the command handlers and the lease supervisor share
  with it. What the source uses of the SDK beyond Activities and timers is the parameter
  \<open>sdk\<close>: \<open>workflow.Await\<close> on the record, which need not return, the wait for the
  Update handlers, the start of the supervisor, and the functions that cancel its context
  and the work context.
\<close>

record 'e sdk =
  sdk_await :: "wctx \<Rightarrow> (gstate \<Rightarrow> bool) \<Rightarrow> 'e \<times> gstate \<Rightarrow> (wf_error option \<times> 'e \<times> gstate) option"
  sdk_handlers :: "'e \<times> gstate \<Rightarrow> ('e \<times> gstate) option"
  sdk_go :: "'e \<Rightarrow> 'e"
  sdk_cancel_work :: "'e \<Rightarrow> 'e"
  sdk_stop_supervisor :: "'e \<Rightarrow> 'e"

definition await :: "'e sdk \<Rightarrow> wctx \<Rightarrow> (gstate \<Rightarrow> bool) \<Rightarrow> ('e \<times> gstate) world \<Rightarrow> (wf_error option \<times> ('e \<times> gstate) world) option" where
  "await sdk c ready w =
     (case sdk_await sdk c ready (est w) of
        None \<Rightarrow> None
      | Some (err, s) \<Rightarrow> Some (err, w\<lparr>est := s\<rparr>))"

section \<open>Command handlers\<close>

record command_update =
  cu_CommandID :: string
  cu_Kind :: string
  cu_ExpectedRevision :: string
  cu_TargetDefinitionActivation :: string

text \<open>The validator's error; the empty string accepts the Update.\<close>

definition command_validator :: "lifecycle_bounds \<Rightarrow> command_update \<Rightarrow> string" where
  "command_validator lb arg =
     (if cu_Kind arg = ''hold'' \<or> cu_Kind arg = ''resume'' then ''''
      else if cu_Kind arg = ''change_definition''
      then (if \<exists>d \<in> set (Definitions lb). da_ID d = cu_TargetDefinitionActivation arg then '''' else ''DEFINITION_UNAVAILABLE'')
      else ''UNSUPPORTED_BY_PROFILE'')"

definition quiescent :: "gstate \<Rightarrow> bool" where
  "quiescent g \<longleftrightarrow> gn_inflight g = 0 \<or> gn_done g"

definition when_quiescent :: "'e sdk \<Rightarrow> wctx \<Rightarrow> (gstate \<Rightarrow> gstate) \<Rightarrow> ('e \<times> gstate) world \<Rightarrow>
    (update_result \<times> ('e \<times> gstate) world) option" where
  "when_quiescent sdk c apply_it w =
     (case await sdk c quiescent w of
        None \<Rightarrow> None
      | Some (Some err, w1) \<Rightarrow> Some (\<lparr>ur_Outcome = ''blocked'', ur_ReasonCode = ''CANCELED''\<rparr>, w1)
      | Some (None, w1) \<Rightarrow>
          if gn_done (gst w1) then Some (\<lparr>ur_Outcome = ''rejected'', ur_ReasonCode = ''TERMINAL''\<rparr>, w1)
          else Some (\<lparr>ur_Outcome = ''applied'', ur_ReasonCode = ''''\<rparr>, upd apply_it w1))"

definition command_handler :: "'e sdk \<Rightarrow> wctx \<Rightarrow> command_update \<Rightarrow> ('e \<times> gstate) world \<Rightarrow> (update_result \<times> ('e \<times> gstate) world) option" where
  "command_handler sdk c arg w =
     (if cu_Kind arg = ''hold'' then when_quiescent sdk c (\<lambda>g. g\<lparr>gn_held := True\<rparr>) w
      else if cu_Kind arg = ''resume'' then
        (if \<not> gn_held (gst w) then Some (\<lparr>ur_Outcome = ''rejected'', ur_ReasonCode = ''NOT_HELD''\<rparr>, w)
         else if gn_fenced (gst w) then Some (\<lparr>ur_Outcome = ''rejected'', ur_ReasonCode = gn_fenceCode (gst w)\<rparr>, w)
         else Some (\<lparr>ur_Outcome = ''applied'', ur_ReasonCode = ''''\<rparr>, upd (\<lambda>g. g\<lparr>gn_held := False\<rparr>) w))
      else if cu_Kind arg = ''change_definition''
      then when_quiescent sdk c (\<lambda>g. g\<lparr>gn_definition := cu_TargetDefinitionActivation arg\<rparr>) w
      else Some (\<lparr>ur_Outcome = ''rejected'', ur_ReasonCode = ''UNSUPPORTED_BY_PROFILE''\<rparr>, w))"

section \<open>Admission\<close>

text \<open>The code a wait for a hold ends with; the empty string lets the run go on.\<close>

definition awaitRunnable :: "'e sdk \<Rightarrow> ('e \<times> gstate) world \<Rightarrow> (string \<times> ('e \<times> gstate) world) option" where
  "awaitRunnable sdk w =
     (case await sdk RunCtx (\<lambda>g. \<not> gn_held g \<or> gn_fenced g) w of
        None \<Rightarrow> None
      | Some (Some err, w1) \<Rightarrow> Some (''CANCELED'', w1)
      | Some (None, w1) \<Rightarrow> Some (if gn_fenced (gst w1) then gn_fenceCode (gst w1) else '''', w1))"

definition permit_wait :: "lifecycle_bounds \<Rightarrow> duration \<Rightarrow> duration" where
  "permit_wait lb remaining =
     (let pause = (if PermitPollInterval lb \<le> 0 then 30 * second else PermitPollInterval lb) in
      if remaining < pause then remaining else pause)"

partial_function (option) awaitPermit :: "('e \<times> gstate) runtime \<Rightarrow> 'e sdk \<Rightarrow> queues \<Rightarrow> bounds \<Rightarrow> lifecycle_bounds \<Rightarrow> input \<Rightarrow>
    ('e \<times> gstate) world \<Rightarrow> (string \<times> ('e \<times> gstate) world) option" where
  "awaitPermit rt sdk q b lb inp w =
     (case awaitRunnable sdk w of
        None \<Rightarrow> None
      | Some (code, w1) \<Rightarrow>
          if code \<noteq> '''' then Some (code, w1)
          else (case get as_permit (exec rt RunCtx (activityOptions q b)
                  (Lifecycle (RequestExecutionPermit (operation_command inp '':permit''))) w1) of
              (Inl err, w2) \<Rightarrow> Some (if RefusalCode (Some err) \<noteq> '''' then RefusalCode (Some err) else ''OBSERVER_FAILED'', w2)
            | (Inr answer, w2) \<Rightarrow>
                if pa_Granted answer then Some ('''', w2)
                else if pa_QueueDeadline answer - now rt w2 \<le> 0 then Some (''QUEUE_DEADLINE_EXCEEDED'', w2)
                else (case sleep rt RunCtx (permit_wait lb (pa_QueueDeadline answer - now rt w2)) w2 of
                    (Some err, w3) \<Rightarrow> Some (''CANCELED'', w3)
                  | (None, w3) \<Rightarrow> awaitPermit rt sdk q b lb inp w3)))"

section \<open>Bootstrap\<close>

definition scope_input :: "input \<Rightarrow> generation_view \<Rightarrow> source_scope_input" where
  "scope_input inp view =
     \<lparr>ss_OperationID = in_OperationID inp, ss_TenantID = in_TenantID inp, ss_BriefID = br_BriefID (gv_Brief view),
      ss_SubjectDigest = gv_SubjectDigest view, ss_SourceRevisions = gv_SourceRevisions view\<rparr>"

text \<open>The identity every launch envelope of the run carries.\<close>

definition generation_identity :: "('e \<times> gstate) runtime \<Rightarrow> queues \<Rightarrow> bounds \<Rightarrow> input \<Rightarrow> generation_view \<Rightarrow> ('e \<times> gstate) world \<Rightarrow>
    (verdict3 + component_identity option) \<times> ('e \<times> gstate) world" where
  "generation_identity rt q b inp view w =
     (if rt_version rt ''launch-component-identity'' = 1
      then (case get as_identity (exec rt RunCtx (activityOptions q b) (Lifecycle (BriefIdentity
              \<lparr>bi_TenantID = in_TenantID inp, bi_OperationID = in_OperationID inp, bi_Brief = gv_Brief view,
               bi_SourceRevision = gv_SourceRevision view\<rparr>)) w) of
          (Inl err, w1) \<Rightarrow> (Inl (unphased (settleOutcome rt RunCtx err ''BRIEF_INVALID'' w1)), w1)
        | (Inr ident, w1) \<Rightarrow> (Inr (Some ident), w1))
      else (Inr None, w))"

definition generation_bootstrap :: "('e \<times> gstate) runtime \<Rightarrow> queues \<Rightarrow> bounds \<Rightarrow> lifecycle_bounds \<Rightarrow> input \<Rightarrow> generation_view \<Rightarrow>
    ('e \<times> gstate) world \<Rightarrow> (verdict3 + component_identity option) \<times> ('e \<times> gstate) world" where
  "generation_bootstrap rt q b lb inp view w =
     (case get as_scope (exec rt RunCtx (activityOptions q b) (Lifecycle (CheckSourceScope (scope_input inp view))) w) of
        (Inl err, w1) \<Rightarrow> (Inl (unphased (settleOutcome rt RunCtx err ''SOURCE_UNAVAILABLE'' w1)), w1)
      | (Inr scope, w1) \<Rightarrow>
          if \<not> sd_Allowed scope
          then (Inl (''failed'', firstNonEmpty [sd_ReasonCode scope, ''SCOPE_REJECTED''], ''scope_rejected''), w1)
          else (case get as_unit (exec rt RunCtx (activityOptions q b) (Lifecycle (RecordFunding (operation_command inp '':funding''))) w1) of
              (Inl err, w2) \<Rightarrow> (Inl (unphased (fundingOutcome rt RunCtx err w2)), w2)
            | (Inr _, w2) \<Rightarrow>
                (case generation_identity rt q b inp view w2 of
                   (Inl v, w3) \<Rightarrow> (Inl v, w3)
                 | (Inr component, w3) \<Rightarrow>
                     (case acquireLease rt q b lb inp view w3 of
                        (code, w4) \<Rightarrow>
                          if code \<noteq> '''' then (Inl (''failed'', code, ''lease_unavailable''), w4)
                          else (Inr component, w4)))))"

section \<open>The rounds\<close>

definition keepsAcceptedStage :: "'e runtime \<Rightarrow> string \<Rightarrow> accepted_stage \<Rightarrow> bool" where
  "keepsAcceptedStage rt code stage \<longleftrightarrow> code = '''' \<and> as_Found stage \<and> rt_version rt holdAfterCleanup = 1"

text \<open>A step that ended under a hold, without a stage to keep, is run again after the resume.\<close>

definition ended_held :: "('e \<times> gstate) runtime \<Rightarrow> step_result \<Rightarrow> ('e \<times> gstate) world \<Rightarrow> bool" where
  "ended_held rt r w \<longleftrightarrow> gn_held (gst w) \<and> \<not> gn_fenced (gst w) \<and> \<not> rt_ctx_err rt RunCtx (est w) \<and>
     \<not> keepsAcceptedStage rt (jx_Code r) (jx_Stage r)"

definition brief_input :: "generation_view \<Rightarrow> launch_input" where
  "brief_input view = \<lparr>li_Name = ''brief'', li_Digest = ab_Digest (br_Brief (gv_Brief view)), li_Handle = ab_Handle (br_Brief (gv_Brief view))\<rparr>"

definition codegen_inputs :: "generation_view \<Rightarrow> accepted_stage option \<Rightarrow> accepted_stage option \<Rightarrow> launch_input list" where
  "codegen_inputs view prior findings =
     brief_input view # (case prior of None \<Rightarrow> [] | Some stage \<Rightarrow> stageInputs stage [''stage'', ''source'']) @
       (case findings of None \<Rightarrow> [] | Some stage \<Rightarrow> stageInputs stage [''evidence''])"

definition generation_step :: "input \<Rightarrow> string \<Rightarrow> nat \<Rightarrow> string \<Rightarrow> string \<Rightarrow> launch_input list \<Rightarrow> component_identity option \<Rightarrow> step_spec" where
  "generation_step inp step visit profile prefix inputs component =
     \<lparr>sp_OperationID = in_OperationID inp, sp_TenantID = in_TenantID inp, sp_StepID = step, sp_Visit = visit,
      sp_ProfileID = profile, sp_LaunchPrefix = prefix, sp_Inputs = inputs, sp_Component = component\<rparr>"

text \<open>What a round leaves: a return of the run, another round, or a certified source.\<close>

datatype round_end =
    RoundReturn verdict3
  | RoundAgain nat "accepted_stage option" "accepted_stage option"
  | RoundCertified accepted_stage accepted_stage attempt_ref

text \<open>The validation of the stage a round generated.\<close>

definition generation_validated :: "('e \<times> gstate) runtime \<Rightarrow> nat \<Rightarrow> nat \<Rightarrow> accepted_stage option \<Rightarrow> accepted_stage option \<Rightarrow>
    accepted_stage \<Rightarrow> step_result \<Rightarrow> ('e \<times> gstate) world \<Rightarrow> round_end" where
  "generation_validated rt maxRepairs repairs prior findings stage r w =
     (let validation = jx_Stage r in
      if gn_fenced (gst w) then RoundReturn (''failed'', gn_fenceCode (gst w), '''')
      else if ended_held rt r w then RoundAgain repairs prior findings
      else if jx_Code r \<noteq> '''' then RoundReturn (unphased (context_outcome rt RunCtx (jx_Code r) w))
      else if as_Verdict validation = ''certified'' then RoundCertified stage validation (jx_Attempt r)
      else if as_Verdict validation = ''repairable''
      then (if repairs \<ge> maxRepairs then RoundReturn (''failed'', ''REPAIRS_EXHAUSTED'', ''repairs_exhausted'')
            else RoundAgain (repairs + 1) (Some stage) (Some validation))
      else RoundReturn (''failed'', firstNonEmpty [as_FailureCode validation, map upper (as_Verdict validation)], ''''))"

definition generation_validate :: "('e \<times> gstate) runtime \<Rightarrow> 'e sdk \<Rightarrow> queues \<Rightarrow> bounds \<Rightarrow> input \<Rightarrow> component_identity option \<Rightarrow>
    string \<Rightarrow> nat \<Rightarrow> nat \<Rightarrow> accepted_stage option \<Rightarrow> accepted_stage option \<Rightarrow> accepted_stage \<Rightarrow> ('e \<times> gstate) world \<Rightarrow>
    (round_end \<times> ('e \<times> gstate) world) option" where
  "generation_validate rt sdk q b inp component validatorProfile maxRepairs repairs prior findings stage w =
     (case awaitRunnable sdk w of
        None \<Rightarrow> None
      | Some (code, w1) \<Rightarrow>
          if code \<noteq> '''' then Some (RoundReturn (unphased (context_outcome rt RunCtx code w1)), w1)
          else (case runJobStep rt WorkCtx q b (generation_step inp ''validate'' repairs validatorProfile ''gen-v''
                  (stageInputs stage [''source'']) component) w1 of
              None \<Rightarrow> None
            | Some (r, w2) \<Rightarrow> Some (generation_validated rt maxRepairs repairs prior findings stage r w2, w2)))"

text \<open>One round: the activation in force is read once the run is runnable.\<close>

definition generation_round :: "('e \<times> gstate) runtime \<Rightarrow> 'e sdk \<Rightarrow> queues \<Rightarrow> bounds \<Rightarrow> lifecycle_bounds \<Rightarrow> input \<Rightarrow> generation_view \<Rightarrow>
    component_identity option \<Rightarrow> nat \<Rightarrow> accepted_stage option \<Rightarrow> accepted_stage option \<Rightarrow> ('e \<times> gstate) world \<Rightarrow>
    (round_end \<times> ('e \<times> gstate) world) option" where
  "generation_round rt sdk q b lb inp view component repairs prior findings w =
     (case awaitRunnable sdk w of
        None \<Rightarrow> None
      | Some (code, w1) \<Rightarrow>
          if code \<noteq> '''' then Some (RoundReturn (unphased (context_outcome rt RunCtx code w1)), w1)
          else (case definition_loop (Definitions lb) (gn_definition (gst w1))
                  (gv_CodegenProfileID view, gv_ValidatorProfileID view, gv_MaxRepairs view) of
            (codegenProfile, validatorProfile, maxRepairs) \<Rightarrow>
              (case runJobStep rt WorkCtx q b (generation_step inp ''codegen'' repairs codegenProfile ''gen-c''
                      (codegen_inputs view prior findings) component) w1 of
                 None \<Rightarrow> None
               | Some (r, w2) \<Rightarrow>
                   (let stage = jx_Stage r in
                    if gn_fenced (gst w2) then Some (RoundReturn (''failed'', gn_fenceCode (gst w2), ''''), w2)
                    else if ended_held rt r w2 then Some (RoundAgain repairs prior findings, w2)
                    else if jx_Code r \<noteq> '''' then Some (RoundReturn (unphased (context_outcome rt RunCtx (jx_Code r) w2)), w2)
                    else if as_Verdict stage \<noteq> ''certified''
                    then Some (RoundReturn (''failed'', firstNonEmpty [as_FailureCode stage, map upper (as_Verdict stage)], ''''), w2)
                    else generation_validate rt sdk q b inp component validatorProfile maxRepairs repairs prior findings stage w2))))"

partial_function (option) generation_rounds :: "('e \<times> gstate) runtime \<Rightarrow> 'e sdk \<Rightarrow> queues \<Rightarrow> bounds \<Rightarrow> lifecycle_bounds \<Rightarrow> input \<Rightarrow>
    generation_view \<Rightarrow> component_identity option \<Rightarrow> nat \<Rightarrow> accepted_stage option \<Rightarrow> accepted_stage option \<Rightarrow>
    ('e \<times> gstate) world \<Rightarrow> ((verdict3 + accepted_stage \<times> accepted_stage \<times> attempt_ref) \<times> ('e \<times> gstate) world) option" where
  "generation_rounds rt sdk q b lb inp view component repairs prior findings w =
     (case generation_round rt sdk q b lb inp view component repairs prior findings w of
        None \<Rightarrow> None
      | Some (RoundReturn v, w1) \<Rightarrow> Some (Inl v, w1)
      | Some (RoundCertified stage validation attempt, w1) \<Rightarrow> Some (Inr (stage, validation, attempt), w1)
      | Some (RoundAgain repairs' prior' findings', w1) \<Rightarrow>
          generation_rounds rt sdk q b lb inp view component repairs' prior' findings' w1)"

section \<open>Registration of the candidate\<close>

definition candidate_open :: "input \<Rightarrow> generation_view \<Rightarrow> open_attempt_input" where
  "candidate_open inp view =
     \<lparr>oa_OperationID = in_OperationID inp, oa_TenantID = in_TenantID inp, oa_CommandID = in_OperationID inp @ '':candidate:1:open'',
      oa_StepID = ''register_candidate'', oa_Visit = 0, oa_ProfileID = gv_ProfileID view\<rparr>"

definition registration_deadline :: "lease_record \<Rightarrow> attempt_ref \<Rightarrow> time" where
  "registration_deadline lease attempt =
     (case ls_ExpiresAt lease of
        None \<Rightarrow> ar_Deadline attempt
      | Some at \<Rightarrow> if at < ar_Deadline attempt then at else ar_Deadline attempt)"

definition candidate_input :: "input \<Rightarrow> generation_view \<Rightarrow> attempt_ref \<Rightarrow> attempt_ref \<Rightarrow> lease_record \<Rightarrow> stage_artifact \<Rightarrow>
    stage_artifact \<Rightarrow> register_candidate_input" where
  "candidate_input inp view registration lastAttempt lease source cert =
     \<lparr>rc_OperationID = in_OperationID inp, rc_TenantID = in_TenantID inp, rc_AttemptID = ar_AttemptID registration,
      rc_InstanceID = '''', rc_ExecutionEpoch = parse_uint (ar_ExecutionEpoch registration),
      rc_CommandID = in_OperationID inp @ '':candidate:1'', rc_Occurrence = 1, rc_Subject = ''source:'' @ gv_SubjectDigest view,
      rc_SourceRevision = gv_SourceRevision view, rc_Source = source, rc_Certification = cert, rc_Lease = lease,
      rc_Deadline = registration_deadline lease lastAttempt\<rparr>"

definition candidate_outcome :: "candidate_ref \<Rightarrow> verdict3" where
  "candidate_outcome candidate =
     (if cf_State candidate = ''succeeded'' then (''succeeded'', '''', ''candidate_ready'')
      else if cf_State candidate = ''unknown'' then (''failed'', ''EFFECT_UNCERTAIN'', ''candidate_unknown'')
      else if cf_State candidate = ''denied''
      then (''failed'', firstNonEmpty [cf_DenialCode candidate, ''EFFECT_DENIED''], ''candidate_denied'')
      else (''failed'', ''CANDIDATE_REJECTED'', ''candidate_rejected''))"

definition register_send :: "('e \<times> gstate) runtime \<Rightarrow> queues \<Rightarrow> bounds \<Rightarrow> input \<Rightarrow> generation_view \<Rightarrow> attempt_ref \<Rightarrow> attempt_ref \<Rightarrow>
    stage_artifact \<Rightarrow> stage_artifact \<Rightarrow> ('e \<times> gstate) world \<Rightarrow> verdict3 \<times> ('e \<times> gstate) world" where
  "register_send rt q b inp view registration lastAttempt source cert w =
     (case get as_candidate (exec rt WorkCtx (controlOptions q b) (Lifecycle (RegisterCandidate
             (candidate_input inp view registration lastAttempt (gn_lease (gst w)) source cert))) (upd (inflight 1) w)) of
        (res, w1) \<Rightarrow>
          (let w2 = upd (inflight (-1)) w1 in
           if gn_fenced (gst w2) then ((''failed'', gn_fenceCode (gst w2), ''''), w2)
           else (case res of
               Inl err \<Rightarrow> (unphased (settleOutcome rt RunCtx err ''EFFECT_UNCERTAIN'' w2), w2)
             | Inr candidate \<Rightarrow> (candidate_outcome candidate, w2))))"

text \<open>The registration also answers the attempt it opened, which the deferred close settles.\<close>

definition generation_register :: "('e \<times> gstate) runtime \<Rightarrow> 'e sdk \<Rightarrow> queues \<Rightarrow> bounds \<Rightarrow> input \<Rightarrow> generation_view \<Rightarrow>
    accepted_stage \<Rightarrow> accepted_stage \<Rightarrow> attempt_ref \<Rightarrow> ('e \<times> gstate) world \<Rightarrow>
    ((verdict3 \<times> attempt_ref option) \<times> ('e \<times> gstate) world) option" where
  "generation_register rt sdk q b inp view stage certification lastAttempt w =
     (case awaitRunnable sdk w of
        None \<Rightarrow> None
      | Some (code, w1) \<Rightarrow>
          if code \<noteq> '''' then Some ((unphased (context_outcome rt RunCtx code w1), None), w1)
          else (case (stageArtifact stage ''source'', stageArtifact certification ''evidence'') of
              (None, _) \<Rightarrow> Some (((''failed'', ''SOURCE_MISSING'', ''''), None), w1)
            | (Some source, None) \<Rightarrow> Some (((''failed'', ''CERTIFICATION_MISSING'', ''''), None), w1)
            | (Some source, Some cert) \<Rightarrow>
                (case get as_attempt (exec rt RunCtx (activityOptions q b) (OpenAttempt (candidate_open inp view)) w1) of
                   (Inl err, w2) \<Rightarrow> Some ((unphased (settleOutcome rt RunCtx err ''STALE_EXECUTION'' w2), None), w2)
                 | (Inr registration, w2) \<Rightarrow>
                     (case register_send rt q b inp view registration lastAttempt source cert w2 of
                        (v, w3) \<Rightarrow> Some ((v, Some registration), w3)))))"

section \<open>The run\<close>

definition on_env :: "('e \<Rightarrow> 'e) \<Rightarrow> ('e \<times> gstate) world \<Rightarrow> ('e \<times> gstate) world" where
  "on_env f w = w\<lparr>est := apfst f (est w)\<rparr>"

definition generation_work :: "('e \<times> gstate) runtime \<Rightarrow> 'e sdk \<Rightarrow> queues \<Rightarrow> bounds \<Rightarrow> lifecycle_bounds \<Rightarrow> input \<Rightarrow>
    generation_view \<Rightarrow> component_identity option \<Rightarrow> ('e \<times> gstate) world \<Rightarrow>
    ((verdict3 \<times> attempt_ref option) \<times> ('e \<times> gstate) world) option" where
  "generation_work rt sdk q b lb inp view component w =
     (case generation_rounds rt sdk q b lb inp view component 0 None None (on_env (sdk_go sdk) w) of
        None \<Rightarrow> None
      | Some (Inl v, w1) \<Rightarrow> Some ((v, None), w1)
      | Some (Inr (stage, certification, lastAttempt), w1) \<Rightarrow>
          generation_register rt sdk q b inp view stage certification lastAttempt w1)"

text \<open>\<open>stopSupervisor\<close> and \<open>cancelWork\<close> are deferred only once they exist.\<close>

definition generation_body :: "('e \<times> gstate) runtime \<Rightarrow> 'e sdk \<Rightarrow> queues \<Rightarrow> bounds \<Rightarrow> lifecycle_bounds \<Rightarrow> input \<Rightarrow>
    generation_view \<Rightarrow> ('e \<times> gstate) world \<Rightarrow> ((verdict3 \<times> attempt_ref option \<times> bool) \<times> ('e \<times> gstate) world) option" where
  "generation_body rt sdk q b lb inp view w =
     (let w0 = upd (\<lambda>g. if ls_State (gv_Lease view) = ''lost''
                then g\<lparr>gn_definition := gv_DefinitionActivation view, gn_fenced := True, gn_fenceCode := ''LEASE_LOST''\<rparr>
                else g\<lparr>gn_definition := gv_DefinitionActivation view\<rparr>) w
      in case awaitPermit rt sdk q b lb inp w0 of
           None \<Rightarrow> None
         | Some (code, w1) \<Rightarrow>
             if code \<noteq> '''' then Some ((unphased (context_outcome rt RunCtx code w1), None, False), w1)
             else (case generation_bootstrap rt q b lb inp view w1 of
                 (Inl v, w2) \<Rightarrow> Some ((v, None, False), w2)
               | (Inr component, w2) \<Rightarrow>
                   map_option (\<lambda>((v, registration), w3). ((v, registration, True), w3))
                     (generation_work rt sdk q b lb inp view component w2)))"

definition generation_view_of :: "('e \<times> gstate) runtime \<Rightarrow> queues \<Rightarrow> bounds \<Rightarrow> input \<Rightarrow> ('e \<times> gstate) world \<Rightarrow>
    (wf_error + generation_view) \<times> ('e \<times> gstate) world" where
  "generation_view_of rt q b inp w =
     get as_generation (exec rt RunCtx (readOptions q b) (Lifecycle (GetGeneration (in_OperationID inp) (in_TenantID inp))) w)"

text \<open>
  The deferred calls, last first: the close of the registration attempt, the two cancellations,
  the release of the lease with the settlement, and the wait for the handlers.
\<close>

definition generation_settle :: "('e \<times> gstate) runtime \<Rightarrow> 'e sdk \<Rightarrow> queues \<Rightarrow> bounds \<Rightarrow> lifecycle_bounds \<Rightarrow> input \<Rightarrow>
    generation_view \<Rightarrow> verdict3 \<Rightarrow> wf_error option \<Rightarrow> ('e \<times> gstate) world \<Rightarrow> (wf_error option \<times> ('e \<times> gstate) world) option" where
  "generation_settle rt sdk q b lb inp view v err w =
     (case releaseLease rt Disconnected q b lb inp view (upd (\<lambda>g. g\<lparr>gn_done := True\<rparr>) w) of
        None \<Rightarrow> None
      | Some w1 \<Rightarrow>
          (case settle_end rt q b inp (fst v) (fst (snd v)) (snd (snd v)) w1 of
             None \<Rightarrow> None
           | Some (serr, w2) \<Rightarrow>
               map_option (\<lambda>s. (if IsContinueAsNew serr \<or> err = None then serr else err, w2\<lparr>est := s\<rparr>))
                 (sdk_handlers sdk (est w2))))"

definition generation_end :: "('e \<times> gstate) runtime \<Rightarrow> 'e sdk \<Rightarrow> queues \<Rightarrow> bounds \<Rightarrow> lifecycle_bounds \<Rightarrow> input \<Rightarrow>
    generation_view \<Rightarrow> verdict3 \<times> attempt_ref option \<times> bool \<Rightarrow> ('e \<times> gstate) world \<Rightarrow>
    (wf_error option \<times> ('e \<times> gstate) world) option" where
  "generation_end rt sdk q b lb inp view = (\<lambda>(v, registration, working) w.
     case (case registration of
             None \<Rightarrow> Some (None, w)
           | Some attempt \<Rightarrow>
               closeForSettlement rt Disconnected q b attempt (ar_AttemptID attempt @ '':close'') ''completed'' ''not_required'' '''' w) of
       None \<Rightarrow> None
     | Some (err, w1) \<Rightarrow>
         generation_settle rt sdk q b lb inp view v err
           (if working then on_env (sdk_stop_supervisor sdk) (on_env (sdk_cancel_work sdk) w1) else w1))"

definition no_view :: generation_view where
  "no_view = \<lparr>gv_ProfileID = '''', gv_SubjectDigest = '''', gv_SourceRevision = '''', gv_ActorID = '''',
     gv_Brief = \<lparr>br_BriefID = '''', br_Brief = \<lparr>ab_TransferID = '''', ab_Digest = '''', ab_Handle = ''''\<rparr>, br_RequirementsDigest = '''',
       br_Revision = '''', br_State = ''''\<rparr>,
     gv_SourceRevisions = [], gv_QueueDeadline = 0, gv_ActiveDeadline = None, gv_PermitActive = False, gv_Lease = no_lease,
     gv_Funded = False, gv_DefinitionActivation = '''', gv_MaxRepairs = 0, gv_CodegenProfileID = '''', gv_ValidatorProfileID = '''',
     gv_CandidateEffectID = ''''\<rparr>"

definition Generation :: "('e \<times> gstate) runtime \<Rightarrow> 'e sdk \<Rightarrow> queues \<Rightarrow> bounds \<Rightarrow> lifecycle_bounds \<Rightarrow> input \<Rightarrow> ('e \<times> gstate) world \<Rightarrow>
    (wf_error option \<times> ('e \<times> gstate) world) option" where
  "Generation rt sdk q b lb inp w =
     (case in_Settle inp of
        Some carry \<Rightarrow> settleOnly rt q b inp carry w
      | None \<Rightarrow>
          (case generation_view_of rt q b inp (upd (\<lambda>_. new_gstate) w) of
             (Inl err, w1) \<Rightarrow>
               generation_end rt sdk q b lb inp no_view (unphased (settleOutcome rt RunCtx err ''CONTROL_UNAVAILABLE'' w1), None, False) w1
           | (Inr view, w1) \<Rightarrow>
               (case generation_body rt sdk q b lb inp view w1 of
                  None \<Rightarrow> None
                | Some (e, w2) \<Rightarrow> generation_end rt sdk q b lb inp view e w2)))"

end
