(* ===== verification/GenerationSafe.thy ===== *)
theory GenerationSafe
  imports Generation
begin

text \<open>
  What the parts of a \<open>Generation\<close> run do: where a step's result comes from, what is
  known before the first step, the rounds within their repair bound, the one registration a run may send and
  the calls of its deferred end.
\<close>

section \<open>Where a step's result comes from\<close>

lemma createJob_created:
  assumes "createJob rt c q b spec launch deadline l w = (res, l', w')"
  shows "res = Inr job \<Longrightarrow> \<exists>opts n. Act c opts (Temporal.CreateJob (create_input spec launch deadline n)) (Inr (RJob job)) \<in> set (trace w')"
  using assms unfolding createJob_def
proof (induction rule: create_loop_induct)
  case (answered interval l w raw w1 job')
  then have "raw = Inr (RJob job)" by (auto simp: decode_Inr dest: sym)
  then show ?case using trace_exec [OF answered(1)] by (auto intro!: exI [of _ "createOptions q b"] exI [of _ "issued l + 1"])
qed simp_all

text \<open>
  A step that returned a result opened its attempt, prepared a launch of it, had a Job created
  for that launch over the step's inputs, and read the stage of the attempt from Control.
\<close>

definition job_created :: "wctx \<Rightarrow> step_spec \<Rightarrow> attempt_ref \<Rightarrow> event list \<Rightarrow> bool" where
  "job_created c spec attempt es \<longleftrightarrow>
     (\<exists>opts opts' p launch ci job. Act c opts (PrepareLaunch p) (Inr (RLaunch launch)) \<in> set es \<and> pl_Attempt p = attempt \<and>
        Act c opts' (Temporal.CreateJob ci) (Inr (RJob job)) \<in> set es \<and> cj_Launch ci = launch \<and>
        cj_ProfileID ci = sp_ProfileID spec \<and> cj_Inputs ci = sp_Inputs spec \<and> cj_Component ci = sp_Component spec)"

definition job_result :: "wctx \<Rightarrow> step_spec \<Rightarrow> step_result \<Rightarrow> event list \<Rightarrow> bool" where
  "job_result c spec r es \<longleftrightarrow>
     (\<exists>opts n. Act c opts (OpenAttempt (open_step spec n)) (Inr (RAttempt (jx_Attempt r))) \<in> set es) \<and>
     job_created c spec (jx_Attempt r) es \<and> (\<exists>e \<in> set es. stage_answered c spec (jx_Attempt r) (jx_Stage r) e)"

lemma job_created_mono: "job_created c spec attempt es \<Longrightarrow> set es \<subseteq> set es' \<Longrightarrow> job_created c spec attempt es'"
  unfolding job_created_def by blast

lemma job_result_mono: "job_result c spec r es \<Longrightarrow> set es \<subseteq> set es' \<Longrightarrow> job_result c spec r es'"
  unfolding job_result_def using job_created_mono by blast

lemma step_body_created:
  assumes "step_body rt c q b spec attempt w = (st', w')" "jt_Code st' = ''''"
  shows "job_created c spec attempt (trace w')"
proof -
  have no_error: False if "step_error rt c err code st v = (st', w')" "code \<noteq> ''''" for err code st v
    using step_error_code [OF that(2,1)] assms(2) by simp
  obtain res w1 where pl: "get as_launch (exec rt c (activityOptions q b) (step_prepare spec attempt) w) = (res, w1)" by fastforce
  have late: "ar_Deadline attempt > now rt w" using assms by (auto simp: step_body_def returned_def split: if_splits)
  then obtain launch where launch: "res = Inr launch"
    using assms(1) pl no_error by (cases res) (auto simp: step_body_def Let_def)
  have run: "step_launched rt c q b spec attempt launch (launch_deadline b attempt (now rt w)) w1 = (st', w')"
    using assms(1) pl launch late by (simp add: step_body_def Let_def)
  obtain raw where prepared: "trace w1 = Act c (activityOptions q b) (step_prepare spec attempt) (Inr (RLaunch launch)) # trace w"
    using answered_call [OF pl [unfolded launch]] by auto
  show ?thesis using run
  proof (cases rule: step_launched_does)
    case (1 cres l1 w2)
    then obtain job where job: "cres = Inr job" using run no_error by (cases cres) (auto simp: step_launched_def)
    then obtain opts n where created: "Act c opts (Temporal.CreateJob (create_input (step_job spec attempt) launch (ar_Deadline attempt) n))
        (Inr (RJob job)) \<in> set (trace w2)" using createJob_created [OF 1(1)] by blast
    have "set (trace w1) \<subseteq> set (trace w2)" by (rule runs_set [OF createJob_runs [OF 1(1)]])
    then have "Act c (activityOptions q b) (step_prepare spec attempt) (Inr (RLaunch launch)) \<in> set (trace w')"
      using prepared runs_set [OF 1(2)] by auto
    then show ?thesis using created runs_set [OF 1(2)] unfolding job_created_def
      by (intro exI conjI) (assumption, simp, blast, simp_all add: create_input_def)
  qed
qed

lemma runJobStep_result:
  assumes "runJobStep rt c q b spec w = Some (r, w')" "jx_Code r = ''''"
  shows "job_result c spec r (trace w')"
  using assms(1)
proof (cases rule: runJobStep_cases)
  case (refused opts raw)
  then show ?thesis using assms(2) by simp
next
  case (opened w1 st w2)
  have code: "jt_Code st = ''''"
    using opened(3)
  proof (cases rule: step_finish_cases)
    case (1 v v')
    show ?thesis using 1(1) by (cases rule: step_close_cases) (use assms(2) in \<open>auto split: if_splits\<close>)
  qed
  have "set (trace w2) \<subseteq> set (trace w')"
    using opened(3)
  proof (cases rule: step_finish_cases)
    case (1 v v')
    show ?thesis using runs_set [OF step_close_does(1) [OF 1(1)]] 1(2,3) by simp
  qed
  moreover have "set (trace w1) \<subseteq> set (trace w2)" using runs_set [OF step_body_calls [OF opened(2)]] by simp
  moreover have "\<exists>opts n. Act c opts (OpenAttempt (open_step spec n)) (Inr (RAttempt (jx_Attempt r))) \<in> set (trace w1)"
    using answered_call [OF opened(1)] by auto
  moreover have "job_created c spec (jx_Attempt r) (trace w2)" by (rule step_body_created [OF opened(2) code])
  moreover have "\<exists>e \<in> set (trace w2). stage_answered c spec (jx_Attempt r) (jx_Stage r) e"
    using step_body_evidence [OF opened(2) code] opened(4) by (simp add: evidenced_def)
  ultimately show ?thesis unfolding job_result_def using job_created_mono by blast
qed

section \<open>Registrations\<close>

fun is_registration :: "event \<Rightarrow> bool" where
  "is_registration (Act _ _ (Lifecycle (RegisterCandidate _)) _) \<longleftrightarrow> True"
| "is_registration _ \<longleftrightarrow> False"

text \<open>An event of the run that registers and settles nothing and opens no attempt of a visit beyond \<open>n\<close>.\<close>

fun bounded_event :: "nat \<Rightarrow> event \<Rightarrow> bool" where
  "bounded_event n (Act _ _ (Lifecycle (RegisterCandidate _)) _) \<longleftrightarrow> False"
| "bounded_event n (Act _ _ (SettleOperation _) _) \<longleftrightarrow> False"
| "bounded_event n (Act _ _ (OpenAttempt i) _) \<longleftrightarrow> oa_Visit i \<le> n"
| "bounded_event n _ \<longleftrightarrow> True"

abbreviation quiet :: "nat \<Rightarrow> 'e world \<Rightarrow> 'e world \<Rightarrow> bool" where
  "quiet n \<equiv> extends (bounded_event n)"

lemma bounded_event_registration: "bounded_event n e \<Longrightarrow> \<not> is_registration e"
  by (cases e rule: is_registration.cases) auto

lemma inner_bounded: "inner_event e \<Longrightarrow> bounded_event n e"
  by (cases "(n, e)" rule: bounded_event.cases) auto

lemma close_bounded: "close_event c q b inp e \<Longrightarrow> bounded_event n e"
  by (rule inner_bounded, rule close_inner_event)

lemma runJobStep_quiet:
  assumes "runJobStep rt c q b spec w = Some (r, w')" "sp_Visit spec \<le> n"
  shows "quiet n w w'"
proof (rule extends_mono [OF runJobStep_sends [OF assms(1)]])
  fix e assume "opens_step c spec e \<or> inner_event e"
  then show "bounded_event n e" using assms(2) inner_bounded
    by (cases "(c, spec, e)" rule: opens_step.cases) (auto simp: open_step_def)
qed

lemma same_trace_quiet: "trace w' = trace w \<Longrightarrow> extends P w w'"
  by (simp add: extends_def)

lemma await_trace: "await sdk c ready w = Some (err, w') \<Longrightarrow> trace w' = trace w"
  by (auto simp: await_def split: option.splits)

lemma awaitRunnable_trace: "awaitRunnable sdk w = Some (code, w') \<Longrightarrow> trace w' = trace w"
  by (auto simp: awaitRunnable_def dest: await_trace split: option.splits)

lemma on_env_trace [simp]: "trace (on_env f w) = trace w"
  by (simp add: on_env_def)

section \<open>What is known before the first step\<close>

definition permit_granted :: "input \<Rightarrow> event list \<Rightarrow> bool" where
  "permit_granted inp es \<longleftrightarrow> (\<exists>opts a. pa_Granted a \<and>
     Act RunCtx opts (Lifecycle (RequestExecutionPermit (operation_command inp '':permit''))) (Inr (RLifecycle (RPermit a))) \<in> set es)"

definition scope_allowed :: "input \<Rightarrow> generation_view \<Rightarrow> event list \<Rightarrow> bool" where
  "scope_allowed inp view es \<longleftrightarrow> (\<exists>opts d. sd_Allowed d \<and>
     Act RunCtx opts (Lifecycle (CheckSourceScope (scope_input inp view))) (Inr (RLifecycle (RScope d))) \<in> set es)"

definition funding_recorded :: "input \<Rightarrow> event list \<Rightarrow> bool" where
  "funding_recorded inp es \<longleftrightarrow> (\<exists>opts a.
     Act RunCtx opts (Lifecycle (RecordFunding (operation_command inp '':funding''))) (Inr a) \<in> set es)"

text \<open>The identity the steps carry: the brief's own, except in a history from before the marker.\<close>

definition identity_known :: "'e runtime \<Rightarrow> input \<Rightarrow> generation_view \<Rightarrow> component_identity option \<Rightarrow> event list \<Rightarrow> bool" where
  "identity_known rt inp view component es \<longleftrightarrow>
     (if rt_version rt ''launch-component-identity'' = 1
      then \<exists>opts ident. component = Some ident \<and> Act RunCtx opts (Lifecycle (BriefIdentity
             \<lparr>bi_TenantID = in_TenantID inp, bi_OperationID = in_OperationID inp, bi_Brief = gv_Brief view,
              bi_SourceRevision = gv_SourceRevision view\<rparr>)) (Inr (RLifecycle (RIdentity ident))) \<in> set es
      else component = None)"

definition admitted :: "'e runtime \<Rightarrow> input \<Rightarrow> generation_view \<Rightarrow> component_identity option \<Rightarrow> event list \<Rightarrow> bool" where
  "admitted rt inp view component es \<longleftrightarrow>
     permit_granted inp es \<and> scope_allowed inp view es \<and> funding_recorded inp es \<and> identity_known rt inp view component es"

lemma permit_granted_mono: "permit_granted inp es \<Longrightarrow> set es \<subseteq> set es' \<Longrightarrow> permit_granted inp es'"
  unfolding permit_granted_def by blast

lemma scope_allowed_mono: "scope_allowed inp view es \<Longrightarrow> set es \<subseteq> set es' \<Longrightarrow> scope_allowed inp view es'"
  unfolding scope_allowed_def by blast

lemma funding_recorded_mono: "funding_recorded inp es \<Longrightarrow> set es \<subseteq> set es' \<Longrightarrow> funding_recorded inp es'"
  unfolding funding_recorded_def by blast

lemma identity_known_mono: "identity_known rt inp view component es \<Longrightarrow> set es \<subseteq> set es' \<Longrightarrow> identity_known rt inp view component es'"
  unfolding identity_known_def by (auto split: if_splits)

lemmas admitted_mono = permit_granted_mono scope_allowed_mono funding_recorded_mono identity_known_mono

lemma admitted_later: "admitted rt inp view component es \<Longrightarrow> set es \<subseteq> set es' \<Longrightarrow> admitted rt inp view component es'"
  unfolding admitted_def using admitted_mono by metis

lemma extends_subset: "extends P w w' \<Longrightarrow> set (trace w) \<subseteq> set (trace w')"
  by (auto simp: extends_def)

lemma awaitPermit_does:
  assumes "awaitPermit rt sdk q b lb inp w = Some r"
  shows "quiet n w (snd r) \<and> (fst r = '''' \<longrightarrow> permit_granted inp (trace (snd r)))"
  using assms
proof (induction rule: awaitPermit.raw_induct [rotated 1, consumes 1, case_names step])
  case (step ap rt sdk q b lb inp w r)
  obtain code w1 where ar: "awaitRunnable sdk w = Some (code, w1)" using step(2) by (auto split: option.splits)
  have q1: "quiet n w w1" by (rule same_trace_quiet [OF awaitRunnable_trace [OF ar]])
  show ?case
  proof (cases "code = ''''")
    case False
    then show ?thesis using step(2) ar q1 by auto
  next
    case True
    obtain res w2 where one: "get as_permit (exec rt RunCtx (activityOptions q b)
        (Lifecycle (RequestExecutionPermit (operation_command inp '':permit''))) w1) = (res, w2)" by fastforce
    have q2: "quiet n w w2" by (rule extends_trans [OF q1], rule extends_get_exec [OF one]) simp
    show ?thesis
    proof (cases res)
      case (Inl err)
      then show ?thesis using step(2) ar True one q2 by (auto split: if_splits)
    next
      case (Inr answer)
      let ?pause = "permit_wait lb (pa_QueueDeadline answer - now rt w2)"
      obtain x w3 where sl: "sleep rt RunCtx ?pause w2 = (x, w3)" by fastforce
      have q3: "quiet n w w3" by (rule extends_trans [OF q2], rule extends_sleep [OF sl]) simp
      have granted: "permit_granted inp (trace w2)" if "pa_Granted answer"
        using answered_call [OF one [unfolded Inr]] that unfolding permit_granted_def by fastforce
      consider "pa_Granted answer" "r = ('''', w2)" | "r = (''QUEUE_DEADLINE_EXCEEDED'', w2)" | "r = (''CANCELED'', w3)"
        | "ap rt sdk q b lb inp w3 = Some r"
      proof -
        have "(if pa_Granted answer then Some ('''', w2) else if pa_QueueDeadline answer - now rt w2 \<le> 0 then Some (''QUEUE_DEADLINE_EXCEEDED'', w2)
            else case x of Some err \<Rightarrow> Some (''CANCELED'', w3) | None \<Rightarrow> ap rt sdk q b lb inp w3) = Some r"
          using step(2) by (cases "pa_Granted answer"; cases "pa_QueueDeadline answer \<le> now rt w2") (simp_all add: ar True one Inr sl)
        then have "pa_Granted answer \<and> r = ('''', w2) \<or> r = (''QUEUE_DEADLINE_EXCEEDED'', w2) \<or> r = (''CANCELED'', w3) \<or>
            ap rt sdk q b lb inp w3 = Some r"
          by (cases x) (auto split: if_splits)
        then show thesis using that by blast
      qed
      then show ?thesis
      proof cases
        case 4
        from step(1) [OF this] show ?thesis using extends_trans [OF q3] by blast
      qed (use q2 q3 granted in auto)
    qed
  qed
qed

lemma acquire_query_quiet:
  assumes "acquire_query rt q b lb inp view res w = (res', w')"
  shows "quiet n w w'"
proof (cases "lt_State res = ''unknown''")
  case True
  obtain r w1 where one: "lease_call rt RunCtx q b lb QueryLease (leaseInput inp view (gst w) lb) w = (r, w1)" by fastforce
  have "quiet n w w1" by (rule extends_get_exec [OF one [unfolded lease_call_def]]) simp
  moreover have "w' = w1" using assms True one by (auto simp: acquire_query_def split: sum.splits)
  ultimately show ?thesis by simp
qed (use assms in \<open>simp add: acquire_query_def\<close>)

lemma acquireLease_quiet:
  assumes "acquireLease rt q b lb inp view w = (code, w')"
  shows "quiet n w w'"
proof -
  let ?w0 = "upd (\<lambda>g. g\<lparr>gn_occurrence := 1\<rparr>) w"
  have q0: "quiet n w ?w0" by (rule same_trace_quiet) simp
  show ?thesis
  proof (cases "ls_State (gv_Lease view) = ''held'' \<and> (\<exists>at. ls_ExpiresAt (gv_Lease view) = Some at \<and> at > now rt ?w0)")
    case True
    then show ?thesis using assms by (auto simp: acquireLease_def Let_def intro!: same_trace_quiet)
  next
    case False
    obtain r w1 where one: "lease_call rt RunCtx q b lb AcquireLease (leaseInput inp view (gst ?w0) lb) ?w0 = (r, w1)" by fastforce
    have q1: "quiet n w w1"
      by (rule extends_trans [OF q0], rule extends_get_exec [OF one [unfolded lease_call_def]]) simp
    show ?thesis
    proof (cases r)
      case (Inl err)
      have "w' = w1" using assms unfolding acquireLease_def Let_def if_not_P [OF False] one Inl by simp
      then show ?thesis using q1 by simp
    next
      case (Inr answered)
      obtain res w2 where two: "acquire_query rt q b lb inp view answered w1 = (res, w2)" by fastforce
      have q2: "quiet n w w2" by (rule extends_trans [OF q1 acquire_query_quiet [OF two]])
      obtain rec w3 where three: "recordLease rt RunCtx q b inp (gn_occurrence (gst w2)) res ''held'' w2 = (rec, w3)" by fastforce
      have q3: "quiet n w w3"
        by (rule extends_trans [OF q2], rule extends_get_exec [OF three [unfolded recordLease_def]]) simp
      have "trace w' = trace w2 \<or> trace w' = trace w3"
        using assms unfolding acquireLease_def Let_def if_not_P [OF False] one Inr
        by (cases rec) (auto simp: two three split: if_splits)
      then show ?thesis using q2 q3 by (auto simp: extends_def)
    qed
  qed
qed

lemma generation_identity_does:
  assumes "generation_identity rt q b inp view w = (res, w')"
  shows "quiet n w w' \<and> (case res of Inl v \<Rightarrow> fst v \<noteq> ''succeeded'' | Inr component \<Rightarrow> identity_known rt inp view component (trace w'))"
proof (cases "rt_version rt ''launch-component-identity'' = 1")
  case True
  let ?r = "BriefIdentity \<lparr>bi_TenantID = in_TenantID inp, bi_OperationID = in_OperationID inp, bi_Brief = gv_Brief view,
      bi_SourceRevision = gv_SourceRevision view\<rparr>"
  obtain r w1 where one: "get as_identity (exec rt RunCtx (activityOptions q b) (Lifecycle ?r) w) = (r, w1)" by fastforce
  have "quiet n w w1" by (rule extends_get_exec [OF one]) simp
  moreover have "w' = w1" using assms True one by (auto simp: generation_identity_def split: sum.splits)
  moreover have "case res of Inl v \<Rightarrow> fst v \<noteq> ''succeeded'' | Inr component \<Rightarrow> identity_known rt inp view component (trace w1)"
  proof (cases r)
    case (Inl err)
    then show ?thesis using assms True one by (auto simp: generation_identity_def unphased_def)
  next
    case (Inr ident)
    then have "res = Inr (Some ident)" using assms True one by (auto simp: generation_identity_def)
    then show ?thesis using answered_call [OF one [unfolded Inr]] True by (fastforce simp: identity_known_def)
  qed
  ultimately show ?thesis by (cases res) simp_all
qed (use assms in \<open>auto simp: generation_identity_def identity_known_def\<close>)

lemma generation_bootstrap_does:
  assumes "generation_bootstrap rt q b lb inp view w = (res, w')" "permit_granted inp (trace w)"
  shows "quiet n w w' \<and> (case res of Inl v \<Rightarrow> fst v \<noteq> ''succeeded'' | Inr component \<Rightarrow> admitted rt inp view component (trace w'))"
proof -
  obtain r1 w1 where one: "get as_scope (exec rt RunCtx (activityOptions q b) (Lifecycle (CheckSourceScope (scope_input inp view))) w) = (r1, w1)"
    by fastforce
  have q1: "quiet n w w1" by (rule extends_get_exec [OF one]) simp
  show ?thesis
  proof (cases "\<exists>scope. r1 = Inr scope \<and> sd_Allowed scope")
    case False
    then show ?thesis using assms one q1 by (cases r1) (auto simp: generation_bootstrap_def unphased_def)
  next
    case True
    then obtain scope where scope: "r1 = Inr scope" "sd_Allowed scope" by blast
    have a1: "scope_allowed inp view (trace w1)"
      using answered_call [OF one [unfolded scope(1)]] scope(2) unfolding scope_allowed_def by fastforce
    obtain r2 w2 where two: "get as_unit (exec rt RunCtx (activityOptions q b) (Lifecycle (RecordFunding (operation_command inp '':funding''))) w1) = (r2, w2)"
      by fastforce
    have q12: "quiet n w1 w2" by (rule extends_get_exec [OF two]) simp
    have q2: "quiet n w w2" by (rule extends_trans [OF q1 q12])
    show ?thesis
    proof (cases r2)
      case (Inl err)
      then show ?thesis using assms one scope two q2 by (auto simp: generation_bootstrap_def unphased_def fundingOutcome_def)
    next
      case (Inr u)
      have a2: "funding_recorded inp (trace w2)"
        using answered_call [OF two [unfolded Inr]] unfolding funding_recorded_def by fastforce
      obtain r3 w3 where three: "generation_identity rt q b inp view w2 = (r3, w3)" by fastforce
      note d = generation_identity_does [OF three]
      have q3: "quiet n w w3" using extends_trans [OF q2] d by blast
      show ?thesis
      proof (cases r3)
        case (Inl v)
        then show ?thesis using assms one scope two Inr three q3 d by (auto simp: generation_bootstrap_def)
      next
        case id: (Inr component)
        obtain code w4 where four: "acquireLease rt q b lb inp view w3 = (code, w4)" by fastforce
        have q4: "quiet n w3 w4" by (rule acquireLease_quiet [OF four])
        have "admitted rt inp view component (trace w4)"
          unfolding admitted_def using assms(2) a1 a2 d id
            extends_subset [OF extends_trans [OF q3 q4]] extends_subset [OF extends_trans [OF extends_trans [OF q12 conjunct1 [OF d]] q4]]
            extends_subset [OF extends_trans [OF conjunct1 [OF d] q4]] extends_subset [OF q4]
          by (auto intro: admitted_mono)
        moreover have "res = (if code \<noteq> '''' then Inl (''failed'', code, ''lease_unavailable'') else Inr component) \<and> w' = w4"
          using assms one scope two Inr three id four by (auto simp: generation_bootstrap_def split: if_splits)
        ultimately show ?thesis using extends_trans [OF q3 q4] by auto
      qed
    qed
  qed
qed

section \<open>The rounds\<close>

definition repair_bound :: "lifecycle_bounds \<Rightarrow> generation_view \<Rightarrow> nat" where
  "repair_bound lb view = fold max (map (\<lambda>d. nat (da_MaxRepairs d)) (Definitions lb)) (gv_MaxRepairs view)"

lemma fold_max_ge: "(acc::nat) \<le> fold max ns acc"
proof (induction ns arbitrary: acc)
  case (Cons n ns)
  from Cons [of "max n acc"] show ?case by simp
qed simp

lemma fold_max_mono: "(acc::nat) \<le> acc' \<Longrightarrow> fold max ns acc \<le> fold max ns acc'"
  by (induction ns arbitrary: acc acc') simp_all

lemma definition_loop_repairs:
  "definition_loop ds ident (c, v, m) = (c', v', m') \<Longrightarrow> m' \<le> fold max (map (\<lambda>d. nat (da_MaxRepairs d)) ds) m"
proof (induction ds arbitrary: c v m)
  case (Cons d ds)
  show ?case
  proof (cases "da_ID d = ident \<and> da_MaxRepairs d \<ge> 0")
    case True
    then have "m' \<le> fold max (map (\<lambda>d. nat (da_MaxRepairs d)) ds) (nat (da_MaxRepairs d))"
      using Cons by (auto simp: split: if_splits)
    also have "\<dots> \<le> fold max (map (\<lambda>d. nat (da_MaxRepairs d)) ds) (max (nat (da_MaxRepairs d)) m)"
      by (rule fold_max_mono) simp
    finally show ?thesis by simp
  next
    case False
    then have "m' \<le> fold max (map (\<lambda>d. nat (da_MaxRepairs d)) ds) m"
      using Cons by (auto simp: split: if_splits)
    also have "\<dots> \<le> fold max (map (\<lambda>d. nat (da_MaxRepairs d)) ds) (max (nat (da_MaxRepairs d)) m)"
      by (rule fold_max_mono) simp
    finally show ?thesis by simp
  qed
qed simp

text \<open>
  A certified round: a codegen Job of some visit ended with a certified stage, and a validation
  Job of the same visit over the source of exactly that stage ended with a certified stage.
\<close>

definition certified_round :: "input \<Rightarrow> generation_view \<Rightarrow> component_identity option \<Rightarrow> accepted_stage \<Rightarrow> accepted_stage \<Rightarrow>
    attempt_ref \<Rightarrow> event list \<Rightarrow> bool" where
  "certified_round inp view component stage validation attempt es \<longleftrightarrow>
     as_Verdict stage = ''certified'' \<and> as_Verdict validation = ''certified'' \<and>
     (\<exists>n codegen validator prior findings ra rb.
        job_result WorkCtx (generation_step inp ''codegen'' n codegen ''gen-c'' (codegen_inputs view prior findings) component) ra es \<and>
        jx_Stage ra = stage \<and>
        job_result WorkCtx (generation_step inp ''validate'' n validator ''gen-v'' (stageInputs stage [''source'']) component) rb es \<and>
        jx_Stage rb = validation \<and> jx_Attempt rb = attempt)"

lemma certified_roundI:
  assumes "as_Verdict (jx_Stage ra) = ''certified''" "as_Verdict (jx_Stage rb) = ''certified''"
    and "job_result WorkCtx (generation_step inp ''codegen'' n codegen ''gen-c'' (codegen_inputs view prior findings) component) ra es"
    and "job_result WorkCtx (generation_step inp ''validate'' n validator ''gen-v'' (stageInputs (jx_Stage ra) [''source'']) component) rb es"
  shows "certified_round inp view component (jx_Stage ra) (jx_Stage rb) (jx_Attempt rb) es"
  using assms unfolding certified_round_def by blast

lemma certified_round_mono:
  "certified_round inp view component stage validation attempt es \<Longrightarrow> set es \<subseteq> set es' \<Longrightarrow>
    certified_round inp view component stage validation attempt es'"
  unfolding certified_round_def using job_result_mono by blast

fun round_ok :: "input \<Rightarrow> generation_view \<Rightarrow> component_identity option \<Rightarrow> nat \<Rightarrow> round_end \<Rightarrow> event list \<Rightarrow> bool" where
  "round_ok inp view component n (RoundReturn v) es \<longleftrightarrow> fst v \<noteq> ''succeeded''"
| "round_ok inp view component n (RoundAgain k prior findings) es \<longleftrightarrow> k \<le> n"
| "round_ok inp view component n (RoundCertified stage validation attempt) es \<longleftrightarrow>
     certified_round inp view component stage validation attempt es"

lemma unphased_context [simp]: "fst (unphased (context_outcome rt c code w)) \<noteq> ''succeeded''"
  by (simp add: unphased_def context_outcome_def)

lemma unphased_settle [simp]: "fst (unphased (settleOutcome rt c err code w)) \<noteq> ''succeeded''"
  by (simp add: unphased_def)

lemma generation_validate_does:
  assumes "generation_validate rt sdk q b inp component validatorProfile maxRepairs repairs prior findings (jx_Stage ra) w = Some (re, w')"
    and "repairs \<le> n" "maxRepairs \<le> n" "as_Verdict (jx_Stage ra) = ''certified''"
    and "job_result WorkCtx (generation_step inp ''codegen'' repairs codegen ''gen-c'' (codegen_inputs view prior findings) component) ra (trace w)"
  shows "quiet n w w' \<and> round_ok inp view component n re (trace w')"
proof -
  obtain code w1 where ar: "awaitRunnable sdk w = Some (code, w1)"
    using assms(1) by (auto simp: generation_validate_def split: option.splits)
  have q1: "quiet n w w1" by (rule same_trace_quiet [OF awaitRunnable_trace [OF ar]])
  show ?thesis
  proof (cases "code = ''''")
    case False
    then show ?thesis using assms(1) ar q1 by (auto simp: generation_validate_def)
  next
    case True
    let ?spec = "generation_step inp ''validate'' repairs validatorProfile ''gen-v'' (stageInputs (jx_Stage ra) [''source'']) component"
    obtain r w2 where job: "runJobStep rt WorkCtx q b ?spec w1 = Some (r, w2)"
      using assms(1) ar True by (auto simp: generation_validate_def split: option.splits)
    have re: "re = generation_validated rt maxRepairs repairs prior findings (jx_Stage ra) r w2" "w' = w2"
      using assms(1) ar True job by (auto simp: generation_validate_def)
    have q12: "quiet n w1 w2" by (rule runJobStep_quiet [OF job]) (simp add: generation_step_def assms(2))
    have ran: "job_result WorkCtx (generation_step inp ''codegen'' repairs codegen ''gen-c'' (codegen_inputs view prior findings) component) ra (trace w2)"
      by (rule job_result_mono [OF assms(5) extends_subset [OF extends_trans [OF q1 q12]]])
    have "round_ok inp view component n re (trace w2)"
    proof (cases "re = RoundCertified (jx_Stage ra) (jx_Stage r) (jx_Attempt r)")
      case certified: True
      then have "as_Verdict (jx_Stage r) = ''certified''" "jx_Code r = ''''"
        using re(1) by (auto simp: generation_validated_def Let_def split: if_splits)
      then have "certified_round inp view component (jx_Stage ra) (jx_Stage r) (jx_Attempt r) (trace w2)"
        using certified_roundI [OF assms(4) _ ran runJobStep_result [OF job]] by blast
      then show ?thesis using certified by simp
    next
      case False
      then show ?thesis using re(1) assms(2,3) by (auto simp: generation_validated_def Let_def split: if_splits)
    qed
    then show ?thesis using extends_trans [OF q1 q12] re(2) by simp
  qed
qed

lemma generation_round_does:
  assumes "generation_round rt sdk q b lb inp view component repairs prior findings w = Some (re, w')"
    and "repairs \<le> repair_bound lb view"
  shows "quiet (repair_bound lb view) w w' \<and> round_ok inp view component (repair_bound lb view) re (trace w')"
proof -
  obtain code w1 where ar: "awaitRunnable sdk w = Some (code, w1)"
    using assms(1) by (auto simp: generation_round_def split: option.splits)
  have q1: "quiet (repair_bound lb view) w w1" by (rule same_trace_quiet [OF awaitRunnable_trace [OF ar]])
  show ?thesis
  proof (cases "code = ''''")
    case False
    then show ?thesis using assms(1) ar q1 by (auto simp: generation_round_def)
  next
    case True
    obtain codegen validator maxRepairs where loop: "definition_loop (Definitions lb) (gn_definition (gst w1))
        (gv_CodegenProfileID view, gv_ValidatorProfileID view, gv_MaxRepairs view) = (codegen, validator, maxRepairs)"
      by (metis prod_cases3)
    have max: "maxRepairs \<le> repair_bound lb view"
      using definition_loop_repairs [OF loop] by (simp add: repair_bound_def)
    let ?spec = "generation_step inp ''codegen'' repairs codegen ''gen-c'' (codegen_inputs view prior findings) component"
    obtain r w2 where job: "runJobStep rt WorkCtx q b ?spec w1 = Some (r, w2)"
      using assms(1) ar True loop by (auto simp: generation_round_def split: option.splits)
    have q2: "quiet (repair_bound lb view) w w2"
      by (rule extends_trans [OF q1 runJobStep_quiet [OF job]]) (simp add: generation_step_def assms(2))
    note unfold = assms(1) [unfolded generation_round_def ar [unfolded True]]
    show ?thesis
    proof (cases "\<not> gn_fenced (gst w2) \<and> \<not> ended_held rt r w2 \<and> jx_Code r = '''' \<and> as_Verdict (jx_Stage r) = ''certified''")
      case False
      then show ?thesis using unfold q2 assms(2) by (auto simp: loop job Let_def split: if_splits)
    next
      case ok: True
      then have "generation_validate rt sdk q b inp component validator maxRepairs repairs prior findings (jx_Stage r) w2 = Some (re, w')"
        using unfold by (simp add: loop job Let_def)
      from generation_validate_does [OF this assms(2) max _ runJobStep_result [OF job]] ok
      show ?thesis using extends_trans [OF q2] by blast
    qed
  qed
qed

lemma generation_rounds_do:
  assumes "generation_rounds rt sdk q b lb inp view component repairs prior findings w = Some r"
  shows "repairs \<le> repair_bound lb view \<Longrightarrow> quiet (repair_bound lb view) w (snd r) \<and>
    (case fst r of Inl v \<Rightarrow> fst v \<noteq> ''succeeded''
     | Inr (stage, validation, attempt) \<Rightarrow> certified_round inp view component stage validation attempt (trace (snd r)))"
  using assms
proof (induction rule: generation_rounds.raw_induct [rotated 1, consumes 1, case_names step])
  case (step gr rt sdk q b lb inp view component repairs prior findings w r)
  obtain re w1 where round: "generation_round rt sdk q b lb inp view component repairs prior findings w = Some (re, w1)"
    using step(2) by (auto split: option.splits)
  note d = generation_round_does [OF round step(3)]
  show ?case
  proof (cases re)
    case (RoundAgain repairs' prior' findings')
    then have "gr rt sdk q b lb inp view component repairs' prior' findings' w1 = Some r" using step(2) round by simp
    from step(1) [OF this] d RoundAgain show ?thesis using extends_trans [OF conjunct1 [OF d]] by auto
  qed (use step(2) round d in auto)
qed

section \<open>The registration\<close>

text \<open>
  A registration the run may send: the operation was admitted, its artifacts are the source and
  the evidence of one certified round, its attempt was opened for it, and its deadline is past
  neither the validation attempt's nor the lease's.
\<close>

definition candidate_ok :: "'e runtime \<Rightarrow> input \<Rightarrow> generation_view \<Rightarrow> register_candidate_input \<Rightarrow> event list \<Rightarrow> bool" where
  "candidate_ok rt inp view r es \<longleftrightarrow>
     rc_OperationID r = in_OperationID inp \<and> rc_CommandID r = in_OperationID inp @ '':candidate:1'' \<and>
     (\<exists>component stage validation attempt opts registration.
        admitted rt inp view component es \<and> certified_round inp view component stage validation attempt es \<and>
        stageArtifact stage ''source'' = Some (rc_Source r) \<and> stageArtifact validation ''evidence'' = Some (rc_Certification r) \<and>
        Act RunCtx opts (OpenAttempt (candidate_open inp view)) (Inr (RAttempt registration)) \<in> set es \<and>
        rc_AttemptID r = ar_AttemptID registration \<and> rc_Deadline r \<le> ar_Deadline attempt \<and>
        (\<forall>at. ls_ExpiresAt (rc_Lease r) = Some at \<longrightarrow> rc_Deadline r \<le> at))"

definition registers :: "'e runtime \<Rightarrow> input \<Rightarrow> generation_view \<Rightarrow> nat \<Rightarrow> verdict3 \<Rightarrow> 'w world \<Rightarrow> 'w world \<Rightarrow> bool" where
  "registers rt inp view n v w w' \<longleftrightarrow> quiet n w w' \<and> fst v \<noteq> ''succeeded'' \<or>
     (\<exists>w1 opts r raw. quiet n w w1 \<and> candidate_ok rt inp view r (trace w1) \<and>
        trace w' = Act WorkCtx opts (Lifecycle (RegisterCandidate r)) raw # trace w1 \<and>
        (fst v = ''succeeded'' \<longrightarrow> (\<exists>cand. raw = Inr (RLifecycle (RCandidate cand)) \<and> cf_State cand = ''succeeded'')))"

lemma registers_quiet: "quiet n w w' \<Longrightarrow> fst v \<noteq> ''succeeded'' \<Longrightarrow> registers rt inp view n v w w'"
  by (simp add: registers_def)

lemma registers_after: "quiet n w w1 \<Longrightarrow> registers rt inp view n v w1 w' \<Longrightarrow> registers rt inp view n v w w'"
  unfolding registers_def using extends_trans by blast

lemma register_send_does:
  assumes "register_send rt q b inp view registration lastAttempt source cert w = (v, w')"
  obtains opts raw where "trace w' = Act WorkCtx opts (Lifecycle (RegisterCandidate
      (candidate_input inp view registration lastAttempt (gn_lease (gst w)) source cert))) raw # trace w"
    "fst v = ''succeeded'' \<longrightarrow> (\<exists>cand. raw = Inr (RLifecycle (RCandidate cand)) \<and> cf_State cand = ''succeeded'')"
proof -
  let ?r = "candidate_input inp view registration lastAttempt (gn_lease (gst w)) source cert"
  obtain res w1 where one: "get as_candidate (exec rt WorkCtx (controlOptions q b) (Lifecycle (RegisterCandidate ?r)) (upd (inflight 1) w)) = (res, w1)"
    by fastforce
  obtain raw where tr: "trace w1 = Act WorkCtx (controlOptions q b) (Lifecycle (RegisterCandidate ?r)) raw # trace w" "res = decode as_candidate raw"
    using trace_get_exec [OF one] by auto
  have "\<exists>cand. raw = Inr (RLifecycle (RCandidate cand)) \<and> cf_State cand = ''succeeded''" if ok: "fst v = ''succeeded''"
  proof -
    obtain cand where cand: "res = Inr cand" "cf_State cand = ''succeeded''"
      using assms one ok by (cases res) (auto simp: register_send_def Let_def candidate_outcome_def split: if_splits)
    then show ?thesis using tr(2) by (auto simp: decode_Inr dest: sym)
  qed
  moreover have "trace w' = trace w1"
    using assms one by (auto simp: register_send_def Let_def split: if_splits sum.splits)
  ultimately show thesis using that tr(1) by simp
qed

lemma registration_deadline_bounds:
  "registration_deadline lease attempt \<le> ar_Deadline attempt"
  "ls_ExpiresAt lease = Some at \<Longrightarrow> registration_deadline lease attempt \<le> at"
  by (auto simp: registration_deadline_def split: option.splits)

lemma generation_register_does:
  assumes "generation_register rt sdk q b inp view stage certification lastAttempt w = Some ((v, registration), w')"
    and "admitted rt inp view component (trace w)" "certified_round inp view component stage certification lastAttempt (trace w)"
  shows "registers rt inp view n v w w'"
proof -
  obtain code w1 where ar: "awaitRunnable sdk w = Some (code, w1)"
    using assms(1) by (auto simp: generation_register_def split: option.splits)
  have q1: "quiet n w w1" by (rule same_trace_quiet [OF awaitRunnable_trace [OF ar]])
  show ?thesis
  proof (cases "\<exists>source cert. code = '''' \<and> stageArtifact stage ''source'' = Some source \<and> stageArtifact certification ''evidence'' = Some cert")
    case False
    then show ?thesis using assms(1) ar q1
      by (auto simp: generation_register_def intro!: registers_quiet split: option.splits if_splits)
  next
    case True
    then obtain source cert where art: "stageArtifact stage ''source'' = Some source" "stageArtifact certification ''evidence'' = Some cert"
      and run: "awaitRunnable sdk w = Some ('''', w1)" using ar by auto
    obtain res w2 where one: "get as_attempt (exec rt RunCtx (activityOptions q b) (OpenAttempt (candidate_open inp view)) w1) = (res, w2)" by fastforce
    have q12: "quiet n w1 w2" by (rule extends_get_exec [OF one]) (simp add: candidate_open_def)
    have q2: "quiet n w w2" by (rule extends_trans [OF q1 q12])
    show ?thesis
    proof (cases res)
      case (Inl err)
      then show ?thesis using assms(1) run art one q2 by (auto simp: generation_register_def intro!: registers_quiet)
    next
      case (Inr reg)
      obtain v' w3 where send: "register_send rt q b inp view reg lastAttempt source cert w2 = (v', w3)" by fastforce
      have end_eq: "v' = v" "w3 = w'" using assms(1) run art one Inr send by (auto simp: generation_register_def)
      obtain opts where opened: "Act RunCtx opts (OpenAttempt (candidate_open inp view)) (Inr (RAttempt reg)) \<in> set (trace w2)"
        using answered_call [OF one [unfolded Inr]] by auto
      note known = admitted_later [OF assms(2) extends_subset [OF q2]] certified_round_mono [OF assms(3) extends_subset [OF q2]]
      have "candidate_ok rt inp view (candidate_input inp view reg lastAttempt (gn_lease (gst w2)) source cert) (trace w2)"
        unfolding candidate_ok_def using known opened art registration_deadline_bounds
        by (intro conjI exI [of _ component] exI [of _ stage] exI [of _ certification] exI [of _ lastAttempt] exI [of _ opts] exI [of _ reg])
          (simp_all add: candidate_input_def)
      with register_send_does [OF send] q2 end_eq show ?thesis unfolding registers_def by metis
    qed
  qed
qed

lemma generation_work_does:
  assumes "generation_work rt sdk q b lb inp view component w = Some ((v, registration), w')" "admitted rt inp view component (trace w)"
  shows "registers rt inp view (repair_bound lb view) v w w'"
proof -
  let ?w0 = "on_env (sdk_go sdk) w"
  obtain r w1 where rounds: "generation_rounds rt sdk q b lb inp view component 0 None None ?w0 = Some (r, w1)"
    using assms(1) by (auto simp: generation_work_def split: option.splits)
  note d = generation_rounds_do [OF rounds]
  have q1: "quiet (repair_bound lb view) w w1"
    using d by (simp add: extends_def)
  show ?thesis
  proof (cases r)
    case (Inl v')
    then show ?thesis using assms(1) rounds d q1 by (auto simp: generation_work_def intro: registers_quiet)
  next
    case (Inr c)
    obtain stage certification lastAttempt where c: "c = (stage, certification, lastAttempt)" by (metis prod_cases3)
    have "generation_register rt sdk q b inp view stage certification lastAttempt w1 = Some ((v, registration), w')"
      using assms(1) rounds Inr c by (simp add: generation_work_def)
    note reg = generation_register_does [OF this admitted_later [OF assms(2) extends_subset [OF q1]]]
    show ?thesis by (rule registers_after [OF q1 reg]) (use d Inr c in simp)
  qed
qed

lemma generation_body_does:
  assumes "generation_body rt sdk q b lb inp view w = Some ((v, registration, working), w')"
  shows "registers rt inp view (repair_bound lb view) v w w'"
proof -
  let ?w0 = "upd (\<lambda>g. if ls_State (gv_Lease view) = ''lost''
                then g\<lparr>gn_definition := gv_DefinitionActivation view, gn_fenced := True, gn_fenceCode := ''LEASE_LOST''\<rparr>
                else g\<lparr>gn_definition := gv_DefinitionActivation view\<rparr>) w"
  let ?n = "repair_bound lb view"
  obtain code w1 where permit: "awaitPermit rt sdk q b lb inp ?w0 = Some (code, w1)"
    using assms by (auto simp: generation_body_def Let_def split: option.splits)
  note p = awaitPermit_does [OF permit, where n = ?n]
  have q1: "quiet ?n w w1" using p by (simp add: extends_def)
  show ?thesis
  proof (cases "code = ''''")
    case False
    then show ?thesis using assms permit q1 by (auto simp: generation_body_def Let_def intro!: registers_quiet)
  next
    case True
    obtain res w2 where boot: "generation_bootstrap rt q b lb inp view w1 = (res, w2)" by fastforce
    have granted: "permit_granted inp (trace w1)" using p True by simp
    note d = generation_bootstrap_does [OF boot granted, where n = ?n]
    have q2: "quiet ?n w w2" using extends_trans [OF q1] d by blast
    show ?thesis
    proof (cases res)
      case (Inl v')
      then show ?thesis using assms permit True boot d q2 by (auto simp: generation_body_def Let_def intro!: registers_quiet)
    next
      case (Inr component)
      obtain x where work: "generation_work rt sdk q b lb inp view component w2 = Some ((v, x), w')"
        using assms permit True boot Inr by (auto simp: generation_body_def Let_def)
      show ?thesis by (rule registers_after [OF q2 generation_work_does [OF work]]) (use d Inr in simp)
    qed
  qed
qed

section \<open>The deferred end\<close>

text \<open>An event of the end of a run: it settles under the verdict of the run only, and neither registers nor opens anything.\<close>

fun ending_event :: "verdict3 \<Rightarrow> event \<Rightarrow> bool" where
  "ending_event v (Act _ _ (SettleOperation i) _) \<longleftrightarrow> v = (so_Outcome i, so_FailureCode i, so_Phase i)"
| "ending_event v (Act _ _ (CloseAttempt _) _) \<longleftrightarrow> True"
| "ending_event v (Act _ _ (ReleaseLease _) _) \<longleftrightarrow> True"
| "ending_event v (Act _ _ (QueryLease _) _) \<longleftrightarrow> True"
| "ending_event v (Act _ _ (RecordLease _) _) \<longleftrightarrow> True"
| "ending_event v (Slept _ _ _) \<longleftrightarrow> True"
| "ending_event v _ \<longleftrightarrow> False"

lemma ending_not_registration: "ending_event v e \<Longrightarrow> \<not> is_registration e"
  by (cases e rule: is_registration.cases) auto

lemma close_ending: "close_event c q b inp e \<Longrightarrow> ending_event v e"
  by (cases "(c, q, b, inp, e)" rule: close_event.cases) auto

lemma settle_ending: "settle_event c q b (settle_input op tn carry) e \<Longrightarrow>
    v = (sc_Outcome carry, sc_FailureCode carry, sc_Phase carry) \<Longrightarrow> ending_event v e"
  by (cases "(c, q, b, settle_input op tn carry, e)" rule: settle_event.cases) (auto simp: settle_input_def)

lemma lease_poll_ending: "lease_poll_event c li e \<Longrightarrow> ending_event v e"
  by (cases "(c, li, e)" rule: lease_poll_event.cases) auto

lemma release_end_ends:
  assumes "release_end rt c q b lb li res w = Some (r, w')"
  shows "extends (lease_poll_event c li) w w'"
proof -
  obtain x p1 w1 where sl: "wait rt c (newPoller rt b 0) w = (x, p1, w1)" by (metis prod_cases3)
  note x1 = lease_wait_event(1) [OF sl]
  have "w' = w \<or> w' = w1 \<or> lease_queries rt c q b lb li p1 w1 = Some (r, w')"
    using assms sl by (cases x) (auto simp: release_end_def Let_def split: if_splits)
  then show ?thesis using x1 extends_trans [OF x1] lease_queries_do [of rt c q b lb li p1 w1 "(r, w')"] by auto
qed

lemma releaseLease_ends_calls:
  assumes "releaseLease rt c q b lb inp view w = Some w'"
  shows "extends (ending_event v) w w'"
proof (cases "ls_LeaseID (gn_lease (gst w)) = '''' \<or> gn_fenced (gst w)")
  case True
  then show ?thesis using assms by (simp add: releaseLease_def)
next
  case False
  let ?w1 = "upd (\<lambda>g. g\<lparr>gn_occurrence := gn_occurrence g + 1\<rparr>) w"
  let ?li = "leaseInput inp view (gst ?w1) lb"
  obtain r w2 where one: "lease_call rt c q b lb ReleaseLease ?li ?w1 = (r, w2)" by fastforce
  obtain x w3 where e: "release_end rt c q b lb ?li (lease_answer r) w2 = Some (x, w3)"
    using assms False one by (auto simp: releaseLease_def Let_def split: option.splits)
  have x2: "extends (ending_event v) w w2" using trace_get_exec [OF one [unfolded lease_call_def]] by (auto simp: extends_def)
  have x3: "extends (ending_event v) w w3"
    by (rule extends_trans [OF x2 extends_mono [OF release_end_ends [OF e] lease_poll_ending]])
  show ?thesis
  proof (cases x)
    case None
    then show ?thesis using assms False one e x3 by (simp add: releaseLease_def Let_def)
  next
    case (Some res)
    obtain a w4 where rec: "recordLease rt c q b inp (gn_occurrence (gst w3)) (known_result (gst w3)) (release_confirmed res) w3 = (a, w4)" by fastforce
    have "w' = w4" using assms False one e Some rec by (simp add: releaseLease_def Let_def)
    then show ?thesis using extends_trans [OF x3 extends_get_exec [OF rec [unfolded recordLease_def]]] by simp
  qed
qed

lemma generation_settle_does:
  assumes "generation_settle rt sdk q b lb inp view v err w = Some (err', w')" "timers_cancel rt"
  shows "extends (ending_event v) w w'"
proof -
  let ?w0 = "upd (\<lambda>g. g\<lparr>gn_done := True\<rparr>) w"
  obtain w1 where rel: "releaseLease rt Disconnected q b lb inp view ?w0 = Some w1"
    using assms(1) by (auto simp: generation_settle_def split: option.splits)
  obtain serr w2 where st: "settle_end rt q b inp (fst v) (fst (snd v)) (snd (snd v)) w1 = Some (serr, w2)"
    using assms(1) rel by (auto simp: generation_settle_def split: option.splits)
  have x1: "extends (ending_event v) w w1" using releaseLease_ends_calls [OF rel] by (simp add: extends_def)
  have "extends (ending_event v) w1 w2"
    by (rule extends_mono [OF settle_end_calls [OF st assms(2)] settle_ending]) (assumption, cases v, simp)
  moreover have "trace w' = trace w2" using assms(1) rel st by (auto simp: generation_settle_def)
  ultimately show ?thesis using extends_trans [OF x1] by (simp add: extends_def)
qed

lemma generation_end_does:
  assumes "generation_end rt sdk q b lb inp view (v, reg, working) w = Some (err, w')" "timers_cancel rt"
  shows "extends (ending_event v) w w'"
proof -
  obtain cerr w1 where cl: "(case reg of None \<Rightarrow> Some (None, w)
      | Some attempt \<Rightarrow> closeForSettlement rt Disconnected q b attempt (ar_AttemptID attempt @ '':close'') ''completed'' ''not_required'' '''' w) = Some (cerr, w1)"
    using assms(1) by (auto simp: generation_end_def split: option.splits)
  have x1: "extends (ending_event v) w w1"
  proof (cases reg)
    case (Some attempt)
    then show ?thesis using extends_mono [OF runs_extends [OF closeForSettlement_calls] close_ending] cl by simp
  qed (use cl in simp)
  let ?w2 = "if working then on_env (sdk_stop_supervisor sdk) (on_env (sdk_cancel_work sdk) w1) else w1"
  have "generation_settle rt sdk q b lb inp view v cerr ?w2 = Some (err, w')"
    using assms(1) unfolding generation_end_def prod.case cl by simp
  note x2 = generation_settle_does [OF this assms(2)]
  have "trace ?w2 = trace w1" by simp
  then show ?thesis using x1 x2 extends_trans [OF x1, of w'] by (simp add: extends_def)
qed

section \<open>The whole run\<close>

definition view_answer :: "queues \<Rightarrow> bounds \<Rightarrow> input \<Rightarrow> generation_view \<Rightarrow> event" where
  "view_answer q b inp view =
     Act RunCtx (readOptions q b) (Lifecycle (GetGeneration (in_OperationID inp) (in_TenantID inp))) (Inr (RLifecycle (RGeneration view)))"

lemma Generation_cases:
  assumes "Generation rt sdk q b lb inp w = Some (err, w')" "in_Settle inp = None" "timers_cancel rt"
  obtains (unread) v w1 where "quiet 0 w w1" "fst v \<noteq> ''succeeded''" "extends (ending_event v) w1 w'"
  | (read) view v w0 w1 where "trace w0 = view_answer q b inp view # trace w"
      "registers rt inp view (repair_bound lb view) v w0 w1" "extends (ending_event v) w1 w'"
proof -
  obtain res w0 where one: "generation_view_of rt q b inp (upd (\<lambda>_. new_gstate) w) = (res, w0)" by fastforce
  show thesis
  proof (cases res)
    case (Inl err0)
    let ?v = "unphased (settleOutcome rt RunCtx err0 ''CONTROL_UNAVAILABLE'' w0)"
    have "quiet 0 w w0" using trace_get_exec [OF one [unfolded generation_view_of_def]] by (auto simp: extends_def)
    moreover have "generation_end rt sdk q b lb inp no_view (?v, None, False) w0 = Some (err, w')"
      using assms(1,2) one Inl by (simp add: Generation_def)
    ultimately show thesis using unread [of w0 ?v] generation_end_does [OF _ assms(3)] by simp
  next
    case (Inr view)
    have tr: "trace w0 = view_answer q b inp view # trace w"
      using answered_call [OF one [unfolded generation_view_of_def Inr]] by (auto simp: view_answer_def)
    obtain v reg working w1 where body: "generation_body rt sdk q b lb inp view w0 = Some ((v, reg, working), w1)"
      using assms(1,2) one Inr by (auto simp: Generation_def split: option.splits)
    then have "generation_end rt sdk q b lb inp view (v, reg, working) w1 = Some (err, w')"
      using assms(1,2) one Inr by (simp add: Generation_def)
    from read [OF tr generation_body_does [OF body] generation_end_does [OF this assms(3)]] show thesis .
  qed
qed

end
