(* ===== verification/GenerationRuns.thy ===== *)
theory GenerationRuns
  imports GenerationSafe
begin

text \<open>
  Whole runs of the \<open>Generation\<close> workflow: the command handlers, what a run registers and
  settles, the bound of its repairs and that it returns, with an example run over a script of
  answers.
\<close>

section \<open>What the run relies on\<close>

text \<open>\<open>workflow.Await\<close> without an error returns when its condition holds.\<close>

definition awaits_ready :: "'e sdk \<Rightarrow> bool" where
  "awaits_ready sdk \<longleftrightarrow> (\<forall>c ready s s'. sdk_await sdk c ready s = Some (None, s') \<longrightarrow> ready (snd s'))"

lemma await_ready: "awaits_ready sdk \<Longrightarrow> await sdk c ready w = Some (None, w') \<Longrightarrow> ready (gst w')"
proof -
  assume law: "awaits_ready sdk" and "await sdk c ready w = Some (None, w')"
  then have "sdk_await sdk c ready (est w) = Some (None, est w')" by (auto simp: await_def split: option.splits prod.splits)
  then have "ready (snd (est w'))" by (rule law [unfolded awaits_ready_def, rule_format])
  then show "ready (gst w')" by (simp add: gst_def)
qed

lemma when_quiescent_does:
  assumes "when_quiescent sdk c f w = Some (r, w')" "awaits_ready sdk"
  shows "\<exists>x v. await sdk c quiescent w = Some (x, v) \<and> trace v = trace w \<and>
    (if x = None \<and> \<not> gn_done (gst v) then ur_Outcome r = ''applied'' \<and> gn_inflight (gst v) = 0 \<and> w' = upd f v
     else ur_Outcome r \<noteq> ''applied'' \<and> w' = v)"
proof -
  obtain x w1 where aw: "await sdk c quiescent w = Some (x, w1)"
    using assms(1) by (auto simp: when_quiescent_def split: option.splits)
  note tr = await_trace [OF aw]
  show ?thesis
  proof (cases x)
    case None
    have "quiescent (gst w1)" using await_ready [OF assms(2)] aw None by simp
    then show ?thesis using assms(1) aw None tr by (auto simp: when_quiescent_def quiescent_def split: if_splits)
  qed (use assms(1) aw tr in \<open>auto simp: when_quiescent_def\<close>)
qed

lemma only_occurrence:
  "later @ x # before = ends @ y # rest \<Longrightarrow> P x \<Longrightarrow> \<forall>e \<in> set ends. \<not> P e \<Longrightarrow> \<forall>e \<in> set rest. \<not> P e \<Longrightarrow>
    later = ends \<and> x = y \<and> before = rest"
proof (induction later arbitrary: ends)
  case Nil
  then show ?case by (cases ends) auto
next
  case (Cons z later)
  show ?case
  proof (cases ends)
    case Nil
    then have "x \<in> set rest" using Cons.prems(1) by (metis append_Cons append_Nil in_set_conv_decomp list.inject)
    then show ?thesis using Cons.prems by blast
  next
    case (Cons e ends')
    then show ?thesis using Cons.IH [of ends'] Cons.prems by simp
  qed
qed

lemma occurs_after: "later @ x # before = ends @ old \<Longrightarrow> x \<notin> set old \<Longrightarrow> x \<in> set ends \<and> (\<exists>us. before = us @ old)"
proof (induction later arbitrary: ends)
  case Nil
  then show ?case by (cases ends) auto
next
  case (Cons z later)
  show ?case
  proof (cases ends)
    case Nil
    then have "x \<in> set old" using Cons.prems(1) by (metis append_Nil append_Cons in_set_conv_decomp)
    then show ?thesis using Cons.prems(2) by blast
  next
    case (Cons e ends')
    then show ?thesis using Cons.IH [of ends'] Cons.prems by simp
  qed
qed

lemma extends_none: "extends P w w' \<Longrightarrow> (\<And>e. P e \<Longrightarrow> \<not> Q e) \<Longrightarrow> \<forall>e \<in> set (trace w). \<not> Q e \<Longrightarrow> \<forall>e \<in> set (trace w'). \<not> Q e"
  using extends_set by blast

lemma bounded_not_settle: "bounded_event n e \<Longrightarrow> \<not> is_settle e"
  by (cases e rule: is_settle.cases) auto

lemma fold_max_member:
  "n \<le> fold max (map (\<lambda>d. nat (da_MaxRepairs d)) ds) m \<Longrightarrow>
    n \<le> m \<or> (\<exists>d \<in> set ds. int n \<le> da_MaxRepairs d) \<or> n = 0"
proof (induction ds arbitrary: m)
  case (Cons d ds)
  from Cons.IH [of "max (nat (da_MaxRepairs d)) m"] Cons.prems show ?case by (auto simp: max_def split: if_splits)
qed simp

section \<open>Properties\<close>

text \<open>
  C35. A command is applied only to a quiet run, and changes one field. The handler sends nothing. A hold or a change
  of definition that is answered applied waited until no sender was in flight, found the run not
  done, and set on the state the wait left just its field, the definition to one this worker registered; a resume
  that is answered applied released a hold of a run whose lease was not fenced, and changed nothing else. A command that is not
  applied leaves the state as it was, or as the wait left it when that was canceled or found the run done.
\<close>

theorem command_handler_applies:
  assumes "command_handler sdk c arg w = Some (r, w')" "awaits_ready sdk" "command_validator lb arg = ''''"
  shows "trace w' = trace w \<and>
    (ur_Outcome r = ''applied'' \<longrightarrow>
      (\<exists>v. await sdk c quiescent w = Some (None, v) \<and> gn_inflight (gst v) = 0 \<and> \<not> gn_done (gst v) \<and> fst (est w') = fst (est v) \<and>
         (cu_Kind arg = ''hold'' \<and> gst w' = (gst v)\<lparr>gn_held := True\<rparr> \<or>
          cu_Kind arg = ''change_definition'' \<and> gst w' = (gst v)\<lparr>gn_definition := cu_TargetDefinitionActivation arg\<rparr> \<and>
            (\<exists>d \<in> set (Definitions lb). da_ID d = cu_TargetDefinitionActivation arg))) \<or>
      cu_Kind arg = ''resume'' \<and> gn_held (gst w) \<and> \<not> gn_fenced (gst w) \<and> fst (est w') = fst (est w) \<and> gst w' = (gst w)\<lparr>gn_held := False\<rparr>) \<and>
    (ur_Outcome r \<noteq> ''applied'' \<longrightarrow>
      cu_Kind arg = ''resume'' \<and> (\<not> gn_held (gst w) \<or> gn_fenced (gst w)) \<and> w' = w \<or>
      cu_Kind arg \<noteq> ''resume'' \<and> (\<exists>x. await sdk c quiescent w = Some (x, w') \<and> (x \<noteq> None \<or> gn_done (gst w'))))"
proof -
  consider "cu_Kind arg = ''hold''" | "cu_Kind arg = ''resume''"
    | "cu_Kind arg = ''change_definition''" "\<exists>d \<in> set (Definitions lb). da_ID d = cu_TargetDefinitionActivation arg"
    using assms(3) by (auto simp: command_validator_def split: if_splits)
  then show ?thesis
  proof cases
    case 1
    then have "when_quiescent sdk c (\<lambda>g. g\<lparr>gn_held := True\<rparr>) w = Some (r, w')"
      using assms(1) by (simp add: command_handler_def)
    from when_quiescent_does [OF this assms(2)] show ?thesis using 1 by (auto split: if_splits)
  next
    case 2
    then show ?thesis using assms(1) by (auto simp: command_handler_def split: if_splits)
  next
    case 3
    then have "when_quiescent sdk c (\<lambda>g. g\<lparr>gn_definition := cu_TargetDefinitionActivation arg\<rparr>) w = Some (r, w')"
      using assms(1) by (simp add: command_handler_def)
    from when_quiescent_does [OF this assms(2)] show ?thesis using 3 by (auto split: if_splits)
  qed
qed

text \<open>
  C5. Only what a round certified is registered. Whenever a run sends the registration of a
  candidate, the permit was granted, the scope allowed and the funding recorded before; the
  source is that of the certified stage of a codegen Job and the evidence that of the certified
  stage of a validation Job over exactly this source; the registration's attempt was opened for it and
  its deadline is past neither the validation's nor the lease's; and it is the run's only one.
\<close>

theorem Generation_registers_certified:
  assumes "Generation rt sdk q b lb inp w = Some (err, w')" "in_Settle inp = None" "timers_cancel rt" "trace w = []"
    and "trace w' = later @ Act c opts (Lifecycle (RegisterCandidate r)) raw # before"
  shows "(\<exists>view. view_answer q b inp view \<in> set before \<and> candidate_ok rt inp view r before) \<and>
    (\<forall>e \<in> set (later @ before). \<not> is_registration e)"
  using assms(1-3)
proof (cases rule: Generation_cases)
  case (unread v w1)
  have "\<forall>e \<in> set (trace w'). \<not> is_registration e"
    using extends_none [where Q = is_registration, OF unread(3) ending_not_registration]
      extends_none [where Q = is_registration, OF unread(1) bounded_event_registration] assms(4) by simp
  then show ?thesis using assms(5) by simp
next
  case (read view v w0 w1)
  have start: "trace w0 = [view_answer q b inp view]" "\<not> is_registration (view_answer q b inp view)"
    using read(1) assms(4) by (simp_all add: view_answer_def)
  have none: "\<forall>e \<in> set (trace v1). \<not> is_registration e" if "quiet n w0 v1" for n v1
    using extends_none [where Q = is_registration, OF that bounded_event_registration] start by simp
  obtain ends where ends: "trace w' = ends @ trace w1" "\<forall>e \<in> set ends. \<not> is_registration e"
    using read(3) ending_not_registration [of v] by (auto simp: extends_def list_all_iff)
  consider "quiet (repair_bound lb view) w0 w1" | w2 opts2 r2 raw2 where "quiet (repair_bound lb view) w0 w2"
      "candidate_ok rt inp view r2 (trace w2)" "trace w1 = Act WorkCtx opts2 (Lifecycle (RegisterCandidate r2)) raw2 # trace w2"
    using read(2) unfolding registers_def by blast
  then show ?thesis
  proof cases
    case 1
    then have "\<forall>e \<in> set (trace w'). \<not> is_registration e" using ends none by auto
    then show ?thesis using assms(5) by simp
  next
    case 2
    have "later @ Act c opts (Lifecycle (RegisterCandidate r)) raw # before =
        ends @ Act WorkCtx opts2 (Lifecycle (RegisterCandidate r2)) raw2 # trace w2"
      using assms(5) ends(1) 2(3) by simp
    from only_occurrence [OF this _ ends(2) none [OF 2(1)]]
    have eq: "later = ends" "r2 = r" "before = trace w2" by auto
    have "view_answer q b inp view \<in> set (trace w2)" using extends_subset [OF 2(1)] start by simp
    then show ?thesis using eq 2(2) none [OF 2(1)] ends(2) by auto
  qed
qed

text \<open>
  C24. A generation succeeds with its candidate only: whenever a run settles its operation as
  succeeded, the registration it had sent was answered as succeeded.
\<close>

theorem Generation_succeeds_registered:
  assumes "Generation rt sdk q b lb inp w = Some (err, w')" "in_Settle inp = None" "timers_cancel rt" "trace w = []"
    and "trace w' = later @ Act c opts (SettleOperation i) raw # before" "so_Outcome i = ''succeeded''"
  shows "\<exists>opts r cand. Act WorkCtx opts (Lifecycle (RegisterCandidate r)) (Inr (RLifecycle (RCandidate cand))) \<in> set before \<and>
    cf_State cand = ''succeeded''"
  using assms(1-3)
proof (cases rule: Generation_cases)
  case (unread v w1)
  obtain ends where ends: "trace w' = ends @ trace w1" "\<forall>e \<in> set ends. ending_event v e"
    using unread(3) by (auto simp: extends_def list_all_iff)
  have "\<forall>e \<in> set (trace w1). \<not> is_settle e"
    using extends_none [where Q = is_settle, OF unread(1) bounded_not_settle] assms(4) by simp
  then have "Act c opts (SettleOperation i) raw \<in> set ends"
    using assms(5) ends(1) by (metis Un_iff in_set_conv_decomp is_settle.simps(1) set_append)
  then show ?thesis using ends(2) unread(2) assms(6) by fastforce
next
  case (read view v w0 w1)
  obtain ends where ends: "trace w' = ends @ trace w1" "\<forall>e \<in> set ends. ending_event v e"
    using read(3) by (auto simp: extends_def list_all_iff)
  have none: "\<forall>e \<in> set (trace v1). \<not> is_settle e" if "quiet n w0 v1" for n v1
    using extends_none [where Q = is_settle, OF that bounded_not_settle] read(1) assms(4) by (simp add: view_answer_def)
  have unsettled: "\<forall>e \<in> set (trace w1). \<not> is_settle e"
    using read(2) none unfolding registers_def by (elim disjE exE conjE) auto
  have "later @ Act c opts (SettleOperation i) raw # before = ends @ trace w1" using assms(5) ends(1) by simp
  from occurs_after [OF this] unsettled obtain us where us: "before = us @ trace w1" "Act c opts (SettleOperation i) raw \<in> set ends"
    by force
  then have "fst v = ''succeeded''" using ends(2) assms(6) by fastforce
  then obtain opts r cand where "Act WorkCtx opts (Lifecycle (RegisterCandidate r)) (Inr (RLifecycle (RCandidate cand))) \<in> set (trace w1)"
      "cf_State cand = ''succeeded''"
    using read(2) unfolding registers_def by fastforce
  then show ?thesis using us(1) by auto
qed

text \<open>
  C36. The repairs are bounded. No attempt a run opens has a visit beyond the repair bounds: the bound
  the profile of the operation gives, or that of an activation the worker registered.
\<close>

theorem Generation_bounds_repairs:
  assumes "Generation rt sdk q b lb inp w = Some (err, w')" "in_Settle inp = None" "timers_cancel rt" "trace w = []"
    and "Act c opts (OpenAttempt i) raw \<in> set (trace w')"
  shows "oa_Visit i = 0 \<or> (\<exists>view. view_answer q b inp view \<in> set (trace w') \<and>
    (oa_Visit i \<le> gv_MaxRepairs view \<or> (\<exists>d \<in> set (Definitions lb). int (oa_Visit i) \<le> da_MaxRepairs d)))"
  using assms(1-3)
proof (cases rule: Generation_cases)
  case (unread v w1)
  have "Act c opts (OpenAttempt i) raw \<in> set (trace w1)" using extends_set [OF unread(3) assms(5)] by simp
  from extends_set [OF unread(1) this] show ?thesis using assms(4) by simp
next
  case (read view v w0 w1)
  have opened: "oa_Visit i \<le> repair_bound lb view" if "quiet (repair_bound lb view) w0 v1" "Act c opts (OpenAttempt i) raw \<in> set (trace v1)" for v1
    using extends_set [OF that] read(1) assms(4) by (auto simp: view_answer_def)
  have "Act c opts (OpenAttempt i) raw \<in> set (trace w1)" using extends_set [OF read(3) assms(5)] by auto
  then have "oa_Visit i \<le> repair_bound lb view" using read(2) opened unfolding registers_def by (elim disjE exE conjE) auto
  then have "oa_Visit i \<le> gv_MaxRepairs view \<or> (\<exists>d \<in> set (Definitions lb). int (oa_Visit i) \<le> da_MaxRepairs d) \<or> oa_Visit i = 0"
    unfolding repair_bound_def by (rule fold_max_member)
  moreover have "view_answer q b inp view \<in> set (trace w')"
  proof -
    have "view_answer q b inp view \<in> set (trace w1)"
      using read(1,2) extends_subset unfolding registers_def by fastforce
    then show ?thesis using extends_subset [OF read(3)] by blast
  qed
  ultimately show ?thesis by blast
qed

section \<open>Examples\<close>

text \<open>An SDK under which nothing else of the run acts: \<open>Await\<close> returns if its condition holds.\<close>

definition still_sdk :: "'e sdk" where
  "still_sdk = \<lparr>sdk_await = (\<lambda>c ready s. if ready (snd s) then Some (None, s) else None), sdk_handlers = Some,
     sdk_go = id, sdk_cancel_work = id, sdk_stop_supervisor = id\<rparr>"

lemma still_sdk_ready: "awaits_ready still_sdk"
  by (simp add: awaits_ready_def still_sdk_def)

text \<open>A hold of a run whose lease is fenced: the fence stays.\<close>

theorem command_handler_applies_witness:
  "\<exists>r w'. command_handler still_sdk RunCtx
      \<lparr>cu_CommandID = ''c1'', cu_Kind = ''hold'', cu_ExpectedRevision = ''1'', cu_TargetDefinitionActivation = ''''\<rparr>
      (upd (\<lambda>g. g\<lparr>gn_fenced := True, gn_fenceCode := ''LEASE_LOST''\<rparr>) (with_gstate (start_world []))) = Some (r, w') \<and>
    ur_Outcome r = ''applied'' \<and> gn_held (gst w') \<and> gn_fenced (gst w') \<and> gn_fenceCode (gst w') = ''LEASE_LOST''"
proof -
  let ?arg = "\<lparr>cu_CommandID = ''c1'', cu_Kind = ''hold'', cu_ExpectedRevision = ''1'', cu_TargetDefinitionActivation = ''''\<rparr>"
  let ?w = "upd (\<lambda>g. g\<lparr>gn_fenced := True, gn_fenceCode := ''LEASE_LOST''\<rparr>) (with_gstate (start_world []))"
  have aw: "await still_sdk RunCtx quiescent ?w = Some (None, ?w)"
    by (simp add: await_def still_sdk_def quiescent_def with_gstate_def new_gstate_def upd_def)
  have "\<exists>r w'. command_handler still_sdk RunCtx ?arg ?w = Some (r, w') \<and> ur_Outcome r = ''applied''"
    using aw by (simp add: command_handler_def when_quiescent_def) (simp add: with_gstate_def new_gstate_def gst_def)
  then obtain r w' where run: "command_handler still_sdk RunCtx ?arg ?w = Some (r, w')" "ur_Outcome r = ''applied''"
    by blast
  have "command_validator example_lifecycle ?arg = ''''" by (simp add: command_validator_def)
  from command_handler_applies [OF run(1) still_sdk_ready this] run aw show ?thesis by auto
qed

definition source_artifact :: stage_artifact where
  "source_artifact = \<lparr>sa_Handle = ''h1'', sa_Class = ''source'', sa_Digest = ''sha256:s'', sa_SizeBytes = ''1'', sa_TransferID = ''t1'', sa_ObjectVersion = ''1''\<rparr>"

definition evidence_artifact :: stage_artifact where
  "evidence_artifact = source_artifact\<lparr>sa_Handle := ''h2'', sa_Class := ''evidence'', sa_Digest := ''sha256:e''\<rparr>"

definition job_answers :: "stage_artifact \<Rightarrow> (wf_error + response) list" where
  "job_answers a = map Inr [RAttempt example_attempt, RLaunch example_launch, RJob \<lparr>jr_JobUID = ''uid'', jr_Request = 1\<rparr>,
     RJobObservation \<lparr>jo_JobUID = ''uid'', jo_Pods = [example_pod], jo_Reason = ''Complete''\<rparr>,
     RJobObservation \<lparr>jo_JobUID = ''uid'', jo_Pods = [example_pod], jo_Reason = ''Complete''\<rparr>,
     RInstance \<lparr>ir_InstanceID = ''i1'', ir_Current = True\<rparr>, RUnit, RAcceptedStage (certified_stage\<lparr>as_Artifacts := [a]\<rparr>),
     RLaunchObservation no_observation, RClose \<lparr>cr_Lifecycle = ''completed''\<rparr>]"

text \<open>A step over the script, whatever came before it and comes after it.\<close>

lemma scripted_step:
  assumes "clock s \<le> 30 * minute"
  shows "\<exists>new. runJobStep (beside scripted) WorkCtx example_queues example_bounds spec
      \<lparr>est = (s\<lparr>answers := job_answers a @ rest\<rparr>, g), trace = es\<rparr> =
    Some (\<lparr>jx_Stage = certified_stage\<lparr>as_Artifacts := [a]\<rparr>, jx_Attempt = example_attempt,
        jx_Current = \<lparr>ir_InstanceID = ''i1'', ir_Current = True\<rparr>, jx_Code = ''''\<rparr>,
      \<lparr>est = (s\<lparr>answers := rest, clock := clock s + 10 * second\<rparr>, snd (nextOrdinal (sp_StepID spec) (sp_Visit spec) g)), trace = new @ es\<rparr>)"
  using assms
  by (simp add: step_eval job_answers_def example_attempt_def certified_stage_def
      example_pod_def script_simps example_bounds_def no_stage_def Let_def)

definition leased_view :: generation_view where
  "leased_view = example_view\<lparr>gv_Lease := held_lease\<rparr>"

definition permit_answer_of :: "bool \<Rightarrow> wf_error + response" where
  "permit_answer_of granted = Inr (RLifecycle (RPermit \<lparr>pa_Granted = granted, pa_PermitID = ''p1'', pa_ActiveDeadline = None,
     pa_QueueDeadline = 60 * minute, pa_QueuedAhead = 0\<rparr>))"

abbreviation sworld :: "time \<Rightarrow> (wf_error + response) list \<Rightarrow> gstate \<Rightarrow> event list \<Rightarrow> (script \<times> gstate) world" where
  "sworld t as g es \<equiv> \<lparr>est = (\<lparr>answers = as, clock = t\<rparr>, g), trace = es\<rparr>"

lemmas generation_setup = permit_answer_of_def leased_view_def example_view_def held_lease_def example_input_def
  example_attempt_def example_lifecycle_def no_lease_result_def script_simps example_bounds_def

lemma example_permit:
  "\<exists>new. awaitPermit (beside scripted) still_sdk example_queues example_bounds example_lifecycle example_input
      (sworld second (permit_answer_of False # permit_answer_of True # as) (new_gstate\<lparr>gn_definition := d\<rparr>) es) =
    Some ('''', sworld (8 * second) as (new_gstate\<lparr>gn_definition := d\<rparr>) (new @ es))"
  by (subst awaitPermit.simps, simp add: awaitRunnable_def await_def still_sdk_def gst_def new_gstate_def generation_setup permit_wait_def Let_def,
      subst awaitPermit.simps, simp add: awaitRunnable_def await_def still_sdk_def gst_def new_gstate_def generation_setup permit_wait_def Let_def)

definition example_identity :: component_identity where
  "example_identity = \<lparr>ci_ComponentID = ''cmp'', ci_PuckType = ''Hero'', ci_PackageName = ''hero'', ci_SourceRevision = ''r0''\<rparr>"

definition bootstrap_answers :: "(wf_error + response) list" where
  "bootstrap_answers = [Inr (RLifecycle (RScope \<lparr>sd_Allowed = True, sd_ReasonCode = '''', sd_Revision = ''1''\<rparr>)), Inr RUnit,
     Inr (RLifecycle (RIdentity example_identity))]"

definition leased_gstate :: gstate where
  "leased_gstate = new_gstate\<lparr>gn_lease := held_lease, gn_occurrence := 1\<rparr>"

lemma example_bootstrap:
  "\<exists>new. generation_bootstrap (beside scripted) example_queues example_bounds example_lifecycle example_input leased_view
      (sworld (8 * second) (bootstrap_answers @ as) new_gstate es) =
    (Inr (Some example_identity), sworld (11 * second) as leased_gstate (new @ es))"
  by (simp add: generation_bootstrap_def generation_identity_def acquireLease_def bootstrap_answers_def leased_gstate_def
      upd_def generation_setup Let_def)

lemma example_round:
  "\<exists>new. generation_rounds (beside scripted) still_sdk example_queues example_bounds example_lifecycle example_input leased_view
      (Some example_identity) 0 None None
      (sworld (11 * second) (job_answers source_artifact @ job_answers evidence_artifact @ as) leased_gstate es) =
    Some (Inr (certified_stage\<lparr>as_Artifacts := [source_artifact]\<rparr>, certified_stage\<lparr>as_Artifacts := [evidence_artifact]\<rparr>, example_attempt),
      sworld (31 * second) as (leased_gstate\<lparr>gn_ordinals := [visit_key ''codegen'' 0 \<mapsto> 1, visit_key ''validate'' 0 \<mapsto> 1]\<rparr>) (new @ es))"
proof -
  let ?spec = "generation_step example_input ''codegen'' 0 ''codegen-v1'' ''gen-c'' (codegen_inputs leased_view None None) (Some example_identity)"
  let ?spec' = "generation_step example_input ''validate'' 0 ''validator-v1'' ''gen-v''
      (stageInputs (certified_stage\<lparr>as_Artifacts := [source_artifact]\<rparr>) [''source'']) (Some example_identity)"
  let ?g1 = "leased_gstate\<lparr>gn_ordinals := [visit_key ''codegen'' 0 \<mapsto> 1]\<rparr>"
  have ordinals: "nextOrdinal ''codegen'' 0 leased_gstate = (1, ?g1)"
    "nextOrdinal ''validate'' 0 ?g1 = (1, leased_gstate\<lparr>gn_ordinals := [visit_key ''codegen'' 0 \<mapsto> 1, visit_key ''validate'' 0 \<mapsto> 1]\<rparr>)"
    by (simp_all add: nextOrdinal_def leased_gstate_def new_gstate_def visit_key_def)
  obtain new1 where one: "runJobStep (beside scripted) WorkCtx example_queues example_bounds ?spec
      (sworld (11 * second) (job_answers source_artifact @ job_answers evidence_artifact @ as) leased_gstate es) =
    Some (\<lparr>jx_Stage = certified_stage\<lparr>as_Artifacts := [source_artifact]\<rparr>, jx_Attempt = example_attempt,
        jx_Current = \<lparr>ir_InstanceID = ''i1'', ir_Current = True\<rparr>, jx_Code = ''''\<rparr>,
      sworld (21 * second) (job_answers evidence_artifact @ as) ?g1 (new1 @ es))"
    using scripted_step [where s = "\<lparr>answers = [], clock = 11 * second\<rparr>" and spec = ?spec and g = leased_gstate and es = es
        and a = source_artifact and rest = "job_answers evidence_artifact @ as"] ordinals
    by (auto simp: generation_step_def minute_def second_def)
  obtain new2 where two: "runJobStep (beside scripted) WorkCtx example_queues example_bounds ?spec'
      (sworld (21 * second) (job_answers evidence_artifact @ as) ?g1 (new1 @ es)) =
    Some (\<lparr>jx_Stage = certified_stage\<lparr>as_Artifacts := [evidence_artifact]\<rparr>, jx_Attempt = example_attempt,
        jx_Current = \<lparr>ir_InstanceID = ''i1'', ir_Current = True\<rparr>, jx_Code = ''''\<rparr>,
      sworld (31 * second) as (leased_gstate\<lparr>gn_ordinals := [visit_key ''codegen'' 0 \<mapsto> 1, visit_key ''validate'' 0 \<mapsto> 1]\<rparr>) ((new2 @ new1) @ es))"
    using scripted_step [where s = "\<lparr>answers = [], clock = 21 * second\<rparr>" and spec = ?spec' and g = ?g1 and es = "new1 @ es"
        and a = evidence_artifact and rest = as] ordinals
    by (auto simp: generation_step_def minute_def second_def)
  have still: "awaitRunnable still_sdk (sworld t as' (leased_gstate\<lparr>gn_ordinals := m\<rparr>) es') =
      Some ('''', sworld t as' (leased_gstate\<lparr>gn_ordinals := m\<rparr>) es')"
    "awaitRunnable still_sdk (sworld t as' leased_gstate es') = Some ('''', sworld t as' leased_gstate es')" for t as' m es'
    by (simp_all add: awaitRunnable_def await_def still_sdk_def gst_def leased_gstate_def new_gstate_def)
  have stage: "as_Verdict (certified_stage\<lparr>as_Artifacts := x\<rparr>) = ''certified''" for x
    by (simp add: certified_stage_def)
  have free: "\<not> gn_held leased_gstate" "\<not> gn_fenced leased_gstate" "gn_definition leased_gstate = ''''"
    by (simp_all add: leased_gstate_def new_gstate_def)
  have "generation_round (beside scripted) still_sdk example_queues example_bounds example_lifecycle example_input leased_view
      (Some example_identity) 0 None None
      (sworld (11 * second) (job_answers source_artifact @ job_answers evidence_artifact @ as) leased_gstate es) =
    Some (RoundCertified (certified_stage\<lparr>as_Artifacts := [source_artifact]\<rparr>) (certified_stage\<lparr>as_Artifacts := [evidence_artifact]\<rparr>) example_attempt,
      sworld (31 * second) as (leased_gstate\<lparr>gn_ordinals := [visit_key ''codegen'' 0 \<mapsto> 1, visit_key ''validate'' 0 \<mapsto> 1]\<rparr>) ((new2 @ new1) @ es))"
    using one two
    by (simp add: generation_round_def generation_validate_def generation_validated_def still stage ended_held_def free gst_def
        example_lifecycle_def leased_view_def example_view_def Let_def del: stageInputs.simps append_assoc)
  then show ?thesis by (subst generation_rounds.simps) auto
qed

definition registered_stage :: "stage_artifact \<Rightarrow> accepted_stage" where
  "registered_stage a = certified_stage\<lparr>as_Artifacts := [a]\<rparr>"

definition registration_answers :: "(wf_error + response) list" where
  "registration_answers = [Inr (RAttempt example_attempt),
     Inr (RLifecycle (RCandidate \<lparr>cf_EffectID = ''e1'', cf_State = ''succeeded'', cf_CandidateID = ''c1'', cf_Revision = ''1'', cf_DenialCode = ''''\<rparr>))]"

definition ending_answers :: "(wf_error + response) list" where
  "ending_answers = [Inr (RClose \<lparr>cr_Lifecycle = ''completed''\<rparr>), Inr (RLeaseResult (no_lease_result\<lparr>lt_State := ''released''\<rparr>)), Inr RUnit,
     Inr (ROperation \<lparr>op_Lifecycle = ''completed'', op_Phase = '''', op_Revision = ''''\<rparr>)]"

lemmas artifact_setup = registered_stage_def certified_stage_def no_stage_def source_artifact_def evidence_artifact_def stageArtifact_def

lemma example_register:
  "\<exists>r opts raw opts1 a raw1. generation_register (beside scripted) still_sdk example_queues example_bounds example_input leased_view
      (registered_stage source_artifact) (registered_stage evidence_artifact) example_attempt
      (sworld (31 * second) (registration_answers @ as) (leased_gstate\<lparr>gn_ordinals := m\<rparr>) es) =
    Some (((''succeeded'', '''', ''candidate_ready''), Some example_attempt),
      sworld (33 * second) as (leased_gstate\<lparr>gn_ordinals := m\<rparr>)
        (Act WorkCtx opts (Lifecycle (RegisterCandidate r)) raw # Act RunCtx opts1 (OpenAttempt a) raw1 # es))"
  by (simp add: generation_register_def register_send_def awaitRunnable_def await_def still_sdk_def gst_def upd_def inflight_def
      registration_answers_def leased_gstate_def new_gstate_def artifact_setup candidate_outcome_def generation_setup Let_def)

lemma example_end:
  "\<exists>w' new. generation_end (beside scripted) still_sdk example_queues example_bounds example_lifecycle example_input leased_view
      ((''succeeded'', '''', ''candidate_ready''), Some example_attempt, True)
      (sworld (33 * second) ending_answers (leased_gstate\<lparr>gn_ordinals := m\<rparr>) es) = Some (None, w') \<and>
    trace w' = new @ es \<and> (\<exists>c opts i raw. hd new = Act c opts (SettleOperation i) raw \<and> so_Outcome i = ''succeeded'') \<and> new \<noteq> []"
  by (simp add: generation_end_def generation_settle_def closeForSettlement_def closeAttemptFrom_def close_loop.simps close_waits_def close_input_def
      releaseLease_def release_end_def lease_call_def lease_answer_def lease_over_def recordLease_def on_env_def
      settle_end_def settleOperation_def settleWith_def settle_loop.simps settle_input_def still_sdk_def gst_def upd_def
      ending_answers_def leased_gstate_def new_gstate_def generation_setup Let_def)

definition generation_answers :: "(wf_error + response) list" where
  "generation_answers = Inr (RLifecycle (RGeneration leased_view)) # permit_answer_of False # permit_answer_of True # bootstrap_answers @
     job_answers source_artifact @ job_answers evidence_artifact @ registration_answers @ ending_answers"

definition generation_world :: "(script \<times> gstate) world" where
  "generation_world = with_gstate (start_world generation_answers)"

lemma generation_world_facts [simp]: "trace generation_world = []" "in_Settle example_input = None"
  by (simp_all add: generation_world_def with_gstate_def start_world_def example_input_def)

text \<open>
  A run that is granted its permit on the second ask, certifies the source of its first round
  and registers it.
\<close>

lemma example_generation:
  "\<exists>w' later c opts i raw opts' r raw' opts1 a raw1 before.
     Generation (beside scripted) still_sdk example_queues example_bounds example_lifecycle example_input generation_world = Some (None, w') \<and>
     trace w' = Act c opts (SettleOperation i) raw # later @ Act WorkCtx opts' (Lifecycle (RegisterCandidate r)) raw' #
       Act RunCtx opts1 (OpenAttempt a) raw1 # before \<and> so_Outcome i = ''succeeded''"
proof -
  let ?ords = "[visit_key ''codegen'' 0 \<mapsto> 1, visit_key ''validate'' 0 \<mapsto> 1]"
  let ?as2 = "registration_answers @ ending_answers"
  let ?as1 = "job_answers source_artifact @ job_answers evidence_artifact @ ?as2"
  obtain v where view: "generation_view_of (beside scripted) example_queues example_bounds example_input (upd (\<lambda>_. new_gstate) generation_world) =
      (Inr leased_view, sworld second (permit_answer_of False # permit_answer_of True # bootstrap_answers @ ?as1) new_gstate [v])"
    by (simp add: generation_view_of_def generation_world_def with_gstate_def upd_def generation_answers_def script_simps)
  obtain new1 where permit: "awaitPermit (beside scripted) still_sdk example_queues example_bounds example_lifecycle example_input
      (sworld second (permit_answer_of False # permit_answer_of True # bootstrap_answers @ ?as1) new_gstate [v]) =
    Some ('''', sworld (8 * second) (bootstrap_answers @ ?as1) new_gstate (new1 @ [v]))"
    using example_permit [where d = "''''" and as = "bootstrap_answers @ ?as1" and es = "[v]"] by (auto simp: new_gstate_def)
  obtain new2 where boot: "generation_bootstrap (beside scripted) example_queues example_bounds example_lifecycle example_input leased_view
      (sworld (8 * second) (bootstrap_answers @ ?as1) new_gstate (new1 @ [v])) =
    (Inr (Some example_identity), sworld (11 * second) ?as1 leased_gstate (new2 @ new1 @ [v]))"
    using example_bootstrap by blast
  obtain new3 where round: "generation_rounds (beside scripted) still_sdk example_queues example_bounds example_lifecycle example_input leased_view
      (Some example_identity) 0 None None (sworld (11 * second) ?as1 leased_gstate (new2 @ new1 @ [v])) =
    Some (Inr (registered_stage source_artifact, registered_stage evidence_artifact, example_attempt),
      sworld (31 * second) ?as2 (leased_gstate\<lparr>gn_ordinals := ?ords\<rparr>) (new3 @ new2 @ new1 @ [v]))"
    using example_round [where as = ?as2] unfolding registered_stage_def by blast
  obtain r opts raw opts1 a raw1 where reg: "generation_register (beside scripted) still_sdk example_queues example_bounds example_input leased_view
      (registered_stage source_artifact) (registered_stage evidence_artifact) example_attempt
      (sworld (31 * second) ?as2 (leased_gstate\<lparr>gn_ordinals := ?ords\<rparr>) (new3 @ new2 @ new1 @ [v])) =
    Some (((''succeeded'', '''', ''candidate_ready''), Some example_attempt),
      sworld (33 * second) ending_answers (leased_gstate\<lparr>gn_ordinals := ?ords\<rparr>)
        (Act WorkCtx opts (Lifecycle (RegisterCandidate r)) raw # Act RunCtx opts1 (OpenAttempt a) raw1 # new3 @ new2 @ new1 @ [v]))"
    using example_register [where as = ending_answers] by blast
  obtain w' new c opts' i raw' where fin: "generation_end (beside scripted) still_sdk example_queues example_bounds example_lifecycle example_input leased_view
      ((''succeeded'', '''', ''candidate_ready''), Some example_attempt, True)
      (sworld (33 * second) ending_answers (leased_gstate\<lparr>gn_ordinals := ?ords\<rparr>)
        (Act WorkCtx opts (Lifecycle (RegisterCandidate r)) raw # Act RunCtx opts1 (OpenAttempt a) raw1 # new3 @ new2 @ new1 @ [v])) = Some (None, w')"
    and tr: "trace w' = new @ Act WorkCtx opts (Lifecycle (RegisterCandidate r)) raw # Act RunCtx opts1 (OpenAttempt a) raw1 # new3 @ new2 @ new1 @ [v]"
    and settled: "hd new = Act c opts' (SettleOperation i) raw'" "so_Outcome i = ''succeeded''" "new \<noteq> []"
    using example_end by blast
  have start: "upd (\<lambda>g. if ls_State (gv_Lease leased_view) = ''lost''
        then g\<lparr>gn_definition := gv_DefinitionActivation leased_view, gn_fenced := True, gn_fenceCode := ''LEASE_LOST''\<rparr>
        else g\<lparr>gn_definition := gv_DefinitionActivation leased_view\<rparr>) (sworld t as new_gstate es) = sworld t as new_gstate es" for t as es
    by (simp add: upd_def leased_view_def held_lease_def example_view_def new_gstate_def)
  have go: "on_env (sdk_go still_sdk) w = w" for w by (simp add: on_env_def still_sdk_def)
  have "generation_body (beside scripted) still_sdk example_queues example_bounds example_lifecycle example_input leased_view
      (sworld second (permit_answer_of False # permit_answer_of True # bootstrap_answers @ ?as1) new_gstate [v]) =
    Some (((''succeeded'', '''', ''candidate_ready''), Some example_attempt, True),
      sworld (33 * second) ending_answers (leased_gstate\<lparr>gn_ordinals := ?ords\<rparr>)
        (Act WorkCtx opts (Lifecycle (RegisterCandidate r)) raw # Act RunCtx opts1 (OpenAttempt a) raw1 # new3 @ new2 @ new1 @ [v]))"
    unfolding generation_body_def Let_def start using permit boot round reg by (simp add: generation_work_def go)
  then have "Generation (beside scripted) still_sdk example_queues example_bounds example_lifecycle example_input generation_world = Some (None, w')"
    using view fin by (simp add: Generation_def)
  moreover have "trace w' = Act c opts' (SettleOperation i) raw' # tl new @ Act WorkCtx opts (Lifecycle (RegisterCandidate r)) raw # Act RunCtx opts1 (OpenAttempt a) raw1 # new3 @ new2 @ new1 @ [v]"
    using tr settled by (cases new) auto
  ultimately show ?thesis using settled(2) by blast
qed

lemma generation_timers: "timers_cancel (beside scripted)"
  by (rule beside_timers) (simp add: timers_cancel_def scripted_def)

theorem Generation_registers_certified_witness:
  "\<exists>w' later opts r raw before. Generation (beside scripted) still_sdk example_queues example_bounds example_lifecycle example_input generation_world =
      Some (None, w') \<and> trace w' = later @ Act WorkCtx opts (Lifecycle (RegisterCandidate r)) raw # before \<and>
    (\<exists>view. candidate_ok (beside scripted :: (script \<times> gstate) runtime) example_input view r before)"
proof -
  obtain w' later c opts i raw opts' r raw' opts1 a raw1 before where
    run: "Generation (beside scripted) still_sdk example_queues example_bounds example_lifecycle example_input generation_world = Some (None, w')"
    and tr: "trace w' = (Act c opts (SettleOperation i) raw # later) @ Act WorkCtx opts' (Lifecycle (RegisterCandidate r)) raw' #
       Act RunCtx opts1 (OpenAttempt a) raw1 # before" using example_generation by fastforce
  from Generation_registers_certified [OF run generation_world_facts(2) generation_timers generation_world_facts(1) tr] run tr
  show ?thesis by blast
qed

theorem Generation_succeeds_registered_witness:
  "\<exists>w' c opts i raw before. Generation (beside scripted) still_sdk example_queues example_bounds example_lifecycle example_input generation_world =
      Some (None, w') \<and> trace w' = Act c opts (SettleOperation i) raw # before \<and> so_Outcome i = ''succeeded'' \<and>
    (\<exists>opts r cand. Act WorkCtx opts (Lifecycle (RegisterCandidate r)) (Inr (RLifecycle (RCandidate cand))) \<in> set before \<and>
       cf_State cand = ''succeeded'')"
proof -
  obtain w' later c opts i raw opts' r raw' opts1 a raw1 before where
    run: "Generation (beside scripted) still_sdk example_queues example_bounds example_lifecycle example_input generation_world = Some (None, w')"
    and tr: "trace w' = [] @ Act c opts (SettleOperation i) raw # later @ Act WorkCtx opts' (Lifecycle (RegisterCandidate r)) raw' #
       Act RunCtx opts1 (OpenAttempt a) raw1 # before" "so_Outcome i = ''succeeded''" using example_generation by fastforce
  from Generation_succeeds_registered [OF run generation_world_facts(2) generation_timers generation_world_facts(1) tr] run tr
  show ?thesis by (simp only: append_Nil) blast
qed

theorem Generation_bounds_repairs_witness:
  "\<exists>w' opts a raw. Generation (beside scripted) still_sdk example_queues example_bounds example_lifecycle example_input generation_world =
      Some (None, w') \<and> Act RunCtx opts (OpenAttempt a) raw \<in> set (trace w') \<and>
    (oa_Visit a = 0 \<or> (\<exists>view. view_answer example_queues example_bounds example_input view \<in> set (trace w') \<and>
      (oa_Visit a \<le> gv_MaxRepairs view \<or> (\<exists>d \<in> set (Definitions example_lifecycle). int (oa_Visit a) \<le> da_MaxRepairs d))))"
proof -
  obtain w' later c opts i raw opts' r raw' opts1 a raw1 before where
    run: "Generation (beside scripted) still_sdk example_queues example_bounds example_lifecycle example_input generation_world = Some (None, w')"
    and tr: "trace w' = Act c opts (SettleOperation i) raw # later @ Act WorkCtx opts' (Lifecycle (RegisterCandidate r)) raw' #
       Act RunCtx opts1 (OpenAttempt a) raw1 # before" using example_generation by blast
  then have opened: "Act RunCtx opts1 (OpenAttempt a) raw1 \<in> set (trace w')" by simp
  from Generation_bounds_repairs [OF run generation_world_facts(2) generation_timers generation_world_facts(1) opened] run opened
  show ?thesis by blast
qed

text \<open>
  A hold that arrives while the attempt of the registration is opened: no sender is counted in
  flight, so it is answered applied, and the registration is sent under the hold.
\<close>

definition hold_update :: command_update where
  "hold_update = \<lparr>cu_CommandID = ''c1'', cu_Kind = ''hold'', cu_ExpectedRevision = ''1'', cu_TargetDefinitionActivation = ''''\<rparr>"

definition holding :: "(script \<times> gstate) runtime" where
  "holding = (beside scripted)\<lparr>rt_perform := (\<lambda>c opts r s.
     case rt_perform (beside scripted) c opts r s of (a, s1) \<Rightarrow>
       (case r of
          OpenAttempt i \<Rightarrow>
            (case command_handler still_sdk RunCtx hold_update \<lparr>est = s1, trace = []\<rparr> of
               Some (res, w1) \<Rightarrow> if ur_Outcome res = ''applied'' then (a, est w1) else (a, s1)
             | None \<Rightarrow> (a, s1))
        | _ \<Rightarrow> (a, s1)))\<rparr>"

lemma held_registration:
  "\<exists>v reg w' opts r raw before. generation_register holding still_sdk example_queues example_bounds example_input leased_view
      (registered_stage source_artifact) (registered_stage evidence_artifact) example_attempt
      (sworld (31 * second) registration_answers leased_gstate []) = Some ((v, reg), w') \<and>
    trace w' = Act WorkCtx opts (Lifecycle (RegisterCandidate r)) raw # before \<and> gn_held (gst w') \<and> fst v = ''succeeded''"
  by (simp add: generation_register_def register_send_def awaitRunnable_def await_def still_sdk_def gst_def upd_def inflight_def
      holding_def command_handler_def hold_update_def when_quiescent_def quiescent_def
      registration_answers_def leased_gstate_def new_gstate_def artifact_setup candidate_outcome_def generation_setup Let_def)

section \<open>The run returns\<close>

text \<open>\<open>Await\<close> and the wait for the handlers return, and do not turn the clock back.\<close>

definition awaits_return :: "('e \<times> gstate) runtime \<Rightarrow> 'e sdk \<Rightarrow> bool" where
  "awaits_return rt sdk \<longleftrightarrow>
     (\<forall>c ready s. \<exists>err s'. sdk_await sdk c ready s = Some (err, s') \<and> rt_now rt s \<le> rt_now rt s') \<and>
     (\<forall>s. sdk_handlers sdk s \<noteq> None)"

text \<open>The queue deadline Control answers is bounded: the operation has one, which nothing extends.\<close>

definition queue_bounded :: "'e runtime \<Rightarrow> time \<Rightarrow> bool" where
  "queue_bounded rt limit \<longleftrightarrow> (\<forall>c opts i e a e'.
     rt_perform rt c opts (Lifecycle (RequestExecutionPermit i)) e = (Inr (RLifecycle (RPermit a)), e') \<longrightarrow> pa_QueueDeadline a \<le> limit)"

text \<open>
  What the other coroutines of the run do to the control record while a call blocks: they hold
  the run only finitely often (\<open>h\<close> counts the holds left in an environment), and nothing
  lifts the fence.
\<close>

definition holds_left :: "('e \<Rightarrow> nat) \<Rightarrow> 'e \<times> gstate \<Rightarrow> nat" where
  "holds_left h s = 2 * h (fst s) + (if gn_held (snd s) then 1 else 0)"

definition settling_holds :: "('e \<Rightarrow> nat) \<Rightarrow> 'e \<times> gstate \<Rightarrow> 'e \<times> gstate \<Rightarrow> bool" where
  "settling_holds h s s' \<longleftrightarrow> holds_left h s' \<le> holds_left h s \<and> (gn_fenced (snd s) \<longrightarrow> gn_fenced (snd s'))"

definition holds_bounded :: "('e \<times> gstate) runtime \<Rightarrow> 'e sdk \<Rightarrow> ('e \<Rightarrow> nat) \<Rightarrow> bool" where
  "holds_bounded rt sdk h \<longleftrightarrow>
     (\<forall>c opts r s. settling_holds h s (snd (rt_perform rt c opts r s))) \<and>
     (\<forall>c d s. settling_holds h s (snd (rt_sleep rt c d s))) \<and>
     (\<forall>c ready s err s'. sdk_await sdk c ready s = Some (err, s') \<longrightarrow> settling_holds h s s')"

abbreviation settled_holds :: "('e \<Rightarrow> nat) \<Rightarrow> ('e \<times> gstate) world \<Rightarrow> ('e \<times> gstate) world \<Rightarrow> bool" where
  "settled_holds h w w' \<equiv> settling_holds h (est w) (est w')"

lemma settling_holds_refl [simp]: "settling_holds h s s"
  by (simp add: settling_holds_def)

lemma settling_holds_trans: "settling_holds h s s1 \<Longrightarrow> settling_holds h s1 s2 \<Longrightarrow> settling_holds h s s2"
  by (auto simp: settling_holds_def)

lemma runs_holds:
  assumes "holds_bounded rt sdk h" "runs rt P w w'"
  shows "settled_holds h w w'"
proof (rule runs_relation [OF assms(2), where R = "settling_holds h"])
  show "settling_holds h e e'" if "rt_perform rt c opts r e = (res, e')" for c opts r res e e'
    using assms(1) [unfolded holds_bounded_def, THEN conjunct1, rule_format, of e c opts r] that by simp
  show "settling_holds h e e'" if "rt_sleep rt c d e = (res, e')" for c d res e e'
    using assms(1) [unfolded holds_bounded_def, THEN conjunct2, THEN conjunct1, rule_format, of e c d] that by simp
qed (simp, rule settling_holds_trans)

lemma call_holds: "holds_bounded rt sdk h \<Longrightarrow> get d (exec rt c opts r w) = (res, w') \<Longrightarrow> settled_holds h w w'"
  using runs_holds runs_one [where P = "\<lambda>_. True"] by blast

lemma await_holds: "holds_bounded rt sdk h \<Longrightarrow> await sdk c ready w = Some (err, w') \<Longrightarrow> settled_holds h w w'"
proof -
  assume law: "holds_bounded rt sdk h" and "await sdk c ready w = Some (err, w')"
  then have "sdk_await sdk c ready (est w) = Some (err, est w')" by (auto simp: await_def split: option.splits prod.splits)
  then show ?thesis by (rule law [unfolded holds_bounded_def, THEN conjunct2, THEN conjunct2, rule_format])
qed

lemma upd_holds:
  assumes "\<And>g. gn_held (f g) = gn_held g \<and> gn_fenced (f g) = gn_fenced g"
  shows "settled_holds h (upd f w) w' = settled_holds h w w'" "settled_holds h w (upd f w') = settled_holds h w w'"
  using assms by (simp_all add: settling_holds_def holds_left_def upd_def)

lemma ordinal_holds:
  "settled_holds h (upd (\<lambda>_. snd (nextOrdinal step visit (gst w))) w) w' = settled_holds h w w'"
  by (simp add: settling_holds_def holds_left_def upd_def nextOrdinal_def gst_def Let_def)

lemma inflight_holds [simp]:
  "settled_holds h (upd (inflight n) w) w' = settled_holds h w w'" "settled_holds h w (upd (inflight n) w') = settled_holds h w w'"
  by (rule upd_holds, simp add: inflight_def)+

lemma step_finish_holds:
  assumes "holds_bounded rt sdk h" "step_finish rt q b attempt st w = Some (code, w')"
  shows "settled_holds h w w'"
proof (cases "rt_version rt holdAfterCleanup = 1")
  case True
  then obtain v where "step_close rt q b attempt st w = Some (code, v)" "w' = upd (inflight (-1)) v"
    using assms(2) by (auto simp: step_finish_def)
  then show ?thesis using runs_holds [OF assms(1) step_close_does(1)] by auto
next
  case False
  then have "step_close rt q b attempt st (upd (inflight (-1)) w) = Some (code, w')" using assms(2) by (simp add: step_finish_def)
  from runs_holds [OF assms(1) step_close_does(1) [OF this]] show ?thesis by simp
qed

lemma runJobStep_holds:
  assumes "holds_bounded rt sdk h" "runJobStep rt c q b spec w = Some (r, w')"
  shows "settled_holds h w w'"
proof -
  let ?w0 = "upd (\<lambda>_. snd (nextOrdinal (sp_StepID spec) (sp_Visit spec) (gst w))) w"
  obtain res w1 where op: "get as_attempt (exec rt c (activityOptions q b) (OpenAttempt (open_step spec
      (fst (nextOrdinal (sp_StepID spec) (sp_Visit spec) (gst w))))) ?w0) = (res, w1)" by fastforce
  have h1: "settled_holds h w w1" using call_holds [OF assms(1) op] by (simp add: ordinal_holds)
  show ?thesis
  proof (cases res)
    case (Inl err)
    then show ?thesis using assms(2) op h1 by (auto simp: runJobStep_def split: prod.splits)
  next
    case (Inr attempt)
    obtain st w2 where body: "step_body rt c q b spec attempt (upd (inflight 1) w1) = (st, w2)" by fastforce
    obtain code where fin: "step_finish rt q b attempt st w2 = Some (code, w')"
      using assms(2) op Inr body by (auto simp: runJobStep_def split: prod.splits option.splits)
    have "settled_holds h w1 w2" using runs_holds [OF assms(1) step_body_calls [OF body]] by simp
    then show ?thesis using h1 step_finish_holds [OF assms(1) fin] settling_holds_trans by blast
  qed
qed

section \<open>Admission\<close>

lemma await_returns: "awaits_return rt sdk \<Longrightarrow> \<exists>err w'. await sdk c ready w = Some (err, w') \<and> now rt w \<le> now rt w'"
proof -
  assume law: "awaits_return rt sdk"
  obtain err s' where "sdk_await sdk c ready (est w) = Some (err, s')" "rt_now rt (est w) \<le> rt_now rt s'"
    using law unfolding awaits_return_def by blast
  then show ?thesis by (auto simp: await_def)
qed

lemma awaitRunnable_returns: "awaits_return rt sdk \<Longrightarrow> \<exists>code w'. awaitRunnable sdk w = Some (code, w') \<and> now rt w \<le> now rt w'"
  using await_returns [where c = RunCtx and ready = "\<lambda>g. \<not> gn_held g \<or> gn_fenced g" and w = w]
  by (fastforce simp: awaitRunnable_def split: option.splits)

lemma permit_wait_pos: "0 < d \<Longrightarrow> 0 < permit_wait lb d"
  by (auto simp: permit_wait_def Let_def second_def)

lemma awaitPermit_returns:
  assumes "awaits_return rt sdk" "queue_bounded rt limit" "advancing rt"
  shows "awaitPermit rt sdk q b lb inp w \<noteq> None"
proof (induction "nat (limit - now rt w)" arbitrary: w rule: less_induct)
  case less
  obtain code w1 where ar: "awaitRunnable sdk w = Some (code, w1)" "now rt w \<le> now rt w1"
    using awaitRunnable_returns [OF assms(1)] by blast
  obtain res w2 where one: "get as_permit (exec rt RunCtx (activityOptions q b)
      (Lifecycle (RequestExecutionPermit (operation_command inp '':permit''))) w1) = (res, w2)" by fastforce
  have n2: "now rt w1 \<le> now rt w2" using advancing_runs [OF assms(3) runs_one [OF one, of "\<lambda>_. True"]] by simp
  show ?case
  proof (cases "\<exists>a. code = '''' \<and> res = Inr a \<and> \<not> pa_Granted a \<and> \<not> pa_QueueDeadline a - now rt w2 \<le> 0")
    case False
    then show ?thesis using ar one by (subst awaitPermit.simps) (auto split: sum.split)
  next
    case True
    then obtain a where a: "code = ''''" "res = Inr a" "\<not> pa_Granted a" "\<not> pa_QueueDeadline a - now rt w2 \<le> 0" by blast
    obtain raw where raw: "res = decode as_permit raw" "rt_perform rt RunCtx (activityOptions q b)
        (Lifecycle (RequestExecutionPermit (operation_command inp '':permit''))) (est w1) = (raw, est w2)"
      using trace_get_exec [OF one] by blast
    then have "raw = Inr (RLifecycle (RPermit a))" using a(2) by (auto simp: decode_Inr dest: sym)
    then have limit: "pa_QueueDeadline a \<le> limit" using assms(2) raw(2) unfolding queue_bounded_def by blast
    obtain x w3 where sl: "sleep rt RunCtx (permit_wait lb (pa_QueueDeadline a - now rt w2)) w2 = (x, w3)" by fastforce
    show ?thesis
    proof (cases x)
      case (Some err)
      then show ?thesis using ar one a sl by (subst awaitPermit.simps) simp
    next
      case None
      have "now rt w2 < now rt w3" using advancing_sleep [OF assms(3)] sl None permit_wait_pos [of "pa_QueueDeadline a - now rt w2" lb] a(4) by force
      then have "nat (limit - now rt w3) < nat (limit - now rt w)" using ar(2) n2 a(4) limit by simp
      from less [OF this] show ?thesis using ar one a sl None by (subst awaitPermit.simps) simp
    qed
  qed
qed

section \<open>The rounds end\<close>

text \<open>What is left to the rounds: the repairs within the bound and the holds.\<close>

definition rounds_left :: "('e \<Rightarrow> nat) \<Rightarrow> nat \<Rightarrow> nat \<Rightarrow> ('e \<times> gstate) world \<Rightarrow> nat" where
  "rounds_left h bound repairs w = (bound - repairs) + h (fst (est w))"

lemma holds_fewer: "settled_holds h w w' \<Longrightarrow> h (fst (est w')) \<le> h (fst (est w))"
  by (auto simp: settling_holds_def holds_left_def split: if_splits)

lemma awaitRunnable_holds:
  assumes "holds_bounded rt sdk h" "awaits_ready sdk" "awaitRunnable sdk w = Some (code, w')"
  shows "settled_holds h w w'" "code = '''' \<Longrightarrow> \<not> gn_held (gst w') \<or> gn_fenced (gst w')"
proof -
  obtain err where aw: "await sdk RunCtx (\<lambda>g. \<not> gn_held g \<or> gn_fenced g) w = Some (err, w')"
    using assms(3) by (auto simp: awaitRunnable_def split: option.splits)
  show "settled_holds h w w'" by (rule await_holds [OF assms(1) aw])
  show "code = '''' \<Longrightarrow> \<not> gn_held (gst w') \<or> gn_fenced (gst w')"
    using assms(3) aw await_ready [OF assms(2)] by (cases err) (auto simp: awaitRunnable_def)
qed

text \<open>A step that ends under a hold was not held when it began: a hold was spent.\<close>

lemma ended_held_spends:
  assumes "settled_holds h w1 w2" "\<not> gn_held (gst w1) \<or> gn_fenced (gst w1)" "ended_held rt r w2"
  shows "h (fst (est w2)) < h (fst (est w1))"
  using assms by (auto simp: settling_holds_def holds_left_def ended_held_def gst_def split: if_splits)

definition lively :: "('e \<times> gstate) runtime \<Rightarrow> 'e sdk \<Rightarrow> ('e \<Rightarrow> nat) \<Rightarrow> bool" where
  "lively rt sdk h \<longleftrightarrow> awaits_return rt sdk \<and> awaits_ready sdk \<and> holds_bounded rt sdk h"

lemma lively_D: "lively rt sdk h \<Longrightarrow> awaits_return rt sdk" "lively rt sdk h \<Longrightarrow> awaits_ready sdk" "lively rt sdk h \<Longrightarrow> holds_bounded rt sdk h"
  by (simp_all add: lively_def)

lemma generation_validate_progress:
  assumes "lively rt sdk h" "advancing rt" "rt_version rt pollChange = 1" "0 < ReconcileInitialInterval b" "0 < ReconcileMaxInterval b"
    and "repairs \<le> n" "maxRepairs \<le> n"
  shows "\<exists>re w'. generation_validate rt sdk q b inp component validatorProfile maxRepairs repairs prior findings stage w = Some (re, w') \<and>
    (\<forall>k p f. re = RoundAgain k p f \<longrightarrow> k \<le> n \<and> rounds_left h n k w' < rounds_left h n repairs w)"
proof -
  obtain code w1 where ar: "awaitRunnable sdk w = Some (code, w1)" using awaitRunnable_returns [OF lively_D(1) [OF assms(1)]] by blast
  note a = awaitRunnable_holds [OF lively_D(3,2) [OF assms(1)] ar]
  show ?thesis
  proof (cases "code = ''''")
    case False
    then show ?thesis using ar by (simp add: generation_validate_def)
  next
    case True
    let ?spec = "generation_step inp ''validate'' repairs validatorProfile ''gen-v'' (stageInputs stage [''source'']) component"
    obtain r w2 where job: "runJobStep rt WorkCtx q b ?spec w1 = Some (r, w2)"
      using runJobStep_total [OF assms(2-5)] by (metis not_None_eq surj_pair)
    have h12: "settled_holds h w1 w2" by (rule runJobStep_holds [OF lively_D(3) [OF assms(1)] job])
    let ?re = "generation_validated rt maxRepairs repairs prior findings stage r w2"
    have run: "generation_validate rt sdk q b inp component validatorProfile maxRepairs repairs prior findings stage w = Some (?re, w2)"
      using ar True job by (simp add: generation_validate_def)
    have "k \<le> n \<and> rounds_left h n k w2 < rounds_left h n repairs w" if again: "?re = RoundAgain k p f" for k p f
    proof -
      have "ended_held rt r w2 \<and> k = repairs \<or> repairs < maxRepairs \<and> k = repairs + 1"
        using again by (auto simp: generation_validated_def Let_def split: if_splits)
      then show ?thesis
        using ended_held_spends [OF h12 a(2) [OF True], where rt = rt and r = r] holds_fewer [OF h12] holds_fewer [OF a(1)] assms(6,7)
        by (auto simp: rounds_left_def)
    qed
    then show ?thesis using run by blast
  qed
qed

lemma generation_round_progress:
  assumes "lively rt sdk h" "advancing rt" "rt_version rt pollChange = 1" "0 < ReconcileInitialInterval b" "0 < ReconcileMaxInterval b"
    and "repairs \<le> repair_bound lb view"
  shows "\<exists>re w'. generation_round rt sdk q b lb inp view component repairs prior findings w = Some (re, w') \<and>
    (\<forall>k p f. re = RoundAgain k p f \<longrightarrow> k \<le> repair_bound lb view \<and>
       rounds_left h (repair_bound lb view) k w' < rounds_left h (repair_bound lb view) repairs w)"
proof -
  let ?n = "repair_bound lb view"
  obtain code w1 where ar: "awaitRunnable sdk w = Some (code, w1)" using awaitRunnable_returns [OF lively_D(1) [OF assms(1)]] by blast
  note a = awaitRunnable_holds [OF lively_D(3,2) [OF assms(1)] ar]
  show ?thesis
  proof (cases "code = ''''")
    case False
    then show ?thesis using ar by (simp add: generation_round_def)
  next
    case True
    obtain codegen validator maxRepairs where loop: "definition_loop (Definitions lb) (gn_definition (gst w1))
        (gv_CodegenProfileID view, gv_ValidatorProfileID view, gv_MaxRepairs view) = (codegen, validator, maxRepairs)"
      by (metis prod_cases3)
    have max: "maxRepairs \<le> ?n" using definition_loop_repairs [OF loop] by (simp add: repair_bound_def)
    let ?spec = "generation_step inp ''codegen'' repairs codegen ''gen-c'' (codegen_inputs view prior findings) component"
    obtain r w2 where job: "runJobStep rt WorkCtx q b ?spec w1 = Some (r, w2)"
      using runJobStep_total [OF assms(2-5)] by (metis not_None_eq surj_pair)
    have h12: "settled_holds h w1 w2" by (rule runJobStep_holds [OF lively_D(3) [OF assms(1)] job])
    have spent: "ended_held rt r w2 \<Longrightarrow> rounds_left h ?n repairs w2 < rounds_left h ?n repairs w"
      using ended_held_spends [OF h12 a(2) [OF True], where rt = rt and r = r] holds_fewer [OF a(1)] by (simp add: rounds_left_def)
    have fewer: "rounds_left h ?n k w2 \<le> rounds_left h ?n k w" for k
      using holds_fewer [OF h12] holds_fewer [OF a(1)] by (simp add: rounds_left_def)
    obtain re w3 where val: "generation_validate rt sdk q b inp component validator maxRepairs repairs prior findings (jx_Stage r) w2 = Some (re, w3)"
      "\<And>k p f. re = RoundAgain k p f \<Longrightarrow> k \<le> ?n \<and> rounds_left h ?n k w3 < rounds_left h ?n repairs w2"
      using generation_validate_progress [OF assms(1-5,6) max] by blast
    have further: "re = RoundAgain k p f \<Longrightarrow> k \<le> ?n \<and> rounds_left h ?n k w3 < rounds_left h ?n repairs w" for k p f
      using val(2) [of k p f] fewer [of repairs] by simp
    note start = ar [unfolded True]
    show ?thesis
    proof (cases "gn_fenced (gst w2)")
      case True
      then show ?thesis by (simp add: generation_round_def start loop job Let_def)
    next
      case unfenced: False
      show ?thesis
      proof (cases "ended_held rt r w2")
        case True
        then show ?thesis using unfenced spent assms(6) by (simp add: generation_round_def start loop job Let_def)
      next
        case False
        have "\<forall>k p f. re = RoundAgain k p f \<longrightarrow> k \<le> ?n \<and> rounds_left h ?n k w3 < rounds_left h ?n repairs w"
          using further by blast
        then show ?thesis using False unfenced by (simp add: generation_round_def start loop job val(1) Let_def)
      qed
    qed
  qed
qed

lemma generation_rounds_return:
  assumes "lively rt sdk h" "advancing rt" "rt_version rt pollChange = 1" "0 < ReconcileInitialInterval b" "0 < ReconcileMaxInterval b"
  shows "repairs \<le> repair_bound lb view \<Longrightarrow> generation_rounds rt sdk q b lb inp view component repairs prior findings w \<noteq> None"
proof (induction "rounds_left h (repair_bound lb view) repairs w" arbitrary: repairs prior findings w rule: less_induct)
  case less
  obtain re w1 where round: "generation_round rt sdk q b lb inp view component repairs prior findings w = Some (re, w1)"
    and next_round: "\<And>k p f. re = RoundAgain k p f \<Longrightarrow> k \<le> repair_bound lb view \<and>
       rounds_left h (repair_bound lb view) k w1 < rounds_left h (repair_bound lb view) repairs w"
    using generation_round_progress [OF assms less.prems] by blast
  show ?case
  proof (cases re)
    case (RoundAgain k p f)
    then show ?thesis using less.hyps [of k w1 p f] next_round round by (subst generation_rounds.simps) simp
  qed (use round in \<open>(subst generation_rounds.simps, simp)+\<close>)
qed

section \<open>The end\<close>

lemma releaseLease_returns:
  assumes "rt_version rt pollChange = 1"
  shows "releaseLease rt c q b lb inp view w \<noteq> None"
proof -
  have ends: "release_end rt c q b lb li res w \<noteq> None" for li res w using release_end_does [OF assms] by fastforce
  show ?thesis
    by (auto simp: releaseLease_def Let_def simp del: not_None_eq split: prod.splits option.splits dest: ends [THEN notE])
qed

lemma generation_end_returns:
  assumes "rt_version rt pollChange = 1" "awaits_return rt sdk" "timers_cancel rt"
  shows "\<exists>err w'. generation_end rt sdk q b lb inp view (v, reg, working) w = Some (err, w') \<and> settles w < settles w'"
proof -
  obtain cerr w1 where cl: "(case reg of None \<Rightarrow> Some (None, w)
      | Some attempt \<Rightarrow> closeForSettlement rt Disconnected q b attempt (ar_AttemptID attempt @ '':close'') ''completed'' ''not_required'' '''' w) = Some (cerr, w1)"
    using closeForSettlement_returns [OF assms(1)] by (cases reg) (auto, metis surj_pair)
  have n1: "settles w \<le> settles w1"
  proof (cases reg)
    case (Some attempt)
    then show ?thesis using extends_settles [OF runs_extends [OF closeForSettlement_calls]] cl by simp
  qed (use cl in simp)
  let ?w2 = "if working then on_env (sdk_stop_supervisor sdk) (on_env (sdk_cancel_work sdk) w1) else w1"
  have n2: "settles ?w2 = settles w1" by (simp add: settles_def)
  obtain w3 where rel: "releaseLease rt Disconnected q b lb inp view (upd (\<lambda>g. g\<lparr>gn_done := True\<rparr>) ?w2) = Some w3"
    using releaseLease_returns [OF assms(1)] by (metis not_None_eq)
  have n3: "settles ?w2 \<le> settles w3" using extends_settles [OF releaseLease_ends_calls [OF rel]] by (simp add: settles_def)
  obtain serr w4 where st: "settle_end rt q b inp (fst v) (fst (snd v)) (snd (snd v)) w3 = Some (serr, w4)"
    using settle_end_returns [OF assms(1)] by (metis not_None_eq surj_pair)
  have n4: "settles w3 < settles w4" by (rule settle_end_sends [OF st assms(3)])
  obtain s where handlers: "sdk_handlers sdk (est w4) = Some s"
    using assms(2) unfolding awaits_return_def by (metis not_None_eq)
  have "generation_end rt sdk q b lb inp view (v, reg, working) w =
      Some (if IsContinueAsNew serr \<or> cerr = None then serr else cerr, w4\<lparr>est := s\<rparr>)"
    unfolding generation_end_def prod.case cl generation_settle_def by (simp add: rel st handlers)
  moreover have "settles (w4\<lparr>est := s\<rparr>) = settles w4" by (simp add: settles_def)
  ultimately show ?thesis using n1 n2 n3 n4 by simp
qed

lemma generation_register_returns:
  "awaits_return rt sdk \<Longrightarrow> generation_register rt sdk q b inp view stage certification lastAttempt w \<noteq> None"
  using awaitRunnable_returns [of rt sdk w]
  by (auto simp: generation_register_def simp del: not_None_eq split: option.splits sum.splits prod.splits)

lemma generation_body_returns:
  assumes "lively rt sdk h" "advancing rt" "rt_version rt pollChange = 1" "0 < ReconcileInitialInterval b" "0 < ReconcileMaxInterval b"
    and "queue_bounded rt limit"
  shows "generation_body rt sdk q b lb inp view w \<noteq> None"
proof -
  note permit = awaitPermit_returns [OF lively_D(1) [OF assms(1)] assms(6,2)]
  note rounds = generation_rounds_return [OF assms(1-5), where repairs = 0]
  note register = generation_register_returns [OF lively_D(1) [OF assms(1)]]
  have work: "generation_work rt sdk q b lb inp view component v \<noteq> None" for component v
    using rounds register by (auto simp: generation_work_def simp del: not_None_eq split: option.splits sum.splits prod.splits)
  show ?thesis using permit work
    by (auto simp: generation_body_def Let_def simp del: not_None_eq split: option.splits sum.splits prod.splits)
qed

text \<open>
  C25. A generation always returns and settles. On a clock that advances, with waits that
  return, finitely many holds and a bounded queue deadline, a run returns, whatever Control, the
  launcher, the lease port and the other coroutines answer and do, and has sent the
  settlement of its operation.
\<close>

theorem Generation_settles:
  assumes "lively rt sdk h" "advancing rt" "timers_cancel rt" "rt_version rt pollChange = 1"
    and "0 < ReconcileInitialInterval b" "0 < ReconcileMaxInterval b" "queue_bounded rt limit" "in_Settle inp = None"
  shows "\<exists>err w'. Generation rt sdk q b lb inp w = Some (err, w') \<and> settles w < settles w'"
proof -
  note fin = generation_end_returns [OF assms(4) lively_D(1) [OF assms(1)] assms(3)]
  obtain res w0 where one: "generation_view_of rt q b inp (upd (\<lambda>_. new_gstate) w) = (res, w0)" by fastforce
  have n0: "settles w \<le> settles w0"
    using trace_get_exec [OF one [unfolded generation_view_of_def]] by (auto simp: settles_def)
  show ?thesis
  proof (cases res)
    case (Inl err)
    obtain e w' where "generation_end rt sdk q b lb inp no_view (unphased (settleOutcome rt RunCtx err ''CONTROL_UNAVAILABLE'' w0), None, False) w0 =
        Some (e, w')" "settles w0 < settles w'" using fin by blast
    then show ?thesis using one Inl assms(8) n0 by (simp add: Generation_def)
  next
    case (Inr view)
    obtain v reg working w1 where body: "generation_body rt sdk q b lb inp view w0 = Some ((v, reg, working), w1)"
      using generation_body_returns [OF assms(1,2,4,5,6,7)] by (metis not_None_eq surj_pair)
    have "registers rt inp view (repair_bound lb view) v w0 w1" by (rule generation_body_does [OF body])
    then have n1: "settles w0 \<le> settles w1"
      unfolding registers_def using extends_settles by (fastforce simp: settles_def)
    obtain e w' where "generation_end rt sdk q b lb inp view (v, reg, working) w1 = Some (e, w')" "settles w1 < settles w'"
      using fin by blast
    then show ?thesis using one Inr body assms(8) n0 n1 by (simp add: Generation_def)
  qed
qed

text \<open>An SDK whose \<open>Await\<close> is canceled where it would block.\<close>

definition impatient_sdk :: "'e sdk" where
  "impatient_sdk = still_sdk\<lparr>sdk_await := (\<lambda>c ready s. Some (if ready (snd s) then None else Some CanceledError, s))\<rparr>"

lemma impatient_lively: "lively (beside rt) impatient_sdk (\<lambda>_. 0)"
  unfolding lively_def
proof (intro conjI)
  show "awaits_return (beside rt) impatient_sdk" by (simp add: awaits_return_def impatient_sdk_def still_sdk_def)
  show "awaits_ready impatient_sdk" by (simp add: awaits_ready_def impatient_sdk_def)
  show "holds_bounded (beside rt) impatient_sdk (\<lambda>_. 0)"
    by (auto simp: holds_bounded_def impatient_sdk_def settling_holds_def holds_left_def split: prod.split)
qed

lemma silent_facts: "timers_cancel (beside silent)" "queue_bounded (beside silent) 0"
  by (auto simp: timers_cancel_def queue_bounded_def silent_def)

theorem Generation_settles_witness:
  "\<exists>err w'. Generation (beside silent) impatient_sdk example_queues example_bounds example_lifecycle example_input silent_world = Some (err, w') \<and>
    settles silent_world < settles w'"
  by (rule Generation_settles [OF impatient_lively silent_laws(3) silent_facts(1) _ _ _ silent_facts(2)])
    (simp_all add: silent_def example_bounds_def example_input_def minute_def second_def)

end
