(* ===== verification/Recovery.thy ===== *)
theory Recovery
  imports Outcomes
begin

text \<open>
  The \<open>Recovery\<close> workflow (\<^verbatim>\<open>internal/workflows/recovery.go\<close>): rounds of enumeration,
  reconciliation and evaluation, and the settlement of a launch on the trusted launcher's evidence.
  Errors the source only logs are kept as a flag. A round of the batched shape ends its run; the older
  shape loops within one run.
\<close>

definition recoveryRounds :: string where
  "recoveryRounds = ''recovery-batched-rounds''"

definition findingsPage :: int where
  "findingsPage = 200"

definition recoveryOptions :: "queues \<Rightarrow> bounds \<Rightarrow> activity_options" where
  "recoveryOptions q b = control_retry (q_Control q) (ControlActivityTimeout b) b (sint (ControlRetryMaxAttempts b))"

definition batchOptions :: "queues \<Rightarrow> bounds \<Rightarrow> activity_options" where
  "batchOptions q b =
     (control_retry (q_Control q) (max (4 * ControlActivityTimeout b) (2 * minute)) b (sint (ControlRetryMaxAttempts b)))
       \<lparr>HeartbeatTimeout := ControlActivityTimeout b\<rparr>"

section \<open>Enumeration\<close>

partial_function (option) enumerate_class :: "'e runtime \<Rightarrow> queues \<Rightarrow> bounds \<Rightarrow> string \<Rightarrow> string \<Rightarrow> 'e world \<Rightarrow>
    (wf_error option \<times> 'e world) option" where
  "enumerate_class rt q b runID cls w =
     (case get as_class_progress (exec rt RunCtx (recoveryOptions q b) (EnumerateInventory runID cls) w) of
        (Inl err, w1) \<Rightarrow> Some (Some err, w1)
      | (Inr progress, w1) \<Rightarrow> if cp_Complete progress then Some (None, w1) else enumerate_class rt q b runID cls w1)"

fun enumerate_classes :: "'e runtime \<Rightarrow> queues \<Rightarrow> bounds \<Rightarrow> string \<Rightarrow> string list \<Rightarrow> 'e world \<Rightarrow>
    (wf_error option \<times> 'e world) option" where
  "enumerate_classes rt q b runID [] w = Some (None, w)"
| "enumerate_classes rt q b runID (cls # classes) w =
     (case enumerate_class rt q b runID cls w of
        None \<Rightarrow> None
      | Some (Some err, w1) \<Rightarrow> Some (Some err, w1)
      | Some (None, w1) \<Rightarrow> enumerate_classes rt q b runID classes w1)"

definition enumerate_all :: "'e runtime \<Rightarrow> queues \<Rightarrow> bounds \<Rightarrow> string \<Rightarrow> 'e world \<Rightarrow> (wf_error option \<times> 'e world) option" where
  "enumerate_all rt q b runID w = enumerate_classes rt q b runID ObligationClasses w"

section \<open>A launch\<close>

definition recordLaunch :: "'e runtime \<Rightarrow> queues \<Rightarrow> bounds \<Rightarrow> string \<Rightarrow> string \<Rightarrow> launch_observation \<Rightarrow> launch_ledger \<Rightarrow>
    'e world \<Rightarrow> wf_error option \<times> launch_ledger \<times> 'e world" where
  "recordLaunch rt q b runID findingID obs l w =
     (case get as_finding (exec rt RunCtx (recoveryOptions q b) (RecordLaunchOutcome
             \<lparr>ro_RunID = runID, ro_FindingID = findingID, ro_JobUID = lo_JobUID obs, ro_Pods = lo_Pods obs, ro_Stopped = False\<rparr>) w) of
        (Inl err, w1) \<Rightarrow> (Some err, l, w1)
      | (Inr _, w1) \<Rightarrow> (None, record_requests (lo_Requests obs) l, w1))"

definition confirmStop :: "'e runtime \<Rightarrow> queues \<Rightarrow> bounds \<Rightarrow> string \<Rightarrow> string \<Rightarrow> launch_ledger \<Rightarrow>
    'e world \<Rightarrow> wf_error option \<times> launch_ledger \<times> 'e world" where
  "confirmStop rt q b runID findingID l w =
     (case get as_finding (exec rt RunCtx (recoveryOptions q b) (RecordLaunchOutcome
             \<lparr>ro_RunID = runID, ro_FindingID = findingID, ro_JobUID = stoppedJob l, ro_Pods = [], ro_Stopped = True\<rparr>) w) of
        (Inl err, w1) \<Rightarrow> (Some err, l, w1)
      | (Inr f, w1) \<Rightarrow> (None, if Settled f then l\<lparr>stopPending := False\<rparr> else l, w1))"

definition recovery_launch :: "finding \<Rightarrow> launch_ref" where
  "recovery_launch f = \<lparr>lr_LaunchID = fi_ObligationID f, lr_AttemptID = '''', lr_LaunchKey = fi_LaunchKey f,
     lr_ImageDigest = '''', lr_LaunchEpoch = ''''\<rparr>"

text \<open>The deletes of a launch: until the key is empty, every object recorded before it goes.\<close>

partial_function (option) delete_recorded :: "'e runtime \<Rightarrow> queues \<Rightarrow> bounds \<Rightarrow> string \<Rightarrow> finding \<Rightarrow> string \<Rightarrow> launch_ledger \<Rightarrow>
    'e world \<Rightarrow> (wf_error option \<times> launch_ledger \<times> 'e world) option" where
  "delete_recorded rt q b runID f jobUID l w =
     (case get as_launch_observation (exec rt RunCtx (cleanupOptions q b) (DeleteJob
             \<lparr>dj_Launch = recovery_launch f, dj_Unaccounted = [], dj_EvidenceFirst = True, dj_Recorded = recorded l\<rparr>) w) of
        (Inl err, w1) \<Rightarrow> Some (Some err, l, w1)
      | (Inr stopped, w1) \<Rightarrow>
          if Empty stopped then Some (confirmStop rt q b runID (fi_FindingID f) (l\<lparr>stopPending := True, stoppedJob := jobUID\<rparr>) w1)
          else (case recordLaunch rt q b runID (fi_FindingID f) stopped l w1 of
              (Some err, l1, w2) \<Rightarrow> Some (Some err, l1, w2)
            | (None, l1, w2) \<Rightarrow>
                delete_recorded rt q b runID f (if lo_JobUID stopped \<noteq> '''' then lo_JobUID stopped else jobUID) l1 w2))"

definition settleLaunch :: "'e runtime \<Rightarrow> queues \<Rightarrow> bounds \<Rightarrow> string \<Rightarrow> finding \<Rightarrow> launch_ledger \<Rightarrow>
    'e world \<Rightarrow> (wf_error option \<times> launch_ledger \<times> 'e world) option" where
  "settleLaunch rt q b runID f l w =
     (if stopPending l then Some (confirmStop rt q b runID (fi_FindingID f) l w)
      else case get as_launch_observation (exec rt RunCtx (cleanupOptions q b) (ObserveLaunch
             \<lparr>ol_Launch = recovery_launch f, ol_SettleWindow = UnresolvedSettleWindow b\<rparr>) w) of
          (Inl err, w1) \<Rightarrow>
            (case get as_finding (exec rt RunCtx (recoveryOptions q b) (RecordLaunchOutcome
                   \<lparr>ro_RunID = runID, ro_FindingID = fi_FindingID f, ro_JobUID = '''', ro_Pods = [], ro_Stopped = False\<rparr>) w1) of
               (Inl err1, w2) \<Rightarrow> Some (Some err1, l, w2)
             | (Inr _, w2) \<Rightarrow> Some (None, l, w2))
        | (Inr observed, w1) \<Rightarrow>
            (case recordLaunch rt q b runID (fi_FindingID f) observed l w1 of
               (Some err, l1, w2) \<Rightarrow> Some (Some err, l1, w2)
             | (None, l1, w2) \<Rightarrow> delete_recorded rt q b runID f (lo_JobUID observed) l1 w2))"

section \<open>A page of findings\<close>

type_synonym ledgers = "string \<rightharpoonup> launch_ledger"

definition launch_open :: "finding \<Rightarrow> bool" where
  "launch_open f \<longleftrightarrow> \<not> Settled f \<and> fi_Class f = ''job-launch'' \<and> fi_LaunchKey f \<noteq> ''''"

definition ledger_of :: "ledgers \<Rightarrow> string \<Rightarrow> launch_ledger" where
  "ledger_of ls ident = (case ls ident of None \<Rightarrow> empty_launch_ledger | Some l \<Rightarrow> l)"

text \<open>The launches of the findings that were advanced; the flag says whether one was not settled.\<close>

fun settle_launches :: "'e runtime \<Rightarrow> queues \<Rightarrow> bounds \<Rightarrow> string \<Rightarrow> finding list \<Rightarrow> bool \<Rightarrow> ledgers \<Rightarrow> 'e world \<Rightarrow>
    (bool \<times> ledgers \<times> 'e world) option" where
  "settle_launches rt q b runID [] incomplete ls w = Some (incomplete, ls, w)"
| "settle_launches rt q b runID (f # fs) incomplete ls w =
     (if \<not> launch_open f then settle_launches rt q b runID fs incomplete ls w
      else case settleLaunch rt q b runID f (ledger_of ls (fi_FindingID f)) w of
          None \<Rightarrow> None
        | Some (err, l, w1) \<Rightarrow>
            settle_launches rt q b runID fs (incomplete \<or> err \<noteq> None) (ls(fi_FindingID f \<mapsto> l)) w1)"

fun reconcile_each :: "'e runtime \<Rightarrow> queues \<Rightarrow> bounds \<Rightarrow> string \<Rightarrow> finding list \<Rightarrow> bool \<Rightarrow> 'e world \<Rightarrow>
    bool \<times> finding list \<times> 'e world" where
  "reconcile_each rt q b runID [] incomplete w = (incomplete, [], w)"
| "reconcile_each rt q b runID (f # fs) incomplete w =
     (if Settled f then reconcile_each rt q b runID fs incomplete w
      else case get as_finding (exec rt RunCtx (recoveryOptions q b) (ReconcileFinding runID (fi_FindingID f)) w) of
          (Inl err, w1) \<Rightarrow> reconcile_each rt q b runID fs True w1
        | (Inr f1, w1) \<Rightarrow>
            (case reconcile_each rt q b runID fs incomplete w1 of (inc, fs1, w2) \<Rightarrow> (inc, f1 # fs1, w2)))"

definition reconcile_batch :: "'e runtime \<Rightarrow> queues \<Rightarrow> bounds \<Rightarrow> string \<Rightarrow> finding list \<Rightarrow> bool \<Rightarrow> 'e world \<Rightarrow>
    bool \<times> finding list \<times> 'e world" where
  "reconcile_batch rt q b runID fs incomplete w =
     (let ids = map fi_FindingID (filter (\<lambda>f. \<not> Settled f) fs) in
      if ids = [] then (incomplete, [], w)
      else case get as_findings (exec rt RunCtx (batchOptions q b) (ReconcileFindings runID ids) w) of
          (Inl err, w1) \<Rightarrow> (True, [], w1)
        | (Inr (advanced, failures), w1) \<Rightarrow> (incomplete \<or> failures \<noteq> [], advanced, w1))"

definition reconcile_page :: "'e runtime \<Rightarrow> queues \<Rightarrow> bounds \<Rightarrow> string \<Rightarrow> bool \<Rightarrow> finding list \<Rightarrow> bool \<Rightarrow> ledgers \<Rightarrow> 'e world \<Rightarrow>
    (bool \<times> ledgers \<times> 'e world) option" where
  "reconcile_page rt q b runID batched fs incomplete ls w =
     (case (if batched then reconcile_batch rt q b runID fs incomplete w else reconcile_each rt q b runID fs incomplete w) of
        (inc, advanced, w1) \<Rightarrow> settle_launches rt q b runID advanced inc ls w1)"

partial_function (option) reconcile :: "'e runtime \<Rightarrow> queues \<Rightarrow> bounds \<Rightarrow> string \<Rightarrow> bool \<Rightarrow> string \<Rightarrow> bool \<Rightarrow> ledgers \<Rightarrow> 'e world \<Rightarrow>
    (bool \<times> ledgers \<times> 'e world) option" where
  "reconcile rt q b runID batched cursor incomplete ls w =
     (case get as_finding_page (exec rt RunCtx (recoveryOptions q b) (ListFindings runID '''' findingsPage cursor) w) of
        (Inl err, w1) \<Rightarrow> Some (True, ls, w1)
      | (Inr page, w1) \<Rightarrow>
          (case reconcile_page rt q b runID batched (fp_Findings page) incomplete ls w1 of
             None \<Rightarrow> None
           | Some (inc, ls1, w2) \<Rightarrow>
               if fp_Complete page then Some (inc, ls1, w2)
               else reconcile rt q b runID batched (fp_NextCursor page) inc ls1 w2))"

section \<open>The run\<close>

text \<open>One round up to its evaluation: the run ends, or waits for the next round.\<close>

definition recovery_round :: "'e runtime \<Rightarrow> queues \<Rightarrow> bounds \<Rightarrow> string \<Rightarrow> bool \<Rightarrow> ledgers \<Rightarrow> 'e world \<Rightarrow>
    (wf_error option option \<times> ledgers \<times> 'e world) option" where
  "recovery_round rt q b runID batched ls w =
     (case (case enumerate_all rt q b runID w of
              None \<Rightarrow> None
            | Some (Some err, w1) \<Rightarrow> Some (ls, w1)
            | Some (None, w1) \<Rightarrow> map_option (\<lambda>(inc, ls1, w2). (ls1, w2)) (reconcile rt q b runID batched '''' False ls w1)) of
        None \<Rightarrow> None
      | Some (ls1, w1) \<Rightarrow>
          (case get as_recovery_status (exec rt RunCtx (recoveryOptions q b) (EvaluateRecovery runID) w1) of
             (Inl err, w2) \<Rightarrow> Some (if RefusalCode (Some err) \<noteq> '''' then Some (Some err) else None, ls1, w2)
           | (Inr status, w2) \<Rightarrow> Some (if Reopened status then Some None else None, ls1, w2)))"

definition recovery_restricted :: wf_error where
  "recovery_restricted = ApplicationError ''RECOVERY_RESTRICTED'' True"

partial_function (option) recovery_loop :: "'e runtime \<Rightarrow> queues \<Rightarrow> bounds \<Rightarrow> string \<Rightarrow> bool \<Rightarrow> int \<Rightarrow> time \<Rightarrow> duration \<Rightarrow>
    ledgers \<Rightarrow> 'e world \<Rightarrow> (wf_error option \<times> 'e world) option" where
  "recovery_loop rt q b runID batched round start interval ls w =
     (case recovery_round rt q b runID batched ls w of
        None \<Rightarrow> None
      | Some (Some r, ls1, w1) \<Rightarrow> Some (r, w1)
      | Some (None, ls1, w1) \<Rightarrow>
          if now rt w1 - start + interval > ReconcileMaxDuration b then Some (Some recovery_restricted, w1)
          else (case sleep rt RunCtx interval w1 of
              (Some err, w2) \<Rightarrow> Some (Some err, w2)
            | (None, w2) \<Rightarrow>
                (let next_interval = min (2 * interval) (ReconcileMaxInterval b) in
                 if batched then Some (Some (ContinueAsNewError (ContinueRecovery \<lparr>rn_RunID = runID, rn_Carry = Some
                     \<lparr>rv_Round = round + 1, rv_Started = start, rv_Interval = next_interval, rv_Ledgers = carryLedgers ls1\<rparr>\<rparr>)), w2)
                 else recovery_loop rt q b runID batched (round + 1) start next_interval ls1 w2)))"

definition Recovery :: "'e runtime \<Rightarrow> queues \<Rightarrow> bounds \<Rightarrow> recovery_input \<Rightarrow> 'e world \<Rightarrow> (wf_error option \<times> 'e world) option" where
  "Recovery rt q b inp w =
     (let batched = (rt_version rt recoveryRounds = 1) in
      case (if batched then rn_Carry inp else None) of
        Some carry \<Rightarrow> recovery_loop rt q b (rn_RunID inp) batched (rv_Round carry) (rv_Started carry) (rv_Interval carry)
            (restoreLedgers (rv_Ledgers carry)) w
      | None \<Rightarrow> recovery_loop rt q b (rn_RunID inp) batched 1 (now rt w) (ReconcileInitialInterval b) Map.empty w)"

section \<open>Evidence\<close>

text \<open>A finding of the run that Control answered after advancing it.\<close>

definition finding_shown :: "string \<Rightarrow> finding \<Rightarrow> event list \<Rightarrow> bool" where
  "finding_shown runID f es \<longleftrightarrow>
     (\<exists>opts ident. Act RunCtx opts (ReconcileFinding runID ident) (Inr (RFinding f)) \<in> set es) \<or>
     (\<exists>opts ids fs errs. Act RunCtx opts (ReconcileFindings runID ids) (Inr (RFindings fs errs)) \<in> set es \<and> f \<in> set fs)"

text \<open>What the launcher showed of the launch of a finding, to an observation or to a delete.\<close>

definition launch_shown :: "finding \<Rightarrow> launch_observation \<Rightarrow> event list \<Rightarrow> bool" where
  "launch_shown f obs es \<longleftrightarrow>
     (\<exists>opts ol. Act RunCtx opts (ObserveLaunch ol) (Inr (RLaunchObservation obs)) \<in> set es \<and> ol_Launch ol = recovery_launch f) \<or>
     (\<exists>opts dj. Act RunCtx opts (DeleteJob dj) (Inr (RLaunchObservation obs)) \<in> set es \<and> dj_Launch dj = recovery_launch f)"

abbreviation launch_report :: "string \<Rightarrow> string \<Rightarrow> launch_observation \<Rightarrow> record_launch_outcome_input" where
  "launch_report runID fid obs \<equiv>
     \<lparr>ro_RunID = runID, ro_FindingID = fid, ro_JobUID = lo_JobUID obs, ro_Pods = lo_Pods obs, ro_Stopped = False\<rparr>"

text \<open>An observation of the launch that was shown and that Control recorded.\<close>

definition evidence :: "string \<Rightarrow> string \<Rightarrow> launch_observation \<Rightarrow> event list \<Rightarrow> bool" where
  "evidence runID fid obs es \<longleftrightarrow> (\<exists>f. fi_FindingID f = fid \<and> launch_shown f obs es) \<and>
     (\<exists>opts a. Act RunCtx opts (RecordLaunchOutcome (launch_report runID fid obs)) (Inr a) \<in> set es)"

text \<open>A marker the run may delete an object by, and a stop it owes Control the confirmation of.\<close>

definition marked :: "ledgers \<Rightarrow> string \<Rightarrow> string \<Rightarrow> event list \<Rightarrow> int \<Rightarrow> bool" where
  "marked carried runID fid es r \<longleftrightarrow>
     (\<exists>l. carried fid = Some l \<and> r \<in> set (recorded l)) \<or> (\<exists>obs. evidence runID fid obs es \<and> r \<in> set (lo_Requests obs))"

definition stop_owed :: "ledgers \<Rightarrow> string \<Rightarrow> string \<Rightarrow> string \<Rightarrow> event list \<Rightarrow> bool" where
  "stop_owed carried runID fid job es \<longleftrightarrow>
     (\<exists>l. carried fid = Some l \<and> stopPending l \<and> stoppedJob l = job) \<or>
     (\<exists>obs. evidence runID fid obs es \<and> lo_JobUID obs = job) \<and>
     (\<exists>f opts dj obs. fi_FindingID f = fid \<and> dj_Launch dj = recovery_launch f \<and> Empty obs \<and>
        Act RunCtx opts (DeleteJob dj) (Inr (RLaunchObservation obs)) \<in> set es)"

definition ledger_sound :: "ledgers \<Rightarrow> string \<Rightarrow> string \<Rightarrow> launch_ledger \<Rightarrow> event list \<Rightarrow> bool" where
  "ledger_sound carried runID fid l es \<longleftrightarrow>
     (\<forall>r \<in> set (recorded l). marked carried runID fid es r) \<and> (stopPending l \<longrightarrow> stop_owed carried runID fid (stoppedJob l) es)"

definition ledgers_sound :: "ledgers \<Rightarrow> string \<Rightarrow> ledgers \<Rightarrow> event list \<Rightarrow> bool" where
  "ledgers_sound carried runID ls es \<longleftrightarrow> (\<forall>fid l. ls fid = Some l \<longrightarrow> ledger_sound carried runID fid l es)"

text \<open>What each call of a recovery run needs of the calls before it.\<close>

fun recovery_guard :: "ledgers \<Rightarrow> string \<Rightarrow> event list \<Rightarrow> event \<Rightarrow> bool" where
  "recovery_guard carried runID es (Slept c d err) \<longleftrightarrow> c = RunCtx"
| "recovery_guard carried runID es (Act c opts (EnumerateInventory rid cls) res) \<longleftrightarrow> rid = runID \<and> cls \<in> set ObligationClasses"
| "recovery_guard carried runID es (Act c opts (ListFindings rid st n cursor) res) \<longleftrightarrow> rid = runID"
| "recovery_guard carried runID es (Act c opts (ReconcileFinding rid ident) res) \<longleftrightarrow> rid = runID"
| "recovery_guard carried runID es (Act c opts (ReconcileFindings rid ids) res) \<longleftrightarrow> rid = runID"
| "recovery_guard carried runID es (Act c opts (EvaluateRecovery rid) res) \<longleftrightarrow> rid = runID"
| "recovery_guard carried runID es (Act c opts (ObserveLaunch ol) res) \<longleftrightarrow>
     (\<exists>f. finding_shown runID f es \<and> launch_open f \<and> ol_Launch ol = recovery_launch f)"
| "recovery_guard carried runID es (Act c opts (RecordLaunchOutcome ro) res) \<longleftrightarrow> ro_RunID ro = runID \<and>
     (if ro_Stopped ro then ro_Pods ro = [] \<and> stop_owed carried runID (ro_FindingID ro) (ro_JobUID ro) es
      else ro_JobUID ro = '''' \<and> ro_Pods ro = [] \<or>
        (\<exists>f obs. fi_FindingID f = ro_FindingID ro \<and> launch_shown f obs es \<and> ro_JobUID ro = lo_JobUID obs \<and> ro_Pods ro = lo_Pods obs))"
| "recovery_guard carried runID es (Act c opts (DeleteJob dj) res) \<longleftrightarrow>
     dj_EvidenceFirst dj \<and> dj_Unaccounted dj = [] \<and>
     (\<exists>f. finding_shown runID f es \<and> launch_open f \<and> dj_Launch dj = recovery_launch f \<and>
        (\<exists>obs. evidence runID (fi_FindingID f) obs es) \<and> (\<forall>r \<in> set (dj_Recorded dj). marked carried runID (fi_FindingID f) es r))"
| "recovery_guard carried runID es (Act c opts r res) \<longleftrightarrow> False"

lemma finding_shown_mono: "finding_shown runID f es \<Longrightarrow> set es \<subseteq> set es' \<Longrightarrow> finding_shown runID f es'"
  unfolding finding_shown_def by blast

lemma launch_shown_mono: "launch_shown f obs es \<Longrightarrow> set es \<subseteq> set es' \<Longrightarrow> launch_shown f obs es'"
  unfolding launch_shown_def by blast

lemma evidence_mono: "evidence runID fid obs es \<Longrightarrow> set es \<subseteq> set es' \<Longrightarrow> evidence runID fid obs es'"
  unfolding evidence_def using launch_shown_mono by blast

lemma marked_mono: "marked carried runID fid es r \<Longrightarrow> set es \<subseteq> set es' \<Longrightarrow> marked carried runID fid es' r"
  unfolding marked_def using evidence_mono by blast

lemma stop_owed_mono: "stop_owed carried runID fid job es \<Longrightarrow> set es \<subseteq> set es' \<Longrightarrow> stop_owed carried runID fid job es'"
  unfolding stop_owed_def using evidence_mono by blast

lemma ledger_sound_mono: "ledger_sound carried runID fid l es \<Longrightarrow> set es \<subseteq> set es' \<Longrightarrow> ledger_sound carried runID fid l es'"
  unfolding ledger_sound_def using marked_mono stop_owed_mono by blast

lemma ledgers_sound_mono: "ledgers_sound carried runID ls es \<Longrightarrow> set es \<subseteq> set es' \<Longrightarrow> ledgers_sound carried runID ls es'"
  unfolding ledgers_sound_def using ledger_sound_mono by blast

lemma ledger_sound_empty [simp]: "ledger_sound carried runID fid empty_launch_ledger es"
  by (simp add: ledger_sound_def empty_launch_ledger_def)

lemma ledgers_sound_carried [simp]: "ledgers_sound carried runID carried es"
  unfolding ledgers_sound_def ledger_sound_def marked_def stop_owed_def by blast

section \<open>A launch\<close>

lemma recordLaunch_does:
  assumes "recordLaunch rt q b runID (fi_FindingID f) obs l w = (err, l', w')"
    "launch_shown f obs (trace w)" "ledger_sound carried runID (fi_FindingID f) l (trace w)"
  shows "keeps (recovery_guard carried runID) w w' \<and> ledger_sound carried runID (fi_FindingID f) l' (trace w') \<and>
    (err = None \<longrightarrow> evidence runID (fi_FindingID f) obs (trace w'))"
proof -
  let ?ro = "launch_report runID (fi_FindingID f) obs"
  obtain res w1 where one: "get as_finding (exec rt RunCtx (recoveryOptions q b) (RecordLaunchOutcome ?ro) w) = (res, w1)" by fastforce
  have k: "keeps (recovery_guard carried runID) w w1"
    by (rule keeps_call [OF one]) (use assms(2) in auto)
  note sub = keeps_subset [OF k]
  show ?thesis
  proof (cases res)
    case (Inl e)
    then show ?thesis using assms(1) one k ledger_sound_mono [OF assms(3) sub] by (auto simp: recordLaunch_def)
  next
    case (Inr x)
    then obtain a where tr: "trace w1 = Act RunCtx (recoveryOptions q b) (RecordLaunchOutcome ?ro) (Inr a) # trace w"
      using answered_call [OF one [unfolded Inr]] by blast
    have ev: "evidence runID (fi_FindingID f) obs (trace w1)"
      unfolding evidence_def using launch_shown_mono [OF assms(2) sub] tr by auto
    have "l' = record_requests (lo_Requests obs) l" "w' = w1" "err = None" using assms(1) one Inr by (auto simp: recordLaunch_def)
    moreover have "ledger_sound carried runID (fi_FindingID f) (record_requests (lo_Requests obs) l) (trace w1)"
      using ledger_sound_mono [OF assms(3) sub] ev unfolding ledger_sound_def set_record_requests stop_record_requests
      by (auto simp: marked_def)
    ultimately show ?thesis using k ev by simp
  qed
qed

lemma confirmStop_does:
  assumes "confirmStop rt q b runID fid l w = (err, l', w')" "ledger_sound carried runID fid l (trace w)" "stopPending l"
  shows "keeps (recovery_guard carried runID) w w' \<and> ledger_sound carried runID fid l' (trace w')"
proof -
  let ?ro = "\<lparr>ro_RunID = runID, ro_FindingID = fid, ro_JobUID = stoppedJob l, ro_Pods = [], ro_Stopped = True\<rparr>"
  obtain res w1 where one: "get as_finding (exec rt RunCtx (recoveryOptions q b) (RecordLaunchOutcome ?ro) w) = (res, w1)" by fastforce
  have k: "keeps (recovery_guard carried runID) w w1"
    by (rule keeps_call [OF one]) (use assms(2,3) in \<open>simp add: ledger_sound_def\<close>)
  have s: "ledger_sound carried runID fid l (trace w1)" by (rule ledger_sound_mono [OF assms(2) keeps_subset [OF k]])
  have "w' = w1 \<and> (l' = l \<or> l' = l\<lparr>stopPending := False\<rparr>)"
    using assms(1) one by (cases res) (auto simp: confirmStop_def)
  then show ?thesis using k s by (auto simp: ledger_sound_def)
qed

lemma delete_recorded_does:
  assumes "delete_recorded rt q b runID f jobUID l w = Some r"
    "finding_shown runID f (trace w)" "launch_open f" "ledger_sound carried runID (fi_FindingID f) l (trace w)"
    "evidence runID (fi_FindingID f) obs (trace w)" "lo_JobUID obs = jobUID"
  shows "keeps (recovery_guard carried runID) w (snd (snd r)) \<and>
    ledger_sound carried runID (fi_FindingID f) (fst (snd r)) (trace (snd (snd r)))"
  using assms
proof (induction arbitrary: obs rule: delete_recorded.raw_induct [rotated 1, consumes 1, case_names step])
  case (step dr rt q b runID f jobUID l w r)
  let ?G = "recovery_guard carried runID"
  let ?dj = "\<lparr>dj_Launch = recovery_launch f, dj_Unaccounted = [], dj_EvidenceFirst = True, dj_Recorded = recorded l\<rparr>"
  obtain res w1 where one: "get as_launch_observation (exec rt RunCtx (cleanupOptions q b) (DeleteJob ?dj) w) = (res, w1)" by fastforce
  have k1: "keeps ?G w w1"
    by (rule keeps_call [OF one]) (use step(3-6) in \<open>auto simp: ledger_sound_def\<close>)
  note sub = keeps_subset [OF k1]
  have s1: "ledger_sound carried runID (fi_FindingID f) l (trace w1)" by (rule ledger_sound_mono [OF step(5) sub])
  show ?case
  proof (cases res)
    case (Inl err)
    then show ?thesis using step(2) one k1 s1 by auto
  next
    case (Inr stopped)
    obtain a where tr: "trace w1 = Act RunCtx (cleanupOptions q b) (DeleteJob ?dj) (Inr (RLaunchObservation stopped)) # trace w"
      using answered_call [OF one [unfolded Inr]] by auto
    have ev: "evidence runID (fi_FindingID f) obs (trace w1)" by (rule evidence_mono [OF step(6) sub])
    show ?thesis
    proof (cases "Empty stopped")
      case True
      let ?l = "l\<lparr>stopPending := True, stoppedJob := jobUID\<rparr>"
      have owed: "stop_owed carried runID (fi_FindingID f) jobUID (trace w1)"
        unfolding stop_owed_def using ev step(7) True tr
        by (intro disjI2 conjI exI [of _ obs] exI [of _ f] exI [of _ "cleanupOptions q b"] exI [of _ ?dj] exI [of _ stopped]) auto
      then have sl: "ledger_sound carried runID (fi_FindingID f) ?l (trace w1)" using s1 by (auto simp: ledger_sound_def)
      obtain e2 l2 w2 where r: "r = (e2, l2, w2)" by (metis prod_cases3)
      have stop: "confirmStop rt q b runID (fi_FindingID f) ?l w1 = (e2, l2, w2)" using step(2) one Inr True r by simp
      show ?thesis using confirmStop_does [OF stop sl] keeps_trans [OF k1] r by simp
    next
      case False
      have shown: "launch_shown f stopped (trace w1)"
        unfolding launch_shown_def using tr by (intro disjI2 exI conjI) auto
      obtain e2 l2 w2 where two: "recordLaunch rt q b runID (fi_FindingID f) stopped l w1 = (e2, l2, w2)" by (metis prod_cases3)
      note r2 = recordLaunch_does [OF two shown s1]
      have k2: "keeps ?G w w2" using keeps_trans [OF k1] r2 by blast
      show ?thesis
      proof (cases e2)
        case (Some err)
        then show ?thesis using step(2) one Inr False two r2 k2 by auto
      next
        case None
        let ?job = "if lo_JobUID stopped \<noteq> '''' then lo_JobUID stopped else jobUID"
        have rest: "dr rt q b runID f ?job l2 w2 = Some r" using step(2) one Inr False two None by simp
        have sh2: "finding_shown runID f (trace w2)" by (rule finding_shown_mono [OF step(3) keeps_subset [OF k2]])
        obtain obs2 where "evidence runID (fi_FindingID f) obs2 (trace w2)" "lo_JobUID obs2 = ?job"
        proof (cases "lo_JobUID stopped = ''''")
          case True
          then show thesis using that [of obs] evidence_mono [OF step(6) keeps_subset [OF k2]] step(7) by simp
        next
          case False
          then show thesis using that [of stopped] r2 None by simp
        qed
        from step(1) [OF rest sh2 step(4) _ this] r2 keeps_trans [OF k2] show ?thesis by blast
      qed
    qed
  qed
qed

lemma settleLaunch_does:
  assumes "settleLaunch rt q b runID f l w = Some (err, l', w')"
    "finding_shown runID f (trace w)" "launch_open f" "ledger_sound carried runID (fi_FindingID f) l (trace w)"
  shows "keeps (recovery_guard carried runID) w w' \<and> ledger_sound carried runID (fi_FindingID f) l' (trace w')"
proof (cases "stopPending l")
  case True
  then show ?thesis using assms(1) confirmStop_does [OF _ assms(4) True] by (auto simp: settleLaunch_def)
next
  case False
  let ?G = "recovery_guard carried runID"
  let ?ol = "\<lparr>ol_Launch = recovery_launch f, ol_SettleWindow = UnresolvedSettleWindow b\<rparr>"
  obtain res w1 where one: "get as_launch_observation (exec rt RunCtx (cleanupOptions q b) (ObserveLaunch ?ol) w) = (res, w1)" by fastforce
  have k1: "keeps ?G w w1" by (rule keeps_call [OF one]) (use assms(2,3) in auto)
  note sub = keeps_subset [OF k1]
  have s1: "ledger_sound carried runID (fi_FindingID f) l (trace w1)" by (rule ledger_sound_mono [OF assms(4) sub])
  show ?thesis
  proof (cases res)
    case (Inl e)
    let ?ro = "\<lparr>ro_RunID = runID, ro_FindingID = fi_FindingID f, ro_JobUID = '''', ro_Pods = [], ro_Stopped = False\<rparr>"
    obtain res2 w2 where two: "get as_finding (exec rt RunCtx (recoveryOptions q b) (RecordLaunchOutcome ?ro) w1) = (res2, w2)" by fastforce
    have k2: "keeps ?G w1 w2" by (rule keeps_call [OF two]) simp
    have "l' = l \<and> w' = w2" using assms(1) False one Inl two by (cases res2) (auto simp: settleLaunch_def)
    then show ?thesis using keeps_trans [OF k1 k2] ledger_sound_mono [OF s1 keeps_subset [OF k2]] by simp
  next
    case (Inr obs)
    have shown: "launch_shown f obs (trace w1)"
      using answered_call [OF one [unfolded Inr]] unfolding launch_shown_def by (intro disjI1) force
    obtain e2 l2 w2 where two: "recordLaunch rt q b runID (fi_FindingID f) obs l w1 = (e2, l2, w2)" by (metis prod_cases3)
    note r2 = recordLaunch_does [OF two shown s1]
    have k2: "keeps ?G w w2" using keeps_trans [OF k1] r2 by blast
    show ?thesis
    proof (cases e2)
      case (Some e)
      then show ?thesis using assms(1) False one Inr two r2 k2 by (auto simp: settleLaunch_def)
    next
      case None
      have run: "delete_recorded rt q b runID f (lo_JobUID obs) l2 w2 = Some (err, l', w')"
        using assms(1) False one Inr two None by (simp add: settleLaunch_def)
      have sh2: "finding_shown runID f (trace w2)" by (rule finding_shown_mono [OF assms(2) keeps_subset [OF k2]])
      from delete_recorded_does [OF run sh2 assms(3)] r2 None keeps_trans [OF k2] show ?thesis by fastforce
    qed
  qed
qed

section \<open>A page, a round and a run\<close>

lemma settle_launches_does:
  assumes "settle_launches rt q b runID fs incomplete ls w = Some (inc, ls', w')"
    "\<forall>f \<in> set fs. finding_shown runID f (trace w)" "ledgers_sound carried runID ls (trace w)"
  shows "keeps (recovery_guard carried runID) w w' \<and> ledgers_sound carried runID ls' (trace w')"
  using assms
proof (induction fs arbitrary: incomplete ls w)
  case (Cons f fs)
  show ?case
  proof (cases "launch_open f")
    case True
    obtain err l w1 where one: "settleLaunch rt q b runID f (ledger_of ls (fi_FindingID f)) w = Some (err, l, w1)"
      using Cons.prems(1) True by (auto split: option.splits)
    have "ledger_sound carried runID (fi_FindingID f) (ledger_of ls (fi_FindingID f)) (trace w)"
      using Cons.prems(3) by (auto simp: ledger_of_def ledgers_sound_def split: option.splits)
    note s1 = settleLaunch_does [OF one _ True this]
    have k1: "keeps (recovery_guard carried runID) w w1" and l1: "ledger_sound carried runID (fi_FindingID f) l (trace w1)"
      using s1 Cons.prems(2) by auto
    note sub = keeps_subset [OF k1]
    have "ledgers_sound carried runID (ls(fi_FindingID f \<mapsto> l)) (trace w1)"
      using ledgers_sound_mono [OF Cons.prems(3) sub] l1 by (auto simp: ledgers_sound_def)
    moreover have "\<forall>g \<in> set fs. finding_shown runID g (trace w1)" using Cons.prems(2) finding_shown_mono [OF _ sub] by simp
    moreover have "settle_launches rt q b runID fs (incomplete \<or> err \<noteq> None) (ls(fi_FindingID f \<mapsto> l)) w1 = Some (inc, ls', w')"
      using Cons.prems(1) True one by simp
    ultimately show ?thesis using Cons.IH keeps_trans [OF k1] by blast
  qed (use Cons in simp)
qed simp

lemma reconcile_each_does:
  assumes "reconcile_each rt q b runID fs incomplete w = (inc, advanced, w')"
  shows "keeps (recovery_guard carried runID) w w' \<and> (\<forall>f \<in> set advanced. finding_shown runID f (trace w'))"
  using assms
proof (induction fs arbitrary: incomplete inc advanced w w')
  case (Cons f fs)
  show ?case
  proof (cases "Settled f")
    case False
    obtain res w1 where one: "get as_finding (exec rt RunCtx (recoveryOptions q b) (ReconcileFinding runID (fi_FindingID f)) w) = (res, w1)"
      by fastforce
    have k1: "keeps (recovery_guard carried runID) w w1" by (rule keeps_call [OF one]) simp
    show ?thesis
    proof (cases res)
      case (Inl err)
      then show ?thesis using Cons False one keeps_trans [OF k1] by fastforce
    next
      case (Inr f1)
      obtain inc1 fs1 w2 where rest: "reconcile_each rt q b runID fs incomplete w1 = (inc1, fs1, w2)" by (metis prod_cases3)
      have out: "advanced = f1 # fs1" "w' = w2" using Cons.prems False one Inr rest by simp_all
      have "finding_shown runID f1 (trace w1)" using answered_call [OF one [unfolded Inr]] by (auto simp: finding_shown_def)
      moreover note ih = Cons.IH [OF rest]
      ultimately have "finding_shown runID f1 (trace w2)" using finding_shown_mono keeps_subset by blast
      then show ?thesis using ih keeps_trans [OF k1] out by auto
    qed
  qed (use Cons in simp)
qed simp

lemma reconcile_batch_does:
  assumes "reconcile_batch rt q b runID fs incomplete w = (inc, advanced, w')"
  shows "keeps (recovery_guard carried runID) w w' \<and> (\<forall>f \<in> set advanced. finding_shown runID f (trace w'))"
proof -
  let ?ids = "map fi_FindingID (filter (\<lambda>f. \<not> Settled f) fs)"
  show ?thesis
  proof (cases "?ids = []")
    case True
    then show ?thesis using assms by (simp add: reconcile_batch_def Let_def)
  next
    case False
    obtain res w1 where one: "get as_findings (exec rt RunCtx (batchOptions q b) (ReconcileFindings runID ?ids) w) = (res, w1)" by fastforce
    have k1: "keeps (recovery_guard carried runID) w w1" by (rule keeps_call [OF one]) simp
    show ?thesis
    proof (cases res)
      case (Inl err)
      have "advanced = [] \<and> w' = w1" using assms unfolding reconcile_batch_def Let_def if_not_P [OF False] one Inl by simp
      then show ?thesis using k1 by simp
    next
      case (Inr p)
      have "advanced = fst p \<and> w' = w1"
        using assms unfolding reconcile_batch_def Let_def if_not_P [OF False] one Inr by (cases p) simp
      moreover have "finding_shown runID f (trace w1)" if "f \<in> set (fst p)" for f
        using answered_call [OF one [unfolded Inr]] that by (fastforce simp: finding_shown_def)
      ultimately show ?thesis using k1 by simp
    qed
  qed
qed

lemma reconcile_page_does:
  assumes "reconcile_page rt q b runID batched fs incomplete ls w = Some (inc, ls', w')" "ledgers_sound carried runID ls (trace w)"
  shows "keeps (recovery_guard carried runID) w w' \<and> ledgers_sound carried runID ls' (trace w')"
proof -
  obtain inc1 advanced w1 where
    one: "(if batched then reconcile_batch rt q b runID fs incomplete w else reconcile_each rt q b runID fs incomplete w) = (inc1, advanced, w1)"
    by (metis prod_cases3)
  have k1: "keeps (recovery_guard carried runID) w w1 \<and> (\<forall>f \<in> set advanced. finding_shown runID f (trace w1))"
    using one reconcile_batch_does reconcile_each_does by (cases batched) fastforce+
  have "settle_launches rt q b runID advanced inc1 ls w1 = Some (inc, ls', w')" using assms(1) one by (simp add: reconcile_page_def)
  from settle_launches_does [OF this _ ledgers_sound_mono [OF assms(2)]] k1 show ?thesis
    using keeps_subset keeps_trans by blast
qed

lemma reconcile_does:
  assumes "reconcile rt q b runID batched cursor incomplete ls w = Some r" "ledgers_sound carried runID ls (trace w)"
  shows "keeps (recovery_guard carried runID) w (snd (snd r)) \<and> ledgers_sound carried runID (fst (snd r)) (trace (snd (snd r)))"
  using assms
proof (induction rule: reconcile.raw_induct [rotated 1, consumes 1, case_names step])
  case (step rc rt q b runID batched cursor incomplete ls w r)
  obtain res w1 where one: "get as_finding_page (exec rt RunCtx (recoveryOptions q b) (ListFindings runID '''' findingsPage cursor) w) = (res, w1)"
    by fastforce
  have k1: "keeps (recovery_guard carried runID) w w1" by (rule keeps_call [OF one]) simp
  have s1: "ledgers_sound carried runID ls (trace w1)" by (rule ledgers_sound_mono [OF step(3) keeps_subset [OF k1]])
  show ?case
  proof (cases res)
    case (Inl err)
    then show ?thesis using step(2) one k1 s1 by auto
  next
    case (Inr page)
    obtain inc ls1 w2 where two: "reconcile_page rt q b runID batched (fp_Findings page) incomplete ls w1 = Some (inc, ls1, w2)"
      using step(2) one Inr by (auto split: option.splits)
    note s2 = reconcile_page_does [OF two s1]
    then have k2: "keeps (recovery_guard carried runID) w w2" using keeps_trans [OF k1] by blast
    show ?thesis
    proof (cases "fp_Complete page")
      case True
      then show ?thesis using step(2) one Inr two s2 k2 by auto
    next
      case False
      have "rc rt q b runID batched (fp_NextCursor page) inc ls1 w2 = Some r" using step(2) one Inr two False by simp
      from step(1) [OF this] s2 keeps_trans [OF k2] show ?thesis by blast
    qed
  qed
qed

lemma enumerate_class_does:
  assumes "enumerate_class rt q b runID cls w = Some r" "cls \<in> set ObligationClasses"
  shows "keeps (recovery_guard carried runID) w (snd r)"
  using assms
proof (induction rule: enumerate_class.raw_induct [rotated 1, consumes 1, case_names step])
  case (step ec rt q b runID cls w r)
  obtain res w1 where one: "get as_class_progress (exec rt RunCtx (recoveryOptions q b) (EnumerateInventory runID cls) w) = (res, w1)" by fastforce
  have k1: "keeps (recovery_guard carried runID) w w1" by (rule keeps_call [OF one]) (use step(3) in simp)
  show ?case
  proof (cases "\<exists>p. res = Inr p \<and> \<not> cp_Complete p")
    case True
    then have "ec rt q b runID cls w1 = Some r" using step(2) one by auto
    from step(1) [OF this step(3)] show ?thesis by (rule keeps_trans [OF k1])
  next
    case False
    then have "snd r = w1" using step(2) one by (cases res) (auto split: if_splits)
    then show ?thesis using k1 by simp
  qed
qed

lemma enumerate_classes_does:
  assumes "enumerate_classes rt q b runID classes w = Some r" "set classes \<subseteq> set ObligationClasses"
  shows "keeps (recovery_guard carried runID) w (snd r)"
  using assms
proof (induction classes arbitrary: w)
  case (Cons cls classes)
  obtain e w1 where one: "enumerate_class rt q b runID cls w = Some (e, w1)"
    using Cons.prems(1) by (auto split: option.splits)
  have k1: "keeps (recovery_guard carried runID) w w1" using enumerate_class_does [OF one] Cons.prems(2) by simp
  show ?case
  proof (cases e)
    case None
    then have "enumerate_classes rt q b runID classes w1 = Some r" using Cons.prems(1) one by simp
    then show ?thesis using Cons.IH Cons.prems(2) keeps_trans [OF k1] by simp
  qed (use Cons.prems(1) one k1 in auto)
qed auto

lemma recovery_round_does:
  assumes "recovery_round rt q b runID batched ls w = Some (res, ls', w')" "ledgers_sound carried runID ls (trace w)"
  shows "keeps (recovery_guard carried runID) w w' \<and> ledgers_sound carried runID ls' (trace w') \<and>
    (\<exists>opts raw. hd (trace w') = Act RunCtx opts (EvaluateRecovery runID) raw \<and> trace w' \<noteq> [] \<and>
       (res = Some None \<longrightarrow> (\<exists>status. raw = Inr (RRecoveryStatus status) \<and> Reopened status)) \<and>
       (\<forall>err. res = Some (Some err) \<longrightarrow> decode as_recovery_status raw = Inl err \<and> RefusalCode (Some err) \<noteq> ''''))"
proof -
  let ?G = "recovery_guard carried runID"
  let ?pre = "case enumerate_all rt q b runID w of
              None \<Rightarrow> None
            | Some (Some err, w1) \<Rightarrow> Some (ls, w1)
            | Some (None, w1) \<Rightarrow> map_option (\<lambda>(inc, ls1, w2). (ls1, w2)) (reconcile rt q b runID batched '''' False ls w1)"
  obtain ls1 w1 where pre: "?pre = Some (ls1, w1)" using assms(1) by (auto simp: recovery_round_def split: option.splits)
  have s1: "keeps ?G w w1 \<and> ledgers_sound carried runID ls1 (trace w1)"
  proof -
    obtain e w0 where en: "enumerate_all rt q b runID w = Some (e, w0)" using pre by (auto split: option.splits)
    have k0: "keeps ?G w w0" using enumerate_classes_does [OF en [unfolded enumerate_all_def]] by simp
    have s0: "ledgers_sound carried runID ls (trace w0)" by (rule ledgers_sound_mono [OF assms(2) keeps_subset [OF k0]])
    show ?thesis
    proof (cases e)
      case (Some err)
      then show ?thesis using pre en k0 s0 by auto
    next
      case None
      then obtain inc where rc: "reconcile rt q b runID batched '''' False ls w0 = Some (inc, ls1, w1)" using pre en by auto
      from reconcile_does [OF rc s0] show ?thesis using keeps_trans [OF k0] by simp
    qed
  qed
  obtain r w2 where one: "get as_recovery_status (exec rt RunCtx (recoveryOptions q b) (EvaluateRecovery runID) w1) = (r, w2)" by fastforce
  have k2: "keeps ?G w w2" using keeps_trans [of ?G w w1] s1 keeps_call [OF one, of ?G] by simp
  obtain raw where raw: "trace w2 = Act RunCtx (recoveryOptions q b) (EvaluateRecovery runID) raw # trace w1" "r = decode as_recovery_status raw"
    using trace_get_exec [OF one] by blast
  have out: "w' = w2" "ls' = ls1" "res = (case r of Inl err \<Rightarrow> if RefusalCode (Some err) \<noteq> '''' then Some (Some err) else None
      | Inr status \<Rightarrow> if Reopened status then Some None else None)"
    using assms(1) pre one by (cases r; simp add: recovery_round_def)+
  have s2: "ledgers_sound carried runID ls1 (trace w2)" by (rule ledgers_sound_mono [OF conjunct2 [OF s1]]) (use raw in auto)
  have reopened: "\<exists>status. raw = Inr (RRecoveryStatus status) \<and> Reopened status" if "res = Some None"
  proof (cases r)
    case (Inr status)
    then show ?thesis using that out(3) raw(2) by (auto simp: decode_Inr split: if_splits dest: sym)
  qed (use that out(3) in \<open>auto split: if_splits\<close>)
  have refused: "decode as_recovery_status raw = Inl err \<and> RefusalCode (Some err) \<noteq> ''''" if "res = Some (Some err)" for err
    unfolding raw(2) [symmetric] using that out(3) by (cases r) (auto split: if_splits)
  show ?thesis unfolding out(1,2) raw(1) using k2 s2 reopened refused unfolding raw(1) by auto
qed

end

