(* ===== verification/RecoveryRuns.thy ===== *)
theory RecoveryRuns
  imports Recovery
begin

text \<open>
  Whole recoveries: the continuations one goes through, that a round of it returns, how many rounds
  there can be, and what all of it means for the launches it settles, with an example of two rounds.
\<close>

section \<open>Continuations\<close>

text \<open>What a run starts from: the round, the start and the interval, and the ledgers.\<close>

definition recovery_pace :: "'e runtime \<Rightarrow> bounds \<Rightarrow> recovery_input \<Rightarrow> 'e world \<Rightarrow> int \<times> time \<times> duration" where
  "recovery_pace rt b inp w =
     (case (if rt_version rt recoveryRounds = 1 then rn_Carry inp else None) of
        Some carry \<Rightarrow> (rv_Round carry, rv_Started carry, rv_Interval carry)
      | None \<Rightarrow> (1, now rt w, ReconcileInitialInterval b))"

definition recovery_ledgers :: "'e runtime \<Rightarrow> recovery_input \<Rightarrow> ledgers" where
  "recovery_ledgers rt inp =
     (case (if rt_version rt recoveryRounds = 1 then rn_Carry inp else None) of
        Some carry \<Rightarrow> restoreLedgers (rv_Ledgers carry)
      | None \<Rightarrow> Map.empty)"

lemma Recovery_starts:
  "recovery_pace rt b inp w = (round, start, interval) \<Longrightarrow>
   Recovery rt q b inp w =
     recovery_loop rt q b (rn_RunID inp) (rt_version rt recoveryRounds = 1) round start interval (recovery_ledgers rt inp) w"
  by (auto simp: Recovery_def recovery_pace_def recovery_ledgers_def Let_def split: option.splits if_splits)

text \<open>The rounds of a recovery across continuations: each run starts from the carry of the one before.\<close>

inductive recovery_runs :: "'e runtime \<Rightarrow> queues \<Rightarrow> bounds \<Rightarrow> recovery_input \<Rightarrow> 'e world \<Rightarrow> wf_error option \<Rightarrow> 'e world \<Rightarrow> bool"
  for rt q b inp w where
  first: "Recovery rt q b inp w = Some (res, w') \<Longrightarrow> recovery_runs rt q b inp w res w'"
| continued: "recovery_runs rt q b inp w (Some (ContinueAsNewError (ContinueRecovery inp1))) w1 \<Longrightarrow>
    Recovery rt q b inp1 w1 = Some (res, w') \<Longrightarrow> recovery_runs rt q b inp w res w'"

abbreviation recovery_continues :: "string \<Rightarrow> int \<Rightarrow> time \<Rightarrow> duration \<Rightarrow> ledgers \<Rightarrow> wf_error" where
  "recovery_continues runID round start interval ls \<equiv> ContinueAsNewError (ContinueRecovery \<lparr>rn_RunID = runID, rn_Carry = Some
     \<lparr>rv_Round = round, rv_Started = start, rv_Interval = interval, rv_Ledgers = carryLedgers ls\<rparr>\<rparr>)"

text \<open>How the run of one round ends.\<close>

lemma recovery_loop_batched:
  assumes "recovery_loop rt q b runID True round start interval ls w = Some (res, w')"
  obtains (evaluated) r ls1 where "recovery_round rt q b runID True ls w = Some (Some r, ls1, w')" "res = r"
  | (restricted) ls1 where "recovery_round rt q b runID True ls w = Some (None, ls1, w')"
      "now rt w' - start + interval > ReconcileMaxDuration b" "res = Some recovery_restricted"
  | (interrupted) ls1 w1 err where "recovery_round rt q b runID True ls w = Some (None, ls1, w1)"
      "sleep rt RunCtx interval w1 = (Some err, w')" "res = Some err"
  | (continues) ls1 w1 where "recovery_round rt q b runID True ls w = Some (None, ls1, w1)"
      "now rt w1 - start + interval \<le> ReconcileMaxDuration b" "sleep rt RunCtx interval w1 = (None, w')"
      "res = Some (recovery_continues runID (round + 1) start (min (2 * interval) (ReconcileMaxInterval b)) ls1)"
proof -
  obtain r ls1 w1 where rd: "recovery_round rt q b runID True ls w = Some (r, ls1, w1)"
    using assms by (subst (asm) recovery_loop.simps) (auto split: option.splits)
  obtain x w2 where sl: "sleep rt RunCtx interval w1 = (x, w2)" by fastforce
  show thesis
  proof (cases r)
    case (Some r')
    then show thesis using assms rd evaluated by (subst (asm) recovery_loop.simps) simp
  next
    case None
    show thesis
    proof (cases "now rt w1 - start + interval > ReconcileMaxDuration b")
      case True
      then show thesis using assms rd None restricted by (subst (asm) recovery_loop.simps) simp
    next
      case False

have run: "(case (x, w2) of (Some err, w2) \<Rightarrow> Some (Some err, w2) | (None, w2) \<Rightarrow> Some (Some
            (recovery_continues runID (round + 1) start (min (2 * interval) (ReconcileMaxInterval b)) ls1), w2)) = Some (res, w')"
        using assms rd None sl False by (subst (asm) recovery_loop.simps) (cases x; auto simp: Let_def)
      show thesis
      proof (cases x)
        case None
        show thesis by (rule continues [of ls1 w1]) (use run rd \<open>r = None\<close> sl False None in auto)
      next
        case (Some err)
        show thesis by (rule interrupted [of ls1 w1 err]) (use run rd \<open>r = None\<close> sl Some in auto)
      qed
    qed
  qed
qed

lemma recovery_loop_does:
  assumes "recovery_loop rt q b runID batched round start interval ls w = Some r" "ledgers_sound carried runID ls (trace w)" "timers_cancel rt"
  shows "keeps (recovery_guard carried runID) w (snd r) \<and>
    (\<forall>cont. fst r = Some (ContinueAsNewError cont) \<longrightarrow> batched \<and>
       (\<exists>round start interval ls1. fst r = Some (recovery_continues runID round start interval ls1) \<and>
          ledgers_sound carried runID ls1 (trace (snd r))))"
  using assms
proof (induction rule: recovery_loop.raw_induct [rotated 1, consumes 1, case_names step])
  case (step rl rt q b runID batched round start interval ls w r)
  obtain rr ls1 w1 where rd: "recovery_round rt q b runID batched ls w = Some (rr, ls1, w1)"
    using step(2) by (auto split: option.splits)
  note s1 = recovery_round_does [OF rd step(3)]
  then have k1: "keeps (recovery_guard carried runID) w w1" and l1: "ledgers_sound carried runID ls1 (trace w1)" by blast+
  show ?case
  proof (cases rr)
    case (Some res)
    then have r: "r = (res, w1)" using step(2) rd by simp
    have "res \<noteq> Some (ContinueAsNewError cont)" for cont using s1 Some by auto
    then show ?thesis using r k1 by simp
  next
    case None
    obtain x w2 where sl: "sleep rt RunCtx interval w1 = (x, w2)" by fastforce
    have k2: "keeps (recovery_guard carried runID) w w2"
      by (rule keeps_trans [OF k1], rule keeps_event [of _ _ "Slept RunCtx interval x"]) (use trace_sleep [OF sl] in simp_all)
    have l2: "ledgers_sound carried runID ls1 (trace w2)" by (rule ledgers_sound_mono [OF l1]) (use trace_sleep [OF sl] in auto)
    have xc: "x = Some err \<Longrightarrow> err = CanceledError" for err using sl timer_canceled [OF step(4)] by blast
    let ?next = "min (2 * interval) (ReconcileMaxInterval b)"
    have run: "(if now rt w1 - start + interval > ReconcileMaxDuration b then Some (Some recovery_restricted, w1)
        else case x of Some err \<Rightarrow> Some (Some err, w2)
          | None \<Rightarrow> if batched then Some (Some (recovery_continues runID (round + 1) start ?next ls1), w2)
              else rl rt q b runID batched (round + 1) start ?next ls1 w2) = Some r"
      using step(2) rd None sl
      by (cases x; cases "now rt w1 - start + interval > ReconcileMaxDuration b"; cases batched) (simp_all add: Let_def)
    consider "r = (Some recovery_restricted, w1)" | "r = (Some CanceledError, w2)"
      | "batched" "r = (Some (recovery_continues runID (round + 1) start ?next ls1), w2)"
      | "rl rt q b runID batched (round + 1) start ?next ls1 w2 = Some r"
    proof -
      have "r = (Some recovery_restricted, w1) \<or> r = (Some CanceledError, w2) \<or>
          batched \<and> r = (Some (recovery_continues runID (round + 1) start ?next ls1), w2) \<or>
          rl rt q b runID batched (round + 1) start ?next ls1 w2 = Some r"
        using run xc by (cases x; cases "now rt w1 - start + interval > ReconcileMaxDuration b"; cases batched) auto
      then show thesis using that by blast
    qed
    then show ?thesis
    proof cases
      case 1
      then show ?thesis using k1 by (simp add: recovery_restricted_def)
    next
      case 2
      then show ?thesis using k2 by simp
    next
      case 3
      then show ?thesis using k2 l2 by auto
    next
      case 4
      from step(1) [OF this l2 step(4)] keeps_trans [OF k2] show ?thesis by blast
    qed
  qed
qed

lemma Recovery_does:
  assumes "Recovery rt q b inp w = Some (res, w')" "timers_cancel rt"
  shows "keeps (recovery_guard (recovery_ledgers rt inp) (rn_RunID inp)) w w' \<and>
    (\<forall>inp1. res = Some (ContinueAsNewError (ContinueRecovery inp1)) \<longrightarrow>
       rn_RunID inp1 = rn_RunID inp \<and> ledgers_sound (recovery_ledgers rt inp) (rn_RunID inp) (recovery_ledgers rt inp1) (trace w'))"
proof -
  obtain round start interval where pace: "recovery_pace rt b inp w = (round, start, interval)" by (metis prod_cases3)
  from recovery_loop_does [OF assms(1) [unfolded Recovery_starts [OF pace]] ledgers_sound_carried assms(2)]
  show ?thesis by (auto simp: recovery_ledgers_def)
qed

text \<open>Evidence carried over a continuation is evidence of the runs before it.\<close>

lemma marked_carry:
  "ledgers_sound first runID carried es0 \<Longrightarrow> set es0 \<subseteq> set es \<Longrightarrow> marked carried runID fid es r \<Longrightarrow> marked first runID fid es r"
  unfolding ledgers_sound_def ledger_sound_def marked_def [of carried] using marked_mono marked_def by blast

lemma stop_owed_carry:
  "ledgers_sound first runID carried es0 \<Longrightarrow> set es0 \<subseteq> set es \<Longrightarrow> stop_owed carried runID fid job es \<Longrightarrow> stop_owed first runID fid job es"
  unfolding ledgers_sound_def ledger_sound_def stop_owed_def [of carried] using stop_owed_mono stop_owed_def by blast

lemma recovery_guard_carry:
  assumes "ledgers_sound first runID carried es0" "set es0 \<subseteq> set es" "recovery_guard carried runID es e"
  shows "recovery_guard first runID es e"
  using assms(3) marked_carry [OF assms(1,2)] stop_owed_carry [OF assms(1,2)]
  by (cases "(carried, runID, es, e)" rule: recovery_guard.cases) (auto split: if_splits)

lemma recovery_runs_does:
  assumes "recovery_runs rt q b inp w res w'" "timers_cancel rt"
  shows "keeps (recovery_guard (recovery_ledgers rt inp) (rn_RunID inp)) w w' \<and>
    (\<forall>inp1. res = Some (ContinueAsNewError (ContinueRecovery inp1)) \<longrightarrow>
       rn_RunID inp1 = rn_RunID inp \<and> ledgers_sound (recovery_ledgers rt inp) (rn_RunID inp) (recovery_ledgers rt inp1) (trace w'))"
  using assms
proof (induction rule: recovery_runs.induct)
  case (first res w')
  then show ?case using Recovery_does by blast
next
  case (continued inp1 w1 res w')
  let ?l = "recovery_ledgers rt inp" let ?l1 = "recovery_ledgers rt inp1" let ?runID = "rn_RunID inp"
  have ih: "keeps (recovery_guard ?l ?runID) w w1" "rn_RunID inp1 = ?runID" "ledgers_sound ?l ?runID ?l1 (trace w1)"
    using continued by auto
  note s2 = Recovery_does [OF continued(2,4), unfolded ih(2)]
  have k2: "keeps (recovery_guard ?l ?runID) w1 w'"
    using s2 unfolding keeps_def by (auto elim!: guarded_since_mono intro!: recovery_guard_carry [OF ih(3)])
  have sub: "set (trace w1) \<subseteq> set (trace w')" using s2 keeps_subset by blast
  have l2: "ledgers_sound ?l1 ?runID ls (trace w') \<Longrightarrow> ledgers_sound ?l ?runID ls (trace w')" for ls
    unfolding ledgers_sound_def [of ?l1] ledgers_sound_def [of _ _ ls] ledger_sound_def
    using marked_carry [OF ih(3) sub] stop_owed_carry [OF ih(3) sub] by blast
  show ?case using s2 keeps_trans [OF ih(1) k2] l2 by blast
qed

section \<open>Rounds that return\<close>

text \<open>
  Control's inventory and its listing of the findings are finite, and a launch key holds finitely
  many objects: \<open>left\<close> bounds the answers that ask for another call.
\<close>

definition unfinished :: "request \<Rightarrow> wf_error + response \<Rightarrow> bool" where
  "unfinished r res \<longleftrightarrow>
     (\<exists>runID cls p. r = EnumerateInventory runID cls \<and> res = Inr (RClassProgress p) \<and> \<not> cp_Complete p) \<or>
     (\<exists>runID st n cursor p. r = ListFindings runID st n cursor \<and> res = Inr (RFindingPage p) \<and> \<not> fp_Complete p) \<or>
     (\<exists>dj obs. r = DeleteJob dj \<and> res = Inr (RLaunchObservation obs) \<and> \<not> Empty obs)"

definition finite_answers :: "'e runtime \<Rightarrow> ('e \<Rightarrow> nat) \<Rightarrow> bool" where
  "finite_answers rt left \<longleftrightarrow> (\<forall>c opts r e res e'. rt_perform rt c opts r e = (res, e') \<longrightarrow>
     left e' \<le> left e \<and> (unfinished r res \<longrightarrow> left e' < left e))"

text \<open>No more answers are left open than before, and the clock did not go back.\<close>

definition advances :: "'e runtime \<Rightarrow> ('e \<Rightarrow> nat) \<Rightarrow> 'e world \<Rightarrow> 'e world \<Rightarrow> bool" where
  "advances rt left w w' \<longleftrightarrow> left (est w') \<le> left (est w) \<and> (advancing rt \<longrightarrow> now rt w \<le> now rt w')"

lemma advances_refl [simp, intro]: "advances rt left w w"
  by (simp add: advances_def)

lemma advances_trans [trans]: "advances rt left w w1 \<Longrightarrow> advances rt left w1 w2 \<Longrightarrow> advances rt left w w2"
  by (auto simp: advances_def)

lemma advances_less: "left (est w1) < left (est w) \<Longrightarrow> advances rt left w1 w2 \<Longrightarrow> left (est w2) < left (est w)"
  by (simp add: advances_def)

lemma call_left:
  assumes "finite_answers rt left" "get d (exec rt c opts r w) = (res, w')"
  shows "advances rt left w w'"
proof -
  obtain raw where raw: "rt_perform rt c opts r (est w) = (raw, est w')" using trace_get_exec [OF assms(2)] by blast
  then have "left (est w') \<le> left (est w)" using assms(1) unfolding finite_answers_def by blast
  moreover have "advancing rt \<Longrightarrow> now rt w \<le> now rt w'" using raw unfolding advancing_def by (metis snd_conv)
  ultimately show ?thesis by (simp add: advances_def)
qed

lemma unfinished_left:
  assumes "finite_answers rt left" "get d (exec rt c opts r w) = (Inr x, w')" "\<And>a. d a = Some x \<Longrightarrow> unfinished r (Inr a)"
  shows "left (est w') < left (est w)"
proof -
  obtain raw where "Inr x = decode d raw" "rt_perform rt c opts r (est w) = (raw, est w')" using trace_get_exec [OF assms(2)] by blast
  moreover have "unfinished r raw" using calculation(1) assms(3) by (auto simp: decode_def split: sum.splits option.splits)
  ultimately show ?thesis using assms(1) unfolding finite_answers_def by blast
qed

text \<open>An operation that returns and leaves no more answers open than before.\<close>

definition returns :: "'e runtime \<Rightarrow> ('e \<Rightarrow> nat) \<Rightarrow> 'e world \<Rightarrow> ('a \<times> 'e world) option \<Rightarrow> bool" where
  "returns rt left w r \<longleftrightarrow> (\<exists>x w'. r = Some (x, w') \<and> advances rt left w w')"

lemma returns_Some [simp]: "returns rt left w (Some (x, w')) \<longleftrightarrow> advances rt left w w'"
  by (simp add: returns_def)

lemma returns_later: "returns rt left w1 r \<Longrightarrow> advances rt left w w1 \<Longrightarrow> returns rt left w r"
  unfolding returns_def using advances_trans by blast

lemma enumerate_class_returns:
  assumes "finite_answers rt left"
  shows "returns rt left w (enumerate_class rt q b runID cls w)"
proof (induction "left (est w)" arbitrary: w rule: less_induct)
  case less
  obtain res w1 where one: "get as_class_progress (exec rt RunCtx (recoveryOptions q b) (EnumerateInventory runID cls) w) = (res, w1)" by fastforce
  have le: "advances rt left w w1" by (rule call_left [OF assms one])
  show ?case
  proof (cases "\<exists>p. res = Inr p \<and> \<not> cp_Complete p")
    case True
    then obtain p where p: "res = Inr p" "\<not> cp_Complete p" by blast
    have lt: "left (est w1) < left (est w)" by (rule unfinished_left [OF assms one [unfolded p(1)]]) (use p(2) in \<open>auto simp: unfinished_def\<close>)
    have "enumerate_class rt q b runID cls w = enumerate_class rt q b runID cls w1"
      using one p by (subst enumerate_class.simps) simp
    then show ?thesis using returns_later [OF less [OF lt] le] by simp
  next
    case False
    then show ?thesis using one le by (subst enumerate_class.simps) (cases res; simp)
  qed
qed

lemma enumerate_classes_returns:
  assumes "finite_answers rt left"
  shows "returns rt left w (enumerate_classes rt q b runID classes w)"
proof (induction classes arbitrary: w)
  case (Cons cls classes)
  obtain e w1 where one: "enumerate_class rt q b runID cls w = Some (e, w1)" and le: "advances rt left w w1"
    using enumerate_class_returns [OF assms] unfolding returns_def by blast
  show ?case using one le returns_later [OF Cons le] by (cases e) simp_all
qed simp

lemma recordLaunch_left:
  "finite_answers rt left \<Longrightarrow> recordLaunch rt q b runID fid obs l w = (err, l', w') \<Longrightarrow> advances rt left w w'"
  by (auto simp: recordLaunch_def split: prod.splits sum.splits dest: call_left)

lemma confirmStop_left:
  "finite_answers rt left \<Longrightarrow> confirmStop rt q b runID fid l w = (err, l', w') \<Longrightarrow> advances rt left w w'"
  by (auto simp: confirmStop_def split: prod.splits sum.splits dest: call_left)

definition triple_returns :: "'e runtime \<Rightarrow> ('e \<Rightarrow> nat) \<Rightarrow> 'e world \<Rightarrow> ('a \<times> 'b \<times> 'e world) option \<Rightarrow> bool" where
  "triple_returns rt left w r \<longleftrightarrow> (\<exists>x y w'. r = Some (x, y, w') \<and> advances rt left w w')"

lemma triple_returns_Some [simp]: "triple_returns rt left w (Some (x, y, w')) \<longleftrightarrow> advances rt left w w'"
  by (simp add: triple_returns_def)

lemma triple_returns_later: "triple_returns rt left w1 r \<Longrightarrow> advances rt left w w1 \<Longrightarrow> triple_returns rt left w r"
  unfolding triple_returns_def using advances_trans by blast

lemma delete_recorded_returns:
  assumes "finite_answers rt left"
  shows "triple_returns rt left w (delete_recorded rt q b runID f jobUID l w)"
proof (induction "left (est w)" arbitrary: w jobUID l rule: less_induct)
  case less
  let ?dj = "\<lparr>dj_Launch = recovery_launch f, dj_Unaccounted = [], dj_EvidenceFirst = True, dj_Recorded = recorded l\<rparr>"
  obtain res w1 where one: "get as_launch_observation (exec rt RunCtx (cleanupOptions q b) (DeleteJob ?dj) w) = (res, w1)" by fastforce
  have le: "advances rt left w w1" by (rule call_left [OF assms one])
  show ?case
  proof (cases res)
    case (Inl err)
    then show ?thesis using one le by (subst delete_recorded.simps) simp
  next
    case (Inr stopped)
    show ?thesis
    proof (cases "Empty stopped")
      case True
      obtain e l1 w2 where "confirmStop rt q b runID (fi_FindingID f) (l\<lparr>stopPending := True, stoppedJob := jobUID\<rparr>) w1 = (e, l1, w2)"
        by (metis prod_cases3)
      then show ?thesis using one Inr True advances_trans [OF le confirmStop_left [OF assms]] by (subst delete_recorded.simps) fastforce
    next
      case False
      have lt: "left (est w1) < left (est w)" by (rule unfinished_left [OF assms one [unfolded Inr]]) (use False in \<open>auto simp: unfinished_def\<close>)
      obtain e l1 w2 where two: "recordLaunch rt q b runID (fi_FindingID f) stopped l w1 = (e, l1, w2)" by (metis prod_cases3)
      note le2 = recordLaunch_left [OF assms two]
      note rest = triple_returns_later [OF less [OF advances_less [OF lt le2]] advances_trans [OF le le2]]
      show ?thesis using one Inr False two rest advances_trans [OF le le2]
        by (subst delete_recorded.simps) (cases e; simp)
    qed
  qed
qed

lemma settleLaunch_returns:
  assumes "finite_answers rt left"
  shows "triple_returns rt left w (settleLaunch rt q b runID f l w)"
proof (cases "stopPending l")
  case True
  obtain e l1 w2 where "confirmStop rt q b runID (fi_FindingID f) l w = (e, l1, w2)" by (metis prod_cases3)
  then show ?thesis using True confirmStop_left [OF assms] by (auto simp: settleLaunch_def)
next
  case False
  let ?ol = "\<lparr>ol_Launch = recovery_launch f, ol_SettleWindow = UnresolvedSettleWindow b\<rparr>"
  obtain res w1 where one: "get as_launch_observation (exec rt RunCtx (cleanupOptions q b) (ObserveLaunch ?ol) w) = (res, w1)" by fastforce
  have le: "advances rt left w w1" by (rule call_left [OF assms one])
  show ?thesis
  proof (cases res)
    case (Inl e)
    let ?ro = "\<lparr>ro_RunID = runID, ro_FindingID = fi_FindingID f, ro_JobUID = '''', ro_Pods = [], ro_Stopped = False\<rparr>"
    obtain res2 w2 where two: "get as_finding (exec rt RunCtx (recoveryOptions q b) (RecordLaunchOutcome ?ro) w1) = (res2, w2)" by fastforce
    then show ?thesis using False one Inl advances_trans [OF le call_left [OF assms two]] by (cases res2) (simp_all add: settleLaunch_def)
  next
    case (Inr obs)
    obtain e l1 w2 where two: "recordLaunch rt q b runID (fi_FindingID f) obs l w1 = (e, l1, w2)" by (metis prod_cases3)
    have le2: "advances rt left w w2" by (rule advances_trans [OF le recordLaunch_left [OF assms two]])
    show ?thesis using False one Inr two le2 triple_returns_later [OF delete_recorded_returns [OF assms] le2]
      by (cases e) (simp_all add: settleLaunch_def)
  qed
qed

lemma settle_launches_returns:
  assumes "finite_answers rt left"
  shows "triple_returns rt left w (settle_launches rt q b runID fs incomplete ls w)"
proof (induction fs arbitrary: incomplete ls w)
  case (Cons f fs)
  show ?case
  proof (cases "launch_open f")
    case True
    obtain e l w1 where one: "settleLaunch rt q b runID f (ledger_of ls (fi_FindingID f)) w = Some (e, l, w1)"
      and le: "advances rt left w w1"
      using settleLaunch_returns [OF assms] unfolding triple_returns_def by blast
    then show ?thesis using True triple_returns_later [OF Cons le] by simp
  qed (use Cons in simp)
qed simp

lemma reconcile_each_left:
  assumes "finite_answers rt left" "reconcile_each rt q b runID fs incomplete w = (inc, advanced, w')"
  shows "advances rt left w w'"
  using assms(2)
proof (induction fs arbitrary: incomplete inc advanced w)
  case (Cons f fs)
  show ?case
  proof (cases "Settled f")
    case False
    obtain res w1 where one: "get as_finding (exec rt RunCtx (recoveryOptions q b) (ReconcileFinding runID (fi_FindingID f)) w) = (res, w1)"
      by fastforce
    have le: "advances rt left w w1" by (rule call_left [OF assms(1) one])
    have "\<exists>incomplete inc advanced. reconcile_each rt q b runID fs incomplete w1 = (inc, advanced, w')"
      using Cons.prems False one by (cases res) (auto split: prod.splits)
    then show ?thesis using Cons.IH le advances_trans by blast
  qed (use Cons in simp)
qed simp

lemma reconcile_batch_left:
  assumes "finite_answers rt left" "reconcile_batch rt q b runID fs incomplete w = (inc, advanced, w')"
  shows "advances rt left w w'"
proof -
  let ?ids = "map fi_FindingID (filter (\<lambda>f. \<not> Settled f) fs)"
  obtain res w1 where one: "get as_findings (exec rt RunCtx (batchOptions q b) (ReconcileFindings runID ?ids) w) = (res, w1)" by fastforce
  have "w' = w \<or> w' = w1"
    using assms(2) one by (cases "?ids = []"; cases res) (auto simp: reconcile_batch_def Let_def)
  then show ?thesis using call_left [OF assms(1) one] by auto
qed

lemma reconcile_page_returns:
  assumes "finite_answers rt left"
  shows "triple_returns rt left w (reconcile_page rt q b runID batched fs incomplete ls w)"
proof -
  obtain inc1 advanced w1 where
    one: "(if batched then reconcile_batch rt q b runID fs incomplete w else reconcile_each rt q b runID fs incomplete w) = (inc1, advanced, w1)"
    by (metis prod_cases3)
  have "advances rt left w w1"
    using one reconcile_batch_left [OF assms] reconcile_each_left [OF assms] by (cases batched) auto
  from triple_returns_later [OF settle_launches_returns [OF assms] this] show ?thesis using one by (simp add: reconcile_page_def)
qed

lemma reconcile_returns:
  assumes "finite_answers rt left"
  shows "triple_returns rt left w (reconcile rt q b runID batched cursor incomplete ls w)"
proof (induction "left (est w)" arbitrary: w cursor incomplete ls rule: less_induct)
  case less
  obtain res w1 where one: "get as_finding_page (exec rt RunCtx (recoveryOptions q b) (ListFindings runID '''' findingsPage cursor) w) = (res, w1)"
    by fastforce
  have le: "advances rt left w w1" by (rule call_left [OF assms one])
  show ?case
  proof (cases res)
    case (Inl err)
    then show ?thesis using one le by (subst reconcile.simps) simp
  next
    case (Inr page)
    obtain inc ls1 w2 where two: "reconcile_page rt q b runID batched (fp_Findings page) incomplete ls w1 = Some (inc, ls1, w2)"
      and le2: "advances rt left w1 w2"
      using reconcile_page_returns [OF assms] unfolding triple_returns_def by blast
    show ?thesis
    proof (cases "fp_Complete page")
      case True
      then show ?thesis using one Inr two advances_trans [OF le le2] by (subst reconcile.simps) simp
    next
      case False
      have "left (est w1) < left (est w)" by (rule unfinished_left [OF assms one [unfolded Inr]]) (use False in \<open>auto simp: unfinished_def\<close>)
      then have lt: "left (est w2) < left (est w)" by (rule advances_less [OF _ le2])
      show ?thesis using one Inr two False triple_returns_later [OF less [OF lt] advances_trans [OF le le2]]
        by (subst reconcile.simps) simp
    qed
  qed
qed

lemma recovery_round_returns:
  assumes "finite_answers rt left"
  shows "\<exists>r ls' w'. recovery_round rt q b runID batched ls w = Some (r, ls', w') \<and> advances rt left w w'"
proof -
  obtain e w1 where en: "enumerate_all rt q b runID w = Some (e, w1)" and le1: "advances rt left w w1"
    using enumerate_classes_returns [OF assms] unfolding returns_def enumerate_all_def by blast
  obtain inc ls1 w2 where rc: "reconcile rt q b runID batched '''' False ls w1 = Some (inc, ls1, w2)" and le2: "advances rt left w1 w2"
    using reconcile_returns [OF assms] unfolding triple_returns_def by blast
  let ?w = "if e = None then w2 else w1"
  have le: "advances rt left w ?w" using le1 advances_trans [OF le1 le2] by simp
  obtain res w3 where one: "get as_recovery_status (exec rt RunCtx (recoveryOptions q b) (EvaluateRecovery runID) ?w) = (res, w3)" by fastforce
  have "advances rt left w w3" by (rule advances_trans [OF le call_left [OF assms one]])
  moreover have "\<exists>r ls'. recovery_round rt q b runID batched ls w = Some (r, ls', w3)"
    using en rc one by (cases e; cases res) (auto simp: recovery_round_def)
  ultimately show ?thesis by blast
qed

section \<open>Properties\<close>

definition evaluated :: "string \<Rightarrow> wf_error + response \<Rightarrow> 'e world \<Rightarrow> bool" where
  "evaluated runID raw w \<longleftrightarrow> (\<exists>opts es. trace w = Act RunCtx opts (EvaluateRecovery runID) raw # es)"

lemma Recovery_cases:
  assumes "Recovery rt q b inp w = Some (res, w')" "rt_version rt recoveryRounds = 1" "recovery_pace rt b inp w = (round, start, interval)"
  obtains (evaluated) raw where "evaluated (rn_RunID inp) raw w'"
      "res = None \<and> (\<exists>status. raw = Inr (RRecoveryStatus status) \<and> Reopened status) \<or>
       (\<exists>err. res = Some err \<and> decode as_recovery_status raw = Inl err \<and> RefusalCode (Some err) \<noteq> '''')"
  | (restricted) "now rt w' - start + interval > ReconcileMaxDuration b" "res = Some recovery_restricted"
  | (interrupted) w1 err where "sleep rt RunCtx interval w1 = (Some err, w')" "res = Some err"
  | (continues) ls ls1 w1 where "recovery_round rt q b (rn_RunID inp) True ls w = Some (None, ls1, w1)"
      "now rt w1 - start + interval \<le> ReconcileMaxDuration b" "sleep rt RunCtx interval w1 = (None, w')"
      "res = Some (recovery_continues (rn_RunID inp) (round + 1) start (min (2 * interval) (ReconcileMaxInterval b)) ls1)"
proof -
  let ?l = "recovery_ledgers rt inp"
  have "recovery_loop rt q b (rn_RunID inp) True round start interval ?l w = Some (res, w')"
    using assms(1) unfolding Recovery_starts [OF assms(3)] assms(2) by simp
  then show thesis
  proof (cases rule: recovery_loop_batched)
    case (evaluated r ls1)
    then obtain opts raw where "hd (trace w') = Act RunCtx opts (EvaluateRecovery (rn_RunID inp)) raw" "trace w' \<noteq> []"
      "Some r = Some None \<longrightarrow> (\<exists>status. raw = Inr (RRecoveryStatus status) \<and> Reopened status)"
      "\<forall>err. Some r = Some (Some err) \<longrightarrow> decode as_recovery_status raw = Inl err \<and> RefusalCode (Some err) \<noteq> ''''"
      using recovery_round_does [OF evaluated(1) ledgers_sound_carried] by blast
    then show thesis using that(1) [of raw] evaluated(2) unfolding evaluated_def by (cases r) (metis list.collapse)+
  qed (use that(2-4) in blast)+
qed


definition open_finding :: finding where
  "open_finding = \<lparr>fi_FindingID = ''f1'', fi_Class = ''job-launch'', fi_ObligationID = ''l1'', fi_TenantID = ''t1'',
     fi_Status = ''open'', fi_Outcome = '''', fi_Detail = '''', fi_LaunchKey = ''lc-1''\<rparr>"

definition seen_launch :: launch_observation where
  "seen_launch = \<lparr>lo_JobUID = ''uid-1'', lo_Pods = [], lo_Requests = [1]\<rparr>"

definition class_done :: "wf_error + response" where
  "class_done = Inr (RClassProgress \<lparr>cp_Class = '''', cp_Cursor = '''', cp_Complete = True, cp_Seen = 1\<rparr>)"

text \<open>
  A recovery of two rounds: the first deletes what it recorded and cannot confirm the stop, the second
  confirms it from the ledger it was handed and finds the scope reopened.
\<close>

definition recovery_first :: "(wf_error + response) list" where
  "recovery_first = replicate 5 class_done @
     [Inr (RFindingPage \<lparr>fp_Findings = [open_finding], fp_NextCursor = '''', fp_Complete = True\<rparr>),
      Inr (RFindings [open_finding] []), Inr (RLaunchObservation seen_launch), Inr (RFinding open_finding),
      Inr (RLaunchObservation no_observation), Inl TimeoutError,
      Inr (RRecoveryStatus \<lparr>rs_Phase = ''restricted'', rs_Unsettled = 1, rs_Progress = []\<rparr>)]"

definition recovery_second :: "(wf_error + response) list" where
  "recovery_second = replicate 5 class_done @
     [Inr (RFindingPage \<lparr>fp_Findings = [open_finding], fp_NextCursor = '''', fp_Complete = True\<rparr>),
      Inr (RFindings [open_finding] []), Inr (RFinding (open_finding\<lparr>fi_Status := ''resolved''\<rparr>)),
      Inr (RRecoveryStatus \<lparr>rs_Phase = ''reopened'', rs_Unsettled = 0, rs_Progress = []\<rparr>)]"

definition example_recovery :: recovery_input where
  "example_recovery = \<lparr>rn_RunID = ''run_1'', rn_Carry = None\<rparr>"

lemmas recovery_eval = Recovery_def recovery_loop.simps recovery_round_def enumerate_all_def enumerate_class.simps ObligationClasses_def
  reconcile.simps reconcile_page_def reconcile_batch_def settleLaunch_def delete_recorded.simps recordLaunch_def confirmStop_def
  launch_open_def ledger_of_def Settled_def Reopened_def open_finding_def seen_launch_def class_done_def empty_launch_ledger_def

definition handed_ledger :: "string \<rightharpoonup> ledger_carry" where
  "handed_ledger = [''f1'' \<mapsto> \<lparr>lc_Recorded = [1], lc_StopPending = True, lc_StoppedJob = ''uid-1''\<rparr>]"

lemma carry_upd: "carryLedgers (ls(k \<mapsto> l)) =
    (carryLedgers ls)(k \<mapsto> \<lparr>lc_Recorded = recorded l, lc_StopPending = stopPending l, lc_StoppedJob = stoppedJob l\<rparr>)"
  "carryLedgers Map.empty = Map.empty"
  by (auto simp: carryLedgers_def fun_eq_iff)

lemma restore_upd: "restoreLedgers (cs(k \<mapsto> c)) =
    (restoreLedgers cs)(k \<mapsto> \<lparr>recorded = lc_Recorded c, stopPending = lc_StopPending c, stoppedJob = lc_StoppedJob c\<rparr>)"
  "restoreLedgers Map.empty = Map.empty"
  by (auto simp: restoreLedgers_def fun_eq_iff)

definition handed_recovery :: recovery_input where
  "handed_recovery = \<lparr>rn_RunID = ''run_1'', rn_Carry = Some \<lparr>rv_Round = 2, rv_Started = 0, rv_Interval = 10 * second,
     rv_Ledgers = [''f1'' \<mapsto> \<lparr>lc_Recorded = [1], lc_StopPending = True, lc_StoppedJob = ''uid-1''\<rparr>]\<rparr>\<rparr>"

lemma example_recovery_first:
  "\<exists>es. Recovery scripted example_queues example_bounds example_recovery (start_world (recovery_first @ as)) =
    Some (Some (ContinueAsNewError (ContinueRecovery handed_recovery)), \<lparr>est = \<lparr>answers = as, clock = 17 * second\<rparr>, trace = es\<rparr>)"
  by (simp add: recovery_eval recovery_first_def script_simps example_recovery_def example_bounds_def numeral_eq_Suc Let_def
      handed_recovery_def carry_upd)

lemma example_recovery_second:
  "\<exists>w' later opts raw before. Recovery scripted example_queues example_bounds handed_recovery
      \<lparr>est = \<lparr>answers = recovery_second, clock = 17 * second\<rparr>, trace = es\<rparr> = Some (None, w') \<and>
    trace w' = later @ Act RunCtx opts (RecordLaunchOutcome \<lparr>ro_RunID = ''run_1'', ro_FindingID = ''f1'', ro_JobUID = ''uid-1'',
      ro_Pods = [], ro_Stopped = True\<rparr>) raw # before"
proof -
  obtain w' where run: "Recovery scripted example_queues example_bounds handed_recovery
      \<lparr>est = \<lparr>answers = recovery_second, clock = 17 * second\<rparr>, trace = es\<rparr> = Some (None, w')"
    and new: "\<exists>e before. trace w' = e # Act RunCtx (recoveryOptions example_queues example_bounds)
      (RecordLaunchOutcome \<lparr>ro_RunID = ''run_1'', ro_FindingID = ''f1'', ro_JobUID = ''uid-1'', ro_Pods = [], ro_Stopped = True\<rparr>)
      (Inr (RFinding (open_finding\<lparr>fi_Status := ''resolved''\<rparr>))) # before"
    by (simp add: recovery_eval recovery_second_def script_simps handed_recovery_def numeral_eq_Suc Let_def restore_upd)
  then show ?thesis by (metis append_Cons append_Nil)
qed


text \<open>
  C27. A round of a recovery returns. When Control's inventory, its listing of the findings and the objects under the
  launch keys are finite, a run of the batched shape returns: without an error only when Control answered the
  scope reopened, with the refusal of that evaluation, restricted only when the next round would start
  beyond the reconciliation bound, canceled by its timer, or as the next round of the same recovery, with
  the same start and the interval doubled up to its maximum.
\<close>

theorem Recovery_returns:
  assumes "finite_answers rt left" "rt_version rt recoveryRounds = 1" "timers_cancel rt" "recovery_pace rt b inp w = (round, start, interval)"
  shows "\<exists>res w'. Recovery rt q b inp w = Some (res, w') \<and>
    ((\<exists>raw. evaluated (rn_RunID inp) raw w' \<and>
       (res = None \<and> (\<exists>status. raw = Inr (RRecoveryStatus status) \<and> Reopened status) \<or>
        (\<exists>err. res = Some err \<and> decode as_recovery_status raw = Inl err \<and> RefusalCode (Some err) \<noteq> ''''))) \<or>
     res = Some recovery_restricted \<and> now rt w' - start + interval > ReconcileMaxDuration b \<or>
     res = Some CanceledError \<or>
     (\<exists>ls. res = Some (recovery_continues (rn_RunID inp) (round + 1) start (min (2 * interval) (ReconcileMaxInterval b)) ls)))"
proof -
  obtain r ls1 w1 where rd: "recovery_round rt q b (rn_RunID inp) True (recovery_ledgers rt inp) w = Some (r, ls1, w1)"
    using recovery_round_returns [OF assms(1)] by blast
  obtain x w2 where "sleep rt RunCtx interval w1 = (x, w2)" by fastforce
  then have "\<exists>res w'. recovery_loop rt q b (rn_RunID inp) True round start interval (recovery_ledgers rt inp) w = Some (res, w')"
    using rd by (subst recovery_loop.simps) (cases r; cases x; simp add: Let_def)
  moreover have "Recovery rt q b inp w = recovery_loop rt q b (rn_RunID inp) True round start interval (recovery_ledgers rt inp) w"
    using Recovery_starts [OF assms(4)] assms(2) by simp
  ultimately obtain res w' where run: "Recovery rt q b inp w = Some (res, w')" by auto
  show ?thesis
    using run assms(2,4)
  proof (cases rule: Recovery_cases)
    case (interrupted v err)
    have "err = CanceledError" by (rule timer_canceled [OF assms(3) interrupted(1)])
    then show ?thesis using run interrupted by blast
  next
    case (evaluated raw)
    then show ?thesis using run by blast
  next
    case restricted
    then show ?thesis using run by blast
  next
    case (continues ls ls1 v)
    then show ?thesis using run by blast
  qed
qed

lemma scripted_version: "rt_version scripted change = 1"
  by (simp add: scripted_def)

lemma scripted_finite: "finite_answers scripted (\<lambda>s. length (answers s))"
  unfolding finite_answers_def by (auto simp: scripted_def script_perform_def unfinished_def split: list.splits)

theorem Recovery_returns_witness:
  "\<exists>res w'. Recovery scripted example_queues example_bounds example_recovery (start_world recovery_second) = Some (res, w')"
proof -
  have "recovery_pace scripted example_bounds example_recovery (start_world recovery_second) = (1, 0, 5 * second)"
    by (simp add: recovery_pace_def example_recovery_def example_bounds_def script_simps)
  from Recovery_returns [OF scripted_finite _ scripted_timers this, of example_queues] show ?thesis
    using scripted_version by blast
qed

lemma recovery_runs_paced:
  assumes "recovery_runs rt q b inp w res w'" "rn_Carry inp = None" "rt_version rt recoveryRounds = 1" "timers_cancel rt"
    "advancing rt" "finite_answers rt left" "0 < shortest" "shortest \<le> ReconcileInitialInterval b" "shortest \<le> ReconcileMaxInterval b"
    "res = Some (ContinueAsNewError (ContinueRecovery inp1))"
  shows "\<exists>carry. rn_Carry inp1 = Some carry \<and> shortest \<le> rv_Interval carry \<and> rv_Started carry = now rt w \<and>
    now rt w + (rv_Round carry - 1) * shortest \<le> now rt w' \<and> (rv_Round carry - 1) * shortest \<le> ReconcileMaxDuration b"
proof -
  have step: "\<exists>carry. rn_Carry j = Some carry \<and> shortest \<le> rv_Interval carry \<and> rv_Started carry = start \<and>
      start + (rv_Round carry - 1) * shortest \<le> now rt v' \<and> (rv_Round carry - 1) * shortest \<le> ReconcileMaxDuration b"
    if run: "Recovery rt q b i v = Some (Some (ContinueAsNewError (ContinueRecovery j)), v')"
      and pace: "recovery_pace rt b i v = (round, start, interval)" and le: "shortest \<le> interval"
      and before: "start + (round - 1) * shortest \<le> now rt v" for i j v v' round start interval
    using run assms(3) pace
  proof (cases rule: Recovery_cases)
    case (continues ls ls1 v1)
    have "now rt v \<le> now rt v1"
      using recovery_round_returns [OF assms(6), of q b "rn_RunID i" True ls v] continues(1) assms(5) by (auto simp: advances_def)
    moreover have "now rt v1 + interval \<le> now rt v'" by (rule advancing_sleep [OF assms(5) continues(3)])
    moreover have "(round + 1 - 1) * shortest = (round - 1) * shortest + shortest" by (simp add: algebra_simps)
    ultimately show ?thesis using continues(2,4) before le assms(7,9) by auto
  next
    case (interrupted v1 err)
    have "err = CanceledError" by (rule timer_canceled [OF assms(4) interrupted(1)])
    then show ?thesis using interrupted by simp
  qed (auto simp: recovery_restricted_def)
  show ?thesis
    using assms(1,10)
  proof (induction arbitrary: inp1 rule: recovery_runs.induct)
    case (first res w')
    have "recovery_pace rt b inp w = (1, now rt w, ReconcileInitialInterval b)" using assms(2) by (simp add: recovery_pace_def)
    from step [OF first(1) [unfolded first(2)] this assms(8)] show ?case by simp
  next
    case (continued j w1 res w')
    obtain carry where c: "rn_Carry j = Some carry" "shortest \<le> rv_Interval carry" "rv_Started carry = now rt w"
      "now rt w + (rv_Round carry - 1) * shortest \<le> now rt w1"
      using continued(3) by blast
    have "recovery_pace rt b j w1 = (rv_Round carry, now rt w, rv_Interval carry)" using c(1,3) assms(3) by (simp add: recovery_pace_def)
    from step [OF continued(2) [unfolded continued(4)] this c(2,4)] show ?case .
  qed
qed

text \<open>
  A recovery does not go on for ever. On an advancing clock the rounds of a recovery, across all its continuations,
  are spaced by at least its shortest interval, keep the start of the first run and stop within the
  reconciliation bound: their number times the shortest interval never exceeds it.
\<close>

theorem Recovery_rounds_bounded:
  assumes "recovery_runs rt q b inp w (Some (ContinueAsNewError (ContinueRecovery inp1))) w'" "rn_Carry inp = None"
    "rt_version rt recoveryRounds = 1" "timers_cancel rt" "advancing rt" "finite_answers rt left"
    "0 < ReconcileInitialInterval b" "0 < ReconcileMaxInterval b"
  shows "\<exists>carry. rn_Carry inp1 = Some carry \<and> rv_Started carry = now rt w \<and>
    (rv_Round carry - 1) * min (ReconcileInitialInterval b) (ReconcileMaxInterval b) \<le> min (now rt w' - now rt w) (ReconcileMaxDuration b)"
  using recovery_runs_paced [OF assms(1-6), of "min (ReconcileInitialInterval b) (ReconcileMaxInterval b)"] assms(7,8) by fastforce

theorem Recovery_rounds_bounded_witness:
  "\<exists>w'. recovery_runs scripted example_queues example_bounds example_recovery (start_world recovery_first)
      (Some (ContinueAsNewError (ContinueRecovery handed_recovery))) w' \<and> (2 - 1) * (5 * second) \<le> now scripted w'"
proof -
  obtain es where "Recovery scripted example_queues example_bounds example_recovery (start_world (recovery_first @ [])) =
    Some (Some (ContinueAsNewError (ContinueRecovery handed_recovery)), \<lparr>est = \<lparr>answers = [], clock = 17 * second\<rparr>, trace = es\<rparr>)"
    using example_recovery_first by blast
  then obtain w' where runs: "recovery_runs scripted example_queues example_bounds example_recovery (start_world recovery_first)
      (Some (ContinueAsNewError (ContinueRecovery handed_recovery))) w'"
    using recovery_runs.first by fastforce
  show ?thesis
    using runs Recovery_rounds_bounded [OF runs _ _ scripted_timers scripted_advancing scripted_finite]
    by (intro exI [of _ w']) (auto simp: example_recovery_def handed_recovery_def example_bounds_def script_simps)
qed

end
