(* ===== verification/Preparation.thy ===== *)
theory Preparation
  imports Outcomes
begin

text \<open>
  The \<open>Preparation\<close> workflow (\<^verbatim>\<open>internal/workflows/preparation.go\<close>): an analysis in an
  attempt per round, a question set with Control when the analysis asks, the wait for its answer to the
  expiry Control fixed, and the brief frozen from the requirements the last round concluded with. The
  answers arrive as Updates while the run blocks; \<open>prep_state\<close> is the record their handler shares with
  the run. What the source uses of the SDK beyond Activities is the parameter \<open>clarify_sdk\<close>: the
  timer to the expiry with the goroutine that marks it expired and the \<open>Await\<close> on the answer or
  that mark, which answers the error of the \<open>Await\<close> and the mark, and the wait for the handlers.
\<close>

section \<open>The record of the clarification\<close>

record prep_state =
  pr_open :: "question_set_ref option"
  pr_answers :: "nat \<rightharpoonup> analysis_answer"
  pr_applied :: "string set"
  pr_answered :: bool

definition new_prep_state :: prep_state where
  "new_prep_state = \<lparr>pr_open = None, pr_answers = Map.empty, pr_applied = {}, pr_answered = False\<rparr>"

definition pst :: "('e \<times> prep_state) world \<Rightarrow> prep_state" where
  "pst w = snd (est w)"

definition pupd :: "(prep_state \<Rightarrow> prep_state) \<Rightarrow> ('e \<times> prep_state) world \<Rightarrow> ('e \<times> prep_state) world" where
  "pupd f w = w\<lparr>est := (fst (est w), f (snd (est w)))\<rparr>"

lemma prep_state_simps [simp]: "pst (pupd f w) = f (pst w)" "trace (pupd f w) = trace w"
  by (simp_all add: pst_def pupd_def)

record 'e clarify_sdk =
  sdk_clarify :: "duration \<Rightarrow> 'e \<times> prep_state \<Rightarrow> ((wf_error option \<times> bool) \<times> 'e \<times> prep_state) option"
  sdk_settled :: "'e \<times> prep_state \<Rightarrow> ('e \<times> prep_state) option"

section \<open>The answer Update\<close>

record answer_update =
  au_AnswerID :: string
  au_QuestionSetID :: string
  au_QuestionSetRevision :: string

text \<open>The validator's error; the empty string accepts the Update.\<close>

definition answer_validator :: "prep_state \<Rightarrow> answer_update \<Rightarrow> string" where
  "answer_validator s arg =
     (if au_AnswerID arg = '''' \<or> au_QuestionSetID arg = '''' then ''STALE_QUESTION_SET''
      else if au_AnswerID arg \<in> pr_applied s then ''''
      else case pr_open s of
          None \<Rightarrow> ''STALE_QUESTION_SET''
        | Some qs \<Rightarrow> if au_QuestionSetID arg \<noteq> qs_QuestionSetID qs \<or> au_QuestionSetRevision arg \<noteq> qs_Revision qs
            then ''STALE_QUESTION_SET'' else '''')"

text \<open>An accepted answer to a question set, under the answer id it is applied as.\<close>

definition apply_answer :: "string \<Rightarrow> question_set_ref \<Rightarrow> answer_ref \<Rightarrow> prep_state \<Rightarrow> prep_state" where
  "apply_answer ident qs ref s =
     s\<lparr>pr_applied := insert ident (pr_applied s),
       pr_answers := (pr_answers s)(qs_Round qs \<mapsto> \<lparr>aa_Round = qs_Round qs, aa_Answer = af_Answer ref, aa_Question = qs\<rparr>),
       pr_answered := True\<rparr>"

definition get_answer :: "input \<Rightarrow> string \<Rightarrow> string \<Rightarrow> request" where
  "get_answer inp answerID questionSetID = Lifecycle (GetAnswer
     \<lparr>ga_OperationID = in_OperationID inp, ga_TenantID = in_TenantID inp, ga_AnswerID = answerID, ga_QuestionSetID = questionSetID\<rparr>)"

text \<open>What the handler makes of the answer it read, against the question set open by then.\<close>

definition answer_matches :: "answer_ref \<Rightarrow> prep_state \<Rightarrow> question_set_ref \<Rightarrow> bool" where
  "answer_matches ref s qs \<longleftrightarrow> pr_open s = Some qs \<and> af_Found ref \<and>
     af_QuestionSetID ref = qs_QuestionSetID qs \<and> af_QuestionSetRevision ref = qs_Revision qs"

definition answer_handler :: "('e \<times> prep_state) runtime \<Rightarrow> queues \<Rightarrow> bounds \<Rightarrow> input \<Rightarrow> answer_update \<Rightarrow> ('e \<times> prep_state) world \<Rightarrow>
    update_result \<times> ('e \<times> prep_state) world" where
  "answer_handler rt q b inp arg w =
     (if au_AnswerID arg \<in> pr_applied (pst w) then (\<lparr>ur_Outcome = ''applied'', ur_ReasonCode = ''''\<rparr>, w)
      else case get as_answer (exec rt RunCtx (activityOptions q b) (get_answer inp (au_AnswerID arg) '''') w) of
          (Inl err, w1) \<Rightarrow>
            (\<lparr>ur_Outcome = ''rejected'', ur_ReasonCode = firstNonEmpty [RefusalCode (Some err), ''ANSWER_UNAVAILABLE'']\<rparr>, w1)
        | (Inr ref, w1) \<Rightarrow>
            (case pr_open (pst w1) of
               None \<Rightarrow> (\<lparr>ur_Outcome = ''rejected'', ur_ReasonCode = ''STALE_QUESTION_SET''\<rparr>, w1)
             | Some qs \<Rightarrow>
                 if \<not> answer_matches ref (pst w1) qs then (\<lparr>ur_Outcome = ''rejected'', ur_ReasonCode = ''STALE_QUESTION_SET''\<rparr>, w1)
                 else (\<lparr>ur_Outcome = ''applied'', ur_ReasonCode = ''''\<rparr>, pupd (apply_answer (au_AnswerID arg) qs ref) w1)))"

section \<open>One analysis round\<close>

definition preparationProfileID :: string where
  "preparationProfileID = ''preparation-v1''"

definition analysisStepID :: string where
  "analysisStepID = ''analysis''"

record round_result =
  rd_Requirements :: string
  rd_Questions :: "question list"
  rd_FailureCode :: string

definition analysis_open :: "input \<Rightarrow> nat \<Rightarrow> open_attempt_input" where
  "analysis_open inp round =
     \<lparr>oa_OperationID = in_OperationID inp, oa_TenantID = in_TenantID inp,
      oa_CommandID = in_OperationID inp @ '':analysis:'' @ show_nat round @ '':open'', oa_StepID = analysisStepID,
      oa_Visit = round - 1, oa_ProfileID = preparationProfileID\<rparr>"

definition analysis_call_id :: "input \<Rightarrow> nat \<Rightarrow> nat \<Rightarrow> string" where
  "analysis_call_id inp round call = in_OperationID inp @ '':analysis:r'' @ show_nat round @ '':c'' @ show_nat call"

definition analysisOptions :: "queues \<Rightarrow> bounds \<Rightarrow> lifecycle_bounds \<Rightarrow> activity_options" where
  "analysisOptions q b lb =
     (control_retry (q_Business q) (AnalysisCallTimeout lb) b (sint (ControlRetryMaxAttempts b)))
       \<lparr>HeartbeatTimeout := ObserveHeartbeatTimeout b\<rparr>"

definition analysis_input :: "lifecycle_bounds \<Rightarrow> input \<Rightarrow> attempt_ref \<Rightarrow> preparation_view \<Rightarrow> analysis_answer list \<Rightarrow> nat \<Rightarrow> bool \<Rightarrow>
    nat \<Rightarrow> time \<Rightarrow> analyze_requirements_input" where
  "analysis_input lb inp attempt prep given round mustConclude call at =
     \<lparr>an_OperationID = in_OperationID inp, an_TenantID = in_TenantID inp, an_AttemptID = ar_AttemptID attempt,
      an_ExecutionEpoch = parse_uint (ar_ExecutionEpoch attempt), an_CallID = analysis_call_id inp round call,
      an_RouteID = AnalysisRouteID lb, an_Round = round, an_Prompt = pv_Prompt prep, an_Answers = given,
      an_MaxQuestions = pv_MaxQuestions prep, an_MustConclude = mustConclude, an_MaxOutputTokens = AnalysisMaxOutputTokens lb,
      an_MaxExposure = AnalysisMaxExposure lb,
      an_Deadline = (let deadline = at + AnalysisCallTimeout lb in if deadline > ar_Deadline attempt then ar_Deadline attempt else deadline)\<rparr>"

text \<open>What the round makes of an answered call; none when it asks again.\<close>

definition no_result :: round_result where
  "no_result = \<lparr>rd_Requirements = '''', rd_Questions = [], rd_FailureCode = ''''\<rparr>"

definition round_end :: "lifecycle_bounds \<Rightarrow> int \<Rightarrow> analysis \<Rightarrow> ((string \<times> string) \<times> round_result) option" where
  "round_end lb repairs ay =
     (if ay_State ay = ''unknown''
      then Some ((''infrastructure_failed'', ''EFFECT_UNCERTAIN''), no_result\<lparr>rd_FailureCode := ''EFFECT_UNCERTAIN''\<rparr>)
      else if ay_State ay \<noteq> ''succeeded''
      then (let code = firstNonEmpty [ay_ErrorCode ay, ''MODEL_CALL_FAILED''] in Some ((''failed'', code), no_result\<lparr>rd_FailureCode := code\<rparr>))
      else if ay_ErrorCode ay = ''CONTENT_INVALID''
      then (if repairs \<ge> ContentRepairAllowance lb
            then Some ((''failed'', ''CONTENT_INVALID''), no_result\<lparr>rd_FailureCode := ''CONTENT_INVALID''\<rparr>) else None)
      else if ay_Requirements ay \<noteq> '''' then Some ((''completed'', ''''), no_result\<lparr>rd_Requirements := ay_Requirements ay\<rparr>)
      else Some ((''completed'', ''''), no_result\<lparr>rd_Questions := ay_Questions ay\<rparr>))"

text \<open>
  The calls of a round: each one more than the last spends a repair of the allowance. Answers how the
  attempt is to be closed, the result, and the repairs spent so far.
\<close>

function analyze_calls :: "('e \<times> prep_state) runtime \<Rightarrow> queues \<Rightarrow> bounds \<Rightarrow> lifecycle_bounds \<Rightarrow> input \<Rightarrow> attempt_ref \<Rightarrow>
    preparation_view \<Rightarrow> analysis_answer list \<Rightarrow> nat \<Rightarrow> bool \<Rightarrow> nat \<Rightarrow> int \<Rightarrow> ('e \<times> prep_state) world \<Rightarrow>
    ((string \<times> string) \<times> (wf_error + round_result) \<times> int) \<times> ('e \<times> prep_state) world" where
  "analyze_calls rt q b lb inp attempt prep given round mustConclude call repairs w =
     (case get as_analysis (exec rt RunCtx (analysisOptions q b lb) (Lifecycle (AnalyzeRequirements
             (analysis_input lb inp attempt prep given round mustConclude call (now rt w)))) w) of
        (Inl err, w1) \<Rightarrow> ((settleOutcome rt RunCtx err ''OBSERVER_FAILED'' w1, Inl err, repairs), w1)
      | (Inr ay, w1) \<Rightarrow>
          (case round_end lb repairs ay of
             Some (closing, r) \<Rightarrow> ((closing, Inr r, repairs), w1)
           | None \<Rightarrow> analyze_calls rt q b lb inp attempt prep given round mustConclude (call + 1) (repairs + 1) w1))"
  by pat_completeness auto

lemma round_end_None: "round_end lb repairs ay = None \<Longrightarrow> repairs < ContentRepairAllowance lb"
  by (simp add: round_end_def Let_def split: if_splits)

termination analyze_calls
  by (relation "measure (\<lambda>(rt, q, b, lb, inp, attempt, prep, given, round, mustConclude, call, repairs, w).
      nat (ContentRepairAllowance lb - repairs))") (auto dest: round_end_None)

declare analyze_calls.simps [simp del]

definition answers_before :: "nat \<Rightarrow> prep_state \<Rightarrow> analysis_answer list" where
  "answers_before round s = List.map_filter (pr_answers s) [1..<round]"

definition analyzeRound :: "('e \<times> prep_state) runtime \<Rightarrow> queues \<Rightarrow> bounds \<Rightarrow> lifecycle_bounds \<Rightarrow> input \<Rightarrow> nat \<Rightarrow>
    preparation_view \<Rightarrow> bool \<Rightarrow> int \<Rightarrow> ('e \<times> prep_state) world \<Rightarrow> (((wf_error + round_result) \<times> int) \<times> ('e \<times> prep_state) world) option" where
  "analyzeRound rt q b lb inp round prep mustConclude repairs w =
     (case get as_attempt (exec rt RunCtx (activityOptions q b) (OpenAttempt (analysis_open inp round)) w) of
        (Inl err, w1) \<Rightarrow> Some ((Inl err, repairs), w1)
      | (Inr attempt, w1) \<Rightarrow>
          (case analyze_calls rt q b lb inp attempt prep (answers_before round (pst w1)) round mustConclude 1 repairs w1 of
             ((closing, res, repairs'), w2) \<Rightarrow>
               map_option (\<lambda>(err, w3). ((res, repairs'), w3))
                 (closeForSettlement rt Disconnected q b attempt (ar_AttemptID attempt @ '':close'') (fst closing) ''not_required'' (snd closing) w2)))"

section \<open>The wait for an answer\<close>

definition questions_input :: "input \<Rightarrow> nat \<Rightarrow> question list \<Rightarrow> record_question_set_input" where
  "questions_input inp round questions =
     \<lparr>rq_OperationID = in_OperationID inp, rq_TenantID = in_TenantID inp,
      rq_CommandID = in_OperationID inp @ '':questions:'' @ show_nat round, rq_Round = round, rq_Questions = questions\<rparr>"

text \<open>The timer fired: an answer Control accepted before the instant still counts.\<close>

definition late_answer :: "('e \<times> prep_state) runtime \<Rightarrow> queues \<Rightarrow> bounds \<Rightarrow> input \<Rightarrow> question_set_ref \<Rightarrow> ('e \<times> prep_state) world \<Rightarrow>
    verdict3 option \<times> ('e \<times> prep_state) world" where
  "late_answer rt q b inp qs w =
     (case get as_answer (exec rt RunCtx (readOptions q b) (get_answer inp '''' (qs_QuestionSetID qs)) w) of
        (Inl err, w1) \<Rightarrow> (Some (unphased (settleOutcome rt RunCtx err ''OBSERVER_FAILED'' w1)), w1)
      | (Inr late, w1) \<Rightarrow>
          if af_Found late \<and> af_QuestionSetRevision late = qs_Revision qs
          then (None, pupd (apply_answer (af_AnswerID late) qs late) w1)
          else (Some (''failed'', ''CLARIFICATION_EXPIRED'', ''clarification_expired''), pupd (\<lambda>s. s\<lparr>pr_open := None\<rparr>) w1))"

text \<open>A question set and its wait; answers the verdict the run ends with, if it ends here.\<close>

definition ask_questions :: "('e \<times> prep_state) runtime \<Rightarrow> 'e clarify_sdk \<Rightarrow> queues \<Rightarrow> bounds \<Rightarrow> input \<Rightarrow> nat \<Rightarrow> question list \<Rightarrow>
    ('e \<times> prep_state) world \<Rightarrow> (verdict3 option \<times> ('e \<times> prep_state) world) option" where
  "ask_questions rt sdk q b inp round questions w =
     (case get as_question_set (exec rt RunCtx (activityOptions q b) (Lifecycle (RecordQuestionSet (questions_input inp round questions))) w) of
        (Inl err, w1) \<Rightarrow> Some (Some (unphased (settleOutcome rt RunCtx err ''OBSERVER_FAILED'' w1)), w1)
      | (Inr qs, w1) \<Rightarrow>
          (let w2 = pupd (\<lambda>s. s\<lparr>pr_open := Some qs, pr_answered := False\<rparr>) w1 in
           case sdk_clarify sdk (qs_ExpiresAt qs - now rt w2) (est w2) of
             None \<Rightarrow> None
           | Some ((Some err, expired), s) \<Rightarrow>
               Some (Some (unphased (settleOutcome rt RunCtx err ''CANCELED'' (w2\<lparr>est := s\<rparr>))), w2\<lparr>est := s\<rparr>)
           | Some ((None, expired), s) \<Rightarrow>
               (case (if pr_answered (snd s) then (None, w2\<lparr>est := s\<rparr>) else late_answer rt q b inp qs (w2\<lparr>est := s\<rparr>)) of
                  (Some v, w3) \<Rightarrow> Some (Some v, w3)
                | (None, w3) \<Rightarrow> Some (None, pupd (\<lambda>s. s\<lparr>pr_open := None\<rparr>) w3))))"

section \<open>The run\<close>

text \<open>The rounds: the verdict the run ends with, or the requirements it concluded with.\<close>

partial_function (option) preparation_rounds :: "('e \<times> prep_state) runtime \<Rightarrow> 'e clarify_sdk \<Rightarrow> queues \<Rightarrow> bounds \<Rightarrow> lifecycle_bounds \<Rightarrow>
    input \<Rightarrow> preparation_view \<Rightarrow> nat \<Rightarrow> int \<Rightarrow> ('e \<times> prep_state) world \<Rightarrow> ((verdict3 + string) \<times> ('e \<times> prep_state) world) option" where
  "preparation_rounds rt sdk q b lb inp prep round repairs w =
     (case analyzeRound rt q b lb inp round prep (round > pv_MaxRounds prep) repairs w of
        None \<Rightarrow> None
      | Some ((Inl err, repairs'), w1) \<Rightarrow> Some (Inl (unphased (settleOutcome rt RunCtx err ''OBSERVER_FAILED'' w1)), w1)
      | Some ((Inr r, repairs'), w1) \<Rightarrow>
          if rd_FailureCode r \<noteq> '''' then Some (Inl (''failed'', rd_FailureCode r, ''''), w1)
          else if rd_Requirements r \<noteq> '''' then Some (Inr (rd_Requirements r), w1)
          else (case ask_questions rt sdk q b inp round (rd_Questions r) w1 of
              None \<Rightarrow> None
            | Some (Some v, w2) \<Rightarrow> Some (Inl v, w2)
            | Some (None, w2) \<Rightarrow> preparation_rounds rt sdk q b lb inp prep (round + 1) repairs' w2))"

definition references_input :: "input \<Rightarrow> preparation_view \<Rightarrow> freeze_references_input" where
  "references_input inp prep =
     \<lparr>fr_TenantID = in_TenantID inp, fr_ProjectID = pv_ProjectID prep, fr_ActorID = pv_ActorID prep,
      fr_BrandReferences = pv_BrandReferences prep, fr_AssetReferences = pv_AssetReferences prep\<rparr>"

definition brief_to_freeze :: "input \<Rightarrow> preparation_view \<Rightarrow> string \<Rightarrow> frozen_references \<Rightarrow> prep_state \<Rightarrow> freeze_brief_input" where
  "brief_to_freeze inp prep requirements frozen s =
     \<lparr>fb_OperationID = in_OperationID inp, fb_TenantID = in_TenantID inp, fb_CommandID = in_OperationID inp @ '':brief'',
      fb_Requirements = requirements, fb_Prompt = pv_Prompt prep, fb_Answers = answers_before (pv_MaxRounds prep + 1) s,
      fb_SourceRevisions = pv_BrandReferences prep @ pv_AssetReferences prep, fb_Frozen = frozen\<rparr>"

definition freeze :: "('e \<times> prep_state) runtime \<Rightarrow> queues \<Rightarrow> bounds \<Rightarrow> input \<Rightarrow> preparation_view \<Rightarrow> string \<Rightarrow> ('e \<times> prep_state) world \<Rightarrow>
    verdict3 \<times> ('e \<times> prep_state) world" where
  "freeze rt q b inp prep requirements w =
     (case get as_frozen (exec rt RunCtx (activityOptions q b) (Lifecycle (FreezeReferences (references_input inp prep))) w) of
        (Inl err, w1) \<Rightarrow> (unphased (settleOutcome rt RunCtx err ''SOURCE_UNAVAILABLE'' w1), w1)
      | (Inr frozen, w1) \<Rightarrow>
          (case get as_brief (exec rt RunCtx (activityOptions q b)
                  (Lifecycle (FreezeBrief (brief_to_freeze inp prep requirements frozen (pst w1)))) w1) of
             (Inl err, w2) \<Rightarrow> (unphased (settleOutcome rt RunCtx err ''BRIEF_REFUSED'' w2), w2)
           | (Inr brief, w2) \<Rightarrow> ((''succeeded'', '''', ''brief_frozen''), w2)))"

text \<open>The bounds a view leaves out.\<close>

definition preparation_defaults :: "preparation_view \<Rightarrow> preparation_view" where
  "preparation_defaults prep =
     (let p = (if pv_MaxRounds prep = 0 then prep\<lparr>pv_MaxRounds := 2\<rparr> else prep) in
      if pv_MaxQuestions p = 0 then p\<lparr>pv_MaxQuestions := 3\<rparr> else p)"

definition preparation_body :: "('e \<times> prep_state) runtime \<Rightarrow> 'e clarify_sdk \<Rightarrow> queues \<Rightarrow> bounds \<Rightarrow> lifecycle_bounds \<Rightarrow> input \<Rightarrow>
    ('e \<times> prep_state) world \<Rightarrow> (verdict3 \<times> ('e \<times> prep_state) world) option" where
  "preparation_body rt sdk q b lb inp w =
     (case get as_preparation (exec rt RunCtx (readOptions q b) (Lifecycle (GetPreparation (in_OperationID inp) (in_TenantID inp))) w) of
        (Inl err, w1) \<Rightarrow> Some (unphased (settleOutcome rt RunCtx err ''CONTROL_UNAVAILABLE'' w1), w1)
      | (Inr view, w1) \<Rightarrow>
          (case get as_unit (exec rt RunCtx (activityOptions q b) (Lifecycle (RecordFunding (operation_command inp '':funding''))) w1) of
             (Inl err, w2) \<Rightarrow> Some (unphased (fundingOutcome rt RunCtx err w2), w2)
           | (Inr _, w2) \<Rightarrow>
               (case preparation_rounds rt sdk q b lb inp (preparation_defaults view) 1 0 w2 of
                  None \<Rightarrow> None
                | Some (Inl v, w3) \<Rightarrow> Some (v, w3)
                | Some (Inr requirements, w3) \<Rightarrow> Some (freeze rt q b inp (preparation_defaults view) requirements w3))))"

definition Preparation :: "('e \<times> prep_state) runtime \<Rightarrow> 'e clarify_sdk \<Rightarrow> queues \<Rightarrow> bounds \<Rightarrow> lifecycle_bounds \<Rightarrow> input \<Rightarrow>
    ('e \<times> prep_state) world \<Rightarrow> (wf_error option \<times> ('e \<times> prep_state) world) option" where
  "Preparation rt sdk q b lb inp w =
     (case in_Settle inp of
        Some carry \<Rightarrow> settleOnly rt q b inp carry w
      | None \<Rightarrow>
          (case preparation_body rt sdk q b lb inp (pupd (\<lambda>_. new_prep_state) w) of
             None \<Rightarrow> None
           | Some (v, w1) \<Rightarrow>
               (case settle_end rt q b inp (fst v) (fst (snd v)) (snd (snd v)) w1 of
                  None \<Rightarrow> None
                | Some (serr, w2) \<Rightarrow> map_option (\<lambda>s. (serr, w2\<lparr>est := s\<rparr>)) (sdk_settled sdk (est w2)))))"

end
