(* ===== verification/PreparationSafe.thy ===== *)
theory PreparationSafe
  imports Preparation
begin

text \<open>
  The safety of a \<open>Preparation\<close> run: \<open>prep_guard\<close> states of each analysis, attempt, question set and
  brief the run sends what the trace must show before it, and the lemmas of this theory show that every operation
  of the run keeps it, with the record of the clarification, which the answer handlers change while the
  run blocks, holding only answers Control gave to question sets it recorded (\<open>answers_ok\<close>).
\<close>

section \<open>What the calls of a run show\<close>

definition attempt_opened :: "nat \<Rightarrow> attempt_ref \<Rightarrow> event list \<Rightarrow> bool" where
  "attempt_opened round attempt es \<longleftrightarrow>
     (\<exists>opts i. Act RunCtx opts (OpenAttempt i) (Inr (RAttempt attempt)) \<in> set es \<and> oa_Visit i + 1 = round)"

text \<open>
  A close of the attempt was sent under its own command, whatever the answer: \<open>analyzeRound\<close> only logs a close
  that was refused. An attempt is closed when Control answered a close of it with a lifecycle it has no obligations left in.
\<close>

definition close_sent :: "attempt_ref \<Rightarrow> event list \<Rightarrow> bool" where
  "close_sent attempt es \<longleftrightarrow> (\<exists>opts i res. Act Disconnected opts (CloseAttempt i) res \<in> set es \<and> ca_Attempt i = attempt \<and>
     ca_CommandID i = ar_AttemptID attempt @ '':close'' \<and> ca_Cleanup i = ''not_required'')"

definition closes_sent :: "event list \<Rightarrow> bool" where
  "closes_sent es \<longleftrightarrow> (\<forall>c opts i attempt. Act c opts (OpenAttempt i) (Inr (RAttempt attempt)) \<in> set es \<longrightarrow> close_sent attempt es)"

definition close_granted :: "(wf_error + response) \<Rightarrow> bool" where
  "close_granted res \<longleftrightarrow> (\<exists>closed. res = Inr (RClose closed) \<and> cr_Lifecycle closed \<noteq> ''reconciling'')"

definition attempt_closed :: "attempt_ref \<Rightarrow> event list \<Rightarrow> bool" where
  "attempt_closed attempt es \<longleftrightarrow> (\<exists>c opts i res. Act c opts (CloseAttempt i) res \<in> set es \<and> ca_Attempt i = attempt \<and> close_granted res)"

definition attempts_closed :: "event list \<Rightarrow> bool" where
  "attempts_closed es \<longleftrightarrow> (\<forall>c opts i attempt. Act c opts (OpenAttempt i) (Inr (RAttempt attempt)) \<in> set es \<longrightarrow> attempt_closed attempt es)"

text \<open>A close was sent for the attempt, and Control refused or left reconciling every close it was sent of it.\<close>

definition close_outstanding :: "attempt_ref \<Rightarrow> event list \<Rightarrow> bool" where
  "close_outstanding attempt es \<longleftrightarrow> close_sent attempt es \<and>
     (\<forall>c opts i res. Act c opts (CloseAttempt i) res \<in> set es \<and> ca_Attempt i = attempt \<longrightarrow> \<not> close_granted res)"

text \<open>No close of the calls was refused or left reconciling.\<close>

definition closes_granted :: "event list \<Rightarrow> bool" where
  "closes_granted es \<longleftrightarrow> (\<forall>attempt. \<not> close_outstanding attempt es)"

lemma closes_end: "closes_sent es \<Longrightarrow> closes_granted es \<Longrightarrow> attempts_closed es"
  unfolding closes_sent_def closes_granted_def attempts_closed_def close_outstanding_def attempt_closed_def by blast

definition analyses_succeeded :: "event list \<Rightarrow> bool" where
  "analyses_succeeded es \<longleftrightarrow> (\<forall>c opts i res. Act c opts (Lifecycle (AnalyzeRequirements i)) res \<in> set es \<longrightarrow>
     (\<exists>ay. res = Inr (RLifecycle (RAnalysis ay)) \<and> ay_State ay = ''succeeded''))"

definition used_ids :: "event list \<Rightarrow> string set" where
  "used_ids es = {an_CallID i | c opts i res. Act c opts (Lifecycle (AnalyzeRequirements i)) res \<in> set es}"

text \<open>The requirements a succeeded analysis of the run concluded with, and a question set Control recorded.\<close>

definition concluded :: "string \<Rightarrow> event list \<Rightarrow> bool" where
  "concluded requirements es \<longleftrightarrow> (\<exists>c opts i ay. Act c opts (Lifecycle (AnalyzeRequirements i)) (Inr (RLifecycle (RAnalysis ay))) \<in> set es \<and>
     ay_State ay = ''succeeded'' \<and> ay_ErrorCode ay \<noteq> ''CONTENT_INVALID'' \<and> ay_Requirements ay = requirements \<and> requirements \<noteq> '''')"

definition asked :: "question_set_ref \<Rightarrow> event list \<Rightarrow> bool" where
  "asked qs es \<longleftrightarrow> (\<exists>c opts i. Act c opts (Lifecycle (RecordQuestionSet i)) (Inr (RLifecycle (RQuestionSet qs))) \<in> set es)"

text \<open>An answer Control can give for this operation.\<close>

definition control_answer :: "('e \<times> prep_state) runtime \<Rightarrow> input \<Rightarrow> answer_ref \<Rightarrow> bool" where
  "control_answer rt inp ref \<longleftrightarrow> (\<exists>c opts answerID questionSetID s s'.
     rt_perform rt c opts (get_answer inp answerID questionSetID) s = (Inr (RLifecycle (RAnswer ref)), s'))"

definition answer_backed :: "('e \<times> prep_state) runtime \<Rightarrow> input \<Rightarrow> event list \<Rightarrow> analysis_answer \<Rightarrow> bool" where
  "answer_backed rt inp es a \<longleftrightarrow> asked (aa_Question a) es \<and> aa_Round a = qs_Round (aa_Question a) \<and>
     (\<exists>ref. control_answer rt inp ref \<and> af_Found ref \<and> af_QuestionSetRevision ref = qs_Revision (aa_Question a) \<and> aa_Answer a = af_Answer ref)"

definition brief_backed :: "('e \<times> prep_state) runtime \<Rightarrow> input \<Rightarrow> event list \<Rightarrow> freeze_brief_input \<Rightarrow> bool" where
  "brief_backed rt inp es i \<longleftrightarrow> concluded (fb_Requirements i) es \<and>
     (\<exists>c opts r. Act c opts (Lifecycle (FreezeReferences r)) (Inr (RLifecycle (RFrozen (fb_Frozen i)))) \<in> set es \<and>
        fb_SourceRevisions i = fr_BrandReferences r @ fr_AssetReferences r) \<and>
     (\<forall>a \<in> set (fb_Answers i). answer_backed rt inp es a) \<and> sorted_wrt (<) (map aa_Round (fb_Answers i))"

definition prep_guard :: "('e \<times> prep_state) runtime \<Rightarrow> input \<Rightarrow> event list \<Rightarrow> event \<Rightarrow> bool" where
  "prep_guard rt inp es e \<longleftrightarrow>
     (\<forall>c opts i res. e = Act c opts (Lifecycle (AnalyzeRequirements i)) res \<longrightarrow> an_CallID i \<notin> used_ids es \<and> analyses_succeeded es \<and>
        (\<exists>attempt. attempt_opened (an_Round i) attempt es \<and> an_AttemptID i = ar_AttemptID attempt)) \<and>
     (\<forall>c opts i res. e = Act c opts (OpenAttempt i) res \<longrightarrow> closes_sent es) \<and>
     (\<forall>c opts i res. e = Act c opts (Lifecycle (RecordQuestionSet i)) res \<longrightarrow> closes_sent es \<and> analyses_succeeded es) \<and>
     (\<forall>c opts i res. e = Act c opts (Lifecycle (FreezeBrief i)) res \<longrightarrow> closes_sent es \<and> brief_backed rt inp es i)"

text \<open>A call the guard says nothing about.\<close>

definition free_event :: "event \<Rightarrow> bool" where
  "free_event e \<longleftrightarrow> (\<forall>c opts r res. e = Act c opts r res \<longrightarrow>
     (\<forall>i. r \<noteq> Lifecycle (AnalyzeRequirements i)) \<and> (\<forall>i. r \<noteq> OpenAttempt i) \<and>
     (\<forall>i. r \<noteq> Lifecycle (RecordQuestionSet i)) \<and> (\<forall>i. r \<noteq> Lifecycle (FreezeBrief i)))"

lemma free_guard: "free_event e \<Longrightarrow> prep_guard rt inp es e"
  by (auto simp: free_event_def prep_guard_def)

lemma close_event_free: "close_event c q b i e \<Longrightarrow> free_event e"
  by (cases "(c, q, b, i, e)" rule: close_event.cases) (auto simp: free_event_def)

lemma settle_event_free: "settle_event c q b i e \<Longrightarrow> free_event e"
  by (cases "(c, q, b, i, e)" rule: settle_event.cases) (auto simp: free_event_def)

text \<open>Free calls keep what the trace shows.\<close>

lemma free_call:
  assumes "trace w' = e # trace w" "free_event e"
  shows "analyses_succeeded (trace w') = analyses_succeeded (trace w)" "used_ids (trace w') = used_ids (trace w)"
    "closes_sent (trace w) \<Longrightarrow> closes_sent (trace w')"
  using assms unfolding analyses_succeeded_def used_ids_def closes_sent_def close_sent_def free_event_def by fastforce+

lemma free_extends:
  assumes "extends free_event w w'"
  shows "analyses_succeeded (trace w') = analyses_succeeded (trace w)" "used_ids (trace w') = used_ids (trace w)"
    "closes_sent (trace w) \<Longrightarrow> closes_sent (trace w')"
proof -
  obtain new where new: "trace w' = new @ trace w" "list_all free_event new" using assms by (auto simp: extends_def)
  have "analyses_succeeded (new @ es) = analyses_succeeded es \<and> used_ids (new @ es) = used_ids es \<and>
      (closes_sent es \<longrightarrow> closes_sent (new @ es))" for es
    using new(2)
  proof (induction new)
    case (Cons e new)
    then show ?case
      using free_call [of "\<lparr>est = (), trace = e # new @ es\<rparr>" e "\<lparr>est = (), trace = new @ es\<rparr>"] by simp
  qed simp
  then show "analyses_succeeded (trace w') = analyses_succeeded (trace w)" "used_ids (trace w') = used_ids (trace w)"
    "closes_sent (trace w) \<Longrightarrow> closes_sent (trace w')" using new(1) by simp_all
qed

lemma concluded_mono: "concluded r es \<Longrightarrow> set es \<subseteq> set es' \<Longrightarrow> concluded r es'"
  unfolding concluded_def by blast

lemma asked_mono: "asked qs es \<Longrightarrow> set es \<subseteq> set es' \<Longrightarrow> asked qs es'"
  unfolding asked_def by blast

lemma answer_backed_mono: "answer_backed rt inp es a \<Longrightarrow> set es \<subseteq> set es' \<Longrightarrow> answer_backed rt inp es' a"
  unfolding answer_backed_def using asked_mono by blast

section \<open>The close of an attempt\<close>

lemma sends_close:
  assumes "closeForSettlement rt Disconnected q b attempt (ar_AttemptID attempt @ '':close'') outcome ''not_required'' failureCode w = Some (err, w')"
  shows "close_sent attempt (trace w')" "extends free_event w w'"
proof -
  let ?c = Disconnected
  let ?inp = "close_input attempt (ar_AttemptID attempt @ '':close'') outcome ''not_required'' failureCode"
  note r = closeForSettlement_calls [OF assms]
  note ext = runs_extends [OF r]
  show "extends free_event w w'" by (rule extends_mono [OF ext close_event_free])
  obtain err1 where cl: "close_loop rt ?c q b ?inp (close_waiting rt outcome) (newPoller rt b 0) w = Some (err1, w')"
    using assms by (auto simp: closeForSettlement_def closeAttemptFrom_def)
  obtain new where new: "trace w' = new @ trace w" "list_all (close_event ?c q b ?inp) new" using ext by (auto simp: extends_def)
  have "closes w < closes w'" using close_loop_sent [OF cl] by simp
  then have "filter is_close new \<noteq> []" using new(1) by (auto simp: closes_def)
  then obtain e where e: "e \<in> set new" "is_close e" by (auto simp: filter_empty_conv)
  then have "close_event ?c q b ?inp e" using new(2) by (simp add: list_all_iff)
  with e obtain opts res where "e = Act ?c opts (CloseAttempt ?inp) res"
    by (cases "(?c, q, b, ?inp, e)" rule: close_event.cases) auto
  then show "close_sent attempt (trace w')"
    using e(1) new(1) unfolding close_sent_def by (auto simp: close_input_def intro!: exI)
qed

section \<open>What the other coroutines do to the record\<close>

text \<open>
  While the run blocks, the handlers of answer Updates may run: each applies an answer Control gives
  to the question set open then.
\<close>

inductive handled :: "('e \<times> prep_state) runtime \<Rightarrow> input \<Rightarrow> prep_state \<Rightarrow> prep_state \<Rightarrow> bool" for rt inp s where
  handled_refl [simp, intro]: "handled rt inp s s"
| handled_answer: "handled rt inp s s1 \<Longrightarrow> answer_matches ref s1 qs \<Longrightarrow> control_answer rt inp ref \<Longrightarrow>
    handled rt inp s (apply_answer ident qs ref s1)"

definition handlers_only :: "('e \<times> prep_state) runtime \<Rightarrow> 'e clarify_sdk \<Rightarrow> input \<Rightarrow> bool" where
  "handlers_only rt sdk inp \<longleftrightarrow>
     (\<forall>c opts r s res s'. rt_perform rt c opts r s = (res, s') \<longrightarrow> handled rt inp (snd s) (snd s')) \<and>
     (\<forall>c d s res s'. rt_sleep rt c d s = (res, s') \<longrightarrow> handled rt inp (snd s) (snd s')) \<and>
     (\<forall>d s res s'. sdk_clarify sdk d s = Some (res, s') \<longrightarrow> handled rt inp (snd s) (snd s'))"

lemma handled_trans: "handled rt inp s s1 \<Longrightarrow> handled rt inp s1 s2 \<Longrightarrow> handled rt inp s s2"
  by (rotate_tac, induction rule: handled.induct) (auto intro: handled_answer)

text \<open>Every answer kept is one Control gives to a question set it recorded, as is the open set.\<close>

definition answers_ok :: "('e \<times> prep_state) runtime \<Rightarrow> input \<Rightarrow> event list \<Rightarrow> prep_state \<Rightarrow> bool" where
  "answers_ok rt inp es s \<longleftrightarrow>
     (\<forall>r a. pr_answers s r = Some a \<longrightarrow> aa_Round a = r \<and> answer_backed rt inp es a) \<and>
     (\<forall>qs. pr_open s = Some qs \<longrightarrow> asked qs es)"

lemma answers_ok_new [simp]: "answers_ok rt inp es new_prep_state"
  by (simp add: answers_ok_def new_prep_state_def)

lemma answers_ok_mono: "answers_ok rt inp es s \<Longrightarrow> set es \<subseteq> set es' \<Longrightarrow> answers_ok rt inp es' s"
  unfolding answers_ok_def using answer_backed_mono asked_mono by blast

lemma answers_ok_apply:
  assumes "answers_ok rt inp es s" "asked qs es" "control_answer rt inp ref" "af_Found ref" "af_QuestionSetRevision ref = qs_Revision qs"
  shows "answers_ok rt inp es (apply_answer ident qs ref s)"
proof -
  have "answer_backed rt inp es \<lparr>aa_Round = qs_Round qs, aa_Answer = af_Answer ref, aa_Question = qs\<rparr>"
    unfolding answer_backed_def using assms(2-5) by simp blast
  then show ?thesis using assms(1) by (simp add: answers_ok_def apply_answer_def)
qed

lemma answers_ok_close: "answers_ok rt inp es s \<Longrightarrow> answers_ok rt inp es (s\<lparr>pr_open := None\<rparr>)"
  by (simp add: answers_ok_def)

lemma handled_answers: "handled rt inp s s' \<Longrightarrow> answers_ok rt inp es s \<Longrightarrow> answers_ok rt inp es s'"
proof (induction rule: handled.induct)
  case (handled_answer s1 ref qs ident)
  note ok = handled_answer.IH [OF handled_answer.prems]
  note m = handled_answer.hyps(2) [unfolded answer_matches_def]
  have "asked qs es" using ok m unfolding answers_ok_def by blast
  then show ?case using answers_ok_apply [OF ok _ handled_answer.hyps(3)] m by blast
qed

lemma runs_handled:
  assumes "handlers_only rt sdk inp" "runs rt P w w'"
  shows "handled rt inp (pst w) (pst w')"
  unfolding pst_def
proof (rule runs_relation [OF assms(2), where R = "\<lambda>e e'. handled rt inp (snd e) (snd e')"])
  show "handled rt inp (snd e) (snd e')" if "rt_perform rt c opts r e = (res, e')" for c opts r res e e'
    by (rule assms(1) [unfolded handlers_only_def, THEN conjunct1, rule_format, OF that])
  show "handled rt inp (snd e) (snd e')" if "rt_sleep rt c d e = (res, e')" for c d res e e'
    by (rule assms(1) [unfolded handlers_only_def, THEN conjunct2, THEN conjunct1, rule_format, OF that])
qed (auto intro: handled_trans)

abbreviation answered_world :: "('e \<times> prep_state) runtime \<Rightarrow> input \<Rightarrow> ('e \<times> prep_state) world \<Rightarrow> bool" where
  "answered_world rt inp w \<equiv> answers_ok rt inp (trace w) (pst w)"

lemma runs_answered:
  assumes "handlers_only rt sdk inp" "runs rt P w w'" "answered_world rt inp w"
  shows "answered_world rt inp w'"
  by (rule answers_ok_mono [OF handled_answers [OF runs_handled [OF assms(1,2)] assms(3)]])
    (use runs_extends [OF assms(2)] in \<open>auto simp: extends_def\<close>)

lemma call_answered:
  assumes "handlers_only rt sdk inp" "get d (exec rt c opts r w) = (res, w')" "answered_world rt inp w"
  shows "answered_world rt inp w'"
  by (rule runs_answered [OF assms(1) runs_one [OF assms(2), of "\<lambda>_. True"] assms(3)]) simp

section \<open>Call identities\<close>

lemma split_digits:
  "set xs \<subseteq> {ch. 48 \<le> ascii ch \<and> ascii ch \<le> 57} \<Longrightarrow> set ys \<subseteq> {ch. 48 \<le> ascii ch \<and> ascii ch \<le> 57} \<Longrightarrow>
    xs @ CHR '':'' # us = ys @ CHR '':'' # vs \<Longrightarrow> xs = ys \<and> us = vs"
proof (induction xs arbitrary: ys)
  case Nil
  then show ?case by (cases ys) (auto simp: ascii_def)
next
  case (Cons x xs)
  then show ?case by (cases ys) (auto simp: ascii_def)
qed

lemma analysis_call_id_inject: "analysis_call_id inp round call = analysis_call_id inp round' call' \<longleftrightarrow> round = round' \<and> call = call'"
proof
  assume "analysis_call_id inp round call = analysis_call_id inp round' call'"
  then have "show_nat round @ CHR '':'' # (CHR ''c'' # show_nat call) = show_nat round' @ CHR '':'' # (CHR ''c'' # show_nat call')"
    by (simp add: analysis_call_id_def)
  from split_digits [OF digits_show_nat digits_show_nat this] show "round = round' \<and> call = call'" by simp
qed simp

text \<open>The identities of the calls before the \<open>call\<close>-th of a round.\<close>

definition ids_before :: "input \<Rightarrow> nat \<Rightarrow> nat \<Rightarrow> string set" where
  "ids_before inp round call = {analysis_call_id inp r c | r c. r < round \<or> r = round \<and> c < call}"

lemma fresh_id: "analysis_call_id inp round call \<notin> ids_before inp round call"
  by (auto simp: ids_before_def analysis_call_id_inject)

lemma ids_before_next: "insert (analysis_call_id inp round call) (ids_before inp round call) \<subseteq> ids_before inp round (call + 1)"
  "ids_before inp round call \<subseteq> ids_before inp (round + 1) 0"
  unfolding ids_before_def by (auto simp: analysis_call_id_inject)

section \<open>A round\<close>

definition is_analysis :: "event \<Rightarrow> bool" where
  "is_analysis e \<longleftrightarrow> (\<exists>c opts i res. e = Act c opts (Lifecycle (AnalyzeRequirements i)) res)"

definition is_opening :: "event \<Rightarrow> bool" where
  "is_opening e \<longleftrightarrow> (\<exists>c opts i res. e = Act c opts (OpenAttempt i) res)"

lemma free_not: "free_event e \<Longrightarrow> \<not> is_analysis e \<and> \<not> is_opening e"
  by (auto simp: free_event_def is_analysis_def is_opening_def)

text \<open>What is known of a run that has no attempt open and asks in the given round next.\<close>

definition between_rounds :: "('e \<times> prep_state) runtime \<Rightarrow> input \<Rightarrow> nat \<Rightarrow> ('e \<times> prep_state) world \<Rightarrow> bool" where
  "between_rounds rt inp round w \<longleftrightarrow> closes_sent (trace w) \<and> analyses_succeeded (trace w) \<and>
     used_ids (trace w) \<subseteq> ids_before inp round 0 \<and> answered_world rt inp w"

lemma analysis_shown:
  "used_ids (Act c opts (Lifecycle (AnalyzeRequirements i)) raw # es) = insert (an_CallID i) (used_ids es)"
  "analyses_succeeded (Act c opts (Lifecycle (AnalyzeRequirements i)) raw # es) \<longleftrightarrow>
     analyses_succeeded es \<and> (\<exists>ay. raw = Inr (RLifecycle (RAnalysis ay)) \<and> ay_State ay = ''succeeded'')"
  by (auto simp: used_ids_def analyses_succeeded_def)

lemma attempt_opened_mono: "attempt_opened round attempt es \<Longrightarrow> set es \<subseteq> set es' \<Longrightarrow> attempt_opened round attempt es'"
  unfolding attempt_opened_def by blast

lemma round_end_Some:
  assumes "round_end lb repairs ay = Some (closing, r)" "rd_FailureCode r = ''''"
  shows "ay_State ay = ''succeeded'' \<and> ay_ErrorCode ay \<noteq> ''CONTENT_INVALID'' \<and> (rd_Requirements r \<noteq> '''' \<longrightarrow> rd_Requirements r = ay_Requirements ay)"
  using assms by (auto simp: round_end_def no_result_def Let_def split: if_splits)

lemma round_end_again:
  assumes "round_end lb repairs ay = None"
  shows "ay_State ay = ''succeeded'' \<and> repairs < ContentRepairAllowance lb"
  using assms by (auto simp: round_end_def Let_def split: if_splits)

lemma analyze_calls_does:
  assumes "analyze_calls rt q b lb inp attempt prep given round mustConclude call repairs w = ((closing, res, repairs'), w')"
    "handlers_only rt sdk inp" "attempt_opened round attempt (trace w)" "analyses_succeeded (trace w)"
    "used_ids (trace w) \<subseteq> ids_before inp round call" "answered_world rt inp w"
  shows "keeps (prep_guard rt inp) w w' \<and> extends is_analysis w w' \<and> answered_world rt inp w' \<and>
    used_ids (trace w') \<subseteq> ids_before inp (round + 1) 0 \<and>
    (\<forall>r. res = Inr r \<and> rd_FailureCode r = '''' \<longrightarrow> analyses_succeeded (trace w') \<and>
       (rd_Requirements r \<noteq> '''' \<longrightarrow> concluded (rd_Requirements r) (trace w'))) \<and>
    repairs \<le> repairs' \<and> repairs' \<le> max repairs (ContentRepairAllowance lb) \<and>
    int (count_events is_analysis w') = int (count_events is_analysis w) + (repairs' - repairs) + 1"
  using assms
proof (induction rt q b lb inp attempt prep given round mustConclude call repairs w rule: analyze_calls.induct)
  case (1 rt q b lb inp attempt prep given round mustConclude call repairs w)
  let ?i = "analysis_input lb inp attempt prep given round mustConclude call (now rt w)"
  let ?next = "ids_before inp (round + 1) 0"
  obtain x w1 where one: "get as_analysis (exec rt RunCtx (analysisOptions q b lb) (Lifecycle (AnalyzeRequirements ?i)) w) = (x, w1)"
    by fastforce
  obtain raw where tr: "trace w1 = Act RunCtx (analysisOptions q b lb) (Lifecycle (AnalyzeRequirements ?i)) raw # trace w" "x = decode as_analysis raw"
    using trace_get_exec [OF one] by blast
  have ident: "an_CallID ?i = analysis_call_id inp round call" "an_Round ?i = round" "an_AttemptID ?i = ar_AttemptID attempt"
    by (simp_all add: analysis_input_def)
  have "prep_guard rt inp (trace w) (Act RunCtx (analysisOptions q b lb) (Lifecycle (AnalyzeRequirements ?i)) raw)"
    unfolding prep_guard_def using 1(4,5,6) ident fresh_id [of inp round call] by auto
  then have k1: "keeps (prep_guard rt inp) w w1" using tr(1) by (rule keeps_event)
  have e1: "extends is_analysis w w1" using tr(1) by (auto simp: extends_def is_analysis_def)
  have a1: "answered_world rt inp w1" by (rule call_answered [OF 1(3) one 1(7)])
  have u1: "used_ids (trace w1) \<subseteq> ids_before inp round (call + 1)"
    using 1(6) ids_before_next(1) [of inp round call] unfolding tr(1) analysis_shown ident by blast
  then have u2: "used_ids (trace w1) \<subseteq> ?next" using ids_before_next(2) by blast
  have c1: "count_events is_analysis w1 = Suc (count_events is_analysis w)"
    using tr(1) by (auto simp: count_events_def is_analysis_def)
  show ?case
  proof (cases x)
    case (Inl err)
    then have "res = Inl err \<and> repairs' = repairs \<and> w' = w1" using 1(2) one by (subst (asm) analyze_calls.simps) simp
    then show ?thesis using k1 e1 a1 u2 c1 by simp
  next
    case (Inr ay)
    then have raw: "raw = Inr (RLifecycle (RAnalysis ay))" using tr(2) by (auto simp: decode_Inr dest: sym)
    show ?thesis
    proof (cases "round_end lb repairs ay")
      case (Some p)
      obtain closing1 r where p: "p = (closing1, r)" by fastforce
      have out: "res = Inr r" "repairs' = repairs" "w' = w1" using 1(2) one Inr Some p by (subst (asm) analyze_calls.simps, simp)+
      have good: "analyses_succeeded (trace w1) \<and> (rd_Requirements r \<noteq> '''' \<longrightarrow> concluded (rd_Requirements r) (trace w1))"
        if "rd_FailureCode r = ''''"
      proof -
        note re = round_end_Some [OF Some [unfolded p] that]
        have "concluded (rd_Requirements r) (trace w1)" if "rd_Requirements r \<noteq> ''''"
          unfolding concluded_def tr(1) raw using re that by auto
        then show ?thesis using re 1(5) unfolding tr(1) raw analysis_shown by simp
      qed
      show ?thesis using k1 e1 a1 u2 c1 good out by simp
    next
      case None
      note again = round_end_again [OF None]
      have run: "analyze_calls rt q b lb inp attempt prep given round mustConclude (call + 1) (repairs + 1) w1 = ((closing, res, repairs'), w')"
        using 1(2) one Inr None by (subst (asm) analyze_calls.simps) simp
      have o1: "attempt_opened round attempt (trace w1)" by (rule attempt_opened_mono [OF 1(4)]) (use tr in auto)
      have s1: "analyses_succeeded (trace w1)" using 1(5) again unfolding tr(1) raw analysis_shown by simp
      from 1(1) [OF one [symmetric] Inr None run 1(3) o1 s1 u1 a1] c1 again keeps_trans [OF k1] extends_trans [OF e1]
      show ?thesis by auto
    qed
  qed
qed

lemma free_keeps: "extends free_event w w' \<Longrightarrow> keeps (prep_guard rt inp) w w'"
  by (rule extends_keeps [OF _ free_guard])

lemma other_event:
  "\<not> is_analysis e \<Longrightarrow> analyses_succeeded (e # es) = analyses_succeeded es"
  "\<not> is_analysis e \<Longrightarrow> used_ids (e # es) = used_ids es"
  unfolding analyses_succeeded_def used_ids_def is_analysis_def by (simp, blast)+

lemma closes_sent_other: "\<not> is_opening e \<Longrightarrow> closes_sent es \<Longrightarrow> closes_sent (e # es)"
  unfolding closes_sent_def close_sent_def is_opening_def by (simp, blast)

lemma closes_sent_extends:
  assumes "extends (\<lambda>e. \<not> is_opening e) w w'" "closes_sent (trace w)"
  shows "closes_sent (trace w')"
proof -
  obtain new where new: "trace w' = new @ trace w" "list_all (\<lambda>e. \<not> is_opening e) new" using assms(1) by (auto simp: extends_def)
  have "closes_sent (new @ trace w)" using new(2) assms(2) by (induction new) (simp_all add: closes_sent_other)
  then show ?thesis using new(1) by simp
qed

lemma extends_free_not_opening: "extends is_analysis w w' \<Longrightarrow> extends (\<lambda>e. \<not> is_opening e) w w'"
  by (erule extends_mono) (auto simp: is_analysis_def is_opening_def)

definition spent :: "('e \<times> prep_state) world \<Rightarrow> int" where
  "spent w = int (count_events is_analysis w) - int (count_events is_opening w)"

definition is_asking :: "event \<Rightarrow> bool" where
  "is_asking e \<longleftrightarrow> (\<exists>c opts i res. e = Act c opts (Lifecycle (RecordQuestionSet i)) res)"

lemma count_events_Cons: "trace w' = e # trace w \<Longrightarrow> count_events K w' = (if K e then 1 else 0) + count_events K w"
  by (simp add: count_events_def)

lemma count_events_extends: "extends P w w' \<Longrightarrow> (\<And>e. P e \<Longrightarrow> \<not> K e) \<Longrightarrow> count_events K w' = count_events K w"
  by (auto simp: extends_def count_events_def filter_empty_conv list_all_iff)

lemma analyzeRound_does:
  assumes "analyzeRound rt q b lb inp round prep mustConclude repairs w = Some ((res, repairs'), w')"
    "handlers_only rt sdk inp" "between_rounds rt inp round w" "0 < round"
  shows "keeps (prep_guard rt inp) w w' \<and> closes_sent (trace w') \<and> answered_world rt inp w' \<and>
    (\<forall>r. res = Inr r \<and> rd_FailureCode r = '''' \<longrightarrow> between_rounds rt inp (round + 1) w' \<and>
       (rd_Requirements r \<noteq> '''' \<longrightarrow> concluded (rd_Requirements r) (trace w'))) \<and>
    repairs \<le> repairs' \<and> repairs' \<le> max repairs (ContentRepairAllowance lb) \<and> spent w' \<le> spent w + (repairs' - repairs) \<and>
    count_events is_asking w' = count_events is_asking w"
proof -
  let ?G = "prep_guard rt inp"
  obtain x w1 where one: "get as_attempt (exec rt RunCtx (activityOptions q b) (OpenAttempt (analysis_open inp round)) w) = (x, w1)"
    by fastforce
  obtain raw where tr: "trace w1 = Act RunCtx (activityOptions q b) (OpenAttempt (analysis_open inp round)) raw # trace w"
      "x = decode as_attempt raw"
    using trace_get_exec [OF one] by blast
  note br = assms(3) [unfolded between_rounds_def]
  have "?G (trace w) (Act RunCtx (activityOptions q b) (OpenAttempt (analysis_open inp round)) raw)"
    using br by (auto simp: prep_guard_def)
  then have k1: "keeps ?G w w1" using tr(1) by (rule keeps_event)
  have a1: "answered_world rt inp w1" by (rule call_answered [OF assms(2) one]) (use br in blast)
  have not: "\<not> is_analysis (Act RunCtx (activityOptions q b) (OpenAttempt (analysis_open inp round)) raw)" by (simp add: is_analysis_def)
  have s1: "analyses_succeeded (trace w1)" "used_ids (trace w1) \<subseteq> ids_before inp round 0"
    using br other_event [OF not] unfolding tr(1) by auto
  have c1: "spent w1 = spent w - 1" "count_events is_asking w1 = count_events is_asking w"
    unfolding spent_def using not tr(1) by (simp_all add: count_events_Cons is_opening_def is_asking_def)
  show ?thesis
  proof (cases x)
    case (Inl err)
    have "closes_sent (trace w1)"
      using br tr Inl unfolding closes_sent_def close_sent_def by (fastforce simp: decode_def)
    moreover have "res = Inl err \<and> repairs' = repairs \<and> w' = w1" using assms(1) one Inl by (simp add: analyzeRound_def)
    ultimately show ?thesis using k1 a1 c1 by simp
  next
    case (Inr attempt)
    then have raw: "raw = Inr (RAttempt attempt)" using tr(2) by (auto simp: decode_Inr dest: sym)
    obtain closing res1 rep1 w2 where calls: "analyze_calls rt q b lb inp attempt prep (answers_before round (pst w1)) round mustConclude 1 repairs w1
        = ((closing, res1, rep1), w2)"
      by (metis surj_pair)
    obtain err w3 where cl: "closeForSettlement rt Disconnected q b attempt (ar_AttemptID attempt @ '':close'') (fst closing) ''not_required''
        (snd closing) w2 = Some (err, w3)" and out: "res = res1" "repairs' = rep1" "w' = w3"
      using assms(1) one Inr calls by (auto simp: analyzeRound_def)
    have opened: "attempt_opened round attempt (trace w1)"
      unfolding attempt_opened_def tr(1) raw using assms(4)
      by (intro exI [of _ "activityOptions q b"] exI [of _ "analysis_open inp round"]) (simp add: analysis_open_def)
    have "ids_before inp round 0 \<subseteq> ids_before inp round 1" using ids_before_next(1) [of inp round 0] by auto
    then have "used_ids (trace w1) \<subseteq> ids_before inp round 1" using s1(2) by blast
    note an = analyze_calls_does [OF calls assms(2) opened s1(1) this a1]
    note cs = sends_close [OF cl]
    have closed: "closes_sent (trace w3)"
      unfolding closes_sent_def
    proof (intro allI impI)
      fix c opts i att assume ev: "Act c opts (OpenAttempt i) (Inr (RAttempt att)) \<in> set (trace w3)"
      have "extends (\<lambda>e. \<not> is_opening e) w1 w3"
        using extends_trans [OF extends_free_not_opening extends_mono [OF cs(2)]] an free_not by blast
      then have "Act c opts (OpenAttempt i) (Inr (RAttempt att)) \<in> set (trace w1)"
        using extends_set [OF _ ev] unfolding is_opening_def by blast
      then have "att = attempt \<or> close_sent att (trace w)"
        using br unfolding tr(1) raw closes_sent_def by auto
      moreover have "set (trace w) \<subseteq> set (trace w3)"
        using keeps_subset [OF k1] an cs(2) keeps_subset by (fastforce simp: extends_def)
      ultimately show "close_sent att (trace w3)" using cs(1) unfolding close_sent_def by blast
    qed
    have k3: "keeps ?G w w3"
      using keeps_trans [OF keeps_trans [OF k1]] an free_keeps [OF cs(2)] by blast
    have a3: "answered_world rt inp w3" by (rule runs_answered [OF assms(2) closeForSettlement_calls [OF cl]]) (use an in blast)
    have f3: "analyses_succeeded (trace w3) = analyses_succeeded (trace w2)" "used_ids (trace w3) = used_ids (trace w2)"
      by (rule free_extends [OF cs(2)])+
    have "count_events is_analysis w3 = count_events is_analysis w2" "count_events is_opening w3 = count_events is_opening w2"
      "count_events is_asking w3 = count_events is_asking w2"
      by (rule count_events_extends [OF cs(2)]; auto simp: free_event_def is_analysis_def is_opening_def is_asking_def)+
    moreover have "count_events is_opening w2 = count_events is_opening w1" "count_events is_asking w2 = count_events is_asking w1"
      by (rule count_events_extends [of is_analysis]; use an in \<open>auto simp: is_analysis_def is_opening_def is_asking_def\<close>)+
    ultimately have "spent w3 \<le> spent w + (rep1 - repairs)" "count_events is_asking w3 = count_events is_asking w"
      using an c1 by (simp_all add: spent_def)
    moreover have "set (trace w2) \<subseteq> set (trace w3)" using cs(2) by (auto simp: extends_def)
    ultimately show ?thesis using out k3 closed a3 an f3 concluded_mono unfolding between_rounds_def by auto
  qed
qed

lemma late_answer_does:
  assumes "late_answer rt q b inp qs w = (v, w')" "handlers_only rt sdk inp" "answered_world rt inp w" "asked qs (trace w)"
  shows "extends free_event w w' \<and> answered_world rt inp w' \<and> (\<forall>v'. v = Some v' \<longrightarrow> fst v' \<noteq> ''succeeded'') \<and>
    count_events is_asking w' = count_events is_asking w"
proof -
  obtain x w1 where one: "get as_answer (exec rt RunCtx (readOptions q b) (get_answer inp '''' (qs_QuestionSetID qs)) w) = (x, w1)" by fastforce
  obtain raw where tr: "trace w1 = Act RunCtx (readOptions q b) (get_answer inp '''' (qs_QuestionSetID qs)) raw # trace w" "x = decode as_answer raw"
    "rt_perform rt RunCtx (readOptions q b) (get_answer inp '''' (qs_QuestionSetID qs)) (est w) = (raw, est w1)"
    using trace_get_exec [OF one] by blast
  have e1: "extends free_event w w1" using tr(1) by (auto simp: extends_def free_event_def get_answer_def)
  have a1: "answered_world rt inp w1" by (rule call_answered [OF assms(2) one assms(3)])
  have c1: "count_events is_asking w1 = count_events is_asking w"
    using tr(1) by (simp add: count_events_Cons is_asking_def get_answer_def)
  have t: "trace w' = trace w1" using assms(1) one by (cases x) (auto simp: late_answer_def split: if_splits)
  then have "extends free_event w w'" "count_events is_asking w' = count_events is_asking w"
    using e1 c1 by (simp_all add: extends_def count_events_def)
  moreover have "\<forall>v'. v = Some v' \<longrightarrow> fst v' \<noteq> ''succeeded''"
    using assms(1) one by (cases x) (auto simp: late_answer_def unphased_def split: if_splits)
  moreover have "answered_world rt inp w'"
  proof (cases x)
    case (Inl err)
    then show ?thesis using assms(1) one a1 by (simp add: late_answer_def)
  next
    case (Inr late)
    then have "raw = Inr (RLifecycle (RAnswer late))" using tr(2) by (auto simp: decode_Inr dest: sym)
    then have ctl: "control_answer rt inp late" using tr(3) unfolding control_answer_def by blast
    have q1: "asked qs (trace w1)" by (rule asked_mono [OF assms(4)]) (use tr in auto)
    show ?thesis
    proof (cases "af_Found late \<and> af_QuestionSetRevision late = qs_Revision qs")
      case True
      then have "w' = pupd (apply_answer (af_AnswerID late) qs late) w1" using assms(1) one Inr by (simp add: late_answer_def)
      then show ?thesis using answers_ok_apply [OF a1 q1 ctl] True by simp
    next
      case False
      then have "w' = pupd (\<lambda>s. s\<lparr>pr_open := None\<rparr>) w1" using assms(1) one Inr by (auto simp: late_answer_def)
      then show ?thesis using answers_ok_close [OF a1] by simp
    qed
  qed
  ultimately show ?thesis by blast
qed

lemma ask_questions_does:
  assumes "ask_questions rt sdk q b inp round questions w = Some (v, w')" "handlers_only rt sdk inp" "between_rounds rt inp next w"
  shows "keeps (prep_guard rt inp) w w' \<and> between_rounds rt inp next w' \<and> (\<forall>v'. v = Some v' \<longrightarrow> fst v' \<noteq> ''succeeded'') \<and>
    spent w' = spent w \<and> count_events is_asking w' = Suc (count_events is_asking w)"
proof -
  let ?G = "prep_guard rt inp" let ?r = "Lifecycle (RecordQuestionSet (questions_input inp round questions))"
  obtain x w1 where one: "get as_question_set (exec rt RunCtx (activityOptions q b) ?r w) = (x, w1)" by fastforce
  obtain raw where tr: "trace w1 = Act RunCtx (activityOptions q b) ?r raw # trace w" "x = decode as_question_set raw"
    using trace_get_exec [OF one] by blast
  note br = assms(3) [unfolded between_rounds_def]
  have "?G (trace w) (Act RunCtx (activityOptions q b) ?r raw)" using br by (auto simp: prep_guard_def)
  then have k1: "keeps ?G w w1" using tr(1) by (rule keeps_event)
  have a1: "answered_world rt inp w1" by (rule call_answered [OF assms(2) one]) (use br in blast)
  have not: "\<not> is_analysis (Act RunCtx (activityOptions q b) ?r raw)" "\<not> is_opening (Act RunCtx (activityOptions q b) ?r raw)"
    by (simp_all add: is_analysis_def is_opening_def)
  have b1: "between_rounds rt inp next w1"
    using br a1 other_event [OF not(1)] closes_sent_other [OF not(2)] unfolding between_rounds_def tr(1) by auto
  have c1: "spent w1 = spent w" "count_events is_asking w1 = Suc (count_events is_asking w)"
    using tr(1) not by (simp_all add: spent_def count_events_Cons is_asking_def)
  show ?thesis
  proof (cases x)
    case (Inl err)
    then have "w' = w1 \<and> v = Some (unphased (settleOutcome rt RunCtx err ''OBSERVER_FAILED'' w1))" using assms(1) one by (auto simp: ask_questions_def)
    then show ?thesis using k1 b1 c1 by (simp add: unphased_def)
  next
    case (Inr qs)
    then have raw: "raw = Inr (RLifecycle (RQuestionSet qs))" using tr(2) by (auto simp: decode_Inr dest: sym)
    let ?w2 = "pupd (\<lambda>s. s\<lparr>pr_open := Some qs, pr_answered := False\<rparr>) w1"
    have q1: "asked qs (trace w1)" unfolding asked_def tr(1) raw by auto
    have a2: "answered_world rt inp ?w2" using a1 q1 by (simp add: answers_ok_def)
    obtain err expired s where cl: "sdk_clarify sdk (qs_ExpiresAt qs - now rt ?w2) (est ?w2) = Some ((err, expired), s)"
      using assms(1) one Inr by (auto simp: ask_questions_def Let_def split: option.splits prod.splits)
    let ?w3 = "?w2\<lparr>est := s\<rparr>"
    have "handled rt inp (snd (est ?w2)) (snd s)"
      by (rule assms(2) [unfolded handlers_only_def, THEN conjunct2, THEN conjunct2, rule_format, OF cl])
    then have a3: "answered_world rt inp ?w3" using handled_answers [OF _ a2] by (simp add: pst_def)
    have b3: "between_rounds rt inp next ?w3" using b1 a3 by (simp add: between_rounds_def)
    have k3: "keeps ?G w ?w3" using k1 by (simp add: keeps_def)
    have c3: "spent ?w3 = spent w" "count_events is_asking ?w3 = Suc (count_events is_asking w)"
      using c1 by (simp_all add: spent_def count_events_def)
    show ?thesis
    proof (cases err)
      case (Some e)
      then have "w' = ?w3 \<and> v = Some (unphased (settleOutcome rt RunCtx e ''CANCELED'' ?w3))"
        using assms(1) one Inr cl Some by (auto simp: ask_questions_def Let_def)
      then show ?thesis using k3 b3 c3 by (simp add: unphased_def)
    next
      case None
      obtain v1 w4 where late: "(if pr_answered (snd s) then (None, ?w3) else late_answer rt q b inp qs ?w3) = (v1, w4)" by fastforce
      have l4: "extends free_event ?w3 w4 \<and> answered_world rt inp w4 \<and> (\<forall>v'. v1 = Some v' \<longrightarrow> fst v' \<noteq> ''succeeded'') \<and>
          count_events is_asking w4 = count_events is_asking ?w3"
      proof (cases "pr_answered (snd s)")
        case True
        then show ?thesis using late a3 by auto
      next
        case False
        then show ?thesis using late late_answer_does [OF _ assms(2) a3] q1 by simp
      qed
      have b4: "between_rounds rt inp next w4" using b3 free_extends [of ?w3 w4] l4 unfolding between_rounds_def by simp
      have k4: "keeps ?G w w4" using keeps_trans [OF k3] free_keeps l4 by blast
      have c4: "spent w4 = spent w" "count_events is_asking w4 = Suc (count_events is_asking w)"
        using c3 l4 count_events_extends [of free_event ?w3 w4] free_not by (auto simp: spent_def)
      have "v = v1 \<and> (w' = w4 \<or> w' = pupd (\<lambda>s. s\<lparr>pr_open := None\<rparr>) w4)"
        using assms(1) one Inr cl None late by (cases v1) (auto simp: ask_questions_def Let_def split: if_splits)
      moreover have "between_rounds rt inp next (pupd (\<lambda>s. s\<lparr>pr_open := None\<rparr>) w4)"
        using b4 unfolding between_rounds_def by (intro conjI) (simp_all add: answers_ok_close)
      moreover have "keeps ?G w (pupd (\<lambda>s. s\<lparr>pr_open := None\<rparr>) w4)" "spent (pupd (\<lambda>s. s\<lparr>pr_open := None\<rparr>) w4) = spent w4"
        "count_events is_asking (pupd (\<lambda>s. s\<lparr>pr_open := None\<rparr>) w4) = count_events is_asking w4"
        using k4 by (simp_all add: keeps_def spent_def count_events_def)
      ultimately show ?thesis using l4 k4 b4 c4 by auto
    qed
  qed
qed

section \<open>The run\<close>

lemma preparation_rounds_does:
  assumes "preparation_rounds rt sdk q b lb inp prep round repairs w = Some r" "handlers_only rt sdk inp" "between_rounds rt inp round w"
    "0 < round" "0 \<le> repairs" "repairs \<le> max 0 (ContentRepairAllowance lb)" "spent w \<le> repairs"
  shows "keeps (prep_guard rt inp) w (snd r) \<and> closes_sent (trace (snd r)) \<and> answered_world rt inp (snd r) \<and>
    (case fst r of Inl v \<Rightarrow> fst v \<noteq> ''succeeded'' | Inr requirements \<Rightarrow> concluded requirements (trace (snd r))) \<and>
    spent (snd r) \<le> max 0 (ContentRepairAllowance lb)"
  using assms
proof (induction rule: preparation_rounds.raw_induct [rotated 1, consumes 1, case_names step])
  case (step pr rt sdk q b lb inp prep round repairs w r)
  obtain res rep1 w1 where one: "analyzeRound rt q b lb inp round prep (round > pv_MaxRounds prep) repairs w = Some ((res, rep1), w1)"
    using step(2) by (auto split: option.splits)
  note a = analyzeRound_does [OF one step(3-5)]
  have k1: "keeps (prep_guard rt inp) w w1" and rep: "0 \<le> rep1" "rep1 \<le> max 0 (ContentRepairAllowance lb)" "spent w1 \<le> rep1"
    using a step(6-8) by auto
  show ?case
  proof (cases res)
    case (Inl err)
    then have "r = (Inl (unphased (settleOutcome rt RunCtx err ''OBSERVER_FAILED'' w1)), w1)" using step(2) one by simp
    then show ?thesis using a k1 rep by (simp add: unphased_def)
  next
    case (Inr rr)
    show ?thesis
    proof (cases "rd_FailureCode rr = ''''")
      case False
      then have "r = (Inl (''failed'', rd_FailureCode rr, ''''), w1)" using step(2) one Inr by simp
      then show ?thesis using a k1 rep by simp
    next
      case code: True
      then have b1: "between_rounds rt inp (round + 1) w1" using a Inr by blast
      show ?thesis
      proof (cases "rd_Requirements rr = ''''")
        case False
        then have "r = (Inr (rd_Requirements rr), w1)" using step(2) one Inr code by simp
        then show ?thesis using a k1 rep Inr code False by simp
      next
        case True
        obtain v w2 where ask: "ask_questions rt sdk q b inp round (rd_Questions rr) w1 = Some (v, w2)"
          using step(2) one Inr code True by (auto split: option.splits)
        note s2 = ask_questions_does [OF ask step(3) b1]
        have k2: "keeps (prep_guard rt inp) w w2" using keeps_trans [OF k1] s2 by blast
        show ?thesis
        proof (cases v)
          case (Some v')
          then have "r = (Inl v', w2)" using step(2) one Inr code True ask by simp
          then show ?thesis using s2 k2 rep Some by (auto simp: between_rounds_def)
        next
          case None
          have run: "pr rt sdk q b lb inp prep (round + 1) rep1 w2 = Some r" using step(2) one Inr code True ask None by simp
          have "between_rounds rt inp (round + 1) w2" "spent w2 \<le> rep1" using s2 rep by auto
          from step(1) [OF run step(3) this(1) _ rep(1,2) this(2)] keeps_trans [OF k2] show ?thesis by auto
        qed
      qed
    qed
  qed
qed

lemma sorted_map_filter:
  assumes "\<And>r a. f r = Some a \<Longrightarrow> g a = r" "sorted_wrt (<) rs"
  shows "sorted_wrt (<) (map g (List.map_filter f rs))"
  using assms(2)
proof (induction rs)
  case (Cons r rs)
  have "g a = r" if "f r = Some a" for a by (rule assms(1) [OF that])
  moreover have "\<forall>a \<in> set (List.map_filter f rs). g a \<in> set rs" using assms(1) by (force simp: map_filter_def)
  ultimately show ?case using Cons by (auto simp: map_filter_simps split: option.splits)
qed (simp add: map_filter_simps)

lemma answers_before_backed:
  assumes "answers_ok rt inp es s"
  shows "\<forall>a \<in> set (answers_before n s). answer_backed rt inp es a" "sorted_wrt (<) (map aa_Round (answers_before n s))"
proof -
  show "\<forall>a \<in> set (answers_before n s). answer_backed rt inp es a"
    using assms unfolding answers_before_def answers_ok_def by (auto simp: map_filter_def)
  show "sorted_wrt (<) (map aa_Round (answers_before n s))"
    unfolding answers_before_def
    by (rule sorted_map_filter) (use assms in \<open>auto simp: answers_ok_def\<close>)
qed

definition brief_answered :: "event list \<Rightarrow> bool" where
  "brief_answered es \<longleftrightarrow> (\<exists>c opts i brief. Act c opts (Lifecycle (FreezeBrief i)) (Inr (RLifecycle (RBrief brief))) \<in> set es)"

lemma freeze_does:
  assumes "freeze rt q b inp prep requirements w = (v, w')" "handlers_only rt sdk inp" "answered_world rt inp w"
    "closes_sent (trace w)" "concluded requirements (trace w)"
  shows "keeps (prep_guard rt inp) w w' \<and> (fst v = ''succeeded'' \<longrightarrow> brief_answered (trace w')) \<and> spent w' = spent w"
proof -
  let ?G = "prep_guard rt inp" let ?r = "references_input inp prep"
  obtain x w1 where one: "get as_frozen (exec rt RunCtx (activityOptions q b) (Lifecycle (FreezeReferences ?r)) w) = (x, w1)" by fastforce
  obtain raw where tr: "trace w1 = Act RunCtx (activityOptions q b) (Lifecycle (FreezeReferences ?r)) raw # trace w" "x = decode as_frozen raw"
    using trace_get_exec [OF one] by blast
  have free: "extends free_event w w1" using tr(1) by (auto simp: extends_def free_event_def)
  have a1: "answered_world rt inp w1" by (rule call_answered [OF assms(2) one assms(3)])
  have c1: "spent w1 = spent w" using tr(1) by (simp add: spent_def count_events_Cons is_analysis_def is_opening_def)
  show ?thesis
  proof (cases x)
    case (Inl err)
    then have "v = unphased (settleOutcome rt RunCtx err ''SOURCE_UNAVAILABLE'' w1) \<and> w' = w1" using assms(1) one by (auto simp: freeze_def)
    then show ?thesis using free_keeps [OF free] c1 by (simp add: unphased_def)
  next
    case (Inr frozen)
    then have raw: "raw = Inr (RLifecycle (RFrozen frozen))" using tr(2) by (auto simp: decode_Inr dest: sym)
    let ?i = "brief_to_freeze inp prep requirements frozen (pst w1)"
    obtain y w2 where two: "get as_brief (exec rt RunCtx (activityOptions q b) (Lifecycle (FreezeBrief ?i)) w1) = (y, w2)" by fastforce
    obtain raw2 where tr2: "trace w2 = Act RunCtx (activityOptions q b) (Lifecycle (FreezeBrief ?i)) raw2 # trace w1" "y = decode as_brief raw2"
      using trace_get_exec [OF two] by blast
    have "concluded requirements (trace w1)" by (rule concluded_mono [OF assms(5)]) (use tr in auto)
    moreover have "\<exists>c opts r. Act c opts (Lifecycle (FreezeReferences r)) (Inr (RLifecycle (RFrozen (fb_Frozen ?i)))) \<in> set (trace w1) \<and>
        fb_SourceRevisions ?i = fr_BrandReferences r @ fr_AssetReferences r"
      unfolding tr(1) raw by (intro exI [of _ RunCtx] exI [of _ "activityOptions q b"] exI [of _ ?r]) (simp add: brief_to_freeze_def references_input_def)
    ultimately have "brief_backed rt inp (trace w1) ?i"
      using answers_before_backed [OF a1] unfolding brief_backed_def by (simp add: brief_to_freeze_def)
    moreover have "closes_sent (trace w1)" using free_extends(3) [OF free] assms(4) by blast
    ultimately have "?G (trace w1) (Act RunCtx (activityOptions q b) (Lifecycle (FreezeBrief ?i)) raw2)" by (auto simp: prep_guard_def)
    then have "keeps ?G w1 w2" using tr2(1) by (rule keeps_event)
    then have k2: "keeps ?G w w2" by (rule keeps_trans [OF free_keeps [OF free]])
    have c2: "spent w2 = spent w" using tr2(1) c1 by (simp add: spent_def count_events_Cons is_analysis_def is_opening_def)
    show ?thesis
    proof (cases y)
      case (Inl err)
      then have "v = unphased (settleOutcome rt RunCtx err ''BRIEF_REFUSED'' w2) \<and> w' = w2" using assms(1) one Inr two by (auto simp: freeze_def)
      then show ?thesis using k2 c2 by (simp add: unphased_def)
    next
      case brief: (Inr brief)
      then have "raw2 = Inr (RLifecycle (RBrief brief))" using tr2(2) by (auto simp: decode_Inr dest: sym)
      then have "brief_answered (trace w2)" unfolding brief_answered_def tr2(1) by auto
      moreover have "w' = w2" using assms(1) one Inr two brief by (simp add: freeze_def)
      ultimately show ?thesis using k2 c2 by simp
    qed
  qed
qed

lemma preparation_body_does:
  assumes "preparation_body rt sdk q b lb inp w = Some (v, w')" "handlers_only rt sdk inp" "trace w = []" "pst w = new_prep_state"
  shows "keeps (prep_guard rt inp) w w' \<and> (fst v = ''succeeded'' \<longrightarrow> brief_answered (trace w')) \<and>
    spent w' \<le> max 0 (ContentRepairAllowance lb)"
proof -
  obtain x w1 where one: "get as_preparation (exec rt RunCtx (readOptions q b) (Lifecycle (GetPreparation (in_OperationID inp) (in_TenantID inp))) w) = (x, w1)"
    by fastforce
  have e1: "extends free_event w w1" by (rule extends_get_exec [OF one]) (simp add: free_event_def)
  have s0: "spent w = 0" "between_rounds rt inp 1 w"
    using assms(3,4) by (simp_all add: spent_def count_events_def between_rounds_def closes_sent_def analyses_succeeded_def used_ids_def)
  have a1: "answered_world rt inp w1" by (rule call_answered [OF assms(2) one]) (use assms(4) in simp)
  have still: "spent v = spent u" if "extends free_event u v" for u v :: "('e \<times> prep_state) world"
    using count_events_extends [OF that] free_not by (simp add: spent_def)
  show ?thesis
  proof (cases x)
    case (Inl err)
    then have "v = unphased (settleOutcome rt RunCtx err ''CONTROL_UNAVAILABLE'' w1) \<and> w' = w1" using assms(1) one by (auto simp: preparation_body_def)
    then show ?thesis using free_keeps [OF e1] still [OF e1] s0 by (simp add: unphased_def)
  next
    case (Inr view)
    let ?f = "Lifecycle (RecordFunding (operation_command inp '':funding''))"
    obtain y w2 where two: "get as_unit (exec rt RunCtx (activityOptions q b) ?f w1) = (y, w2)" by fastforce
    have "extends free_event w1 w2" by (rule extends_get_exec [OF two]) (simp add: free_event_def)
    then have e2: "extends free_event w w2" by (rule extends_trans [OF e1])
    have a2: "answered_world rt inp w2" by (rule call_answered [OF assms(2) two a1])
    show ?thesis
    proof (cases y)
      case (Inl err)
      then have "v = unphased (fundingOutcome rt RunCtx err w2) \<and> w' = w2" using assms(1) one Inr two by (auto simp: preparation_body_def)
      then show ?thesis using free_keeps [OF e2] still [OF e2] s0 by (simp add: unphased_def fundingOutcome_def)
    next
      case funded: (Inr u)
      have b2: "between_rounds rt inp 1 w2" using s0(2) a2 free_extends [OF e2] unfolding between_rounds_def by simp
      obtain res w3 where rounds: "preparation_rounds rt sdk q b lb inp (preparation_defaults view) 1 0 w2 = Some (res, w3)"
        using assms(1) one Inr two funded by (auto simp: preparation_body_def split: option.splits)
      have "spent w2 \<le> 0" using still [OF e2] s0 by simp
      note r = preparation_rounds_does [OF rounds assms(2) b2 _ _ _ this, simplified]
      have k3: "keeps (prep_guard rt inp) w w3" using keeps_trans [OF free_keeps [OF e2]] r by blast
      show ?thesis
      proof (cases res)
        case (Inl v')
        then have "v = v' \<and> w' = w3" using assms(1) one Inr two funded rounds by (simp add: preparation_body_def)
        then show ?thesis using r k3 Inl by simp
      next
        case reqs: (Inr requirements)
        then have fz: "freeze rt q b inp (preparation_defaults view) requirements w3 = (v, w')"
          using assms(1) one Inr two funded rounds by (simp add: preparation_body_def)
        have "answered_world rt inp w3" "closes_sent (trace w3)" "concluded requirements (trace w3)" using r reqs by auto
        from freeze_does [OF fz assms(2) this] keeps_trans [OF k3] r show ?thesis by auto
      qed
    qed
  qed
qed

end
