(* ===== verification/PreparationRuns.thy ===== *)
theory PreparationRuns
  imports PreparationSafe
begin

text \<open>
  A whole \<open>Preparation\<close> run: what it did when it ends, and that it ends within its question rounds.
\<close>

lemma Preparation_does:
  assumes "Preparation rt sdk q b lb inp w = Some (err, w')" "in_Settle inp = None" "handlers_only rt sdk inp" "timers_cancel rt" "trace w = []"
  obtains v w1 where "guarded (prep_guard rt inp) (trace w')"
    "fst v = ''succeeded'' \<longrightarrow> brief_answered (trace w1)"
    "extends (settle_event Disconnected q b (settle_input (in_OperationID inp) (in_TenantID inp)
      \<lparr>sc_CommandID = in_OperationID inp @ '':settle'', sc_Outcome = fst v, sc_FailureCode = fst (snd v), sc_Phase = snd (snd v), sc_Interval = 0\<rparr>)) w1 w'"
    "spent w' \<le> max 0 (ContentRepairAllowance lb)"
proof -
  let ?w0 = "pupd (\<lambda>_. new_prep_state) w"
  obtain v w1 serr w2 s where body: "preparation_body rt sdk q b lb inp ?w0 = Some (v, w1)"
    and se: "settle_end rt q b inp (fst v) (fst (snd v)) (snd (snd v)) w1 = Some (serr, w2)" and w': "w' = w2\<lparr>est := s\<rparr>"
    using assms(1,2) by (auto simp: Preparation_def split: option.splits)
  note does = preparation_body_does [OF body assms(3)]
  have d: "keeps (prep_guard rt inp) ?w0 w1 \<and> (fst v = ''succeeded'' \<longrightarrow> brief_answered (trace w1)) \<and> spent w1 \<le> max 0 (ContentRepairAllowance lb)"
    by (rule does) (use assms(5) in simp_all)
  note ext = settle_end_calls [OF se assms(4)]
  have free: "extends free_event w1 w2" by (rule extends_mono [OF ext settle_event_free])
  have "keeps (prep_guard rt inp) ?w0 w2" by (rule keeps_trans [OF conjunct1 [OF d] free_keeps [OF free]])
  then have "guarded (prep_guard rt inp) (trace w')" using keeps_guarded assms(5) w' by fastforce
  moreover have "spent w' = spent w1" using count_events_extends [OF free] free_not w' by (simp add: spent_def count_events_def)
  ultimately show thesis using that [of v w1] d ext w' by (simp add: extends_def)
qed

section \<open>The run returns\<close>

text \<open>An analysis told to conclude does, or is invalid; \<open>Analysis\<close> is the code that keeps this.\<close>

definition analysis_concludes :: "('e \<times> prep_state) runtime \<Rightarrow> bool" where
  "analysis_concludes rt \<longleftrightarrow> (\<forall>c opts i s ay s'.
     rt_perform rt c opts (Lifecycle (AnalyzeRequirements i)) s = (Inr (RLifecycle (RAnalysis ay)), s') \<longrightarrow> an_MustConclude i \<longrightarrow>
     ay_State ay = ''succeeded'' \<longrightarrow> ay_ErrorCode ay \<noteq> ''CONTENT_INVALID'' \<longrightarrow> ay_Requirements ay \<noteq> '''')"

text \<open>The wait for an answer and the wait for the handlers return.\<close>

definition clarify_returns :: "'e clarify_sdk \<Rightarrow> bool" where
  "clarify_returns sdk \<longleftrightarrow> (\<forall>d s. sdk_clarify sdk d s \<noteq> None) \<and> (\<forall>s. sdk_settled sdk s \<noteq> None)"

lemma round_end_result:
  assumes "round_end lb repairs ay = Some (closing, r)" "rd_FailureCode r = ''''"
    "ay_State ay = ''succeeded'' \<Longrightarrow> ay_ErrorCode ay \<noteq> ''CONTENT_INVALID'' \<Longrightarrow> ay_Requirements ay \<noteq> ''''"
  shows "rd_Requirements r \<noteq> ''''"
  using assms by (auto simp: round_end_def no_result_def Let_def split: if_splits)

lemma analyze_calls_conclude:
  assumes "analyze_calls rt q b lb inp attempt prep given round True call repairs w = ((closing, Inr r, repairs'), w')"
    "analysis_concludes rt" "rd_FailureCode r = ''''"
  shows "rd_Requirements r \<noteq> ''''"
  using assms
proof (induction rt q b lb inp attempt prep given round True call repairs w rule: analyze_calls.induct)
  case (1 rt q b lb inp attempt prep given round call repairs w)
  let ?i = "analysis_input lb inp attempt prep given round True call (now rt w)"
  obtain x w1 where one: "get as_analysis (exec rt RunCtx (analysisOptions q b lb) (Lifecycle (AnalyzeRequirements ?i)) w) = (x, w1)"
    by fastforce
  obtain raw where tr: "x = decode as_analysis raw"
      "rt_perform rt RunCtx (analysisOptions q b lb) (Lifecycle (AnalyzeRequirements ?i)) (est w) = (raw, est w1)"
    using trace_get_exec [OF one] by blast
  obtain ay where ay: "x = Inr ay" using 1(2) one by (cases x) (subst (asm) analyze_calls.simps, simp)
  then have "raw = Inr (RLifecycle (RAnalysis ay))" using tr(1) by (auto simp: decode_Inr dest: sym)
  then have con: "ay_State ay = ''succeeded'' \<Longrightarrow> ay_ErrorCode ay \<noteq> ''CONTENT_INVALID'' \<Longrightarrow> ay_Requirements ay \<noteq> ''''"
    using 1(3) tr(2) unfolding analysis_concludes_def by (metis analysis_input_def analyze_requirements_input.select_convs(11))
  show ?case
  proof (cases "round_end lb repairs ay")
    case (Some p)
    then have "round_end lb repairs ay = Some (fst p, r)" using 1(2) one ay by (subst (asm) analyze_calls.simps) (cases p; simp)
    from round_end_result [OF this 1(4) con] show ?thesis .
  next
    case None
    then have "analyze_calls rt q b lb inp attempt prep given round True (call + 1) (repairs + 1) w1 = ((closing, Inr r, repairs'), w')"
      using 1(2) one ay by (subst (asm) analyze_calls.simps) simp
    from 1(1) [OF one [symmetric] ay None this 1(3,4)] show ?thesis .
  qed
qed

lemma analyzeRound_concludes:
  assumes "analyzeRound rt q b lb inp round prep True repairs w = Some ((Inr r, repairs'), w')" "analysis_concludes rt" "rd_FailureCode r = ''''"
  shows "rd_Requirements r \<noteq> ''''"
proof -
  obtain attempt w1 where one: "get as_attempt (exec rt RunCtx (activityOptions q b) (OpenAttempt (analysis_open inp round)) w) = (Inr attempt, w1)"
    using assms(1) by (auto simp: analyzeRound_def split: sum.splits prod.splits)
  obtain closing res1 rep1 w2 where calls: "analyze_calls rt q b lb inp attempt prep (answers_before round (pst w1)) round True 1 repairs w1
      = ((closing, res1, rep1), w2)"
    by (metis surj_pair)
  have "res1 = Inr r" using assms(1) one calls by (auto simp: analyzeRound_def)
  with calls show ?thesis using analyze_calls_conclude assms(2,3) by blast
qed

lemma analyzeRound_returns:
  assumes "rt_version rt pollChange = 1"
  shows "analyzeRound rt q b lb inp round prep mustConclude repairs w \<noteq> None"
  using closeForSettlement_returns [OF assms] by (auto simp: analyzeRound_def simp del: not_None_eq split: sum.splits prod.splits)

lemma ask_questions_returns:
  assumes "clarify_returns sdk"
  shows "ask_questions rt sdk q b inp round questions w \<noteq> None"
  using assms unfolding clarify_returns_def
  by (auto simp: ask_questions_def Let_def simp del: not_None_eq split_paired_All split: sum.splits prod.splits option.splits)

lemma freeze_quiet:
  assumes "freeze rt q b inp prep requirements w = (v, w')"
  shows "extends (\<lambda>e. \<not> is_asking e) w w'"
proof -
  let ?r = "Lifecycle (FreezeReferences (references_input inp prep))"
  obtain x w1 where one: "get as_frozen (exec rt RunCtx (activityOptions q b) ?r w) = (x, w1)" by fastforce
  have e1: "extends (\<lambda>e. \<not> is_asking e) w w1" by (rule extends_get_exec [OF one]) (simp add: is_asking_def)
  show ?thesis
  proof (cases x)
    case (Inl err)
    then show ?thesis using assms one e1 by (auto simp: freeze_def)
  next
    case (Inr frozen)
    let ?i = "Lifecycle (FreezeBrief (brief_to_freeze inp prep requirements frozen (pst w1)))"
    obtain y w2 where two: "get as_brief (exec rt RunCtx (activityOptions q b) ?i w1) = (y, w2)" by fastforce
    have "extends (\<lambda>e. \<not> is_asking e) w w2" by (rule extends_trans [OF e1], rule extends_get_exec [OF two]) (simp add: is_asking_def)
    moreover have "w' = w2" using assms one Inr two by (cases y) (auto simp: freeze_def)
    ultimately show ?thesis by simp
  qed
qed

lemma preparation_rounds_return:
  assumes "analysis_concludes rt" "clarify_returns sdk" "rt_version rt pollChange = 1" "handlers_only rt sdk inp"
    "between_rounds rt inp round w" "0 < round" "round \<le> pv_MaxRounds prep + 1"
  shows "\<exists>r. preparation_rounds rt sdk q b lb inp prep round repairs w = Some r \<and>
    count_events is_asking (snd r) + round \<le> count_events is_asking w + pv_MaxRounds prep + 1"
  using assms(5-7)
proof (induction "pv_MaxRounds prep + 1 - round" arbitrary: round repairs w rule: less_induct)
  case less
  obtain res rep1 w1 where one: "analyzeRound rt q b lb inp round prep (round > pv_MaxRounds prep) repairs w = Some ((res, rep1), w1)"
    using analyzeRound_returns [OF assms(3)] by (metis not_None_eq surj_pair)
  note a = analyzeRound_does [OF one assms(4) less.prems(1,2)]
  show ?case
  proof (cases "\<exists>r. res = Inr r \<and> rd_FailureCode r = '''' \<and> rd_Requirements r = ''''")
    case False
    then have "\<exists>x. preparation_rounds rt sdk q b lb inp prep round repairs w = Some (x, w1)"
      using one by (subst preparation_rounds.simps) (cases res; auto)
    then show ?thesis using a less.prems(3) by fastforce
  next
    case True
    then obtain r where r: "res = Inr r" "rd_FailureCode r = ''''" "rd_Requirements r = ''''" by blast
    have open_round: "round \<le> pv_MaxRounds prep"
    proof (rule ccontr)
      assume "\<not> round \<le> pv_MaxRounds prep"
      then have "analyzeRound rt q b lb inp round prep True repairs w = Some ((Inr r, rep1), w1)" using one r(1) by simp
      from analyzeRound_concludes [OF this assms(1) r(2)] r(3) show False by simp
    qed
    obtain v w2 where ask: "ask_questions rt sdk q b inp round (rd_Questions r) w1 = Some (v, w2)"
      using ask_questions_returns [OF assms(2)] by (metis not_None_eq surj_pair)
    have b1: "between_rounds rt inp (round + 1) w1" using a r by blast
    note s2 = ask_questions_does [OF ask assms(4) b1]
    have c2: "count_events is_asking w2 = Suc (count_events is_asking w)" using s2 a by simp
    have unf: "preparation_rounds rt sdk q b lb inp prep round repairs w =
        (case v of Some v' \<Rightarrow> Some (Inl v', w2) | None \<Rightarrow> preparation_rounds rt sdk q b lb inp prep (round + 1) rep1 w2)"
      using one r ask by (subst preparation_rounds.simps) (cases v; simp)
    show ?thesis
    proof (cases v)
      case (Some v')
      then show ?thesis using unf c2 open_round by simp
    next
      case None
      have b2: "between_rounds rt inp (round + 1) w2" using s2 by blast
      have "pv_MaxRounds prep + 1 - (round + 1) < pv_MaxRounds prep + 1 - round" using open_round by simp
      from less.hyps [OF this b2 _ _, of rep1] open_round
      obtain r' where "preparation_rounds rt sdk q b lb inp prep (round + 1) rep1 w2 = Some r'"
        "count_events is_asking (snd r') + (round + 1) \<le> count_events is_asking w2 + pv_MaxRounds prep + 1" by auto
      then show ?thesis using unf None c2 by simp
    qed
  qed
qed

definition view_read :: "preparation_view \<Rightarrow> event list \<Rightarrow> bool" where
  "view_read view es \<longleftrightarrow> (\<exists>opts i j. Act RunCtx opts (Lifecycle (GetPreparation i j)) (Inr (RLifecycle (RPreparation view))) \<in> set es)"

lemma view_read_mono: "view_read view es \<Longrightarrow> set es \<subseteq> set es' \<Longrightarrow> view_read view es'"
  unfolding view_read_def by blast

lemma preparation_body_returns:
  assumes "analysis_concludes rt" "clarify_returns sdk" "rt_version rt pollChange = 1" "handlers_only rt sdk inp"
    "trace w = []" "pst w = new_prep_state"
  shows "\<exists>v w'. preparation_body rt sdk q b lb inp w = Some (v, w') \<and>
    (count_events is_asking w' = 0 \<or> (\<exists>view. view_read view (trace w') \<and> count_events is_asking w' \<le> pv_MaxRounds (preparation_defaults view)))"
proof -
  let ?g = "Lifecycle (GetPreparation (in_OperationID inp) (in_TenantID inp))"
  let ?f = "Lifecycle (RecordFunding (operation_command inp '':funding''))"
  obtain x w1 where one: "get as_preparation (exec rt RunCtx (readOptions q b) ?g w) = (x, w1)" by fastforce
  obtain y w2 where two: "get as_unit (exec rt RunCtx (activityOptions q b) ?f w1) = (y, w2)" by fastforce
  have free: "extends free_event w w1" "extends free_event w1 w2"
    by (rule extends_get_exec [OF one], simp add: free_event_def) (rule extends_get_exec [OF two], simp add: free_event_def)
  have none: "count_events is_asking u' = count_events is_asking u" if "extends free_event u u'" for u u' :: "('e \<times> prep_state) world"
    by (rule count_events_extends [OF that]) (auto simp: free_event_def is_asking_def)
  have c1: "count_events is_asking w1 = 0" "count_events is_asking w2 = 0"
    using none [OF free(1)] none [OF free(2)] assms(5) by (simp_all add: count_events_def)
  show ?thesis
  proof (cases "\<exists>view u. x = Inr view \<and> y = Inr u")
    case False
    show ?thesis
    proof (cases x)
      case (Inl err)
      have "preparation_body rt sdk q b lb inp w = Some (unphased (settleOutcome rt RunCtx err ''CONTROL_UNAVAILABLE'' w1), w1)"
        using one Inl by (simp add: preparation_body_def)
      then show ?thesis using c1 by blast
    next
      case (Inr view)
      with False obtain err where "y = Inl err" by (cases y) auto
      then have "preparation_body rt sdk q b lb inp w = Some (unphased (fundingOutcome rt RunCtx err w2), w2)"
        using one Inr two by (simp add: preparation_body_def)
      then show ?thesis using c1 by blast
    qed
  next
    case True
    then obtain view u where v: "x = Inr view" "y = Inr u" by blast
    obtain raw where tr: "trace w1 = Act RunCtx (readOptions q b) ?g raw # trace w" "x = decode as_preparation raw" using trace_get_exec [OF one] by blast
    have "raw = Inr (RLifecycle (RPreparation view))" using tr(2) v(1) by (auto simp: decode_Inr dest: sym)
    then have read1: "view_read view (trace w1)" unfolding view_read_def tr(1) by auto
    have a2: "answered_world rt inp w2"
      by (rule call_answered [OF assms(4) two call_answered [OF assms(4) one]]) (use assms(6) in simp)
    have b2: "between_rounds rt inp 1 w2"
      using a2 free_extends [OF free(1)] free_extends [OF free(2)] assms(5)
      unfolding between_rounds_def closes_sent_def analyses_succeeded_def used_ids_def by auto
    obtain res w3 where rounds: "preparation_rounds rt sdk q b lb inp (preparation_defaults view) 1 0 w2 = Some (res, w3)"
      and c3: "count_events is_asking w3 \<le> pv_MaxRounds (preparation_defaults view)"
      using preparation_rounds_return [OF assms(1-4) b2, where prep = "preparation_defaults view" and q = q and b = b and lb = lb and repairs = 0] c1
      by auto
    have "spent w2 = 0"
      using count_events_extends [OF extends_trans [OF free], of is_analysis] count_events_extends [OF extends_trans [OF free], of is_opening]
        free_not assms(5) by (auto simp: spent_def count_events_def)
    then have "keeps (prep_guard rt inp) w2 w3" using preparation_rounds_does [OF rounds assms(4) b2] by simp
    then have "set (trace w1) \<subseteq> set (trace w3)" using keeps_subset free(2) by (fastforce simp: extends_def)
    then have read3: "view_read view (trace w3)" using read1 unfolding view_read_def by blast
    show ?thesis
    proof (cases res)
      case (Inl v')
      have "preparation_body rt sdk q b lb inp w = Some (v', w3)" using one two v rounds Inl by (simp add: preparation_body_def)
      then show ?thesis using c3 read3 by blast
    next
      case (Inr requirements)
      obtain v' w4 where fz: "freeze rt q b inp (preparation_defaults view) requirements w3 = (v', w4)" by fastforce
      note quiet = freeze_quiet [OF fz]
      have "count_events is_asking w4 = count_events is_asking w3" by (rule count_events_extends [OF quiet])
      moreover have "view_read view (trace w4)" by (rule view_read_mono [OF read3]) (use quiet in \<open>auto simp: extends_def\<close>)
      moreover have "preparation_body rt sdk q b lb inp w = Some (v', w4)" using one two v rounds Inr fz by (simp add: preparation_body_def)
      ultimately show ?thesis using c3 by metis
    qed
  qed
qed

end
