(* ===== verification/Ports.thy ===== *)
theory Ports
  imports Temporal
begin

text \<open>
  The ports an Activity of the worker calls (\<^verbatim>\<open>internal/activities\<close>): Control's artifact
  store, the Model Proxy, Control's effect records and the Pagix side of a registration, a save or
  a release. An Activity is a function of what its ports answer, so they are parameters over a state of their own
  about which nothing is assumed here; \<open>port_world\<close> threads that state with the log of the calls
  made, newest first.
\<close>

section \<open>Model calls (model.go)\<close>

record model_tool_call =
  mt_ToolCallID :: string
  mt_Name :: string
  mt_Arguments :: string
  mt_ArgumentsDigest :: string

record model_message =
  mm_Role :: string
  mm_Content :: string
  mm_ToolCallID :: string
  mm_ToolCalls :: "model_tool_call list"

record model_tool =
  ml_Name :: string
  ml_Description :: string
  ml_InputSchemaDigest :: string

record model_call_input =
  mc_CallID :: string
  mc_TenantID :: string
  mc_OperationID :: string
  mc_AttemptID :: string
  mc_InstanceID :: string
  mc_ExecutionEpoch :: nat
  mc_RouteID :: string
  mc_Messages :: "model_message list"
  mc_Tools :: "model_tool list"
  mc_MaxOutputTokens :: int
  mc_MaxExposure :: money
  mc_Deadline :: time
  mc_SupersedesCallID :: string
  mc_EvidenceRef :: string

record model_call_result =
  mr_CallID :: string
  mr_DispatchID :: string
  mr_State :: string
  mr_Text :: string
  mr_ToolCalls :: "model_tool_call list"
  mr_NativeReference :: string
  mr_ErrorCode :: string
  mr_Frames :: int

section \<open>Release ports (releasetypes.go)\<close>

record file_receipt =
  ft_Path :: string
  ft_Digest :: string
  ft_SizeBytes :: string

record lock_entry =
  lk_SchemaVersion :: int
  lk_ComponentID :: string
  lk_PuckType :: string
  lk_ReleaseID :: string
  lk_PackageName :: string
  lk_PackageVersion :: string
  lk_BrowserManifestDigest :: string
  lk_HostProfileID :: string

record register_review_input =
  gr_Occurrence :: nat
  gr_Lineage :: string
  gr_Subject :: release_subject

record review_ref =
  vw_EffectID :: string
  vw_ReleaseID :: string
  vw_SubjectDigest :: string

record publish_file =
  pf_Path :: string
  pf_Bytes :: string

record publish_input =
  pn_Target :: string
  pn_Occurrence :: nat
  pn_ReleaseID :: string
  pn_Subject :: release_subject
  pn_Destination :: string
  pn_Files :: "publish_file list"
  pn_Manifest :: string

record publish_result =
  pb_State :: string
  pb_Receipt :: string
  pb_FailureCode :: string

record activate_input =
  av_Occurrence :: nat
  av_Subject :: release_subject
  av_Lock :: lock_entry
  av_ExpectedCatalogRevision :: string

record activation_result =
  at_State :: string
  at_Receipt :: string
  at_CurrentCatalogRevision :: string
  at_FailureCode :: string

section \<open>Calls and their log\<close>

text \<open>What is sent upstream under an effect identity.\<close>

datatype sent =
    CandidateSent register_candidate_input
  | SaveSent save_source_input
  | ReviewSent register_review_input
  | PublicationSent publish_input
  | ActivationSent activate_input

record reference_scope =
  es_TenantID :: string
  es_ProjectID :: string
  es_ActorID :: string

record upload =
  up_TenantID :: string
  up_OperationID :: string
  up_CommandID :: string
  up_Class :: string
  up_MediaType :: string
  up_Body :: string

record brief_record =
  bk_OperationID :: string
  bk_TenantID :: string
  bk_CommandID :: string
  bk_Brief :: artifact_binding
  bk_RequirementsDigest :: string
  bk_Sources :: "source_reference list"
  bk_Frozen :: frozen_references
  bk_Identity :: component_identity

record observation =
  ob_TenantID :: string
  ob_EffectID :: string
  ob_Source :: string
  ob_Sequence :: nat
  ob_Outcome :: string
  ob_ReceiptDigest :: string
  ob_Ref :: string
  ob_At :: time

text \<open>A permit is logged with Control's answer, everything else as asked.\<close>

datatype port_event =
    ReadArtifact string string string string int
  | CalledModel model_call_input
  | Uploaded upload
  | RecordedBrief brief_record
  | AskedDigest reference_scope source_reference
  | Prepared string "wf_error + effect_permit"
  | Sent string sent
  | Asked string
  | Observed observation
  | Fetched string string string string

record 's port_world =
  ps :: 's
  plog :: "port_event list"

text \<open>An error of the sources that carries no public code; an error wrapped by \<open>%w\<close> is the error itself.\<close>

definition plain_error :: wf_error where
  "plain_error = ApplicationError '''' False"

definition port :: "port_event \<Rightarrow> ('s \<Rightarrow> 'r \<times> 's) \<Rightarrow> 's port_world \<Rightarrow> 'r \<times> 's port_world" where
  "port e f w = (case f (ps w) of (r, s) \<Rightarrow> (r, \<lparr>ps = s, plog = e # plog w\<rparr>))"

lemma port_result: "port e f w = (r, w') \<longleftrightarrow> f (ps w) = (r, ps w') \<and> plog w' = e # plog w"
  by (cases w') (auto simp: port_def split: prod.splits)

text \<open>Calls kept in a log: the log only grows, by calls a predicate allows.\<close>

definition logs :: "(port_event \<Rightarrow> bool) \<Rightarrow> 's port_world \<Rightarrow> 's port_world \<Rightarrow> bool" where
  "logs P w w' \<longleftrightarrow> (\<exists>new. plog w' = new @ plog w \<and> list_all P new)"

lemma logs_refl [simp, intro]: "logs P w w"
  by (simp add: logs_def)

lemma logs_trans [trans]: "logs P w w1 \<Longrightarrow> logs P w1 w2 \<Longrightarrow> logs P w w2"
  by (fastforce simp: logs_def)

lemma logs_port: "port e f w = (r, w') \<Longrightarrow> P e \<Longrightarrow> logs P w w'"
  by (auto simp: port_result logs_def)

lemma logs_mono: "logs P w w' \<Longrightarrow> (\<And>e. P e \<Longrightarrow> Q e) \<Longrightarrow> logs Q w w'"
  by (auto simp: logs_def list_all_iff)

end
