(* ===== verification/PreparationProofs.thy ===== *)
theory PreparationProofs
  imports PreparationRuns Analysis
begin

text \<open>
  The properties of the \<open>Preparation\<close> workflow: what it sends and freezes, and, over the analysis Activity
  of \<open>Analysis\<close>, that it returns and settles; with a run that asks, finds a late answer and freezes as their example.
\<close>

text \<open>
  An answer is applied once and only to the question set it answers: an id applied before is answered without a call;
  otherwise the answer Control is asked for is recorded only when it was found for the set and revision open by then.
\<close>

lemma answer_handler_applies:
  assumes "answer_handler rt q b inp arg w = (r, w')"
  shows "(au_AnswerID arg \<in> pr_applied (pst w) \<longrightarrow> ur_Outcome r = ''applied'' \<and> w' = w) \<and>
    (au_AnswerID arg \<notin> pr_applied (pst w) \<longrightarrow>
      (\<exists>raw w1. trace w1 = Act RunCtx (activityOptions q b) (get_answer inp (au_AnswerID arg) '''') raw # trace w \<and>
        (ur_Outcome r = ''applied'' \<longrightarrow> (\<exists>ref qs. raw = Inr (RLifecycle (RAnswer ref)) \<and> answer_matches ref (pst w1) qs \<and>
           w' = pupd (apply_answer (au_AnswerID arg) qs ref) w1 \<and> au_AnswerID arg \<in> pr_applied (pst w') \<and>
           pr_answers (pst w') (qs_Round qs) = Some \<lparr>aa_Round = qs_Round qs, aa_Answer = af_Answer ref, aa_Question = qs\<rparr>)) \<and>
        (ur_Outcome r \<noteq> ''applied'' \<longrightarrow> ur_Outcome r = ''rejected'' \<and> w' = w1)))"
proof (cases "au_AnswerID arg \<in> pr_applied (pst w)")
  case True
  then show ?thesis using assms by (auto simp: answer_handler_def)
next
  case False
  obtain x w1 where one: "get as_answer (exec rt RunCtx (activityOptions q b) (get_answer inp (au_AnswerID arg) '''') w) = (x, w1)" by fastforce
  obtain raw where tr: "trace w1 = Act RunCtx (activityOptions q b) (get_answer inp (au_AnswerID arg) '''') raw # trace w" "x = decode as_answer raw"
    using trace_get_exec [OF one] by blast
  have applied: "ur_Outcome r = ''applied'' \<longrightarrow>
      (\<exists>ref qs. x = Inr ref \<and> answer_matches ref (pst w1) qs \<and> w' = pupd (apply_answer (au_AnswerID arg) qs ref) w1)"
    and rejected: "ur_Outcome r \<noteq> ''applied'' \<longrightarrow> ur_Outcome r = ''rejected'' \<and> w' = w1"
    using assms one False by (auto simp: answer_handler_def split: sum.splits option.splits if_splits)
  have "\<exists>ref qs. raw = Inr (RLifecycle (RAnswer ref)) \<and> answer_matches ref (pst w1) qs \<and>
      w' = pupd (apply_answer (au_AnswerID arg) qs ref) w1 \<and> au_AnswerID arg \<in> pr_applied (pst w') \<and>
      pr_answers (pst w') (qs_Round qs) = Some \<lparr>aa_Round = qs_Round qs, aa_Answer = af_Answer ref, aa_Question = qs\<rparr>"
    if ok: "ur_Outcome r = ''applied''"
  proof -
    obtain ref qs where x: "x = Inr ref" and m: "answer_matches ref (pst w1) qs" "w' = pupd (apply_answer (au_AnswerID arg) qs ref) w1"
      using applied ok by blast
    have "raw = Inr (RLifecycle (RAnswer ref))" using tr(2) x by (auto simp: decode_Inr dest: sym)
    with m show ?thesis by (intro exI [of _ ref] exI [of _ qs]) (simp add: apply_answer_def)
  qed
  with rejected tr(1) False show ?thesis by blast
qed

section \<open>Properties\<close>

text \<open>
  C7. The analysis is called once per identity, and a wait begins only after the closes. Each analysis call of a run has an
  identity no earlier call had, is made in an attempt opened for its round, and only after every earlier
  call was answered as succeeded, so an uncertain or failed call is never followed by another; calls beyond one per attempt
  stay within the content repair allowance. A question set is recorded, and the wait for its answer begun, only after a close
  of every attempt the run opened was sent under the attempt's own close command; unless Control refused, or still reconciles,
  every close of an attempt it was sent, all those attempts are then closed. The code only logs a refused close:
  \<open>refused_close_waits\<close> has a run that asks and waits with its attempt open.
\<close>

theorem Preparation_analyzes_once:
  assumes "Preparation rt sdk q b lb inp w = Some (err, w')" "in_Settle inp = None" "handlers_only rt sdk inp" "timers_cancel rt" "trace w = []"
  shows "int (count_events is_analysis w') \<le> int (count_events is_opening w') + max 0 (ContentRepairAllowance lb) \<and>
    (\<forall>later c opts r raw before. trace w' = later @ Act c opts r raw # before \<longrightarrow>
      (\<forall>i. r = Lifecycle (AnalyzeRequirements i) \<longrightarrow> an_CallID i \<notin> used_ids before \<and> analyses_succeeded before \<and>
        (\<exists>attempt. attempt_opened (an_Round i) attempt before \<and> an_AttemptID i = ar_AttemptID attempt)) \<and>
      (\<forall>i. r = Lifecycle (RecordQuestionSet i) \<longrightarrow> analyses_succeeded before \<and> closes_sent before \<and>
        (closes_granted before \<longrightarrow> attempts_closed before)))"
  using assms
proof (rule Preparation_does)
  fix v w1 assume ok: "guarded (prep_guard rt inp) (trace w')" "spent w' \<le> max 0 (ContentRepairAllowance lb)"
  have guard: "prep_guard rt inp before (Act c opts r raw)" if "trace w' = later @ Act c opts r raw # before" for later c opts r raw before
    using guarded_member ok(1) that by metis
  then have "int (count_events is_analysis w') \<le> int (count_events is_opening w') + max 0 (ContentRepairAllowance lb)"
    using ok(2) unfolding spent_def by simp
  then show ?thesis using guard unfolding prep_guard_def by (fastforce intro: closes_end)
qed


section \<open>The run over the analysis Activity\<close>

text \<open>The analyses of a runtime are calls of the Activity.\<close>

definition analysis_served :: "('e \<times> prep_state) runtime \<Rightarrow> codec \<Rightarrow> 's analysis_ports \<Rightarrow> bool" where
  "analysis_served rt jc ap \<longleftrightarrow> (\<forall>c opts i s ay s'.
     rt_perform rt c opts (Lifecycle (AnalyzeRequirements i)) s = (Inr (RLifecycle (RAnalysis ay)), s') \<longrightarrow>
     (\<exists>v v'. analyzeRequirements jc ap i v = (Inr ay, v')))"

lemma served_concludes:
  assumes "analysis_served rt jc ap" "codec_faithful jc"
  shows "analysis_concludes rt"
  unfolding analysis_concludes_def
proof (intro allI impI)
  fix c opts i s ay s'
  assume "rt_perform rt c opts (Lifecycle (AnalyzeRequirements i)) s = (Inr (RLifecycle (RAnalysis ay)), s')" "an_MustConclude i"
    and ok: "ay_State ay = ''succeeded''" "ay_ErrorCode ay \<noteq> ''CONTENT_INVALID''"
  then obtain v v' where "analyzeRequirements jc ap i v = (Inr ay, v')" using assms(1) unfolding analysis_served_def by blast
  then have "concludes jc ay" using analyzeRequirements_ends ok \<open>an_MustConclude i\<close> by blast
  then show "ay_Requirements ay \<noteq> ''''" using assms(2) unfolding concludes_def codec_faithful_def by metis
qed

text \<open>
  C26. A preparation returns and settles. Whatever Control, the model and the users do, with analyses
  served by the Activity a run returns; it asked no more question sets than the rounds the view it read allows;
  its last calls settle the operation under its one settlement command, at least one was sent, and they state
  success only after a brief was answered.
\<close>

theorem Preparation_settles:
  assumes "analysis_served rt jc ap" "codec_faithful jc" "clarify_returns sdk" "rt_version rt pollChange = 1"
    and "handlers_only rt sdk inp" "in_Settle inp = None" "timers_cancel rt" "trace w = []"
  shows "\<exists>err w' v w1. Preparation rt sdk q b lb inp w = Some (err, w') \<and>
    extends (settle_event Disconnected q b (settle_input (in_OperationID inp) (in_TenantID inp)
      \<lparr>sc_CommandID = in_OperationID inp @ '':settle'', sc_Outcome = fst v, sc_FailureCode = fst (snd v), sc_Phase = snd (snd v), sc_Interval = 0\<rparr>)) w1 w' \<and>
    settles w1 < settles w' \<and> (fst v = ''succeeded'' \<longrightarrow> brief_answered (trace w1)) \<and>
    (count_events is_asking w' = 0 \<or> (\<exists>view. view_read view (trace w') \<and> count_events is_asking w' \<le> pv_MaxRounds (preparation_defaults view)))"
proof -
  note concl = served_concludes [OF assms(1,2)]
  let ?w0 = "pupd (\<lambda>_. new_prep_state) w"
  have w0: "trace ?w0 = []" "pst ?w0 = new_prep_state" using assms(8) by simp_all
  obtain v w1 where body: "preparation_body rt sdk q b lb inp ?w0 = Some (v, w1)"
    and rounds: "count_events is_asking w1 = 0 \<or> (\<exists>view. view_read view (trace w1) \<and> count_events is_asking w1 \<le> pv_MaxRounds (preparation_defaults view))"
    using preparation_body_returns [OF concl assms(3-5) w0] by blast
  obtain serr w2 where se: "settle_end rt q b inp (fst v) (fst (snd v)) (snd (snd v)) w1 = Some (serr, w2)"
    using settle_end_returns [OF assms(4)] by fast
  obtain s where s: "sdk_settled sdk (est w2) = Some s" using assms(3) unfolding clarify_returns_def by fast
  have run: "Preparation rt sdk q b lb inp w = Some (serr, w2\<lparr>est := s\<rparr>)"
    using body se s assms(6) by (simp add: Preparation_def)
  note ext = settle_end_calls [OF se assms(7)]
  have sent: "settles w1 < settles w2" by (rule settle_end_sends [OF se assms(7)])
  have asks: "count_events is_asking w2 = count_events is_asking w1"
    by (rule count_events_extends [OF ext]) (auto simp: is_asking_def elim: settle_event.elims)
  have "brief_answered (trace w1)" if "fst v = ''succeeded''"
    using preparation_body_does [OF body assms(5)] assms(8) that by simp
  moreover have "set (trace w1) \<subseteq> set (trace w2)" using ext by (auto simp: extends_def)
  then have "\<exists>view. view_read view (trace w2) \<and> n \<le> pv_MaxRounds (preparation_defaults view)"
    if "\<exists>view. view_read view (trace w1) \<and> n \<le> pv_MaxRounds (preparation_defaults view)" for n
    using that view_read_mono by blast
  ultimately show ?thesis using run ext sent asks rounds
    by (intro exI [of _ serr] exI [of _ "w2\<lparr>est := s\<rparr>"] exI [of _ v] exI [of _ w1]) (auto simp: extends_def settles_def count_events_def)
qed

section \<open>Examples\<close>

text \<open>No Update arrives, and the expiry of a question set is waited for.\<close>

definition silent_sdk :: "script clarify_sdk" where
  "silent_sdk = \<lparr>sdk_clarify = (\<lambda>d s. Some ((None, True), ((fst s)\<lparr>clock := clock (fst s) + max 0 d\<rparr>, snd s))), sdk_settled = Some\<rparr>"

definition preparation_view_example :: preparation_view where
  "preparation_view_example = \<lparr>pv_ActorID = ''u1'', pv_ProjectID = ''p1'', pv_Prompt = example_binding, pv_BrandReferences = [\<lparr>sr_SourceID = ''s1'', sr_Revision = ''1''\<rparr>],
     pv_AssetReferences = [], pv_QuestionSets = [], pv_Brief = None, pv_MaxRounds = 0, pv_MaxQuestions = 0, pv_Wait = minute\<rparr>"

definition asked_set :: question_set_ref where
  "asked_set = \<lparr>qs_QuestionSetID = ''qset_1'', qs_Revision = ''1'', qs_Round = 1, qs_Questions = [\<lparr>qn_QuestionID = ''q1'', qn_Text = ''Which colour?''\<rparr>],
     qs_AskedAt = 0, qs_ExpiresAt = minute, qs_State = ''open''\<rparr>"

definition frozen_example :: frozen_references where
  "frozen_example = \<lparr>fz_BrandDigests = [\<lparr>cd_SourceID = ''s1'', cd_Revision = ''1'', cd_Digest = ''sha256:d''\<rparr>], fz_AssetDigests = []\<rparr>"

definition analyzed :: "string \<Rightarrow> question list \<Rightarrow> response" where
  "analyzed requirements questions = RLifecycle (RAnalysis \<lparr>ay_CallID = ''c'', ay_State = ''succeeded'', ay_ErrorCode = '''',
     ay_Requirements = requirements, ay_Questions = questions\<rparr>)"

lemma still_handled: "handlers_only (beside scripted) silent_sdk inp"
  by (auto simp: handlers_only_def scripted_def script_perform_def silent_sdk_def split: prod.splits list.splits intro: handled.intros)

definition at_answers :: "(wf_error + response) list \<Rightarrow> time \<Rightarrow> prep_state \<Rightarrow> event list \<Rightarrow> (script \<times> prep_state) world" where
  "at_answers as t g es = \<lparr>est = (\<lparr>answers = as, clock = t\<rparr>, g), trace = es\<rparr>"

lemmas scripted_step = at_answers_def script_simps pst_def pupd_def Let_def

text \<open>A round of one call, its close accepted.\<close>

lemma example_analysis_round:
  assumes "round_end lb repairs \<lparr>ay_CallID = ''c'', ay_State = ''succeeded'', ay_ErrorCode = '''', ay_Requirements = req, ay_Questions = qs\<rparr> =
    Some ((''completed'', ''''), r)"
  shows "\<exists>t' es'. analyzeRound (beside scripted) example_queues example_bounds lb inp round prep must repairs
      (at_answers (Inr (RAttempt a) # Inr (analyzed req qs) # Inr (RClose \<lparr>cr_Lifecycle = ''completed''\<rparr>) # rest) t g es) =
    Some ((Inr r, repairs), at_answers rest t' g es')"
  using assms by (simp add: analyzeRound_def analyze_calls.simps closeForSettlement_def closeAttemptFrom_def close_loop.simps close_waits_def analyzed_def scripted_step)

lemma example_asked:
  assumes "qs_QuestionSetID qs = ''qset_1''" "qs_Revision qs = ''1''" "af_Found ref" "af_QuestionSetRevision ref = ''1''"
  shows "\<exists>t' es'. ask_questions (beside scripted) silent_sdk example_queues example_bounds inp round questions
      (at_answers (Inr (RLifecycle (RQuestionSet qs)) # Inr (RLifecycle (RAnswer ref)) # rest) t new_prep_state es) =
    Some (None, at_answers rest t' ((apply_answer (af_AnswerID ref) qs ref new_prep_state)\<lparr>pr_open := None\<rparr>) es')"
  using assms by (simp add: ask_questions_def late_answer_def silent_sdk_def new_prep_state_def apply_answer_def scripted_step)

definition late_ref :: answer_ref where
  "late_ref = \<lparr>af_Found = True, af_AnswerID = ''a1'', af_QuestionSetID = ''qset_1'', af_QuestionSetRevision = ''1'', af_Answer = example_binding, af_Relay = ''''\<rparr>"

definition answered_state :: prep_state where
  "answered_state = (apply_answer ''a1'' asked_set late_ref new_prep_state)\<lparr>pr_open := None\<rparr>"

definition rounds_answers :: "(wf_error + response) list" where
  "rounds_answers = [Inr (RAttempt example_attempt), Inr (analyzed '''' (qs_Questions asked_set)), Inr (RClose \<lparr>cr_Lifecycle = ''completed''\<rparr>),
     Inr (RLifecycle (RQuestionSet asked_set)), Inr (RLifecycle (RAnswer late_ref)),
     Inr (RAttempt (example_attempt\<lparr>ar_AttemptID := ''att_2''\<rparr>)), Inr (analyzed ''requirements'' []), Inr (RClose \<lparr>cr_Lifecycle = ''completed''\<rparr>)]"

lemma example_rounds:
  assumes "pv_MaxRounds prep = 2"
  shows "\<exists>t' es'. preparation_rounds (beside scripted) silent_sdk example_queues example_bounds example_lifecycle inp prep 1 0
      (at_answers (rounds_answers @ rest) t new_prep_state es) = Some (Inr ''requirements'', at_answers rest t' answered_state es')"
proof -
  let ?r1 = "no_result\<lparr>rd_Questions := qs_Questions asked_set\<rparr>" and ?r2 = "no_result\<lparr>rd_Requirements := ''requirements''\<rparr>"
  let ?rest2 = "Inr (RAttempt (example_attempt\<lparr>ar_AttemptID := ''att_2''\<rparr>)) # Inr (analyzed ''requirements'' []) # Inr (RClose \<lparr>cr_Lifecycle = ''completed''\<rparr>) # rest"
  let ?rest1 = "Inr (RLifecycle (RQuestionSet asked_set)) # Inr (RLifecycle (RAnswer late_ref)) # ?rest2"
  have end1: "round_end example_lifecycle 0 \<lparr>ay_CallID = ''c'', ay_State = ''succeeded'', ay_ErrorCode = '''', ay_Requirements = '''',
      ay_Questions = qs_Questions asked_set\<rparr> = Some ((''completed'', ''''), ?r1)" by (simp add: round_end_def)
  have end2: "round_end example_lifecycle 0 \<lparr>ay_CallID = ''c'', ay_State = ''succeeded'', ay_ErrorCode = '''', ay_Requirements = ''requirements'',
      ay_Questions = []\<rparr> = Some ((''completed'', ''''), ?r2)" by (simp add: round_end_def)
  obtain t1 es1 where one: "analyzeRound (beside scripted) example_queues example_bounds example_lifecycle inp 1 prep False 0
      (at_answers (rounds_answers @ rest) t new_prep_state es) = Some ((Inr ?r1, 0), at_answers ?rest1 t1 new_prep_state es1)"
    using example_analysis_round [OF end1, of inp 1 prep False example_attempt ?rest1 t new_prep_state es] by (auto simp: rounds_answers_def)
  obtain t2 es2 where two: "ask_questions (beside scripted) silent_sdk example_queues example_bounds inp 1 (qs_Questions asked_set)
      (at_answers ?rest1 t1 new_prep_state es1) = Some (None, at_answers ?rest2 t2 answered_state es2)"
    using example_asked [of asked_set late_ref inp 1 "qs_Questions asked_set" ?rest2 t1 es1] by (auto simp: asked_set_def late_ref_def answered_state_def)
  obtain t3 es3 where three: "analyzeRound (beside scripted) example_queues example_bounds example_lifecycle inp 2 prep False 0
      (at_answers ?rest2 t2 answered_state es2) = Some ((Inr ?r2, 0), at_answers rest t3 answered_state es3)"
    using example_analysis_round [OF end2, of inp 2 prep False] by blast
  have last: "preparation_rounds (beside scripted) silent_sdk example_queues example_bounds example_lifecycle inp prep 2 0
      (at_answers ?rest2 t2 answered_state es2) = Some (Inr ''requirements'', at_answers rest t3 answered_state es3)"
    using three assms by (subst preparation_rounds.simps) (simp add: no_result_def)
  have first: "(1 > pv_MaxRounds prep) = False" "1 + 1 = (2 :: nat)" using assms by simp_all
  show ?thesis
    unfolding preparation_rounds.simps [of "beside scripted" silent_sdk _ _ _ _ _ 1] first one using two last by (simp add: no_result_def) blast
qed

fun carries_answers :: "event \<Rightarrow> bool" where
  "carries_answers (Act c opts (Lifecycle (FreezeBrief i)) raw) \<longleftrightarrow> fb_Answers i \<noteq> []"
| "carries_answers _ \<longleftrightarrow> False"

definition preparation_answers :: "(wf_error + response) list" where
  "preparation_answers = Inr (RLifecycle (RPreparation preparation_view_example)) # Inr RUnit # rounds_answers @
     map Inr [RLifecycle (RFrozen frozen_example),
       RLifecycle (RBrief \<lparr>br_BriefID = ''b1'', br_Brief = example_binding, br_RequirementsDigest = ''sha256:r'', br_Revision = ''1'', br_State = ''frozen''\<rparr>),
       ROperation \<lparr>op_Lifecycle = ''completed'', op_Phase = '''', op_Revision = ''''\<rparr>]"

definition prep_start :: "(wf_error + response) list \<Rightarrow> (script \<times> prep_state) world" where
  "prep_start as = at_answers as 0 new_prep_state []"

lemma answered_before: "answers_before 3 answered_state \<noteq> []"
  by (simp add: answers_before_def answered_state_def apply_answer_def asked_set_def map_filter_simps upt_rec)

lemma example_preparation:
  "\<exists>w'. Preparation (beside scripted) silent_sdk example_queues example_bounds example_lifecycle example_input (prep_start preparation_answers) = Some (None, w') \<and>
    list_ex carries_answers (trace w')"
proof -
  let ?prep = "preparation_defaults preparation_view_example"
  let ?rest = "map Inr [RLifecycle (RFrozen frozen_example),
       RLifecycle (RBrief \<lparr>br_BriefID = ''b1'', br_Brief = example_binding, br_RequirementsDigest = ''sha256:r'', br_Revision = ''1'', br_State = ''frozen''\<rparr>),
       ROperation \<lparr>op_Lifecycle = ''completed'', op_Phase = '''', op_Revision = ''''\<rparr>]"
  have bound: "pv_MaxRounds ?prep = 2" by (simp add: preparation_defaults_def preparation_view_example_def)
  obtain t es where view: "get as_preparation (exec (beside scripted) RunCtx (readOptions example_queues example_bounds)
        (Lifecycle (GetPreparation (in_OperationID example_input) (in_TenantID example_input))) (pupd (\<lambda>_. new_prep_state) (prep_start preparation_answers))) =
      (Inr preparation_view_example, at_answers (Inr RUnit # rounds_answers @ ?rest) t new_prep_state es)"
    by (simp add: prep_start_def preparation_answers_def scripted_step)
  obtain t1 es1 where funded: "get as_unit (exec (beside scripted) RunCtx (activityOptions example_queues example_bounds)
        (Lifecycle (RecordFunding (operation_command example_input '':funding''))) (at_answers (Inr RUnit # rounds_answers @ ?rest) t new_prep_state es)) =
      (Inr (), at_answers (rounds_answers @ ?rest) t1 new_prep_state es1)"
    by (simp add: scripted_step)
  obtain t2 es2 where rounds: "preparation_rounds (beside scripted) silent_sdk example_queues example_bounds example_lifecycle example_input ?prep 1 0
      (at_answers (rounds_answers @ ?rest) t1 new_prep_state es1) = Some (Inr ''requirements'', at_answers ?rest t2 answered_state es2)"
    using example_rounds [OF bound] by blast
  obtain t3 es3 where frozen: "freeze (beside scripted) example_queues example_bounds example_input ?prep ''requirements''
      (at_answers ?rest t2 answered_state es2) = ((''succeeded'', '''', ''brief_frozen''), at_answers [Inr (ROperation \<lparr>op_Lifecycle = ''completed'', op_Phase = '''', op_Revision = ''''\<rparr>)]
        t3 answered_state es3) \<and> list_ex carries_answers es3"
    using answered_before by (simp add: freeze_def brief_to_freeze_def bound scripted_step)
  have body: "preparation_body (beside scripted) silent_sdk example_queues example_bounds example_lifecycle example_input
      (pupd (\<lambda>_. new_prep_state) (prep_start preparation_answers)) = Some ((''succeeded'', '''', ''brief_frozen''),
        at_answers [Inr (ROperation \<lparr>op_Lifecycle = ''completed'', op_Phase = '''', op_Revision = ''''\<rparr>)] t3 answered_state es3)"
    unfolding preparation_body_def view using funded rounds frozen by simp
  have "\<exists>w'. settle_end (beside scripted) example_queues example_bounds example_input ''succeeded'' '''' ''brief_frozen''
      (at_answers [Inr (ROperation \<lparr>op_Lifecycle = ''completed'', op_Phase = '''', op_Revision = ''''\<rparr>)] t3 answered_state es3) = Some (None, w') \<and>
      list_ex carries_answers (trace w')"
    using frozen by (simp add: settle_end_def settleOperation_def settleWith_def settle_loop.simps settle_input_def scripted_step example_bounds_def)
  then show ?thesis using body by (auto simp: Preparation_def silent_sdk_def example_input_def)
qed

lemma preparation_premises: "in_Settle example_input = None" "timers_cancel (beside scripted)" "trace (prep_start as) = []"
  by (simp_all add: example_input_def beside_timers [OF scripted_timers] prep_start_def at_answers_def)


text \<open>
  A run of one round that asks, waits its question set out and settles as expired, with the close of its attempt answered as \<open>closing\<close>.
\<close>

definition question_answers :: "wf_error + response \<Rightarrow> (wf_error + response) list" where
  "question_answers closing = [Inr (RLifecycle (RPreparation preparation_view_example)), Inr RUnit, Inr (RAttempt example_attempt),
     Inr (analyzed '''' (qs_Questions asked_set)), closing, Inr (RLifecycle (RQuestionSet asked_set)),
     Inr (RLifecycle (RAnswer (late_ref\<lparr>af_Found := False\<rparr>))), Inr (ROperation \<lparr>op_Lifecycle = ''completed'', op_Phase = '''', op_Revision = ''''\<rparr>)]"

definition ends_close :: "wf_error + response \<Rightarrow> bool" where
  "ends_close closing \<longleftrightarrow> (\<exists>err. closing = Inl err) \<or> closing = Inr (RClose \<lparr>cr_Lifecycle = ''completed''\<rparr>)"

definition opened_any :: "event list \<Rightarrow> bool" where
  "opened_any es \<longleftrightarrow> (\<exists>c opts i a. Act c opts (OpenAttempt i) (Inr (RAttempt a)) \<in> set es)"

definition all_closes :: "(wf_error + response \<Rightarrow> bool) \<Rightarrow> event list \<Rightarrow> bool" where
  "all_closes K es \<longleftrightarrow> (\<forall>c opts i res. Act c opts (CloseAttempt i) res \<in> set es \<longrightarrow> K res)"

lemma all_closes_Cons: "all_closes K es \<Longrightarrow> (\<And>c opts i res. e = Act c opts (CloseAttempt i) res \<Longrightarrow> K res) \<Longrightarrow> all_closes K (e # es)"
  unfolding all_closes_def by (metis set_ConsD)

lemma all_closes_simps [simp]: "all_closes K []" "all_closes K (es @ es') \<longleftrightarrow> all_closes K es \<and> all_closes K es'"
  by (auto simp: all_closes_def)

lemma question_round:
  assumes "round_end lb repairs \<lparr>ay_CallID = ''c'', ay_State = ''succeeded'', ay_ErrorCode = '''', ay_Requirements = req, ay_Questions = qs\<rparr> =
    Some ((''completed'', ''''), r)" "ends_close closing" "K closing"
  shows "\<exists>t' es'. analyzeRound (beside scripted) example_queues example_bounds lb inp round prep must repairs
      (at_answers (Inr (RAttempt a) # Inr (analyzed req qs) # closing # rest) t g es) = Some ((Inr r, repairs), at_answers rest t' g (es' @ es)) \<and>
    opened_any es' \<and> all_closes K es'"
  using assms(2)
  unfolding ends_close_def
proof
  assume "\<exists>err. closing = Inl err"
  then show ?thesis using assms(1,3)
    by (auto simp: analyzeRound_def analyze_calls.simps closeForSettlement_def closeAttemptFrom_def close_loop.simps close_waits_def analyzed_def
        opened_any_def all_closes_def scripted_step)
next
  assume "closing = Inr (RClose \<lparr>cr_Lifecycle = ''completed''\<rparr>)"
  then show ?thesis using assms(1,3)
    by (auto simp: analyzeRound_def analyze_calls.simps closeForSettlement_def closeAttemptFrom_def close_loop.simps close_waits_def analyzed_def
        opened_any_def all_closes_def scripted_step)
qed

lemma expired_wait:
  assumes "opened_any es" "all_closes K es"
  shows "\<exists>t' es'. ask_questions (beside scripted) silent_sdk example_queues example_bounds inp round questions
      (at_answers (Inr (RLifecycle (RQuestionSet asked_set)) # Inr (RLifecycle (RAnswer (late_ref\<lparr>af_Found := False\<rparr>))) # rest) t new_prep_state es) =
    Some (Some (''failed'', ''CLARIFICATION_EXPIRED'', ''clarification_expired''), at_answers rest t' (new_prep_state\<lparr>pr_open := None\<rparr>) es') \<and>
    asked asked_set es' \<and> opened_any es' \<and> all_closes K es'"
  using assms
  by (auto simp: ask_questions_def late_answer_def silent_sdk_def late_ref_def asked_def scripted_step get_answer_def new_prep_state_def opened_any_def
      intro!: all_closes_Cons exI)

lemma question_run:
  assumes "ends_close closing" "K closing"
  shows "\<exists>w'. Preparation (beside scripted) silent_sdk example_queues example_bounds example_lifecycle example_input (prep_start (question_answers closing))
      = Some (None, w') \<and> asked asked_set (trace w') \<and> opened_any (trace w') \<and> all_closes K (trace w')"
proof -
  let ?prep = "preparation_defaults preparation_view_example" and ?r = "no_result\<lparr>rd_Questions := qs_Questions asked_set\<rparr>"
  let ?v = "(''failed'', ''CLARIFICATION_EXPIRED'', ''clarification_expired'')"
  let ?done = "[Inr (ROperation \<lparr>op_Lifecycle = ''completed'', op_Phase = '''', op_Revision = ''''\<rparr>)]"
  let ?asked = "Inr (RLifecycle (RQuestionSet asked_set)) # Inr (RLifecycle (RAnswer (late_ref\<lparr>af_Found := False\<rparr>))) # ?done"
  let ?rounds = "Inr (RAttempt example_attempt) # Inr (analyzed '''' (qs_Questions asked_set)) # closing # ?asked"
  obtain t es where view: "get as_preparation (exec (beside scripted) RunCtx (readOptions example_queues example_bounds)
        (Lifecycle (GetPreparation (in_OperationID example_input) (in_TenantID example_input))) (pupd (\<lambda>_. new_prep_state) (prep_start (question_answers closing)))) =
      (Inr preparation_view_example, at_answers (Inr RUnit # ?rounds) t new_prep_state es)" "all_closes K es"
    by (simp add: prep_start_def question_answers_def scripted_step all_closes_def)
  obtain t1 es1 where funded: "get as_unit (exec (beside scripted) RunCtx (activityOptions example_queues example_bounds)
        (Lifecycle (RecordFunding (operation_command example_input '':funding''))) (at_answers (Inr RUnit # ?rounds) t new_prep_state es)) =
      (Inr (), at_answers ?rounds t1 new_prep_state es1)" "all_closes K es1"
    using view(2) by (simp add: scripted_step all_closes_def)
  have end1: "round_end example_lifecycle 0 \<lparr>ay_CallID = ''c'', ay_State = ''succeeded'', ay_ErrorCode = '''', ay_Requirements = '''',
      ay_Questions = qs_Questions asked_set\<rparr> = Some ((''completed'', ''''), ?r)" by (simp add: round_end_def)
  obtain t2 es2 where one: "analyzeRound (beside scripted) example_queues example_bounds example_lifecycle example_input 1 ?prep (1 > pv_MaxRounds ?prep) 0
      (at_answers ?rounds t1 new_prep_state es1) = Some ((Inr ?r, 0), at_answers ?asked t2 new_prep_state (es2 @ es1))"
    and es2: "opened_any es2" "all_closes K es2"
    using question_round [where K = K, OF end1 assms, of example_input 1 ?prep "1 > pv_MaxRounds ?prep" example_attempt ?asked t1 new_prep_state es1] by blast
  have "opened_any (es2 @ es1)" "all_closes K (es2 @ es1)" using es2 funded(2) by (auto simp: opened_any_def)
  then obtain t3 es3 where two: "ask_questions (beside scripted) silent_sdk example_queues example_bounds example_input 1 (qs_Questions asked_set)
      (at_answers ?asked t2 new_prep_state (es2 @ es1)) = Some (Some ?v, at_answers ?done t3 (new_prep_state\<lparr>pr_open := None\<rparr>) es3)"
    and es3: "asked asked_set es3" "opened_any es3" "all_closes K es3"
    using expired_wait by blast
  have rounds: "preparation_rounds (beside scripted) silent_sdk example_queues example_bounds example_lifecycle example_input ?prep 1 0
      (at_answers ?rounds t1 new_prep_state es1) = Some (Inl ?v, at_answers ?done t3 (new_prep_state\<lparr>pr_open := None\<rparr>) es3)"
    unfolding preparation_rounds.simps [of "beside scripted" silent_sdk _ _ _ _ _ 1] one using two by (simp add: no_result_def)
  have body: "preparation_body (beside scripted) silent_sdk example_queues example_bounds example_lifecycle example_input
      (pupd (\<lambda>_. new_prep_state) (prep_start (question_answers closing))) = Some (?v, at_answers ?done t3 (new_prep_state\<lparr>pr_open := None\<rparr>) es3)"
    unfolding preparation_body_def view(1) using funded(1) rounds by simp
  have "\<exists>w'. settle_end (beside scripted) example_queues example_bounds example_input ''failed'' ''CLARIFICATION_EXPIRED'' ''clarification_expired''
      (at_answers ?done t3 (new_prep_state\<lparr>pr_open := None\<rparr>) es3) = Some (None, w') \<and> asked asked_set (trace w') \<and> opened_any (trace w') \<and> all_closes K (trace w')"
    using es3 asked_mono [OF es3(1), of "_ # es3"]
    by (auto simp: settle_end_def settleOperation_def settleWith_def settle_loop.simps settle_input_def scripted_step example_bounds_def opened_any_def
        intro!: all_closes_Cons)
  then show ?thesis using body by (auto simp: Preparation_def silent_sdk_def example_input_def)
qed

text \<open>
  The close of the asking round is refused, the refusal is logged, and the question set is recorded: the run waits for its
  answer with the attempt open. The comment of \<open>Preparation\<close> has the attempt closed before the wait.
\<close>

lemma refused_close_waits:
  "\<exists>w'. Preparation (beside scripted) silent_sdk example_queues example_bounds example_lifecycle example_input
      (prep_start (question_answers (Inl (ApplicationError ''CONFLICT'' True)))) = Some (None, w') \<and>
    asked asked_set (trace w') \<and> \<not> attempts_closed (trace w')"
proof -
  let ?refused = "Inl (ApplicationError ''CONFLICT'' True)"
  have "ends_close ?refused" "\<not> close_granted ?refused" by (simp_all add: ends_close_def close_granted_def)
  from question_run [of _ "\<lambda>res. \<not> close_granted res", OF this]
  show ?thesis unfolding opened_any_def all_closes_def attempts_closed_def attempt_closed_def by blast
qed

text \<open>The same run with its close granted.\<close>

theorem Preparation_analyzes_once_witness:
  "\<exists>w' later c opts i raw before. Preparation (beside scripted) silent_sdk example_queues example_bounds example_lifecycle example_input
      (prep_start (question_answers (Inr (RClose \<lparr>cr_Lifecycle = ''completed''\<rparr>)))) = Some (None, w') \<and>
    trace w' = later @ Act c opts (Lifecycle (RecordQuestionSet i)) raw # before \<and> analyses_succeeded before \<and> attempts_closed before \<and>
    int (count_events is_analysis w') \<le> int (count_events is_opening w') + 1"
proof -
  let ?granted = "Inr (RClose \<lparr>cr_Lifecycle = ''completed''\<rparr>)"
  have "ends_close ?granted" "close_granted ?granted" by (simp_all add: ends_close_def close_granted_def)
  from question_run [of _ close_granted, OF this] obtain w' where
    run: "Preparation (beside scripted) silent_sdk example_queues example_bounds example_lifecycle example_input (prep_start (question_answers ?granted)) = Some (None, w')"
    and shown: "asked asked_set (trace w')" "all_closes close_granted (trace w')" by blast
  obtain later c opts i raw before where tr: "trace w' = later @ Act c opts (Lifecycle (RecordQuestionSet i)) raw # before"
    using shown(1) unfolding asked_def by (metis split_list)
  have "all_closes close_granted before" using shown(2) unfolding tr all_closes_def by auto
  then have "closes_granted before" unfolding closes_granted_def close_outstanding_def close_sent_def all_closes_def by blast
  with Preparation_analyzes_once [OF run preparation_premises(1) still_handled preparation_premises(2,3)] tr run show ?thesis
    by (fastforce simp: example_lifecycle_def)
qed

text \<open>A runtime whose analyses are calls of the Activity, over a model that concludes.\<close>

definition served_perform :: "wctx \<Rightarrow> activity_options \<Rightarrow> request \<Rightarrow> script \<times> prep_state \<Rightarrow> (wf_error + response) \<times> script \<times> prep_state" where
  "served_perform c opts r s =
     (case r of
        Lifecycle (AnalyzeRequirements i) \<Rightarrow>
          (case fst (analyzeRequirements example_codec concluding_ports i \<lparr>ps = (), plog = []\<rparr>) of
             Inl err \<Rightarrow> (Inl err, s) | Inr ay \<Rightarrow> (Inr (RLifecycle (RAnalysis ay)), s))
      | _ \<Rightarrow> rt_perform (beside scripted) c opts r s)"

definition served :: "(script \<times> prep_state) runtime" where
  "served = (beside scripted)\<lparr>rt_perform := served_perform\<rparr>"

lemma served_analyses: "analysis_served served example_codec (concluding_ports :: unit analysis_ports)"
proof -
  have "\<exists>v v'. analyzeRequirements example_codec (concluding_ports :: unit analysis_ports) i v = (Inr ay, v')"
    if "served_perform c opts (Lifecycle (AnalyzeRequirements i)) s = (Inr (RLifecycle (RAnalysis ay)), s')" for c opts i s ay s'
  proof -
    have "fst (analyzeRequirements example_codec (concluding_ports :: unit analysis_ports) i \<lparr>ps = (), plog = []\<rparr>) = Inr ay"
      using that by (simp add: served_perform_def split: sum.splits)
    then show ?thesis by (metis prod.collapse)
  qed
  then show ?thesis unfolding analysis_served_def served_def by auto
qed

lemma served_handled: "handlers_only served silent_sdk inp"
  by (auto simp: handlers_only_def served_def served_perform_def scripted_def script_perform_def silent_sdk_def
      split: prod.splits list.splits sum.splits request.splits lifecycle_request.splits intro: handled.intros)

theorem Preparation_settles_witness:
  "\<exists>err w' (w1 :: (script \<times> prep_state) world). Preparation served silent_sdk example_queues example_bounds example_lifecycle example_input (prep_start []) = Some (err, w') \<and>
    settles w1 < settles w'"
proof -
  have "clarify_returns silent_sdk" "rt_version served pollChange = 1" "timers_cancel served"
    using preparation_premises(2) by (simp_all add: clarify_returns_def silent_sdk_def served_def scripted_def timers_cancel_def)
  from Preparation_settles [where q = example_queues and b = example_bounds and lb = example_lifecycle, OF served_analyses example_codec_faithful this(1,2) served_handled preparation_premises(1) this(3) preparation_premises(3), of "[]"]
  show ?thesis by blast
qed

end
