(* ===== verification/Effects.thy ===== *)
theory Effects
  imports Ports
begin

text \<open>
  The permit protocol of every business write (\<^verbatim>\<open>RegisterCandidate\<close> of
  \<^verbatim>\<open>internal/activities/lifecycle.go\<close>, \<^verbatim>\<open>SaveSource\<close> of \<^verbatim>\<open>preview.go\<close>,
  \<^verbatim>\<open>guarded\<close> of \<^verbatim>\<open>release.go\<close>): Control prepares the effect under the command and permits it at
  most once; the call that consumed the permit sends once under the effect identity; every later call asks the
  upstream about that identity. The ports may fail at any call, also after the upstream took what was
  sent; a worker that dies between two calls is a port that failed at the next one.
\<close>

section \<open>Ports\<close>

record 's effect_ports =
  fp_PrepareEffect :: "register_candidate_input \<Rightarrow> 's \<Rightarrow> (wf_error + effect_permit) \<times> 's"
  fp_PrepareReleaseEffect :: "release_effect_input \<Rightarrow> 's \<Rightarrow> (wf_error + effect_permit) \<times> 's"
  fp_ObserveEffect :: "observation \<Rightarrow> 's \<Rightarrow> wf_error option \<times> 's"
  fp_RegisterCandidate :: "string \<Rightarrow> register_candidate_input \<Rightarrow> 's \<Rightarrow> (wf_error + candidate_ref) \<times> 's"
  fp_QueryRegistration :: "string \<Rightarrow> 's \<Rightarrow> (wf_error + candidate_ref \<times> bool) \<times> 's"
  fp_SaveRevision :: "string \<Rightarrow> save_source_input \<Rightarrow> 's \<Rightarrow> (wf_error + save_source_result) \<times> 's"
  fp_QuerySave :: "string \<Rightarrow> 's \<Rightarrow> (wf_error + save_source_result \<times> bool) \<times> 's"
  fp_RegisterReview :: "string \<Rightarrow> register_review_input \<Rightarrow> 's \<Rightarrow> (wf_error + review_ref) \<times> 's"
  fp_QueryReview :: "string \<Rightarrow> 's \<Rightarrow> (wf_error + review_ref \<times> bool) \<times> 's"
  fp_Publish :: "string \<Rightarrow> publish_input \<Rightarrow> 's \<Rightarrow> (wf_error + publish_result) \<times> 's"
  fp_QueryPublication :: "string \<Rightarrow> 's \<Rightarrow> (wf_error + publish_result \<times> bool) \<times> 's"
  fp_FetchPublished :: "string \<Rightarrow> string \<Rightarrow> string \<Rightarrow> string \<Rightarrow> 's \<Rightarrow> (wf_error + string) \<times> 's"
  fp_Activate :: "string \<Rightarrow> activate_input \<Rightarrow> 's \<Rightarrow> (wf_error + activation_result) \<times> 's"
  fp_QueryActivation :: "string \<Rightarrow> 's \<Rightarrow> (wf_error + activation_result \<times> bool) \<times> 's"
  fp_Read :: "string \<Rightarrow> string \<Rightarrow> string \<Rightarrow> string \<Rightarrow> int \<Rightarrow> 's \<Rightarrow> (wf_error + string) \<times> 's"
  fp_Now :: "'s \<Rightarrow> time"

definition observe_effect :: "'s effect_ports \<Rightarrow> string \<Rightarrow> string \<Rightarrow> string \<Rightarrow> string \<Rightarrow> string \<Rightarrow> string \<Rightarrow> 's port_world \<Rightarrow>
    wf_error option \<times> 's port_world" where
  "observe_effect pt tenantID effectID source outcome receiptDigest nref w =
     (let ob = \<lparr>ob_TenantID = tenantID, ob_EffectID = effectID, ob_Source = source, ob_Sequence = 1, ob_Outcome = outcome,
        ob_ReceiptDigest = receiptDigest, ob_Ref = nref, ob_At = fp_Now pt (ps w)\<rparr> in
      port (Observed ob) (fp_ObserveEffect pt ob) w)"

text \<open>The permit, logged with Control's answer.\<close>

definition prepared :: "string \<Rightarrow> ('s \<Rightarrow> (wf_error + effect_permit) \<times> 's) \<Rightarrow> 's port_world \<Rightarrow> (wf_error + effect_permit) \<times> 's port_world" where
  "prepared commandID f w = (case f (ps w) of (r, s) \<Rightarrow> (r, \<lparr>ps = s, plog = Prepared commandID r # plog w\<rparr>))"

section \<open>The candidate registration\<close>

definition candidate_answer :: "string \<Rightarrow> string \<Rightarrow> string \<Rightarrow> string \<Rightarrow> candidate_ref" where
  "candidate_answer effectID state candidateID denialCode =
     \<lparr>cf_EffectID = effectID, cf_State = state, cf_CandidateID = candidateID, cf_Revision = '''', cf_DenialCode = denialCode\<rparr>"

definition observe_candidate :: "'s effect_ports \<Rightarrow> string \<Rightarrow> string \<Rightarrow> string \<Rightarrow> candidate_ref \<Rightarrow> 's port_world \<Rightarrow>
    (wf_error + candidate_ref) \<times> 's port_world" where
  "observe_candidate pt tenantID effectID source reg w =
     (case observe_effect pt tenantID effectID source (cf_State reg) (cf_Revision reg) (cf_CandidateID reg) w of
        (Some err, w1) \<Rightarrow> (Inl err, w1)
      | (None, w1) \<Rightarrow> (Inr (reg\<lparr>cf_EffectID := effectID\<rparr>), w1))"

definition query_candidate :: "'s effect_ports \<Rightarrow> string \<Rightarrow> string \<Rightarrow> 's port_world \<Rightarrow> (wf_error + candidate_ref) \<times> 's port_world" where
  "query_candidate pt tenantID effectID w =
     (case port (Asked effectID) (fp_QueryRegistration pt effectID) w of
        (Inl err, w1) \<Rightarrow> (Inl err, w1)
      | (Inr (reg, known), w1) \<Rightarrow>
          if \<not> known then (Inr (candidate_answer effectID ''unknown'' '''' ''''), w1)
          else observe_candidate pt tenantID effectID ''workflow-query'' reg w1)"

definition registerCandidate :: "'s effect_ports \<Rightarrow> register_candidate_input \<Rightarrow> 's port_world \<Rightarrow>
    (wf_error + candidate_ref) \<times> 's port_world" where
  "registerCandidate pt inp w =
     (case prepared (rc_CommandID inp) (fp_PrepareEffect pt inp) w of
        (Inl err, w1) \<Rightarrow> (Inl err, w1)
      | (Inr permit, w1) \<Rightarrow>
          if ep_Permitted permit
          then (case port (Sent (ep_EffectID permit) (CandidateSent inp)) (fp_RegisterCandidate pt (ep_EffectID permit) inp) w1 of
                  (Inl err, w2) \<Rightarrow> (Inl err, w2)
                | (Inr reg, w2) \<Rightarrow> observe_candidate pt (rc_TenantID inp) (ep_EffectID permit) ''workflow'' reg w2)
          else if ep_State permit = ''denied''
          then (Inr (candidate_answer (ep_EffectID permit) ''denied'' '''' (ep_DenialCode permit)), w1)
          else if ep_State permit = ''succeeded'' \<or> ep_State permit = ''failed''
          then (Inr (candidate_answer (ep_EffectID permit) (ep_State permit) (ep_OutcomeRef permit) ''''), w1)
          else query_candidate pt (rc_TenantID inp) (ep_EffectID permit) w1)"

section \<open>The conditional save\<close>

definition no_artifact :: stage_artifact where
  "no_artifact = \<lparr>sa_Handle = '''', sa_Class = '''', sa_Digest = '''', sa_SizeBytes = '''', sa_TransferID = '''', sa_ObjectVersion = ''''\<rparr>"

definition save_effect :: "save_source_input \<Rightarrow> register_candidate_input" where
  "save_effect inp =
     \<lparr>rc_OperationID = si_OperationID inp, rc_TenantID = si_TenantID inp, rc_AttemptID = si_AttemptID inp, rc_InstanceID = '''',
      rc_ExecutionEpoch = si_ExecutionEpoch inp, rc_CommandID = si_CommandID inp, rc_Occurrence = si_Occurrence inp,
      rc_Subject = ''source:'' @ si_Lineage inp, rc_SourceRevision = si_BaseRevision inp, rc_Source = si_Source inp,
      rc_Certification = no_artifact, rc_Lease = no_lease, rc_Deadline = si_Deadline inp\<rparr>"

definition save_answer :: "string \<Rightarrow> string \<Rightarrow> string \<Rightarrow> save_source_result" where
  "save_answer effectID state denialCode =
     \<lparr>sv_EffectID = effectID, sv_State = state, sv_Revision = '''', sv_CurrentRevision = '''', sv_DenialCode = denialCode\<rparr>"

definition observe_save :: "'s effect_ports \<Rightarrow> save_source_input \<Rightarrow> string \<Rightarrow> string \<Rightarrow> save_source_result \<Rightarrow> 's port_world \<Rightarrow>
    (wf_error + save_source_result) \<times> 's port_world" where
  "observe_save pt inp effectID source res w =
     (let (outcome, nref) = (if sv_State res = ''conflict'' then (''failed'', ''conflict:'' @ sv_CurrentRevision res)
                             else (''succeeded'', ''revision:'' @ sv_Revision res)) in
      case observe_effect pt (si_TenantID inp) effectID source outcome (sa_Digest (si_Source inp)) nref w of
        (Some err, w1) \<Rightarrow> (Inl err, w1)
      | (None, w1) \<Rightarrow> (Inr (res\<lparr>sv_EffectID := effectID\<rparr>), w1))"

definition query_save :: "'s effect_ports \<Rightarrow> save_source_input \<Rightarrow> effect_permit \<Rightarrow> 's port_world \<Rightarrow> (wf_error + save_source_result) \<times> 's port_world" where
  "query_save pt inp permit w =
     (case port (Asked (ep_EffectID permit)) (fp_QuerySave pt (ep_EffectID permit)) w of
        (Inl err, w1) \<Rightarrow> (Inl err, w1)
      | (Inr (res, known), w1) \<Rightarrow>
          if \<not> known then (Inr (save_answer (ep_EffectID permit) ''unknown'' ''''), w1)
          else if ep_State permit = ''succeeded'' \<or> ep_State permit = ''failed''
          then (Inr (res\<lparr>sv_EffectID := ep_EffectID permit\<rparr>), w1)
          else observe_save pt inp (ep_EffectID permit) ''workflow-query'' res w1)"

definition saveSource :: "'s effect_ports \<Rightarrow> save_source_input \<Rightarrow> 's port_world \<Rightarrow> (wf_error + save_source_result) \<times> 's port_world" where
  "saveSource pt inp w =
     (case prepared (si_CommandID inp) (fp_PrepareEffect pt (save_effect inp)) w of
        (Inl err, w1) \<Rightarrow> (Inl err, w1)
      | (Inr permit, w1) \<Rightarrow>
          if ep_Permitted permit
          then (case port (Sent (ep_EffectID permit) (SaveSent inp)) (fp_SaveRevision pt (ep_EffectID permit) inp) w1 of
                  (Inl err, w2) \<Rightarrow> (Inl err, w2)
                | (Inr res, w2) \<Rightarrow> observe_save pt inp (ep_EffectID permit) ''workflow'' res w2)
          else if ep_State permit = ''denied''
          then (Inr (save_answer (ep_EffectID permit) ''denied'' (ep_DenialCode permit)), w1)
          else query_save pt inp permit w1)"

section \<open>The release mutations\<close>

text \<open>
  What differs between the mutations: what is sent, the port's send and query, and how its answer is
  settled into the result and the outcome, receipt digest and reference Control records.
\<close>

type_synonym settled_effect = "release_effect_result \<times> string \<times> string \<times> string"

definition effect_state :: "string \<Rightarrow> string \<Rightarrow> string \<Rightarrow> string \<Rightarrow> release_effect_result" where
  "effect_state state effectID targetState failureCode =
     no_effect\<lparr>rx_State := state, rx_EffectID := effectID,
       rx_Target := no_target\<lparr>tr_State := targetState, tr_EffectID := effectID, tr_FailureCode := failureCode\<rparr>\<rparr>"

definition unknown_effect :: "string \<Rightarrow> release_effect_result" where
  "unknown_effect effectID = effect_state ''unknown'' effectID ''unknown'' ''''"

definition settle_effect :: "'s effect_ports \<Rightarrow> release_effect_input \<Rightarrow> effect_permit \<Rightarrow> string \<Rightarrow>
    (string \<Rightarrow> 'a \<Rightarrow> 's port_world \<Rightarrow> settled_effect \<times> 's port_world) \<Rightarrow> 'a \<Rightarrow> 's port_world \<Rightarrow>
    (wf_error + release_effect_result) \<times> 's port_world" where
  "settle_effect pt e permit source judge answer w =
     (case judge (ep_EffectID permit) answer w of
        ((res, outcome, receiptDigest, nref), w1) \<Rightarrow>
          if ep_State permit = ''succeeded'' \<or> ep_State permit = ''failed'' then (Inr res, w1)
          else (case observe_effect pt (re_TenantID e) (ep_EffectID permit) source outcome receiptDigest nref w1 of
                  (Some err, w2) \<Rightarrow> (Inl err, w2)
                | (None, w2) \<Rightarrow> (Inr res, w2)))"

definition guarded_effect :: "'s effect_ports \<Rightarrow> release_effect_input \<Rightarrow> sent \<Rightarrow> (string \<Rightarrow> 's \<Rightarrow> (wf_error + 'a) \<times> 's) \<Rightarrow>
    (string \<Rightarrow> 's \<Rightarrow> (wf_error + 'a \<times> bool) \<times> 's) \<Rightarrow> (string \<Rightarrow> 'a \<Rightarrow> 's port_world \<Rightarrow> settled_effect \<times> 's port_world) \<Rightarrow>
    's port_world \<Rightarrow> (wf_error + release_effect_result) \<times> 's port_world" where
  "guarded_effect pt e what send query judge w =
     (case prepared (re_CommandID e) (fp_PrepareReleaseEffect pt e) w of
        (Inl err, w1) \<Rightarrow> (Inl err, w1)
      | (Inr permit, w1) \<Rightarrow>
          if ep_State permit = ''denied''
          then (Inr (effect_state ''denied'' (ep_EffectID permit) ''failed'' (ep_DenialCode permit)), w1)
          else if ep_Permitted permit
          then (case port (Sent (ep_EffectID permit) what) (send (ep_EffectID permit)) w1 of
                  (Inl err, w2) \<Rightarrow>
                    (case observe_effect pt (re_TenantID e) (ep_EffectID permit) ''workflow'' ''unknown'' '''' '''' w2 of
                       (Some oerr, w3) \<Rightarrow> (Inl oerr, w3)
                     | (None, w3) \<Rightarrow> (Inr (unknown_effect (ep_EffectID permit)), w3))
                | (Inr answer, w2) \<Rightarrow> settle_effect pt e permit ''workflow'' judge answer w2)
          else (case port (Asked (ep_EffectID permit)) (query (ep_EffectID permit)) w1 of
                  (Inl err, w2) \<Rightarrow> (Inl err, w2)
                | (Inr (answer, known), w2) \<Rightarrow>
                    if \<not> known then (Inr (unknown_effect (ep_EffectID permit)), w2)
                    else settle_effect pt e permit ''workflow-query'' judge answer w2))"

definition settle_review :: "release_effect_call \<Rightarrow> string \<Rightarrow> review_ref \<Rightarrow> 's port_world \<Rightarrow> settled_effect \<times> 's port_world" where
  "settle_review call effectID ref w =
     ((if vw_SubjectDigest ref \<noteq> rs_SubjectDigest (rz_Subject call) \<or> vw_ReleaseID ref = ''''
       then (no_effect\<lparr>rx_State := ''failed'', rx_EffectID := effectID\<rparr>, ''succeeded'', vw_SubjectDigest ref, ''review:'' @ vw_ReleaseID ref)
       else (no_effect\<lparr>rx_State := ''succeeded'', rx_EffectID := effectID, rx_ReleaseID := vw_ReleaseID ref\<rparr>, ''succeeded'',
             vw_SubjectDigest ref, ''review:'' @ vw_ReleaseID ref)), w)"

definition review_input :: "release_effect_call \<Rightarrow> register_review_input" where
  "review_input call = \<lparr>gr_Occurrence = re_Occurrence (rz_Effect call), gr_Lineage = '''', gr_Subject = rz_Subject call\<rparr>"

definition registerReview :: "'s effect_ports \<Rightarrow> release_effect_call \<Rightarrow> 's port_world \<Rightarrow> (wf_error + release_effect_result) \<times> 's port_world" where
  "registerReview pt call w =
     guarded_effect pt (rz_Effect call) (ReviewSent (review_input call)) (\<lambda>i. fp_RegisterReview pt i (review_input call)) (fp_QueryReview pt)
       (settle_review call) w"

section \<open>Sent at most once\<close>

definition sent_ids :: "port_event list \<Rightarrow> string list" where
  "sent_ids es = List.map_filter (\<lambda>e. case e of Sent i x \<Rightarrow> Some i | _ \<Rightarrow> None) es"

lemma sent_ids_simps [simp]:
  "sent_ids [] = []" "sent_ids (Sent i x # es) = i # sent_ids es"
  "(\<And>i x. e \<noteq> Sent i x) \<Longrightarrow> sent_ids (e # es) = sent_ids es"
  by (auto simp: sent_ids_def map_filter_simps split: port_event.splits)

text \<open>Every send directly follows the permit that was answered for its identity.\<close>

definition sends_permitted :: "port_event list \<Rightarrow> bool" where
  "sends_permitted es \<longleftrightarrow> (\<forall>later i x before. es = later @ Sent i x # before \<longrightarrow>
     (\<exists>c p rest. before = Prepared c (Inr p) # rest \<and> ep_Permitted p \<and> ep_EffectID p = i))"

lemma sends_permitted_Nil [simp]: "sends_permitted []"
  by (simp add: sends_permitted_def)

lemma sends_permitted_other: "sends_permitted es \<Longrightarrow> (\<And>i x. e \<noteq> Sent i x) \<Longrightarrow> sends_permitted (e # es)"
  by (auto simp: sends_permitted_def Cons_eq_append_conv)

lemma sends_permitted_send:
  "sends_permitted (Prepared c (Inr p) # es) \<Longrightarrow> ep_Permitted p \<Longrightarrow> sends_permitted (Sent (ep_EffectID p) x # Prepared c (Inr p) # es)"
  by (auto simp: sends_permitted_def Cons_eq_append_conv)

text \<open>
  Control's promise: an effect identity is answered as permitted at most once. \<open>granted\<close> reads from the
  ports' state the identities answered as permitted so far; no call takes one back.
\<close>

definition grows :: "('s \<Rightarrow> string set) \<Rightarrow> ('s \<Rightarrow> 'r \<times> 's) \<Rightarrow> bool" where
  "grows granted f \<longleftrightarrow> (\<forall>s r s'. f s = (r, s') \<longrightarrow> granted s \<subseteq> granted s')"

definition permits_once :: "('s \<Rightarrow> string set) \<Rightarrow> ('s \<Rightarrow> (wf_error + effect_permit) \<times> 's) \<Rightarrow> bool" where
  "permits_once granted f \<longleftrightarrow> grows granted f \<and>
     (\<forall>s p s'. f s = (Inr p, s') \<and> ep_Permitted p \<longrightarrow> ep_EffectID p \<notin> granted s \<and> ep_EffectID p \<in> granted s')"

definition single_use :: "'s effect_ports \<Rightarrow> ('s \<Rightarrow> string set) \<Rightarrow> bool" where
  "single_use pt granted \<longleftrightarrow>
     (\<forall>i. permits_once granted (fp_PrepareEffect pt i)) \<and> (\<forall>i. permits_once granted (fp_PrepareReleaseEffect pt i)) \<and>
     (\<forall>ob. grows granted (fp_ObserveEffect pt ob)) \<and>
     (\<forall>i x. grows granted (fp_RegisterCandidate pt i x)) \<and> (\<forall>i. grows granted (fp_QueryRegistration pt i)) \<and>
     (\<forall>i x. grows granted (fp_SaveRevision pt i x)) \<and> (\<forall>i. grows granted (fp_QuerySave pt i)) \<and>
     (\<forall>i x. grows granted (fp_RegisterReview pt i x)) \<and> (\<forall>i. grows granted (fp_QueryReview pt i)) \<and>
     (\<forall>i x. grows granted (fp_Publish pt i x)) \<and> (\<forall>i. grows granted (fp_QueryPublication pt i)) \<and>
     (\<forall>t d r n. grows granted (fp_FetchPublished pt t d r n)) \<and>
     (\<forall>i x. grows granted (fp_Activate pt i x)) \<and> (\<forall>i. grows granted (fp_QueryActivation pt i)) \<and>
     (\<forall>t p x h l. grows granted (fp_Read pt t p x h l))"

definition once :: "('s \<Rightarrow> string set) \<Rightarrow> 's port_world \<Rightarrow> bool" where
  "once granted w \<longleftrightarrow> distinct (sent_ids (plog w)) \<and> set (sent_ids (plog w)) \<subseteq> granted (ps w) \<and> sends_permitted (plog w)"

lemma once_port:
  assumes "port e f w = (r, w')" "grows granted f" "\<And>i x. e \<noteq> Sent i x" "once granted w"
  shows "once granted w'"
proof -
  have "granted (ps w) \<subseteq> granted (ps w')" "plog w' = e # plog w" using assms(1,2) by (auto simp: port_result grows_def)
  then show ?thesis using assms(3,4) sends_permitted_other [of "plog w" e] unfolding once_def by (auto simp: sent_ids_simps(3))
qed

text \<open>A world whose last call was the permit of an identity.\<close>

definition may_send :: "('s \<Rightarrow> string set) \<Rightarrow> string \<Rightarrow> 's port_world \<Rightarrow> bool" where
  "may_send granted i w \<longleftrightarrow> once granted w \<and> i \<in> granted (ps w) \<and> i \<notin> set (sent_ids (plog w)) \<and>
     (\<exists>c p rest. plog w = Prepared c (Inr p) # rest \<and> ep_Permitted p \<and> ep_EffectID p = i)"

lemma once_prepared:
  assumes "prepared c f w = (r, w')" "permits_once granted f" "once granted w"
  shows "once granted w'" "\<And>p. r = Inr p \<Longrightarrow> ep_Permitted p \<Longrightarrow> may_send granted (ep_EffectID p) w'"
proof -
  have st: "f (ps w) = (r, ps w')" "plog w' = Prepared c r # plog w"
    using assms(1) by (cases w'; auto simp: prepared_def split: prod.splits)+
  have g: "granted (ps w) \<subseteq> granted (ps w')" using assms(2) st(1) by (auto simp: permits_once_def grows_def)
  show o': "once granted w'" using assms(3) g sends_permitted_other [of "plog w" "Prepared c r"] unfolding once_def st(2) by auto
  show "may_send granted (ep_EffectID p) w'" if "r = Inr p" "ep_Permitted p" for p
  proof -
    have "ep_EffectID p \<notin> granted (ps w)" "ep_EffectID p \<in> granted (ps w')"
      using assms(2) st(1) that unfolding permits_once_def by blast+
    then show ?thesis using o' assms(3) that st(2) unfolding may_send_def once_def by auto
  qed
qed

lemma once_send:
  assumes "port (Sent i x) f w = (r, w')" "grows granted f" "may_send granted i w"
  shows "once granted w'"
proof -
  have "granted (ps w) \<subseteq> granted (ps w')" "plog w' = Sent i x # plog w" using assms(1,2) by (auto simp: port_result grows_def)
  then show ?thesis using assms(3) sends_permitted_send unfolding may_send_def once_def by auto
qed

text \<open>An operation that keeps the invariant, whatever world it is started in.\<close>

definition keeps_once :: "('s \<Rightarrow> string set) \<Rightarrow> ('s port_world \<Rightarrow> 'r \<times> 's port_world) \<Rightarrow> bool" where
  "keeps_once granted act \<longleftrightarrow> (\<forall>w r w'. act w = (r, w') \<longrightarrow> once granted w \<longrightarrow> once granted w')"

lemma keeps_onceI: "(\<And>w r w'. act w = (r, w') \<Longrightarrow> once granted w \<Longrightarrow> once granted w') \<Longrightarrow> keeps_once granted act"
  by (simp add: keeps_once_def)

lemma keeps_onceD: "keeps_once granted act \<Longrightarrow> act w = (r, w') \<Longrightarrow> once granted w \<Longrightarrow> once granted w'"
  by (simp add: keeps_once_def)

lemma single_use_D:
  assumes "single_use pt granted"
  shows "permits_once granted (fp_PrepareEffect pt i)" "permits_once granted (fp_PrepareReleaseEffect pt e)"
    "grows granted (fp_ObserveEffect pt ob)"
    "grows granted (fp_RegisterCandidate pt k x)" "grows granted (fp_QueryRegistration pt k)"
    "grows granted (fp_SaveRevision pt k sv)" "grows granted (fp_QuerySave pt k)"
    "grows granted (fp_RegisterReview pt k rv)" "grows granted (fp_QueryReview pt k)"
    "grows granted (fp_Publish pt k pb)" "grows granted (fp_QueryPublication pt k)"
    "grows granted (fp_FetchPublished pt t d rl n)"
    "grows granted (fp_Activate pt k av)" "grows granted (fp_QueryActivation pt k)"
    "grows granted (fp_Read pt t p y h l)"
  using assms unfolding single_use_def by simp_all

lemma once_observe:
  "observe_effect pt tenantID effectID source outcome receiptDigest nref w = (r, w') \<Longrightarrow> single_use pt granted \<Longrightarrow> once granted w \<Longrightarrow> once granted w'"
  unfolding observe_effect_def Let_def by (erule once_port) (simp_all add: single_use_D)

lemma observe_candidate_once:
  assumes "observe_candidate pt tenantID effectID source reg w = (r, w')" "single_use pt granted" "once granted w"
  shows "once granted w'"
proof -
  obtain e w1 where one: "observe_effect pt tenantID effectID source (cf_State reg) (cf_Revision reg) (cf_CandidateID reg) w = (e, w1)" by fastforce
  then have "w' = w1" using assms(1) by (cases e) (simp_all add: observe_candidate_def)
  then show ?thesis using once_observe [OF one assms(2,3)] by simp
qed

lemma registerCandidate_once: "single_use pt granted \<Longrightarrow> keeps_once granted (registerCandidate pt inp)"
proof (rule keeps_onceI)
  fix w r w' assume su: "single_use pt granted" and run: "registerCandidate pt inp w = (r, w')" and start: "once granted w"
  obtain x w1 where one: "prepared (rc_CommandID inp) (fp_PrepareEffect pt inp) w = (x, w1)" by fastforce
  note p = once_prepared [OF one single_use_D(1) [OF su] start]
  show "once granted w'"
  proof (cases x)
    case (Inl err)
    then show ?thesis using run one p by (simp add: registerCandidate_def)
  next
    case (Inr permit)
    show ?thesis
    proof (cases "ep_Permitted permit")
      case True
      obtain y w2 where two: "port (Sent (ep_EffectID permit) (CandidateSent inp)) (fp_RegisterCandidate pt (ep_EffectID permit) inp) w1 = (y, w2)" by fastforce
      have "once granted w2" by (rule once_send [OF two single_use_D(4) [OF su] p(2) [OF Inr True]])
      then show ?thesis using run one Inr True two observe_candidate_once [OF _ su] by (cases y) (auto simp: registerCandidate_def)
    next
      case False
      obtain y w2 where two: "port (Asked (ep_EffectID permit)) (fp_QueryRegistration pt (ep_EffectID permit)) w1 = (y, w2)" by fastforce
      have "once granted w2" by (rule once_port [OF two single_use_D(5) [OF su] _ p(1)]) simp
      then show ?thesis using run one Inr False two p(1) observe_candidate_once [OF _ su]
        by (cases y) (auto simp: registerCandidate_def query_candidate_def split: if_splits prod.splits)
    qed
  qed
qed

lemma observe_save_once:
  assumes "observe_save pt inp effectID source res w = (r, w')" "single_use pt granted" "once granted w"
  shows "once granted w'"
  using assms(1) once_observe [OF _ assms(2,3)] by (auto simp: observe_save_def Let_def split: if_splits prod.splits option.splits)

lemma saveSource_once: "single_use pt granted \<Longrightarrow> keeps_once granted (saveSource pt inp)"
proof (rule keeps_onceI)
  fix w r w' assume su: "single_use pt granted" and run: "saveSource pt inp w = (r, w')" and start: "once granted w"
  obtain x w1 where one: "prepared (si_CommandID inp) (fp_PrepareEffect pt (save_effect inp)) w = (x, w1)" by fastforce
  note p = once_prepared [OF one single_use_D(1) [OF su] start]
  show "once granted w'"
  proof (cases x)
    case (Inl err)
    then show ?thesis using run one p by (simp add: saveSource_def)
  next
    case (Inr permit)
    show ?thesis
    proof (cases "ep_Permitted permit")
      case True
      obtain y w2 where two: "port (Sent (ep_EffectID permit) (SaveSent inp)) (fp_SaveRevision pt (ep_EffectID permit) inp) w1 = (y, w2)" by fastforce
      have "once granted w2" by (rule once_send [OF two single_use_D(6) [OF su] p(2) [OF Inr True]])
      then show ?thesis using run one Inr True two observe_save_once [OF _ su] by (cases y) (auto simp: saveSource_def)
    next
      case False
      obtain y w2 where two: "port (Asked (ep_EffectID permit)) (fp_QuerySave pt (ep_EffectID permit)) w1 = (y, w2)" by fastforce
      have "once granted w2" by (rule once_port [OF two single_use_D(7) [OF su] _ p(1)]) simp
      then show ?thesis using run one Inr False two p(1) observe_save_once [OF _ su]
        by (cases y) (auto simp: saveSource_def query_save_def split: if_splits prod.splits)
    qed
  qed
qed

lemma settle_effect_once:
  assumes "settle_effect pt e permit source judge answer w = (r, w')" "single_use pt granted" "once granted w"
    "keeps_once granted (judge (ep_EffectID permit) answer)"
  shows "once granted w'"
proof -
  obtain res outcome receiptDigest nref w1 where one: "judge (ep_EffectID permit) answer w = ((res, outcome, receiptDigest, nref), w1)"
    by (metis surj_pair)
  have o1: "once granted w1" by (rule keeps_onceD [OF assms(4) one assms(3)])
  then show ?thesis using assms(1) one once_observe [OF _ assms(2) o1]
    by (auto simp: settle_effect_def split: if_splits prod.splits option.splits)
qed

lemma guarded_effect_once:
  assumes "single_use pt granted" "\<And>i. grows granted (send i)" "\<And>i. grows granted (query i)" "\<And>i a. keeps_once granted (judge i a)"
  shows "keeps_once granted (guarded_effect pt e what send query judge)"
proof (rule keeps_onceI)
  fix w r w' assume run: "guarded_effect pt e what send query judge w = (r, w')" and start: "once granted w"
  obtain x w1 where one: "prepared (re_CommandID e) (fp_PrepareReleaseEffect pt e) w = (x, w1)" by fastforce
  note p = once_prepared [OF one single_use_D(2) [OF assms(1)] start]
  show "once granted w'"
  proof (cases x)
    case (Inl err)
    then show ?thesis using run one p by (simp add: guarded_effect_def)
  next
    case (Inr permit)
    show ?thesis
    proof (cases "ep_State permit = ''denied''")
      case True
      then show ?thesis using run one Inr p by (simp add: guarded_effect_def)
    next
      case active: False
      show ?thesis
      proof (cases "ep_Permitted permit")
        case True
        obtain y w2 where two: "port (Sent (ep_EffectID permit) what) (send (ep_EffectID permit)) w1 = (y, w2)" by fastforce
        have o2: "once granted w2" by (rule once_send [OF two assms(2) p(2) [OF Inr True]])
        show ?thesis
        proof (cases y)
          case (Inl err)
          obtain oe w3 where three: "observe_effect pt (re_TenantID e) (ep_EffectID permit) ''workflow'' ''unknown'' '''' '''' w2 = (oe, w3)" by fastforce
          have "w' = w3" using run one Inr active True two Inl three by (cases oe) (simp_all add: guarded_effect_def)
          then show ?thesis using once_observe [OF three assms(1) o2] by simp
        next
          case answered: (Inr answer)
          then have "settle_effect pt e permit ''workflow'' judge answer w2 = (r, w')"
            using run one Inr active True two by (simp add: guarded_effect_def)
          from settle_effect_once [OF this assms(1) o2 assms(4)] show ?thesis .
        qed
      next
        case False
        obtain y w2 where two: "port (Asked (ep_EffectID permit)) (query (ep_EffectID permit)) w1 = (y, w2)" by fastforce
        have o2: "once granted w2" by (rule once_port [OF two assms(3) _ p(1)]) simp
        show ?thesis
        proof (cases y)
          case (Inl err)
          then show ?thesis using run one Inr active False two o2 by (simp add: guarded_effect_def)
        next
          case answered: (Inr ak)
          obtain answer known where ak: "ak = (answer, known)" by fastforce
          show ?thesis
          proof (cases known)
            case True
            then have "settle_effect pt e permit ''workflow-query'' judge answer w2 = (r, w')"
              using run one Inr active False two answered ak by (simp add: guarded_effect_def)
            from settle_effect_once [OF this assms(1) o2 assms(4)] show ?thesis .
          next
            case unknown: False
            then show ?thesis using run one Inr active False two answered ak o2 by (simp add: guarded_effect_def)
          qed
        qed
      qed
    qed
  qed
qed

lemma registerReview_once: "single_use pt granted \<Longrightarrow> keeps_once granted (registerReview pt call)"
  unfolding registerReview_def
  by (rule guarded_effect_once) (simp_all add: single_use_D keeps_once_def settle_review_def)

end
