(* ===== verification/ReleaseActs.thy ===== *)
theory ReleaseActs
  imports Effects
begin

text \<open>
  The Activities of a release (\<^verbatim>\<open>internal/activities/release.go\<close>, \<^verbatim>\<open>releasetypes.go\<close>):
  the binding proved against the source authority, the subject built from a certification and the artifacts of its
  stage, a publication with the verification of its receipt and of what the destination
  serves, and the activation. The canonical JSON codec and the hash are a parameter.
\<close>

section \<open>Documents\<close>

record manifest_identity =
  mi_ComponentID :: string
  mi_PuckType :: string
  mi_ReleaseID :: string
  mi_PackageName :: string
  mi_PackageVersion :: string

record browser_manifest =
  bm_SchemaVersion :: int
  bm_HostProfileID :: string
  bm_Identity :: manifest_identity
  bm_Entry :: file_receipt
  bm_Styles :: "file_receipt list"

record publication_receipt =
  pr_SchemaVersion :: int
  pr_Target :: string
  pr_ReceiptID :: string
  pr_EffectID :: string
  pr_SubjectDigest :: string
  pr_ReleaseID :: string
  pr_PackageName :: string
  pr_Version :: string
  pr_Destination :: string
  pr_ManifestDigest :: string
  pr_Files :: "file_receipt list"

record activation_receipt =
  vt_SchemaVersion :: int
  vt_ReceiptID :: string
  vt_EffectID :: string
  vt_SubjectDigest :: string
  vt_CatalogRevision :: string
  vt_Lock :: lock_entry

record certification_bindings =
  cb_ComponentID :: string
  cb_PuckType :: string
  cb_SourceRevision :: string
  cb_SourceDigest :: string
  cb_PackageName :: string
  cb_Version :: string
  cb_BuildProfileID :: string
  cb_BuildProfileDigest :: string
  cb_ValidatorProfileID :: string
  cb_ValidatorProfileDigest :: string
  cb_HostAbi :: string
  cb_HostAbiDigest :: string
  cb_Npm :: artifact_digest
  cb_Browser :: artifact_digest
  cb_CSS :: "file_receipt list"

record certification =
  ce_Verdict :: string
  ce_Complete :: bool
  ce_Bindings :: certification_bindings

record certification_doc =
  cd_Verdict :: string
  cd_Certification :: "certification option"

text \<open>
  The codec: the canonical form of a manifest and of a subject without its digest, the decodes of a
  publication receipt (strict), of an activation receipt (with whether it decoded, and what it decoded up to
  there) and of a certification, and the hexadecimal sha256.
\<close>

record release_codec =
  kc_manifest :: "browser_manifest \<Rightarrow> string"
  kc_subject :: "release_subject \<Rightarrow> string"
  kc_receipt :: "string \<Rightarrow> publication_receipt option"
  kc_activation :: "string \<Rightarrow> activation_receipt \<times> bool"
  kc_certification :: "string \<Rightarrow> certification_doc option"
  kc_sha256 :: "string \<Rightarrow> string"

definition Digest :: "release_codec \<Rightarrow> string \<Rightarrow> string" where
  "Digest kc b = ''sha256:'' @ kc_sha256 kc b"

definition ComputeSubjectDigest :: "release_codec \<Rightarrow> release_subject \<Rightarrow> string" where
  "ComputeSubjectDigest kc s = Digest kc (kc_subject kc (s\<lparr>rs_SubjectDigest := ''''\<rparr>))"

section \<open>The binding\<close>

record 's release_reads =
  rr_GetReleaseBinding :: "string \<Rightarrow> string \<Rightarrow> 's \<Rightarrow> (wf_error + release_binding) \<times> 's"
  rr_RevisionDigest :: "string \<Rightarrow> string \<Rightarrow> 's \<Rightarrow> (wf_error + string \<times> bool) \<times> 's"

definition getReleaseBinding :: "'s release_reads \<Rightarrow> string \<Rightarrow> string \<Rightarrow> 's \<Rightarrow> (wf_error + release_binding) \<times> 's" where
  "getReleaseBinding rd tenantID operationID s =
     (case rr_GetReleaseBinding rd tenantID operationID s of
        (Inl err, s1) \<Rightarrow> (Inl err, s1)
      | (Inr b, s1) \<Rightarrow>
          (case rr_RevisionDigest rd (rb_Lineage b) (rb_SourceRevision b) s1 of
             (Inl err, s2) \<Rightarrow> (Inl err, s2)
           | (Inr (d, known), s2) \<Rightarrow>
               if \<not> known then (Inl (Refused ''SOURCE_UNAVAILABLE''), s2)
               else if d \<noteq> sa_Digest (rb_Source b) then (Inl (Refused ''SOURCE_REVISION_MISMATCH''), s2)
               else (Inr b, s2)))"

section \<open>The subject\<close>

definition releaseEntryPath :: string where "releaseEntryPath = ''index.js''"
definition releaseManifestPath :: string where "releaseManifestPath = ''browser-manifest.json''"

text \<open>\<open>bytes.Split\<close> at a one-character separator.\<close>

fun split_at :: "char \<Rightarrow> string \<Rightarrow> string list" where
  "split_at c [] = [[]]"
| "split_at c (x # xs) =
     (if x = c then [] # split_at c xs
      else case split_at c xs of [] \<Rightarrow> [[x]] | s # ss \<Rightarrow> (x # s) # ss)"

definition path_char :: "char \<Rightarrow> bool" where
  "path_char ch \<longleftrightarrow> (let n = (of_char ch :: nat) in
     97 \<le> n \<and> n \<le> 122 \<or> 65 \<le> n \<and> n \<le> 90 \<or> 48 \<le> n \<and> n \<le> 57 \<or> ch \<in> {CHR ''.'', CHR ''_'', CHR ''-''})"

definition validReleasePath :: "string \<Rightarrow> bool" where
  "validReleasePath p \<longleftrightarrow> p \<noteq> '''' \<and> length p \<le> 512 \<and> p \<noteq> releaseEntryPath \<and> p \<noteq> releaseManifestPath \<and>
     list_all (\<lambda>seg. seg \<noteq> '''' \<and> seg \<noteq> ''.'' \<and> seg \<noteq> ''..'' \<and> list_all path_char seg) (split_at CHR ''/'' p)"

text \<open>The last artifact of a class, as the loop over the stage leaves it.\<close>

definition last_of_class :: "string \<Rightarrow> stage_artifact list \<Rightarrow> stage_artifact option" where
  "last_of_class cls arts = List.find (\<lambda>a. sa_Class a = cls) (rev arts)"

text \<open>Each certified stylesheet takes the first stage artifact left with its digest and size.\<close>

fun bind_styles :: "file_receipt list \<Rightarrow> stage_artifact list \<Rightarrow> (artifact_digest list \<times> release_style list) option" where
  "bind_styles [] css = Some ([], [])"
| "bind_styles (f # fs) css =
     (case List.find (\<lambda>a. sa_Digest a = ft_Digest f \<and> sa_SizeBytes a = ft_SizeBytes f) css of
        None \<Rightarrow> None
      | Some a \<Rightarrow>
          if \<not> validReleasePath (ft_Path f) then None
          else map_option (\<lambda>(ds, ss). (\<lparr>ad_Digest = ft_Digest f, ad_SizeBytes = ft_SizeBytes f\<rparr> # ds, \<lparr>ry_Path = ft_Path f, ry_Artifact = a\<rparr> # ss))
                 (bind_styles fs (remove1 a css)))"

definition subject_of :: "build_subject_input \<Rightarrow> certification_bindings \<Rightarrow> stage_artifact \<Rightarrow> artifact_digest list \<Rightarrow> release_subject" where
  "subject_of inp b evidence css =
     \<lparr>rs_SchemaVersion = 1, rs_ComponentID = cb_ComponentID b, rs_PuckType = cb_PuckType b,
      rs_SourceRevision = rb_SourceRevision (bu_Binding inp), rs_SourceDigest = cb_SourceDigest b, rs_PackageName = cb_PackageName b,
      rs_Version = cb_Version b, rs_Npm = cb_Npm b, rs_Browser = cb_Browser b, rs_CSS = css, rs_BuildProfileID = cb_BuildProfileID b,
      rs_BuildProfileDigest = cb_BuildProfileDigest b, rs_ValidatorProfileID = cb_ValidatorProfileID b,
      rs_ValidatorProfileDigest = cb_ValidatorProfileDigest b, rs_HostAbi = cb_HostAbi b, rs_HostAbiDigest = cb_HostAbiDigest b,
      rs_Destinations = bu_Destinations inp, rs_CertificationEvidenceDigest = sa_Digest evidence, rs_SubjectDigest = ''''\<rparr>"

text \<open>The code the bindings of a certification are refused with, in the order of the source's cases.\<close>

definition binding_refusal :: "string \<Rightarrow> build_subject_input \<Rightarrow> certification_doc \<Rightarrow> certification \<Rightarrow> stage_artifact \<Rightarrow> stage_artifact \<Rightarrow>
    stage_artifact list \<Rightarrow> string option" where
  "binding_refusal hostAbi inp doc c npm browser css =
     (let b = ce_Bindings c in
      if cd_Verdict doc \<noteq> ''certified'' \<or> ce_Verdict c \<noteq> ''certified'' \<or> \<not> ce_Complete c then Some ''CERTIFICATION_MISSING''
      else if ad_Digest (cb_Npm b) \<noteq> sa_Digest npm \<or> ad_SizeBytes (cb_Npm b) \<noteq> sa_SizeBytes npm \<or>
         ad_Digest (cb_Browser b) \<noteq> sa_Digest browser \<or> ad_SizeBytes (cb_Browser b) \<noteq> sa_SizeBytes browser then Some ''CERTIFICATION_MISMATCH''
      else if length (cb_CSS b) \<noteq> length css then Some ''CERTIFICATION_MISMATCH''
      else if (case rb_Identity (bu_Binding inp) of None \<Rightarrow> False | Some i \<Rightarrow>
          cb_ComponentID b \<noteq> ci_ComponentID i \<or> cb_PuckType b \<noteq> ci_PuckType i \<or> cb_PackageName b \<noteq> ci_PackageName i) then Some ''CERTIFICATION_MISMATCH''
      else if cb_SourceRevision b \<noteq> rb_SourceRevision (bu_Binding inp) then Some ''CERTIFICATION_MISMATCH''
      else if cb_Version b \<noteq> rb_PackageVersion (bu_Binding inp) then Some ''VERSION_MISMATCH''
      else if hostAbi \<noteq> '''' \<and> cb_HostAbi b \<noteq> hostAbi then Some ''CERTIFICATION_MISMATCH''
      else None)"

definition built_of :: "release_codec \<Rightarrow> string \<Rightarrow> build_subject_input \<Rightarrow> stage_artifact \<Rightarrow> stage_artifact \<Rightarrow> stage_artifact \<Rightarrow>
    stage_artifact list \<Rightarrow> string \<Rightarrow> wf_error + built_subject" where
  "built_of kc hostAbi inp evidence npm browser css raw =
     (case kc_certification kc raw of
        None \<Rightarrow> Inl (Refused ''CERTIFICATION_MISSING'')
      | Some doc \<Rightarrow>
          (case cd_Certification doc of
             None \<Rightarrow> Inl (Refused ''CERTIFICATION_MISSING'')
           | Some c \<Rightarrow>
               (case binding_refusal hostAbi inp doc c npm browser css of
                  Some code \<Rightarrow> Inl (Refused code)
                | None \<Rightarrow>
                    (case bind_styles (cb_CSS (ce_Bindings c)) css of
                       None \<Rightarrow> Inl (Refused ''CERTIFICATION_MISMATCH'')
                     | Some (ds, styles) \<Rightarrow>
                         (let s = subject_of inp (ce_Bindings c) evidence ds in
                          Inr \<lparr>bs_Subject = s\<lparr>rs_SubjectDigest := ComputeSubjectDigest kc s\<rparr>,
                               bs_Artifacts = \<lparr>rf_Npm = npm, rf_Browser = browser, rf_CSS = styles\<rparr>\<rparr>)))))"

definition maxCertificationBytes :: int where "maxCertificationBytes = 4 * 1024 * 1024"
definition maxPublicationArtifact :: int where "maxPublicationArtifact = 64 * 1024 * 1024"

definition read_stage :: "'s effect_ports \<Rightarrow> string \<Rightarrow> string \<Rightarrow> stage_artifact \<Rightarrow> int \<Rightarrow> 's port_world \<Rightarrow> (wf_error + string) \<times> 's port_world" where
  "read_stage pt tenant operation art limit =
     port (ReadArtifact tenant operation (sa_TransferID art) (sa_Handle art) limit)
       (fp_Read pt tenant operation (sa_TransferID art) (sa_Handle art) limit)"

definition buildReleaseSubject :: "release_codec \<Rightarrow> string \<Rightarrow> 's effect_ports \<Rightarrow> build_subject_input \<Rightarrow> 's port_world \<Rightarrow>
    (wf_error + built_subject) \<times> 's port_world" where
  "buildReleaseSubject kc hostAbi pt inp w =
     (let arts = as_Artifacts (bu_Stage inp); css = filter (\<lambda>a. sa_Class a = ''css'') arts in
      case (last_of_class ''evidence'' arts, last_of_class ''npm'' arts, last_of_class ''browser'' arts) of
        (Some evidence, Some npm, Some browser) \<Rightarrow>
          if as_Verdict (bu_Stage inp) \<noteq> ''certified'' \<or> css = [] then (Inl (Refused ''CERTIFICATION_MISSING''), w)
          else (case read_stage pt (bu_TenantID inp) (bu_OperationID inp) evidence maxCertificationBytes w of
                  (Inl err, w1) \<Rightarrow> (Inl err, w1)
                | (Inr raw, w1) \<Rightarrow> (built_of kc hostAbi inp evidence npm browser css raw, w1))
      | _ \<Rightarrow> (Inl (Refused ''CERTIFICATION_MISSING''), w))"

section \<open>The publication\<close>

definition style_receipt :: "release_style \<Rightarrow> file_receipt" where
  "style_receipt st = \<lparr>ft_Path = ry_Path st, ft_Digest = sa_Digest (ry_Artifact st), ft_SizeBytes = sa_SizeBytes (ry_Artifact st)\<rparr>"

definition BrowserManifestOf :: "release_codec \<Rightarrow> release_subject \<Rightarrow> string \<Rightarrow> release_style list \<Rightarrow> string" where
  "BrowserManifestOf kc s releaseID styles = kc_manifest kc
     \<lparr>bm_SchemaVersion = 1, bm_HostProfileID = rs_HostAbi s,
      bm_Identity = \<lparr>mi_ComponentID = rs_ComponentID s, mi_PuckType = rs_PuckType s, mi_ReleaseID = releaseID,
        mi_PackageName = rs_PackageName s, mi_PackageVersion = rs_Version s\<rparr>,
      bm_Entry = \<lparr>ft_Path = releaseEntryPath, ft_Digest = ad_Digest (rs_Browser s), ft_SizeBytes = ad_SizeBytes (rs_Browser s)\<rparr>,
      bm_Styles = map style_receipt styles\<rparr>"

definition LockOf :: "release_subject \<Rightarrow> string \<Rightarrow> string \<Rightarrow> lock_entry" where
  "LockOf s releaseID manifestDigest =
     \<lparr>lk_SchemaVersion = 1, lk_ComponentID = rs_ComponentID s, lk_PuckType = rs_PuckType s, lk_ReleaseID = releaseID,
      lk_PackageName = rs_PackageName s, lk_PackageVersion = rs_Version s, lk_BrowserManifestDigest = manifestDigest,
      lk_HostProfileID = rs_HostAbi s\<rparr>"

text \<open>The package name without its scope: what follows the last slash.\<close>

definition tarballName :: "release_subject \<Rightarrow> string" where
  "tarballName s = last (split_at CHR ''/'' (rs_PackageName s)) @ ''-'' @ rs_Version s @ ''.tgz''"

definition destination_of :: "release_effect_call \<Rightarrow> string" where
  "destination_of call =
     (if rz_Target call = ''browser'' then rd_BrowserOrigin (rs_Destinations (rz_Subject call)) else rd_NpmRegistry (rs_Destinations (rz_Subject call)))"

definition manifest_of :: "release_codec \<Rightarrow> release_effect_call \<Rightarrow> string" where
  "manifest_of kc call = BrowserManifestOf kc (rz_Subject call) (rz_ReleaseID call) (rf_CSS (rz_Artifacts call))"

text \<open>The certified artifacts of a target, each with the path it is published under.\<close>

definition target_files :: "release_effect_call \<Rightarrow> (stage_artifact \<times> string) list" where
  "target_files call =
     (if rz_Target call = ''npm'' then [(rf_Npm (rz_Artifacts call), tarballName (rz_Subject call))]
      else (rf_Browser (rz_Artifacts call), releaseEntryPath) # map (\<lambda>st. (ry_Artifact st, ry_Path st)) (rf_CSS (rz_Artifacts call)))"

fun read_files :: "'s effect_ports \<Rightarrow> release_effect_call \<Rightarrow> (stage_artifact \<times> string) list \<Rightarrow> 's port_world \<Rightarrow>
    (wf_error + publish_file list) \<times> 's port_world" where
  "read_files pt call [] w = (Inr [], w)"
| "read_files pt call ((art, path) # files) w =
     (case read_stage pt (re_TenantID (rz_Effect call)) (re_OperationID (rz_Effect call)) art maxPublicationArtifact w of
        (Inl err, w1) \<Rightarrow> (Inl err, w1)
      | (Inr body, w1) \<Rightarrow>
          (case read_files pt call files w1 of
             (Inl err, w2) \<Rightarrow> (Inl err, w2)
           | (Inr fs, w2) \<Rightarrow> (Inr (\<lparr>pf_Path = path, pf_Bytes = body\<rparr> # fs), w2)))"

definition publication :: "release_codec \<Rightarrow> release_effect_call \<Rightarrow> publish_file list \<Rightarrow> publish_input" where
  "publication kc call files =
     \<lparr>pn_Target = rz_Target call, pn_Occurrence = re_Occurrence (rz_Effect call), pn_ReleaseID = rz_ReleaseID call,
      pn_Subject = rz_Subject call, pn_Destination = destination_of call, pn_Files = files,
      pn_Manifest = (if rz_Target call = ''npm'' then '''' else manifest_of kc call)\<rparr>"

text \<open>What the receipt of a target must list.\<close>

definition wanted :: "release_effect_call \<Rightarrow> file_receipt list" where
  "wanted call =
     (let s = rz_Subject call in
      if rz_Target call = ''npm'' then [\<lparr>ft_Path = tarballName s, ft_Digest = ad_Digest (rs_Npm s), ft_SizeBytes = ad_SizeBytes (rs_Npm s)\<rparr>]
      else \<lparr>ft_Path = releaseEntryPath, ft_Digest = ad_Digest (rs_Browser s), ft_SizeBytes = ad_SizeBytes (rs_Browser s)\<rparr> #
           map style_receipt (rf_CSS (rz_Artifacts call)))"

definition receipt_refusal :: "release_codec \<Rightarrow> release_effect_call \<Rightarrow> string \<Rightarrow> publication_receipt \<Rightarrow> string option" where
  "receipt_refusal kc call effectID r =
     (let s = rz_Subject call in
      if pr_SchemaVersion r \<noteq> 1 \<or> pr_Target r \<noteq> rz_Target call \<or> pr_EffectID r \<noteq> effectID \<or> pr_ReceiptID r = '''' then Some ''RECEIPT_INVALID''
      else if pr_SubjectDigest r \<noteq> rs_SubjectDigest s \<or> pr_ReleaseID r \<noteq> rz_ReleaseID call \<or> pr_PackageName r \<noteq> rs_PackageName s \<or>
        pr_Version r \<noteq> rs_Version s then Some ''RECEIPT_SUBJECT_MISMATCH''
      else if pr_Destination r \<noteq> destination_of call then Some ''DESTINATION_MISMATCH''
      else if rz_Target call = ''browser'' \<and> pr_ManifestDigest r \<noteq> Digest kc (manifest_of kc call) then Some ''RECEIPT_SUBJECT_MISMATCH''
      else if pr_Files r \<noteq> wanted call then Some ''RECEIPT_SUBJECT_MISMATCH''
      else None)"

definition served_name :: "release_effect_call \<Rightarrow> string \<Rightarrow> string" where
  "served_name call path =
     (if rz_Target call = ''npm'' then rs_PackageName (rz_Subject call) @ ''@'' @ rs_Version (rz_Subject call) else path)"

definition check_served :: "release_codec \<Rightarrow> 's effect_ports \<Rightarrow> release_effect_call \<Rightarrow> string \<Rightarrow> string \<Rightarrow> 's port_world \<Rightarrow> bool \<times> 's port_world" where
  "check_served kc pt call path d w =
     (case port (Fetched (rz_Target call) (destination_of call) (rz_ReleaseID call) (served_name call path))
             (fp_FetchPublished pt (rz_Target call) (destination_of call) (rz_ReleaseID call) (served_name call path)) w of
        (Inl err, w1) \<Rightarrow> (False, w1)
      | (Inr body, w1) \<Rightarrow> (Digest kc body = d, w1))"

fun check_files :: "release_codec \<Rightarrow> 's effect_ports \<Rightarrow> release_effect_call \<Rightarrow> (string \<times> string) list \<Rightarrow> 's port_world \<Rightarrow> bool \<times> 's port_world" where
  "check_files kc pt call [] w = (True, w)"
| "check_files kc pt call ((path, d) # files) w =
     (case check_served kc pt call path d w of
        (False, w1) \<Rightarrow> (False, w1)
      | (True, w1) \<Rightarrow> check_files kc pt call files w1)"

definition receipt_target :: "string \<Rightarrow> publication_receipt \<Rightarrow> release_target" where
  "receipt_target effectID r =
     no_target\<lparr>tr_EffectID := effectID, tr_ReceiptID := pr_ReceiptID r, tr_SubjectDigest := pr_SubjectDigest r,
       tr_Destination := pr_Destination r, tr_Version := pr_Version r, tr_ManifestDigest := pr_ManifestDigest r\<rparr>"

text \<open>The files checked at the destination: the wanted ones, and the manifest of a browser target.\<close>

definition served_files :: "release_codec \<Rightarrow> release_effect_call \<Rightarrow> (string \<times> string) list" where
  "served_files kc call = map (\<lambda>f. (ft_Path f, ft_Digest f)) (wanted call) @
     (if rz_Target call = ''browser'' then [(releaseManifestPath, Digest kc (manifest_of kc call))] else [])"

definition verifyPublication :: "release_codec \<Rightarrow> 's effect_ports \<Rightarrow> release_effect_call \<Rightarrow> string \<Rightarrow> string \<Rightarrow> 's port_world \<Rightarrow>
    (release_target \<times> string) \<times> 's port_world" where
  "verifyPublication kc pt call effectID raw w =
     (case kc_receipt kc raw of
        None \<Rightarrow> ((no_target\<lparr>tr_EffectID := effectID\<rparr>, ''RECEIPT_INVALID''), w)
      | Some r \<Rightarrow>
          (case receipt_refusal kc call effectID r of
             Some code \<Rightarrow> ((receipt_target effectID r, code), w)
           | None \<Rightarrow>
               (case check_files kc pt call (served_files kc call) w of
                  (ok, w1) \<Rightarrow> ((receipt_target effectID r, if ok then '''' else ''ARTIFACT_UNAVAILABLE''), w1))))"

definition settle_publication :: "release_codec \<Rightarrow> 's effect_ports \<Rightarrow> release_effect_call \<Rightarrow> string \<Rightarrow> publish_result \<Rightarrow> 's port_world \<Rightarrow>
    settled_effect \<times> 's port_world" where
  "settle_publication kc pt call effectID res w =
     (if pb_State res \<noteq> ''published''
      then (let code = firstNonEmpty [pb_FailureCode res, ''PUBLICATION_FAILED''] in
            ((effect_state ''failed'' effectID ''failed'' code, ''failed'', rs_SubjectDigest (rz_Subject call), ''failed:'' @ code), w))
      else (case verifyPublication kc pt call effectID (pb_Receipt res) w of
              ((tgt, code), w1) \<Rightarrow>
                (let d = Digest kc (pb_Receipt res); t = tgt\<lparr>tr_ReceiptDigest := d\<rparr> in
                 if code \<noteq> ''''
                 then ((no_effect\<lparr>rx_State := ''failed'', rx_EffectID := effectID, rx_Target := t\<lparr>tr_State := ''failed'', tr_FailureCode := code\<rparr>\<rparr>,
                        ''succeeded'', d, ''receipt:'' @ tr_ReceiptID t), w1)
                 else ((no_effect\<lparr>rx_State := ''succeeded'', rx_EffectID := effectID, rx_Target := t\<lparr>tr_State := ''succeeded''\<rparr>\<rparr>,
                        ''succeeded'', d, ''receipt:'' @ tr_ReceiptID t), w1))))"

definition publishTarget :: "release_codec \<Rightarrow> 's effect_ports \<Rightarrow> release_effect_call \<Rightarrow> 's port_world \<Rightarrow>
    (wf_error + release_effect_result) \<times> 's port_world" where
  "publishTarget kc pt call w =
     (case read_files pt call (target_files call) w of
        (Inl err, w1) \<Rightarrow> (Inl err, w1)
      | (Inr files, w1) \<Rightarrow>
          guarded_effect pt (rz_Effect call) (PublicationSent (publication kc call files))
            (\<lambda>i. fp_Publish pt i (publication kc call files)) (fp_QueryPublication pt) (settle_publication kc pt call) w1)"

section \<open>The activation\<close>

definition activation :: "release_codec \<Rightarrow> release_effect_call \<Rightarrow> activate_input" where
  "activation kc call =
     \<lparr>av_Occurrence = re_Occurrence (rz_Effect call), av_Subject = rz_Subject call,
      av_Lock = LockOf (rz_Subject call) (rz_ReleaseID call) (Digest kc (manifest_of kc call)),
      av_ExpectedCatalogRevision = rz_ExpectedCatalogRevision call\<rparr>"

definition settle_activation :: "release_codec \<Rightarrow> release_effect_call \<Rightarrow> string \<Rightarrow> activation_result \<Rightarrow> 's port_world \<Rightarrow>
    settled_effect \<times> 's port_world" where
  "settle_activation kc call effectID res w =
     ((let s = rz_Subject call in
       if at_State res = ''conflict''
       then ((effect_state ''conflict'' effectID ''failed'' ''ACTIVATION_CONFLICT'')\<lparr>rx_CatalogRevision := at_CurrentCatalogRevision res\<rparr>,
             ''failed'', rs_SubjectDigest s, ''conflict:'' @ at_CurrentCatalogRevision res)
       else if at_State res \<noteq> ''activated''
       then (let code = firstNonEmpty [at_FailureCode res, ''ACTIVATION_FAILED''] in
             (effect_state ''failed'' effectID ''failed'' code, ''failed'', rs_SubjectDigest s, ''failed:'' @ code))
       else (case kc_activation kc (at_Receipt res) of (r, ok) \<Rightarrow>
              (let d = Digest kc (at_Receipt res) in
               if \<not> ok \<or> vt_EffectID r \<noteq> effectID \<or> vt_SubjectDigest r \<noteq> rs_SubjectDigest s \<or> vt_Lock r \<noteq> av_Lock (activation kc call) \<or>
                  vt_CatalogRevision r = ''''
               then (no_effect\<lparr>rx_State := ''failed'', rx_EffectID := effectID, rx_Target := no_target\<lparr>tr_State := ''failed'', tr_EffectID := effectID,
                       tr_ReceiptDigest := d, tr_FailureCode := ''RECEIPT_SUBJECT_MISMATCH''\<rparr>\<rparr>, ''succeeded'', d, ''receipt:'' @ vt_ReceiptID r)
               else (no_effect\<lparr>rx_State := ''succeeded'', rx_EffectID := effectID, rx_CatalogRevision := vt_CatalogRevision r,
                       rx_Target := no_target\<lparr>tr_State := ''succeeded'', tr_EffectID := effectID, tr_ReceiptID := vt_ReceiptID r,
                         tr_ReceiptDigest := d, tr_SubjectDigest := vt_SubjectDigest r\<rparr>\<rparr>, ''succeeded'', d, ''receipt:'' @ vt_ReceiptID r)))), w)"

definition activateRelease :: "release_codec \<Rightarrow> 's effect_ports \<Rightarrow> release_effect_call \<Rightarrow> 's port_world \<Rightarrow>
    (wf_error + release_effect_result) \<times> 's port_world" where
  "activateRelease kc pt call w =
     guarded_effect pt (rz_Effect call) (ActivationSent (activation kc call)) (\<lambda>i. fp_Activate pt i (activation kc call))
       (fp_QueryActivation pt) (settle_activation kc call) w"

section \<open>Of the release mutations\<close>

lemma read_stage_once: "read_stage pt tenant operation art limit w = (r, w') \<Longrightarrow> single_use pt granted \<Longrightarrow> once granted w \<Longrightarrow> once granted w'"
  unfolding read_stage_def by (erule once_port) (simp_all add: single_use_D)

lemma read_files_once:
  "read_files pt call files w = (r, w') \<Longrightarrow> single_use pt granted \<Longrightarrow> once granted w \<Longrightarrow> once granted w'"
proof (induction pt call files w arbitrary: r w' rule: read_files.induct)
  case (2 pt call art path files w)
  obtain x w1 where one: "read_stage pt (re_TenantID (rz_Effect call)) (re_OperationID (rz_Effect call)) art maxPublicationArtifact w = (x, w1)" by fastforce
  note o1 = read_stage_once [OF one 2(3,4)]
  show ?case
  proof (cases x)
    case (Inl err)
    then show ?thesis using 2(2) one o1 by simp
  next
    case (Inr body)
    obtain y w2 where two: "read_files pt call files w1 = (y, w2)" by fastforce
    have "w' = w2" using 2(2) one Inr two by (cases y) simp_all
    then show ?thesis using 2(1) [OF one [symmetric] Inr two 2(3) o1] by simp
  qed
qed simp

lemma check_served_once: "check_served kc pt call path d w = (r, w') \<Longrightarrow> single_use pt granted \<Longrightarrow> once granted w \<Longrightarrow> once granted w'"
  by (auto simp: check_served_def single_use_D elim!: once_port [rotated -1] split: prod.splits sum.splits)

lemma check_files_once: "check_files kc pt call files w = (r, w') \<Longrightarrow> single_use pt granted \<Longrightarrow> once granted w \<Longrightarrow> once granted w'"
proof (induction kc pt call files w arbitrary: r w' rule: check_files.induct)
  case (2 kc pt call path d files w)
  obtain ok w1 where one: "check_served kc pt call path d w = (ok, w1)" by fastforce
  note o1 = check_served_once [OF one 2(3,4)]
  show ?case using 2 one o1 by (cases ok) auto
qed simp

lemma settle_publication_once:
  assumes "single_use pt granted"
  shows "keeps_once granted (settle_publication kc pt call i a)"
proof (rule keeps_onceI)
  fix w r w' assume run: "settle_publication kc pt call i a w = (r, w')" and start: "once granted w"
  obtain t code w1 where v: "verifyPublication kc pt call i (pb_Receipt a) w = ((t, code), w1)" by (metis surj_pair)
  have "once granted w1"
    using v start check_files_once [OF _ assms] by (auto simp: verifyPublication_def split: option.splits prod.splits)
  then show "once granted w'" using run v start by (auto simp: settle_publication_def Let_def split: if_splits)
qed

lemma publishTarget_once: "single_use pt granted \<Longrightarrow> keeps_once granted (publishTarget kc pt call)"
proof (rule keeps_onceI)
  fix w r w' assume su: "single_use pt granted" and run: "publishTarget kc pt call w = (r, w')" and start: "once granted w"
  obtain x w1 where one: "read_files pt call (target_files call) w = (x, w1)" by fastforce
  note o1 = read_files_once [OF one su start]
  show "once granted w'"
  proof (cases x)
    case (Inl err)
    then show ?thesis using run one o1 by (simp add: publishTarget_def)
  next
    case (Inr files)
    have "keeps_once granted (guarded_effect pt (rz_Effect call) (PublicationSent (publication kc call files))
            (\<lambda>i. fp_Publish pt i (publication kc call files)) (fp_QueryPublication pt) (settle_publication kc pt call))"
      by (rule guarded_effect_once [OF su]) (simp_all add: single_use_D [OF su] settle_publication_once [OF su])
    from keeps_onceD [OF this _ o1] show ?thesis using run one Inr by (simp add: publishTarget_def)
  qed
qed

lemma activateRelease_once: "single_use pt granted \<Longrightarrow> keeps_once granted (activateRelease kc pt call)"
  unfolding activateRelease_def
  by (rule guarded_effect_once) (simp_all add: single_use_D keeps_once_def settle_activation_def)

text \<open>
  The calls of any workers over time: the Activities of the worker, first calls and retries alike, in any
  order, and whatever else the systems behind the ports do.
\<close>

inductive effect_history :: "release_codec \<Rightarrow> 's effect_ports \<Rightarrow> ('s \<Rightarrow> string set) \<Rightarrow> 's port_world \<Rightarrow> 's port_world \<Rightarrow> bool"
  for kc pt granted w where
  history_start: "effect_history kc pt granted w w"
| history_candidate: "effect_history kc pt granted w w1 \<Longrightarrow> registerCandidate pt inp w1 = (r, w2) \<Longrightarrow> effect_history kc pt granted w w2"
| history_save: "effect_history kc pt granted w w1 \<Longrightarrow> saveSource pt save w1 = (rs, w2) \<Longrightarrow> effect_history kc pt granted w w2"
| history_review: "effect_history kc pt granted w w1 \<Longrightarrow> registerReview pt call w1 = (re, w2) \<Longrightarrow> effect_history kc pt granted w w2"
| history_publish: "effect_history kc pt granted w w1 \<Longrightarrow> publishTarget kc pt call w1 = (re, w2) \<Longrightarrow> effect_history kc pt granted w w2"
| history_activate: "effect_history kc pt granted w w1 \<Longrightarrow> activateRelease kc pt call w1 = (re, w2) \<Longrightarrow> effect_history kc pt granted w w2"
| history_others: "effect_history kc pt granted w w1 \<Longrightarrow> granted (ps w1) \<subseteq> granted s \<Longrightarrow> effect_history kc pt granted w (w1\<lparr>ps := s\<rparr>)"

lemma effect_history_once:
  assumes "effect_history kc pt granted w w'" "single_use pt granted" "once granted w"
  shows "once granted w'"
  using assms(1)
proof (induction rule: effect_history.induct)
  case (history_candidate w1 inp r w2)
  then show ?case using keeps_onceD [OF registerCandidate_once [OF assms(2)]] by blast
next
  case (history_save w1 save rs w2)
  then show ?case using keeps_onceD [OF saveSource_once [OF assms(2)]] by blast
next
  case (history_review w1 call re w2)
  then show ?case using keeps_onceD [OF registerReview_once [OF assms(2)]] by blast
next
  case (history_publish w1 call re w2)
  then show ?case using keeps_onceD [OF publishTarget_once [OF assms(2)]] by blast
next
  case (history_activate w1 call re w2)
  then show ?case using keeps_onceD [OF activateRelease_once [OF assms(2)]] by blast
next
  case (history_others w1 s)
  then show ?case by (auto simp: once_def)
qed (rule assms(3))

end
