(* ===== verification/ReleaseProofs.thy ===== *)
theory ReleaseProofs
  imports ReleaseActs "HOL-Library.Multiset"
begin

text \<open>
  What the effect and release Activities promise over any Control that permits an effect once: one send per effect,
  a publication checked against what the target serves, a subject bound to its certification; with a
  registration that is lost, a publication and a subject as examples.
\<close>

section \<open>What a succeeded mutation rests on\<close>

text \<open>A mutation answered as succeeded settled an answer of the port, to its send or to its query.\<close>

lemma guarded_effect_succeeded:
  assumes "guarded_effect pt e what send query judge w = (Inr res, w')" "rx_State res = ''succeeded''"
  shows "\<exists>effectID answer v out v'. ((\<exists>s s'. send effectID s = (Inr answer, s')) \<or> (\<exists>s s'. query effectID s = (Inr (answer, True), s'))) \<and>
    judge effectID answer v = ((res, out), v')"
proof -
  obtain x w1 where one: "prepared (re_CommandID e) (fp_PrepareReleaseEffect pt e) w = (x, w1)" by fastforce
  obtain permit where x: "x = Inr permit" using assms(1) one by (cases x) (auto simp: guarded_effect_def)
  have settled: "\<exists>out v'. judge (ep_EffectID permit) answer v = ((res, out), v')"
    if "settle_effect pt e permit source judge answer v = (Inr res, w')" for source answer v
  proof -
    obtain res1 o1 o2 o3 v1 where j: "judge (ep_EffectID permit) answer v = ((res1, o1, o2, o3), v1)" by (metis surj_pair)
    then have "res1 = res" using that by (auto simp: settle_effect_def split: if_splits prod.splits option.splits)
    then show ?thesis using j by blast
  qed
  have quiet: "rx_State (unknown_effect i) \<noteq> ''succeeded''" "rx_State (effect_state ''denied'' i t c) \<noteq> ''succeeded''" for i t c
    by (simp_all add: unknown_effect_def effect_state_def)
  have active: "ep_State permit \<noteq> ''denied''" using assms one x quiet(2) by (auto simp: guarded_effect_def)
  show ?thesis
  proof (cases "ep_Permitted permit")
    case True
    obtain y w2 where two: "port (Sent (ep_EffectID permit) what) (send (ep_EffectID permit)) w1 = (y, w2)" by fastforce
    show ?thesis
    proof (cases y)
      case (Inl err)
      then show ?thesis using assms one x active True two quiet(1) by (auto simp: guarded_effect_def split: prod.splits option.splits)
    next
      case (Inr answer)
      then have "settle_effect pt e permit ''workflow'' judge answer w2 = (Inr res, w')"
        using assms(1) one x active True two by (simp add: guarded_effect_def)
      then show ?thesis using settled two [unfolded port_result] Inr by metis
    qed
  next
    case False
    obtain y w2 where two: "port (Asked (ep_EffectID permit)) (query (ep_EffectID permit)) w1 = (y, w2)" by fastforce
    obtain answer known where y: "y = Inr (answer, known)" using assms(1) one x active False two by (cases y) (auto simp: guarded_effect_def)
    have known using assms one x active False two y quiet(1) by (auto simp: guarded_effect_def split: if_splits)
    then have "settle_effect pt e permit ''workflow-query'' judge answer w2 = (Inr res, w')"
      using assms(1) one x active False two y by (simp add: guarded_effect_def)
    then show ?thesis using settled two [unfolded port_result] y \<open>known\<close> by metis
  qed
qed

text \<open>A receipt that is not refused binds everything the call names.\<close>

definition receipt_binds :: "release_codec \<Rightarrow> release_effect_call \<Rightarrow> string \<Rightarrow> publication_receipt \<Rightarrow> bool" where
  "receipt_binds kc call effectID r \<longleftrightarrow>
     pr_EffectID r = effectID \<and> pr_ReceiptID r \<noteq> '''' \<and> pr_Target r = rz_Target call \<and> pr_ReleaseID r = rz_ReleaseID call \<and>
     pr_SubjectDigest r = rs_SubjectDigest (rz_Subject call) \<and> pr_PackageName r = rs_PackageName (rz_Subject call) \<and>
     pr_Version r = rs_Version (rz_Subject call) \<and> pr_Destination r = destination_of call \<and> pr_Files r = wanted call \<and>
     (rz_Target call = ''browser'' \<longrightarrow> pr_ManifestDigest r = Digest kc (manifest_of kc call))"

lemma receipt_refusal_None: "receipt_refusal kc call effectID r = None \<Longrightarrow> receipt_binds kc call effectID r"
  by (auto simp: receipt_refusal_def receipt_binds_def Let_def split: if_splits)

definition serves :: "release_codec \<Rightarrow> 's effect_ports \<Rightarrow> release_effect_call \<Rightarrow> string \<Rightarrow> string \<Rightarrow> bool" where
  "serves kc pt call path d \<longleftrightarrow> (\<exists>s body s'. fp_FetchPublished pt (rz_Target call) (destination_of call) (rz_ReleaseID call) (served_name call path) s =
     (Inr body, s') \<and> Digest kc body = d)"

lemma check_served_True: "check_served kc pt call path d w = (True, w') \<Longrightarrow> serves kc pt call path d"
  unfolding check_served_def serves_def by (auto simp: port_result split: prod.splits sum.splits)

lemma check_files_True: "check_files kc pt call files w = (True, w') \<Longrightarrow> (path, d) \<in> set files \<Longrightarrow> serves kc pt call path d"
proof (induction kc pt call files w rule: check_files.induct)
  case (2 kc pt call p dg files w)
  obtain ok w1 where one: "check_served kc pt call p dg w = (ok, w1)" by fastforce
  then have ok using 2(2) by (cases ok) auto
  then show ?case using 2 one check_served_True by auto
qed simp

section \<open>The subject\<close>

definition style_bound :: "file_receipt \<Rightarrow> release_style \<Rightarrow> bool" where
  "style_bound f st \<longleftrightarrow> ry_Path st = ft_Path f \<and> validReleasePath (ft_Path f) \<and>
     sa_Digest (ry_Artifact st) = ft_Digest f \<and> sa_SizeBytes (ry_Artifact st) = ft_SizeBytes f"

lemma bind_styles_Some:
  "bind_styles fs css = Some (ds, ss) \<Longrightarrow> list_all2 style_bound fs ss \<and> mset (map ry_Artifact ss) \<subseteq># mset css \<and>
    ds = map (\<lambda>f. \<lparr>ad_Digest = ft_Digest f, ad_SizeBytes = ft_SizeBytes f\<rparr>) fs"
proof (induction fs css arbitrary: ds ss rule: bind_styles.induct)
  case (2 f fs css)
  let ?P = "\<lambda>a. sa_Digest a = ft_Digest f \<and> sa_SizeBytes a = ft_SizeBytes f"
  obtain a where a: "List.find ?P css = Some a" using 2(2) by (auto split: option.splits)
  have at: "a \<in> set css" "?P a" using a by (auto simp: find_Some_iff)
  obtain ds' ss' where rest: "validReleasePath (ft_Path f)" "bind_styles fs (remove1 a css) = Some (ds', ss')"
      "ds = \<lparr>ad_Digest = ft_Digest f, ad_SizeBytes = ft_SizeBytes f\<rparr> # ds'" "ss = \<lparr>ry_Path = ft_Path f, ry_Artifact = a\<rparr> # ss'"
    using 2(2) a by (auto split: if_splits)
  have ih: "list_all2 style_bound fs ss' \<and> mset (map ry_Artifact ss') \<subseteq># mset (remove1 a css) \<and>
      ds' = map (\<lambda>f. \<lparr>ad_Digest = ft_Digest f, ad_SizeBytes = ft_SizeBytes f\<rparr>) fs"
    using 2(1) [OF a _ rest(2)] rest(1) by simp
  then have "mset (map ry_Artifact ss') + {#a#} \<subseteq># mset css"
    using at(1) by (simp add: insert_subset_eq_iff)
  moreover have "style_bound f \<lparr>ry_Path = ft_Path f, ry_Artifact = a\<rparr>" using rest(1) at(2) by (simp add: style_bound_def)
  ultimately show ?case using ih rest by simp
qed simp

lemma last_of_class_Some: "last_of_class cls arts = Some a \<Longrightarrow> a \<in> set arts \<and> sa_Class a = cls"
  by (auto simp: last_of_class_def find_Some_iff) (metis nth_mem set_rev length_rev)

section \<open>Properties\<close>

text \<open>
  C8. Nothing is sent twice. Over any calls of the worker's business writes, first calls and retries, in any order and with any of their port calls failing,
  when Control permits an effect identity at most once, no effect identity is sent twice, and every send directly
  follows the permit Control answered for it.
\<close>

theorem effects_sent_once:
  assumes "effect_history kc pt granted w w'" "single_use pt granted" "plog w = []"
  shows "distinct (sent_ids (plog w')) \<and> sends_permitted (plog w')"
  using effect_history_once [OF assms(1,2)] assms(3) by (simp add: once_def)

text \<open>
  C12. A publication counts only when it is served. A target is answered as succeeded only if the receipt the port answered for the
  effect names the subject, the release, the version, the destination and exactly the certified files, and every one of those files,
  and the manifest of a browser target, was read back from the destination with its digest.
\<close>

theorem publishTarget_verified:
  assumes "publishTarget kc pt call w = (Inr res, w')" "rx_State res = ''succeeded''"
  shows "\<exists>answer r. ((\<exists>files s s'. fp_Publish pt (rx_EffectID res) (publication kc call files) s = (Inr answer, s')) \<or>
      (\<exists>s s'. fp_QueryPublication pt (rx_EffectID res) s = (Inr (answer, True), s'))) \<and>
    pb_State answer = ''published'' \<and> kc_receipt kc (pb_Receipt answer) = Some r \<and> receipt_binds kc call (rx_EffectID res) r \<and>
    tr_ReceiptID (rx_Target res) = pr_ReceiptID r \<and> tr_ReceiptDigest (rx_Target res) = Digest kc (pb_Receipt answer) \<and>
    (\<forall>(path, d) \<in> set (served_files kc call). serves kc pt call path d)"
proof -
  obtain files w1 where "guarded_effect pt (rz_Effect call) (PublicationSent (publication kc call files))
      (\<lambda>i. fp_Publish pt i (publication kc call files)) (fp_QueryPublication pt) (settle_publication kc pt call) w1 = (Inr res, w')"
    using assms(1) by (auto simp: publishTarget_def split: prod.splits sum.splits)
  from guarded_effect_succeeded [OF this assms(2)] obtain effectID answer v out v' where
    g: "(\<exists>s s'. fp_Publish pt effectID (publication kc call files) s = (Inr answer, s')) \<or> (\<exists>s s'. fp_QueryPublication pt effectID s = (Inr (answer, True), s'))"
    and j: "settle_publication kc pt call effectID answer v = ((res, out), v')" by blast
  have pub: "pb_State answer = ''published''" using j assms(2) by (auto simp: settle_publication_def effect_state_def Let_def split: if_splits)
  obtain t code v1 where vp: "verifyPublication kc pt call effectID (pb_Receipt answer) v = ((t, code), v1)" by (metis surj_pair)
  have ok: "code = ''''" using j assms(2) pub vp by (auto simp: settle_publication_def Let_def split: if_splits)
  then have res: "rx_EffectID res = effectID" "tr_ReceiptID (rx_Target res) = tr_ReceiptID t" "tr_ReceiptDigest (rx_Target res) = Digest kc (pb_Receipt answer)"
    using j pub vp by (auto simp: settle_publication_def Let_def)
  obtain r where r: "kc_receipt kc (pb_Receipt answer) = Some r" using vp ok by (auto simp: verifyPublication_def split: option.splits)
  have none: "receipt_refusal kc call effectID r = None"
    using vp ok r by (auto simp: verifyPublication_def receipt_refusal_def Let_def split: option.splits if_splits)
  obtain v2 where cf: "check_files kc pt call (served_files kc call) v = (True, v2)" and t: "t = receipt_target effectID r"
    using vp ok r none by (auto simp: verifyPublication_def split: prod.splits if_splits)
  have "\<forall>(path, d) \<in> set (served_files kc call). serves kc pt call path d" using check_files_True [OF cf] by blast
  moreover have "tr_ReceiptID (rx_Target res) = pr_ReceiptID r" using res(2) by (simp add: t receipt_target_def)
  moreover have "(\<exists>files s s'. fp_Publish pt (rx_EffectID res) (publication kc call files) s = (Inr answer, s')) \<or>
      (\<exists>s s'. fp_QueryPublication pt (rx_EffectID res) s = (Inr (answer, True), s'))" using g unfolding res(1) by blast
  ultimately show ?thesis using pub r receipt_refusal_None [OF none] res(3) unfolding res(1) by blast
qed

definition subject_bound :: "release_codec \<Rightarrow> build_subject_input \<Rightarrow> stage_artifact \<Rightarrow> stage_artifact list \<Rightarrow> certification \<Rightarrow> built_subject \<Rightarrow> bool" where
  "subject_bound kc inp evidence css c built \<longleftrightarrow> ce_Complete c \<and> ce_Verdict c = ''certified'' \<and>
     cb_SourceRevision (ce_Bindings c) = rb_SourceRevision (bu_Binding inp) \<and> cb_Version (ce_Bindings c) = rb_PackageVersion (bu_Binding inp) \<and>
     (let s = bs_Subject built; arts = bs_Artifacts built; b = ce_Bindings c in
       s\<lparr>rs_SubjectDigest := ''''\<rparr> = subject_of inp b evidence (rs_CSS s) \<and> rs_SubjectDigest s = ComputeSubjectDigest kc s \<and>
       sa_Digest (rf_Npm arts) = ad_Digest (cb_Npm b) \<and> sa_Digest (rf_Browser arts) = ad_Digest (cb_Browser b) \<and>
       list_all2 style_bound (cb_CSS b) (rf_CSS arts) \<and> mset (map ry_Artifact (rf_CSS arts)) = mset css)"

lemma built_of_bound:
  assumes "built_of kc hostAbi inp evidence npm browser css raw = Inr built"
  shows "\<exists>doc c. kc_certification kc raw = Some doc \<and> cd_Certification doc = Some c \<and> subject_bound kc inp evidence css c built"
proof -
  obtain doc c where c: "kc_certification kc raw = Some doc" "cd_Certification doc = Some c"
    "binding_refusal hostAbi inp doc c npm browser css = None" using assms by (auto simp: built_of_def split: option.splits)
  obtain ds styles where st: "bind_styles (cb_CSS (ce_Bindings c)) css = Some (ds, styles)"
    using assms c by (auto simp: built_of_def split: option.splits)
  note bs = bind_styles_Some [OF st]
  define s0 where "s0 = subject_of inp (ce_Bindings c) evidence ds"
  have built: "built = \<lparr>bs_Subject = s0\<lparr>rs_SubjectDigest := ComputeSubjectDigest kc s0\<rparr>, bs_Artifacts = \<lparr>rf_Npm = npm, rf_Browser = browser, rf_CSS = styles\<rparr>\<rparr>"
    using assms c st by (simp add: built_of_def Let_def s0_def)
  have ok: "ce_Complete c" "ce_Verdict c = ''certified''" "cb_SourceRevision (ce_Bindings c) = rb_SourceRevision (bu_Binding inp)"
    "cb_Version (ce_Bindings c) = rb_PackageVersion (bu_Binding inp)" "ad_Digest (cb_Npm (ce_Bindings c)) = sa_Digest npm"
    "ad_Digest (cb_Browser (ce_Bindings c)) = sa_Digest browser" "length (cb_CSS (ce_Bindings c)) = length css"
    using c(3) by (auto simp: binding_refusal_def Let_def split: if_splits)
  have len: "length styles = length css" using bs ok(7) list_all2_lengthD by fastforce
  have "\<not> mset (map ry_Artifact styles) \<subset># mset css"
    using mset_subset_size len by (metis length_map less_irrefl size_mset)
  then have same: "mset (map ry_Artifact styles) = mset css" using bs subset_mset.le_imp_less_or_eq by blast
  have sub: "s0\<lparr>rs_SubjectDigest := ''''\<rparr> = s0" "rs_CSS s0 = ds" "s0 = subject_of inp (ce_Bindings c) evidence ds" by (simp_all add: s0_def subject_of_def)
  have digest: "ComputeSubjectDigest kc s0 = ComputeSubjectDigest kc (s0\<lparr>rs_SubjectDigest := d\<rparr>)" for d by (simp add: ComputeSubjectDigest_def)
  have "subject_bound kc inp evidence css c built"
    unfolding subject_bound_def built Let_def
    using bs ok(1-6) same sub digest [of "ComputeSubjectDigest kc s0"] by simp
  with c(1,2) show ?thesis by blast
qed


section \<open>Examples\<close>

text \<open>A Control that permits the effect of a command once, and an upstream that loses the answer of a registration and publishes.\<close>

definition permit_of :: "string \<Rightarrow> string list \<times> 'u \<Rightarrow> (wf_error + effect_permit) \<times> (string list \<times> 'u)" where
  "permit_of command s =
     (let e = ''eff_'' @ command;
          answer = (\<lambda>permitted. Inr \<lparr>ep_EffectID = e, ep_Permitted = permitted, ep_State = ''permitted'', ep_Outcome = '''', ep_DenialCode = '''', ep_OutcomeRef = ''''\<rparr>) in
      if e \<in> set (fst s) then (answer False, s) else (answer True, (e # fst s, snd s)))"

definition example_receipt :: publication_receipt where
  "example_receipt = \<lparr>pr_SchemaVersion = 1, pr_Target = ''npm'', pr_ReceiptID = ''rcpt_1'', pr_EffectID = ''eff_publish'', pr_SubjectDigest = ''sha256:subject'',
     pr_ReleaseID = ''rel_1'', pr_PackageName = ''@anvilkit/hero'', pr_Version = ''1.0.0'', pr_Destination = ''npm'', pr_ManifestDigest = '''',
     pr_Files = [\<lparr>ft_Path = ''hero-1.0.0.tgz'', ft_Digest = ''sha256:tarball'', ft_SizeBytes = ''7''\<rparr>]\<rparr>"

definition example_ports :: "(string list \<times> 'u) effect_ports" where
  "example_ports =
     \<lparr>fp_PrepareEffect = (\<lambda>i. permit_of (rc_CommandID i)), fp_PrepareReleaseEffect = (\<lambda>i. permit_of (re_CommandID i)),
      fp_ObserveEffect = (\<lambda>ob s. (None, s)),
      fp_RegisterCandidate = (\<lambda>i x s. (Inl plain_error, s)), fp_QueryRegistration = (\<lambda>i s. (Inr (candidate_answer '''' '''' '''' '''', False), s)),
      fp_SaveRevision = (\<lambda>i x s. (Inl plain_error, s)), fp_QuerySave = (\<lambda>i s. (Inr (save_answer '''' '''' '''', False), s)),
      fp_RegisterReview = (\<lambda>i x s. (Inl plain_error, s)), fp_QueryReview = (\<lambda>i s. (Inl plain_error, s)),
      fp_Publish = (\<lambda>i x s. (Inr \<lparr>pb_State = ''published'', pb_Receipt = ''r'', pb_FailureCode = ''''\<rparr>, s)),
      fp_QueryPublication = (\<lambda>i s. (Inl plain_error, s)), fp_FetchPublished = (\<lambda>t d r n s. (Inr ''tarball'', s)),
      fp_Activate = (\<lambda>i x s. (Inl plain_error, s)), fp_QueryActivation = (\<lambda>i s. (Inl plain_error, s)),
      fp_Read = (\<lambda>t p x h l s. (Inr ''evidence'', s)), fp_Now = (\<lambda>s. 0)\<rparr>"

lemma permit_of_once: "permits_once (set \<circ> fst) (permit_of command)"
  by (auto simp: permits_once_def grows_def permit_of_def Let_def split: if_splits)

lemma example_single_use: "single_use example_ports (set \<circ> fst)"
  by (simp add: single_use_def example_ports_def permit_of_once) (simp add: grows_def)

definition example_candidate :: register_candidate_input where
  "example_candidate = \<lparr>rc_OperationID = ''op_1'', rc_TenantID = ''t1'', rc_AttemptID = ''att_1'', rc_InstanceID = '''', rc_ExecutionEpoch = 1,
     rc_CommandID = ''op_1:candidate:1'', rc_Occurrence = 1, rc_Subject = ''source:s'', rc_SourceRevision = ''1'', rc_Source = no_artifact,
     rc_Certification = no_artifact, rc_Lease = no_lease, rc_Deadline = minute\<rparr>"

definition example_start :: "(string list \<times> unit) port_world" where
  "example_start = \<lparr>ps = ([], ()), plog = []\<rparr>"

lemmas effect_eval = registerCandidate_def prepared_def port_def example_ports_def permit_of_def Let_def query_candidate_def example_candidate_def
  example_start_def observe_candidate_def observe_effect_def

text \<open>The registration is sent once, its answer is lost, and the retry asks.\<close>

lemma example_sent: "registerCandidate example_ports example_candidate example_start =
    (Inl plain_error, snd (registerCandidate example_ports example_candidate example_start))"
  by (simp add: effect_eval)

definition example_retry :: "(string list \<times> unit) port_world" where
  "example_retry = snd (registerCandidate example_ports example_candidate (snd (registerCandidate example_ports example_candidate example_start)))"

lemma example_retry_sent: "sent_ids (plog example_retry) = [''eff_op_1:candidate:1'']"
  by (simp add: example_retry_def effect_eval sent_ids_def map_filter_simps)

definition example_subject :: release_subject where
  "example_subject = \<lparr>rs_SchemaVersion = 1, rs_ComponentID = ''cmp_hero'', rs_PuckType = ''Hero'', rs_SourceRevision = ''3'', rs_SourceDigest = ''sha256:s'',
     rs_PackageName = ''@anvilkit/hero'', rs_Version = ''1.0.0'', rs_Npm = \<lparr>ad_Digest = ''sha256:tarball'', ad_SizeBytes = ''7''\<rparr>,
     rs_Browser = \<lparr>ad_Digest = ''sha256:b'', ad_SizeBytes = ''8''\<rparr>, rs_CSS = [], rs_BuildProfileID = '''', rs_BuildProfileDigest = '''',
     rs_ValidatorProfileID = '''', rs_ValidatorProfileDigest = '''', rs_HostAbi = ''host-abi-v1'', rs_HostAbiDigest = '''',
     rs_Destinations = \<lparr>rd_NpmRegistry = ''npm'', rd_BrowserOrigin = ''cdn''\<rparr>, rs_CertificationEvidenceDigest = ''sha256:e'',
     rs_SubjectDigest = ''sha256:subject''\<rparr>"

definition example_call :: release_effect_call where
  "example_call = \<lparr>rz_Effect = \<lparr>re_OperationID = ''op_1'', re_TenantID = ''t1'', re_CommandID = ''publish'', re_AttemptID = ''att_1'', re_ExecutionEpoch = 1,
       re_Kind = ''publication'', re_Occurrence = 1, re_CanonicalSubject = ''s'', re_Deadline = minute\<rparr>,
     rz_Subject = example_subject, rz_ReleaseID = ''rel_1'', rz_Target = ''npm'',
     rz_Artifacts = \<lparr>rf_Npm = no_artifact, rf_Browser = no_artifact, rf_CSS = []\<rparr>, rz_ExpectedCatalogRevision = ''''\<rparr>"

definition example_bindings :: certification_bindings where
  "example_bindings = \<lparr>cb_ComponentID = ''cmp_hero'', cb_PuckType = ''Hero'', cb_SourceRevision = ''3'', cb_SourceDigest = ''sha256:s'',
     cb_PackageName = ''@anvilkit/hero'', cb_Version = ''1.0.0'', cb_BuildProfileID = '''', cb_BuildProfileDigest = '''', cb_ValidatorProfileID = '''',
     cb_ValidatorProfileDigest = '''', cb_HostAbi = ''host-abi-v1'', cb_HostAbiDigest = '''', cb_Npm = \<lparr>ad_Digest = ''sha256:tarball'', ad_SizeBytes = ''7''\<rparr>,
     cb_Browser = \<lparr>ad_Digest = ''sha256:b'', ad_SizeBytes = ''8''\<rparr>,
     cb_CSS = [\<lparr>ft_Path = ''styles/main.css'', ft_Digest = ''sha256:c'', ft_SizeBytes = ''9''\<rparr>]\<rparr>"

definition example_release_codec :: release_codec where
  "example_release_codec =
     \<lparr>kc_manifest = (\<lambda>m. ''manifest''), kc_subject = (\<lambda>s. rs_ComponentID s), kc_receipt = (\<lambda>s. Some example_receipt),
      kc_activation = (\<lambda>s. (\<lparr>vt_SchemaVersion = 1, vt_ReceiptID = '''', vt_EffectID = '''', vt_SubjectDigest = '''', vt_CatalogRevision = '''',
        vt_Lock = LockOf example_subject '''' ''''\<rparr>, False)),
      kc_certification = (\<lambda>s. Some \<lparr>cd_Verdict = ''certified'', cd_Certification = Some \<lparr>ce_Verdict = ''certified'', ce_Complete = True,
        ce_Bindings = example_bindings\<rparr>\<rparr>),
      kc_sha256 = (\<lambda>s. s)\<rparr>"

theorem effects_sent_once_witness:
  "effect_history example_release_codec example_ports (set \<circ> fst) example_start example_retry \<and> sent_ids (plog example_retry) = [''eff_op_1:candidate:1''] \<and>
    sends_permitted (plog example_retry)"
proof -
  have "effect_history example_release_codec example_ports (set \<circ> fst) example_start (snd (registerCandidate example_ports example_candidate example_start))"
    by (rule history_candidate [OF history_start surjective_pairing])
  then have h: "effect_history example_release_codec example_ports (set \<circ> fst) example_start example_retry"
    unfolding example_retry_def by (rule history_candidate [OF _ surjective_pairing])
  from effects_sent_once [OF h example_single_use] h show ?thesis by (simp add: example_retry_sent example_start_def)
qed

definition example_published :: release_effect_result where
  "example_published = no_effect\<lparr>rx_State := ''succeeded'', rx_EffectID := ''eff_publish'',
     rx_Target := (receipt_target ''eff_publish'' example_receipt)\<lparr>tr_ReceiptDigest := ''sha256:r'', tr_State := ''succeeded''\<rparr>\<rparr>"

lemma example_wanted: "wanted example_call = [\<lparr>ft_Path = ''hero-1.0.0.tgz'', ft_Digest = ''sha256:tarball'', ft_SizeBytes = ''7''\<rparr>]"
  by (simp add: wanted_def example_call_def example_subject_def tarballName_def Let_def)

lemma example_verified:
  "fst (verifyPublication example_release_codec example_ports example_call ''eff_publish'' ''r'' w) = (receipt_target ''eff_publish'' example_receipt, '''')"
proof -
  have none: "receipt_refusal example_release_codec example_call ''eff_publish'' example_receipt = None"
    unfolding receipt_refusal_def example_wanted by (simp add: example_receipt_def example_call_def example_subject_def destination_of_def)
  have files: "served_files example_release_codec example_call = [(''hero-1.0.0.tgz'', ''sha256:tarball'')]"
    unfolding served_files_def example_wanted by (simp add: example_call_def)
  have "fst (check_files example_release_codec example_ports example_call [(''hero-1.0.0.tgz'', ''sha256:tarball'')] w)"
    by (simp add: check_served_def port_def example_ports_def Digest_def example_release_codec_def)
  moreover have "kc_receipt example_release_codec ''r'' = Some example_receipt" by (simp add: example_release_codec_def)
  moreover obtain ok w1 where chk: "check_files example_release_codec example_ports example_call [(''hero-1.0.0.tgz'', ''sha256:tarball'')] w = (ok, w1)"
    by fastforce
  ultimately show ?thesis unfolding verifyPublication_def using none files by (simp del: check_files.simps)
qed

lemma example_publication:
  "\<exists>w'. publishTarget example_release_codec example_ports example_call example_start = (Inr example_published, w')"
proof -
  have "\<exists>out w'. settle_publication example_release_codec example_ports example_call ''eff_publish''
      \<lparr>pb_State = ''published'', pb_Receipt = ''r'', pb_FailureCode = ''''\<rparr> w = ((example_published, out), w')" for w :: "(string list \<times> unit) port_world"
    using example_verified [of w] by (cases "verifyPublication example_release_codec example_ports example_call ''eff_publish'' ''r'' w")
      (simp add: settle_publication_def Let_def example_published_def Digest_def example_release_codec_def)
  then have settled: "\<exists>a1 a2 a3 w'. settle_publication example_release_codec example_ports example_call ''eff_publish''
      \<lparr>pb_State = ''published'', pb_Receipt = ''r'', pb_FailureCode = ''''\<rparr> w = ((example_published, a1, a2, a3), w')" for w :: "(string list \<times> unit) port_world"
    by (metis prod_cases3)
  define w0 :: "(string list \<times> unit) port_world" where "w0 = \<lparr>ps = ([''eff_publish''], ()),
      plog = [Sent ''eff_publish'' (PublicationSent (publication example_release_codec example_call [\<lparr>pf_Path = ''hero-1.0.0.tgz'', pf_Bytes = ''evidence''\<rparr>])),
        Prepared ''publish'' (fst (permit_of ''publish'' ([], ()))), ReadArtifact ''t1'' ''op_1'' '''' '''' maxPublicationArtifact]\<rparr>"
  obtain a1 a2 a3 w1 where st: "settle_publication example_release_codec example_ports example_call ''eff_publish''
      \<lparr>pb_State = ''published'', pb_Receipt = ''r'', pb_FailureCode = ''''\<rparr> w0 = ((example_published, a1, a2, a3), w1)" using settled by blast
  have files: "target_files example_call = [(no_artifact, ''hero-1.0.0.tgz'')]"
    by (simp add: target_files_def example_call_def example_subject_def tarballName_def)
  have call: "rz_Effect example_call = \<lparr>re_OperationID = ''op_1'', re_TenantID = ''t1'', re_CommandID = ''publish'', re_AttemptID = ''att_1'', re_ExecutionEpoch = 1,
       re_Kind = ''publication'', re_Occurrence = 1, re_CanonicalSubject = ''s'', re_Deadline = minute\<rparr>" by (simp add: example_call_def)
  have ports: "fp_PrepareReleaseEffect example_ports i = permit_of (re_CommandID i)" "fp_Read example_ports t p x h l s = (Inr ''evidence'', s)"
    "fp_Publish example_ports e y s = (Inr \<lparr>pb_State = ''published'', pb_Receipt = ''r'', pb_FailureCode = ''''\<rparr>, s)"
    "fp_ObserveEffect example_ports ob s = (None, s)" for i t p x h l s e y ob by (simp_all add: example_ports_def)
  show ?thesis
    unfolding publishTarget_def files guarded_effect_def call
    using st by (simp add: read_stage_def port_def ports no_artifact_def call prepared_def permit_of_def Let_def example_start_def
        settle_effect_def observe_effect_def w0_def)
qed

theorem publishTarget_verified_witness:
  "\<exists>w'. publishTarget example_release_codec example_ports example_call example_start = (Inr example_published, w') \<and>
    serves example_release_codec (example_ports :: (string list \<times> unit) effect_ports) example_call ''hero-1.0.0.tgz'' ''sha256:tarball''"
proof -
  obtain w' where run: "publishTarget example_release_codec example_ports example_call example_start = (Inr example_published, w')"
    using example_publication by blast
  have "(''hero-1.0.0.tgz'', ''sha256:tarball'') \<in> set (served_files example_release_codec example_call)"
    unfolding served_files_def example_wanted by (simp add: example_call_def)
  with publishTarget_verified [OF run] run show ?thesis by (auto simp: example_published_def)
qed

definition example_art :: "string \<Rightarrow> string \<Rightarrow> string \<Rightarrow> stage_artifact" where
  "example_art cls d n = no_artifact\<lparr>sa_Class := cls, sa_Digest := d, sa_SizeBytes := n\<rparr>"

definition example_build :: build_subject_input where
  "example_build = \<lparr>bu_OperationID = ''op_1'', bu_TenantID = ''t1'',
     bu_Binding = \<lparr>rb_ProfileID = ''p'', rb_Lineage = ''l'', rb_SourceRevision = ''3'', rb_PackageVersion = ''1.0.0'', rb_Source = no_artifact,
       rb_ExecutionEpoch = 1, rb_Deadline = minute, rb_Identity = None\<rparr>,
     bu_Stage = \<lparr>as_Found = True, as_StageID = ''st'', as_AttemptID = ''att_1'', as_Verdict = ''certified'', as_FailureCode = '''', as_ResultDigest = '''',
       as_ExecutionEpoch = ''1'', as_Artifacts = [example_art ''evidence'' ''sha256:e'' ''1'', example_art ''npm'' ''sha256:tarball'' ''7'',
         example_art ''browser'' ''sha256:b'' ''8'', example_art ''css'' ''sha256:c'' ''9'']\<rparr>,
     bu_Destinations = \<lparr>rd_NpmRegistry = ''npm'', rd_BrowserOrigin = ''cdn''\<rparr>\<rparr>"

lemma example_path: "validReleasePath ''styles/main.css''"
  by (simp add: validReleasePath_def releaseEntryPath_def releaseManifestPath_def path_char_def Let_def)

lemma example_built:
  "\<exists>built w'. buildReleaseSubject example_release_codec ''host-abi-v1'' example_ports example_build example_start = (Inr built, w')"
proof -
  have arts: "last_of_class ''evidence'' (as_Artifacts (bu_Stage example_build)) = Some (example_art ''evidence'' ''sha256:e'' ''1'')"
    "last_of_class ''npm'' (as_Artifacts (bu_Stage example_build)) = Some (example_art ''npm'' ''sha256:tarball'' ''7'')"
    "last_of_class ''browser'' (as_Artifacts (bu_Stage example_build)) = Some (example_art ''browser'' ''sha256:b'' ''8'')"
    "filter (\<lambda>a. sa_Class a = ''css'') (as_Artifacts (bu_Stage example_build)) = [example_art ''css'' ''sha256:c'' ''9'']"
    by (simp_all add: last_of_class_def example_build_def example_art_def no_artifact_def)
  have none: "binding_refusal ''host-abi-v1'' example_build \<lparr>cd_Verdict = ''certified'', cd_Certification = Some \<lparr>ce_Verdict = ''certified'', ce_Complete = True,
        ce_Bindings = example_bindings\<rparr>\<rparr> \<lparr>ce_Verdict = ''certified'', ce_Complete = True, ce_Bindings = example_bindings\<rparr>
      (example_art ''npm'' ''sha256:tarball'' ''7'') (example_art ''browser'' ''sha256:b'' ''8'') [example_art ''css'' ''sha256:c'' ''9''] = None"
    by (simp add: binding_refusal_def example_bindings_def example_build_def example_art_def no_artifact_def)
  have styles: "bind_styles (cb_CSS example_bindings) [example_art ''css'' ''sha256:c'' ''9''] \<noteq> None"
    by (simp add: example_bindings_def example_art_def no_artifact_def example_path)
  have "\<exists>built. built_of example_release_codec ''host-abi-v1'' example_build (example_art ''evidence'' ''sha256:e'' ''1'')
      (example_art ''npm'' ''sha256:tarball'' ''7'') (example_art ''browser'' ''sha256:b'' ''8'') [example_art ''css'' ''sha256:c'' ''9''] ''evidence'' = Inr built"
    using none styles by (auto simp: built_of_def example_release_codec_def Let_def)
  moreover have "as_Verdict (bu_Stage example_build) = ''certified''" by (simp add: example_build_def)
  moreover obtain w1 where "read_stage example_ports (bu_TenantID example_build) (bu_OperationID example_build)
      (example_art ''evidence'' ''sha256:e'' ''1'') maxCertificationBytes example_start = (Inr ''evidence'', w1)"
    by (simp add: read_stage_def port_def example_ports_def split: prod.splits)
  ultimately show ?thesis unfolding buildReleaseSubject_def Let_def arts by auto
qed


end
