(* ===== verification/Double.thy ===== *)
theory Double
  imports Effects "HOL-Library.AList" "HOL-Library.List_Lexorder" "HOL-Library.Char_ord"
begin

text \<open>
  The DEVELOPMENT_ONLY double of the Pagix ports (\<^verbatim>\<open>internal/adapters/pagix/double.go\<close>): leases with a fence
  per grant, candidate registrations and conditional saves recorded under their effect identity. A directory of
  JSON files is a map, or, where a call walks it, a list of named files; the file system and the JSON codec
  are taken to keep what they are given. The hexadecimal sha256 is the parameter \<open>sha\<close>; every
  operation takes the clock it reads.
\<close>

section \<open>State\<close>

record lease_fact =
  lf_LeaseID :: string
  lf_Subject :: string
  lf_Owner :: string
  lf_Fence :: nat
  lf_ExpiresAt :: time
  lf_Released :: bool
  lf_Renewals :: "string \<rightharpoonup> time"

record registration =
  rg_EffectID :: string
  rg_CandidateID :: string
  rg_Subject :: string
  rg_Digest :: string
  rg_Revision :: string

record lineage =
  ln_Revision :: nat
  ln_Digest :: string
  ln_Saves :: "string \<rightharpoonup> save_source_result"
  ln_Revisions :: "string \<rightharpoonup> string"

record double =
  db_Leases :: "string \<rightharpoonup> lease_fact"
  db_Registrations :: "string \<rightharpoonup> registration"
  db_Scopes :: "string \<rightharpoonup> string"
  db_Sources :: "(string \<times> lineage) list"
  db_Faults :: "string \<rightharpoonup> string"
  db_FaultFiles :: "string \<rightharpoonup> string"

text \<open>\<open>fault\<close>: an installed fault is consumed, in process before on disk.\<close>

definition fault_key :: "string \<Rightarrow> nat \<Rightarrow> string" where
  "fault_key kind occurrence = kind @ '':'' @ show_nat occurrence"

definition fault :: "string \<Rightarrow> nat \<Rightarrow> double \<Rightarrow> string \<times> double" where
  "fault kind occurrence d =
     (let key = fault_key kind occurrence in
      case db_Faults d key of
        Some f \<Rightarrow> (f, d\<lparr>db_Faults := (db_Faults d)(key := None)\<rparr>)
      | None \<Rightarrow>
          (case db_FaultFiles d key of
             None \<Rightarrow> ('''', d)
           | Some f \<Rightarrow> (f, d\<lparr>db_FaultFiles := (db_FaultFiles d)(key := None)\<rparr>)))"

definition InstallFault :: "string \<Rightarrow> nat \<Rightarrow> string \<Rightarrow> double \<Rightarrow> double" where
  "InstallFault kind occurrence f d = d\<lparr>db_Faults := (db_Faults d)(fault_key kind occurrence \<mapsto> f)\<rparr>"

section \<open>Leases\<close>

definition lease_answer :: "string \<Rightarrow> string \<Rightarrow> lease_result" where
  "lease_answer state reason = no_lease_result\<lparr>lt_State := state, lt_Reason := reason\<rparr>"

definition held :: "lease_fact \<Rightarrow> lease_result" where
  "held rec = no_lease_result\<lparr>lt_State := ''held'', lt_LeaseID := lf_LeaseID rec, lt_Fence := show_nat (lf_Fence rec),
     lt_ExpiresAt := Some (lf_ExpiresAt rec)\<rparr>"

definition readLease :: "(string \<Rightarrow> string) \<Rightarrow> string \<Rightarrow> double \<Rightarrow> lease_fact option" where
  "readLease sha subject d = db_Leases d (sha subject)"

definition writeLease :: "(string \<Rightarrow> string) \<Rightarrow> lease_fact \<Rightarrow> double \<Rightarrow> double" where
  "writeLease sha rec d = d\<lparr>db_Leases := (db_Leases d)(sha (lf_Subject rec) \<mapsto> rec)\<rparr>"

definition lease_id :: "(string \<Rightarrow> string) \<Rightarrow> string \<Rightarrow> nat \<Rightarrow> string" where
  "lease_id sha subject fence = take 24 (''lease_'' @ sha (subject @ ''/'' @ show_nat fence))"

definition new_lease :: "(string \<Rightarrow> string) \<Rightarrow> lease_input \<Rightarrow> time \<Rightarrow> nat \<Rightarrow> lease_fact" where
  "new_lease sha inp at fence =
     \<lparr>lf_LeaseID = lease_id sha (le_Subject inp) fence, lf_Subject = le_Subject inp, lf_Owner = le_Owner inp, lf_Fence = fence,
      lf_ExpiresAt = at + le_TTL inp, lf_Released = False, lf_Renewals = Map.empty\<rparr>"

definition live :: "time \<Rightarrow> lease_fact \<Rightarrow> bool" where
  "live at rec \<longleftrightarrow> \<not> lf_Released rec \<and> lf_ExpiresAt rec > at"

definition Acquire :: "(string \<Rightarrow> string) \<Rightarrow> time \<Rightarrow> lease_input \<Rightarrow> double \<Rightarrow> lease_result \<times> double" where
  "Acquire sha at inp d0 =
     (case fault ''acquire'' (le_Occurrence inp) d0 of (f, d) \<Rightarrow>
      if f = ''unknown'' then (lease_answer ''unknown'' ''FAULT_INJECTED'', d)
      else if f = ''lost'' then (lease_answer ''lost'' ''FAULT_INJECTED'', d)
      else
        (let found = readLease sha (le_Subject inp) d in
         if (case found of Some rec \<Rightarrow> live at rec \<and> lf_Owner rec \<noteq> le_Owner inp | None \<Rightarrow> False)
         then (lease_answer ''lost'' ''HELD_BY_ANOTHER_OWNER'', d)
         else if (case found of Some rec \<Rightarrow> lf_Owner rec = le_Owner inp \<and> live at rec | None \<Rightarrow> False)
         then (held (the found), d)
         else (let fence = (case found of None \<Rightarrow> 1 | Some rec \<Rightarrow> lf_Fence rec + 1); rec = new_lease sha inp at fence in
               (held rec, writeLease sha rec d))))"

definition Renew :: "(string \<Rightarrow> string) \<Rightarrow> time \<Rightarrow> lease_input \<Rightarrow> double \<Rightarrow> lease_result \<times> double" where
  "Renew sha at inp d0 =
     (case fault ''renew'' (le_Occurrence inp) d0 of (f, d) \<Rightarrow>
      if f = ''unknown'' then (lease_answer ''unknown'' ''FAULT_INJECTED'', d)
      else if f = ''lost''
      then (lease_answer ''lost'' ''FAULT_INJECTED'',
            case readLease sha (le_Subject inp) d of None \<Rightarrow> d | Some rec \<Rightarrow> writeLease sha (rec\<lparr>lf_Released := True\<rparr>) d)
      else
        (case readLease sha (le_Subject inp) d of
           None \<Rightarrow> (lease_answer ''lost'' ''LEASE_NOT_HELD'', d)
         | Some rec \<Rightarrow>
             if lf_Released rec \<or> lf_LeaseID rec \<noteq> le_LeaseID inp \<or> show_nat (lf_Fence rec) \<noteq> le_Fence inp
             then (lease_answer ''lost'' ''LEASE_NOT_HELD'', d)
             else (let key = show_nat (le_Occurrence inp) in
                   case lf_Renewals rec key of
                     Some exp \<Rightarrow> ((held rec)\<lparr>lt_Fence := le_Fence inp, lt_ExpiresAt := Some exp\<rparr>, d)
                   | None \<Rightarrow>
                       if \<not> lf_ExpiresAt rec > at then (lease_answer ''lost'' ''LEASE_EXPIRED'', d)
                       else (let rec' = rec\<lparr>lf_ExpiresAt := at + le_TTL inp, lf_Renewals := (lf_Renewals rec)(key \<mapsto> at + le_TTL inp)\<rparr> in
                             (held rec', writeLease sha rec' d)))))"

definition Query :: "(string \<Rightarrow> string) \<Rightarrow> time \<Rightarrow> lease_input \<Rightarrow> double \<Rightarrow> lease_result \<times> double" where
  "Query sha at inp d0 =
     (case fault ''query'' (le_Occurrence inp) d0 of (f, d) \<Rightarrow>
      if f = ''unknown'' then (lease_answer ''unknown'' ''FAULT_INJECTED'', d)
      else
        (case readLease sha (le_Subject inp) d of
           None \<Rightarrow> (lease_answer ''lost'' ''LEASE_NOT_HELD'', d)
         | Some rec \<Rightarrow>
             if lf_Released rec \<or> lf_LeaseID rec \<noteq> le_LeaseID inp \<or> \<not> lf_ExpiresAt rec > at
             then (lease_answer ''lost'' ''LEASE_NOT_HELD'', d) else (held rec, d)))"

definition Release :: "(string \<Rightarrow> string) \<Rightarrow> lease_input \<Rightarrow> double \<Rightarrow> lease_result \<times> double" where
  "Release sha inp d =
     (case readLease sha (le_Subject inp) d of
        None \<Rightarrow> (lease_answer ''lost'' ''LEASE_NOT_HELD'', d)
      | Some rec \<Rightarrow>
          if lf_LeaseID rec \<noteq> le_LeaseID inp then (lease_answer ''lost'' ''LEASE_NOT_HELD'', d)
          else ((lease_answer ''lost'' ''RELEASED'')\<lparr>lt_LeaseID := lf_LeaseID rec, lt_Fence := show_nat (lf_Fence rec)\<rparr>,
                writeLease sha (rec\<lparr>lf_Released := True\<rparr>) d))"

section \<open>Scopes and registrations\<close>

definition CheckScope :: "(string \<Rightarrow> string) \<Rightarrow> source_scope_input \<Rightarrow> double \<Rightarrow> scope_decision" where
  "CheckScope sha inp d =
     (if db_Scopes d (sha (ss_SubjectDigest inp)) = Some ''denied''
      then \<lparr>sd_Allowed = False, sd_ReasonCode = ''SCOPE_DENIED'', sd_Revision = ''1''\<rparr>
      else \<lparr>sd_Allowed = True, sd_ReasonCode = '''', sd_Revision = ''1''\<rparr>)"

definition DenyScope :: "(string \<Rightarrow> string) \<Rightarrow> string \<Rightarrow> double \<Rightarrow> double" where
  "DenyScope sha subjectDigest d = d\<lparr>db_Scopes := (db_Scopes d)(sha subjectDigest \<mapsto> ''denied'')\<rparr>"

definition registration_of :: "(string \<Rightarrow> string) \<Rightarrow> string \<Rightarrow> register_candidate_input \<Rightarrow> registration" where
  "registration_of sha effectID inp =
     \<lparr>rg_EffectID = effectID, rg_CandidateID = ''cand_'' @ take 16 (sha effectID), rg_Subject = rc_Subject inp,
      rg_Digest = sa_Digest (rc_Source inp), rg_Revision = ''1''\<rparr>"

definition registered_as :: "string \<Rightarrow> registration \<Rightarrow> candidate_ref" where
  "registered_as effectID rec =
     \<lparr>cf_EffectID = effectID, cf_State = ''succeeded'', cf_CandidateID = rg_CandidateID rec, cf_Revision = rg_Revision rec, cf_DenialCode = ''''\<rparr>"

definition double_register :: "(string \<Rightarrow> string) \<Rightarrow> string \<Rightarrow> register_candidate_input \<Rightarrow> double \<Rightarrow> (wf_error + candidate_ref) \<times> double" where
  "double_register sha effectID inp d0 =
     (case fault ''register'' (rc_Occurrence inp) d0 of (f, d) \<Rightarrow>
      let rec = registration_of sha effectID inp; stored = d\<lparr>db_Registrations := (db_Registrations d)(sha effectID \<mapsto> rec)\<rparr> in
      if f = ''unknown'' then (Inl plain_error, stored)
      else case db_Registrations d (sha effectID) of
          Some old \<Rightarrow> (Inr (registered_as effectID old), d)
        | None \<Rightarrow> (Inr (registered_as effectID rec), stored))"

definition QueryRegistration :: "(string \<Rightarrow> string) \<Rightarrow> string \<Rightarrow> double \<Rightarrow> candidate_ref \<times> bool" where
  "QueryRegistration sha effectID d =
     (case db_Registrations d (sha effectID) of
        None \<Rightarrow> (candidate_answer '''' '''' '''' '''', False)
      | Some rec \<Rightarrow> (registered_as effectID rec, True))"

section \<open>Conditional saves\<close>

definition new_lineage :: lineage where
  "new_lineage = \<lparr>ln_Revision = 1, ln_Digest = '''', ln_Saves = Map.empty, ln_Revisions = Map.empty\<rparr>"

definition lineage_file :: "(string \<Rightarrow> string) \<Rightarrow> string \<Rightarrow> string" where
  "lineage_file sha subject = sha subject @ ''.json''"

definition readLineage :: "(string \<Rightarrow> string) \<Rightarrow> string \<Rightarrow> double \<Rightarrow> lineage" where
  "readLineage sha subject d = (case map_of (db_Sources d) (lineage_file sha subject) of None \<Rightarrow> new_lineage | Some l \<Rightarrow> l)"

text \<open>Writing a file keeps the place of its name, a new name comes last.\<close>

definition writeLineage :: "(string \<Rightarrow> string) \<Rightarrow> string \<Rightarrow> lineage \<Rightarrow> double \<Rightarrow> double" where
  "writeLineage sha subject l d = d\<lparr>db_Sources := AList.update (lineage_file sha subject) l (db_Sources d)\<rparr>"

definition save_outcome :: "string \<Rightarrow> save_source_input \<Rightarrow> lineage \<Rightarrow> save_source_result \<times> lineage" where
  "save_outcome effectID inp l =
     (if si_BaseRevision inp \<noteq> show_nat (ln_Revision l)
      then ((save_answer effectID ''conflict'' '''')\<lparr>sv_CurrentRevision := show_nat (ln_Revision l)\<rparr>, l)
      else (let rev = ln_Revision l + 1 in
            ((save_answer effectID ''saved'' '''')\<lparr>sv_Revision := show_nat rev\<rparr>,
             l\<lparr>ln_Revision := rev, ln_Digest := sa_Digest (si_Source inp), ln_Revisions := (ln_Revisions l)(show_nat rev \<mapsto> sa_Digest (si_Source inp))\<rparr>)))"

definition SaveRevision :: "(string \<Rightarrow> string) \<Rightarrow> string \<Rightarrow> save_source_input \<Rightarrow> double \<Rightarrow> (wf_error + save_source_result) \<times> double" where
  "SaveRevision sha effectID inp d =
     (let subject = ''source:'' @ si_Lineage inp; l = readLineage sha subject d in
      case ln_Saves l effectID of
        Some res \<Rightarrow> (Inr res, d)
      | None \<Rightarrow>
          (case save_outcome effectID inp l of (res, l1) \<Rightarrow>
           (case fault ''save'' (si_Occurrence inp) (writeLineage sha subject (l1\<lparr>ln_Saves := (ln_Saves l1)(effectID \<mapsto> res)\<rparr>) d) of (f, d1) \<Rightarrow>
            if f = ''unknown'' then (Inl plain_error, d1) else (Inr res, d1))))"

text \<open>\<open>os.ReadDir\<close> lists the files by name.\<close>

definition QuerySave :: "string \<Rightarrow> double \<Rightarrow> save_source_result \<times> bool" where
  "QuerySave effectID d =
     (case List.map_filter (\<lambda>(file, l). ln_Saves l effectID) (sort_key fst (db_Sources d)) of
        [] \<Rightarrow> (save_answer '''' '''' '''', False)
      | res # _ \<Rightarrow> (res, True))"

definition CurrentRevision :: "(string \<Rightarrow> string) \<Rightarrow> string \<Rightarrow> double \<Rightarrow> string" where
  "CurrentRevision sha subject d = show_nat (ln_Revision (readLineage sha subject d))"

definition SetRevision :: "(string \<Rightarrow> string) \<Rightarrow> string \<Rightarrow> nat \<Rightarrow> double \<Rightarrow> double" where
  "SetRevision sha subject revision d = writeLineage sha subject ((readLineage sha subject d)\<lparr>ln_Revision := revision\<rparr>) d"

section \<open>Content digests\<close>

definition ContentDigest :: "(string \<Rightarrow> string) \<Rightarrow> reference_scope \<Rightarrow> source_reference \<Rightarrow> wf_error + content_digest" where
  "ContentDigest sha scope ref =
     (if sr_SourceID ref = '''' then Inl plain_error
      else Inr \<lparr>cd_SourceID = sr_SourceID ref, cd_Revision = sr_Revision ref,
        cd_Digest = ''sha256:'' @ sha (''DEVELOPMENT_ONLY:'' @ es_TenantID scope @ ''/'' @ sr_SourceID ref @ ''@'' @ sr_Revision ref)\<rparr>)"

end
