(* ===== verification/DoubleLeases.thy ===== *)
theory DoubleLeases
  imports Double
begin

text \<open>
  The leases of the Pagix double: what one call moves at a subject, and that over any history of calls the fences
  tell every holder from its successors.
\<close>

section \<open>Leases\<close>

datatype lease_op = OpAcquire | OpRenew | OpQuery | OpRelease

definition lease_call :: "(string \<Rightarrow> string) \<Rightarrow> lease_op \<Rightarrow> time \<Rightarrow> lease_input \<Rightarrow> double \<Rightarrow> lease_result \<times> double" where
  "lease_call sha op at inp d =
     (case op of OpAcquire \<Rightarrow> Acquire sha at inp d | OpRenew \<Rightarrow> Renew sha at inp d | OpQuery \<Rightarrow> Query sha at inp d | OpRelease \<Rightarrow> Release sha inp d)"

type_synonym lease_answered = "lease_op \<times> time \<times> lease_input \<times> lease_result"

text \<open>Any calls of the lease port, newest first, with whatever else happens to the double's other files.\<close>

inductive lease_history :: "(string \<Rightarrow> string) \<Rightarrow> lease_answered list \<Rightarrow> double \<Rightarrow> bool" for sha where
  lease_start: "db_Leases d = Map.empty \<Longrightarrow> lease_history sha [] d"
| lease_called: "lease_history sha es d \<Longrightarrow> lease_call sha op at inp d = (r, d') \<Longrightarrow> lease_history sha ((op, at, inp, r) # es) d'"
| lease_others: "lease_history sha es d \<Longrightarrow> db_Leases d' = db_Leases d \<Longrightarrow> lease_history sha es d'"

lemma fault_leases: "fault kind n d = (f, d') \<Longrightarrow> db_Leases d' = db_Leases d"
  by (auto simp: fault_def Let_def split: option.splits)

lemma read_write [simp]:
  "readLease sha subject (writeLease sha rec d) = (if sha subject = sha (lf_Subject rec) then Some rec else readLease sha subject d)"
  by (simp add: readLease_def writeLease_def)

definition answered_fence :: "string \<Rightarrow> lease_answered \<Rightarrow> nat \<Rightarrow> bool" where
  "answered_fence subject e n \<longleftrightarrow> (case e of (op, at, inp, r) \<Rightarrow> le_Subject inp = subject \<and> lt_State r = ''held'' \<and> lt_Fence r = show_nat n)"

definition acquired_by :: "string \<Rightarrow> lease_answered \<Rightarrow> string \<Rightarrow> nat \<Rightarrow> bool" where
  "acquired_by subject e owner n \<longleftrightarrow> answered_fence subject e n \<and> fst e = OpAcquire \<and> le_Owner (fst (snd (snd e))) = owner"

text \<open>What one call leaves at a subject, and answers.\<close>

definition lease_moved :: "lease_op \<Rightarrow> lease_input \<Rightarrow> lease_result \<Rightarrow> lease_fact option \<Rightarrow> lease_fact option \<Rightarrow> bool" where
  "lease_moved op inp r before after \<longleftrightarrow>
     (\<forall>rec. before = Some rec \<longrightarrow> (\<exists>rec'. after = Some rec' \<and> lf_Subject rec' = lf_Subject rec \<and>
        (lf_Fence rec' = lf_Fence rec \<and> lf_Owner rec' = lf_Owner rec \<or>
         lf_Fence rec' = lf_Fence rec + 1 \<and> op = OpAcquire \<and> lf_Owner rec' = le_Owner inp))) \<and>
     (before = None \<longrightarrow> (\<forall>rec'. after = Some rec' \<longrightarrow> lf_Subject rec' = le_Subject inp)) \<and>
     (lt_State r = ''held'' \<longrightarrow> (\<exists>rec'. after = Some rec' \<and> lt_Fence r = show_nat (lf_Fence rec') \<and>
        (op = OpAcquire \<longrightarrow> lf_Owner rec' = le_Owner inp)))"

lemma lease_call_moves:
  assumes "lease_call sha op at inp d = (r, d')" "inj sha" "\<And>rec. readLease sha (le_Subject inp) d = Some rec \<Longrightarrow> lf_Subject rec = le_Subject inp"
  shows "lease_moved op inp r (readLease sha (le_Subject inp) d) (readLease sha (le_Subject inp) d')"
proof (cases op)
  case OpAcquire
  obtain f d1 where f: "fault ''acquire'' (le_Occurrence inp) d = (f, d1)" by fastforce
  have same: "readLease sha (le_Subject inp) d1 = readLease sha (le_Subject inp) d" using fault_leases [OF f] by (simp add: readLease_def)
  show ?thesis using assms(1,3) f same unfolding OpAcquire lease_call_def
    by (cases "readLease sha (le_Subject inp) d")
      (auto simp: Acquire_def Let_def lease_moved_def lease_answer_def held_def new_lease_def no_lease_result_def split: if_splits)
next
  case OpRenew
  obtain f d1 where f: "fault ''renew'' (le_Occurrence inp) d = (f, d1)" by fastforce
  have same: "readLease sha (le_Subject inp) d1 = readLease sha (le_Subject inp) d" using fault_leases [OF f] by (simp add: readLease_def)
  show ?thesis using assms(1,3) f same unfolding OpRenew lease_call_def
    by (cases "readLease sha (le_Subject inp) d")
      (auto simp: Renew_def Let_def lease_moved_def lease_answer_def held_def no_lease_result_def split: if_splits option.splits)
next
  case OpQuery
  obtain f d1 where f: "fault ''query'' (le_Occurrence inp) d = (f, d1)" by fastforce
  have same: "readLease sha (le_Subject inp) d1 = readLease sha (le_Subject inp) d" using fault_leases [OF f] by (simp add: readLease_def)
  show ?thesis using assms(1,3) f same unfolding OpQuery lease_call_def
    by (cases "readLease sha (le_Subject inp) d")
      (auto simp: Query_def lease_moved_def lease_answer_def held_def no_lease_result_def split: if_splits)
next
  case OpRelease
  show ?thesis using assms(1,3) unfolding OpRelease lease_call_def
    by (cases "readLease sha (le_Subject inp) d")
      (auto simp: Release_def lease_moved_def lease_answer_def no_lease_result_def split: if_splits)
qed

lemma lease_call_elsewhere:
  assumes "lease_call sha op at inp d = (r, d')" "inj sha" "\<And>rec. readLease sha (le_Subject inp) d = Some rec \<Longrightarrow> lf_Subject rec = le_Subject inp"
    "subject \<noteq> le_Subject inp"
  shows "readLease sha subject d' = readLease sha subject d"
proof -
  have ne: "sha subject \<noteq> sha (le_Subject inp)" using assms(2,4) by (auto dest: injD)
  have still: "readLease sha s d1 = readLease sha s d" if "fault kind n d = (f, d1)" for kind n f d1 s
    using fault_leases [OF that] by (simp add: readLease_def)
  show ?thesis
  proof (cases op)
    case OpAcquire
    obtain f d1 where f: "fault ''acquire'' (le_Occurrence inp) d = (f, d1)" by fastforce
    show ?thesis using assms(1,3) f still [OF f] ne unfolding OpAcquire lease_call_def
      by (auto simp: Acquire_def Let_def new_lease_def split: if_splits)
  next
    case OpRenew
    obtain f d1 where f: "fault ''renew'' (le_Occurrence inp) d = (f, d1)" by fastforce
    show ?thesis using assms(1,3) f still [OF f] ne unfolding OpRenew lease_call_def
      by (auto simp: Renew_def Let_def split: if_splits option.splits)
  next
    case OpQuery
    obtain f d1 where f: "fault ''query'' (le_Occurrence inp) d = (f, d1)" by fastforce
    show ?thesis using assms(1) f still [OF f] unfolding OpQuery lease_call_def by (auto simp: Query_def split: if_splits option.splits)
  next
    case OpRelease
    show ?thesis using assms(1,3) ne unfolding OpRelease lease_call_def by (auto simp: Release_def split: if_splits option.splits)
  qed
qed

text \<open>Every fence answered so far is at most that of the record, and the record's fence belongs to its owner.\<close>

definition fences_bounded :: "(string \<Rightarrow> string) \<Rightarrow> lease_answered list \<Rightarrow> double \<Rightarrow> bool" where
  "fences_bounded sha es d \<longleftrightarrow> (\<forall>subject.
     (\<forall>rec. readLease sha subject d = Some rec \<longrightarrow> lf_Subject rec = subject) \<and>
     (\<forall>e n. e \<in> set es \<and> answered_fence subject e n \<longrightarrow>
        (\<exists>rec. readLease sha subject d = Some rec \<and> n \<le> lf_Fence rec \<and>
           (\<forall>owner. acquired_by subject e owner n \<and> n = lf_Fence rec \<longrightarrow> owner = lf_Owner rec))))"

lemma fences_bounded_D:
  assumes "fences_bounded sha es d"
  shows "readLease sha subject d = Some rec \<Longrightarrow> lf_Subject rec = subject"
    "e \<in> set es \<Longrightarrow> answered_fence subject e n \<Longrightarrow> \<exists>rec. readLease sha subject d = Some rec \<and> n \<le> lf_Fence rec \<and>
      (\<forall>owner. acquired_by subject e owner n \<and> n = lf_Fence rec \<longrightarrow> owner = lf_Owner rec)"
  using assms unfolding fences_bounded_def by blast+

lemma history_fences: "lease_history sha es d \<Longrightarrow> inj sha \<Longrightarrow> fences_bounded sha es d"
proof (induction rule: lease_history.induct)
  case (lease_start d)
  then show ?case by (simp add: fences_bounded_def readLease_def)
next
  case (lease_called es d op at inp r d')
  note ih = fences_bounded_D [OF lease_called.IH [OF lease_called.prems]]
  have subj: "lf_Subject rec = le_Subject inp" if "readLease sha (le_Subject inp) d = Some rec" for rec by (rule ih(1) [OF that])
  note moved = lease_call_moves [OF lease_called.hyps(2) lease_called.prems subj, simplified]
  note elsewhere = lease_call_elsewhere [OF lease_called.hyps(2) lease_called.prems subj, simplified]
  show ?case unfolding fences_bounded_def
  proof (intro allI conjI impI)
    fix subject rec assume rd: "readLease sha subject d' = Some rec"
    show "lf_Subject rec = subject"
    proof (cases "subject = le_Subject inp")
      case True
      show ?thesis
      proof (cases "readLease sha subject d")
        case None
        then show ?thesis using moved rd True unfolding lease_moved_def by simp
      next
        case (Some old)
        then show ?thesis using moved rd True subj unfolding lease_moved_def by auto
      qed
    next
      case False
      then show ?thesis using elsewhere rd ih(1) by auto
    qed
  next
    fix subject e n assume e: "e \<in> set ((op, at, inp, r) # es) \<and> answered_fence subject e n"
    show "\<exists>rec. readLease sha subject d' = Some rec \<and> n \<le> lf_Fence rec \<and>
        (\<forall>owner. acquired_by subject e owner n \<and> n = lf_Fence rec \<longrightarrow> owner = lf_Owner rec)"
    proof (cases "subject = le_Subject inp")
      case False
      then have "e \<in> set es" using e by (auto simp: answered_fence_def)
      then show ?thesis using ih(2) elsewhere False e by simp
    next
      case True
      show ?thesis
      proof (cases "e = (op, at, inp, r)")
        case new: True
        then have "lt_State r = ''held''" "lt_Fence r = show_nat n" using e by (simp_all add: answered_fence_def)
        then obtain rec' where "readLease sha subject d' = Some rec'" "n = lf_Fence rec'" "op = OpAcquire \<longrightarrow> lf_Owner rec' = le_Owner inp"
          using moved True unfolding lease_moved_def by auto
        then show ?thesis using new by (auto simp: acquired_by_def)
      next
        case False
        then have "e \<in> set es" using e by auto
        then obtain rec where rec: "readLease sha subject d = Some rec" "n \<le> lf_Fence rec"
            "\<forall>owner. acquired_by subject e owner n \<and> n = lf_Fence rec \<longrightarrow> owner = lf_Owner rec"
          using ih(2) e by blast
        then obtain rec' where "readLease sha subject d' = Some rec'"
            "lf_Fence rec' = lf_Fence rec \<and> lf_Owner rec' = lf_Owner rec \<or> lf_Fence rec' = lf_Fence rec + 1"
          using moved True unfolding lease_moved_def by blast
        then show ?thesis using rec by (intro exI [of _ rec']) auto
      qed
    qed
  qed
next
  case (lease_others es d d')
  then show ?case by (simp add: fences_bounded_def readLease_def)
qed

lemma history_earlier: "lease_history sha (later @ es) d \<Longrightarrow> \<exists>d0. lease_history sha es d0"
proof (induction "later @ es" d arbitrary: later rule: lease_history.induct)
  case (lease_start d)
  then show ?case using lease_history.lease_start by auto
next
  case (lease_called es' d op at inp r d')
  show ?case
  proof (cases later)
    case Nil
    then show ?thesis using lease_called.hyps lease_history.lease_called by (metis append_Nil)
  next
    case (Cons x xs)
    then show ?thesis using lease_called.hyps by auto
  qed
qed auto

text \<open>A call that neither ends, extends nor replaces the lease of the subject.\<close>

definition undisturbing :: "string \<Rightarrow> lease_answered \<Rightarrow> bool" where
  "undisturbing subject e \<longleftrightarrow> (case e of (op, at, inp, r) \<Rightarrow>
     le_Subject inp \<noteq> subject \<or> op = OpQuery \<or> op = OpAcquire \<and> lt_State r \<noteq> ''held'')"

lemma undisturbed_call:
  assumes "lease_call sha op at inp d = (r, d')" "undisturbing (le_Subject inp) (op, at, inp, r)"
  shows "readLease sha (le_Subject inp) d' = readLease sha (le_Subject inp) d"
proof -
  have still: "readLease sha s d1 = readLease sha s d" if "fault kind n d = (f, d1)" for kind n f d1 s
    using fault_leases [OF that] by (simp add: readLease_def)
  show ?thesis
  proof (cases op)
    case OpAcquire
    obtain f d1 where f: "fault ''acquire'' (le_Occurrence inp) d = (f, d1)" by fastforce
    show ?thesis using assms f still [OF f] unfolding OpAcquire lease_call_def undisturbing_def
      by (auto simp: Acquire_def Let_def held_def split: if_splits)
  next
    case OpQuery
    obtain f d1 where f: "fault ''query'' (le_Occurrence inp) d = (f, d1)" by fastforce
    show ?thesis using assms(1) f still [OF f] unfolding OpQuery lease_call_def by (auto simp: Query_def split: if_splits option.splits)
  qed (use assms(2) in \<open>auto simp: undisturbing_def\<close>)
qed

lemma acquire_held:
  assumes "Acquire sha at inp d = (r, d')" "lt_State r = ''held''"
  shows "\<exists>rec. readLease sha (le_Subject inp) d' = Some rec \<and> lf_Owner rec = le_Owner inp \<and> \<not> lf_Released rec \<and>
      lt_ExpiresAt r = Some (lf_ExpiresAt rec)"
    "readLease sha (le_Subject inp) d = Some old \<Longrightarrow> lf_Owner old \<noteq> le_Owner inp \<Longrightarrow> \<not> lf_Released old \<Longrightarrow> lf_ExpiresAt old \<le> at"
proof -
  obtain f d1 where f: "fault ''acquire'' (le_Occurrence inp) d = (f, d1)" by fastforce
  have same: "readLease sha (le_Subject inp) d1 = readLease sha (le_Subject inp) d" using fault_leases [OF f] by (simp add: readLease_def)
  show "\<exists>rec. readLease sha (le_Subject inp) d' = Some rec \<and> lf_Owner rec = le_Owner inp \<and> \<not> lf_Released rec \<and> lt_ExpiresAt r = Some (lf_ExpiresAt rec)"
    using assms f same by (cases "readLease sha (le_Subject inp) d")
      (auto simp: Acquire_def Let_def lease_answer_def held_def new_lease_def no_lease_result_def live_def split: if_splits)
  show "lf_ExpiresAt old \<le> at" if "readLease sha (le_Subject inp) d = Some old" "lf_Owner old \<noteq> le_Owner inp" "\<not> lf_Released old"
    using assms f same that by (auto simp: Acquire_def Let_def lease_answer_def no_lease_result_def live_def split: if_splits)
qed

lemma lease_kept:
  assumes "lease_history sha (between @ (OpAcquire, at, inp, r) # before) d" "lt_State r = ''held''" "list_all (undisturbing (le_Subject inp)) between" "inj sha"
  shows "\<exists>rec. readLease sha (le_Subject inp) d = Some rec \<and> lf_Owner rec = le_Owner inp \<and> \<not> lf_Released rec \<and>
    lt_ExpiresAt r = Some (lf_ExpiresAt rec)"
  using assms(1,3)
proof (induction "between @ (OpAcquire, at, inp, r) # before" d arbitrary: between rule: lease_history.induct)
  case (lease_called es d op at2 inp2 r2 d')
  show ?case
  proof (cases between)
    case Nil
    then show ?thesis using lease_called.hyps acquire_held(1) [OF _ assms(2)] by (auto simp: lease_call_def)
  next
    case (Cons e rest)
    then have ih: "\<exists>rec. readLease sha (le_Subject inp) d = Some rec \<and> lf_Owner rec = le_Owner inp \<and> \<not> lf_Released rec \<and>
        lt_ExpiresAt r = Some (lf_ExpiresAt rec)" using lease_called by auto
    have quiet: "undisturbing (le_Subject inp) (op, at2, inp2, r2)" using lease_called Cons by auto
    have "readLease sha (le_Subject inp) d' = readLease sha (le_Subject inp) d"
    proof (cases "le_Subject inp = le_Subject inp2")
      case True
      then show ?thesis using undisturbed_call [OF lease_called.hyps(3)] quiet by simp
    next
      case False
      show ?thesis
      proof (rule lease_call_elsewhere [OF lease_called.hyps(3) assms(4) _ False])
        show "lf_Subject rec = le_Subject inp2" if "readLease sha (le_Subject inp2) d = Some rec" for rec
          using fences_bounded_D(1) [OF history_fences [OF lease_called.hyps(1) assms(4)] that] .
      qed
    qed
    then show ?thesis using ih by simp
  qed
next
  case (lease_others d d')
  then show ?case by (simp add: readLease_def)
qed simp

text \<open>
  C20. Lease fences fence. Over any calls of the double's lease port, with any faults installed and any clock, the fence of a subject's
  lease is never answered as held again once a greater one was, and two owners never acquire it under the same fence: a
  holder that was replaced is told apart from its successor by its smaller fence. A lease acquired by one owner and
  neither renewed nor released since is acquired by another only once the expiry it was granted with is reached.
\<close>

theorem lease_fences:
  assumes "lease_history sha (later @ e2 # between @ e1 # before) d" "inj sha"
    and "answered_fence subject e1 n1" "answered_fence subject e2 n2"
  shows "n1 \<le> n2 \<and> (\<forall>owner1 owner2. acquired_by subject e1 owner1 n1 \<and> acquired_by subject e2 owner2 n2 \<and> owner1 \<noteq> owner2 \<longrightarrow>
    n1 < n2 \<and> (list_all (undisturbing subject) between \<longrightarrow> (\<exists>expiry. lt_ExpiresAt (snd (snd (snd e1))) = Some expiry \<and> expiry \<le> fst (snd e2))))"
proof -
  obtain d2 where h: "lease_history sha (e2 # between @ e1 # before) d2" using history_earlier [OF assms(1)] by blast
  have step: "\<exists>d1 op at inp r d1'. lease_history sha es d1 \<and> lease_call sha op at inp d1 = (r, d1') \<and> e = (op, at, inp, r)"
    if "lease_history sha es' d2" "es' = e # es" for es' e es d2
    using that by (induction rule: lease_history.induct) auto
  obtain d1 op at inp r d1' where h1: "lease_history sha (between @ e1 # before) d1" "lease_call sha op at inp d1 = (r, d1')" "e2 = (op, at, inp, r)"
    using step [OF h refl] by blast
  note fb = fences_bounded_D [OF history_fences [OF h1(1) assms(2)]]
  have s2: "le_Subject inp = subject" "lt_State r = ''held''" "lt_Fence r = show_nat n2" using assms(4) h1(3) by (simp_all add: answered_fence_def)
  obtain rec where rec: "readLease sha subject d1 = Some rec" "n1 \<le> lf_Fence rec"
      "\<forall>owner. acquired_by subject e1 owner n1 \<and> n1 = lf_Fence rec \<longrightarrow> owner = lf_Owner rec"
    using fb(2) [OF _ assms(3)] by auto
  have "lf_Subject x = le_Subject inp" if "readLease sha (le_Subject inp) d1 = Some x" for x by (rule fb(1) [OF that])
  from lease_call_moves [OF h1(2) assms(2) this] have m: "lease_moved op inp r (Some rec) (readLease sha subject d1')" using rec(1) s2 by simp
  obtain rec' where "readLease sha subject d1' = Some rec'" "n2 = lf_Fence rec'" "op = OpAcquire \<longrightarrow> lf_Owner rec' = le_Owner inp"
      "lf_Fence rec' = lf_Fence rec \<and> lf_Owner rec' = lf_Owner rec \<or> lf_Fence rec' = lf_Fence rec + 1"
    using m s2 unfolding lease_moved_def by force
  then have fences: "n1 \<le> n2 \<and> (\<forall>owner1 owner2. acquired_by subject e1 owner1 n1 \<and> acquired_by subject e2 owner2 n2 \<and> owner1 \<noteq> owner2 \<longrightarrow> n1 < n2)"
    using rec h1(3) by (auto simp: acquired_by_def)
  have "\<exists>expiry. lt_ExpiresAt (snd (snd (snd e1))) = Some expiry \<and> expiry \<le> fst (snd e2)"
    if by1: "acquired_by subject e1 owner1 n1" and by2: "acquired_by subject e2 owner2 n2" and differ: "owner1 \<noteq> owner2" and quiet: "list_all (undisturbing subject) between"
    for owner1 owner2
  proof -
    obtain at1 inp1 r1 where e1: "e1 = (OpAcquire, at1, inp1, r1)" "le_Subject inp1 = subject" "le_Owner inp1 = owner1" "lt_State r1 = ''held''"
      using by1 by (cases e1) (auto simp: acquired_by_def answered_fence_def)
    obtain old where old: "readLease sha subject d1 = Some old" "lf_Owner old = owner1" "\<not> lf_Released old" "lt_ExpiresAt r1 = Some (lf_ExpiresAt old)"
      using lease_kept [OF h1(1) [unfolded e1] e1(4) _ assms(2)] quiet e1 by auto
    have e2: "op = OpAcquire" "le_Owner inp = owner2" using by2 h1(3) by (auto simp: acquired_by_def)
    then have "lf_ExpiresAt old \<le> at"
      using acquire_held(2) [of sha at inp d1 r d1' old] h1(2) old s2 differ by (simp add: lease_call_def)
    then show ?thesis using old e1 h1(3) by simp
  qed
  with fences show ?thesis by blast
qed

section \<open>What the comments leave open\<close>

text \<open>A live lease is answered to its owner at any occurrence; a renewal applied before is answered as held at any later time.\<close>

lemma acquire_any_occurrence:
  assumes "fault ''acquire'' (le_Occurrence inp) d = ('''', d)" "readLease sha (le_Subject inp) d = Some rec" "live at rec" "lf_Owner rec = le_Owner inp"
  shows "Acquire sha at inp d = (held rec, d)"
  using assms by (simp add: Acquire_def)

lemma renewed_after_expiry:
  assumes "fault ''renew'' (le_Occurrence inp) d = ('''', d)" "readLease sha (le_Subject inp) d = Some rec" "\<not> lf_Released rec"
    "lf_LeaseID rec = le_LeaseID inp" "show_nat (lf_Fence rec) = le_Fence inp" "lf_Renewals rec (show_nat (le_Occurrence inp)) = Some expiry"
  shows "lt_State (fst (Renew sha at inp d)) = ''held'' \<and> lt_ExpiresAt (fst (Renew sha at inp d)) = Some expiry"
  using assms by (simp add: Renew_def held_def)

section \<open>Example\<close>

definition example_double :: double where
  "example_double = \<lparr>db_Leases = Map.empty, db_Registrations = Map.empty, db_Scopes = Map.empty, db_Sources = [],
     db_Faults = [''save:2'' \<mapsto> ''unknown'', ''register:1'' \<mapsto> ''unknown''], db_FaultFiles = Map.empty\<rparr>"

definition lease_of :: "string \<Rightarrow> nat \<Rightarrow> lease_input" where
  "lease_of owner n = \<lparr>le_OperationID = ''op_1'', le_TenantID = ''t1'', le_Subject = ''source:hero'', le_Owner = owner, le_Occurrence = n,
     le_LeaseID = '''', le_Fence = '''', le_TTL = 5\<rparr>"

text \<open>The first owner's lease expires, and a second owner acquires it.\<close>

definition first_grant :: lease_answered where
  "first_grant = (OpAcquire, 0, lease_of ''A'' 1, held (new_lease id (lease_of ''A'' 1) 0 1))"

definition second_grant :: lease_answered where
  "second_grant = (OpAcquire, 10, lease_of ''B'' 2, held (new_lease id (lease_of ''B'' 2) 10 2))"

lemma example_leases: "\<exists>d. lease_history id [second_grant, first_grant] d"
proof -
  let ?d1 = "writeLease id (new_lease id (lease_of ''A'' 1) 0 1) example_double"
  let ?d2 = "writeLease id (new_lease id (lease_of ''B'' 2) 10 2) ?d1"
  have keys: "fault_key ''acquire'' (Suc 0) = ''acquire:1''" "fault_key ''acquire'' 2 = ''acquire:2''"
    by (simp_all add: fault_key_def show_nat.simps digit_def char_of_def bit_0)
  note eval = lease_call_def Acquire_def fault_def keys example_double_def lease_of_def live_def new_lease_def Let_def readLease_def writeLease_def
  have "lease_call id OpAcquire 0 (lease_of ''A'' 1) example_double = (held (new_lease id (lease_of ''A'' 1) 0 1), ?d1)"
    by (simp add: eval)
  moreover have "lease_call id OpAcquire 10 (lease_of ''B'' 2) ?d1 = (held (new_lease id (lease_of ''B'' 2) 10 2), ?d2)"
    by (simp add: eval numeral_2_eq_2 keys(2) [unfolded numeral_2_eq_2])
  moreover have "lease_history id [] example_double" by (rule lease_start) (simp add: example_double_def)
  ultimately show ?thesis unfolding first_grant_def second_grant_def by (blast intro: lease_called)
qed

theorem lease_fences_witness:
  "acquired_by ''source:hero'' first_grant ''A'' 1 \<and> acquired_by ''source:hero'' second_grant ''B'' 2 \<and>
    (\<exists>expiry. lt_ExpiresAt (snd (snd (snd first_grant))) = Some expiry \<and> expiry \<le> fst (snd second_grant))"
proof -
  obtain d where h: "lease_history id ([] @ second_grant # [] @ first_grant # []) d" using example_leases by auto
  have grants: "acquired_by ''source:hero'' first_grant ''A'' 1" "acquired_by ''source:hero'' second_grant ''B'' 2"
    by (simp_all add: acquired_by_def answered_fence_def first_grant_def second_grant_def held_def new_lease_def lease_of_def no_lease_result_def)
  then show ?thesis using lease_fences [OF h inj_on_id, of "''source:hero''" 1 2] by (simp add: acquired_by_def)
qed

end
