(* ===== verification/DoubleRuns.thy ===== *)
theory DoubleRuns
  imports DoubleLeases ReleaseProofs
begin

text \<open>
  The effects of the Pagix double, recorded under their identity: one outcome per effect, one save per revision of
  a lineage, and a registration that is recovered by the Activity whose answer was lost.
\<close>

section \<open>Effects recorded under their identity\<close>

text \<open>
  The contract of an upstream that records what it is sent under an effect identity: what was sent is known
  to a query, whether or not its answer arrived; the same identity keeps its outcome, and no other
  identity's is touched. \<open>fits\<close> says when an identity may be sent.
\<close>

locale recorded_effects =
  fixes send :: "string \<Rightarrow> 'x \<Rightarrow> 's \<Rightarrow> (wf_error + 'a) \<times> 's"
    and query :: "string \<Rightarrow> 's \<Rightarrow> 'a \<times> bool"
    and fits :: "string \<Rightarrow> 'x \<Rightarrow> 's \<Rightarrow> bool"
  assumes send_recorded: "fits i x s \<Longrightarrow> send i x s = (r, s') \<Longrightarrow> \<exists>a. query i s' = (a, True) \<and> (\<forall>b. r = Inr b \<longrightarrow> b = a)"
    and send_keeps: "fits i x s \<Longrightarrow> send i x s = (r, s') \<Longrightarrow> query j s = (a, True) \<Longrightarrow> query j s' = (a, True)"

text \<open>Several sends, in order, with their answers.\<close>

fun send_all :: "(string \<Rightarrow> 'x \<Rightarrow> 's \<Rightarrow> (wf_error + 'a) \<times> 's) \<Rightarrow> (string \<times> 'x) list \<Rightarrow> 's \<Rightarrow> (string \<times> (wf_error + 'a)) list \<times> 's" where
  "send_all f [] s = ([], s)"
| "send_all f ((i, x) # calls) s =
     (case f i x s of (r, s1) \<Rightarrow> (case send_all f calls s1 of (rs, s2) \<Rightarrow> ((i, r) # rs, s2)))"

fun all_fit :: "(string \<Rightarrow> 'x \<Rightarrow> 's \<Rightarrow> (wf_error + 'a) \<times> 's) \<Rightarrow> (string \<Rightarrow> 'x \<Rightarrow> 's \<Rightarrow> bool) \<Rightarrow> (string \<times> 'x) list \<Rightarrow> 's \<Rightarrow> bool" where
  "all_fit f g [] s \<longleftrightarrow> True"
| "all_fit f g ((i, x) # calls) s \<longleftrightarrow> g i x s \<and> all_fit f g calls (snd (f i x s))"

context recorded_effects
begin

lemma sends_keep:
  "all_fit send fits calls s \<Longrightarrow> send_all send calls s = (rs, s') \<Longrightarrow> query j s = (a, True) \<Longrightarrow> query j s' = (a, True)"
proof (induction calls arbitrary: s s' rs)
  case (Cons c calls)
  obtain i x where c: "c = (i, x)" by fastforce
  obtain r s1 where one: "send i x s = (r, s1)" by fastforce
  obtain rs' s2 where rest: "send_all send calls s1 = (rs', s2)" by fastforce
  have "query j s1 = (a, True)" using send_keeps [OF _ one Cons.prems(3)] Cons.prems(1) c by simp
  then show ?case using Cons.IH [OF _ rest] Cons.prems one rest c by simp
qed simp

text \<open>All definite answers for an identity agree, and whatever was sent is known afterwards.\<close>

lemma sends_agree:
  "all_fit send fits calls s \<Longrightarrow> send_all send calls s = (rs, s') \<Longrightarrow> (i, r) \<in> set rs \<Longrightarrow>
    \<exists>a. query i s' = (a, True) \<and> (\<forall>b. (i, Inr b) \<in> set rs \<longrightarrow> b = a)"
proof (induction calls arbitrary: s s' rs r)
  case (Cons c calls)
  obtain k x where c: "c = (k, x)" by fastforce
  obtain r1 s1 where one: "send k x s = (r1, s1)" by fastforce
  obtain rs' s2 where rest: "send_all send calls s1 = (rs', s2)" by fastforce
  have rs: "rs = (k, r1) # rs'" "s' = s2" and fit: "fits k x s" "all_fit send fits calls s1" using Cons.prems c one rest by auto
  obtain a where a: "query k s1 = (a, True)" "\<forall>b. r1 = Inr b \<longrightarrow> b = a" using send_recorded [OF fit(1) one] by blast
  have k: "query k s' = (a, True)" using sends_keep [OF fit(2) rest a(1)] rs by simp
  show ?case
  proof (cases "\<exists>r'. (i, r') \<in> set rs'")
    case True
    then obtain b where b: "query i s' = (b, True)" "\<forall>y. (i, Inr y) \<in> set rs' \<longrightarrow> y = b"
      using Cons.IH [OF fit(2) rest] rs by blast
    then show ?thesis using k a(2) rs by (cases "i = k") auto
  next
    case False
    then have "i = k" using Cons.prems(3) rs by auto
    then show ?thesis using k a(2) rs False by auto
  qed
qed simp

end

section \<open>Registrations\<close>

lemma fault_registrations: "fault kind n d = (f, d') \<Longrightarrow> db_Registrations d' = db_Registrations d"
  by (auto simp: fault_def Let_def split: option.splits)

lemma fault_sources: "fault kind n d = (f, d') \<Longrightarrow> db_Sources d' = db_Sources d"
  by (auto simp: fault_def Let_def split: option.splits)

definition own_digest :: "(string \<Rightarrow> string) \<Rightarrow> string \<Rightarrow> double \<Rightarrow> bool" where
  "own_digest sha effectID d \<longleftrightarrow> inj sha \<and>
     (\<forall>rec. db_Registrations d (sha effectID) = Some rec \<longrightarrow> rg_CandidateID rec = ''cand_'' @ take 16 (sha effectID) \<and> rg_Revision rec = ''1'')"

interpretation registrations: recorded_effects "double_register sha" "QueryRegistration sha" "\<lambda>i x. own_digest sha i" for sha
proof
  fix i x s r s' j a
  assume fit: "own_digest sha i s" and run: "double_register sha i x s = (r, s')"
  obtain f d where f: "fault ''register'' (rc_Occurrence x) s = (f, d)" by fastforce
  note regs = fault_registrations [OF f]
  show "\<exists>a. QueryRegistration sha i s' = (a, True) \<and> (\<forall>b. r = Inr b \<longrightarrow> b = a)"
    using run f regs by (auto simp: double_register_def QueryRegistration_def Let_def split: if_splits option.splits)
  show "QueryRegistration sha j s' = (a, True)" if "QueryRegistration sha j s = (a, True)"
  proof (cases "j = i")
    case False
    then have "sha j \<noteq> sha i" using fit by (auto simp: own_digest_def dest: injD)
    then show ?thesis using run f regs that by (auto simp: double_register_def QueryRegistration_def Let_def split: if_splits option.splits)
  next
    case True
    then show ?thesis using run f regs that fit
      by (auto simp: double_register_def QueryRegistration_def Let_def registered_as_def registration_of_def own_digest_def split: if_splits option.splits)
  qed
qed

section \<open>Saves\<close>

text \<open>An effect identity saves to one lineage.\<close>

definition own_lineage :: "(string \<Rightarrow> string) \<Rightarrow> string \<Rightarrow> save_source_input \<Rightarrow> double \<Rightarrow> bool" where
  "own_lineage sha effectID inp d \<longleftrightarrow> distinct (map fst (db_Sources d)) \<and>
     (\<forall>name l name' l' j. (name, l) \<in> set (db_Sources d) \<and> (name', l') \<in> set (db_Sources d) \<and> ln_Saves l j \<noteq> None \<and> ln_Saves l' j \<noteq> None \<longrightarrow>
        name = name') \<and>
     (\<forall>name l. (name, l) \<in> set (db_Sources d) \<and> ln_Saves l effectID \<noteq> None \<longrightarrow> name = lineage_file sha (''source:'' @ si_Lineage inp))"

text \<open>A query finds the save of an identity, when only one name has it.\<close>

lemma QuerySave_found:
  assumes "(name, l) \<in> set (db_Sources d)" "ln_Saves l i = Some a"
    and one: "\<And>name' l'. (name', l') \<in> set (db_Sources d) \<Longrightarrow> ln_Saves l' i \<noteq> None \<Longrightarrow> l' = l"
  shows "QuerySave i d = (a, True)"
proof -
  let ?found = "List.map_filter (\<lambda>(name, l). ln_Saves l i) (sort_key fst (db_Sources d))"
  have "b = a" if b: "b \<in> set ?found" for b
  proof -
    obtain name' l' where "(name', l') \<in> set (db_Sources d)" "ln_Saves l' i = Some b" using b by (auto simp: map_filter_def)
    then show ?thesis using one assms(2) by fastforce
  qed
  moreover have "a \<in> set ?found" using assms(1,2) by (force simp: map_filter_def)
  ultimately obtain rest where "?found = a # rest" by (cases ?found) auto
  then show ?thesis by (simp add: QuerySave_def)
qed

lemma QuerySave_Some:
  assumes "QuerySave i d = (a, True)"
  shows "\<exists>name l. (name, l) \<in> set (db_Sources d) \<and> ln_Saves l i = Some a"
proof -
  let ?found = "List.map_filter (\<lambda>(name, l). ln_Saves l i) (sort_key fst (db_Sources d))"
  have "a \<in> set ?found" using assms by (auto simp: QuerySave_def split: list.splits)
  then show ?thesis by (force simp: map_filter_def)
qed

lemma save_sources:
  assumes "SaveRevision sha i x d = (r, d')"
  shows "(case ln_Saves (readLineage sha (''source:'' @ si_Lineage x) d) i of
      Some res \<Rightarrow> r = Inr res \<and> d' = d
    | None \<Rightarrow> (\<exists>res l1. save_outcome i x (readLineage sha (''source:'' @ si_Lineage x) d) = (res, l1) \<and> (\<forall>b. r = Inr b \<longrightarrow> b = res) \<and>
        db_Sources d' = AList.update (lineage_file sha (''source:'' @ si_Lineage x)) (l1\<lparr>ln_Saves := (ln_Saves l1)(i \<mapsto> res)\<rparr>) (db_Sources d)))"
proof -
  let ?subject = "''source:'' @ si_Lineage x" let ?l = "readLineage sha ?subject d"
  show ?thesis
  proof (cases "ln_Saves ?l i")
    case (Some res)
    then show ?thesis using assms by (simp add: SaveRevision_def Let_def)
  next
    case None
    obtain res l1 where out: "save_outcome i x ?l = (res, l1)" by fastforce
    let ?d1 = "writeLineage sha ?subject (l1\<lparr>ln_Saves := (ln_Saves l1)(i \<mapsto> res)\<rparr>) d"
    obtain f d2 where f: "fault ''save'' (si_Occurrence x) ?d1 = (f, d2)" by fastforce
    have "d' = d2" "\<forall>b. r = Inr b \<longrightarrow> b = res"
      using assms None out f by (auto simp: SaveRevision_def Let_def split: if_splits)
    moreover have "db_Sources d2 = db_Sources ?d1" by (rule fault_sources [OF f])
    ultimately show ?thesis using None out by (auto simp: writeLineage_def)
  qed
qed

lemma save_outcome_saves: "save_outcome i x l = (res, l1) \<Longrightarrow> ln_Saves l1 = ln_Saves l"
  by (auto simp: save_outcome_def Let_def split: if_splits)

lemma QuerySave_cong: "db_Sources d' = db_Sources d \<Longrightarrow> QuerySave i d' = QuerySave i d"
  by (simp add: QuerySave_def)

text \<open>The files after a save: the lineage's holds what it held, and the new outcome.\<close>

lemma saved_files:
  assumes "SaveRevision sha i x d = (r, d')" "own_lineage sha i x d" "ln_Saves (readLineage sha (''source:'' @ si_Lineage x) d) i = None"
  obtains res l2 where "\<forall>b. r = Inr b \<longrightarrow> b = res" "(lineage_file sha (''source:'' @ si_Lineage x), l2) \<in> set (db_Sources d')"
    "ln_Saves l2 = (ln_Saves (readLineage sha (''source:'' @ si_Lineage x) d))(i \<mapsto> res)" "distinct (map fst (db_Sources d'))"
    "\<And>name l. name \<noteq> lineage_file sha (''source:'' @ si_Lineage x) \<Longrightarrow> (name, l) \<in> set (db_Sources d') \<longleftrightarrow> (name, l) \<in> set (db_Sources d)"
proof -
  let ?name = "lineage_file sha (''source:'' @ si_Lineage x)" let ?l = "readLineage sha (''source:'' @ si_Lineage x) d"
  obtain res l1 where out: "save_outcome i x ?l = (res, l1)" "\<forall>b. r = Inr b \<longrightarrow> b = res"
    "db_Sources d' = AList.update ?name (l1\<lparr>ln_Saves := (ln_Saves l1)(i \<mapsto> res)\<rparr>) (db_Sources d)" using save_sources [OF assms(1)] assms(3) by auto
  let ?l2 = "l1\<lparr>ln_Saves := (ln_Saves l1)(i \<mapsto> res)\<rparr>"
  have d0: "distinct (map fst (db_Sources d))" using assms(2) by (simp add: own_lineage_def)
  then have dist: "distinct (map fst (db_Sources d'))" using out(3) by (simp add: distinct_update)
  have m: "map_of (db_Sources d') = (map_of (db_Sources d))(?name \<mapsto> ?l2)" using out(3) by (simp add: update_conv')
  have mem: "(name, l) \<in> set (db_Sources d') \<longleftrightarrow> map_of (db_Sources d') name = Some l" for name l using dist by simp
  have mem0: "(name, l) \<in> set (db_Sources d) \<longleftrightarrow> map_of (db_Sources d) name = Some l" for name l using d0 by simp
  show thesis
    by (rule that [of res ?l2]) (use out(2) dist m mem mem0 save_outcome_saves [OF out(1)] in auto)
qed

lemma lineage_saves:
  assumes "distinct (map fst (db_Sources d))" "ln_Saves (readLineage sha subject d) j = Some b"
  shows "(lineage_file sha subject, readLineage sha subject d) \<in> set (db_Sources d)"
  using assms by (auto simp: readLineage_def new_lineage_def split: option.splits dest: map_of_SomeD)

lemma lineage_member:
  assumes "distinct (map fst (db_Sources d))" "(lineage_file sha subject, l) \<in> set (db_Sources d)"
  shows "readLineage sha subject d = l"
  using assms by (simp add: readLineage_def)

lemma own_lineage_unique:
  assumes "own_lineage sha i x d" "(name, l) \<in> set (db_Sources d)" "ln_Saves l j = Some a"
  shows "QuerySave j d = (a, True)"
proof (rule QuerySave_found [OF assms(2,3)])
  fix name' l' assume "(name', l') \<in> set (db_Sources d)" "ln_Saves l' j \<noteq> None"
  then have "name' = name" using assms unfolding own_lineage_def by blast
  then show "l' = l" using \<open>(name', l') \<in> set (db_Sources d)\<close> assms(1,2) unfolding own_lineage_def by (metis map_of_is_SomeI option.inject)
qed

text \<open>A save keeps that every identity has one lineage.\<close>

lemma own_lineage_kept:
  assumes "SaveRevision sha i x d = (r, d')" "own_lineage sha i x d"
  shows "own_lineage sha i x d'"
proof (cases "ln_Saves (readLineage sha (''source:'' @ si_Lineage x) d) i")
  case (Some res)
  then show ?thesis using save_sources [OF assms(1)] assms(2) by (simp add: own_lineage_def)
next
  case None
  let ?name = "lineage_file sha (''source:'' @ si_Lineage x)" let ?l = "readLineage sha (''source:'' @ si_Lineage x) d"
  obtain res l2 where s: "(?name, l2) \<in> set (db_Sources d')" "ln_Saves l2 = (ln_Saves ?l)(i \<mapsto> res)" "distinct (map fst (db_Sources d'))"
    "\<And>name l. name \<noteq> ?name \<Longrightarrow> (name, l) \<in> set (db_Sources d') \<longleftrightarrow> (name, l) \<in> set (db_Sources d)"
    using saved_files [OF assms None] by metis
  note fit = assms(2) [unfolded own_lineage_def]
  have same: "l = l2" if "(?name, l) \<in> set (db_Sources d')" for l using that s(1,3) by (metis map_of_is_SomeI option.inject)
  have earlier: "\<exists>l0. (name, l0) \<in> set (db_Sources d) \<and> ln_Saves l0 j \<noteq> None" if "(name, l) \<in> set (db_Sources d')" "ln_Saves l j \<noteq> None" "j \<noteq> i" for name l j
  proof (cases "name = ?name")
    case True
    then have "ln_Saves ?l j \<noteq> None" using same that s(2) by auto
    then show ?thesis using lineage_saves fit True by blast
  next
    case False
    then show ?thesis using s(4) that by blast
  qed
  have here: "name = ?name" if "(name, l) \<in> set (db_Sources d')" "ln_Saves l i \<noteq> None" for name l
    using s(4) that fit by blast
  show ?thesis unfolding own_lineage_def
  proof (intro conjI allI impI, goal_cases)
    case 1
    show ?case by (rule s(3))
  next
    case (2 name l name' l' j)
    show ?case
    proof (cases "j = i")
      case True
      then have "name = ?name" "name' = ?name" using here 2 by blast+
      then show ?thesis by simp
    next
      case False
      then obtain l0 l0' where "(name, l0) \<in> set (db_Sources d)" "ln_Saves l0 j \<noteq> None" "(name', l0') \<in> set (db_Sources d)" "ln_Saves l0' j \<noteq> None"
        using earlier 2 by meson
      then show ?thesis using fit by blast
    qed
  next
    case (3 name l)
    then show ?case using here by blast
  qed
qed

interpretation saves: recorded_effects "SaveRevision sha" QuerySave "own_lineage sha" for sha
proof
  fix i x d r d' j a
  assume fit: "own_lineage sha i x d" and run: "SaveRevision sha i x d = (r, d')"
  let ?l = "readLineage sha (''source:'' @ si_Lineage x) d"
  note fit' = own_lineage_kept [OF run fit]
  have dist: "distinct (map fst (db_Sources d))" using fit by (simp add: own_lineage_def)
  show "\<exists>a. QuerySave i d' = (a, True) \<and> (\<forall>b. r = Inr b \<longrightarrow> b = a)"
  proof (cases "ln_Saves ?l i")
    case (Some res)
    then show ?thesis using save_sources [OF run] own_lineage_unique [OF fit lineage_saves [OF dist Some] Some] by simp
  next
    case None
    obtain res l2 where s: "\<forall>b. r = Inr b \<longrightarrow> b = res" "(lineage_file sha (''source:'' @ si_Lineage x), l2) \<in> set (db_Sources d')"
      "ln_Saves l2 = (ln_Saves ?l)(i \<mapsto> res)" using saved_files [OF run fit None] by metis
    then show ?thesis using own_lineage_unique [OF fit' s(2), of i res] by auto
  qed
  show "QuerySave j d' = (a, True)" if known: "QuerySave j d = (a, True)"
  proof (cases "ln_Saves ?l i")
    case (Some res)
    then show ?thesis using save_sources [OF run] known by simp
  next
    case None
    obtain res l2 where s: "(lineage_file sha (''source:'' @ si_Lineage x), l2) \<in> set (db_Sources d')"
      "ln_Saves l2 = (ln_Saves ?l)(i \<mapsto> res)"
      "\<And>name l. name \<noteq> lineage_file sha (''source:'' @ si_Lineage x) \<Longrightarrow> (name, l) \<in> set (db_Sources d') \<longleftrightarrow> (name, l) \<in> set (db_Sources d)"
      using saved_files [OF run fit None] by metis
    obtain name l where fl: "(name, l) \<in> set (db_Sources d)" "ln_Saves l j = Some a" using QuerySave_Some known by blast
    show ?thesis
    proof (cases "name = lineage_file sha (''source:'' @ si_Lineage x)")
      case True
      then have "?l = l" using lineage_member [OF dist] fl(1) by simp
      then have "ln_Saves l2 j = Some a" using s(2) fl(2) None by auto
      then show ?thesis by (rule own_lineage_unique [OF fit' s(1)])
    next
      case False
      then have "(name, l) \<in> set (db_Sources d')" using s(3) fl(1) by blast
      then show ?thesis using own_lineage_unique [OF fit'] fl(2) by blast
    qed
  qed
qed

text \<open>The revisions of a lineage after its saves: one save each, from the second on.\<close>

definition saved_as :: "lineage \<Rightarrow> string \<Rightarrow> nat \<Rightarrow> bool" where
  "saved_as l effectID k \<longleftrightarrow> (\<exists>res. ln_Saves l effectID = Some res \<and> sv_State res = ''saved'' \<and> sv_Revision res = show_nat k)"

definition revisions_linear :: "lineage \<Rightarrow> bool" where
  "revisions_linear l \<longleftrightarrow> 1 \<le> ln_Revision l \<and>
     (\<forall>k. (\<exists>effectID. saved_as l effectID k) \<longleftrightarrow> 2 \<le> k \<and> k \<le> ln_Revision l) \<and>
     (\<forall>effectID effectID' k. saved_as l effectID k \<and> saved_as l effectID' k \<longrightarrow> effectID = effectID') \<and>
     (\<forall>effectID res. ln_Saves l effectID = Some res \<longrightarrow> sv_State res = ''conflict'' \<or> (\<exists>k. saved_as l effectID k)) \<and>
     (\<forall>k. ln_Revisions l (show_nat k) \<noteq> None \<longleftrightarrow> 2 \<le> k \<and> k \<le> ln_Revision l)"

lemma revisions_linear_new: "revisions_linear new_lineage"
  by (auto simp: revisions_linear_def new_lineage_def saved_as_def)

lemma saved_as_update:
  "saved_as (l\<lparr>ln_Saves := (ln_Saves l)(i \<mapsto> res)\<rparr>) j k \<longleftrightarrow>
    (if j = i then sv_State res = ''saved'' \<and> sv_Revision res = show_nat k else saved_as l j k)"
  by (auto simp: saved_as_def)

lemma saved_as_cong: "ln_Saves l' = ln_Saves l \<Longrightarrow> saved_as l' j k = saved_as l j k"
  by (simp add: saved_as_def)

lemma revisions_linear_save:
  assumes "save_outcome i x l = (res, l1)" "ln_Saves l i = None" "revisions_linear l"
  shows "revisions_linear (l1\<lparr>ln_Saves := (ln_Saves l1)(i \<mapsto> res)\<rparr>)"
proof (cases "si_BaseRevision x = show_nat (ln_Revision l)")
  case False
  then have out: "l1 = l" "sv_State res = ''conflict''" using assms(1) by (auto simp: save_outcome_def save_answer_def)
  have "\<not> saved_as l i k" for k using assms(2) by (simp add: saved_as_def)
  then have sv: "saved_as (l\<lparr>ln_Saves := (ln_Saves l)(i \<mapsto> res)\<rparr>) j k = saved_as l j k" for j k unfolding saved_as_update using out by simp
  show ?thesis using assms(3) out unfolding out(1) revisions_linear_def sv by auto
next
  case True
  let ?rev = "ln_Revision l + 1"
  have out: "ln_Saves l1 = ln_Saves l" "ln_Revision l1 = ?rev" "ln_Revisions l1 = (ln_Revisions l)(show_nat ?rev \<mapsto> sa_Digest (si_Source x))"
    "sv_State res = ''saved''" "sv_Revision res = show_nat ?rev"
    using assms(1) True by (auto simp: save_outcome_def save_answer_def Let_def)
  note lin = assms(3) [unfolded revisions_linear_def]
  have none: "\<not> saved_as l i k" for k using assms(2) by (simp add: saved_as_def)
  have sv: "saved_as (l1\<lparr>ln_Saves := (ln_Saves l1)(i \<mapsto> res)\<rparr>) j k \<longleftrightarrow> (if j = i then k = ?rev else saved_as l j k)" for j k
    unfolding saved_as_update saved_as_cong [OF out(1)] using out by auto
  have old: "k \<le> ln_Revision l" "2 \<le> k" if "saved_as l j k" for j k using lin that by blast+
  show ?thesis unfolding revisions_linear_def sv
  proof (intro conjI allI iffI impI, goal_cases)
    case (2 k)
    then show ?case using old lin out by (auto split: if_splits intro: le_SucI)
  next
    case (3 k)
    then show ?case using old lin out by (auto split: if_splits intro: le_SucI)
  next
    case (4 k)
    show ?case
    proof (cases "k = ?rev")
      case True
      then show ?thesis by auto
    next
      case False
      then have "2 \<le> k \<and> k \<le> ln_Revision l" using 4 out by auto
      then obtain j where "saved_as l j k" using lin by blast
      then show ?thesis using none by (intro exI [of _ j]) auto
    qed
  next
    case (5 e e' k)
    then show ?case using old(1) lin by (auto split: if_splits) fastforce+
  next
    case (6 e res')
    then show ?case using lin none out by (auto split: if_splits)
  qed (use lin out in \<open>auto split: if_splits\<close>)
qed

lemma save_linear:
  assumes "SaveRevision sha i x d = (r, d')" "\<And>subject. revisions_linear (readLineage sha subject d)"
  shows "revisions_linear (readLineage sha subject d')"
proof (cases "ln_Saves (readLineage sha (''source:'' @ si_Lineage x) d) i")
  case (Some res)
  then show ?thesis using save_sources [OF assms(1)] assms(2) by simp
next
  case None
  let ?file = "lineage_file sha (''source:'' @ si_Lineage x)"
  obtain res l1 where out: "save_outcome i x (readLineage sha (''source:'' @ si_Lineage x) d) = (res, l1)"
    "db_Sources d' = AList.update ?file (l1\<lparr>ln_Saves := (ln_Saves l1)(i \<mapsto> res)\<rparr>) (db_Sources d)" using save_sources [OF assms(1)] None by auto
  have m: "map_of (db_Sources d') = (map_of (db_Sources d))(?file \<mapsto> l1\<lparr>ln_Saves := (ln_Saves l1)(i \<mapsto> res)\<rparr>)" using out(2) by (simp add: update_conv')
  show ?thesis
  proof (cases "lineage_file sha subject = ?file")
    case True
    then show ?thesis using m revisions_linear_save [OF out(1) None assms(2)] by (simp add: readLineage_def)
  next
    case False
    then have "readLineage sha subject d' = readLineage sha subject d" using m by (simp add: readLineage_def)
    then show ?thesis using assms(2) by simp
  qed
qed

text \<open>
  A save has one outcome. Over any saves, in any order and with any answers lost, all answers given for an effect
  identity are the same, a query afterwards finds that outcome for every identity sent, also where its answer was
  lost, and no save changes what another identity's query finds.
\<close>

theorem saves_answer_once:
  assumes "send_all (SaveRevision sha) calls d = (rs, d')" "all_fit (SaveRevision sha) (own_lineage sha) calls d"
  shows "(\<forall>i r. (i, r) \<in> set rs \<longrightarrow> (\<exists>a. QuerySave i d' = (a, True) \<and> (\<forall>b. (i, Inr b) \<in> set rs \<longrightarrow> b = a))) \<and>
    (\<forall>i a. QuerySave i d = (a, True) \<longrightarrow> QuerySave i d' = (a, True))"
  using saves.sends_agree [OF assms(2,1)] saves.sends_keep [OF assms(2,1)] by blast

text \<open>
  C23. The saves of a lineage are its revisions. After any saves, in any order and with any answers lost, each revision of a lineage
  beyond the registered one was saved by exactly one effect identity, every other save is a conflict, and the digests kept for an
  exact-revision read are those of just these revisions.
\<close>

theorem saves_linear:
  assumes "send_all (SaveRevision sha) calls d = (rs, d')" "db_Sources d = []"
  shows "revisions_linear (readLineage sha subject d')"
proof -
  have gen: "(\<And>s. revisions_linear (readLineage sha s d)) \<Longrightarrow> send_all (SaveRevision sha) calls d = (rs, d') \<Longrightarrow> revisions_linear (readLineage sha subject d')"
    for d rs
  proof (induction calls arbitrary: d rs)
    case (Cons c calls)
    obtain i x where c: "c = (i, x)" by fastforce
    obtain r d1 where one: "SaveRevision sha i x d = (r, d1)" by fastforce
    obtain rs' d2 where rest: "send_all (SaveRevision sha) calls d1 = (rs', d2)" by fastforce
    have "d2 = d'" using Cons.prems(2) c one rest by simp
    then show ?case using Cons.IH [OF save_linear [OF one Cons.prems(1)]] rest by blast
  qed simp
  show ?thesis by (rule gen [OF _ assms(1)]) (simp add: readLineage_def assms(2) revisions_linear_new)
qed

section \<open>A registration whose answer was lost\<close>

text \<open>Ports whose registrations are the double's; Control's calls leave the double alone.\<close>

definition registers_at_double :: "(string \<Rightarrow> string) \<Rightarrow> ('c \<times> double) effect_ports \<Rightarrow> bool" where
  "registers_at_double sha pt \<longleftrightarrow>
     (\<forall>i x c d. fp_RegisterCandidate pt i x (c, d) = (fst (double_register sha i x d), (c, snd (double_register sha i x d)))) \<and>
     (\<forall>i c d. fp_QueryRegistration pt i (c, d) = (Inr (QueryRegistration sha i d), (c, d))) \<and>
     (\<forall>inp s r s'. fp_PrepareEffect pt inp s = (r, s') \<longrightarrow> snd s' = snd s) \<and>
     (\<forall>ob s r s'. fp_ObserveEffect pt ob s = (r, s') \<longrightarrow> snd s' = snd s)"

lemma registered_after:
  assumes "registers_at_double sha pt" "registerCandidate pt inp w = (r, w')" "Sent effectID what \<in> set (plog w')" "plog w = []"
    "own_digest sha effectID (snd (ps w))"
  shows "\<exists>cand. QueryRegistration sha effectID (snd (ps w')) = (cand, True) \<and> cf_EffectID cand = effectID \<and> cf_State cand = ''succeeded''"
proof -
  note pt = assms(1) [unfolded registers_at_double_def]
  obtain x w1 where one: "prepared (rc_CommandID inp) (fp_PrepareEffect pt inp) w = (x, w1)" by fastforce
  have log1: "plog w1 = [Prepared (rc_CommandID inp) x]" and ps1: "fp_PrepareEffect pt inp (ps w) = (x, ps w1)"
    using one assms(4) by (cases w1; auto simp: prepared_def split: prod.splits)+
  have d1: "snd (ps w1) = snd (ps w)" using pt ps1 by blast
  have obs: "snd s' = snd s" if "fp_ObserveEffect pt ob s = (y, s')" for ob s y s' using pt that by blast
  have ask: "sent_ids (plog v') = sent_ids (plog v)" if "query_candidate pt t e v = (y, v')" for t e v y v'
  proof -
    obtain z v1 where "port (Asked e) (fp_QueryRegistration pt e) v = (z, v1)" by fastforce
    then show ?thesis using that
      by (auto simp: query_candidate_def observe_candidate_def observe_effect_def port_result Let_def split: sum.splits if_splits prod.splits option.splits)
  qed
  have sent: "effectID \<in> set (sent_ids es)" if "Sent effectID what \<in> set es" for es
    using that by (force simp: sent_ids_def map_filter_def)
  obtain permit where x: "x = Inr permit" using assms(2,3) one log1 by (cases x) (auto simp: registerCandidate_def)
  have go: "ep_Permitted permit"
  proof (rule ccontr)
    assume "\<not> ep_Permitted permit"
    then have "w' = w1 \<or> query_candidate pt (rc_TenantID inp) (ep_EffectID permit) w1 = (r, w')"
      using assms(2) one x by (auto simp: registerCandidate_def split: if_splits)
    then have "sent_ids (plog w') = []" using ask log1 by auto
    then show False using sent [OF assms(3)] by simp
  qed
  obtain y w2 where two: "port (Sent (ep_EffectID permit) (CandidateSent inp)) (fp_RegisterCandidate pt (ep_EffectID permit) inp) w1 = (y, w2)" by fastforce
  obtain c d where cd: "ps w1 = (c, d)" by fastforce
  note sent2 = two [unfolded port_result cd conjunct1 [OF pt, rule_format]]
  have reg: "double_register sha (ep_EffectID permit) inp d = (y, snd (ps w2))" "plog w2 = Sent (ep_EffectID permit) (CandidateSent inp) # plog w1"
    using sent2 by (metis fst_conv snd_conv prod.collapse, blast)
  have d3: "snd (ps w') = snd (ps w2) \<and> sent_ids (plog w') = [ep_EffectID permit]"
  proof (cases y)
    case (Inl err)
    then have "w' = w2" using assms(2) one x go two by (simp add: registerCandidate_def)
    then show ?thesis using reg log1 by simp
  next
    case (Inr cand)
    then have ob: "observe_candidate pt (rc_TenantID inp) (ep_EffectID permit) ''workflow'' cand w2 = (r, w')"
      using assms(2) one x go two by (simp add: registerCandidate_def)
    obtain oe w3 where three: "observe_effect pt (rc_TenantID inp) (ep_EffectID permit) ''workflow'' (cf_State cand) (cf_Revision cand) (cf_CandidateID cand) w2 = (oe, w3)"
      by fastforce
    have "w' = w3" using ob three by (cases oe) (simp_all add: observe_candidate_def)
    moreover have "snd (ps w3) = snd (ps w2)" by (rule obs [OF conjunct1 [OF three [unfolded observe_effect_def Let_def port_result]]])
    moreover have "sent_ids (plog w3) = sent_ids (plog w2)" using three by (auto simp: observe_effect_def port_result Let_def)
    ultimately show ?thesis using reg(2) log1 by simp
  qed
  then have "effectID = ep_EffectID permit" using sent [OF assms(3)] by simp
  moreover have "own_digest sha effectID d" using assms(5) d1 cd by simp
  ultimately obtain cand where q: "QueryRegistration sha effectID (snd (ps w2)) = (cand, True)"
    using registrations.send_recorded reg(1) by blast
  moreover have "cf_EffectID cand = effectID \<and> cf_State cand = ''succeeded''"
    using q by (auto simp: QueryRegistration_def registered_as_def split: option.splits)
  ultimately show ?thesis using d3 by auto
qed

text \<open>
  C21. A lost registration is recovered. When a registration sent its candidate to the double, whatever became of its answer, a
  later call of the Activity that Control answers with the same, unsettled effect sends nothing and answers that
  candidate as registered.
\<close>

theorem registration_recovered:
  assumes "registers_at_double sha pt" "registerCandidate pt inp w = (r, w1)" "Sent effectID what \<in> set (plog w1)" "plog w = []"
    "own_digest sha effectID (snd (ps w))"
    and "db_Registrations (snd (ps w2)) (sha effectID) = db_Registrations (snd (ps w1)) (sha effectID)"
    and "fp_PrepareEffect pt inp2 (ps w2) = (Inr permit, s)" "ep_EffectID permit = effectID" "\<not> ep_Permitted permit"
      "ep_State permit \<notin> {''denied'', ''succeeded'', ''failed''}"
    and "registerCandidate pt inp2 w2 = (Inr cand, w3)"
  shows "cf_EffectID cand = effectID \<and> cf_State cand = ''succeeded'' \<and> (\<exists>known. QueryRegistration sha effectID (snd (ps w1)) = (known, True) \<and>
    cf_CandidateID cand = cf_CandidateID known) \<and> sent_ids (plog w3) = sent_ids (plog w2)"
proof -
  note pt = assms(1) [unfolded registers_at_double_def]
  obtain known where known: "QueryRegistration sha effectID (snd (ps w1)) = (known, True)" "cf_EffectID known = effectID" "cf_State known = ''succeeded''"
    using registered_after [OF assms(1-5)] by blast
  let ?v = "\<lparr>ps = s, plog = Prepared (rc_CommandID inp2) (Inr permit) # plog w2\<rparr>"
  have one: "prepared (rc_CommandID inp2) (fp_PrepareEffect pt inp2) w2 = (Inr permit, ?v)" using assms(7) by (simp add: prepared_def)
  obtain c d where cd: "s = (c, d)" by fastforce
  have "snd s = snd (ps w2)" using pt assms(7) by blast
  then have q: "QueryRegistration sha effectID d = (known, True)" using known(1) assms(6) cd by (simp add: QueryRegistration_def)
  let ?u = "\<lparr>ps = s, plog = Asked effectID # plog ?v\<rparr>"
  have two: "port (Asked effectID) (fp_QueryRegistration pt effectID) ?v = (Inr (known, True), ?u)" using pt cd q by (simp add: port_def)
  have ob: "observe_candidate pt (rc_TenantID inp2) effectID ''workflow-query'' known ?u = (Inr cand, w3)"
    using assms(8-11) one two by (auto simp: registerCandidate_def query_candidate_def)
  obtain oe u1 where three: "observe_effect pt (rc_TenantID inp2) effectID ''workflow-query'' (cf_State known) (cf_Revision known) (cf_CandidateID known) ?u = (oe, u1)"
    by fastforce
  have "cand = known\<lparr>cf_EffectID := effectID\<rparr>" "w3 = u1" using ob three by (cases oe; simp add: observe_candidate_def)+
  moreover have "sent_ids (plog u1) = sent_ids (plog ?u)" using three by (auto simp: observe_effect_def port_result Let_def)
  ultimately show ?thesis using known by simp
qed

section \<open>Examples\<close>

definition save_of :: "nat \<Rightarrow> string \<Rightarrow> save_source_input" where
  "save_of n base = \<lparr>si_OperationID = ''op_1'', si_TenantID = ''t1'', si_AttemptID = ''att_1'', si_ExecutionEpoch = 1, si_CommandID = ''save'', si_Occurrence = n,
     si_Lineage = ''hero'', si_BaseRevision = base, si_Source = no_artifact, si_Deadline = minute\<rparr>"

text \<open>Two saves on the revision they saw: the answer of the first is lost, the second finds the lineage changed.\<close>

definition example_saves :: "(string \<times> save_source_input) list" where
  "example_saves = [(''eff_1'', save_of 2 ''1''), (''eff_2'', save_of 3 ''1'')]"

lemma example_saves_lost:
  "\<exists>rs d. send_all (SaveRevision id) example_saves example_double = ((''eff_1'', Inl plain_error) # rs, d) \<and>
    ln_Revision (readLineage id ''source:hero'' d) = 2"
proof -
  have keys: "fault_key ''save'' 2 = ''save:2''" "fault_key ''save'' 3 = ''save:3''"
    by (simp_all add: fault_key_def show_nat.simps digit_def char_of_def bit_0)
  have numerals: "show_nat 1 = ''1''" "show_nat (Suc 0) = ''1''" "show_nat 2 = ''2''" "show_nat (Suc (Suc 0)) = ''2''"
    by (simp_all add: show_nat.simps digit_def char_of_def bit_0)
  show ?thesis
    by (simp add: example_saves_def SaveRevision_def Let_def save_of_def readLineage_def writeLineage_def example_double_def new_lineage_def save_outcome_def
        fault_def keys numerals lineage_file_def save_answer_def)
qed

theorem saves_linear_witness:
  "\<exists>rs d. send_all (SaveRevision id) example_saves example_double = ((''eff_1'', Inl plain_error) # rs, d) \<and>
    (\<exists>effectID. saved_as (readLineage id ''source:hero'' d) effectID 2)"
proof -
  obtain rs d where run: "send_all (SaveRevision id) example_saves example_double = ((''eff_1'', Inl plain_error) # rs, d)"
    and two: "ln_Revision (readLineage id ''source:hero'' d) = 2" using example_saves_lost by blast
  have "db_Sources example_double = []" by (simp add: example_double_def)
  from saves_linear [OF run this, of "''source:hero''"] two run show ?thesis unfolding revisions_linear_def by fastforce
qed

definition double_ports :: "(string list \<times> double) effect_ports" where
  "double_ports = example_ports
     \<lparr>fp_RegisterCandidate := (\<lambda>i x s. (fst (double_register id i x (snd s)), (fst s, snd (double_register id i x (snd s))))),
      fp_QueryRegistration := (\<lambda>i s. (Inr (QueryRegistration id i (snd s)), s))\<rparr>"

definition lost_start :: "(string list \<times> double) port_world" where
  "lost_start = \<lparr>ps = ([], example_double), plog = []\<rparr>"

lemma double_ports_register: "registers_at_double id double_ports"
  by (auto simp: registers_at_double_def double_ports_def example_ports_def permit_of_def Let_def split: if_splits)

definition registered_ref :: candidate_ref where
  "registered_ref = registered_as ''eff_op_1:candidate:1'' (registration_of id ''eff_op_1:candidate:1'' example_candidate)"

definition lost_double :: double where
  "lost_double = example_double\<lparr>db_Faults := (db_Faults example_double)(''register:1'' := None),
     db_Registrations := [''eff_op_1:candidate:1'' \<mapsto> registration_of id ''eff_op_1:candidate:1'' example_candidate]\<rparr>"

definition lost_world :: "(string list \<times> double) port_world" where
  "lost_world = \<lparr>ps = ([''eff_op_1:candidate:1''], lost_double),
     plog = [Sent ''eff_op_1:candidate:1'' (CandidateSent example_candidate), Prepared ''op_1:candidate:1'' (fst (permit_of ''op_1:candidate:1'' ([], ())))]\<rparr>"

lemma lost_first: "registerCandidate double_ports example_candidate lost_start = (Inl plain_error, lost_world)"
proof -
  have key: "fault_key ''register'' (rc_Occurrence example_candidate) = ''register:1''"
    by (simp add: fault_key_def show_nat.simps digit_def char_of_def bit_0 example_candidate_def)
  have reg: "double_register id ''eff_op_1:candidate:1'' example_candidate example_double = (Inl plain_error, lost_double)"
    by (simp add: double_register_def fault_def key example_double_def lost_double_def Let_def)
  show ?thesis
    using reg by (simp add: registerCandidate_def prepared_def port_def double_ports_def example_ports_def permit_of_def lost_start_def lost_world_def Let_def
        example_candidate_def)
qed

lemma lost_retry: "\<exists>w3. registerCandidate double_ports example_candidate lost_world = (Inr registered_ref, w3)"
  by (simp add: registerCandidate_def prepared_def port_def double_ports_def example_ports_def permit_of_def lost_world_def Let_def query_candidate_def
      observe_candidate_def observe_effect_def QueryRegistration_def lost_double_def example_candidate_def registered_ref_def registered_as_def)

theorem registration_recovered_witness:
  "\<exists>w3. registerCandidate double_ports example_candidate lost_start = (Inl plain_error, lost_world) \<and>
    registerCandidate double_ports example_candidate lost_world = (Inr registered_ref, w3) \<and> sent_ids (plog w3) = [''eff_op_1:candidate:1'']"
proof -
  obtain w3 where run: "registerCandidate double_ports example_candidate lost_world = (Inr registered_ref, w3)" using lost_retry by blast
  let ?permit = "\<lparr>ep_EffectID = ''eff_op_1:candidate:1'', ep_Permitted = False, ep_State = ''permitted'', ep_Outcome = '''', ep_DenialCode = '''', ep_OutcomeRef = ''''\<rparr>"
  have sent: "Sent ''eff_op_1:candidate:1'' (CandidateSent example_candidate) \<in> set (plog lost_world)" "plog lost_start = []"
    and own: "own_digest id ''eff_op_1:candidate:1'' (snd (ps lost_start))"
    by (simp_all add: lost_world_def lost_start_def own_digest_def example_double_def)
  have prep: "fp_PrepareEffect double_ports example_candidate (ps lost_world) = (Inr ?permit, ps lost_world)"
    by (simp add: double_ports_def example_ports_def permit_of_def lost_world_def example_candidate_def Let_def)
  have "sent_ids (plog w3) = sent_ids (plog lost_world)"
    using registration_recovered [OF double_ports_register lost_first sent own refl prep _ _ _ run] by simp
  moreover have "sent_ids (plog lost_world) = [''eff_op_1:candidate:1'']" by (simp add: sent_ids_def lost_world_def map_filter_simps)
  ultimately show ?thesis using lost_first run by auto
qed

end
