(* ===== verification/Verify.thy ===== *)
theory Verify
  imports LocalCheckWf Outcomes Ports
begin

text \<open>
  The trusted observer of a LocalCheck (\<^verbatim>\<open>VerifyResult\<close> of \<^verbatim>\<open>internal/activities/activities.go\<close>):
  the verdict on what the backend observed, and what a run whose verifications are this Activity's accepts. The jobs contract
  is third-party code: the profile of an identity, the validation of a result manifest, the JSON of the two documents
  and the hash are a parameter.
\<close>

section \<open>The contract\<close>

record expected_result =
  ex_ResultDigest :: string
  ex_ResultSizeBytes :: string

record result_profile =
  rj_JobKind :: string
  rj_ExpectedResult :: "expected_result option"

record reported_output =
  ou_Class :: string
  ou_Digest :: string
  ou_SizeBytes :: string

text \<open>What is read of a reported manifest, and what the observer writes itself for a result it refuses.\<close>

record reported_result =
  rq_LaunchID :: string
  rq_AttemptID :: string
  rq_ProfileID :: string
  rq_Verdict :: string
  rq_Outputs :: "reported_output list"

record failed_manifest =
  fm_SchemaVersion :: int
  fm_LaunchID :: string
  fm_AttemptID :: string
  fm_JobKind :: string
  fm_ProfileID :: string
  fm_Verdict :: string
  fm_FailureCode :: string
  fm_CompletedAt :: time

record result_contract =
  vc_ProfileByID :: "string \<Rightarrow> wf_error + result_profile"
  vc_ValidateResultManifest :: "string \<Rightarrow> bool"
  vc_Unmarshal :: "string \<Rightarrow> reported_result option"
  vc_Marshal :: "failed_manifest \<Rightarrow> string option"
  vc_sha256 :: "string \<Rightarrow> string"

definition digestOf :: "result_contract \<Rightarrow> string \<Rightarrow> string" where
  "digestOf vc b = ''sha256:'' @ vc_sha256 vc b"

section \<open>The verdict\<close>

definition fail_verdict :: "result_contract \<Rightarrow> verify_result_input \<Rightarrow> result_profile \<Rightarrow> string \<Rightarrow> string \<Rightarrow> wf_error + verdict" where
  "fail_verdict vc inp profile v code =
     (case vc_Marshal vc \<lparr>fm_SchemaVersion = 1, fm_LaunchID = lr_LaunchID (vr_Launch inp), fm_AttemptID = ar_AttemptID (vr_Attempt inp),
        fm_JobKind = rj_JobKind profile, fm_ProfileID = vr_ProfileID inp, fm_Verdict = v, fm_FailureCode = code, fm_CompletedAt = vr_CompletedAt inp\<rparr> of
        None \<Rightarrow> Inl plain_error
      | Some manifest \<Rightarrow> Inr \<lparr>vd_Verdict = v, vd_FailureCode = code, vd_Manifest = manifest, vd_ResultDigest = digestOf vc manifest\<rparr>)"

text \<open>What the backend reported, before the manifest is read: the verdict and the code of the first case that applies.\<close>

definition backend_refusal :: "job_observation \<Rightarrow> pod_observation \<Rightarrow> (string \<times> string) option" where
  "backend_refusal obs owner =
     (if jo_Reason obs = ''DeadlineExceeded'' then Some (''infrastructure_failed'', ''DEADLINE_EXCEEDED'')
      else if po_Reason owner = ''ErrImagePull'' \<or> po_Reason owner = ''ImagePullBackOff'' then Some (''infrastructure_failed'', ''IMAGE_PULL_FAILED'')
      else if po_Reason owner = ''Evicted'' then Some (''infrastructure_failed'', ''POD_EVICTED'')
      else if po_Phase owner \<noteq> ''succeeded'' \<or> po_ExitCode owner \<noteq> Some 0 then Some (''invalid'', ''CANDIDATE_TEST_FAILED'')
      else None)"

definition names_run :: "verify_result_input \<Rightarrow> reported_result \<Rightarrow> bool" where
  "names_run inp r \<longleftrightarrow> rq_LaunchID r = lr_LaunchID (vr_Launch inp) \<and> rq_AttemptID r = ar_AttemptID (vr_Attempt inp) \<and>
     rq_ProfileID r = vr_ProfileID inp \<and> rq_Verdict r = ''certified''"

definition as_expected :: "result_profile \<Rightarrow> reported_result \<Rightarrow> bool" where
  "as_expected profile r \<longleftrightarrow>
     (case rj_ExpectedResult profile of
        None \<Rightarrow> False
      | Some e \<Rightarrow> ex_ResultSizeBytes e \<noteq> '''' \<and>
          (case rq_Outputs r of
             [o1] \<Rightarrow> ou_Class o1 = ''result'' \<and> ou_Digest o1 = ex_ResultDigest e \<and> ou_SizeBytes o1 = ex_ResultSizeBytes e
           | _ \<Rightarrow> False))"

definition manifest_refusal :: "result_contract \<Rightarrow> verify_result_input \<Rightarrow> result_profile \<Rightarrow> string \<Rightarrow> string option" where
  "manifest_refusal vc inp profile manifest =
     (if \<not> vc_ValidateResultManifest vc manifest then Some ''PROTECTED_FIXTURE_ALTERED''
      else case vc_Unmarshal vc manifest of
          None \<Rightarrow> Some ''PROTECTED_FIXTURE_ALTERED''
        | Some r \<Rightarrow>
            if \<not> names_run inp r then Some ''PROTECTED_FIXTURE_ALTERED''
            else if \<not> as_expected profile r then Some ''RESULT_DIGEST_MISMATCH''
            else None)"

definition VerifyResult_act :: "result_contract \<Rightarrow> verify_result_input \<Rightarrow> wf_error + verdict" where
  "VerifyResult_act vc inp =
     (case vc_ProfileByID vc (vr_ProfileID inp) of
        Inl err \<Rightarrow> Inl err
      | Inr profile \<Rightarrow>
          (case jo_Pods (vr_Observation inp) of
             [] \<Rightarrow> fail_verdict vc inp profile ''infrastructure_failed''
                (if jo_Reason (vr_Observation inp) = ''DeadlineExceeded'' then ''DEADLINE_EXCEEDED'' else ''OBSERVER_FAILED'')
           | owner # _ \<Rightarrow>
               (case backend_refusal (vr_Observation inp) owner of
                  Some (v, code) \<Rightarrow> fail_verdict vc inp profile v code
                | None \<Rightarrow>
                    (let manifest = po_TerminationMessage owner in
                     case manifest_refusal vc inp profile manifest of
                       Some code \<Rightarrow> fail_verdict vc inp profile ''invalid'' code
                     | None \<Rightarrow> Inr \<lparr>vd_Verdict = ''certified'', vd_FailureCode = '''', vd_Manifest = manifest, vd_ResultDigest = digestOf vc manifest\<rparr>))))"

section \<open>What a verdict says\<close>

text \<open>
  A certified observation: the first Pod succeeded with exit code 0, nothing was reported against the Job or the Pod,
  and its termination message is a valid manifest of this launch, attempt and profile whose one output has
  the digest and the size of the reviewed expectation.
\<close>

definition certified_observation :: "result_contract \<Rightarrow> verify_result_input \<Rightarrow> pod_observation \<Rightarrow> bool" where
  "certified_observation vc inp owner \<longleftrightarrow>
     jo_Reason (vr_Observation inp) \<noteq> ''DeadlineExceeded'' \<and> po_Reason owner \<notin> {''ErrImagePull'', ''ImagePullBackOff'', ''Evicted''} \<and>
     po_Phase owner = ''succeeded'' \<and> po_ExitCode owner = Some 0 \<and> vc_ValidateResultManifest vc (po_TerminationMessage owner) \<and>
     (\<exists>profile r. vc_ProfileByID vc (vr_ProfileID inp) = Inr profile \<and> vc_Unmarshal vc (po_TerminationMessage owner) = Some r \<and>
        names_run inp r \<and> as_expected profile r)"

lemma fail_verdict_Inr:
  assumes "fail_verdict vc inp profile v code = Inr d"
  shows "vd_Verdict d = v" "vd_FailureCode d = code" "vd_ResultDigest d = digestOf vc (vd_Manifest d)"
  using assms by (auto simp: fail_verdict_def split: option.splits)

lemma backend_refusal_None:
  "backend_refusal obs owner = None \<longleftrightarrow> jo_Reason obs \<noteq> ''DeadlineExceeded'' \<and> po_Reason owner \<notin> {''ErrImagePull'', ''ImagePullBackOff'', ''Evicted''} \<and>
     po_Phase owner = ''succeeded'' \<and> po_ExitCode owner = Some 0"
  by (auto simp: backend_refusal_def)

lemma backend_refusal_Some: "backend_refusal obs owner = Some (v, code) \<Longrightarrow> v \<in> {''infrastructure_failed'', ''invalid''} \<and> code \<noteq> ''''"
  by (auto simp: backend_refusal_def split: if_splits)

lemma manifest_refusal_None:
  "manifest_refusal vc inp profile manifest = None \<longleftrightarrow>
     vc_ValidateResultManifest vc manifest \<and> (\<exists>r. vc_Unmarshal vc manifest = Some r \<and> names_run inp r \<and> as_expected profile r)"
  by (auto simp: manifest_refusal_def split: option.splits)

lemma manifest_refusal_Some: "manifest_refusal vc inp profile manifest = Some code \<Longrightarrow> code \<noteq> ''''"
  by (auto simp: manifest_refusal_def split: option.splits if_splits)

lemma VerifyResult_digest: "VerifyResult_act vc inp = Inr d \<Longrightarrow> vd_ResultDigest d = digestOf vc (vd_Manifest d)"
  by (auto simp: VerifyResult_act_def Let_def dest: fail_verdict_Inr split: sum.splits list.splits option.splits prod.splits)

section \<open>Runs whose verifications are this Activity's\<close>

definition verification_served :: "'e runtime \<Rightarrow> result_contract \<Rightarrow> bool" where
  "verification_served rt vc \<longleftrightarrow> (\<forall>c opts v s d s'. rt_perform rt c opts (VerifyResult v) s = (Inr (RVerdict d), s') \<longrightarrow> VerifyResult_act vc v = Inr d)"

lemma runs_performed:
  "runs rt P w w' \<Longrightarrow> Act c opts r res \<in> set (trace w') \<Longrightarrow> Act c opts r res \<in> set (trace w) \<or> (\<exists>s s'. rt_perform rt c opts r s = (res, s'))"
proof (induction rule: runs.induct)
  case (runs_exec w1 c1 opts1 r1 res1 w2)
  then show ?case by (auto simp: exec_def split: prod.splits)
next
  case (runs_sleep w1 c1 d res1 w2)
  then show ?case by (auto dest!: trace_sleep)
qed simp

lemma local_finish_runs:
  assumes "local_finish rt q b inp attempt st w = Some (err, w')"
  shows "runs rt (\<lambda>_. True) w w'"
proof -
  note close = runs_mono [OF closeOrContinue_safe(1) TrueI]
  obtain cleanup l1 w1 where first: "local_cleanup rt q b attempt st w = (cleanup, l1, w1)" by (metis prod_cases3)
  obtain cerr w2 where cl: "closeOrContinue rt Disconnected q b (in_OperationID inp) (in_TenantID inp)
      (local_carry attempt st '':close'' cleanup) w1 = Some (cerr, w2)"
    using assms first by (auto simp: local_finish_def split: option.splits)
  have two: "runs rt (\<lambda>_. True) w w2" using runs_trans [OF runs_mono [OF local_cleanup_runs [OF first] TrueI] close [OF cl]] .
  show ?thesis
  proof (cases "w' = w2")
    case False
    then obtain ok l2 w3 where rec: "reconcileCleanup rt Disconnected q b attempt (st_Launch st) l1 w2 = Some (ok, l2, w3)"
      and rest: "w' = w3 \<or> closeOrContinue rt Disconnected q b (in_OperationID inp) (in_TenantID inp)
            (local_carry attempt st '':close:settled'' ''complete'') w3 = Some (err, w')"
      using assms first cl by (auto simp: local_finish_def split: option.splits if_splits)
    have "runs rt (\<lambda>_. True) w2 w3"
      using runs_mono [OF reconcile_loop_runs [OF rec [unfolded reconcileCleanup_def]]] by simp
    then have "runs rt (\<lambda>_. True) w w3" by (rule runs_trans [OF two])
    then show ?thesis using rest close runs_trans by blast
  qed (use two in simp)
qed

lemma LocalCheck_runs:
  assumes "LocalCheck rt q b inp w = Some (err, w')"
  shows "runs rt (\<lambda>_. True) w w'"
proof (cases "in_Close inp")
  case (Some cc)
  then show ?thesis using assms runs_mono [OF closeOrContinue_safe(1) TrueI] by (auto simp: LocalCheck_def closeOnly_def)
next
  case None
  obtain res w1 where op: "get as_attempt (exec rt RunCtx (businessOptions q b) (OpenAttempt (open_input inp)) w) = (res, w1)"
    by fastforce
  have r1: "runs rt (\<lambda>_. True) w w1" by (rule runs_one [OF op]) simp
  show ?thesis
  proof (cases res)
    case (Inl err1)
    then show ?thesis using assms None op r1 by (simp add: LocalCheck_def)
  next
    case (Inr attempt)
    obtain st w2 where body: "local_body rt q b (in_OperationID inp) attempt w1 = (st, w2)" by fastforce
    have "local_finish rt q b inp attempt st w2 = Some (err, w')" using assms None op Inr body by (simp add: LocalCheck_def)
    from runs_trans [OF runs_trans [OF r1 runs_mono [OF local_body_runs [OF body] TrueI]] local_finish_runs [OF this]] show ?thesis .
  qed
qed

lemma accepts_verified_by:
  "accepts_verified es \<Longrightarrow> Act c opts (AcceptResult ai) res \<in> set es \<Longrightarrow> ir_Current (ac_Instance ai) \<and> list_ex (verified_by ai) es"
  by (induction es rule: accepts_verified.induct) auto

lemma verified_by_verdict:
  "verified_by ai e \<Longrightarrow> \<exists>c opts v. e = Act c opts (VerifyResult v) (Inr (RVerdict (ac_Verdict ai))) \<and> vr_Attempt v = ac_Attempt ai"
  by (cases "(ai, e)" rule: verified_by.cases) auto

section \<open>A verification is of what was observed\<close>

text \<open>A verification is made of the observation an \<open>ObserveJob\<close> call for the same launch answered before.\<close>

definition job_observed :: "verify_result_input \<Rightarrow> event list \<Rightarrow> bool" where
  "job_observed v es \<longleftrightarrow> (\<exists>c opts oj. Act c opts (ObserveJob oj) (Inr (RJobObservation (vr_Observation v))) \<in> set es \<and> oj_Launch oj = vr_Launch v)"

definition verifies_observed :: "event list \<Rightarrow> event \<Rightarrow> bool" where
  "verifies_observed es e \<longleftrightarrow> (\<forall>c opts v res. e = Act c opts (VerifyResult v) res \<longrightarrow> job_observed v es)"

abbreviation keeps_observed :: "'e world \<Rightarrow> 'e world \<Rightarrow> bool" where
  "keeps_observed \<equiv> keeps verifies_observed"

lemma runs_observed:
  assumes "runs rt P w w'" "\<And>e c opts v res. P e \<Longrightarrow> e \<noteq> Act c opts (VerifyResult v) res"
  shows "keeps_observed w w'"
  by (rule extends_keeps [OF runs_extends [OF assms(1)]]) (use assms(2) in \<open>auto simp: verifies_observed_def\<close>)

lemma register_current_observed:
  "register_current rt q b attempt launch jobUID i pods current w = (r, w') \<Longrightarrow> keeps_observed w w'"
proof (induction pods arbitrary: i current w)
  case (Cons pod pods)
  obtain res w1 where one: "get as_instance (exec rt RunCtx (businessOptions q b)
      (RegisterInstance (register_input attempt launch jobUID pod)) w) = (res, w1)" by fastforce
  have k1: "keeps_observed w w1" by (rule keeps_call [OF one]) (simp add: verifies_observed_def)
  show ?case
  proof (cases res)
    case (Inr inst)
    obtain res2 w2 where two: "get as_unit (exec rt RunCtx (businessOptions q b)
        (ObserveInstance \<lparr>oi_Attempt = attempt, oi_Instance = inst, oi_Observation = pod\<rparr>) w1) = (res2, w2)" by fastforce
    have "keeps_observed w1 w2" by (rule keeps_call [OF two]) (simp add: verifies_observed_def)
    then show ?thesis using Cons k1 one two Inr by (auto split: sum.splits intro: keeps_trans)
  qed (use Cons.prems one k1 in simp)
qed simp

lemma local_accept_observed:
  assumes "local_accept rt q b attempt launch obs current w = (r, w')"
    and "Act c opts (ObserveJob oj) (Inr (RJobObservation obs)) \<in> set (trace w)" "oj_Launch oj = launch"
  shows "keeps_observed w w'"
proof -
  let ?v = "\<lparr>vr_Launch = launch, vr_Attempt = attempt, vr_ProfileID = profileID, vr_Observation = obs, vr_CompletedAt = now rt w\<rparr>"
  obtain res w1 where one: "get as_verdict (exec rt RunCtx (businessOptions q b) (VerifyResult ?v) w) = (res, w1)" by fastforce
  have "job_observed ?v (trace w)" unfolding job_observed_def using assms(2,3) by auto
  then have k1: "keeps_observed w w1" using keeps_call [OF one] by (simp add: verifies_observed_def)
  show ?thesis
  proof (cases res)
    case (Inr verdict)
    obtain res2 w2 where two: "get as_stage (exec rt RunCtx (businessOptions q b) (AcceptResult
        \<lparr>ac_Attempt = attempt, ac_Instance = current, ac_CommandID = ar_AttemptID attempt @ '':accept'',
         ac_ProfileID = profileID, ac_Verdict = verdict\<rparr>) w1) = (res2, w2)" by fastforce
    have "keeps_observed w1 w2" by (rule keeps_call [OF two]) (simp add: verifies_observed_def)
    then show ?thesis using assms(1) one two Inr k1
      by (auto simp: local_accept_def Let_def split: sum.splits intro: keeps_trans)
  qed (use assms(1) one k1 in \<open>simp add: local_accept_def\<close>)
qed

lemma local_observed_observed:
  assumes "local_observed rt q b attempt launch obs w = (r, w')"
    and "Act c opts (ObserveJob oj) (Inr (RJobObservation obs)) \<in> set (trace w)" "oj_Launch oj = launch"
  shows "keeps_observed w w'"
proof -
  obtain res w1 where reg: "register_current rt q b attempt launch (jo_JobUID obs) 0 (jo_Pods obs) no_instance w = (res, w1)"
    by fastforce
  note k1 = register_current_observed [OF reg]
  have "Act c opts (ObserveJob oj) (Inr (RJobObservation obs)) \<in> set (trace w1)" using keeps_subset [OF k1] assms(2) by blast
  note accept = local_accept_observed [OF _ this assms(3)]
  show ?thesis using assms(1) reg k1 keeps_trans [OF k1 accept]
    by (auto simp: local_observed_def split: sum.splits if_splits)
qed

lemma create_event_not_verify: "create_event c opts e \<Longrightarrow> e \<noteq> Act c' opts' (VerifyResult v) res"
  by (cases "(c, opts, e)" rule: create_event.cases) auto

lemma close_event_not_verify: "close_event c q b inp e \<Longrightarrow> e \<noteq> Act c' opts' (VerifyResult v) res"
  by auto

lemma local_launched_observed:
  assumes "local_launched rt q b attempt launch deadline w = (st, w')"
  shows "keeps_observed w w'"
proof -
  obtain res l1 w1 where cr: "createJob rt RunCtx q b local_spec launch deadline empty_ledger w = (res, l1, w1)"
    by (metis prod_cases3)
  have k1: "keeps_observed w w1" by (rule runs_observed [OF createJob_runs [OF cr] create_event_not_verify])
  show ?thesis
  proof (cases res)
    case (Inl err)
    then show ?thesis using assms cr k1 by (auto simp: local_launched_def Let_def)
  next
    case (Inr job)
    let ?oj = "\<lparr>oj_Launch = launch, oj_Deadline = deadline\<rparr>" let ?opts = "observeOptions q b (observe_timeout deadline (now rt w1))"
    obtain res2 w2 where ob: "get as_job_observation (exec rt RunCtx ?opts (ObserveJob ?oj) w1) = (res2, w2)" by fastforce
    have k2: "keeps_observed w w2" by (rule keeps_trans [OF k1 keeps_call [OF ob]]) (simp add: verifies_observed_def)
    show ?thesis
    proof (cases res2)
      case (Inl err)
      then show ?thesis using assms cr ob Inr k2 by (auto simp: local_launched_def)
    next
      case obs: (Inr obs)
      obtain raw where tr: "trace w2 = Act RunCtx ?opts (ObserveJob ?oj) raw # trace w1" "res2 = decode as_job_observation raw"
        using trace_get_exec [OF ob] by blast
      then have "raw = Inr (RJobObservation obs)" using obs by (auto simp: decode_Inr dest: sym)
      then have ev: "Act RunCtx ?opts (ObserveJob ?oj) (Inr (RJobObservation obs)) \<in> set (trace w2)" using tr by simp
      obtain r w3 where lo: "local_observed rt q b attempt launch obs w2 = (r, w3)" by fastforce
      have "keeps_observed w2 w3" by (rule local_observed_observed [OF lo ev]) simp
      then show ?thesis using assms cr ob Inr obs lo keeps_trans [OF k2] by (auto simp: local_launched_def)
    qed
  qed
qed

lemma local_body_observed:
  assumes "local_body rt q b operationID attempt w = (st, w')"
  shows "keeps_observed w w'"
proof -
  obtain res w1 where pl: "get as_launch (exec rt RunCtx (businessOptions q b) (PrepareLaunch
      \<lparr>pl_Attempt = attempt, pl_CommandID = ar_AttemptID attempt @ '':launch'',
       pl_LaunchKey = launchKeyFor operationID, pl_Deadline = launch_deadline b attempt (now rt w)\<rparr>) w) = (res, w1)" by fastforce
  have k1: "keeps_observed w w1" by (rule keeps_call [OF pl]) (simp add: verifies_observed_def)
  show ?thesis using assms pl k1 keeps_trans [OF k1 local_launched_observed]
    by (auto simp: local_body_def Let_def split: if_splits sum.splits)
qed

lemma cleanup_event_not_verify: "cleanup_event c q b attempt launch e \<Longrightarrow> e \<noteq> Act c' opts' (VerifyResult v) res"
  by auto

lemma round_event_not_verify: "round_event c q b attempt launch e \<Longrightarrow> e \<noteq> Act c' opts' (VerifyResult v) res"
  by (cases e) auto

lemma closeOrContinue_observed: "closeOrContinue rt c q b operationID tenantID cc w = Some (err, w') \<Longrightarrow> keeps_observed w w'"
  using closeOrContinue_safe(1) close_event_not_verify by (rule runs_observed)

lemma local_finish_observed:
  assumes "local_finish rt q b inp attempt st w = Some (err, w')"
  shows "keeps_observed w w'"
proof -
  obtain cleanup l1 w1 where first: "local_cleanup rt q b attempt st w = (cleanup, l1, w1)" by (metis prod_cases3)
  have k1: "keeps_observed w w1" using local_cleanup_runs [OF first] cleanup_event_not_verify by (rule runs_observed)
  obtain cerr w2 where cl: "closeOrContinue rt Disconnected q b (in_OperationID inp) (in_TenantID inp)
      (local_carry attempt st '':close'' cleanup) w1 = Some (cerr, w2)"
    using assms first by (auto simp: local_finish_def split: option.splits)
  note k2 = keeps_trans [OF k1 closeOrContinue_observed [OF cl]]
  show ?thesis
  proof (cases "w' = w2")
    case False
    then obtain ok l2 w3 where rec: "reconcileCleanup rt Disconnected q b attempt (st_Launch st) l1 w2 = Some (ok, l2, w3)"
      and rest: "w' = w3 \<or> closeOrContinue rt Disconnected q b (in_OperationID inp) (in_TenantID inp)
            (local_carry attempt st '':close:settled'' ''complete'') w3 = Some (err, w')"
      using assms first cl by (auto simp: local_finish_def split: option.splits if_splits)
    have "keeps_observed w2 w3"
      by (rule runs_observed [OF reconcile_loop_runs [OF rec [unfolded reconcileCleanup_def], simplified] round_event_not_verify])
    then show ?thesis using rest keeps_trans [OF k2] keeps_trans closeOrContinue_observed by blast
  qed (use k2 in simp)
qed

lemma LocalCheck_observed:
  assumes "LocalCheck rt q b inp w = Some (err, w')"
  shows "keeps_observed w w'"
proof (cases "in_Close inp")
  case (Some cc)
  then show ?thesis using assms closeOrContinue_observed by (auto simp: LocalCheck_def closeOnly_def)
next
  case None
  obtain res w1 where op: "get as_attempt (exec rt RunCtx (businessOptions q b) (OpenAttempt (open_input inp)) w) = (res, w1)"
    by fastforce
  have k1: "keeps_observed w w1" by (rule keeps_call [OF op]) (simp add: verifies_observed_def)
  show ?thesis
  proof (cases res)
    case (Inl err1)
    then show ?thesis using assms None op k1 by (simp add: LocalCheck_def)
  next
    case (Inr attempt)
    obtain st w2 where body: "local_body rt q b (in_OperationID inp) attempt w1 = (st, w2)" by fastforce
    have "local_finish rt q b inp attempt st w2 = Some (err, w')" using assms None op Inr body by (simp add: LocalCheck_def)
    from keeps_trans [OF keeps_trans [OF k1 local_body_observed [OF body]] local_finish_observed [OF this]] show ?thesis .
  qed
qed

section \<open>Properties\<close>

text \<open>
  The candidate never certifies itself. For a reviewed profile the observer answers certified exactly for a certified observation, with the
  reported manifest, its digest and no code; otherwise a failure with a code and a manifest of the observer's own for this launch, attempt and
  profile, if that can be encoded.
\<close>

lemma VerifyResult_decides:
  assumes "vc_ProfileByID vc (vr_ProfileID inp) = Inr profile"
  shows "if (\<exists>owner rest. jo_Pods (vr_Observation inp) = owner # rest \<and> certified_observation vc inp owner)
    then (let manifest = po_TerminationMessage (hd (jo_Pods (vr_Observation inp))) in
      VerifyResult_act vc inp = Inr \<lparr>vd_Verdict = ''certified'', vd_FailureCode = '''', vd_Manifest = manifest, vd_ResultDigest = digestOf vc manifest\<rparr>)
    else (\<exists>v \<in> {''infrastructure_failed'', ''invalid''}. \<exists>code. code \<noteq> '''' \<and> VerifyResult_act vc inp = fail_verdict vc inp profile v code)"
proof (cases "jo_Pods (vr_Observation inp)")
  case Nil
  then show ?thesis using assms by (auto simp: VerifyResult_act_def)
next
  case (Cons owner rest)
  show ?thesis
  proof (cases "backend_refusal (vr_Observation inp) owner")
    case None
    show ?thesis
    proof (cases "manifest_refusal vc inp profile (po_TerminationMessage owner)")
      case ok: None
      then have "certified_observation vc inp owner"
        using None assms by (auto simp: certified_observation_def backend_refusal_None manifest_refusal_None)
      then show ?thesis using assms Cons None ok by (simp add: VerifyResult_act_def Let_def)
    next
      case (Some code)
      then have "\<not> certified_observation vc inp owner"
        using manifest_refusal_None [of vc inp profile "po_TerminationMessage owner"] assms by (auto simp: certified_observation_def)
      moreover have "VerifyResult_act vc inp = fail_verdict vc inp profile ''invalid'' code"
        using assms Cons None Some by (simp add: VerifyResult_act_def Let_def)
      ultimately show ?thesis using Cons manifest_refusal_Some [OF Some] by auto
    qed
  next
    case (Some vcode)
    obtain v code where vcode: "vcode = (v, code)" by fastforce
    have "\<not> certified_observation vc inp owner"
      using Some backend_refusal_None [of "vr_Observation inp" owner] by (auto simp: certified_observation_def)
    moreover have "VerifyResult_act vc inp = fail_verdict vc inp profile v code"
      using assms Cons Some vcode by (simp add: VerifyResult_act_def)
    ultimately show ?thesis using Cons backend_refusal_Some [OF Some [unfolded vcode]] by auto
  qed
qed

lemma VerifyResult_certified:
  assumes "VerifyResult_act vc inp = Inr d" "vd_Verdict d = ''certified''"
  shows "\<exists>owner rest. jo_Pods (vr_Observation inp) = owner # rest \<and> certified_observation vc inp owner \<and> vd_FailureCode d = '''' \<and>
    vd_Manifest d = po_TerminationMessage owner"
proof -
  obtain profile where "vc_ProfileByID vc (vr_ProfileID inp) = Inr profile" using assms(1) by (auto simp: VerifyResult_act_def split: sum.splits)
  note decides = VerifyResult_decides [OF this]
  show ?thesis
  proof (cases "\<exists>owner rest. jo_Pods (vr_Observation inp) = owner # rest \<and> certified_observation vc inp owner")
    case True
    then show ?thesis using decides assms(1) by (auto simp: Let_def)
  next
    case False
    then have "\<exists>v \<in> {''infrastructure_failed'', ''invalid''}. \<exists>code. VerifyResult_act vc inp = fail_verdict vc inp profile v code"
      using decides by (metis (no_types, lifting))
    then obtain v code where "v \<in> {''infrastructure_failed'', ''invalid''}" "fail_verdict vc inp profile v code = Inr d"
      using assms(1) by metis
    then have "vd_Verdict d \<in> {''infrastructure_failed'', ''invalid''}" using fail_verdict_Inr(1) by metis
    then show ?thesis using assms(2) by simp
  qed
qed

text \<open>
  C37. What a LocalCheck accepts is what the observer saw. When verifications are served by the Activity, every result a run
  accepts is for the current instance and is the verdict a verification of that attempt answered on the very observation the backend
  answered for its launch. One it accepts as certified is of a certified observation and carries, without a failure code, the
  termination message of the first Pod as its manifest; any other has a failure code and carries a manifest the observer
  wrote itself for that launch, attempt and profile. The result digest is that of the manifest.
\<close>

theorem LocalCheck_accepts_certified:
  assumes "LocalCheck rt q b inp w = Some (err, w')" "trace w = []" "verification_served rt vc"
    and "Act c opts (AcceptResult ai) res \<in> set (trace w')"
  shows "ir_Current (ac_Instance ai) \<and> vd_ResultDigest (ac_Verdict ai) = digestOf vc (vd_Manifest (ac_Verdict ai)) \<and>
    (\<exists>v. vr_Attempt v = ac_Attempt ai \<and> job_observed v (trace w') \<and> VerifyResult_act vc v = Inr (ac_Verdict ai) \<and>
       (if vd_Verdict (ac_Verdict ai) = ''certified''
        then \<exists>owner rest. jo_Pods (vr_Observation v) = owner # rest \<and> certified_observation vc v owner \<and>
               vd_FailureCode (ac_Verdict ai) = '''' \<and> vd_Manifest (ac_Verdict ai) = po_TerminationMessage owner
        else vd_FailureCode (ac_Verdict ai) \<noteq> '''' \<and>
               (\<exists>profile. vc_ProfileByID vc (vr_ProfileID v) = Inr profile \<and>
                  Inr (ac_Verdict ai) = fail_verdict vc v profile (vd_Verdict (ac_Verdict ai)) (vd_FailureCode (ac_Verdict ai)))))"
proof -
  have ver: "ir_Current (ac_Instance ai)" "list_ex (verified_by ai) (trace w')"
    using accepts_verified_by [OF _ assms(4)] LocalCheck_accepts [OF assms(1,2)] by blast+
  obtain c1 opts1 v where v: "Act c1 opts1 (VerifyResult v) (Inr (RVerdict (ac_Verdict ai))) \<in> set (trace w')" "vr_Attempt v = ac_Attempt ai"
    using ver(2) verified_by_verdict by (fastforce simp: list_ex_iff)
  obtain later before where split: "trace w' = later @ Act c1 opts1 (VerifyResult v) (Inr (RVerdict (ac_Verdict ai))) # before"
    using split_list [OF v(1)] by blast
  have "guarded verifies_observed (later @ Act c1 opts1 (VerifyResult v) (Inr (RVerdict (ac_Verdict ai))) # before)"
    using keeps_guarded [OF LocalCheck_observed [OF assms(1)]] assms(2) split by simp
  then have "job_observed v before" using guarded_member unfolding verifies_observed_def by blast
  then have obs: "job_observed v (trace w')" unfolding job_observed_def split by auto
  obtain s s' where "rt_perform rt c1 opts1 (VerifyResult v) s = (Inr (RVerdict (ac_Verdict ai)), s')"
    using runs_performed [OF LocalCheck_runs [OF assms(1)] v(1)] assms(2) by auto
  then have act: "VerifyResult_act vc v = Inr (ac_Verdict ai)" using assms(3) unfolding verification_served_def by blast
  then obtain profile where profile: "vc_ProfileByID vc (vr_ProfileID v) = Inr profile" by (auto simp: VerifyResult_act_def split: sum.splits)
  note decides = VerifyResult_decides [OF profile, unfolded act]
  show ?thesis
  proof (cases "vd_Verdict (ac_Verdict ai) = ''certified''")
    case True
    then show ?thesis using VerifyResult_certified [OF act True] VerifyResult_digest [OF act] ver(1) v(2) obs act by auto
  next
    case False
    then obtain w code where f: "code \<noteq> ''''" "Inr (ac_Verdict ai) = fail_verdict vc v profile w code"
      using decides by (auto simp: Let_def split: if_splits)
    note sel = fail_verdict_Inr [OF f(2) [symmetric]]
    show ?thesis using False f VerifyResult_digest [OF act] ver(1) v(2) obs act profile unfolding sel(1,2) by auto
  qed
qed

section \<open>Examples\<close>

definition fixed_profile :: result_profile where
  "fixed_profile = \<lparr>rj_JobKind = ''local-check'', rj_ExpectedResult = Some \<lparr>ex_ResultDigest = ''sha256:24'', ex_ResultSizeBytes = ''24''\<rparr>\<rparr>"

definition fixed_report :: reported_result where
  "fixed_report = \<lparr>rq_LaunchID = ''l1'', rq_AttemptID = ''att_1'', rq_ProfileID = ''local-check-v1'', rq_Verdict = ''certified'',
     rq_Outputs = [\<lparr>ou_Class = ''result'', ou_Digest = ''sha256:24'', ou_SizeBytes = ''24''\<rparr>]\<rparr>"

definition fixed_contract :: result_contract where
  "fixed_contract = \<lparr>vc_ProfileByID = (\<lambda>i. if i = ''local-check-v1'' then Inr fixed_profile else Inl (ApplicationError [] False)),
     vc_ValidateResultManifest = (\<lambda>m. m = ''report''), vc_Unmarshal = (\<lambda>m. if m = ''report'' then Some fixed_report else None),
     vc_Marshal = (\<lambda>m. Some (''failed:'' @ fm_FailureCode m)), vc_sha256 = id\<rparr>"

text \<open>A backend that runs the fixture, and a run over it whose verification is the Activity.\<close>

definition fixed_pod :: pod_observation where
  "fixed_pod = \<lparr>po_PodUID = ''pod'', po_Phase = ''succeeded'', po_ExitCode = Some 0, po_Reason = '''', po_TerminationMessage = ''report'', po_ObservedAt = 0\<rparr>"

fun fixture_perform :: "wctx \<Rightarrow> activity_options \<Rightarrow> request \<Rightarrow> nat \<Rightarrow> (wf_error + response) \<times> nat" where
  "fixture_perform c opts (OpenAttempt inp) s = (Inr (RAttempt example_attempt), s)"
| "fixture_perform c opts (PrepareLaunch inp) s = (Inr (RLaunch (example_launch\<lparr>lr_LaunchKey := pl_LaunchKey inp\<rparr>)), s)"
| "fixture_perform c opts (Temporal.CreateJob inp) s = (Inr (RJob \<lparr>jr_JobUID = ''job'', jr_Request = cj_Request inp\<rparr>), s)"
| "fixture_perform c opts (ObserveJob inp) s = (Inr (RJobObservation \<lparr>jo_JobUID = ''job'', jo_Pods = [fixed_pod], jo_Reason = ''''\<rparr>), s)"
| "fixture_perform c opts (RegisterInstance inp) s = (Inr (RInstance \<lparr>ir_InstanceID = ''i1'', ir_Current = True\<rparr>), s)"
| "fixture_perform c opts (VerifyResult v) s = (map_sum id RVerdict (VerifyResult_act fixed_contract v), s)"
| "fixture_perform c opts (AcceptResult inp) s = (Inr (RStage \<lparr>sr_StageID = ''stage''\<rparr>), s)"
| "fixture_perform c opts (DeleteJob inp) s = (Inr (RLaunchObservation no_observation), s)"
| "fixture_perform c opts (ObserveLaunch inp) s = (Inr (RLaunchObservation no_observation), s)"
| "fixture_perform c opts (CloseAttempt inp) s = (Inr (RClose \<lparr>cr_Lifecycle = ''completed''\<rparr>), s)"
| "fixture_perform c opts r s = (Inr RUnit, s)"

definition fixture_runtime :: "nat runtime" where
  "fixture_runtime = \<lparr>rt_perform = fixture_perform, rt_sleep = (\<lambda>c d s. (None, s + nat d)), rt_now = (\<lambda>s. int s), rt_ctx_err = (\<lambda>c s. False),
     rt_version = (\<lambda>change. 1), rt_can_suggested = (\<lambda>s. False), rt_workflow_type = ''LocalCheckWorkflow''\<rparr>"

definition fixture_world :: "nat world" where
  "fixture_world = \<lparr>est = 0, trace = []\<rparr>"

lemma fixture_served: "verification_served fixture_runtime fixed_contract"
  by (auto simp: verification_served_def fixture_runtime_def map_sum_def split: sum.splits)

lemma fixture_verdict:
  assumes "vr_ProfileID v = ''local-check-v1''" "lr_LaunchID (vr_Launch v) = ''l1''" "ar_AttemptID (vr_Attempt v) = ''att_1''"
    "vr_Observation v = \<lparr>jo_JobUID = ''job'', jo_Pods = [fixed_pod], jo_Reason = ''''\<rparr>"
  shows "VerifyResult_act fixed_contract v = Inr \<lparr>vd_Verdict = ''certified'', vd_FailureCode = '''', vd_Manifest = ''report'', vd_ResultDigest = ''sha256:report''\<rparr>"
  using assms by (simp add: VerifyResult_act_def fixed_contract_def fixed_profile_def fixed_report_def fixed_pod_def backend_refusal_def manifest_refusal_def
      names_run_def as_expected_def digestOf_def Let_def)

fun accepts_report :: "event \<Rightarrow> bool" where
  "accepts_report (Act c opts (AcceptResult ai) res) \<longleftrightarrow> vd_Verdict (ac_Verdict ai) = ''certified'' \<and> vd_Manifest (ac_Verdict ai) = ''report''"
| "accepts_report _ \<longleftrightarrow> False"

lemma fixture_run:
  "\<exists>w'. LocalCheck fixture_runtime example_queues example_bounds example_input fixture_world = Some (None, w') \<and> list_ex accepts_report (trace w')"
  by (simp add: exec_def get_def sleep_def decode_def second_def minute_def LocalCheck_def example_input_def fixture_world_def local_body_def example_attempt_def local_launched_def local_observed_def local_accept_def
      local_finish_def local_cleanup_def closeOrContinue_def closeLaunchAttemptFrom_def closeAttemptFrom_def close_loop.simps close_waits_def settle_def
      cleanup_eval local_carry_def close_input_def fixture_verdict profileID_def verdictOutcome.simps example_launch_def register_input_def
      createJob_def create_loop.simps fixture_runtime_def example_bounds_def empty_ledger_def issue_def create_input_def launch_deadline_def
      after_failure_def unanswered_def int32_of_def backoff_def fixed_pod_def Let_def)

theorem LocalCheck_accepts_certified_witness:
  "\<exists>w' v owner. LocalCheck fixture_runtime example_queues example_bounds example_input fixture_world = Some (None, w') \<and>
    job_observed v (trace w') \<and> certified_observation fixed_contract v owner \<and> po_TerminationMessage owner = ''report''"
proof -
  obtain w' c opts ai res where run: "LocalCheck fixture_runtime example_queues example_bounds example_input fixture_world = Some (None, w')"
    and acc: "Act c opts (AcceptResult ai) res \<in> set (trace w')" "vd_Verdict (ac_Verdict ai) = ''certified''" "vd_Manifest (ac_Verdict ai) = ''report''"
    using fixture_run by (fastforce simp: list_ex_iff elim: accepts_report.elims)
  have "trace fixture_world = []" by (simp add: fixture_world_def)
  from LocalCheck_accepts_certified [OF run this fixture_served acc(1)] acc run show ?thesis by fastforce
qed

definition fixed_input :: verify_result_input where
  "fixed_input = \<lparr>vr_Launch = example_launch, vr_Attempt = example_attempt, vr_ProfileID = ''local-check-v1'',
     vr_Observation = \<lparr>jo_JobUID = ''job'', jo_Pods = [fixed_pod], jo_Reason = ''''\<rparr>, vr_CompletedAt = 0\<rparr>"

lemma fixture_certified:
  "certified_observation fixed_contract fixed_input fixed_pod \<and>
    (\<exists>d. VerifyResult_act fixed_contract fixed_input = Inr d \<and> vd_Verdict d = ''certified'' \<and> vd_ResultDigest d = ''sha256:report'')"
proof -
  have cert: "certified_observation fixed_contract fixed_input fixed_pod"
    by (simp add: certified_observation_def fixed_input_def fixed_contract_def fixed_pod_def fixed_profile_def fixed_report_def names_run_def as_expected_def
        example_launch_def example_attempt_def)
  have "vc_ProfileByID fixed_contract (vr_ProfileID fixed_input) = Inr fixed_profile" by (simp add: fixed_contract_def fixed_input_def)
  from VerifyResult_decides [OF this] cert show ?thesis
    by (auto simp: fixed_input_def digestOf_def fixed_contract_def fixed_pod_def Let_def split: if_splits)
qed

end
