(* ===== verification/Config.thy ===== *)
theory Config
  imports Complex_Main Bounds
begin

text \<open>
  The configuration of the worker (\<^verbatim>\<open>internal/config/config.go\<close>): its sections, the defaults, the environment
  overrides and the validation every candidate passes before the worker starts, and what the bootstrap makes of an accepted one
  (\<^verbatim>\<open>internal/bootstrap/module.go\<close>): the bounds of the workflows and the choice of the lifecycle ports. The
  YAML file and the koanf merge are not here; what \<^verbatim>\<open>net/url\<close> parses is the parameter \<open>parse\<close>.
\<close>

section \<open>Sections\<close>

record versioning =
  vn_Enabled :: bool
  vn_DeploymentName :: string
  vn_Promote :: bool

record client_tls =
  ts_Mode :: string
  ts_CAFile :: string
  ts_CertFile :: string
  ts_KeyFile :: string
  ts_ServerName :: string

record temporal_config =
  tp_Address :: string
  tp_Namespace :: string
  tp_TaskQueue :: string
  tp_ControlTaskQueue :: string
  tp_WorkerIdentity :: string
  tp_BuildID :: string
  tp_TLS :: client_tls
  tp_Versioning :: versioning

record mtls_files =
  mf_CertFile :: string
  mf_KeyFile :: string
  mf_CAFile :: string
  mf_ServerName :: string

record client_identity =
  cy_Mode :: string
  cy_MTLS :: mtls_files

record control_config =
  nc_Address :: string
  nc_Identity :: client_identity

record identity_config =
  id_CertFile :: string
  id_KeyFile :: string
  id_CAFile :: string
  id_ReloadInterval :: duration

record model_proxy_config =
  mx_Address :: string
  mx_Timeout :: duration
  mx_Token :: string
  mx_Identity :: client_identity

record sidecar_config =
  sx_ControlAddress :: string
  sx_IdentityMode :: string
  sx_IdentitySecret :: string
  sx_ModelProxyURL :: string
  sx_MCPAddress :: string
  sx_KnowledgeAddress :: string

text \<open>A floating point setting: a number, or the value no comparison holds for. The infinities are outside every range.\<close>

datatype float_setting = NaN | Infinite bool | Number rat

fun float_le :: "float_setting \<Rightarrow> rat \<Rightarrow> bool" where
  "float_le NaN y \<longleftrightarrow> False"
| "float_le (Infinite negative) y \<longleftrightarrow> negative"
| "float_le (Number x) y \<longleftrightarrow> x \<le> y"

fun float_less :: "float_setting \<Rightarrow> rat \<Rightarrow> bool" where
  "float_less NaN y \<longleftrightarrow> False"
| "float_less (Infinite negative) y \<longleftrightarrow> negative"
| "float_less (Number x) y \<longleftrightarrow> x < y"

fun float_greater :: "float_setting \<Rightarrow> rat \<Rightarrow> bool" where
  "float_greater NaN y \<longleftrightarrow> False"
| "float_greater (Infinite negative) y \<longleftrightarrow> \<not> negative"
| "float_greater (Number x) y \<longleftrightarrow> x > y"

record kubernetes_config =
  ku_Kubeconfig :: string
  ku_Namespace :: string
  ku_LaunchBackend :: string
  ku_ClientQPS :: float_setting
  ku_ClientBurst :: int
  ku_ObserveInterval :: duration
  ku_ImageRegistry :: string
  ku_EnabledProfiles :: "string list"
  ku_Sidecar :: sidecar_config
  ku_CandidateSeccompProfile :: string

record cleanup_config =
  cu_Timeout :: duration
  cu_MaxAttempts :: int32
  cu_UnresolvedSettleWindow :: duration
  cu_CreateRequestLifetime :: duration
  cu_ReconcileInitialInterval :: duration
  cu_ReconcileMaxInterval :: duration
  cu_ReconcileMaxDuration :: duration

record settle_config =
  sg_MaxInterval :: duration
  sg_PollBound :: int32

record execution_config =
  xe_ControlActivityTimeout :: duration
  xe_ControlRetryInitial :: duration
  xe_ControlRetryMaxInterval :: duration
  xe_ControlRetryMaxAttempts :: int32
  xe_LaunchWindow :: duration
  xe_ObserveHeartbeatTimeout :: duration
  xe_ObserveMaxAttempts :: int32
  xe_Cleanup :: cleanup_config
  xe_ControlOutageWindow :: duration
  xe_ControlReadWindow :: duration
  xe_ModelKeepalive :: duration
  xe_MaxConcurrentActivities :: int
  xe_Settle :: settle_config

record development_config =
  dv_Enabled :: bool
  dv_LoseReceiptOnce :: "string list"
  dv_HoldUntilCanceledOnce :: "string list"

record telemetry_config =
  tm_OTLPEndpoint :: string
  tm_SampleRatio :: float_setting
  tm_OTLPTLS :: client_tls

record definition_config =
  df_ID :: string
  df_CodegenProfile :: string
  df_ValidatorProfile :: string
  df_MaxRepairs :: int

record preparation_config =
  pp_RouteID :: string
  pp_MaxOutputTokens :: int
  pp_MaxExposureCurrency :: string
  pp_MaxExposureAmount :: string
  pp_CallTimeout :: duration
  pp_ContentRepairAllowance :: int
  pp_MaxInputBytes :: int

record generation_config =
  gn_PermitPollInterval :: duration
  gn_LeaseTTL :: duration
  gn_LeaseRenewLead :: duration
  gn_LeaseCallTimeout :: duration
  gn_Definitions :: "definition_config list"

record pagix_config =
  px_DeclarationFile :: string
  px_BaseURL :: string
  px_Timeout :: duration
  px_Identity :: string
  px_TokenFile :: string
  px_ServerName :: string

record knowledge_config =
  kn_Address :: string
  kn_ServerName :: string
  kn_Timeout :: duration

record release_config =
  xr_ValidatorProfile :: string
  xr_NpmRegistry :: string
  xr_BrowserOrigin :: string
  xr_ApprovalWait :: duration
  xr_ApprovalPoll :: duration
  xr_PollsPerRun :: int
  xr_ReconcileRounds :: int
  xr_ReconcilePause :: duration
  xr_OriginDir :: string

record lifecycle_config =
  lx_Preparation :: preparation_config
  lx_Generation :: generation_config
  lx_TransferWindow :: duration
  lx_BuildProfile :: string
  lx_PagixDoubleDir :: string
  lx_HostAbiProfile :: string
  lx_Pagix :: pagix_config
  lx_Knowledge :: knowledge_config
  lx_Release :: release_config

record config =
  cg_Identity :: identity_config
  cg_Telemetry :: telemetry_config
  cg_Temporal :: temporal_config
  cg_Control :: control_config
  cg_ModelProxy :: model_proxy_config
  cg_Kubernetes :: kubernetes_config
  cg_Execution :: execution_config
  cg_Lifecycle :: lifecycle_config
  cg_Development :: development_config
  cg_HealthListen :: string
  cg_ShutdownTimeout :: duration

section \<open>Environment overrides\<close>

definition envPrefix :: string where "envPrefix = ''ANVILKIT_WORKFLOW_''"

definition EnvConfigFile :: string where "EnvConfigFile = ''ANVILKIT_WORKFLOW_CONFIG''"

definition envOverrides :: "(string \<times> string) list" where
  "envOverrides =
     [(''ANVILKIT_WORKFLOW_TEMPORAL_ADDRESS'', ''temporal.address''),
      (''ANVILKIT_WORKFLOW_CONTROL_ADDRESS'', ''control.address''),
      (''ANVILKIT_WORKFLOW_MODEL_PROXY_ADDRESS'', ''model_proxy.address''),
      (''ANVILKIT_WORKFLOW_MODEL_PROXY_TOKEN'', ''model_proxy.token''),
      (''ANVILKIT_WORKFLOW_KUBECONFIG'', ''kubernetes.kubeconfig''),
      (''ANVILKIT_WORKFLOW_LAUNCH_BACKEND'', ''kubernetes.launch_backend''),
      (''ANVILKIT_WORKFLOW_BUILD_ID'', ''temporal.build_id''),
      (''ANVILKIT_WORKFLOW_IMAGE_REGISTRY'', ''kubernetes.image_registry''),
      (''ANVILKIT_WORKFLOW_SIDECAR_CONTROL_ADDRESS'', ''kubernetes.sidecar.control_address''),
      (''ANVILKIT_WORKFLOW_SIDECAR_MODEL_PROXY_URL'', ''kubernetes.sidecar.model_proxy_url''),
      (''ANVILKIT_WORKFLOW_SIDECAR_MCP_ADDRESS'', ''kubernetes.sidecar.mcp_address''),
      (''ANVILKIT_WORKFLOW_SIDECAR_KNOWLEDGE_ADDRESS'', ''kubernetes.sidecar.knowledge_address''),
      (''ANVILKIT_WORKFLOW_HEALTH_LISTEN'', ''health.listen''),
      (''ANVILKIT_WORKFLOW_TELEMETRY_OTLP_ENDPOINT'', ''telemetry.otlp_endpoint''),
      (''ANVILKIT_WORKFLOW_PAGIX_DOUBLE_DIR'', ''lifecycle.pagix_double_dir''),
      (''ANVILKIT_WORKFLOW_RELEASE_ORIGIN_DIR'', ''lifecycle.release.origin_dir''),
      (''ANVILKIT_WORKFLOW_PAGIX_URL'', ''lifecycle.pagix.base_url''),
      (''ANVILKIT_WORKFLOW_PAGIX_DECLARATION_FILE'', ''lifecycle.pagix.declaration_file''),
      (''ANVILKIT_WORKFLOW_PAGIX_TOKEN_FILE'', ''lifecycle.pagix.token_file''),
      (''ANVILKIT_WORKFLOW_KNOWLEDGE_ADDRESS'', ''lifecycle.knowledge.address''),
      (''ANVILKIT_WORKFLOW_IDENTITY_CERT_FILE'', ''identity.cert_file''),
      (''ANVILKIT_WORKFLOW_IDENTITY_KEY_FILE'', ''identity.key_file''),
      (''ANVILKIT_WORKFLOW_IDENTITY_CA_FILE'', ''identity.ca_file'')]"

text \<open>\<open>strings.Cut\<close> at the first equals sign, the name and the value.\<close>

definition cut_env :: "string \<Rightarrow> string \<times> string" where
  "cut_env kv = (takeWhile (\<lambda>ch. ch \<noteq> CHR ''='') kv, drop 1 (dropWhile (\<lambda>ch. ch \<noteq> CHR ''='') kv))"

definition ours :: "string \<Rightarrow> bool" where
  "ours name \<longleftrightarrow> take (length envPrefix) name = envPrefix \<and> name \<noteq> EnvConfigFile"

text \<open>
  The settings the environment sets, in order, and the names it is refused for (the message sorts them); a setting the
  configuration library does not take (\<open>Set\<close>, the parameter \<open>takes\<close>) ends it.
\<close>

datatype env_error = NotTaken string | NotAllowed "string list"

fun apply_env :: "(string \<Rightarrow> string \<Rightarrow> bool) \<Rightarrow> string list \<Rightarrow> string + (string \<times> string) list \<times> string list" where
  "apply_env takes [] = Inr ([], [])"
| "apply_env takes (kv # environ) =
     (case cut_env kv of (name, v) \<Rightarrow>
        if \<not> ours name then apply_env takes environ
        else case map_of envOverrides name of
            None \<Rightarrow> map_sum id (apsnd (Cons name)) (apply_env takes environ)
          | Some key \<Rightarrow> if takes key v then map_sum id (apfst (Cons (key, v))) (apply_env takes environ) else Inl key)"

definition applyEnv :: "(string \<Rightarrow> string \<Rightarrow> bool) \<Rightarrow> string list \<Rightarrow> env_error + (string \<times> string) list" where
  "applyEnv takes environ =
     (case apply_env takes environ of
        Inl key \<Rightarrow> Inl (NotTaken key)
      | Inr (sets, unknown) \<Rightarrow> if unknown \<noteq> [] then Inl (NotAllowed unknown) else Inr sets)"

section \<open>Validation\<close>

text \<open>
  A rejected rule is listed under the setting its message names, in the order of the source. Only whether there
  is any decides; the order of the two release destinations, which the source takes from a map, is not fixed there.
\<close>

definition req :: "string \<Rightarrow> string \<Rightarrow> string list" where
  "req name v = (if v = '''' then [name] else [])"

definition in_range :: "string \<Rightarrow> duration \<Rightarrow> duration \<Rightarrow> duration \<Rightarrow> string list" where
  "in_range name v lo hi = (if v < lo \<or> v > hi then [name] else [])"

definition reject :: "string \<Rightarrow> bool \<Rightarrow> string list" where
  "reject name broken = (if broken then [name] else [])"

definition milli :: duration where "milli = 1000000"

definition hour :: duration where "hour = 60 * minute"

text \<open>A parsed URL: scheme, host with port, host name, and whether it carries user information.\<close>

record url =
  ul_Scheme :: string
  ul_Host :: string
  ul_Hostname :: string
  ul_User :: bool

definition digit_char :: "char \<Rightarrow> bool" where
  "digit_char ch \<longleftrightarrow> 48 \<le> ascii ch \<and> ascii ch \<le> 57"

definition upper_char :: "char \<Rightarrow> bool" where
  "upper_char ch \<longleftrightarrow> 65 \<le> ascii ch \<and> ascii ch \<le> 90"

definition lower_char :: "char \<Rightarrow> bool" where
  "lower_char ch \<longleftrightarrow> 97 \<le> ascii ch \<and> ascii ch \<le> 122"

definition moneyPattern :: "string \<Rightarrow> bool" where
  "moneyPattern s \<longleftrightarrow> s = ''0'' \<or>
     (case s of [] \<Rightarrow> False | ch # rest \<Rightarrow> digit_char ch \<and> ch \<noteq> CHR ''0'' \<and> list_all digit_char rest \<and> length rest \<le> 29)"

definition currencyPattern :: "string \<Rightarrow> bool" where
  "currencyPattern s \<longleftrightarrow> length s = 3 \<and> list_all upper_char s"

definition hostAbiPattern :: "string \<Rightarrow> bool" where
  "hostAbiPattern s \<longleftrightarrow> take 9 s = ''host-abi-'' \<and>
     (case drop 9 s of [] \<Rightarrow> False
      | ch # rest \<Rightarrow> (lower_char ch \<or> digit_char ch) \<and> length rest \<le> 62 \<and>
          list_all (\<lambda>x. lower_char x \<or> digit_char x \<or> x = CHR ''.'' \<or> x = CHR ''-'') rest)"

definition Resolved :: "config \<Rightarrow> client_identity \<Rightarrow> mtls_files" where
  "Resolved c ci =
     (let m = cy_MTLS ci; i = cg_Identity c in
      m\<lparr>mf_CertFile := (if mf_CertFile m = '''' then id_CertFile i else mf_CertFile m),
        mf_KeyFile := (if mf_KeyFile m = '''' then id_KeyFile i else mf_KeyFile m),
        mf_CAFile := (if mf_CAFile m = '''' then id_CAFile i else mf_CAFile m)\<rparr>)"

definition ResolvedTLS :: "config \<Rightarrow> client_tls \<Rightarrow> client_tls" where
  "ResolvedTLS c t =
     (if ts_Mode t = ''mtls''
      then t\<lparr>ts_CertFile := (if ts_CertFile t = '''' then id_CertFile (cg_Identity c) else ts_CertFile t),
             ts_KeyFile := (if ts_KeyFile t = '''' then id_KeyFile (cg_Identity c) else ts_KeyFile t)\<rparr>
      else t)"

definition validate_tls :: "string \<Rightarrow> bool \<Rightarrow> client_tls \<Rightarrow> string list" where
  "validate_tls name development t =
     (if ts_Mode t = ''development'' then reject (name @ ''.mode'') (\<not> development)
      else if ts_Mode t = ''tls'' then reject (name @ ''.ca_file'') (ts_CAFile t = '''')
      else if ts_Mode t = ''mtls'' then reject (name @ ''.ca_file'') (ts_CAFile t = '''' \<or> ts_CertFile t = '''' \<or> ts_KeyFile t = '''')
      else [name @ ''.mode''])"

definition incomplete :: "mtls_files \<Rightarrow> bool" where
  "incomplete m \<longleftrightarrow> mf_CertFile m = '''' \<or> mf_KeyFile m = '''' \<or> mf_CAFile m = ''''"

definition validateIdentity :: "config \<Rightarrow> string list" where
  "validateIdentity c =
     (let development = dv_Enabled (cg_Development c); ci = nc_Identity (cg_Control c) in
      reject ''identity.reload_interval'' (id_ReloadInterval (cg_Identity c) < 100 * milli \<or> id_ReloadInterval (cg_Identity c) > hour) @
      (if cy_Mode ci = ''mtls'' then reject ''control.identity.mtls'' (incomplete (Resolved c ci))
       else if cy_Mode ci = ''development'' then reject ''control.identity.mode'' (\<not> development)
       else [''control.identity.mode'']) @
      validate_tls ''temporal.tls'' development (ResolvedTLS c (tp_TLS (cg_Temporal c))) @
      (if tm_OTLPEndpoint (cg_Telemetry c) \<noteq> ''''
       then validate_tls ''telemetry.otlp_tls'' development (ResolvedTLS c (tm_OTLPTLS (cg_Telemetry c))) else []))"

definition validate_temporal :: "config \<Rightarrow> string list" where
  "validate_temporal c =
     (let t = cg_Temporal c; v = tp_Versioning t in
      req ''temporal.address'' (tp_Address t) @ req ''temporal.namespace'' (tp_Namespace t) @
      req ''temporal.task_queue'' (tp_TaskQueue t) @ req ''temporal.control_task_queue'' (tp_ControlTaskQueue t) @
      req ''temporal.worker_identity'' (tp_WorkerIdentity t) @ req ''temporal.build_id'' (tp_BuildID t) @
      (if vn_Enabled v
       then req ''temporal.versioning.deployment_name'' (vn_DeploymentName v) @
            reject ''temporal.versioning.promote'' (vn_Promote v \<and> \<not> dv_Enabled (cg_Development c))
       else reject ''temporal.versioning.promote'' (vn_Promote v)))"

definition validate_sidecar :: "(string \<Rightarrow> url option) \<Rightarrow> config \<Rightarrow> string list" where
  "validate_sidecar parse c =
     (let k = cg_Kubernetes c; s = ku_Sidecar k in
      req ''control.address'' (nc_Address (cg_Control c)) @ req ''kubernetes.namespace'' (ku_Namespace k) @
      req ''kubernetes.launch_backend'' (ku_LaunchBackend k) @
      (if sx_IdentityMode s = ''disabled'' then []
       else if sx_IdentityMode s = ''development'' then reject ''kubernetes.sidecar.identity_mode'' (\<not> dv_Enabled (cg_Development c))
       else if sx_IdentityMode s = ''mtls''
       then reject ''kubernetes.sidecar.identity_secret'' (sx_IdentitySecret s = '''') @
            (if sx_ModelProxyURL s \<noteq> ''''
             then reject ''kubernetes.sidecar.model_proxy_url''
               (case parse (sx_ModelProxyURL s) of None \<Rightarrow> True | Some u \<Rightarrow> ul_Scheme u \<noteq> ''https'' \<or> ul_Host u = '''' \<or> ul_User u)
             else [])
       else [''kubernetes.sidecar.identity_mode'']))"

definition validate_model_proxy :: "(string \<Rightarrow> url option) \<Rightarrow> config \<Rightarrow> string list" where
  "validate_model_proxy parse c =
     (let mp = cg_ModelProxy c; mode = cy_Mode (mx_Identity mp); placed = (mx_Address mp \<noteq> '''') in
      in_range ''model_proxy.timeout'' (mx_Timeout mp) second hour @
      (if mode = ''development''
       then reject ''ANVILKIT_WORKFLOW_MODEL_PROXY_TOKEN'' (placed \<and> mx_Token mp = '''') @
            reject ''model_proxy.identity.mode'' (placed \<and> \<not> dv_Enabled (cg_Development c))
       else if mode = ''mtls''
       then reject ''model_proxy.identity.mtls'' (placed \<and> incomplete (Resolved c (mx_Identity mp))) @
            reject ''model_proxy.token'' (mx_Token mp \<noteq> '''') @
            reject ''model_proxy.address'' (placed \<and> (case parse (mx_Address mp) of None \<Rightarrow> False | Some u \<Rightarrow> ul_Scheme u = ''http''))
       else [''model_proxy.identity.mode'']) @
      (if placed
       then reject ''model_proxy.address'' (case parse (mx_Address mp) of None \<Rightarrow> True
          | Some u \<Rightarrow> ul_Scheme u \<notin> {''http'', ''https''} \<or> ul_Host u = '''' \<or> ul_User u)
       else []) @
      reject ''kubernetes.enabled_profiles'' (ku_EnabledProfiles (cg_Kubernetes c) = []) @
      reject ''temporal.task_queue'' (tp_TaskQueue (cg_Temporal c) = tp_ControlTaskQueue (cg_Temporal c)))"

definition validate_execution :: "config \<Rightarrow> string list" where
  "validate_execution c =
     (let e = cg_Execution c; cl = xe_Cleanup e; s = xe_Settle e in
      in_range ''execution.control_activity_timeout'' (xe_ControlActivityTimeout e) second (5 * minute) @
      in_range ''execution.control_retry_initial'' (xe_ControlRetryInitial e) (100 * milli) minute @
      in_range ''execution.control_retry_max_interval'' (xe_ControlRetryMaxInterval e) second (10 * minute) @
      reject ''execution.control_retry_max_attempts'' (sint (xe_ControlRetryMaxAttempts e) < 1 \<or> sint (xe_ControlRetryMaxAttempts e) > 100) @
      in_range ''execution.launch_window'' (xe_LaunchWindow e) (30 * second) (24 * hour) @
      in_range ''execution.observe_heartbeat_timeout'' (xe_ObserveHeartbeatTimeout e) (5 * second) (10 * minute) @
      reject ''execution.observe_max_attempts'' (sint (xe_ObserveMaxAttempts e) < 1 \<or> sint (xe_ObserveMaxAttempts e) > 100) @
      in_range ''execution.cleanup.timeout'' (cu_Timeout cl) (10 * second) (30 * minute) @
      reject ''execution.cleanup.max_attempts'' (sint (cu_MaxAttempts cl) < 1 \<or> sint (cu_MaxAttempts cl) > 100) @
      in_range ''execution.cleanup.unresolved_settle_window'' (cu_UnresolvedSettleWindow cl) (5 * second) (10 * minute) @
      in_range ''execution.cleanup.create_request_lifetime'' (cu_CreateRequestLifetime cl) (30 * second) hour @
      in_range ''execution.cleanup.reconcile_initial_interval'' (cu_ReconcileInitialInterval cl) second hour @
      in_range ''execution.cleanup.reconcile_max_interval'' (cu_ReconcileMaxInterval cl) second hour @
      in_range ''execution.cleanup.reconcile_max_duration'' (cu_ReconcileMaxDuration cl) minute (7 * 24 * hour) @
      in_range ''execution.control_outage_window'' (xe_ControlOutageWindow e) (30 * second) (24 * hour) @
      in_range ''execution.control_read_window'' (xe_ControlReadWindow e) (30 * second) (24 * hour) @
      reject ''execution.control_read_window'' (xe_ControlReadWindow e < xe_ControlOutageWindow e) @
      in_range ''execution.model_keepalive'' (xe_ModelKeepalive e) second (10 * minute) @
      reject ''execution.observe_heartbeat_timeout'' (xe_ObserveHeartbeatTimeout e < 2 * xe_ModelKeepalive e) @
      reject ''execution.max_concurrent_activities'' (xe_MaxConcurrentActivities e < 1 \<or> xe_MaxConcurrentActivities e > 10000) @
      in_range ''execution.settle.max_interval'' (sg_MaxInterval s) second hour @
      reject ''execution.settle.max_interval'' (sg_MaxInterval s < cu_ReconcileInitialInterval cl) @
      reject ''execution.settle.poll_bound'' (sint (sg_PollBound s) < 10 \<or> sint (sg_PollBound s) > 1500))"

definition MinShutdownTimeout :: duration where "MinShutdownTimeout = second"

definition MaxShutdownTimeout :: duration where "MaxShutdownTimeout = 5 * minute"

definition validate_process :: "config \<Rightarrow> string list" where
  "validate_process c =
     (let k = cg_Kubernetes c in
      reject ''kubernetes.client_qps'' (float_le (ku_ClientQPS k) 0 \<or> float_greater (ku_ClientQPS k) 5000) @
      reject ''kubernetes.client_burst''
        (ku_ClientBurst k < 1 \<or> ku_ClientBurst k > 10000 \<or> float_greater (ku_ClientQPS k) (rat_of_int (ku_ClientBurst k))) @
      in_range ''kubernetes.observe_interval'' (ku_ObserveInterval k) (100 * milli) minute @
      req ''health.listen'' (cg_HealthListen c) @
      reject ''telemetry.sample_ratio'' (float_less (tm_SampleRatio (cg_Telemetry c)) 0 \<or> float_greater (tm_SampleRatio (cg_Telemetry c)) 1) @
      in_range ''shutdown_timeout'' (cg_ShutdownTimeout c) MinShutdownTimeout MaxShutdownTimeout)"

definition validate_preparation :: "lifecycle_config \<Rightarrow> string list" where
  "validate_preparation l =
     (let p = lx_Preparation l in
      req ''lifecycle.preparation.route_id'' (pp_RouteID p) @ req ''lifecycle.preview.build_profile'' (lx_BuildProfile l) @
      reject ''lifecycle.preparation.max_output_tokens'' (pp_MaxOutputTokens p < 1 \<or> pp_MaxOutputTokens p > 2 ^ 20) @
      reject ''lifecycle.preparation.max_exposure'' (\<not> moneyPattern (pp_MaxExposureAmount p) \<or> \<not> currencyPattern (pp_MaxExposureCurrency p)) @
      in_range ''lifecycle.preparation.call_timeout'' (pp_CallTimeout p) (10 * second) hour @
      reject ''lifecycle.preparation.content_repair_allowance'' (pp_ContentRepairAllowance p < 0 \<or> pp_ContentRepairAllowance p > 8) @
      reject ''lifecycle.preparation.max_input_bytes'' (pp_MaxInputBytes p < 1024 \<or> pp_MaxInputBytes p > 16 * 2 ^ 20))"

definition validate_generation :: "lifecycle_config \<Rightarrow> string list" where
  "validate_generation l =
     (let g = lx_Generation l in
      in_range ''lifecycle.generation.permit_poll_interval'' (gn_PermitPollInterval g) second hour @
      in_range ''lifecycle.generation.lease_ttl'' (gn_LeaseTTL g) (30 * second) (24 * hour) @
      in_range ''lifecycle.generation.lease_renew_lead'' (gn_LeaseRenewLead g) (5 * second) (12 * hour) @
      in_range ''lifecycle.generation.lease_call_timeout'' (gn_LeaseCallTimeout g) second (10 * minute) @
      reject ''lifecycle.generation.lease_renew_lead'' (gn_LeaseRenewLead g \<ge> gn_LeaseTTL g) @
      reject ''lifecycle.generation.definitions'' (gn_Definitions g = []) @
      concat (map (\<lambda>d. reject ''lifecycle.generation.definitions'' (df_ID d = '''')) (gn_Definitions g)))"

text \<open>A suffix of a string.\<close>

definition has_suffix :: "string \<Rightarrow> string \<Rightarrow> bool" where
  "has_suffix s suffix \<longleftrightarrow> length suffix \<le> length s \<and> drop (length s - length suffix) s = suffix"

definition validate_destination :: "(string \<Rightarrow> url option) \<Rightarrow> bool \<Rightarrow> string \<Rightarrow> string \<Rightarrow> string list" where
  "validate_destination parse development key v =
     (case parse v of
        None \<Rightarrow> [key]
      | Some u \<Rightarrow>
          if ul_Scheme u \<noteq> ''https'' \<or> ul_Host u = '''' then [key]
          else reject key (has_suffix (ul_Hostname u) ''.invalid'' \<and> \<not> development))"

definition validate_release :: "config \<Rightarrow> string list" where
  "validate_release c =
     (let r = lx_Release (cg_Lifecycle c) in
      in_range ''lifecycle.release.approval_wait'' (xr_ApprovalWait r) minute (2160 * hour) @
      in_range ''lifecycle.release.approval_poll'' (xr_ApprovalPoll r) second hour @
      in_range ''lifecycle.release.reconcile_pause'' (xr_ReconcilePause r) second hour @
      reject ''lifecycle.release.polls_per_run'' (xr_PollsPerRun r < 10 \<or> xr_PollsPerRun r > 10000) @
      reject ''lifecycle.release.reconcile_rounds'' (xr_ReconcileRounds r < 1 \<or> xr_ReconcileRounds r > 1000) @
      in_range ''lifecycle.artifacts.transfer_window'' (lx_TransferWindow (cg_Lifecycle c)) minute (24 * hour))"

definition validate_cross :: "config \<Rightarrow> string list" where
  "validate_cross c =
     (let e = cg_Execution c; cl = xe_Cleanup e; d = cg_Development c in
      reject ''execution.cleanup.unresolved_settle_window'' (cu_UnresolvedSettleWindow cl < xe_ControlActivityTimeout e) @
      reject ''execution.cleanup.timeout'' (cu_Timeout cl \<le> cu_UnresolvedSettleWindow cl) @
      reject ''execution.cleanup.create_request_lifetime'' (cu_CreateRequestLifetime cl \<ge> cu_ReconcileMaxDuration cl) @
      reject ''execution.cleanup.reconcile_initial_interval'' (cu_ReconcileInitialInterval cl > cu_ReconcileMaxInterval cl) @
      reject ''execution.cleanup.reconcile_max_duration'' (cu_ReconcileMaxDuration cl \<le> cu_ReconcileMaxInterval cl + cu_Timeout cl) @
      reject ''development.lose_receipt_once'' (dv_LoseReceiptOnce d \<noteq> [] \<and> \<not> dv_Enabled d) @
      reject ''development.hold_until_canceled_once'' (dv_HoldUntilCanceledOnce d \<noteq> [] \<and> \<not> dv_Enabled d))"

definition validate_pagix :: "(string \<Rightarrow> url option) \<Rightarrow> config \<Rightarrow> string list" where
  "validate_pagix parse c =
     (let p = lx_Pagix (cg_Lifecycle c) in
      (if px_BaseURL p = '''' then [''lifecycle.pagix.base_url'']
       else case parse (px_BaseURL p) of
           None \<Rightarrow> [''lifecycle.pagix.base_url'']
         | Some u \<Rightarrow>
             if ul_Host u = '''' \<or> ul_User u \<or> ul_Scheme u \<noteq> ''https'' \<and> ul_Scheme u \<noteq> ''http'' then [''lifecycle.pagix.base_url'']
             else reject ''lifecycle.pagix.base_url'' (ul_Scheme u = ''http'' \<and> \<not> dv_Enabled (cg_Development c))) @
      (if px_Identity p = ''mtls'' then reject ''lifecycle.pagix.identity'' (id_CertFile (cg_Identity c) = '''')
       else if px_Identity p = ''token'' then reject ''lifecycle.pagix.token_file'' (px_TokenFile p = '''')
       else [''lifecycle.pagix.identity'']) @
      reject ''lifecycle.pagix.timeout'' (px_Timeout p < second \<or> px_Timeout p > 5 * minute))"

definition validateLifecyclePorts :: "(string \<Rightarrow> url option) \<Rightarrow> config \<Rightarrow> string list" where
  "validateLifecyclePorts parse c =
     (let l = cg_Lifecycle c; development = dv_Enabled (cg_Development c); k = lx_Knowledge l in
      reject ''lifecycle.pagix_double_dir'' (lx_PagixDoubleDir l \<noteq> '''' \<and> \<not> development) @
      (if \<not> hostAbiPattern (lx_HostAbiProfile l) then [''lifecycle.host_abi_profile'']
       else reject ''lifecycle.host_abi_profile'' (lx_HostAbiProfile l = ''host-abi-dev-v1'' \<and> \<not> development)) @
      reject ''lifecycle.pagix_double_dir'' (lx_PagixDoubleDir l \<noteq> '''' \<and> px_DeclarationFile (lx_Pagix l) \<noteq> '''') @
      (if px_DeclarationFile (lx_Pagix l) \<noteq> '''' then validate_pagix parse c else []) @
      reject ''lifecycle.knowledge.timeout'' (kn_Address k \<noteq> '''' \<and> (kn_Timeout k < second \<or> kn_Timeout k > minute)))"

definition validate :: "(string \<Rightarrow> url option) \<Rightarrow> config \<Rightarrow> string list" where
  "validate parse c =
     (let l = cg_Lifecycle c; r = lx_Release l; development = dv_Enabled (cg_Development c) in
      validate_temporal c @ validate_sidecar parse c @ validateIdentity c @ validate_model_proxy parse c @ validate_execution c @
      validate_process c @ validate_preparation l @ validate_generation l @
      req ''lifecycle.release.validator_profile'' (xr_ValidatorProfile r) @
      validate_destination parse development ''lifecycle.release.npm_registry'' (xr_NpmRegistry r) @
      validate_destination parse development ''lifecycle.release.browser_origin'' (xr_BrowserOrigin r) @
      validateLifecyclePorts parse c @ validate_release c @ validate_cross c)"

section \<open>Defaults\<close>

text \<open>The configuration the defaults alone decode to; a setting without a default is the zero value.\<close>

definition no_files :: mtls_files where
  "no_files = \<lparr>mf_CertFile = '''', mf_KeyFile = '''', mf_CAFile = '''', mf_ServerName = ''''\<rparr>"

definition tls_mode :: "string \<Rightarrow> client_tls" where
  "tls_mode mode = \<lparr>ts_Mode = mode, ts_CAFile = '''', ts_CertFile = '''', ts_KeyFile = '''', ts_ServerName = ''''\<rparr>"

definition default_execution :: execution_config where
  "default_execution =
     \<lparr>xe_ControlActivityTimeout = 30 * second, xe_ControlRetryInitial = second, xe_ControlRetryMaxInterval = 30 * second,
      xe_ControlRetryMaxAttempts = 6, xe_LaunchWindow = 2 * minute, xe_ObserveHeartbeatTimeout = 30 * second, xe_ObserveMaxAttempts = 3,
      xe_Cleanup = \<lparr>cu_Timeout = 3 * minute, cu_MaxAttempts = 2, cu_UnresolvedSettleWindow = 60 * second, cu_CreateRequestLifetime = 3 * minute,
        cu_ReconcileInitialInterval = 5 * second, cu_ReconcileMaxInterval = minute, cu_ReconcileMaxDuration = 24 * hour\<rparr>,
      xe_ControlOutageWindow = 5 * minute, xe_ControlReadWindow = 15 * minute, xe_ModelKeepalive = 15 * second, xe_MaxConcurrentActivities = 200,
      xe_Settle = \<lparr>sg_MaxInterval = 5 * minute, sg_PollBound = 500\<rparr>\<rparr>"

definition default_lifecycle :: lifecycle_config where
  "default_lifecycle =
     \<lparr>lx_Preparation = \<lparr>pp_RouteID = ''controlled-openai-v1'', pp_MaxOutputTokens = 2048, pp_MaxExposureCurrency = ''USD'',
        pp_MaxExposureAmount = ''100000'', pp_CallTimeout = 5 * minute, pp_ContentRepairAllowance = 1, pp_MaxInputBytes = 262144\<rparr>,
      lx_Generation = \<lparr>gn_PermitPollInterval = 30 * second, gn_LeaseTTL = 10 * minute, gn_LeaseRenewLead = 3 * minute,
        gn_LeaseCallTimeout = 20 * second,
        gn_Definitions = [\<lparr>df_ID = ''generation-v1:def-1'', df_CodegenProfile = '''', df_ValidatorProfile = '''', df_MaxRepairs = -1\<rparr>,
          \<lparr>df_ID = ''generation-v1:def-2'', df_CodegenProfile = '''', df_ValidatorProfile = '''', df_MaxRepairs = 0\<rparr>]\<rparr>,
      lx_TransferWindow = 15 * minute, lx_BuildProfile = ''validator-source-v1'', lx_PagixDoubleDir = '''', lx_HostAbiProfile = ''host-abi-dev-v1'',
      lx_Pagix = \<lparr>px_DeclarationFile = '''', px_BaseURL = '''', px_Timeout = 30 * second, px_Identity = ''mtls'', px_TokenFile = '''', px_ServerName = ''''\<rparr>,
      lx_Knowledge = \<lparr>kn_Address = '''', kn_ServerName = ''anvilkit-agent-knowledge'', kn_Timeout = 10 * second\<rparr>,
      lx_Release = \<lparr>xr_ValidatorProfile = ''validator-source-v1'', xr_NpmRegistry = ''https://registry.anvilkit.invalid/'',
        xr_BrowserOrigin = ''https://components.anvilkit.invalid'', xr_ApprovalWait = 336 * hour, xr_ApprovalPoll = 30 * second,
        xr_PollsPerRun = 200, xr_ReconcileRounds = 20, xr_ReconcilePause = 30 * second, xr_OriginDir = ''''\<rparr>\<rparr>"

definition default_config :: config where
  "default_config =
     \<lparr>cg_Identity = \<lparr>id_CertFile = '''', id_KeyFile = '''', id_CAFile = '''', id_ReloadInterval = 5 * second\<rparr>,
      cg_Telemetry = \<lparr>tm_OTLPEndpoint = '''', tm_SampleRatio = Number 1, tm_OTLPTLS = tls_mode ''tls''\<rparr>,
      cg_Temporal = \<lparr>tp_Address = '''', tp_Namespace = ''anvilkit'', tp_TaskQueue = ''anvilkit-workflow'',
        tp_ControlTaskQueue = ''anvilkit-workflow-control'', tp_WorkerIdentity = ''anvilkit-agent-workflow'', tp_BuildID = ''dev'',
        tp_TLS = tls_mode ''tls'', tp_Versioning = \<lparr>vn_Enabled = False, vn_DeploymentName = ''anvilkit-agent-workflow'', vn_Promote = False\<rparr>\<rparr>,
      cg_Control = \<lparr>nc_Address = '''', nc_Identity = \<lparr>cy_Mode = ''mtls'', cy_MTLS = no_files\<rparr>\<rparr>,
      cg_ModelProxy = \<lparr>mx_Address = '''', mx_Timeout = 5 * minute, mx_Token = '''', mx_Identity = \<lparr>cy_Mode = ''mtls'', cy_MTLS = no_files\<rparr>\<rparr>,
      cg_Kubernetes = \<lparr>ku_Kubeconfig = '''', ku_Namespace = ''anvilkit-components'', ku_LaunchBackend = '''', ku_ClientQPS = Number 500,
        ku_ClientBurst = 1000, ku_ObserveInterval = second, ku_ImageRegistry = '''', ku_EnabledProfiles = [''local-check-v1''],
        ku_Sidecar = \<lparr>sx_ControlAddress = '''', sx_IdentityMode = ''disabled'', sx_IdentitySecret = ''anvilkit-job-access-sidecar-identity'',
          sx_ModelProxyURL = '''', sx_MCPAddress = '''', sx_KnowledgeAddress = ''''\<rparr>,
        ku_CandidateSeccompProfile = ''anvilkit/candidate.json''\<rparr>,
      cg_Execution = default_execution, cg_Lifecycle = default_lifecycle,
      cg_Development = \<lparr>dv_Enabled = False, dv_LoseReceiptOnce = [], dv_HoldUntilCanceledOnce = []\<rparr>,
      cg_HealthListen = ''127.0.0.1:9102'', cg_ShutdownTimeout = 30 * second\<rparr>"

section \<open>What the bootstrap makes of it\<close>

definition Bounds_of :: "execution_config \<Rightarrow> bounds" where
  "Bounds_of e =
     \<lparr>ControlActivityTimeout = xe_ControlActivityTimeout e, ControlRetryInitial = xe_ControlRetryInitial e,
      ControlRetryMaxInterval = xe_ControlRetryMaxInterval e, ControlRetryMaxAttempts = xe_ControlRetryMaxAttempts e,
      LaunchWindow = xe_LaunchWindow e, ObserveHeartbeatTimeout = xe_ObserveHeartbeatTimeout e, ObserveMaxAttempts = xe_ObserveMaxAttempts e,
      CleanupTimeout = cu_Timeout (xe_Cleanup e), CleanupMaxAttempts = cu_MaxAttempts (xe_Cleanup e),
      UnresolvedSettleWindow = cu_UnresolvedSettleWindow (xe_Cleanup e), CreateRequestLifetime = cu_CreateRequestLifetime (xe_Cleanup e),
      ReconcileInitialInterval = cu_ReconcileInitialInterval (xe_Cleanup e), ReconcileMaxInterval = cu_ReconcileMaxInterval (xe_Cleanup e),
      ReconcileMaxDuration = cu_ReconcileMaxDuration (xe_Cleanup e), ControlOutageWindow = xe_ControlOutageWindow e,
      ControlReadWindow = xe_ControlReadWindow e, SettleMaxInterval = sg_MaxInterval (xe_Settle e), SettlePollBound = sg_PollBound (xe_Settle e)\<rparr>"

definition Lifecycle_of :: "lifecycle_config \<Rightarrow> lifecycle_bounds" where
  "Lifecycle_of l =
     (let p = lx_Preparation l; g = lx_Generation l; r = lx_Release l in
      \<lparr>PermitPollInterval = gn_PermitPollInterval g, LeaseTTL = gn_LeaseTTL g, LeaseRenewLead = gn_LeaseRenewLead g,
       LeaseCallTimeout = gn_LeaseCallTimeout g,
       Definitions = map (\<lambda>d. \<lparr>da_ID = df_ID d, da_CodegenProfileID = df_CodegenProfile d, da_ValidatorProfile = df_ValidatorProfile d,
         da_MaxRepairs = df_MaxRepairs d\<rparr>) (gn_Definitions g),
       AnalysisRouteID = pp_RouteID p, AnalysisMaxOutputTokens = pp_MaxOutputTokens p,
       AnalysisMaxExposure = \<lparr>mo_Currency = pp_MaxExposureCurrency p, mo_Amount = pp_MaxExposureAmount p\<rparr>,
       AnalysisCallTimeout = pp_CallTimeout p, ContentRepairAllowance = pp_ContentRepairAllowance p, PreviewBuildProfile = lx_BuildProfile l,
       ReleaseValidatorProfile = xr_ValidatorProfile r,
       ReleaseDestinations = \<lparr>rd_NpmRegistry = xr_NpmRegistry r, rd_BrowserOrigin = xr_BrowserOrigin r\<rparr>,
       ReleaseApprovalWait = xr_ApprovalWait r, ReleaseApprovalPoll = xr_ApprovalPoll r, ReleasePollsPerRun = xr_PollsPerRun r,
       ReleaseReconcileRounds = xr_ReconcileRounds r, ReleaseReconcilePause = xr_ReconcilePause r\<rparr>)"

text \<open>
  The lifecycle ports: the double when one is placed, the declared adapter over it for the Pagix ports, the Knowledge
  client over it for the content digests, otherwise ports that answer \<open>DEPENDENCY_UNAVAILABLE\<close>.
\<close>

datatype port_choice = Unavailable | TheDouble | Declared | KnowledgeClient

record lifecycle_ports =
  lq_Lease :: port_choice
  lq_Source :: port_choice
  lq_Knowledge :: port_choice
  lq_Release :: port_choice

text \<open>
  The bootstrap refuses a double outside development a second time. Whether the double opens its directory and its origin, the
  declaration loads and makes a client, and Knowledge is dialled are parameters: each fails the bootstrap.
\<close>

definition lifecycleDouble :: "config \<Rightarrow> bool \<Rightarrow> bool option" where
  "lifecycleDouble c opens =
     (if lx_PagixDoubleDir (cg_Lifecycle c) = '''' then Some False
      else if \<not> dv_Enabled (cg_Development c) then None
      else if opens then Some True else None)"

definition newLifecyclePorts :: "config \<Rightarrow> bool \<Rightarrow> bool \<Rightarrow> bool \<Rightarrow> lifecycle_ports option" where
  "newLifecyclePorts c double declares dials =
     (let base = (if double then TheDouble else Unavailable);
          declared = (px_DeclarationFile (lx_Pagix (cg_Lifecycle c)) \<noteq> '''');
          knowledge = (kn_Address (lx_Knowledge (cg_Lifecycle c)) \<noteq> '''');
          pagix = (if declared then Declared else base) in
      if declared \<and> \<not> declares \<or> knowledge \<and> \<not> dials then None
      else Some \<lparr>lq_Lease = pagix, lq_Source = pagix, lq_Knowledge = (if knowledge then KnowledgeClient else base), lq_Release = pagix\<rparr>)"

definition knowledgeMode :: "config \<Rightarrow> string" where
  "knowledgeMode c = (if id_CertFile (cg_Identity c) = '''' \<and> dv_Enabled (cg_Development c) then ''development'' else ''mtls'')"

section \<open>What an accepted configuration is\<close>

named_theorems config_rules "what the rules of a validation mean when they reject nothing"

lemma req_Nil [config_rules]: "req name v = [] \<longleftrightarrow> v \<noteq> ''''"
  by (simp add: req_def)

lemma in_range_Nil [config_rules]: "in_range name v lo hi = [] \<longleftrightarrow> lo \<le> v \<and> v \<le> hi"
  by (auto simp: in_range_def)

lemma reject_Nil [config_rules]: "reject name broken = [] \<longleftrightarrow> \<not> broken"
  by (simp add: reject_def)

lemma accepted_parts:
  assumes "validate parse c = []"
  shows "validate_temporal c = []" "validate_sidecar parse c = []" "validateIdentity c = []" "validate_model_proxy parse c = []"
    "validate_execution c = []" "validate_process c = []" "validate_preparation (cg_Lifecycle c) = []"
    "validate_generation (cg_Lifecycle c) = []" "validateLifecyclePorts parse c = []" "validate_release c = []" "validate_cross c = []"
    "validate_destination parse (dv_Enabled (cg_Development c)) ''lifecycle.release.npm_registry'' (xr_NpmRegistry (lx_Release (cg_Lifecycle c))) = []"
    "validate_destination parse (dv_Enabled (cg_Development c)) ''lifecycle.release.browser_origin'' (xr_BrowserOrigin (lx_Release (cg_Lifecycle c))) = []"
  using assms by (simp_all add: validate_def Let_def)

text \<open>The bounds of the workflows of an accepted configuration.\<close>

lemma accepted_reconciliation:
  assumes "validate parse c = []"
  shows "second \<le> ReconcileInitialInterval (Bounds_of (cg_Execution c))"
    "ReconcileInitialInterval (Bounds_of (cg_Execution c)) \<le> ReconcileMaxInterval (Bounds_of (cg_Execution c))"
    "ReconcileInitialInterval (Bounds_of (cg_Execution c)) \<le> SettleMaxInterval (Bounds_of (cg_Execution c))"
    "ReconcileMaxDuration (Bounds_of (cg_Execution c)) \<le> 7 * 24 * hour"
    "10 \<le> sint (SettlePollBound (Bounds_of (cg_Execution c)))" "sint (SettlePollBound (Bounds_of (cg_Execution c))) \<le> 1500"
  using accepted_parts(5,11) [OF assms]
  by (simp_all add: validate_execution_def validate_cross_def Let_def config_rules Bounds_of_def)

lemma accepted_cleanup:
  assumes "validate parse c = []"
  shows "ControlActivityTimeout (Bounds_of (cg_Execution c)) \<le> UnresolvedSettleWindow (Bounds_of (cg_Execution c))"
    "UnresolvedSettleWindow (Bounds_of (cg_Execution c)) < CleanupTimeout (Bounds_of (cg_Execution c))"
    "CreateRequestLifetime (Bounds_of (cg_Execution c)) < ReconcileMaxDuration (Bounds_of (cg_Execution c))"
    "ReconcileMaxInterval (Bounds_of (cg_Execution c)) + CleanupTimeout (Bounds_of (cg_Execution c)) < ReconcileMaxDuration (Bounds_of (cg_Execution c))"
  using accepted_parts(11) [OF assms] by (simp_all add: validate_cross_def Let_def config_rules Bounds_of_def)

lemma accepted_lease:
  assumes "validate parse c = []"
  shows "5 * second \<le> LeaseRenewLead (Lifecycle_of (cg_Lifecycle c))"
    "LeaseRenewLead (Lifecycle_of (cg_Lifecycle c)) < LeaseTTL (Lifecycle_of (cg_Lifecycle c))"
  using accepted_parts(8) [OF assms] by (simp_all add: validate_generation_def Let_def config_rules Lifecycle_of_def)

lemma accepted_reconciliation_pos:
  assumes "validate parse c = []"
  shows "0 < ReconcileInitialInterval (Bounds_of (cg_Execution c))" "0 < ReconcileMaxInterval (Bounds_of (cg_Execution c))"
  using accepted_reconciliation(1,2) [OF assms] by (simp_all add: second_def)

text \<open>The ordinary calls of a worker on an accepted configuration are retried within their window, not for a number of attempts.\<close>

lemma accepted_windows:
  assumes "validate parse c = []"
  shows "MaximumAttempts (activityOptions q (Bounds_of (cg_Execution c))) = 0" "MaximumAttempts (readOptions q (Bounds_of (cg_Execution c))) = 0"
    "30 * second \<le> ScheduleToCloseTimeout (activityOptions q (Bounds_of (cg_Execution c)))"
    "ScheduleToCloseTimeout (activityOptions q (Bounds_of (cg_Execution c))) \<le> ScheduleToCloseTimeout (readOptions q (Bounds_of (cg_Execution c)))"
proof -
  have w: "30 * second \<le> xe_ControlOutageWindow (cg_Execution c)" "xe_ControlOutageWindow (cg_Execution c) \<le> xe_ControlReadWindow (cg_Execution c)"
    using accepted_parts(5) [OF assms] by (simp_all add: validate_execution_def Let_def config_rules)
  then show "MaximumAttempts (activityOptions q (Bounds_of (cg_Execution c))) = 0" "MaximumAttempts (readOptions q (Bounds_of (cg_Execution c))) = 0"
    "30 * second \<le> ScheduleToCloseTimeout (activityOptions q (Bounds_of (cg_Execution c)))"
    "ScheduleToCloseTimeout (activityOptions q (Bounds_of (cg_Execution c))) \<le> ScheduleToCloseTimeout (readOptions q (Bounds_of (cg_Execution c)))"
    by (simp_all add: activityOptions_def readOptions_def windowed_def Let_def Bounds_of_def second_def)
qed

section \<open>Outside development\<close>

text \<open>A transport that shows the peer's certificate to be the expected one: tls or mtls, with what each needs.\<close>

definition verified_transport :: "client_tls \<Rightarrow> bool" where
  "verified_transport t \<longleftrightarrow> ts_CAFile t \<noteq> '''' \<and>
     (ts_Mode t = ''tls'' \<or> ts_Mode t = ''mtls'' \<and> ts_CertFile t \<noteq> '''' \<and> ts_KeyFile t \<noteq> '''')"

lemma validate_tls_verified: "validate_tls name False t = [] \<Longrightarrow> verified_transport t"
  by (auto simp: validate_tls_def verified_transport_def config_rules split: if_splits)

text \<open>A workload certificate: a mode mtls with its three files, own or of the process.\<close>

definition certified_client :: "config \<Rightarrow> client_identity \<Rightarrow> bool" where
  "certified_client c ci \<longleftrightarrow> cy_Mode ci = ''mtls'' \<and> \<not> incomplete (Resolved c ci)"

definition real_destination :: "(string \<Rightarrow> url option) \<Rightarrow> string \<Rightarrow> bool" where
  "real_destination parse v \<longleftrightarrow> (\<exists>u. parse v = Some u \<and> ul_Scheme u = ''https'' \<and> ul_Host u \<noteq> '''' \<and> \<not> has_suffix (ul_Hostname u) ''.invalid'')"

lemma validate_destination_real: "validate_destination parse False key v = [] \<Longrightarrow> real_destination parse v"
  by (auto simp: validate_destination_def real_destination_def config_rules split: option.splits if_splits)

lemma accepted_transports:
  assumes "validate parse c = []" "\<not> dv_Enabled (cg_Development c)"
  shows "certified_client c (nc_Identity (cg_Control c))" "verified_transport (ResolvedTLS c (tp_TLS (cg_Temporal c)))"
    "tm_OTLPEndpoint (cg_Telemetry c) \<noteq> '''' \<Longrightarrow> verified_transport (ResolvedTLS c (tm_OTLPTLS (cg_Telemetry c)))"
  using accepted_parts(3) [OF assms(1)] assms(2) validate_tls_verified
  by (auto simp: validateIdentity_def certified_client_def Let_def config_rules split: if_splits)

lemma accepted_model_proxy:
  assumes "validate parse c = []" "\<not> dv_Enabled (cg_Development c)" "mx_Address (cg_ModelProxy c) \<noteq> ''''"
  shows "certified_client c (mx_Identity (cg_ModelProxy c)) \<and> mx_Token (cg_ModelProxy c) = '''' \<and>
    (\<exists>u. parse (mx_Address (cg_ModelProxy c)) = Some u \<and> ul_Scheme u = ''https'' \<and> \<not> ul_User u)"
  using accepted_parts(4) [OF assms(1)] assms(2,3)
  by (auto simp: validate_model_proxy_def certified_client_def Let_def config_rules split: if_splits option.splits)

lemma accepted_sidecar:
  assumes "validate parse c = []" "\<not> dv_Enabled (cg_Development c)"
  shows "sx_IdentityMode (ku_Sidecar (cg_Kubernetes c)) \<in> {''disabled'', ''mtls''}"
  using accepted_parts(2) [OF assms(1)] assms(2) by (auto simp: validate_sidecar_def Let_def config_rules split: if_splits)

lemma accepted_ports:
  assumes "validate parse c = []" "\<not> dv_Enabled (cg_Development c)"
  shows "lx_PagixDoubleDir (cg_Lifecycle c) = ''''" "lx_HostAbiProfile (cg_Lifecycle c) \<noteq> ''host-abi-dev-v1''"
    "px_DeclarationFile (lx_Pagix (cg_Lifecycle c)) \<noteq> '''' \<Longrightarrow> \<exists>u. parse (px_BaseURL (lx_Pagix (cg_Lifecycle c))) = Some u \<and> ul_Scheme u = ''https''"
  using accepted_parts(9) [OF assms(1)] assms(2)
  by (auto simp: validateLifecyclePorts_def validate_pagix_def Let_def config_rules split: if_splits option.splits)

lemma accepted_no_faults:
  assumes "validate parse c = []" "\<not> dv_Enabled (cg_Development c)"
  shows "dv_LoseReceiptOnce (cg_Development c) = []" "dv_HoldUntilCanceledOnce (cg_Development c) = []"
    "\<not> vn_Promote (tp_Versioning (cg_Temporal c))"
  using accepted_parts(1,11) [OF assms(1)] assms(2)
  by (auto simp: validate_temporal_def validate_cross_def Let_def config_rules split: if_splits)

text \<open>The environment places; it never enables what is DEVELOPMENT_ONLY.\<close>

lemma apply_env_sets:
  "apply_env takes environ = Inr (sets, unknown) \<Longrightarrow> (key, v) \<in> set sets \<Longrightarrow>
    \<exists>kv \<in> set environ. \<exists>name. cut_env kv = (name, v) \<and> map_of envOverrides name = Some key"
proof (induction environ arbitrary: sets unknown)
  case (Cons kv environ)
  obtain name w where kv: "cut_env kv = (name, w)" by fastforce
  show ?case
  proof (cases "apply_env takes environ")
    case (Inr p)
    then show ?thesis using Cons kv by (cases p) (fastforce split: if_splits option.splits)
  qed (use Cons.prems kv in \<open>auto split: if_splits option.splits\<close>)
qed simp

lemma env_never_develops:
  assumes "applyEnv takes environ = Inr sets" "(key, v) \<in> set sets"
  shows "take 12 key \<noteq> ''development.''"
proof -
  obtain unknown where "apply_env takes environ = Inr (sets, unknown)"
    using assms by (auto simp: applyEnv_def split: prod.splits if_splits sum.splits)
  then obtain name where "map_of envOverrides name = Some key" using apply_env_sets assms(2) by blast
  then have "key \<in> set (map snd envOverrides)" by (force dest: map_of_SomeD)
  moreover have "\<forall>k \<in> set (map snd envOverrides). take 12 k \<noteq> ''development.''" by (simp add: envOverrides_def)
  ultimately show ?thesis by blast
qed

section \<open>Examples\<close>

text \<open>A parse of the URLs of the examples.\<close>

definition example_url :: "string \<Rightarrow> url option" where
  "example_url s =
     (let https = take 8 s = ''https://''; rest = drop (if https then 8 else 7) s; host = takeWhile (\<lambda>ch. ch \<noteq> CHR ''/'') rest in
      if https \<or> take 7 s = ''http://''
      then Some \<lparr>ul_Scheme = (if https then ''https'' else ''http''), ul_Host = host, ul_Hostname = takeWhile (\<lambda>ch. ch \<noteq> CHR '':'') host, ul_User = False\<rparr>
      else None)"

definition placed_lifecycle :: lifecycle_config where
  "placed_lifecycle = default_lifecycle
     \<lparr>lx_HostAbiProfile := ''host-abi-2025.1'',
      lx_Pagix := \<lparr>px_DeclarationFile = ''/etc/pagix.yaml'', px_BaseURL = ''https://pagix.example'', px_Timeout = 30 * second,
        px_Identity = ''mtls'', px_TokenFile = '''', px_ServerName = ''''\<rparr>,
      lx_Release := (lx_Release default_lifecycle)\<lparr>xr_NpmRegistry := ''https://npm.example/'', xr_BrowserOrigin := ''https://cdn.example''\<rparr>\<rparr>"

definition placed_config :: config where
  "placed_config = default_config
     \<lparr>cg_Identity := \<lparr>id_CertFile = ''/id/tls.crt'', id_KeyFile = ''/id/tls.key'', id_CAFile = ''/id/ca.crt'', id_ReloadInterval = 5 * second\<rparr>,
      cg_Temporal := (cg_Temporal default_config)\<lparr>tp_Address := ''temporal:7233'', tp_TLS := (tls_mode ''tls'')\<lparr>ts_CAFile := ''/temporal/ca.crt''\<rparr>\<rparr>,
      cg_Control := (cg_Control default_config)\<lparr>nc_Address := ''control:8443''\<rparr>,
      cg_ModelProxy := (cg_ModelProxy default_config)\<lparr>mx_Address := ''https://proxy.example''\<rparr>,
      cg_Kubernetes := (cg_Kubernetes default_config)\<lparr>ku_LaunchBackend := ''cluster-1''\<rparr>,
      cg_Lifecycle := placed_lifecycle\<rparr>"

lemma placed_accepted: "validate example_url placed_config = []"
proof -
  have temporal: "validate_temporal placed_config = []"
    by (simp add: validate_temporal_def placed_config_def default_config_def Let_def config_rules)
  have sidecar: "validate_sidecar example_url placed_config = []"
    by (simp add: validate_sidecar_def placed_config_def default_config_def Let_def config_rules)
  have identity: "validateIdentity placed_config = []"
    by (simp add: validateIdentity_def placed_config_def default_config_def Let_def config_rules incomplete_def Resolved_def ResolvedTLS_def
        no_files_def tls_mode_def validate_tls_def milli_def hour_def minute_def second_def)
  have proxy: "validate_model_proxy example_url placed_config = []"
    by (simp add: validate_model_proxy_def placed_config_def default_config_def Let_def config_rules incomplete_def Resolved_def
        no_files_def example_url_def hour_def minute_def second_def)
  have execution: "validate_execution placed_config = []"
    by (simp add: validate_execution_def placed_config_def default_config_def default_execution_def Let_def config_rules milli_def hour_def minute_def second_def)
  have process: "validate_process placed_config = []"
    by (simp add: validate_process_def placed_config_def default_config_def Let_def config_rules MinShutdownTimeout_def MaxShutdownTimeout_def
        milli_def hour_def minute_def second_def)
  have preparation: "validate_preparation (cg_Lifecycle placed_config) = []"
    by (simp add: validate_preparation_def placed_config_def placed_lifecycle_def default_lifecycle_def Let_def config_rules moneyPattern_def
        currencyPattern_def digit_char_def upper_char_def ascii_def hour_def minute_def second_def)
  have generation: "validate_generation (cg_Lifecycle placed_config) = []"
    by (simp add: validate_generation_def placed_config_def placed_lifecycle_def default_lifecycle_def Let_def config_rules hour_def minute_def second_def)
  have npm: "validate_destination example_url development name ''https://npm.example/'' = []" for development name
    by (simp add: validate_destination_def example_url_def has_suffix_def Let_def config_rules)
  have cdn: "validate_destination example_url development name ''https://cdn.example'' = []" for development name
    by (simp add: validate_destination_def example_url_def has_suffix_def Let_def config_rules)
  have ports: "validateLifecyclePorts example_url placed_config = []"
    by (simp add: validateLifecyclePorts_def validate_pagix_def placed_config_def placed_lifecycle_def default_lifecycle_def Let_def config_rules
        example_url_def hostAbiPattern_def lower_char_def digit_char_def ascii_def minute_def second_def)
  have release: "validate_release placed_config = []"
    by (simp add: validate_release_def placed_config_def placed_lifecycle_def default_lifecycle_def Let_def config_rules hour_def minute_def second_def)
  have cross: "validate_cross placed_config = []"
    by (simp add: validate_cross_def placed_config_def default_config_def default_execution_def Let_def config_rules hour_def minute_def second_def)
  have more: "xr_ValidatorProfile (lx_Release (cg_Lifecycle placed_config)) \<noteq> ''''"
    "xr_NpmRegistry (lx_Release (cg_Lifecycle placed_config)) = ''https://npm.example/''"
    "xr_BrowserOrigin (lx_Release (cg_Lifecycle placed_config)) = ''https://cdn.example''"
    by (simp_all add: placed_config_def placed_lifecycle_def default_lifecycle_def)
  show ?thesis
    by (simp add: validate_def Let_def temporal sidecar identity proxy execution process preparation generation npm cdn ports release cross more config_rules)
qed

text \<open>The defaults alone place nothing: they are rejected for what is required, and for their DEVELOPMENT_ONLY destinations.\<close>

lemma defaults_rejected: "''temporal.address'' \<in> set (validate parse default_config)" "''control.address'' \<in> set (validate parse default_config)"
  by (simp_all add: validate_def validate_temporal_def validate_sidecar_def default_config_def Let_def req_def)

section \<open>Properties\<close>

text \<open>
  A configuration accepted outside development has no DEVELOPMENT_ONLY placement. Control and a placed model proxy are called under
  mtls with all three certificate files, the proxy at an https URL and without a bearer token; Temporal and a placed collector are
  reached over tls or mtls with their CA bundle, under mtls with a certificate and its key; the sidecar is disabled or mtls and Knowledge
  is called under mtls; the bootstrap takes the configuration and no lifecycle port is the double; a declared Pagix has an https URL, the two
  release destinations are https hosts outside \<open>.invalid\<close>; the host profile is not the development one; and no fault
  injection and no promotion is on.
\<close>

lemma accepted_outside_development:
  assumes "validate parse c = []" "\<not> dv_Enabled (cg_Development c)"
  shows "certified_client c (nc_Identity (cg_Control c)) \<and> verified_transport (ResolvedTLS c (tp_TLS (cg_Temporal c))) \<and>
    (tm_OTLPEndpoint (cg_Telemetry c) = '''' \<or> verified_transport (ResolvedTLS c (tm_OTLPTLS (cg_Telemetry c)))) \<and>
    (mx_Address (cg_ModelProxy c) = '''' \<or> certified_client c (mx_Identity (cg_ModelProxy c)) \<and> mx_Token (cg_ModelProxy c) = '''' \<and>
       (\<exists>u. parse (mx_Address (cg_ModelProxy c)) = Some u \<and> ul_Scheme u = ''https'' \<and> \<not> ul_User u)) \<and>
    sx_IdentityMode (ku_Sidecar (cg_Kubernetes c)) \<in> {''disabled'', ''mtls''} \<and> knowledgeMode c = ''mtls'' \<and>
    lifecycleDouble c opens = Some False \<and>
    (\<forall>p. newLifecyclePorts c False declares dials = Some p \<longrightarrow> TheDouble \<notin> {lq_Lease p, lq_Source p, lq_Knowledge p, lq_Release p}) \<and>
    (px_DeclarationFile (lx_Pagix (cg_Lifecycle c)) = '''' \<or>
       (\<exists>u. parse (px_BaseURL (lx_Pagix (cg_Lifecycle c))) = Some u \<and> ul_Scheme u = ''https'')) \<and>
    real_destination parse (xr_NpmRegistry (lx_Release (cg_Lifecycle c))) \<and> real_destination parse (xr_BrowserOrigin (lx_Release (cg_Lifecycle c))) \<and>
    lx_HostAbiProfile (cg_Lifecycle c) \<noteq> ''host-abi-dev-v1'' \<and>
    dv_LoseReceiptOnce (cg_Development c) = [] \<and> dv_HoldUntilCanceledOnce (cg_Development c) = [] \<and> \<not> vn_Promote (tp_Versioning (cg_Temporal c))"
proof -
  have ports: "lifecycleDouble c opens = Some False"
      "\<forall>p. newLifecyclePorts c False declares dials = Some p \<longrightarrow> TheDouble \<notin> {lq_Lease p, lq_Source p, lq_Knowledge p, lq_Release p}"
    using accepted_ports(1) [OF assms] by (auto simp: lifecycleDouble_def newLifecyclePorts_def Let_def split: if_splits)
  have dest: "real_destination parse (xr_NpmRegistry (lx_Release (cg_Lifecycle c)))" "real_destination parse (xr_BrowserOrigin (lx_Release (cg_Lifecycle c)))"
    using accepted_parts(12,13) [OF assms(1)] assms(2) validate_destination_real by auto
  have mode: "knowledgeMode c = ''mtls''" using assms(2) by (simp add: knowledgeMode_def)
  show ?thesis
    using ports dest mode accepted_transports [OF assms] accepted_model_proxy [OF assms] accepted_sidecar [OF assms] accepted_ports(2,3) [OF assms]
      accepted_no_faults [OF assms] by blast
qed

lemma example_outside_development:
  "certified_client placed_config (nc_Identity (cg_Control placed_config)) \<and>
    (\<exists>u. example_url ''https://proxy.example'' = Some u \<and> ul_Scheme u = ''https'') \<and> real_destination example_url ''https://npm.example/''"
proof -
  have "\<not> dv_Enabled (cg_Development placed_config)" "mx_Address (cg_ModelProxy placed_config) = ''https://proxy.example''"
    "xr_NpmRegistry (lx_Release (cg_Lifecycle placed_config)) = ''https://npm.example/''"
    by (simp_all add: placed_config_def placed_lifecycle_def default_lifecycle_def default_config_def)
  from accepted_outside_development [OF placed_accepted this(1), of False False False] this(2,3) show ?thesis by auto
qed

text \<open>A change of one section leaves what the rules of the others say.\<close>

lemma validate_kubernetes_only:
  assumes "ku_Namespace k = ku_Namespace (cg_Kubernetes c)" "ku_LaunchBackend k = ku_LaunchBackend (cg_Kubernetes c)"
    "ku_Sidecar k = ku_Sidecar (cg_Kubernetes c)" "ku_EnabledProfiles k = ku_EnabledProfiles (cg_Kubernetes c)"
    and "validate parse c = []" "validate_process (c\<lparr>cg_Kubernetes := k\<rparr>) = []"
  shows "validate parse (c\<lparr>cg_Kubernetes := k\<rparr>) = []"
proof -
  let ?c = "c\<lparr>cg_Kubernetes := k\<rparr>"
  have f: "cg_Identity ?c = cg_Identity c" "cg_Telemetry ?c = cg_Telemetry c" "cg_Temporal ?c = cg_Temporal c" "cg_Control ?c = cg_Control c" "cg_ModelProxy ?c = cg_ModelProxy c" "cg_Kubernetes ?c = k" "cg_Execution ?c = cg_Execution c" "cg_Lifecycle ?c = cg_Lifecycle c" "cg_Development ?c = cg_Development c" "cg_HealthListen ?c = cg_HealthListen c" "cg_ShutdownTimeout ?c = cg_ShutdownTimeout c"
    by simp_all
  have "validate_temporal ?c = validate_temporal c"
    by (simp only: validate_temporal_def Let_def f)
  moreover have "validate_sidecar parse ?c = validate_sidecar parse c"
    by (simp only: validate_sidecar_def Let_def f assms(1-4))
  moreover have "validateIdentity ?c = validateIdentity c"
    by (simp only: validateIdentity_def Resolved_def ResolvedTLS_def Let_def f)
  moreover have "validate_model_proxy parse ?c = validate_model_proxy parse c"
    by (simp only: validate_model_proxy_def Resolved_def Let_def f assms(1-4))
  moreover have "validate_execution ?c = validate_execution c"
    by (simp only: validate_execution_def Let_def f)
  moreover have "validateLifecyclePorts parse ?c = validateLifecyclePorts parse c"
    by (simp only: validateLifecyclePorts_def validate_pagix_def Let_def f)
  moreover have "validate_release ?c = validate_release c"
    by (simp only: validate_release_def Let_def f)
  moreover have "validate_cross ?c = validate_cross c"
    by (simp only: validate_cross_def Let_def f)
  ultimately show ?thesis using assms(5,6) by (simp add: validate_def Let_def)
qed

lemma validate_execution_only:
  assumes "validate parse c = []" "validate_execution (c\<lparr>cg_Execution := e\<rparr>) = []" "validate_cross (c\<lparr>cg_Execution := e\<rparr>) = []"
  shows "validate parse (c\<lparr>cg_Execution := e\<rparr>) = []"
proof -
  let ?c = "c\<lparr>cg_Execution := e\<rparr>"
  have f: "cg_Identity ?c = cg_Identity c" "cg_Telemetry ?c = cg_Telemetry c" "cg_Temporal ?c = cg_Temporal c" "cg_Control ?c = cg_Control c" "cg_ModelProxy ?c = cg_ModelProxy c" "cg_Kubernetes ?c = cg_Kubernetes c" "cg_Execution ?c = e" "cg_Lifecycle ?c = cg_Lifecycle c" "cg_Development ?c = cg_Development c" "cg_HealthListen ?c = cg_HealthListen c" "cg_ShutdownTimeout ?c = cg_ShutdownTimeout c"
    by simp_all
  have "validate_temporal ?c = validate_temporal c"
    by (simp only: validate_temporal_def Let_def f)
  moreover have "validate_sidecar parse ?c = validate_sidecar parse c"
    by (simp only: validate_sidecar_def Let_def f)
  moreover have "validateIdentity ?c = validateIdentity c"
    by (simp only: validateIdentity_def Resolved_def ResolvedTLS_def Let_def f)
  moreover have "validate_model_proxy parse ?c = validate_model_proxy parse c"
    by (simp only: validate_model_proxy_def Resolved_def Let_def f)
  moreover have "validate_process ?c = validate_process c"
    by (simp only: validate_process_def Let_def f)
  moreover have "validateLifecyclePorts parse ?c = validateLifecyclePorts parse c"
    by (simp only: validateLifecyclePorts_def validate_pagix_def Let_def f)
  moreover have "validate_release ?c = validate_release c"
    by (simp only: validate_release_def Let_def f)
  ultimately show ?thesis using assms by (simp add: validate_def Let_def)
qed

text \<open>
  What the rules leave open. A client rate that is not a number passes every range check, and the retry intervals of Control are
  checked one by one only: the first may exceed the largest.
\<close>

lemma rate_not_checked: "validate example_url (placed_config\<lparr>cg_Kubernetes := (cg_Kubernetes placed_config)\<lparr>ku_ClientQPS := NaN\<rparr>\<rparr>) = []"
proof (rule validate_kubernetes_only [OF _ _ _ _ placed_accepted])
  show "validate_process (placed_config\<lparr>cg_Kubernetes := (cg_Kubernetes placed_config)\<lparr>ku_ClientQPS := NaN\<rparr>\<rparr>) = []"
    by (simp add: validate_process_def placed_config_def default_config_def Let_def config_rules MinShutdownTimeout_def MaxShutdownTimeout_def
        milli_def hour_def minute_def second_def)
qed simp_all

definition slow_start :: execution_config where
  "slow_start = default_execution\<lparr>xe_ControlRetryInitial := minute, xe_ControlRetryMaxInterval := second\<rparr>"

lemma retry_order_not_checked:
  "validate example_url (placed_config\<lparr>cg_Execution := slow_start\<rparr>) = []"
  "MaximumInterval (activityOptions q (Bounds_of slow_start)) < InitialInterval (activityOptions q (Bounds_of slow_start))"
proof -
  have "validate_execution (placed_config\<lparr>cg_Execution := slow_start\<rparr>) = []" "validate_cross (placed_config\<lparr>cg_Execution := slow_start\<rparr>) = []"
    by (simp_all add: validate_execution_def validate_cross_def slow_start_def placed_config_def default_config_def default_execution_def Let_def
        config_rules milli_def hour_def minute_def second_def)
  then show "validate example_url (placed_config\<lparr>cg_Execution := slow_start\<rparr>) = []" by (rule validate_execution_only [OF placed_accepted])
  show "MaximumInterval (activityOptions q (Bounds_of slow_start)) < InitialInterval (activityOptions q (Bounds_of slow_start))"
    by (simp add: slow_start_def default_execution_def activityOptions_def windowed_def control_retry_def Bounds_of_def Let_def minute_def second_def)
qed

end
