(* ===== verification/Configured.thy ===== *)
theory Configured
  imports Config Settle LocalCheckWf Preview ReleaseRuns RecoveryRuns
begin

text \<open>
  What the rules of a configuration give the runs of a worker: the bounds of an accepted one meet the hypotheses the
  component theories state of bounds, and put numbers on the waits.
\<close>

text \<open>
  A worker on an accepted configuration is not kept for ever: on an advancing clock every LocalCheck, every
  reconciliation of a cleanup and every preview and release run returns, whatever Control, the
  cluster and the other ports answer.
\<close>

lemma configured_workflows_return:
  assumes "validate parse c = []" "b = Bounds_of (cg_Execution c)" "lb = Lifecycle_of (cg_Lifecycle c)"
    and "advancing rt" "rt_version rt pollChange = 1"
  shows "LocalCheck rt q b inp w \<noteq> None \<and> reconcileCleanup rt x q b attempt launch l w \<noteq> None \<and>
    (in_Settle inp \<noteq> None \<or> PreviewBuild rt q b lb inp w \<noteq> None \<and> Release rt q b lb inp w \<noteq> None)"
proof -
  have b: "0 < ReconcileInitialInterval b" "0 < ReconcileMaxInterval b"
    using accepted_reconciliation_pos [OF assms(1)] assms(2) by simp_all
  have "LocalCheck rt q b inp w \<noteq> None" using LocalCheck_returns [OF assms(4,5) b] by fast
  moreover have "reconcileCleanup rt x q b attempt launch l w \<noteq> None"
    using reconcile_loop_returns [OF assms(4) b(2,1)] unfolding reconcileCleanup_def by fast
  moreover have "PreviewBuild rt q b lb inp w \<noteq> None" "Release rt q b lb inp w \<noteq> None" if "in_Settle inp = None"
    using PreviewBuild_total [OF assms(4,5) b that] Release_total [OF assms(4,5) b that] by simp_all
  ultimately show ?thesis by blast
qed

lemma example_workflows_return:
  "let b = Bounds_of (cg_Execution placed_config); lb = Lifecycle_of (cg_Lifecycle placed_config); w = with_gstate (start_world []) in
    LocalCheck (beside scripted) example_queues b example_input w \<noteq> None \<and> PreviewBuild (beside scripted) example_queues b lb example_input w \<noteq> None \<and>
    Release (beside scripted) example_queues b lb example_input w \<noteq> None"
proof -
  have "rt_version (beside scripted) pollChange = 1" "in_Settle example_input = None" by (simp_all add: scripted_def example_input_def)
  from configured_workflows_return [OF placed_accepted refl refl beside_advancing [OF scripted_advancing] this(1),
      where inp = example_input and w = "with_gstate (start_world [])"] this(2)
  show ?thesis unfolding Let_def by blast
qed

text \<open>
  The rules put numbers on the waits for Control. On an accepted configuration a close and a settlement return after at most
  1501 calls of a run, all under the one command.
\<close>

lemma configured_waits_bounded:
  assumes "validate parse c = []" "b = Bounds_of (cg_Execution c)" "rt_version rt pollChange = 1" "timers_cancel rt"
  shows "(\<exists>err w'. closeAttemptFrom rt x q b attempt commandID outcome cleanup failureCode start waiting w = Some (err, w') \<and>
      closes w' \<le> closes w + 1501 \<and> runs rt (close_event x q b (close_input attempt commandID outcome cleanup failureCode)) w w') \<and>
    (\<exists>err w'. settleWith rt x q b operationID tenantID carry w = Some (err, w') \<and>
      settles w' \<le> settles w + 1501 \<and> runs rt (settle_event x q b (settle_input operationID tenantID carry)) w w')"
proof -
  have bound: "nat (if sint (SettlePollBound b) \<le> 0 then defaultSettlePollBound else sint (SettlePollBound b)) \<le> 1500"
    using accepted_reconciliation(5,6) [OF assms(1)] assms(2) by simp
  show ?thesis
    using closeAttemptFrom_ends [OF assms(3), of x q b attempt commandID outcome cleanup failureCode start waiting w]
      settleWith_ends [OF assms(3,4), of x q b operationID tenantID carry w] bound by fastforce
qed

lemma example_waits_bounded:
  "\<exists>err w'. closeAttemptFrom scripted Disconnected example_queues (Bounds_of (cg_Execution placed_config)) example_attempt ''att_1:close''
      ''completed'' ''complete'' '''' 0 True (start_world []) = Some (err, w') \<and> closes w' \<le> 1501"
proof -
  have "rt_version scripted pollChange = 1" by (simp add: scripted_def)
  from conjunct1 [OF configured_waits_bounded [OF placed_accepted refl this scripted_timers, of Disconnected example_queues example_attempt "''att_1:close''" "''completed''"
      "''complete''" "''''" 0 True "start_world []" "''''" "''''" example_settle]]
  show ?thesis by (auto simp: closes_def start_world_def)
qed

text \<open>A recovery over all its continuations: at most a round a second for the seven days a reconciliation may last.\<close>

lemma configured_recovery_bounded:
  assumes "validate parse c = []" "b = Bounds_of (cg_Execution c)" "timers_cancel rt" "rt_version rt recoveryRounds = 1" "advancing rt"
    and "finite_answers rt left" "recovery_runs rt q b inp w (Some (ContinueAsNewError (ContinueRecovery inp1))) w'" "rn_Carry inp = None"
  shows "\<exists>carry. rn_Carry inp1 = Some carry \<and> rv_Round carry \<le> 604801"
proof -
  note acc = accepted_reconciliation [OF assms(1), folded assms(2)]
  let ?shortest = "min (ReconcileInitialInterval b) (ReconcileMaxInterval b)"
  have short: "second \<le> ?shortest" "0 < ReconcileInitialInterval b" "0 < ReconcileMaxInterval b" using acc(1,2) by (simp_all add: second_def)
  obtain carry where c: "rn_Carry inp1 = Some carry" "(rv_Round carry - 1) * ?shortest \<le> ReconcileMaxDuration b"
    using Recovery_rounds_bounded [OF assms(7,8,4,3,5,6) short(2,3)] by auto
  have "(rv_Round carry - 1) * second \<le> 7 * 24 * hour" if "rv_Round carry > 1"
    using c(2) acc(4) mult_left_mono [OF short(1), of "rv_Round carry - 1"] that by linarith
  then have "rv_Round carry \<le> 604801" by (cases "rv_Round carry > 1") (simp_all add: second_def hour_def minute_def)
  then show ?thesis using c(1) by blast
qed

end
