(* ===== verification/Spec2Isabelle.thy ===== *)
theory Spec2Isabelle
  imports Settle LocalCheckWf LauncherTruth Preview ReleaseRuns GenerationRuns RecoveryRuns PreparationProofs ReleaseProofs DoubleRuns
    Verify Configured
begin

text \<open>
  Verification development of the AnvilKit Agent workflow worker.

  The program. The worker runs Temporal workflows (\<^verbatim>\<open>internal/workflows\<close>) on behalf of Control, the
  service that owns the records of operations, attempts, launches, effects and leases. A workflow calls Activities
  (\<^verbatim>\<open>internal/activities\<close>) through the SDK and nothing else; an Activity calls ports: Control, the
  Job launcher (\<^verbatim>\<open>internal/adapters/kubernetes\<close>), the artifact store, the model proxy, the Pagix
  lease, source and release ports (\<^verbatim>\<open>internal/adapters/pagix\<close>). What is hard is that every answer can
  be lost and every call retried: a create request may commit after its answer was lost, an effect may have
  happened without a receipt, a lease may expire while its renewal is out. The code meets this with stable
  command identities, a ledger of create requests, evidence before deletion, one send per permit, and close and
  settle commands that are resubmitted until Control takes them. The development states what these give.

  How code is modelled. A workflow function is a HOL function on a \<open>world\<close>: the state of the environment and
  the trace of the calls the run made, newest first. The SDK is the parameter \<open>runtime\<close> (\<open>Temporal\<close>): what an
  Activity call, a timer, the clock, the cancellation of a context and a version gate answer. An early return is a branch,
  a Go error a value of \<open>wf_error\<close>, an answer with an error a sum. A deferred call is the continuation of the
  body. Loops the code bounds are \<open>fun\<close> or \<open>function\<close> with a measure; loops that end only when the environment
  lets them are \<open>partial_function (option)\<close>, where \<open>None\<close> is a run that never returns, and that they
  return is proved (there is no fuel). Create requests are counted in 32 bit words as in Go; times and durations are
  unbounded integers, since the configuration bounds every duration to ninety days at most.

  The theories.

  \<^item> \<open>Prelude\<close>, \<open>Types\<close>, \<open>ReleaseTypes\<close>, \<open>LifecycleTypes\<close>, \<open>Ports\<close>: shared lemmas, and the records of
    \<^verbatim>\<open>internal/activities\<close>. \<open>Temporal\<close>, \<open>Runs\<close>, \<open>Script\<close>: the SDK, what extends a trace, and the
    scripted runtime of the examples.
  \<^item> \<open>Ledger\<close>, \<open>Bounds\<close>, \<open>Polling\<close>, \<open>CreateJob\<close>, \<open>Cleanup\<close>, \<open>Accounted\<close>, \<open>Close\<close>, \<open>LocalCheckWf\<close>
    (\<^verbatim>\<open>localcheck.go\<close>): \<open>createLedger\<close>, the poller, \<open>createJob\<close>, \<open>cleanupRound\<close> with
    \<open>lifetimeEnded\<close> and \<open>reconcileCleanup\<close>, the closes, \<open>LocalCheck\<close>. They show that a stated cleanup is true:
    nothing is left under the launch key and nothing can appear there any more.
  \<^item> \<open>Template\<close>, \<open>Kube\<close>, \<open>Launcher\<close>, \<open>LauncherCalls\<close>, \<open>LauncherTruth\<close>
    (\<^verbatim>\<open>template.go\<close>, \<^verbatim>\<open>launcher.go\<close>): the Job template, the classification of
    creates, the observations and the evidence-first delete; the launcher refines the backend the
    cleanup is verified against, so a LocalCheck over the cluster leaves nothing.
  \<^item> \<open>JobStep\<close>, \<open>Settle\<close>, \<open>Outcomes\<close> (\<^verbatim>\<open>generation.go\<close>, \<^verbatim>\<open>lifecycle.go\<close>,
    \<^verbatim>\<open>preparation.go\<close>): what the lifecycle workflows share: one Job step, the settlement with its
    continuations, the outcome of a failure.
  \<^item> \<open>Preview\<close>; \<open>ReleaseWf\<close>, \<open>ReleaseSafe\<close>, \<open>ReleaseRuns\<close>; \<open>Lease\<close>, \<open>Generation\<close>, \<open>GenerationSafe\<close>,
    \<open>GenerationRuns\<close>; \<open>Recovery\<close>, \<open>RecoveryRuns\<close>; \<open>Preparation\<close>, \<open>PreparationSafe\<close>, \<open>PreparationRuns\<close>,
    \<open>PreparationProofs\<close>: the workflows of the files of those names. For each: a guard over its trace that every operation
    of the run keeps, that a run returns, and its properties. Coroutines act on a record that is part of the
    environment (\<open>gstate\<close>, \<open>prep_state\<close>): during any call they may change it as their code allows.
  \<^item> \<open>Analysis\<close> (\<^verbatim>\<open>lifecycle.go\<close>), \<open>Effects\<close> (\<^verbatim>\<open>lifecycle.go\<close>, \<^verbatim>\<open>preview.go\<close>,
    \<^verbatim>\<open>release.go\<close>), \<open>ReleaseActs\<close>, \<open>ReleaseProofs\<close> (\<^verbatim>\<open>release.go\<close>,
    \<^verbatim>\<open>releasetypes.go\<close>): the Activities with logic of their own. An Activity is a function on a \<open>port_world\<close>, the state
    of the ports with the log of the calls made. They show that model output is checked before it becomes requirements or
    questions, that the brief is read back as it was recorded, that no effect is sent twice over any history of calls, and
    that a publication or a subject is answered only as far as its receipt or its certification binds it.
  \<^item> \<open>Double\<close>, \<open>DoubleLeases\<close>, \<open>DoubleRuns\<close> (\<^verbatim>\<open>pagix/double.go\<close>): the double of the lease and source
    ports: fences over any history of lease calls, one outcome per effect identity, linear revisions, and the recovery of a
    registration whose answer was lost by the Activity of \<open>Effects\<close>.

  \<^item> \<open>Verify\<close> (\<^verbatim>\<open>activities.go\<close>): \<open>VerifyResult\<close>, the observer of a LocalCheck; a run over it accepts as
    certified only what the backend reported of the first Pod and the reviewed expectation of the profile confirms.
  \<^item> \<open>Config\<close>, \<open>Configured\<close> (\<^verbatim>\<open>config.go\<close>, \<^verbatim>\<open>module.go\<close>): the rules a configuration passes before
    the worker starts, the bounds and the ports made of it; outside development nothing DEVELOPMENT_ONLY is placed, and the bounds of an
    accepted configuration meet what the other theories assume of bounds, so the runs of its worker return.

  The interfaces are locales, each interpreted on the code's definitions: \<open>request_account\<close> (a ledger of requests),
  \<open>paced\<close> and \<open>polled\<close> (a wait on Control and its bound), \<open>recorded_effects\<close> (an upstream that records what it is sent under an
  identity; the double's registrations and saves).

  What is assumed of code that is not here is a hypothesis with a witness: \<open>advancing\<close> (the clock moves with calls and timers),
  \<open>timers_cancel\<close> (a timer fails only when canceled), \<open>truthful\<close>, \<open>backend_truthful\<close>, \<open>creates_truthful\<close> and
  \<open>cluster_truthful\<close> (what the backend and the API server promise about the objects and requests under a launch key),
  \<open>supervised\<close>, \<open>lively\<close>, \<open>awaits_ready\<close>, \<open>queue_bounded\<close> (coroutines act as their code does, waits return when their
  condition holds, holds and queueing end), \<open>finite_answers\<close> (Control's inventory, findings and the objects under a key are finite),
  \<open>handlers_only\<close> and \<open>clarify_returns\<close> (answer Updates run as their handler does, the wait for an answer ends at its expiry),
  \<open>analysis_served\<close> and \<open>verification_served\<close> (analyses and verifications are calls of the Activity), \<open>single_use\<close> (Control permits an effect once), \<open>codec_faithful\<close> and
  \<open>store_binds\<close> (what is encoded is read back, artifacts are bound by their digest), and \<open>inj sha\<close> (no collision of sha256).

  What a trace shows of a close: \<open>close_sent\<close> is that Control was sent a close of the attempt, \<open>attempt_closed\<close> that Control
  granted one. The analysis round of a preparation and the steps that save or register only log a refused close, so their properties
  state the first and derive the second where Control grants.

  Bounds. Polls end at \<open>SettlePollBound\<close> or the reconciliation duration; retries of a create at the retry maximum; repairs of a
  generation at the bound of its definition; analysis repairs at the content repair allowance; recovery rounds at the
  reconciliation duration over the shortest pause. The properties state them.

  Not modelled: the clients of Control, the artifact store, Knowledge, the model proxy and Pagix (\<^verbatim>\<open>internal/adapters\<close>), which
  map structs to generated messages and do network I/O, and the release side of the Pagix double, which keeps files of a
  served origin; the forwarding Activities; the reading of the configuration file; identity, the wiring of the process, telemetry and
  redaction. Logging and heartbeats have no effect on a run and are left out, as are file system failures of the double. Fences and
  revisions of the double are natural numbers (in Go 64 bit words, which would wrap after \<open>2 ^ 64\<close> grants or saves).
\<close>

end
